(* ===== verification/Prelude.thy ===== *)
theory Prelude
  imports Main "HOL-Library.Word" "HOL-Library.Monad_Syntax" "HOL-Library.Signed_Division"
begin

text \<open>
  What every component of the development shares: names for the machine types of the
  i386 C code, the 32-bit wrap-around of a signed \<open>int\<close> or \<open>long\<close>, the error numbers
  of \<open>include/errno.h\<close>, the collections of rewrite rules, and generic lemmas on words,
  lists and options.

  Conventions. An operation of the kernel that can \<open>panic()\<close>, or sleep for ever, has
  type \<open>\<dots> \<Rightarrow> 's \<Rightarrow> ('a \<times> 's) option\<close>: \<open>None\<close> is \<^emph>\<open>does not return\<close> (the
  machine halts in \<open>panic\<close>, or the caller is never woken) and \<open>Some (r, s')\<close> is a return
  with result \<open>r\<close> in the state \<open>s'\<close>. They are composed with the option monad's
  \<open>do\<close> notation. An operation that always returns has type \<open>\<dots> \<Rightarrow> 's \<Rightarrow> 's\<close> or
  \<open>\<dots> \<Rightarrow> 's \<Rightarrow> 'a \<times> 's\<close>. Error returns are the negative integers of the source.
\<close>

unbundle bit_operations_syntax

subsection \<open>Machine types\<close>

type_synonym u8 = "8 word"
type_synonym u16 = "16 word"
type_synonym u32 = "32 word"

text \<open>A C \<open>int\<close> or \<open>long\<close> after an arithmetic operation: the low 32 bits, read as signed.\<close>

definition wrap32 :: "int \<Rightarrow> int" where
  "wrap32 k = signed_take_bit 31 k"

subsection \<open>Error numbers\<close>

abbreviation (input) ERROR :: int where "ERROR \<equiv> 99"
abbreviation (input) EPERM :: int where "EPERM \<equiv> 1"
abbreviation (input) ENOENT :: int where "ENOENT \<equiv> 2"
abbreviation (input) ESRCH :: int where "ESRCH \<equiv> 3"
abbreviation (input) EINTR :: int where "EINTR \<equiv> 4"
abbreviation (input) EIO :: int where "EIO \<equiv> 5"
abbreviation (input) ENXIO :: int where "ENXIO \<equiv> 6"
abbreviation (input) E2BIG :: int where "E2BIG \<equiv> 7"
abbreviation (input) ENOEXEC :: int where "ENOEXEC \<equiv> 8"
abbreviation (input) EBADF :: int where "EBADF \<equiv> 9"
abbreviation (input) ECHILD :: int where "ECHILD \<equiv> 10"
abbreviation (input) EAGAIN :: int where "EAGAIN \<equiv> 11"
abbreviation (input) ENOMEM :: int where "ENOMEM \<equiv> 12"
abbreviation (input) EACCES :: int where "EACCES \<equiv> 13"
abbreviation (input) EFAULT :: int where "EFAULT \<equiv> 14"
abbreviation (input) ENOTBLK :: int where "ENOTBLK \<equiv> 15"
abbreviation (input) EBUSY :: int where "EBUSY \<equiv> 16"
abbreviation (input) EEXIST :: int where "EEXIST \<equiv> 17"
abbreviation (input) EXDEV :: int where "EXDEV \<equiv> 18"
abbreviation (input) ENODEV :: int where "ENODEV \<equiv> 19"
abbreviation (input) ENOTDIR :: int where "ENOTDIR \<equiv> 20"
abbreviation (input) EISDIR :: int where "EISDIR \<equiv> 21"
abbreviation (input) EINVAL :: int where "EINVAL \<equiv> 22"
abbreviation (input) ENFILE :: int where "ENFILE \<equiv> 23"
abbreviation (input) EMFILE :: int where "EMFILE \<equiv> 24"
abbreviation (input) ENOTTY :: int where "ENOTTY \<equiv> 25"
abbreviation (input) ETXTBSY :: int where "ETXTBSY \<equiv> 26"
abbreviation (input) EFBIG :: int where "EFBIG \<equiv> 27"
abbreviation (input) ENOSPC :: int where "ENOSPC \<equiv> 28"
abbreviation (input) ESPIPE :: int where "ESPIPE \<equiv> 29"
abbreviation (input) EROFS :: int where "EROFS \<equiv> 30"
abbreviation (input) EMLINK :: int where "EMLINK \<equiv> 31"
abbreviation (input) EPIPE :: int where "EPIPE \<equiv> 32"
abbreviation (input) ENOSYS :: int where "ENOSYS \<equiv> 38"
abbreviation (input) ENOTEMPTY :: int where "ENOTEMPTY \<equiv> 39"

subsection \<open>Rule collections\<close>

named_theorems wrap_simps \<open>normalisation of 32-bit wrap-around\<close>
named_theorems frame_simps \<open>fields an operation does not touch\<close>
named_theorems inv_intros \<open>operations keep their component's invariant\<close>

subsection \<open>Wrap-around\<close>

lemma wrap32_idem [wrap_simps, simp]: "wrap32 (wrap32 k) = wrap32 k"
  by (simp add: wrap32_def)

lemma wrap32_add_left [wrap_simps]: "wrap32 (wrap32 a + b) = wrap32 (a + b)"
  by (metis signed_take_bit_add wrap32_def wrap32_idem)

lemma wrap32_add_right [wrap_simps]: "wrap32 (a + wrap32 b) = wrap32 (a + b)"
  by (metis add.commute wrap32_add_left)

lemma wrap32_diff_left [wrap_simps]: "wrap32 (wrap32 a - b) = wrap32 (a - b)"
  by (metis diff_conv_add_uminus wrap32_add_left)

lemma wrap32_id: "- (2 ^ 31) \<le> k \<Longrightarrow> k < 2 ^ 31 \<Longrightarrow> wrap32 k = k"
  by (simp add: wrap32_def signed_take_bit_int_eq_self)

lemma wrap32_range: "- (2 ^ 31) \<le> wrap32 k \<and> wrap32 k < 2 ^ 31"
  using signed_take_bit_int_greater_eq_minus_exp [of 31 k] signed_take_bit_int_less_exp [of 31 k]
  by (simp add: wrap32_def)

subsection \<open>Lists and options\<close>

lemma nth_list_update_if: "xs[i := v] ! j = (if i = j \<and> j < length xs then v else xs ! j)"
  by (metis list_update_beyond not_le nth_list_update_eq nth_list_update_neq)

lemma bind_Some_iff: "(Option.bind m f = Some y) \<longleftrightarrow> (\<exists>x. m = Some x \<and> f x = Some y)"
  by (cases m) auto

text \<open>A loop over a list of indices whose body may not return.\<close>

fun fold_opt :: "('b \<Rightarrow> 's \<Rightarrow> 's option) \<Rightarrow> 'b list \<Rightarrow> 's \<Rightarrow> 's option" where
  "fold_opt f [] s = Some s"
| "fold_opt f (x # xs) s = Option.bind (f x s) (fold_opt f xs)"

lemma fold_opt_append: "fold_opt f (xs @ ys) s = Option.bind (fold_opt f xs s) (fold_opt f ys)"
  by (induction xs arbitrary: s) (auto split: Option.bind_split)

lemma fold_opt_Some: "fold_opt (\<lambda>x s. Some (f x s)) xs s = Some (fold f xs s)"
  by (induction xs arbitrary: s) auto

lemma fold_opt_invariant:
  "fold_opt f xs s = Some s' \<Longrightarrow> I s \<Longrightarrow> (\<And>x s s'. x \<in> set xs \<Longrightarrow> I s \<Longrightarrow> f x s = Some s' \<Longrightarrow> I s') \<Longrightarrow> I s'"
  by (induction xs arbitrary: s) (auto simp: bind_Some_iff)

subsection \<open>Signed reading of a 32-bit word\<close>

lemma sint32_uint: "sint (w::u32) = (if uint w < 2 ^ 31 then uint w else uint w - 2 ^ 32)"
proof -
  have "sint w = (uint w + 2 ^ 31) mod 2 ^ 32 - 2 ^ 31"
    using int_word_sint [where 'a = 32 and x = "uint w"] by simp
  moreover have "(uint w + 2 ^ 31) mod 2 ^ 32 = uint w - 2 ^ 31" if "\<not> uint w < 2 ^ 31"
  proof -
    have "(uint w + 2 ^ 31) mod 2 ^ 32 = (uint w - 2 ^ 31 + 2 ^ 32) mod 2 ^ 32" by (simp add: add.commute)
    also have "\<dots> = uint w - 2 ^ 31"
      using that uint_lt2p [of w] by (simp only: mod_add_self2) (simp add: mod_pos_pos_trivial)
    finally show ?thesis .
  qed
  ultimately show ?thesis using uint_ge_0 [of w] by auto
qed

lemma uint_neg_sint: "sint (w::u32) < 0 \<Longrightarrow> uint (- w) = - sint w"
  using uint_lt2p [of w] by (simp add: sint32_uint uint_word_ariths zmod_zminus1_eq_if split: if_splits)

end
