(* ===== verification/Sched.thy ===== *)
theory Sched
  imports Prelude
begin

text \<open>
  \<open>kernel/sched.c\<close>: the task table, the scheduler, sleeping and waking, and the system
  calls that read or set a field of the current task. A \<open>struct task_struct *\<close> is the
  address of the structure; \<open>tasks\<close> is the memory that holds the structures and \<open>task\<close>
  the array of 64 pointers. A wait queue is a \<open>struct task_struct *\<close> somewhere in the
  kernel's data, so an operation on \<open>struct task_struct **\<close> takes the pair of functions that
  read and write that pointer.

  What runs while the current task is switched out (the other tasks and the interrupts) is
  the parameter \<open>env\<close>: \<open>env me s\<close> is the state in which task \<open>me\<close> gets the processor
  again, after \<open>schedule()\<close> left it in \<open>s\<close>, or \<open>None\<close> if it never does.
\<close>

subsection \<open>The task structure\<close>

abbreviation (input) NR_TASKS :: nat where "NR_TASKS \<equiv> 64"
abbreviation (input) NR_OPEN :: nat where "NR_OPEN \<equiv> 20"
abbreviation (input) HZ :: int where "HZ \<equiv> 100"

abbreviation (input) TASK_RUNNING :: int where "TASK_RUNNING \<equiv> 0"
abbreviation (input) TASK_INTERRUPTIBLE :: int where "TASK_INTERRUPTIBLE \<equiv> 1"
abbreviation (input) TASK_UNINTERRUPTIBLE :: int where "TASK_UNINTERRUPTIBLE \<equiv> 2"
abbreviation (input) TASK_ZOMBIE :: int where "TASK_ZOMBIE \<equiv> 3"
abbreviation (input) TASK_STOPPED :: int where "TASK_STOPPED \<equiv> 4"

abbreviation (input) SIGHUP :: nat where "SIGHUP \<equiv> 1"
abbreviation (input) SIGINT :: nat where "SIGINT \<equiv> 2"
abbreviation (input) SIGQUIT :: nat where "SIGQUIT \<equiv> 3"
abbreviation (input) SIGKILL :: nat where "SIGKILL \<equiv> 9"
abbreviation (input) SIGSEGV :: nat where "SIGSEGV \<equiv> 11"
abbreviation (input) SIGPIPE :: nat where "SIGPIPE \<equiv> 13"
abbreviation (input) SIGALRM :: nat where "SIGALRM \<equiv> 14"
abbreviation (input) SIGCHLD :: nat where "SIGCHLD \<equiv> 17"
abbreviation (input) SIGSTOP :: nat where "SIGSTOP \<equiv> 19"

record sigaction =
  sa_handler :: u32
  sa_mask :: u32
  sa_flags :: u32
  sa_restorer :: u32

record tss_struct =
  tss_esp0 :: u32
  tss_eip :: u32
  tss_eflags :: u32
  tss_eax :: u32
  tss_ecx :: u32
  tss_edx :: u32
  tss_ebx :: u32
  tss_esp :: u32
  tss_ebp :: u32
  tss_esi :: u32
  tss_edi :: u32
  tss_es :: u32
  tss_cs :: u32
  tss_ss :: u32
  tss_ds :: u32
  tss_fs :: u32
  tss_gs :: u32
  tss_ss0 :: u32
  tss_back_link :: u32
  tss_ldt :: u32
  tss_trace_bitmap :: u32

text \<open>
  \<open>ldt[1]\<close> and \<open>ldt[2]\<close> are kept as the base and limit that \<open>get_base\<close> and \<open>get_limit\<close>
  read from them. Inodes and open files are indices into \<open>inode_table\<close> and \<open>file_table\<close>.
\<close>

record task_struct =
  t_state :: int
  t_counter :: int
  t_priority :: int
  t_signal :: u32
  t_sigaction :: "sigaction list"
  t_blocked :: u32
  t_exit_code :: int
  t_start_code :: u32
  t_end_code :: u32
  t_end_data :: u32
  t_brk :: u32
  t_start_stack :: u32
  t_pid :: int
  t_father :: int
  t_pgrp :: int
  t_session :: int
  t_leader :: int
  t_uid :: u16
  t_euid :: u16
  t_suid :: u16
  t_gid :: u16
  t_egid :: u16
  t_sgid :: u16
  t_alarm :: int
  t_utime :: int
  t_stime :: int
  t_cutime :: int
  t_cstime :: int
  t_start_time :: int
  t_used_math :: bool
  t_tty :: int
  t_umask :: u16
  t_pwd :: "nat option"
  t_root :: "nat option"
  t_executable :: "nat option"
  t_close_on_exec :: u32
  t_filp :: "nat option list"
  t_code_base :: u32
  t_code_limit :: u32
  t_data_base :: u32
  t_data_limit :: u32
  t_tss :: tss_struct

text \<open>
  The scheduler's globals. \<open>umem\<close> is the user data segment of the current task as the
  \<open>fs\<close> segment register addresses it (\<open>include/asm/segment.h\<close>).
\<close>

record sched =
  jiffies :: int
  startup_time :: int
  current :: nat
  task :: "nat option list"
  tasks :: "nat \<Rightarrow> task_struct"
  last_task_used_math :: "nat option"
  last_pid :: int
  umem :: "u32 \<Rightarrow> u8"

text \<open>The address of the structure of task 0, which is part of the kernel's data.\<close>

definition init_task :: nat where
  "init_task = 0"

abbreviation (input) cur_task :: "'a sched_scheme \<Rightarrow> task_struct" where
  "cur_task s \<equiv> tasks s (current s)"

definition update_task :: "nat \<Rightarrow> (task_struct \<Rightarrow> task_struct) \<Rightarrow> 'a sched_scheme \<Rightarrow> 'a sched_scheme" where
  "update_task p f s = s\<lparr>tasks := (tasks s)(p := f (tasks s p))\<rparr>"

definition set_state :: "nat \<Rightarrow> int \<Rightarrow> 'a sched_scheme \<Rightarrow> 'a sched_scheme" where
  "set_state p v = update_task p (t_state_update (\<lambda>_. v))"

definition suser :: "'a sched_scheme \<Rightarrow> bool" where
  "suser s \<longleftrightarrow> t_euid (cur_task s) = 0"

definition CURRENT_TIME :: "'a sched_scheme \<Rightarrow> int" where
  "CURRENT_TIME s = startup_time s + jiffies s sdiv HZ"

subsection \<open>\<open>include/asm/segment.h\<close>\<close>

definition get_fs_byte :: "u32 \<Rightarrow> 'a sched_scheme \<Rightarrow> u8" where
  "get_fs_byte addr s = umem s addr"

definition get_fs_long :: "u32 \<Rightarrow> 'a sched_scheme \<Rightarrow> u32" where
  "get_fs_long addr s =
     ucast (umem s addr) OR push_bit 8 (ucast (umem s (addr + 1)))
       OR push_bit 16 (ucast (umem s (addr + 2))) OR push_bit 24 (ucast (umem s (addr + 3)))"

definition put_fs_byte :: "u8 \<Rightarrow> u32 \<Rightarrow> 'a sched_scheme \<Rightarrow> 'a sched_scheme" where
  "put_fs_byte val addr s = s\<lparr>umem := (umem s)(addr := val)\<rparr>"

definition put_fs_long :: "u32 \<Rightarrow> u32 \<Rightarrow> 'a sched_scheme \<Rightarrow> 'a sched_scheme" where
  "put_fs_long val addr s = s\<lparr>umem := (umem s)
     (addr := ucast val, addr + 1 := ucast (drop_bit 8 val),
      addr + 2 := ucast (drop_bit 16 val), addr + 3 := ucast (drop_bit 24 val))\<rparr>"

text \<open>A sequence of \<open>put_fs_byte\<close>s and of \<open>get_fs_byte\<close>s at increasing addresses.\<close>

fun write_bytes :: "u8 list \<Rightarrow> u32 \<Rightarrow> (u32 \<Rightarrow> u8) \<Rightarrow> (u32 \<Rightarrow> u8)" where
  "write_bytes [] a m = m"
| "write_bytes (y # ys) a m = write_bytes ys (a + 1) (m(a := y))"

definition read_bytes :: "u32 \<Rightarrow> nat \<Rightarrow> (u32 \<Rightarrow> u8) \<Rightarrow> u8 list" where
  "read_bytes a n m = map (\<lambda>j. m (a + of_nat j)) [0..<n]"

lemma length_read_bytes [simp]: "length (read_bytes a n m) = n"
  by (simp add: read_bytes_def)

lemma read_bytes_0 [simp]: "read_bytes a 0 m = []"
  by (simp add: read_bytes_def)

lemma read_bytes_Suc: "read_bytes a (Suc n) m = m a # read_bytes (a + 1) n m"
  by (simp add: read_bytes_def upt_conv_Cons map_Suc_upt [symmetric] comp_def add.assoc del: upt_Suc)

lemma read_bytes_append: "read_bytes a (m + n) f = read_bytes a m f @ read_bytes (a + of_nat m) n f"
  by (induction m arbitrary: a) (simp_all add: read_bytes_Suc add.assoc)

lemma write_bytes_append: "write_bytes (xs @ ys) a m = write_bytes ys (a + of_nat (length xs)) (write_bytes xs a m)"
  by (induction xs arbitrary: a m) (simp_all add: add.assoc)

lemma write_bytes_other:
  "(\<And>j. j < length ys \<Longrightarrow> x \<noteq> a + of_nat j) \<Longrightarrow> write_bytes ys a m x = m x"
proof (induction ys arbitrary: a m)
  case (Cons y ys)
  have "write_bytes ys (a + 1) (m(a := y)) x = (m(a := y)) x"
    using Cons.prems [of "Suc _"] by (intro Cons.IH) (simp add: add.assoc)
  with Cons.prems [of 0] show ?case by simp
qed simp

lemma write_bytes_nth:
  "length ys < 2 ^ 32 \<Longrightarrow> j < length ys \<Longrightarrow> write_bytes ys a m (a + of_nat j) = ys ! j"
proof (induction ys arbitrary: a m j)
  case (Cons y ys)
  show ?case
  proof (cases j)
    case 0
    have "(of_nat (Suc i) :: u32) \<noteq> 0" if "i < length ys" for i
      using that Cons.prems(1) by (simp only: word_of_nat_eq_0_iff) (auto dest!: dvd_imp_le)
    then have "write_bytes ys (a + 1) (m(a := y)) a = (m(a := y)) a"
      by (intro write_bytes_other) (simp add: add.assoc)
    with 0 show ?thesis by simp
  next
    case (Suc i)
    have "write_bytes ys (a + 1) (m(a := y)) ((a + 1) + of_nat i) = ys ! i"
      using Cons.prems Suc by (intro Cons.IH) simp_all
    with Suc show ?thesis by (simp only: write_bytes.simps of_nat_Suc nth_Cons_Suc add.assoc)
  qed
qed simp

text \<open>What is written is read back.\<close>

lemma read_write_bytes: "length ys < 2 ^ 32 \<Longrightarrow> read_bytes a (length ys) (write_bytes ys a m) = ys"
  by (intro nth_equalityI) (simp_all add: read_bytes_def write_bytes_nth)

subsection \<open>\<open>schedule\<close>\<close>

text \<open>The bit of a signal in a mask: \<open>1<<(sig-1)\<close>.\<close>

definition sig_bit :: "nat \<Rightarrow> u32" where
  "sig_bit sig = push_bit (sig - 1) 1"

definition BLOCKABLE :: u32 where
  "BLOCKABLE = NOT (sig_bit SIGKILL OR sig_bit SIGSTOP)"

text \<open>The loops \<open>for(p = &LAST_TASK ; p > &FIRST_TASK ; --p)\<close> visit the slots 63 down to 1.\<close>

definition task_slots :: "nat list" where
  "task_slots = rev [1..<NR_TASKS]"

definition check_signals :: "nat \<Rightarrow> 'a sched_scheme \<Rightarrow> 'a sched_scheme" where
  "check_signals i s =
     (case task s ! i of
        None \<Rightarrow> s
      | Some p \<Rightarrow>
          let s = (if t_alarm (tasks s p) \<noteq> 0 \<and> t_alarm (tasks s p) < jiffies s
                   then update_task p (\<lambda>t. t\<lparr>t_signal := t_signal t OR sig_bit SIGALRM, t_alarm := 0\<rparr>) s
                   else s)
          in if t_signal (tasks s p) AND NOT (BLOCKABLE AND t_blocked (tasks s p)) \<noteq> 0
                \<and> t_state (tasks s p) = TASK_INTERRUPTIBLE
             then set_state p TASK_RUNNING s
             else s)"

text \<open>One pass of the scheduler proper: the largest counter found and its slot.\<close>

definition pick_step :: "'a sched_scheme \<Rightarrow> nat \<Rightarrow> int \<times> nat \<Rightarrow> int \<times> nat" where
  "pick_step s i = (\<lambda>(c, next).
     case task s ! i of
       None \<Rightarrow> (c, next)
     | Some p \<Rightarrow> if t_state (tasks s p) = TASK_RUNNING \<and> t_counter (tasks s p) > c
                 then (t_counter (tasks s p), i) else (c, next))"

definition pick_next :: "'a sched_scheme \<Rightarrow> int \<times> nat" where
  "pick_next s = fold (pick_step s) task_slots (-1, 0)"

definition recharge :: "nat \<Rightarrow> 'a sched_scheme \<Rightarrow> 'a sched_scheme" where
  "recharge i s =
     (case task s ! i of
        None \<Rightarrow> s
      | Some p \<Rightarrow> update_task p (\<lambda>t. t\<lparr>t_counter := t_counter t div 2 + t_priority t\<rparr>) s)"

definition recharge_all :: "'a sched_scheme \<Rightarrow> 'a sched_scheme" where
  "recharge_all s = fold recharge task_slots s"

partial_function (option) schedule_loop :: "'a sched_scheme \<Rightarrow> (nat \<times> 'a sched_scheme) option" where
  "schedule_loop s =
     (let (c, next) = pick_next s
      in if c \<noteq> 0 then Some (next, s) else schedule_loop (recharge_all s))"

text \<open>A jump to the task state segment of an empty slot is a processor fault.\<close>

definition switch_to :: "nat \<Rightarrow> 'a sched_scheme \<Rightarrow> 'a sched_scheme option" where
  "switch_to n s = (case task s ! n of None \<Rightarrow> None | Some p \<Rightarrow> Some (s\<lparr>current := p\<rparr>))"

definition schedule :: "'a sched_scheme \<Rightarrow> 'a sched_scheme option" where
  "schedule s =
     do { let s = fold check_signals task_slots s;
          (next, s) \<leftarrow> schedule_loop s;
          switch_to next s }"

subsection \<open>Sleeping and waking\<close>

type_synonym 's wait_queue = "('s \<Rightarrow> nat option) \<times> (nat option \<Rightarrow> 's \<Rightarrow> 's)"

type_synonym 's environment = "nat \<Rightarrow> 's \<Rightarrow> 's option"

text \<open>
  \<open>schedule()\<close> as its caller sees it: it returns when the caller runs again. When the
  caller is itself the task picked, \<open>switch_to\<close> does nothing and no one else runs.
\<close>

definition reschedule :: "'a sched_scheme environment \<Rightarrow> 'a sched_scheme \<Rightarrow> 'a sched_scheme option" where
  "reschedule env s =
     do { let me = current s;
          s \<leftarrow> schedule s;
          if current s = me then Some s else env me s }"

definition sleep_on ::
  "'a sched_scheme environment \<Rightarrow> 'a sched_scheme wait_queue \<Rightarrow> 'a sched_scheme \<Rightarrow> 'a sched_scheme option" where
  "sleep_on env p s =
     (if current s = init_task then None
      else do {
        let tmp = fst p s;
        let s = snd p (Some (current s)) s;
        let s = set_state (current s) TASK_UNINTERRUPTIBLE s;
        s \<leftarrow> reschedule env s;
        Some (case tmp of None \<Rightarrow> s | Some t \<Rightarrow> set_state t TASK_RUNNING s)
      })"

partial_function (option) interruptible_sleep_loop ::
  "'a sched_scheme environment \<Rightarrow> 'a sched_scheme wait_queue \<Rightarrow> 'a sched_scheme \<Rightarrow> 'a sched_scheme option" where
  "interruptible_sleep_loop env p s =
     do { let s = set_state (current s) TASK_INTERRUPTIBLE s;
          s \<leftarrow> reschedule env s;
          case fst p s of
            None \<Rightarrow> Some s
          | Some t \<Rightarrow>
              if t \<noteq> current s then interruptible_sleep_loop env p (set_state t TASK_RUNNING s)
              else Some s }"

definition interruptible_sleep_on ::
  "'a sched_scheme environment \<Rightarrow> 'a sched_scheme wait_queue \<Rightarrow> 'a sched_scheme \<Rightarrow> 'a sched_scheme option" where
  "interruptible_sleep_on env p s =
     (if current s = init_task then None
      else do {
        let tmp = fst p s;
        let s = snd p (Some (current s)) s;
        s \<leftarrow> interruptible_sleep_loop env p s;
        let s = snd p None s;
        Some (case tmp of None \<Rightarrow> s | Some t \<Rightarrow> set_state t TASK_RUNNING s)
      })"

definition wake_up :: "'a sched_scheme wait_queue \<Rightarrow> 'a sched_scheme \<Rightarrow> 'a sched_scheme" where
  "wake_up p s =
     (case fst p s of None \<Rightarrow> s | Some t \<Rightarrow> snd p None (set_state t TASK_RUNNING s))"

definition sys_pause :: "'a sched_scheme environment \<Rightarrow> 'a sched_scheme \<Rightarrow> (int \<times> 'a sched_scheme) option" where
  "sys_pause env s =
     do { let s = set_state (current s) TASK_INTERRUPTIBLE s;
          s \<leftarrow> reschedule env s;
          Some (0, s) }"

subsection \<open>Fields of the current task\<close>

definition sys_alarm :: "int \<Rightarrow> 'a sched_scheme \<Rightarrow> int \<times> 'a sched_scheme" where
  "sys_alarm seconds s =
     (let old = t_alarm (cur_task s);
          old = (if old \<noteq> 0 then wrap32 (old - jiffies s) sdiv HZ else old)
      in (old, update_task (current s)
                 (t_alarm_update (\<lambda>_. if seconds > 0 then wrap32 (jiffies s + HZ * seconds) else 0)) s))"

definition sys_getpid :: "'a sched_scheme \<Rightarrow> int" where
  "sys_getpid s = t_pid (cur_task s)"

definition sys_getppid :: "'a sched_scheme \<Rightarrow> int" where
  "sys_getppid s = t_father (cur_task s)"

definition sys_getuid :: "'a sched_scheme \<Rightarrow> int" where
  "sys_getuid s = uint (t_uid (cur_task s))"

definition sys_geteuid :: "'a sched_scheme \<Rightarrow> int" where
  "sys_geteuid s = uint (t_euid (cur_task s))"

definition sys_getgid :: "'a sched_scheme \<Rightarrow> int" where
  "sys_getgid s = uint (t_gid (cur_task s))"

definition sys_getegid :: "'a sched_scheme \<Rightarrow> int" where
  "sys_getegid s = uint (t_egid (cur_task s))"

definition sys_nice :: "int \<Rightarrow> 'a sched_scheme \<Rightarrow> int \<times> 'a sched_scheme" where
  "sys_nice increment s =
     (if wrap32 (t_priority (cur_task s) - increment) > 0
      then (0, update_task (current s) (\<lambda>t. t\<lparr>t_priority := wrap32 (t_priority t - increment)\<rparr>) s)
      else (0, s))"

subsection \<open>The scheduler picks a runnable task with the largest time slice\<close>

definition task_ptrs :: "'a sched_scheme \<Rightarrow> nat set" where
  "task_ptrs s = {p. Some p \<in> set (task s)}"

definition runnable :: "'a sched_scheme \<Rightarrow> nat \<Rightarrow> bool" where
  "runnable s p \<longleftrightarrow> (\<exists>i \<in> {1..<NR_TASKS}. task s ! i = Some p) \<and> t_state (tasks s p) = TASK_RUNNING"

definition sched_ok :: "'a sched_scheme \<Rightarrow> bool" where
  "sched_ok s \<longleftrightarrow> length (task s) = NR_TASKS \<and> task s ! 0 = Some init_task
     \<and> (\<forall>p \<in> task_ptrs s. 0 \<le> t_counter (tasks s p) \<and> 0 < t_priority (tasks s p))"

lemma set_task_slots [simp]: "set task_slots = {1..<NR_TASKS}"
  by (simp only: task_slots_def set_rev set_upt)

lemma update_task_simps [frame_simps, simp]:
  "jiffies (update_task p f s) = jiffies s" "startup_time (update_task p f s) = startup_time s"
  "current (update_task p f s) = current s" "task (update_task p f s) = task s"
  "last_task_used_math (update_task p f s) = last_task_used_math s" "last_pid (update_task p f s) = last_pid s"
  "umem (update_task p f s) = umem s" "sched.more (update_task p f s) = sched.more s"
  "tasks (update_task p f s) q = (if q = p then f (tasks s p) else tasks s q)"
  by (simp_all add: update_task_def)

text \<open>What a pass over the slots may do: rewrite task structures, and nothing else.\<close>

definition only_tasks :: "(task_struct \<Rightarrow> task_struct \<Rightarrow> bool) \<Rightarrow> 'a sched_scheme \<Rightarrow> 'a sched_scheme \<Rightarrow> bool" where
  "only_tasks R s s' \<longleftrightarrow> (\<exists>t. s' = s\<lparr>tasks := t\<rparr> \<and> (\<forall>p. R (tasks s p) (t p)))"

lemma only_tasks_refl: "(\<And>t. R t t) \<Longrightarrow> only_tasks R s s"
  unfolding only_tasks_def by (rule exI [of _ "tasks s"]) simp

lemma only_tasks_trans:
  assumes "\<And>t u v. R t u \<Longrightarrow> R u v \<Longrightarrow> R t v"
  shows "only_tasks R s s' \<Longrightarrow> only_tasks R s' s'' \<Longrightarrow> only_tasks R s s''"
  unfolding only_tasks_def using assms by auto (metis sched.simps(5) sched.surjective)

lemma only_tasks_update: "(\<And>t. R t t) \<Longrightarrow> R (tasks s p) (f (tasks s p)) \<Longrightarrow> only_tasks R s (update_task p f s)"
  unfolding only_tasks_def update_task_def by (rule exI [of _ "(tasks s)(p := f (tasks s p))"]) simp

lemma only_tasks_fold:
  assumes "\<And>t. R t t" "\<And>t u v. R t u \<Longrightarrow> R u v \<Longrightarrow> R t v" "\<And>i s. only_tasks R s (f i s)"
  shows "only_tasks R s (fold f xs s)"
proof (induction xs arbitrary: s)
  case Nil
  show ?case by (simp add: only_tasks_refl assms(1))
next
  case (Cons x xs)
  then show ?case
    using only_tasks_trans [of R s "f x s" "fold f xs (f x s)"] assms(2) assms(3) [of s x] by simp
qed

definition same_slice :: "task_struct \<Rightarrow> task_struct \<Rightarrow> bool" where
  "same_slice t u \<longleftrightarrow> t_counter u = t_counter t \<and> t_priority u = t_priority t"

lemma check_signals_only: "only_tasks same_slice s (fold check_signals xs s)"
proof (rule only_tasks_fold)
  fix i and s :: "'a sched_scheme"
  show "only_tasks same_slice s (check_signals i s)"
    unfolding only_tasks_def check_signals_def set_state_def update_task_def same_slice_def
    by (auto simp: Let_def split: option.split intro!: exI)
qed (auto simp: same_slice_def)

definition recharged :: "task_struct \<Rightarrow> task_struct \<Rightarrow> bool" where
  "recharged t u \<longleftrightarrow> t_priority u = t_priority t \<and> t_state u = t_state t
     \<and> (0 < t_priority t \<longrightarrow> (0 \<le> t_counter t \<longrightarrow> 0 \<le> t_counter u) \<and> (0 < t_counter t \<longrightarrow> 0 < t_counter u))"

lemma recharged_trans: "recharged t u \<Longrightarrow> recharged u v \<Longrightarrow> recharged t v"
  by (auto simp: recharged_def)

lemma recharge_only: "only_tasks recharged s (recharge i s)"
  by (cases "task s ! i")
    (auto simp: recharge_def recharged_def intro!: only_tasks_refl only_tasks_update)

lemma recharge_fold_only: "only_tasks recharged s (fold recharge xs s)"
  by (rule only_tasks_fold) (auto simp: recharge_only recharged_def)

lemma recharge_fold_pos:
  assumes "i \<in> set xs" "task s ! i = Some p" "0 < t_priority (tasks s p)" "0 \<le> t_counter (tasks s p)"
  shows "0 < t_counter (tasks (fold recharge xs s) p)"
  using assms
proof (induction xs arbitrary: s)
  case (Cons x xs)
  obtain t where t: "recharge x s = s\<lparr>tasks := t\<rparr>" "\<forall>p. recharged (tasks s p) (t p)"
    using recharge_only [of s x] by (auto simp: only_tasks_def)
  show ?case
  proof (cases "x = i")
    case True
    have "0 < t_counter (tasks (recharge x s) p)"
      using Cons.prems True by (simp add: recharge_def)
    moreover have "recharged (tasks (recharge x s) p) (tasks (fold recharge xs (recharge x s)) p)"
      using recharge_fold_only [of "recharge x s" xs] by (auto simp: only_tasks_def)
    moreover have "0 < t_priority (tasks (recharge x s) p)"
      using t Cons.prems by (simp add: recharged_def)
    ultimately show ?thesis by (simp add: recharged_def)
  next
    case False
    with Cons.prems t have "i \<in> set xs" "task (recharge x s) ! i = Some p"
      "0 < t_priority (tasks (recharge x s) p)" "0 \<le> t_counter (tasks (recharge x s) p)"
      by (auto simp: recharged_def)
    then show ?thesis using Cons.IH by simp
  qed
qed simp

lemma pick_fold:
  "fold (pick_step s) xs (c0, n0) = (c, n) \<Longrightarrow>
     c0 \<le> c \<and> (\<forall>i \<in> set xs. \<forall>p. task s ! i = Some p \<and> t_state (tasks s p) = TASK_RUNNING \<longrightarrow> t_counter (tasks s p) \<le> c)
     \<and> (c = c0 \<and> n = n0 \<or> c0 < c \<and> n \<in> set xs \<and>
          (\<exists>p. task s ! n = Some p \<and> t_state (tasks s p) = TASK_RUNNING \<and> t_counter (tasks s p) = c))"
proof (induction xs arbitrary: c0 n0)
  case (Cons x xs)
  obtain c1 n1 where step: "pick_step s x (c0, n0) = (c1, n1)" by fastforce
  with Cons.prems have "fold (pick_step s) xs (c1, n1) = (c, n)" by simp
  note IH = Cons.IH [OF this]
  from step have "c0 \<le> c1" "\<forall>p. task s ! x = Some p \<and> t_state (tasks s p) = TASK_RUNNING \<longrightarrow> t_counter (tasks s p) \<le> c1"
    "c1 = c0 \<and> n1 = n0 \<or> c0 < c1 \<and> n1 = x \<and>
       (\<exists>p. task s ! n1 = Some p \<and> t_state (tasks s p) = TASK_RUNNING \<and> t_counter (tasks s p) = c1)"
    by (auto simp: pick_step_def split: option.splits if_splits)
  with IH show ?case by auto
qed simp

lemma pick_next_spec:
  assumes "pick_next s = (c, n)"
  shows "\<forall>p. runnable s p \<longrightarrow> t_counter (tasks s p) \<le> c"
    and "c = -1 \<and> n = 0 \<or> -1 < c \<and> n \<in> {1..<NR_TASKS} \<and> (\<exists>p. task s ! n = Some p \<and> runnable s p \<and> t_counter (tasks s p) = c)"
proof -
  have *: "fold (pick_step s) task_slots (-1, 0) = (c, n)" using assms by (simp add: pick_next_def)
  show "\<forall>p. runnable s p \<longrightarrow> t_counter (tasks s p) \<le> c"
    using pick_fold [OF *] unfolding runnable_def by auto
  show "c = -1 \<and> n = 0 \<or> -1 < c \<and> n \<in> {1..<NR_TASKS} \<and> (\<exists>p. task s ! n = Some p \<and> runnable s p \<and> t_counter (tasks s p) = c)"
    using pick_fold [OF *] unfolding runnable_def set_task_slots by blast
qed

lemma only_tasks_simps:
  assumes "only_tasks R s s'"
  shows "task s' = task s" "current s' = current s" "jiffies s' = jiffies s" "R (tasks s p) (tasks s' p)"
  using assms by (auto simp: only_tasks_def)

lemma task_ptrsI: "task s ! i = Some p \<Longrightarrow> i < length (task s) \<Longrightarrow> p \<in> task_ptrs s"
  by (metis mem_Collect_eq nth_mem task_ptrs_def)

lemma sched_ok_only:
  assumes "only_tasks R s s'" "sched_ok s"
    "\<And>t u. R t u \<Longrightarrow> 0 \<le> t_counter t \<Longrightarrow> 0 < t_priority t \<Longrightarrow> 0 \<le> t_counter u \<and> 0 < t_priority u"
  shows "sched_ok s'"
  using assms only_tasks_simps [OF assms(1)] by (simp add: sched_ok_def task_ptrs_def) blast

lemma runnable_only:
  assumes "only_tasks R s s'" "\<And>t u. R t u \<Longrightarrow> t_state u = t_state t"
  shows "runnable s' p = runnable s p"
  using assms(2) [of "tasks s p" "tasks s' p"] only_tasks_simps [OF assms(1)] by (simp add: runnable_def)

text \<open>The loop needs at most one recharge, because a recharged slice is positive.\<close>

lemma schedule_loop_returns:
  assumes ok: "sched_ok s"
  shows "\<exists>n s'. schedule_loop s = Some (n, s') \<and> only_tasks recharged s s' \<and> fst (pick_next s') \<noteq> 0 \<and> n = snd (pick_next s')"
proof (cases "fst (pick_next s) = 0")
  case False
  then show ?thesis
    by (subst schedule_loop.simps) (auto simp: split_beta intro!: only_tasks_refl, auto simp: recharged_def)
next
  case True
  let ?s = "recharge_all s"
  have only: "only_tasks recharged s ?s" by (simp add: recharge_all_def recharge_fold_only)
  obtain c n where pick: "pick_next ?s = (c, n)" by fastforce
  obtain n0 p where p: "n0 \<in> {1..<NR_TASKS}" "task s ! n0 = Some p" "runnable s p"
    using pick_next_spec (2) [of s 0 "snd (pick_next s)"] True by (metis prod.collapse zero_neq_neg_one)
  have "p \<in> task_ptrs s" using p ok by (intro task_ptrsI) (auto simp: sched_ok_def)
  then have "0 < t_counter (tasks ?s p)"
    using ok p recharge_fold_pos [of n0 task_slots s p] by (simp add: sched_ok_def recharge_all_def)
  moreover have "runnable ?s p" using runnable_only [OF only] p by (simp add: recharged_def)
  ultimately have "0 < c" using pick_next_spec (1) [OF pick] by auto
  then show ?thesis
    using True pick only
    by (subst schedule_loop.simps, subst schedule_loop.simps) (simp add: split_beta)
qed

lemma schedule_spec:
  assumes "sched_ok s"
  shows "\<exists>s'. schedule s = Some s' \<and> sched_ok s' \<and> task s' = task s \<and>
    (if \<exists>p. runnable s' p
     then runnable s' (current s') \<and> 0 < t_counter (tasks s' (current s'))
          \<and> (\<forall>p. runnable s' p \<longrightarrow> t_counter (tasks s' p) \<le> t_counter (tasks s' (current s')))
     else current s' = init_task)"
proof -
  let ?s1 = "fold check_signals task_slots s"
  have "only_tasks same_slice s ?s1" by (rule check_signals_only)
  then have ok1: "sched_ok ?s1" "task ?s1 = task s"
    using assms by (auto intro: sched_ok_only simp: same_slice_def only_tasks_simps)
  obtain n s2 where loop: "schedule_loop ?s1 = Some (n, s2)" "only_tasks recharged ?s1 s2"
    "fst (pick_next s2) \<noteq> 0" "n = snd (pick_next s2)"
    using schedule_loop_returns [OF ok1(1)] by blast
  have ok2: "sched_ok s2" "task s2 = task s"
    using loop(2) ok1 by (auto intro: sched_ok_only simp: recharged_def only_tasks_simps)
  obtain c where pick: "pick_next s2 = (c, n)" "c \<noteq> 0" using loop by (cases "pick_next s2") auto
  have "\<exists>p. task s2 ! n = Some p"
    using pick_next_spec (2) [OF pick(1)] ok2 by (auto simp: sched_ok_def)
  then obtain p where p: "task s2 ! n = Some p" by blast
  let ?s' = "s2\<lparr>current := p\<rparr>"
  have sched: "schedule s = Some ?s'" by (simp add: schedule_def loop(1) switch_to_def p)
  have same: "runnable ?s' q = runnable s2 q" "sched_ok ?s' = sched_ok s2" for q
    by (simp_all add: runnable_def sched_ok_def task_ptrs_def)
  have "if \<exists>p. runnable s2 p then runnable s2 p \<and> 0 < t_counter (tasks s2 p)
          \<and> (\<forall>q. runnable s2 q \<longrightarrow> t_counter (tasks s2 q) \<le> t_counter (tasks s2 p)) else p = init_task"
  proof (cases "\<exists>p. runnable s2 p")
    case True
    then obtain q where q: "runnable s2 q" by blast
    then obtain i where "i \<in> {1..<NR_TASKS}" "task s2 ! i = Some q" by (auto simp: runnable_def)
    then have "q \<in> task_ptrs s2" using ok2 by (intro task_ptrsI) (auto simp: sched_ok_def)
    then have "0 \<le> t_counter (tasks s2 q)" using ok2 by (simp add: sched_ok_def)
    then have "0 < c" using q pick_next_spec (1) [OF pick(1)] pick(2) by force
    then have "runnable s2 p" "t_counter (tasks s2 p) = c"
      using pick_next_spec (2) [OF pick(1)] p by auto
    with True \<open>0 < c\<close> pick_next_spec (1) [OF pick(1)] show ?thesis by simp
  next
    case False
    with pick_next_spec (2) [OF pick(1)] p ok2 show ?thesis by (auto simp: sched_ok_def)
  qed
  then have "if \<exists>q. runnable ?s' q then runnable ?s' (current ?s') \<and> 0 < t_counter (tasks ?s' (current ?s'))
          \<and> (\<forall>q. runnable ?s' q \<longrightarrow> t_counter (tasks ?s' q) \<le> t_counter (tasks ?s' (current ?s')))
     else current ?s' = init_task"
    by (simp only: same) simp
  moreover have "sched_ok ?s'" "task ?s' = task s" using same(2) ok2 by simp_all
  ultimately show ?thesis using sched by blast
qed
lemma schedule_returns: "sched_ok s \<Longrightarrow> \<exists>s'. schedule s = Some s'"
  using schedule_spec by blast

lemma schedule_ok: "sched_ok s \<Longrightarrow> schedule s = Some s' \<Longrightarrow> sched_ok s' \<and> task s' = task s"
  using schedule_spec [of s] by auto


subsection \<open>Signals reach sleeping tasks\<close>

definition pending_signals :: "task_struct \<Rightarrow> u32" where
  "pending_signals t = t_signal t AND NOT (BLOCKABLE AND t_blocked t)"

definition settled :: "int \<Rightarrow> task_struct \<Rightarrow> bool" where
  "settled j t \<longleftrightarrow> \<not> (t_alarm t \<noteq> 0 \<and> t_alarm t < j)
     \<and> (t_state t = TASK_INTERRUPTIBLE \<longrightarrow> pending_signals t = 0)"

lemma check_signals_settles: "task s ! i = Some p \<Longrightarrow> settled (jiffies s) (tasks (check_signals i s) p)"
  by (auto simp: check_signals_def settled_def pending_signals_def set_state_def Let_def)

lemma check_signals_keeps: "settled (jiffies s) (tasks s p) \<Longrightarrow> settled (jiffies s) (tasks (check_signals i s) p)"
  by (cases "task s ! i") (auto simp: check_signals_def settled_def pending_signals_def set_state_def Let_def)

lemma check_signals_task [simp]: "task (check_signals i s) = task s" "jiffies (check_signals i s) = jiffies s"
  "current (check_signals i s) = current s"
  by (auto simp: check_signals_def set_state_def Let_def split: option.split)

lemma check_signals_fold_keeps:
  "settled (jiffies s) (tasks s p) \<Longrightarrow> settled (jiffies s) (tasks (fold check_signals xs s) p)"
proof (induction xs arbitrary: s)
  case (Cons x xs)
  from Cons.IH [of "check_signals x s"] check_signals_keeps [OF Cons.prems, of x] show ?case by simp
qed simp

lemma check_signals_fold:
  "i \<in> set xs \<Longrightarrow> task s ! i = Some p \<Longrightarrow> settled (jiffies s) (tasks (fold check_signals xs s) p)"
proof (induction xs arbitrary: s)
  case (Cons x xs)
  show ?case
  proof (cases "x = i")
    case True
    with Cons.prems check_signals_settles [of s i p]
      check_signals_fold_keeps [of "check_signals i s" p xs] show ?thesis by simp
  next
    case False
    with Cons.IH [of "check_signals x s"] Cons.prems show ?thesis by simp
  qed
qed simp

definition same_signals :: "task_struct \<Rightarrow> task_struct \<Rightarrow> bool" where
  "same_signals t u \<longleftrightarrow> t_signal u = t_signal t \<and> t_blocked u = t_blocked t \<and> t_state u = t_state t \<and> t_alarm u = t_alarm t"

lemma recharge_same_signals: "only_tasks same_signals s (recharge_all s)"
  unfolding recharge_all_def
proof (rule only_tasks_fold)
  fix i and s :: "'a sched_scheme"
  show "only_tasks same_signals s (recharge i s)"
    by (cases "task s ! i")
      (auto simp: recharge_def same_signals_def intro!: only_tasks_refl only_tasks_update)
qed (auto simp: same_signals_def)

lemma schedule_loop_same_signals:
  assumes "schedule_loop s = Some (n, s')"
  shows "only_tasks same_signals s s'"
proof -
  have "only_tasks same_signals s (snd (n, s'))"
  proof (rule schedule_loop.raw_induct [where P = "\<lambda>s r. only_tasks same_signals s (snd r)", OF _ assms])
    fix f :: "'a sched_scheme \<Rightarrow> (nat \<times> 'a sched_scheme) option" and s r
    assume IH: "\<And>s r. f s = Some r \<Longrightarrow> only_tasks same_signals s (snd r)"
      and eq: "(let (c, next) = pick_next s in if c \<noteq> 0 then Some (next, s) else f (recharge_all s)) = Some r"
    show "only_tasks same_signals s (snd r)"
    proof (cases "fst (pick_next s) = 0")
      case True
      with eq have "f (recharge_all s) = Some r" by (simp add: split_beta)
      then show ?thesis
        using only_tasks_trans [of same_signals s "recharge_all s" "snd r"] IH recharge_same_signals
        by (auto simp: same_signals_def)
    next
      case False
      with eq show ?thesis by (auto simp: split_beta same_signals_def intro!: only_tasks_refl)
    qed
  qed
  then show ?thesis by simp
qed

lemma schedule_frame:
  assumes "schedule s = Some s'"
  shows "\<exists>t c. s' = s\<lparr>tasks := t, current := c\<rparr>"
proof -
  obtain t1 where 1: "fold check_signals task_slots s = s\<lparr>tasks := t1\<rparr>"
    using check_signals_only [of s task_slots] by (auto simp: only_tasks_def)
  obtain n s2 where 2: "schedule_loop (s\<lparr>tasks := t1\<rparr>) = Some (n, s2)" "switch_to n s2 = Some s'"
    using assms 1 by (auto simp: schedule_def bind_Some_iff)
  obtain t2 where "s2 = s\<lparr>tasks := t2\<rparr>"
    using schedule_loop_same_signals [OF 2(1)] by (auto simp: only_tasks_def)
  then have "\<exists>c. s' = s\<lparr>tasks := t2, current := c\<rparr>"
    using 2(2) by (auto simp: switch_to_def split: option.splits)
  then show ?thesis by blast
qed

lemma and_not_masked: "k AND b = 0 \<Longrightarrow> (x AND NOT (b AND m)) AND k = x AND (k :: 'a::len word)"
  by (auto simp: bit_eq_iff bit_simps)

definition more_signals :: "task_struct \<Rightarrow> task_struct \<Rightarrow> bool" where
  "more_signals t u \<longleftrightarrow> t_blocked u = t_blocked t \<and> t_signal u OR t_signal t = t_signal u"

lemma check_signals_more: "only_tasks more_signals s (fold check_signals xs s)"
proof (rule only_tasks_fold)
  fix i and s :: "'a sched_scheme"
  show "only_tasks more_signals s (check_signals i s)"
    unfolding only_tasks_def check_signals_def set_state_def update_task_def
    by (auto simp: Let_def more_signals_def or.assoc or.commute or.left_commute split: option.split intro!: exI)
next
  fix t u v assume "more_signals t u" "more_signals u v"
  then show "more_signals t v" unfolding more_signals_def by (metis or.assoc)
qed (simp add: more_signals_def)

lemma pending_signals_mono:
  assumes "more_signals t u" "pending_signals t \<noteq> 0"
  shows "pending_signals u \<noteq> 0"
proof
  assume "pending_signals u = 0"
  moreover define m where "m = NOT (BLOCKABLE AND t_blocked t)"
  have "(t_signal u OR t_signal t) AND m = (t_signal u AND m) OR (t_signal t AND m)"
    by (rule bit.conj_disj_distrib2)
  then have "pending_signals u = pending_signals u OR pending_signals t"
    using assms(1) unfolding more_signals_def pending_signals_def m_def by metis
  ultimately show False using assms(2) by simp
qed

lemma sigkill_pending: "t_signal t AND sig_bit SIGKILL \<noteq> 0 \<Longrightarrow> pending_signals t \<noteq> 0"
proof
  assume *: "t_signal t AND sig_bit SIGKILL \<noteq> 0" "pending_signals t = 0"
  have "sig_bit SIGKILL AND BLOCKABLE = 0" by (simp add: BLOCKABLE_def sig_bit_def)
  note and_not_masked [OF this, of "t_signal t" "t_blocked t"]
  with * show False by (simp add: pending_signals_def)
qed


subsection \<open>Wait queues\<close>

text \<open>
  What the operations on a wait queue need of the pointer they are given: reading gives what was
  last written, and the pointer lies outside the scheduler's own data.
\<close>

locale wait_queue =
  fixes q_get :: "'a sched_scheme \<Rightarrow> nat option"
    and q_put :: "nat option \<Rightarrow> 'a sched_scheme \<Rightarrow> 'a sched_scheme"
  assumes get_put: "q_get (q_put v s) = v"
    and put_tasks: "tasks (q_put v s) = tasks s"
    and put_current: "current (q_put v s) = current s"
    and put_task: "task (q_put v s) = task s"
    and get_tasks: "q_get (s\<lparr>tasks := t\<rparr>) = q_get s"
begin

lemma wake_up_runs: "q_get s = Some t \<Longrightarrow> t_state (tasks (wake_up (q_get, q_put) s) t) = TASK_RUNNING"
  by (simp add: wake_up_def put_tasks set_state_def)

lemma wake_up_empties: "q_get (wake_up (q_get, q_put) s) = None"
  by (simp add: wake_up_def get_put split: option.split)

lemma wake_up_others: "q_get s \<noteq> Some p \<Longrightarrow> tasks (wake_up (q_get, q_put) s) p = tasks s p"
  by (auto simp: wake_up_def put_tasks set_state_def split: option.split)

lemma wake_up_task: "task (wake_up (q_get, q_put) s) = task s" "current (wake_up (q_get, q_put) s) = current s"
  by (auto simp: wake_up_def put_task put_current set_state_def split: option.split)

text \<open>
  The queue is a chain through the kernel stacks: each sleeper remembers the one before it, and
  when it runs again it wakes that one.
\<close>

lemma sleep_on_wakes_previous:
  "sleep_on env (q_get, q_put) s = Some s' \<Longrightarrow> q_get s = Some t \<Longrightarrow> t_state (tasks s' t) = TASK_RUNNING"
  by (auto simp: sleep_on_def bind_Some_iff set_state_def Let_def split: if_splits)

text \<open>What the scheduler sees: the caller at the head of the queue, and not runnable.\<close>

lemma sleep_on_enters:
  assumes "sleep_on env (q_get, q_put) s = Some s'"
  obtains s1 s2 where "q_get s1 = Some (current s)" "current s1 = current s"
    "t_state (tasks s1 (current s)) = TASK_UNINTERRUPTIBLE" "reschedule env s1 = Some s2"
    "s' = (case q_get s of None \<Rightarrow> s2 | Some t \<Rightarrow> set_state t TASK_RUNNING s2)"
proof -
  let ?s1 = "set_state (current s) TASK_UNINTERRUPTIBLE (q_put (Some (current s)) s)"
  from assms obtain s2 where s2: "reschedule env ?s1 = Some s2"
    "s' = (case q_get s of None \<Rightarrow> s2 | Some t \<Rightarrow> set_state t TASK_RUNNING s2)"
    by (auto simp: sleep_on_def bind_Some_iff Let_def put_current split: if_splits)
  show thesis
    by (rule that [OF _ _ _ s2])
      (simp_all add: set_state_def update_task_def get_tasks get_put put_current put_tasks)
qed

text \<open>A task is never lost: if someone was queued, \<open>wake_up\<close> makes it runnable.\<close>

lemma wake_up_no_lost:
  "q_get s = Some t \<Longrightarrow> i \<in> {1..<NR_TASKS} \<Longrightarrow> task s ! i = Some t \<Longrightarrow> runnable (wake_up (q_get, q_put) s) t"
  using wake_up_runs [of s t] wake_up_task(1) [of s] by (auto simp: runnable_def)

end

subsection \<open>The tasks at boot\<close>

text \<open>\<open>INIT_TASK\<close> of \<open>include/linux/sched.h\<close>, the structure of task 0 (\<open>umask\<close> is octal 22).\<close>

definition zero_tss :: tss_struct where
  "zero_tss = \<lparr>tss_esp0 = 0, tss_eip = 0, tss_eflags = 0, tss_eax = 0, tss_ecx = 0, tss_edx = 0,
     tss_ebx = 0, tss_esp = 0, tss_ebp = 0, tss_esi = 0, tss_edi = 0, tss_es = 0x17, tss_cs = 0x17,
     tss_ss = 0x17, tss_ds = 0x17, tss_fs = 0x17, tss_gs = 0x17, tss_ss0 = 0x10, tss_back_link = 0,
     tss_ldt = 0x28, tss_trace_bitmap = 0x80000000\<rparr>"

definition INIT_TASK :: task_struct where
  "INIT_TASK = \<lparr>t_state = 0, t_counter = 15, t_priority = 15, t_signal = 0,
     t_sigaction = replicate 32 \<lparr>sa_handler = 0, sa_mask = 0, sa_flags = 0, sa_restorer = 0\<rparr>,
     t_blocked = 0, t_exit_code = 0, t_start_code = 0, t_end_code = 0, t_end_data = 0, t_brk = 0,
     t_start_stack = 0, t_pid = 0, t_father = -1, t_pgrp = 0, t_session = 0, t_leader = 0,
     t_uid = 0, t_euid = 0, t_suid = 0, t_gid = 0, t_egid = 0, t_sgid = 0, t_alarm = 0,
     t_utime = 0, t_stime = 0, t_cutime = 0, t_cstime = 0, t_start_time = 0, t_used_math = False,
     t_tty = -1, t_umask = 0x12, t_pwd = None, t_root = None, t_executable = None,
     t_close_on_exec = 0, t_filp = replicate NR_OPEN None,
     t_code_base = 0, t_code_limit = 0xA0000, t_data_base = 0, t_data_limit = 0xA0000,
     t_tss = zero_tss\<rparr>"

text \<open>The task table after \<open>sched_init()\<close>.\<close>

definition boot_sched :: sched where
  "boot_sched = \<lparr>jiffies = 0, startup_time = 0, current = init_task,
     task = Some init_task # replicate 63 None, tasks = (\<lambda>_. INIT_TASK),
     last_task_used_math = None, last_pid = 0, umem = (\<lambda>_. 0)\<rparr>"

lemma boot_sched_ok: "sched_ok boot_sched"
  by (auto simp: sched_ok_def boot_sched_def task_ptrs_def INIT_TASK_def)

lemma set_state_ok: "sched_ok s \<Longrightarrow> sched_ok (set_state p v s)"
  by (auto simp: sched_ok_def task_ptrs_def set_state_def)

lemma sys_nice_ok: "sched_ok s \<Longrightarrow> sched_ok (snd (sys_nice k s))"
  by (auto simp: sched_ok_def task_ptrs_def sys_nice_def)

text \<open>A table with task 0 and one more task at address 7, interruptible and killed.\<close>

definition two_tasks :: sched where
  "two_tasks = boot_sched\<lparr>task := (task boot_sched)[1 := Some 7],
     tasks := (tasks boot_sched)(7 := INIT_TASK\<lparr>t_state := TASK_INTERRUPTIBLE, t_signal := sig_bit SIGKILL,
                                                 t_blocked := - 1, t_counter := 0\<rparr>)\<rparr>"

lemma two_tasks_ok: "sched_ok two_tasks"
  by (auto simp: sched_ok_def two_tasks_def boot_sched_def task_ptrs_def INIT_TASK_def set_conv_nth
      nth_list_update split: if_splits)



end
