(* ===== verification/Chain.thy ===== *)
theory Chain
  imports Prelude
begin

text \<open>
  Singly linked lists in kernel tables: timers, requests, hash chains and bucket descriptors
  are linked by a \<open>next\<close> pointer. \<open>chain nx p as\<close> says that following \<open>nx\<close> from \<open>p\<close> visits
  exactly the nodes \<open>as\<close> and ends in \<open>NULL\<close>; \<open>path nx p as q\<close> that it reaches \<open>q\<close>.
\<close>

fun path :: "('n \<Rightarrow> 'n option) \<Rightarrow> 'n option \<Rightarrow> 'n list \<Rightarrow> 'n option \<Rightarrow> bool" where
  "path nx p [] q \<longleftrightarrow> p = q"
| "path nx p (a # as) q \<longleftrightarrow> p = Some a \<and> path nx (nx a) as q"

definition chain :: "('n \<Rightarrow> 'n option) \<Rightarrow> 'n option \<Rightarrow> 'n list \<Rightarrow> bool" where
  "chain nx p as \<longleftrightarrow> path nx p as None"

lemma chain_Nil [simp]: "chain nx p [] \<longleftrightarrow> p = None"
  by (simp add: chain_def)

lemma chain_Cons [simp]: "chain nx p (a # as) \<longleftrightarrow> p = Some a \<and> chain nx (nx a) as"
  by (simp add: chain_def)

lemma chain_None [simp]: "chain nx None as \<longleftrightarrow> as = []"
  by (cases as) auto

lemma path_append: "path nx p (as @ bs) q \<longleftrightarrow> (\<exists>r. path nx p as r \<and> path nx r bs q)"
  by (induction as arbitrary: p) auto

lemma chain_append: "chain nx p (as @ bs) \<longleftrightarrow> (\<exists>r. path nx p as r \<and> chain nx r bs)"
  by (simp add: chain_def path_append)

lemma path_cong: "(\<And>a. a \<in> set as \<Longrightarrow> nx a = nx' a) \<Longrightarrow> path nx p as q = path nx' p as q"
  by (induction as arbitrary: p) auto

lemma chain_cong: "(\<And>a. a \<in> set as \<Longrightarrow> nx a = nx' a) \<Longrightarrow> chain nx p as = chain nx' p as"
  unfolding chain_def by (rule path_cong)

lemma path_update [simp]: "b \<notin> set as \<Longrightarrow> path (nx(b := v)) p as q = path nx p as q"
  by (rule path_cong) auto

lemma chain_update [simp]: "b \<notin> set as \<Longrightarrow> chain (nx(b := v)) p as = chain nx p as"
  by (rule chain_cong) auto

lemma chain_unique: "chain nx p as \<Longrightarrow> chain nx p bs \<Longrightarrow> as = bs"
proof (induction as arbitrary: p bs)
  case (Cons a as)
  then obtain bs' where "bs = a # bs'" "chain nx (nx a) bs'" by (cases bs) auto
  with Cons show ?case by auto
qed simp

lemma chain_suffix_unique: "chain nx p (as @ a # bs) \<Longrightarrow> chain nx (Some a) (a # bs)"
  by (auto simp: chain_append)

lemma chain_head_notin: "chain nx (Some a) (a # as) \<Longrightarrow> a \<notin> set as"
proof
  assume ch: "chain nx (Some a) (a # as)" and "a \<in> set as"
  then obtain bs cs where as: "as = bs @ a # cs" by (auto simp: in_set_conv_decomp)
  have "chain nx (Some a) (a # cs)" using ch as chain_suffix_unique [of nx "Some a" "a # bs" a cs] by simp
  then have "a # as = a # cs" using ch by (rule chain_unique [rotated])
  with as show False by simp
qed

text \<open>A list that ends in \<open>NULL\<close> visits no node twice.\<close>

lemma chain_distinct: "chain nx p as \<Longrightarrow> distinct as"
proof (induction as arbitrary: p)
  case (Cons a as)
  then have "chain nx (Some a) (a # as)" by simp
  from chain_head_notin [OF this] Cons show ?case by auto
qed simp

lemma chain_insert_after:
  assumes "chain nx p (as @ a # bs)" and "n \<notin> set (as @ a # bs)"
  shows "chain (nx(n := nx a, a := Some n)) p (as @ a # n # bs)"
proof -
  have d: "distinct (as @ a # bs)" using assms(1) by (rule chain_distinct)
  from assms(1) obtain r where r: "path nx p as r" "chain nx r (a # bs)" by (auto simp: chain_append)
  have "path (nx(n := nx a, a := Some n)) p as r" using r(1) d assms(2) by simp
  moreover have "chain (nx(n := nx a, a := Some n)) (nx a) bs" using r(2) d assms(2) by simp
  ultimately show ?thesis using r(2) assms(2) by (auto simp: chain_append)
qed

lemma chain_push: "chain nx p as \<Longrightarrow> n \<notin> set as \<Longrightarrow> chain (nx(n := p)) (Some n) (n # as)"
  by simp

subsection \<open>Doubly linked lists\<close>

text \<open>\<open>links nx pv as\<close>: each element of \<open>as\<close> and the one after it point at each other.\<close>

fun links :: "('n \<Rightarrow> 'n option) \<Rightarrow> ('n \<Rightarrow> 'n option) \<Rightarrow> 'n list \<Rightarrow> bool" where
  "links nx pv (a # b # cs) \<longleftrightarrow> nx a = Some b \<and> pv b = Some a \<and> links nx pv (b # cs)"
| "links nx pv _ \<longleftrightarrow> True"

lemma in_set_tlD: "x \<in> set (tl xs) \<Longrightarrow> x \<in> set xs"
  by (cases xs) auto

lemma links_cong:
  "(\<And>a. a \<in> set (butlast as) \<Longrightarrow> nx a = nx' a) \<Longrightarrow> (\<And>b. b \<in> set (tl as) \<Longrightarrow> pv b = pv' b)
     \<Longrightarrow> links nx pv as = links nx' pv' as"
  by (induction nx pv as rule: links.induct) (auto split: if_splits)

lemma links_append: "links nx pv (xs @ a # ys) \<longleftrightarrow> links nx pv (xs @ [a]) \<and> links nx pv (a # ys)"
proof (induction xs)
  case (Cons x xs)
  then show ?case by (cases xs) auto
qed simp

lemma links_snoc: "links nx pv (xs @ [a, b]) \<longleftrightarrow> links nx pv (xs @ [a]) \<and> nx a = Some b \<and> pv b = Some a"
  using links_append [of nx pv xs a "[b]"] by simp

lemma links_tl: "links nx pv (a # as) \<Longrightarrow> links nx pv as"
  by (cases as) auto

text \<open>A ring, read from one of its nodes.\<close>

definition ring :: "('n \<Rightarrow> 'n option) \<Rightarrow> ('n \<Rightarrow> 'n option) \<Rightarrow> 'n list \<Rightarrow> bool" where
  "ring nx pv as \<longleftrightarrow> as \<noteq> [] \<and> distinct as \<and> links nx pv (as @ [hd as])"

lemma ring_Cons: "ring nx pv (a # as) \<longleftrightarrow> distinct (a # as) \<and> links nx pv (a # as @ [a])"
  by (simp add: ring_def)

lemma ring_rotate1: "ring nx pv (a # as) \<Longrightarrow> ring nx pv (as @ [a])"
proof -
  assume r: "ring nx pv (a # as)"
  then have l: "links nx pv (a # as @ [a])" and d: "distinct (a # as)" by (auto simp: ring_Cons)
  show "ring nx pv (as @ [a])"
  proof (cases as)
    case Nil
    with r show ?thesis by simp
  next
    case (Cons b bs)
    with l have "links nx pv ((b # bs) @ [a])" "nx a = Some b" "pv b = Some a" by auto
    then have "links nx pv ((b # bs) @ [a, b])" by (simp only: links_snoc)
    with d Cons show ?thesis by (auto simp: ring_def)
  qed
qed

lemma ring_rotate: "ring nx pv (xs @ ys) \<Longrightarrow> ring nx pv (ys @ xs)"
proof (induction xs arbitrary: ys)
  case (Cons x xs)
  from ring_rotate1 [of nx pv x "xs @ ys"] Cons.prems have "ring nx pv (xs @ (ys @ [x]))" by simp
  from Cons.IH [OF this] show ?case by simp
qed simp

lemma ring_next: "ring nx pv (xs @ a # b # ys) \<Longrightarrow> nx a = Some b \<and> pv b = Some a"
  using links_append [of nx pv xs a "b # ys @ [hd (xs @ a # b # ys)]"] by (simp add: ring_def)

lemma links_prefix: "links nx pv (xs @ ys) \<Longrightarrow> links nx pv xs"
proof (induction xs)
  case (Cons x xs)
  then show ?case by (cases xs) auto
qed simp

lemma ring_ends: "ring nx pv (a # as) \<Longrightarrow> pv a = Some (last (a # as)) \<and> nx (last (a # as)) = Some a"
proof -
  assume r: "ring nx pv (a # as)"
  obtain ys z where as: "a # as = ys @ [z]" by (cases "a # as" rule: rev_cases) auto
  have "links nx pv ((a # as) @ [a])" using r by (simp add: ring_Cons)
  then have "links nx pv (ys @ [z, a])" unfolding as by simp
  then show ?thesis unfolding as by (simp add: links_snoc)
qed

lemma ring_remove:
  assumes r: "ring nx pv (a # as)" and ne: "as \<noteq> []"
  shows "ring (nx(last as := Some (hd as))) (pv(hd as := Some (last as))) as"
proof -
  obtain b bs where b: "as = b # bs" using ne by (cases as) auto
  obtain ys z where z: "as = ys @ [z]" using ne by (cases as rule: rev_cases) auto
  have d: "distinct as" and l: "links nx pv as"
    using r links_tl [of nx pv a "as @ [a]"] by (auto simp: ring_Cons dest: links_prefix)
  have "z \<notin> set ys" "b \<notin> set bs" using d z d [unfolded b] by auto
  moreover have "butlast as = ys" "tl as = bs" using z arg_cong [OF b, of tl] by simp_all
  ultimately have "links (nx(z := Some b)) (pv(b := Some z)) as = links nx pv as"
    by (intro links_cong) auto
  then have "links (nx(z := Some b)) (pv(b := Some z)) (ys @ [z, b])" using l z by (simp add: links_snoc)
  moreover have "hd as = b" "last as = z" "as @ [b] = ys @ [z, b]" using z arg_cong [OF b, of hd] by simp_all
  ultimately show ?thesis using d ne by (simp add: ring_def)
qed

lemma ring_insert:
  assumes r: "ring nx pv as" and n: "a \<notin> set as"
  shows "ring (nx(a := Some (hd as), last as := Some a)) (pv(a := Some (last as), hd as := Some a)) (as @ [a])"
proof -
  have ne: "as \<noteq> []" and d: "distinct as" and l: "links nx pv as" using r by (auto simp: ring_def dest: links_prefix)
  obtain b bs where b: "as = b # bs" using ne by (cases as) auto
  obtain ys z where z: "as = ys @ [z]" using ne by (cases as rule: rev_cases) auto
  have hl: "hd as = b" "last as = z" using z arg_cong [OF b, of hd] by simp_all
  have "z \<notin> set ys" "a \<noteq> z" "a \<notin> set ys" using d n z by auto
  moreover have "b \<notin> set bs" "a \<noteq> b" "a \<notin> set bs" using d n b by auto
  ultimately have ne': "z \<notin> set ys" "b \<notin> set bs" "a \<noteq> z" "a \<notin> set ys" "a \<noteq> b" "a \<notin> set bs" by blast+
  let ?nx = "nx(a := Some b, z := Some a)" and ?pv = "pv(a := Some z, b := Some a)"
  have "butlast as = ys" "tl as = bs" using z arg_cong [OF b, of tl] by simp_all
  then have "links ?nx ?pv as = links nx pv as" using ne' by (intro links_cong) auto
  then have "links ?nx ?pv (ys @ [z])" using l z by simp
  then have "links ?nx ?pv (ys @ [z, a])" using ne' by (simp add: links_snoc)
  then have "links ?nx ?pv ((ys @ [z]) @ [a])" by simp
  then have "links ?nx ?pv ((ys @ [z]) @ [a, b])" using ne' by (simp only: links_snoc) simp
  moreover have "(as @ [a]) @ [hd (as @ [a])] = (ys @ [z]) @ [a, b]" using hl ne by (subst z) simp
  ultimately have "links ?nx ?pv ((as @ [a]) @ [hd (as @ [a])])" by (simp only:)
  moreover have "distinct (as @ [a])" using n d by simp
  ultimately show ?thesis unfolding hl ring_def by blast
qed

text \<open>A list with two ends: \<open>dlist nx pv p as\<close> starts at \<open>p\<close> and ends in \<open>NULL\<close> both ways.\<close>

definition dlist :: "('n \<Rightarrow> 'n option) \<Rightarrow> ('n \<Rightarrow> 'n option) \<Rightarrow> 'n option \<Rightarrow> 'n list \<Rightarrow> bool" where
  "dlist nx pv p as \<longleftrightarrow> distinct as \<and> links nx pv as
     \<and> (if as = [] then p = None else p = Some (hd as) \<and> pv (hd as) = None \<and> nx (last as) = None)"

lemma dlist_cong:
  "(\<And>a. a \<in> set as \<Longrightarrow> nx a = nx' a) \<Longrightarrow> (\<And>a. a \<in> set as \<Longrightarrow> pv a = pv' a) \<Longrightarrow> dlist nx pv p as = dlist nx' pv' p as"
proof -
  assume a: "\<And>a. a \<in> set as \<Longrightarrow> nx a = nx' a" "\<And>a. a \<in> set as \<Longrightarrow> pv a = pv' a"
  then have "links nx pv as = links nx' pv' as" by (intro links_cong) (auto dest: in_set_butlastD in_set_tlD)
  moreover have "as \<noteq> [] \<Longrightarrow> pv (hd as) = pv' (hd as) \<and> nx (last as) = nx' (last as)" using a by simp
  ultimately show ?thesis by (auto simp: dlist_def)
qed

lemma dlist_push:
  assumes "dlist nx pv p as" and "a \<notin> set as"
  shows "dlist (nx(a := p)) ((case p of None \<Rightarrow> pv | Some b \<Rightarrow> pv(b := Some a))(a := None)) (Some a) (a # as)"
proof (cases as)
  case (Cons b bs)
  have "links (nx(a := p)) ((pv(b := Some a))(a := None)) (b # bs) = links nx pv (b # bs)"
    using assms Cons by (intro links_cong) (auto simp: dlist_def dest: in_set_butlastD split: if_splits)
  with assms Cons show ?thesis by (auto simp: dlist_def)
qed (use assms in \<open>simp add: dlist_def\<close>)

lemma dlist_Cons_prev: "dlist nx pv p (a # as) \<Longrightarrow> b \<in> set as \<Longrightarrow> pv b \<noteq> None"
proof -
  assume d: "dlist nx pv p (a # as)" and "b \<in> set as"
  then obtain xs ys where as: "as = xs @ b # ys" by (auto simp: in_set_conv_decomp)
  obtain zs z where "a # xs = zs @ [z]" by (cases "a # xs" rule: rev_cases) auto
  then have "a # as = zs @ z # b # ys" using as by simp
  then have "links nx pv (zs @ z # b # ys)" using d by (simp add: dlist_def)
  then show ?thesis using links_append [of nx pv zs z "b # ys"] by simp
qed

text \<open>Unlinking a node, as the code does it: through the node's own two pointers.\<close>

definition unlink_next :: "('n \<Rightarrow> 'n option) \<Rightarrow> ('n \<Rightarrow> 'n option) \<Rightarrow> 'n \<Rightarrow> 'n \<Rightarrow> 'n option" where
  "unlink_next nx pv a = (case pv a of None \<Rightarrow> nx | Some p \<Rightarrow> nx(p := nx a))"

definition unlink_prev :: "('n \<Rightarrow> 'n option) \<Rightarrow> ('n \<Rightarrow> 'n option) \<Rightarrow> 'n \<Rightarrow> 'n \<Rightarrow> 'n option" where
  "unlink_prev nx pv a = (case nx a of None \<Rightarrow> pv | Some n \<Rightarrow> pv(n := pv a))"

lemma dlist_unlink:
  assumes "dlist nx pv p (xs @ a # ys)"
  shows "dlist (unlink_next nx pv a) (unlink_prev nx pv a) (if p = Some a then nx a else p) (xs @ ys)"
proof -
  have d: "distinct (xs @ a # ys)" and l: "links nx pv (xs @ [a])" "links nx pv (a # ys)"
    using assms links_append [of nx pv xs a ys] by (auto simp: dlist_def)
  have pa: "pv a = (if xs = [] then None else Some (last xs))"
    and hp: "p = Some (hd (xs @ [a]))" "xs \<noteq> [] \<Longrightarrow> pv (hd xs) = None"
    using assms l(1) by (cases xs rule: rev_cases; auto simp: dlist_def links_snoc hd_append)+
  have na: "nx a = (if ys = [] then None else Some (hd ys))" and "ys \<noteq> [] \<Longrightarrow> nx (last ys) = None"
    using assms l(2) by (cases ys; auto simp: dlist_def)+
  note ends = this hp pa
  let ?nx = "unlink_next nx pv a" and ?pv = "unlink_prev nx pv a"
  have lx: "links ?nx ?pv xs"
  proof -
    have "links nx pv xs" using l(1) by (rule links_prefix)
    moreover have "links ?nx ?pv xs = links nx pv xs"
    proof (rule links_cong)
      show "?nx b = nx b" if "b \<in> set (butlast xs)" for b
        using that d pa by (cases xs rule: rev_cases) (auto simp: unlink_next_def)
      show "?pv b = pv b" if "b \<in> set (tl xs)" for b
        using that d na by (cases ys) (auto simp: unlink_prev_def dest: in_set_tlD)
    qed
    ultimately show ?thesis by simp
  qed
  have ly: "links ?nx ?pv ys"
  proof -
    have "links nx pv ys" using l(2) by (rule links_tl)
    moreover have "links ?nx ?pv ys = links nx pv ys"
    proof (rule links_cong)
      show "?nx b = nx b" if "b \<in> set (butlast ys)" for b
        using that d pa by (cases xs rule: rev_cases) (auto simp: unlink_next_def dest: in_set_butlastD)
      show "?pv b = pv b" if "b \<in> set (tl ys)" for b
        using that d na by (cases ys) (auto simp: unlink_prev_def)
    qed
    ultimately show ?thesis by simp
  qed
  show ?thesis
  proof (cases xs rule: rev_cases)
    case Nil
    then show ?thesis using d ly ends by (cases ys) (auto simp: dlist_def unlink_prev_def unlink_next_def)
  next
    case (snoc zs z)
    then show ?thesis
    proof (cases ys)
      case Nil
      then show ?thesis using d lx ends snoc by (auto simp: dlist_def unlink_prev_def unlink_next_def hd_append split: if_splits)
    next
      case (Cons b bs)
      have "links ?nx ?pv (zs @ [z, b])" using lx snoc na pa Cons by (simp add: links_snoc unlink_next_def unlink_prev_def)
      moreover have "links ?nx ?pv (zs @ z # b # bs) = (links ?nx ?pv (zs @ [z]) \<and> links ?nx ?pv (z # b # bs))"
        by (rule links_append)
      ultimately have "links ?nx ?pv (xs @ ys)" using ly snoc Cons by (simp add: links_snoc)
      then show ?thesis using d ends snoc Cons
        by (auto simp: dlist_def unlink_prev_def unlink_next_def hd_append split: if_splits)
    qed
  qed
qed

end
