(* ===== verification/Timers.thy ===== *)
theory Timers
  imports Sched Chain
begin

text \<open>
  The timer part of \<open>kernel/sched.c\<close>: the list of kernel timers (\<open>add_timer\<close>), the floppy
  motor timers and the clock interrupt \<open>do_timer\<close>. \<open>timer_list\<close> is the array of 64 entries,
  \<open>next_timer\<close> the index of the first one in the queue. A function pointer is a number, and
  \<open>call\<close>, a parameter of the operations, says what calling it does. The digital output
  register \<open>FD_DOR\<close> of the floppy controller is the last byte written to it.
\<close>

abbreviation (input) TIME_REQUESTS :: nat where "TIME_REQUESTS \<equiv> 64"

record timer =
  tl_jiffies :: int
  tl_fn :: "nat option"
  tl_next :: "nat option"

record timers = sched +
  timer_list :: "timer list"
  next_timer :: "nat option"
  beepcount :: int
  current_DOR :: u8
  FD_DOR :: u8
  selected :: bool
  wait_motor :: "nat \<Rightarrow> nat option"
  mon_timer :: "int list"
  moff_timer :: "int list"

subsection \<open>Floppy motors\<close>

definition ticks_to_floppy_on :: "nat \<Rightarrow> 'a timers_scheme \<Rightarrow> (int \<times> 'a timers_scheme) option" where
  "ticks_to_floppy_on nr s =
     (if nr > 3 then None
      else
        let mask = push_bit nr (0x10 :: u8);
            s = s\<lparr>moff_timer := (moff_timer s)[nr := 10000]\<rparr>;
            mask = mask OR current_DOR s;
            mask = (if \<not> selected s then (mask AND 0xFC) OR of_nat nr else mask);
            s = (if mask \<noteq> current_DOR s
                 then
                   let s = s\<lparr>FD_DOR := mask\<rparr>;
                       s = (if (mask XOR current_DOR s) AND 0xf0 \<noteq> 0
                            then s\<lparr>mon_timer := (mon_timer s)[nr := HZ sdiv 2]\<rparr>
                            else if mon_timer s ! nr < 2
                            then s\<lparr>mon_timer := (mon_timer s)[nr := 2]\<rparr> else s)
                   in s\<lparr>current_DOR := mask\<rparr>
                 else s)
        in Some (mon_timer s ! nr, s))"

definition motor_queue :: "nat \<Rightarrow> 'a timers_scheme wait_queue" where
  "motor_queue nr = (\<lambda>s. wait_motor s nr, \<lambda>v s. s\<lparr>wait_motor := (wait_motor s)(nr := v)\<rparr>)"

partial_function (option) floppy_on ::
  "'a timers_scheme environment \<Rightarrow> nat \<Rightarrow> 'a timers_scheme \<Rightarrow> 'a timers_scheme option" where
  "floppy_on env nr s =
     do { (ticks, s) \<leftarrow> ticks_to_floppy_on nr s;
          if ticks \<noteq> 0 then do { s \<leftarrow> sleep_on env (motor_queue nr) s; floppy_on env nr s }
          else Some s }"

definition floppy_off :: "nat \<Rightarrow> 'a timers_scheme \<Rightarrow> 'a timers_scheme" where
  "floppy_off nr s = s\<lparr>moff_timer := (moff_timer s)[nr := 3 * HZ]\<rparr>"

definition floppy_timer_step :: "nat \<Rightarrow> 'a timers_scheme \<Rightarrow> 'a timers_scheme" where
  "floppy_timer_step i s =
     (let mask = push_bit i (0x10 :: u8) in
      if mask AND current_DOR s = 0 then s
      else if mon_timer s ! i \<noteq> 0 then
        let s = s\<lparr>mon_timer := (mon_timer s)[i := mon_timer s ! i - 1]\<rparr>
        in if mon_timer s ! i = 0 then wake_up (motor_queue i) s else s
      else if moff_timer s ! i = 0 then
        let s = s\<lparr>current_DOR := current_DOR s AND NOT mask\<rparr> in s\<lparr>FD_DOR := current_DOR s\<rparr>
      else s\<lparr>moff_timer := (moff_timer s)[i := moff_timer s ! i - 1]\<rparr>)"

definition do_floppy_timer :: "'a timers_scheme \<Rightarrow> 'a timers_scheme" where
  "do_floppy_timer s = fold floppy_timer_step [0, 1, 2, 3] s"

subsection \<open>The timer queue\<close>

definition timer_at :: "'a timers_scheme \<Rightarrow> nat \<Rightarrow> timer" where
  "timer_at s i = timer_list s ! i"

definition update_timer :: "nat \<Rightarrow> (timer \<Rightarrow> timer) \<Rightarrow> 'a timers_scheme \<Rightarrow> 'a timers_scheme" where
  "update_timer i f s = s\<lparr>timer_list := (timer_list s)[i := f (timer_list s ! i)]\<rparr>"

text \<open>The loop that moves the new entry back past every earlier timer, by swapping contents.\<close>

partial_function (option) sort_timer :: "nat \<Rightarrow> 'a timers_scheme \<Rightarrow> 'a timers_scheme option" where
  "sort_timer p s =
     (case tl_next (timer_at s p) of
        None \<Rightarrow> Some s
      | Some q \<Rightarrow>
          if tl_jiffies (timer_at s q) < tl_jiffies (timer_at s p)
          then
            let s = update_timer p (\<lambda>t. t\<lparr>tl_jiffies := tl_jiffies t - tl_jiffies (timer_at s q)\<rparr>) s;
                fn = tl_fn (timer_at s p);
                s = update_timer p (\<lambda>t. t\<lparr>tl_fn := tl_fn (timer_at s q)\<rparr>) s;
                s = update_timer q (\<lambda>t. t\<lparr>tl_fn := fn\<rparr>) s;
                j = tl_jiffies (timer_at s p);
                s = update_timer p (\<lambda>t. t\<lparr>tl_jiffies := tl_jiffies (timer_at s q)\<rparr>) s;
                s = update_timer q (\<lambda>t. t\<lparr>tl_jiffies := j\<rparr>) s
            in sort_timer q s
          else Some s)"

definition free_timer :: "'a timers_scheme \<Rightarrow> nat option" where
  "free_timer s = List.find (\<lambda>i. tl_fn (timer_at s i) = None) [0..<TIME_REQUESTS]"

definition add_timer ::
  "(nat \<Rightarrow> 'a timers_scheme \<Rightarrow> 'a timers_scheme option) \<Rightarrow> int \<Rightarrow> nat option \<Rightarrow> 'a timers_scheme
     \<Rightarrow> 'a timers_scheme option" where
  "add_timer call j fn s =
     (case fn of
        None \<Rightarrow> Some s
      | Some f \<Rightarrow>
          if j \<le> 0 then call f s
          else case free_timer s of
            None \<Rightarrow> None
          | Some p \<Rightarrow>
              let s = update_timer p (\<lambda>t. t\<lparr>tl_fn := Some f\<rparr>) s;
                  s = update_timer p (\<lambda>t. t\<lparr>tl_jiffies := j\<rparr>) s;
                  s = update_timer p (\<lambda>t. t\<lparr>tl_next := next_timer s\<rparr>) s;
                  s = s\<lparr>next_timer := Some p\<rparr>
              in sort_timer p s)"

partial_function (option) run_timers ::
  "(nat \<Rightarrow> 'a timers_scheme \<Rightarrow> 'a timers_scheme option) \<Rightarrow> 'a timers_scheme \<Rightarrow> 'a timers_scheme option" where
  "run_timers call s =
     (case next_timer s of
        None \<Rightarrow> Some s
      | Some p \<Rightarrow>
          if tl_jiffies (timer_at s p) \<le> 0 then
            do { let fn = tl_fn (timer_at s p);
                 let s = update_timer p (\<lambda>t. t\<lparr>tl_fn := None\<rparr>) s;
                 let s = s\<lparr>next_timer := tl_next (timer_at s p)\<rparr>;
                 f \<leftarrow> fn;
                 s \<leftarrow> call f s;
                 run_timers call s }
          else Some s)"

text \<open>
  The clock interrupt. \<open>sysbeepstop\<close> of \<open>console.c\<close> only switches the speaker off; its effect
  on \<open>beepcount\<close> is nil. \<open>schedule\<close> returns when the interrupted task runs again.
\<close>

definition do_timer ::
  "'a timers_scheme environment \<Rightarrow> (nat \<Rightarrow> 'a timers_scheme \<Rightarrow> 'a timers_scheme option) \<Rightarrow> int
     \<Rightarrow> 'a timers_scheme \<Rightarrow> 'a timers_scheme option" where
  "do_timer env call cpl s =
     do { let s = (if beepcount s \<noteq> 0 then s\<lparr>beepcount := beepcount s - 1\<rparr> else s);
          let s = (if cpl \<noteq> 0 then update_task (current s) (\<lambda>t. t\<lparr>t_utime := t_utime t + 1\<rparr>) s
                   else update_task (current s) (\<lambda>t. t\<lparr>t_stime := t_stime t + 1\<rparr>) s);
          s \<leftarrow> (case next_timer s of
                  None \<Rightarrow> Some s
                | Some p \<Rightarrow> run_timers call (update_timer p (\<lambda>t. t\<lparr>tl_jiffies := tl_jiffies t - 1\<rparr>) s));
          let s = (if current_DOR s AND 0xf0 \<noteq> 0 then do_floppy_timer s else s);
          let s = update_task (current s) (\<lambda>t. t\<lparr>t_counter := t_counter t - 1\<rparr>) s;
          if t_counter (cur_task s) > 0 then Some s
          else do {
            let s = update_task (current s) (\<lambda>t. t\<lparr>t_counter := 0\<rparr>) s;
            if cpl = 0 then Some s else reschedule env s
          } }"

subsection \<open>The queue as a list of delays\<close>

text \<open>
  The abstract queue: the delay of each entry after the one before it, with its function.
  \<open>insert_code\<close> is what the code does to that list, \<open>expiries\<close> the times at which the entries
  run.
\<close>

definition timer_entry :: "'a timers_scheme \<Rightarrow> nat \<Rightarrow> int \<times> nat option" where
  "timer_entry s i = (tl_jiffies (timer_at s i), tl_fn (timer_at s i))"

definition timer_next :: "'a timers_scheme \<Rightarrow> nat \<Rightarrow> nat option" where
  "timer_next s i = tl_next (timer_at s i)"

text \<open>The queue holds exactly the entries in use.\<close>

definition timers_ok :: "'a timers_scheme \<Rightarrow> nat list \<Rightarrow> bool" where
  "timers_ok s is \<longleftrightarrow> length (timer_list s) = TIME_REQUESTS \<and> chain (timer_next s) (next_timer s) is
     \<and> (\<forall>i < TIME_REQUESTS. i \<in> set is \<longleftrightarrow> tl_fn (timer_at s i) \<noteq> None) \<and> set is \<subseteq> {..<TIME_REQUESTS}"

fun insert_code :: "int \<times> nat option \<Rightarrow> (int \<times> nat option) list \<Rightarrow> (int \<times> nat option) list" where
  "insert_code (j, f) [] = [(j, f)]"
| "insert_code (j, f) ((k, g) # ts) =
     (if k < j then (k, g) # insert_code (j - k, f) ts else (j, f) # (k, g) # ts)"

fun expiries :: "int \<Rightarrow> (int \<times> nat option) list \<Rightarrow> (int \<times> nat option) list" where
  "expiries t [] = []"
| "expiries t ((j, f) # ts) = (t + j, f) # expiries (t + j) ts"

lemma timer_at_update:
  "timer_at (update_timer i f s) j = (if i = j \<and> j < length (timer_list s) then f (timer_at s j) else timer_at s j)"
  by (simp add: timer_at_def update_timer_def nth_list_update_if)

lemma update_timer_simps [frame_simps, simp]:
  "next_timer (update_timer i f s) = next_timer s" "length (timer_list (update_timer i f s)) = length (timer_list s)"
  "tasks (update_timer i f s) = tasks s" "current (update_timer i f s) = current s" "task (update_timer i f s) = task s"
  by (simp_all add: update_timer_def)

text \<open>One turn of the loop: the two entries change places, the first one's delay is reduced.\<close>

lemma sort_timer_step:
  assumes "timer_next s p = Some q" "p \<noteq> q" "p < length (timer_list s)" "q < length (timer_list s)"
    and "tl_jiffies (timer_at s q) < tl_jiffies (timer_at s p)"
  obtains s1 where "sort_timer p s = sort_timer q s1"
    "timer_entry s1 p = timer_entry s q"
    "timer_entry s1 q = (tl_jiffies (timer_at s p) - tl_jiffies (timer_at s q), tl_fn (timer_at s p))"
    "timer_next s1 = timer_next s" "next_timer s1 = next_timer s"
    "length (timer_list s1) = length (timer_list s)"
    "\<And>i. i \<noteq> p \<Longrightarrow> i \<noteq> q \<Longrightarrow> timer_entry s1 i = timer_entry s i"
proof -
  have "\<exists>s1. sort_timer p s = sort_timer q s1 \<and> timer_entry s1 p = timer_entry s q \<and>
    timer_entry s1 q = (tl_jiffies (timer_at s p) - tl_jiffies (timer_at s q), tl_fn (timer_at s p)) \<and>
    timer_next s1 = timer_next s \<and> next_timer s1 = next_timer s \<and>
    length (timer_list s1) = length (timer_list s) \<and>
    (\<forall>i. i \<noteq> p \<longrightarrow> i \<noteq> q \<longrightarrow> timer_entry s1 i = timer_entry s i)"
    apply (subst sort_timer.simps)
    using assms
    apply (simp add: timer_next_def Let_def)
    apply (intro exI conjI, rule refl)
    by (auto simp: timer_entry_def timer_at_update timer_next_def)
  then show thesis using that by blast
qed

lemma insert_code_fns: "snd ` set (insert_code (j, f) ts) = insert f (snd ` set ts)"
  by (induction "(j, f)" ts arbitrary: j rule: insert_code.induct) (simp_all add: insert_commute)

lemma sort_timer_spec:
  assumes "chain (timer_next s) (Some p) (p # qs)" "\<forall>i \<in> set (p # qs). i < length (timer_list s)"
  shows "\<exists>s'. sort_timer p s = Some s' \<and> timer_next s' = timer_next s \<and> next_timer s' = next_timer s
    \<and> length (timer_list s') = length (timer_list s)
    \<and> map (timer_entry s') (p # qs) = insert_code (timer_entry s p) (map (timer_entry s) qs)
    \<and> (\<forall>i. i \<notin> set (p # qs) \<longrightarrow> timer_entry s' i = timer_entry s i)"
  using assms
proof (induction qs arbitrary: s p)
  case Nil
  then show ?case by (subst sort_timer.simps) (auto simp: timer_next_def timer_entry_def)
next
  case (Cons q qs)
  let ?stop = "sort_timer p s = Some s \<and> \<not> tl_jiffies (timer_at s q) < tl_jiffies (timer_at s p)"
  from Cons.prems have nx: "timer_next s p = Some q" and ch: "chain (timer_next s) (Some q) (q # qs)"
    and len: "p < length (timer_list s)" "q < length (timer_list s)" by auto
  have d: "distinct (p # q # qs)" using Cons.prems(1) by (rule chain_distinct)
  show ?case
  proof (cases "tl_jiffies (timer_at s q) < tl_jiffies (timer_at s p)")
    case False
    with nx have "sort_timer p s = Some s" by (subst sort_timer.simps) (simp add: timer_next_def)
    with False show ?thesis by (simp add: timer_entry_def)
  next
    case True
    from d have "p \<noteq> q" by simp
    from sort_timer_step [OF nx this len True] obtain s1 where s1: "sort_timer p s = sort_timer q s1"
      "timer_entry s1 p = timer_entry s q"
      "timer_entry s1 q = (tl_jiffies (timer_at s p) - tl_jiffies (timer_at s q), tl_fn (timer_at s p))"
      "timer_next s1 = timer_next s" "next_timer s1 = next_timer s"
      "length (timer_list s1) = length (timer_list s)"
      "\<And>i. i \<noteq> p \<Longrightarrow> i \<noteq> q \<Longrightarrow> timer_entry s1 i = timer_entry s i" by metis
    have "chain (timer_next s1) (Some q) (q # qs)" "\<forall>i \<in> set (q # qs). i < length (timer_list s1)"
      using ch Cons.prems(2) s1 by auto
    from Cons.IH [OF this] obtain s' where s': "sort_timer q s1 = Some s'" "timer_next s' = timer_next s1"
      "next_timer s' = next_timer s1" "length (timer_list s') = length (timer_list s1)"
      "map (timer_entry s') (q # qs) = insert_code (timer_entry s1 q) (map (timer_entry s1) qs)"
      "\<forall>i. i \<notin> set (q # qs) \<longrightarrow> timer_entry s' i = timer_entry s1 i" by blast
    have "map (timer_entry s1) qs = map (timer_entry s) qs" using d by (auto intro!: s1(7))
    moreover have "timer_entry s' p = timer_entry s q" using s'(6) d s1(2) by auto
    ultimately have "map (timer_entry s') (p # q # qs) = insert_code (timer_entry s p) (map (timer_entry s) (q # qs))"
      using s'(5) True s1(3) by (simp add: timer_entry_def del: map_eq_conv)
    then show ?thesis using s1 s' d by auto
  qed
qed

lemma free_timer_None: "timers_ok s is \<Longrightarrow> free_timer s = None \<longleftrightarrow> length is = TIME_REQUESTS"
proof -
  assume ok: "timers_ok s is"
  then have "distinct is" using chain_distinct by (auto simp: timers_ok_def)
  then have card: "card (set is) = length is" by (rule distinct_card)
  have sub: "set is \<subseteq> {..<TIME_REQUESTS}" using ok by (simp add: timers_ok_def)
  have "free_timer s = None \<longleftrightarrow> {..<TIME_REQUESTS} \<subseteq> set is"
    using ok by (auto simp: free_timer_def find_None_iff timers_ok_def subset_iff)
  also have "\<dots> \<longleftrightarrow> length is = TIME_REQUESTS"
    using card sub card_subset_eq [of "{..<TIME_REQUESTS}" "set is"] card_mono [OF _ sub]
    by (metis card_lessThan finite_lessThan subset_antisym subset_refl)
  finally show ?thesis .
qed

lemma free_timer_Some: "free_timer s = Some p \<Longrightarrow> p < TIME_REQUESTS \<and> tl_fn (timer_at s p) = None"
  by (auto simp: free_timer_def find_Some_iff)

text \<open>\<open>add_timer\<close> refines \<open>insert_code\<close>, and panics only when the 64 entries are in use.\<close>

lemma add_timer_refines:
  assumes ok: "timers_ok s is" and "length is < TIME_REQUESTS" and j: "0 < j"
  shows "\<exists>s' is'. add_timer call j (Some f) s = Some s' \<and> timers_ok s' is'
    \<and> map (timer_entry s') is' = insert_code (j, Some f) (map (timer_entry s) is)"
proof -
  from free_timer_None [OF ok] assms(2) obtain p where p: "free_timer s = Some p" by fastforce
  from free_timer_Some [OF p] ok have p': "p < TIME_REQUESTS" "tl_fn (timer_at s p) = None" "p \<notin> set is"
    by (auto simp: timers_ok_def)
  define s1 where "s1 = update_timer p (\<lambda>t. t\<lparr>tl_next := next_timer s\<rparr>)
    (update_timer p (\<lambda>t. t\<lparr>tl_jiffies := j\<rparr>) (update_timer p (\<lambda>t. t\<lparr>tl_fn := Some f\<rparr>) s))"
  let ?s2 = "s1\<lparr>next_timer := Some p\<rparr>"
  have len: "length (timer_list s) = TIME_REQUESTS" using ok by (simp add: timers_ok_def)
  have at1: "timer_at s1 i = (if i = p then \<lparr>tl_jiffies = j, tl_fn = Some f, tl_next = next_timer s\<rparr> else timer_at s i)" for i
    using p' len by (simp add: s1_def timer_at_update)
  have at: "timer_at ?s2 i = timer_at s1 i" for i by (simp add: timer_at_def)
  have eq: "add_timer call j (Some f) s = sort_timer p ?s2"
    using p j by (simp add: add_timer_def Let_def s1_def)
  have other: "timer_next ?s2 i = timer_next s i" "timer_entry ?s2 i = timer_entry s i" if "i \<noteq> p" for i
    using that by (simp_all add: timer_next_def timer_entry_def at at1)
  have nx: "timer_next ?s2 p = next_timer s" by (simp add: timer_next_def at at1)
  have ch: "chain (timer_next ?s2) (Some p) (p # is)"
  proof -
    have "chain (timer_next ?s2) (next_timer s) is = chain (timer_next s) (next_timer s) is"
      by (rule chain_cong) (metis other(1) p'(3))
    then show ?thesis using ok nx by (simp add: timers_ok_def)
  qed
  have "\<forall>i \<in> set (p # is). i < length (timer_list ?s2)" using ok p' by (auto simp: s1_def timers_ok_def)
  from sort_timer_spec [OF ch this] obtain s' where s': "sort_timer p ?s2 = Some s'"
    "timer_next s' = timer_next ?s2" "next_timer s' = next_timer ?s2"
    "length (timer_list s') = length (timer_list ?s2)"
    "map (timer_entry s') (p # is) = insert_code (timer_entry ?s2 p) (map (timer_entry ?s2) is)"
    "\<forall>i. i \<notin> set (p # is) \<longrightarrow> timer_entry s' i = timer_entry ?s2 i" by blast
  have ents: "map (timer_entry s') (p # is) = insert_code (j, Some f) (map (timer_entry s) is)"
  proof -
    have "map (timer_entry ?s2) is = map (timer_entry s) is" using p'(3) by (auto intro!: other(2))
    moreover have "timer_entry ?s2 p = (j, Some f)" by (simp add: timer_entry_def at at1)
    ultimately show ?thesis using s'(5) by (simp only:)
  qed
  have fns: "snd ` set (map (timer_entry s') (p # is)) = insert (Some f) (snd ` set (map (timer_entry s) is))"
    unfolding ents by (rule insert_code_fns)
  have "None \<notin> snd ` set (map (timer_entry s') (p # is))"
    unfolding fns using ok by (auto simp: timer_entry_def timers_ok_def)
  then have used: "tl_fn (timer_at s' i) \<noteq> None" if "i \<in> set (p # is)" for i
  proof -
    have "snd (timer_entry s' i) \<in> snd ` set (map (timer_entry s') (p # is))"
      unfolding set_map image_image using that by (rule imageI)
    with \<open>None \<notin> _\<close> show ?thesis by (metis snd_conv timer_entry_def)
  qed
  have unused: "tl_fn (timer_at s' i) = None" if "i \<notin> set (p # is)" "i < TIME_REQUESTS" for i
    using that s'(6) other(2) [of i] ok by (auto simp: timer_entry_def timers_ok_def)
  have "\<forall>i < TIME_REQUESTS. i \<in> set (p # is) \<longleftrightarrow> tl_fn (timer_at s' i) \<noteq> None"
    by (metis used unused)
  moreover have "length (timer_list s') = TIME_REQUESTS" using s'(4) len by (simp add: s1_def)
  moreover have "chain (timer_next s') (next_timer s') (p # is)" using s'(2, 3) ch by simp
  moreover have "set (p # is) \<subseteq> {..<TIME_REQUESTS}" using ok p'(1) by (auto simp: timers_ok_def)
  ultimately have "timers_ok s' (p # is)" unfolding timers_ok_def by blast
  then show ?thesis using eq s'(1) ents by metis
qed

text \<open>Where the new timer goes, and what that means for the times at which the others run.\<close>

lemma insert_code_expiries:
  assumes "\<forall>e \<in> set ts. 0 \<le> fst e" and "0 < j"
  shows "\<exists>pre post. ts = pre @ post \<and> sum_list (map fst pre) < j
    \<and> (post \<noteq> [] \<longrightarrow> j \<le> sum_list (map fst pre) + fst (hd post))
    \<and> expiries t ts = expiries t pre @ expiries (t + sum_list (map fst pre)) post
    \<and> expiries t (insert_code (j, f) ts) = expiries t pre @ (t + j, f) # expiries (t + j) post"
  using assms
proof (induction ts arbitrary: t j)
  case Nil
  then show ?case by simp
next
  case (Cons e ts)
  obtain k g where e: "e = (k, g)" by fastforce
  show ?case
  proof (cases "k < j")
    case False
    then show ?thesis using Cons.prems by (intro exI [of _ "[]"] exI [of _ "e # ts"]) (simp add: e)
  next
    case True
    with Cons.IH [of "j - k" "t + k"] Cons.prems obtain pre post where
      "ts = pre @ post" "sum_list (map fst pre) < j - k"
      "post \<noteq> [] \<longrightarrow> j - k \<le> sum_list (map fst pre) + fst (hd post)"
      "expiries (t + k) ts = expiries (t + k) pre @ expiries (t + k + sum_list (map fst pre)) post"
      "expiries (t + k) (insert_code (j - k, f) ts) = expiries (t + k) pre @ (t + j, f) # expiries (t + j) post"
      by (auto simp: e)
    then show ?thesis
      using True by (intro exI [of _ "e # pre"] exI [of _ post]) (auto simp: e add.assoc)
  qed
qed


text \<open>Two timers, due in 10 and 30 ticks; adding one for tick 20 makes the last run at tick 40.\<close>

definition boot_timers :: timers where
  "boot_timers = sched.extend boot_sched
     \<lparr>timer_list = replicate 64 \<lparr>tl_jiffies = 0, tl_fn = None, tl_next = None\<rparr>, next_timer = None, beepcount = 0,
      current_DOR = 0x0C, FD_DOR = 0x0C, selected = False, wait_motor = (\<lambda>_. None),
      mon_timer = [0, 0, 0, 0], moff_timer = [0, 0, 0, 0]\<rparr>"

definition two_timers :: timers where
  "two_timers = boot_timers\<lparr>next_timer := Some 0, timer_list :=
     [\<lparr>tl_jiffies = 10, tl_fn = Some 1, tl_next = Some 1\<rparr>, \<lparr>tl_jiffies = 20, tl_fn = Some 2, tl_next = None\<rparr>]
       @ replicate 62 \<lparr>tl_jiffies = 0, tl_fn = None, tl_next = None\<rparr>\<rparr>"

lemma two_timers_at: "timer_at two_timers 0 = \<lparr>tl_jiffies = 10, tl_fn = Some 1, tl_next = Some 1\<rparr>"
  "timer_at two_timers (Suc 0) = \<lparr>tl_jiffies = 20, tl_fn = Some 2, tl_next = None\<rparr>"
  by (simp_all add: two_timers_def timer_at_def)

lemma two_timers_ok: "timers_ok two_timers [0, 1]"
proof -
  have "tl_fn (timer_at two_timers i) = None" if "2 \<le> i" "i < 64" for i
    using that by (simp add: two_timers_def timer_at_def nth_append)
  then have used: "i \<in> set [0, 1] \<longleftrightarrow> tl_fn (timer_at two_timers i) \<noteq> None" if "i < 64" for i
    using that by (cases "i = 0 \<or> i = 1") (auto simp: two_timers_at)
  have len: "length (timer_list two_timers) = 64" and nxt: "next_timer two_timers = Some 0"
    by (simp_all add: two_timers_def)
  have "chain (timer_next two_timers) (next_timer two_timers) [0, 1]"
    by (simp add: timer_next_def two_timers_at nxt)
  with used len show ?thesis unfolding timers_ok_def by simp
qed


subsection \<open>The motor queues are wait queues\<close>

interpretation motor: wait_queue "fst (motor_queue nr)" "snd (motor_queue nr)"
  by unfold_locales (simp_all add: motor_queue_def)

lemma motor_wake_up: "wait_motor s i = Some t \<Longrightarrow> t_state (tasks (wake_up (motor_queue i) s) t) = TASK_RUNNING"
  using motor.wake_up_runs [of i s t] by (simp add: motor_queue_def)

end
