(* ===== verification/Ctype.thy ===== *)
theory Ctype
  imports Prelude
begin

text \<open>
  \<open>lib/ctype.c\<close> and \<open>include/ctype.h\<close>: the character classes. The macros index
  \<open>(_ctype+1)[c]\<close> with an \<open>int\<close>, so \<open>c = -1\<close> is entry 0; for other negative characters (a
  \<open>signed char\<close> above 127) the code reads the memory before the table, which is the parameter
  \<open>mem\<close>.
\<close>

abbreviation (input) UPPER :: u8 where "UPPER \<equiv> 0x01"
abbreviation (input) LOWER :: u8 where "LOWER \<equiv> 0x02"
abbreviation (input) DIGIT :: u8 where "DIGIT \<equiv> 0x04"
abbreviation (input) CNTRL :: u8 where "CNTRL \<equiv> 0x08"
abbreviation (input) PUNCT :: u8 where "PUNCT \<equiv> 0x10"
abbreviation (input) SPC :: u8 where "SPC \<equiv> 0x20"
abbreviation (input) HEX :: u8 where "HEX \<equiv> 0x40"
abbreviation (input) HARD :: u8 where "HARD \<equiv> 0x80"

definition ctype_table :: "u8 list" where
  "ctype_table =
   [0,
    CNTRL, CNTRL, CNTRL, CNTRL, CNTRL, CNTRL, CNTRL, CNTRL,
    CNTRL, CNTRL OR SPC, CNTRL OR SPC, CNTRL OR SPC, CNTRL OR SPC, CNTRL OR SPC, CNTRL, CNTRL,
    CNTRL, CNTRL, CNTRL, CNTRL, CNTRL, CNTRL, CNTRL, CNTRL,
    CNTRL, CNTRL, CNTRL, CNTRL, CNTRL, CNTRL, CNTRL, CNTRL,
    SPC OR HARD, PUNCT, PUNCT, PUNCT, PUNCT, PUNCT, PUNCT, PUNCT,
    PUNCT, PUNCT, PUNCT, PUNCT, PUNCT, PUNCT, PUNCT, PUNCT,
    DIGIT, DIGIT, DIGIT, DIGIT, DIGIT, DIGIT, DIGIT, DIGIT,
    DIGIT, DIGIT, PUNCT, PUNCT, PUNCT, PUNCT, PUNCT, PUNCT,
    PUNCT, UPPER OR HEX, UPPER OR HEX, UPPER OR HEX, UPPER OR HEX, UPPER OR HEX, UPPER OR HEX, UPPER,
    UPPER, UPPER, UPPER, UPPER, UPPER, UPPER, UPPER, UPPER,
    UPPER, UPPER, UPPER, UPPER, UPPER, UPPER, UPPER, UPPER,
    UPPER, UPPER, UPPER, PUNCT, PUNCT, PUNCT, PUNCT, PUNCT,
    PUNCT, LOWER OR HEX, LOWER OR HEX, LOWER OR HEX, LOWER OR HEX, LOWER OR HEX, LOWER OR HEX, LOWER,
    LOWER, LOWER, LOWER, LOWER, LOWER, LOWER, LOWER, LOWER,
    LOWER, LOWER, LOWER, LOWER, LOWER, LOWER, LOWER, LOWER,
    LOWER, LOWER, LOWER, PUNCT, PUNCT, PUNCT, PUNCT, CNTRL] @ replicate 128 0"

definition ctype_at :: "(int \<Rightarrow> u8) \<Rightarrow> int \<Rightarrow> u8" where
  "ctype_at mem c = (if - 1 \<le> c \<and> c < 256 then ctype_table ! nat (c + 1) else mem c)"

definition isalnum :: "(int \<Rightarrow> u8) \<Rightarrow> int \<Rightarrow> bool" where
  "isalnum mem c \<longleftrightarrow> ctype_at mem c AND (UPPER OR LOWER OR DIGIT) \<noteq> 0"

definition isalpha :: "(int \<Rightarrow> u8) \<Rightarrow> int \<Rightarrow> bool" where
  "isalpha mem c \<longleftrightarrow> ctype_at mem c AND (UPPER OR LOWER) \<noteq> 0"

definition iscntrl :: "(int \<Rightarrow> u8) \<Rightarrow> int \<Rightarrow> bool" where
  "iscntrl mem c \<longleftrightarrow> ctype_at mem c AND CNTRL \<noteq> 0"

definition isdigit :: "(int \<Rightarrow> u8) \<Rightarrow> int \<Rightarrow> bool" where
  "isdigit mem c \<longleftrightarrow> ctype_at mem c AND DIGIT \<noteq> 0"

definition isgraph :: "(int \<Rightarrow> u8) \<Rightarrow> int \<Rightarrow> bool" where
  "isgraph mem c \<longleftrightarrow> ctype_at mem c AND (PUNCT OR UPPER OR LOWER OR DIGIT) \<noteq> 0"

definition islower :: "(int \<Rightarrow> u8) \<Rightarrow> int \<Rightarrow> bool" where
  "islower mem c \<longleftrightarrow> ctype_at mem c AND LOWER \<noteq> 0"

definition isprint :: "(int \<Rightarrow> u8) \<Rightarrow> int \<Rightarrow> bool" where
  "isprint mem c \<longleftrightarrow> ctype_at mem c AND (PUNCT OR UPPER OR LOWER OR DIGIT OR HARD) \<noteq> 0"

definition ispunct :: "(int \<Rightarrow> u8) \<Rightarrow> int \<Rightarrow> bool" where
  "ispunct mem c \<longleftrightarrow> ctype_at mem c AND PUNCT \<noteq> 0"

definition isspace :: "(int \<Rightarrow> u8) \<Rightarrow> int \<Rightarrow> bool" where
  "isspace mem c \<longleftrightarrow> ctype_at mem c AND SPC \<noteq> 0"

definition isupper :: "(int \<Rightarrow> u8) \<Rightarrow> int \<Rightarrow> bool" where
  "isupper mem c \<longleftrightarrow> ctype_at mem c AND UPPER \<noteq> 0"

definition isxdigit :: "(int \<Rightarrow> u8) \<Rightarrow> int \<Rightarrow> bool" where
  "isxdigit mem c \<longleftrightarrow> ctype_at mem c AND (DIGIT OR HEX) \<noteq> 0"

text \<open>\<open>tolower\<close> and \<open>toupper\<close> assign to \<open>_ctmp\<close>, a \<open>char\<close>: the argument is cut to 8 bits, signed.\<close>

definition to_char :: "int \<Rightarrow> int" where
  "to_char c = signed_take_bit 7 c"

definition tolower :: "(int \<Rightarrow> u8) \<Rightarrow> int \<Rightarrow> int" where
  "tolower mem c = (let ctmp = to_char c in if isupper mem ctmp then ctmp - (65 - 97) else ctmp)"

definition toupper :: "(int \<Rightarrow> u8) \<Rightarrow> int \<Rightarrow> int" where
  "toupper mem c = (let ctmp = to_char c in if islower mem ctmp then ctmp - (97 - 65) else ctmp)"

subsection \<open>The table classifies ASCII\<close>

definition ascii_class :: "nat \<Rightarrow> u8" where
  "ascii_class c =
     (if 65 \<le> c \<and> c \<le> 90 then if c \<le> 70 then UPPER OR HEX else UPPER
      else if 97 \<le> c \<and> c \<le> 122 then if c \<le> 102 then LOWER OR HEX else LOWER
      else if 48 \<le> c \<and> c \<le> 57 then DIGIT
      else if c = 32 then SPC OR HARD
      else if c < 32 then if 9 \<le> c \<and> c \<le> 13 then CNTRL OR SPC else CNTRL
      else if c = 127 then CNTRL else PUNCT)"

lemma upt_128: "[0..<128] = 0 # 1 # [2..<128]"
  by (simp add: upt_conv_Cons numeral_2_eq_2 [symmetric])

lemma ctype_table_eq: "ctype_table = 0 # map ascii_class [0..<128] @ replicate 128 0"
  unfolding upt_128 by (simp add: ctype_table_def ascii_class_def upt_rec_numeral)

lemma ctype_at_ascii: "0 \<le> c \<Longrightarrow> c < 128 \<Longrightarrow> ctype_at mem c = ascii_class (nat c)"
  by (simp add: ctype_at_def ctype_table_eq nat_add_distrib nth_append nat_less_iff)

lemma to_char_ascii: "0 \<le> c \<Longrightarrow> c < 128 \<Longrightarrow> to_char c = c"
  by (simp add: to_char_def signed_take_bit_int_eq_self)

text \<open>
  For every ASCII character the macros of \<open>ctype.h\<close> agree with the ASCII classes, and
  \<open>tolower\<close> and \<open>toupper\<close> change exactly the letters, by 32.
\<close>

theorem ctype_ascii:
  assumes "0 \<le> c" and "c < 128"
  shows "isupper mem c = (65 \<le> c \<and> c \<le> 90) \<and> islower mem c = (97 \<le> c \<and> c \<le> 122)
    \<and> isdigit mem c = (48 \<le> c \<and> c \<le> 57) \<and> isalpha mem c = (isupper mem c \<or> islower mem c)
    \<and> isalnum mem c = (isalpha mem c \<or> isdigit mem c)
    \<and> iscntrl mem c = (c < 32 \<or> c = 127) \<and> isgraph mem c = (32 < c \<and> c < 127)
    \<and> isprint mem c = (32 \<le> c \<and> c < 127) \<and> ispunct mem c = (isgraph mem c \<and> \<not> isalnum mem c)
    \<and> isspace mem c = (c = 32 \<or> 9 \<le> c \<and> c \<le> 13)
    \<and> isxdigit mem c = (isdigit mem c \<or> 65 \<le> c \<and> c \<le> 70 \<or> 97 \<le> c \<and> c \<le> 102)
    \<and> tolower mem c = (if isupper mem c then c + 32 else c)
    \<and> toupper mem c = (if islower mem c then c - 32 else c)"
proof -
  have at: "ctype_at mem c = ascii_class (nat c)" using assms by (rule ctype_at_ascii)
  have "(c < 9) \<and> ascii_class (nat c) = CNTRL
    \<or> (9 \<le> c \<and> c \<le> 13) \<and> ascii_class (nat c) = CNTRL OR SPC
    \<or> (14 \<le> c \<and> c < 32) \<and> ascii_class (nat c) = CNTRL
    \<or> (c = 32) \<and> ascii_class (nat c) = SPC OR HARD
    \<or> (33 \<le> c \<and> c < 48) \<and> ascii_class (nat c) = PUNCT
    \<or> (48 \<le> c \<and> c \<le> 57) \<and> ascii_class (nat c) = DIGIT
    \<or> (58 \<le> c \<and> c < 65) \<and> ascii_class (nat c) = PUNCT
    \<or> (65 \<le> c \<and> c \<le> 70) \<and> ascii_class (nat c) = UPPER OR HEX
    \<or> (71 \<le> c \<and> c \<le> 90) \<and> ascii_class (nat c) = UPPER
    \<or> (91 \<le> c \<and> c < 97) \<and> ascii_class (nat c) = PUNCT
    \<or> (97 \<le> c \<and> c \<le> 102) \<and> ascii_class (nat c) = LOWER OR HEX
    \<or> (103 \<le> c \<and> c \<le> 122) \<and> ascii_class (nat c) = LOWER
    \<or> (123 \<le> c \<and> c < 127) \<and> ascii_class (nat c) = PUNCT
    \<or> (c = 127) \<and> ascii_class (nat c) = CNTRL"
    using assms unfolding ascii_class_def by (auto simp: nat_le_iff le_nat_iff nat_less_iff nat_eq_iff)
  then show ?thesis
    unfolding isupper_def islower_def isdigit_def isalpha_def isalnum_def iscntrl_def isgraph_def isprint_def
      ispunct_def isspace_def isxdigit_def tolower_def toupper_def Let_def to_char_ascii [OF assms] at
    using assms by (elim disjE conjE) simp_all
qed

theorem ctype_ascii_witness: "tolower (\<lambda>_. 0) 81 = 113 \<and> isspace (\<lambda>_. 0) 10"
  using ctype_ascii [of 81 "\<lambda>_. 0"] ctype_ascii [of 10 "\<lambda>_. 0"] by simp

end
