(* ===== verification/Fifo.thy ===== *)
theory Fifo
  imports Prelude
begin

text \<open>
  First-in first-out byte queues. The kernel has two: the ring buffers of the terminals
  (\<open>include/linux/tty.h\<close>) and the page behind a pipe (\<open>fs/pipe.c\<close>). Both keep a head and a
  tail index into an array whose length is a power of two. \<open>ring_contents\<close> is the list a
  ring holds, the locale \<open>fifo\<close> the contract both implementations meet.
\<close>

subsection \<open>Index arithmetic with a mask\<close>

lemma uint_and_mask: "uint (w AND mask n :: 'a::len word) = uint w mod 2 ^ n"
  by (metis take_bit_eq_mask take_bit_eq_mod unsigned_take_bit_eq)

lemma uint_add_and_mask:
  "n \<le> LENGTH('a) \<Longrightarrow> uint ((a + b) AND mask n :: 'a::len word) = (uint a + uint b) mod 2 ^ n"
  by (simp add: uint_and_mask uint_word_ariths mod_mod_cancel le_imp_power_dvd)

lemma uint_diff_and_mask:
  "n \<le> LENGTH('a) \<Longrightarrow> uint ((a - b) AND mask n :: 'a::len word) = (uint a - uint b) mod 2 ^ n"
  by (simp add: uint_and_mask uint_word_ariths mod_mod_cancel le_imp_power_dvd)

lemma mod_diff_cases:
  fixes h t n :: int
  assumes "0 \<le> h" "h < n" "0 \<le> t" "t < n"
  shows "(h - t) mod n = (if t \<le> h then h - t else h + n - t)"
proof (cases "t \<le> h")
  case False
  then have "(h - t) mod n = (h - t + n) mod n" by simp
  also have "\<dots> = h - t + n" using assms False by (intro mod_pos_pos_trivial) auto
  finally show ?thesis using False by simp
qed (use assms in \<open>simp add: mod_pos_pos_trivial\<close>)

subsection \<open>The list in a ring\<close>

definition ring_count :: "nat \<Rightarrow> nat \<Rightarrow> nat \<Rightarrow> nat" where
  "ring_count n h t = (if t \<le> h then h - t else h + n - t)"

definition ring_next :: "nat \<Rightarrow> nat \<Rightarrow> nat" where
  "ring_next n i = (if i + 1 = n then 0 else i + 1)"

definition ring_prev :: "nat \<Rightarrow> nat \<Rightarrow> nat" where
  "ring_prev n i = (if i = 0 then n - 1 else i - 1)"

definition ring_contents :: "(nat \<Rightarrow> 'c) \<Rightarrow> nat \<Rightarrow> nat \<Rightarrow> nat \<Rightarrow> 'c list" where
  "ring_contents buf n h t = map (\<lambda>i. buf ((t + i) mod n)) [0..<ring_count n h t]"

lemma length_ring_contents [simp]: "length (ring_contents buf n h t) = ring_count n h t"
  by (simp add: ring_contents_def)

lemma ring_next_less: "i < n \<Longrightarrow> ring_next n i < n" by (auto simp: ring_next_def)
lemma ring_prev_less: "i < n \<Longrightarrow> ring_prev n i < n" by (auto simp: ring_prev_def)

lemma ring_next_prev: "i < n \<Longrightarrow> ring_next n (ring_prev n i) = i"
  by (auto simp: ring_next_def ring_prev_def)

lemma ring_next_mod: "i < n \<Longrightarrow> ring_next n i = (i + 1) mod n"
  by (auto simp: ring_next_def)

lemma ring_count_less: "h < n \<Longrightarrow> t < n \<Longrightarrow> ring_count n h t < n"
  by (auto simp: ring_count_def)

lemma ring_count_0: "h < n \<Longrightarrow> t < n \<Longrightarrow> ring_count n h t = 0 \<longleftrightarrow> h = t"
  by (auto simp: ring_count_def)

lemma ring_count_full: "h < n \<Longrightarrow> t < n \<Longrightarrow> ring_next n h = t \<longleftrightarrow> ring_count n h t = n - 1"
  by (auto simp: ring_count_def ring_next_def)

lemma ring_count_next:
  "h < n \<Longrightarrow> t < n \<Longrightarrow> ring_next n h \<noteq> t \<Longrightarrow> ring_count n (ring_next n h) t = Suc (ring_count n h t)"
  by (auto simp: ring_count_def ring_next_def split: if_splits)

lemma ring_index: "h < n \<Longrightarrow> t < n \<Longrightarrow> (t + ring_count n h t) mod n = h"
  by (auto simp: ring_count_def)

lemma ring_index_ne:
  assumes "h < n" "t < n" "i < ring_count n h t"
  shows "(t + i) mod n \<noteq> h"
proof (cases "t + i < n")
  case True
  with assms show ?thesis by (auto simp: ring_count_def split: if_splits)
next
  case False
  have "i < n" using assms ring_count_less [of h n t] by simp
  with False assms have "(t + i) mod n = t + i - n" by (simp add: le_mod_geq)
  with assms False show ?thesis by (auto simp: ring_count_def split: if_splits)
qed

text \<open>The index operations as the masked arithmetic computes them.\<close>

lemma ring_next_int: "int x = (int a + 1) mod 1024 \<Longrightarrow> a < 1024 \<Longrightarrow> x = ring_next 1024 a"
  by (auto simp: ring_next_def)

lemma ring_prev_int: "int x = (int a - 1) mod 1024 \<Longrightarrow> a < 1024 \<Longrightarrow> x = ring_prev 1024 a"
  using mod_diff_cases [of "int a" 1024 1] by (auto simp: ring_prev_def split: if_splits)

lemma ring_count_int:
  "int x = (int h - int t) mod n \<Longrightarrow> n = int m \<Longrightarrow> h < m \<Longrightarrow> t < m \<Longrightarrow> x = ring_count m h t"
  using mod_diff_cases [of "int h" n "int t"] by (auto simp: ring_count_def split: if_splits)

lemma ring_room_int:
  assumes "int x = (int t - (int h + 1)) mod 1024" "h < 1024" "t < 1024"
  shows "x = 1023 - ring_count 1024 h t"
proof -
  have "(int t - (int h + 1)) mod 1024 = (if h < t then int t - (int h + 1) else int t + 1024 - (int h + 1))"
  proof (cases "h = 1023")
    case False
    then show ?thesis using assms(2, 3) mod_diff_cases [of "int t" 1024 "int h + 1"] by auto
  qed (use assms(2, 3) in simp)
  then show ?thesis using assms by (auto simp: ring_count_def split: if_splits)
qed

lemma ring_put:
  assumes "h < n" "t < n" "ring_next n h \<noteq> t"
  shows "ring_contents (buf(h := c)) n (ring_next n h) t = ring_contents buf n h t @ [c]"
  using ring_index_ne [OF assms(1, 2)] ring_index [OF assms(1, 2)]
  by (simp add: ring_contents_def ring_count_next [OF assms])

lemma ring_count_get:
  "h < n \<Longrightarrow> t < n \<Longrightarrow> h \<noteq> t \<Longrightarrow> ring_count n h t = Suc (ring_count n h (ring_next n t))"
  by (auto simp: ring_count_def ring_next_def)

lemma ring_get:
  assumes "h < n" "t < n" "h \<noteq> t"
  shows "ring_contents buf n h t = buf t # ring_contents buf n h (ring_next n t)"
proof -
  have "(t + Suc i) mod n = (ring_next n t + i) mod n" for i
    using assms(2) by (simp add: ring_next_mod mod_add_left_eq)
  then show ?thesis
    using assms(2)
    by (simp add: ring_contents_def ring_count_get [OF assms] upt_conv_Cons map_Suc_upt [symmetric] comp_def
        del: upt_Suc)
qed

lemma ring_unput:
  assumes "h < n" "t < n" "h \<noteq> t"
  shows "ring_contents buf n h t = ring_contents buf n (ring_prev n h) t @ [buf (ring_prev n h)]"
proof -
  let ?h = "ring_prev n h"
  have "ring_next n ?h = h" "?h < n" using assms by (simp_all add: ring_next_prev ring_prev_less)
  then show ?thesis using ring_put [of ?h n t buf "buf ?h"] assms by simp
qed

lemma ring_cong:
  assumes "\<And>i. i < n \<Longrightarrow> buf i = buf' i" and "t < n"
  shows "ring_contents buf n h t = ring_contents buf' n h t"
  using assms by (auto simp: ring_contents_def)

subsection \<open>The contract\<close>

text \<open>
  \<open>q_ok\<close> is the representation invariant, \<open>contents\<close> the list a queue holds, oldest byte first.
\<close>

fun get_n :: "('q \<Rightarrow> 'c \<times> 'q) \<Rightarrow> nat \<Rightarrow> 'q \<Rightarrow> 'c list \<times> 'q" where
  "get_n g 0 q = ([], q)"
| "get_n g (Suc n) q = (let (c, q) = g q; (cs, q) = get_n g n q in (c # cs, q))"

locale fifo =
  fixes q_ok :: "'q \<Rightarrow> bool"
    and contents :: "'q \<Rightarrow> 'c list"
    and room :: "'q \<Rightarrow> nat"
    and put :: "'c \<Rightarrow> 'q \<Rightarrow> 'q"
    and get :: "'q \<Rightarrow> 'c \<times> 'q"
    and capacity :: nat
  assumes room: "q_ok q \<Longrightarrow> room q + length (contents q) = capacity"
    and put_ok: "q_ok q \<Longrightarrow> q_ok (put c q)"
    and put_contents: "q_ok q \<Longrightarrow> room q \<noteq> 0 \<Longrightarrow> contents (put c q) = contents q @ [c]"
    and get_ok: "q_ok q \<Longrightarrow> q_ok (snd (get q))"
    and get_contents: "q_ok q \<Longrightarrow> contents q \<noteq> [] \<Longrightarrow> contents q = fst (get q) # contents (snd (get q))"
begin

lemma put_room: "q_ok q \<Longrightarrow> room q \<noteq> 0 \<Longrightarrow> room (put c q) = room q - 1"
  using room [of q] room [OF put_ok, of q c] put_contents [of q c] by simp

lemma get_room: "q_ok q \<Longrightarrow> contents q \<noteq> [] \<Longrightarrow> room (snd (get q)) = Suc (room q)"
  using room [of q] room [OF get_ok, of q] get_contents [of q] by (metis Suc_eq_plus1 add_Suc_shift add_right_cancel length_Cons)

text \<open>What is put in comes out in the same order, after what was there before.\<close>

lemma fold_put_ok: "q_ok q \<Longrightarrow> q_ok (fold put cs q)"
  by (induction cs arbitrary: q) (auto intro: put_ok)

lemma fold_put: "q_ok q \<Longrightarrow> length cs \<le> room q \<Longrightarrow> contents (fold put cs q) = contents q @ cs"
proof (induction cs arbitrary: q)
  case (Cons c cs)
  then have "room q \<noteq> 0" by auto
  with Cons show ?case by (simp add: put_ok put_room put_contents)
qed simp

lemma get_n: "q_ok q \<Longrightarrow> n \<le> length (contents q) \<Longrightarrow>
    fst (get_n get n q) = take n (contents q) \<and> contents (snd (get_n get n q)) = drop n (contents q) \<and> q_ok (snd (get_n get n q))"
proof (induction n arbitrary: q)
  case (Suc n)
  then have "contents q \<noteq> []" by auto
  from get_contents [OF Suc.prems(1) this] have eq: "contents q = fst (get q) # contents (snd (get q))" .
  then have "n \<le> length (contents (snd (get q)))" using Suc.prems(2) by (metis Suc_le_mono length_Cons)
  from Suc.IH [OF get_ok [OF Suc.prems(1)] this] show ?case
    by (subst (1 2) eq) (simp add: split_beta Let_def)
qed simp

lemma roundtrip:
  "q_ok q \<Longrightarrow> contents q = [] \<Longrightarrow> length cs \<le> capacity \<Longrightarrow> fst (get_n get (length cs) (fold put cs q)) = cs"
  using get_n [OF fold_put_ok, of q "length cs" cs] fold_put [of q cs] room [of q] by simp

end

end
