(* ===== verification/Tty.thy ===== *)
theory Tty
  imports Timers Ctype Fifo
begin

text \<open>
  \<open>include/linux/tty.h\<close>, \<open>kernel/chr_drv/tty_io.c\<close> and \<open>serial.c\<close>: the ring buffers of a
  terminal, the line discipline (\<open>copy_to_cooked\<close>), reading and writing. \<open>tty_table\<close> maps an
  index to a \<open>struct tty_struct\<close>; a \<open>struct tty_queue *\<close> is a terminal and one of its three
  queues. The pointer \<open>tty->write\<close> is the parameter \<open>wr\<close>: \<open>wr i\<close> is the call for terminal
  \<open>i\<close>. The machine's ports are the bytes written so far, \<open>outs\<close>, and \<open>device\<close>, what reading a
  port returns after them.
\<close>

subsection \<open>Terminals\<close>

abbreviation (input) TTY_BUF_SIZE :: nat where "TTY_BUF_SIZE \<equiv> 1024"

record tty_queue =
  q_data :: u32
  q_head :: u32
  q_tail :: u32
  q_proc_list :: "nat option"
  q_buf :: "u8 list"

text \<open>\<open>c_pad\<close>: the two bytes that fill the structure up to a multiple of four.\<close>

record termios =
  c_iflag :: u32
  c_oflag :: u32
  c_cflag :: u32
  c_lflag :: u32
  c_line :: u8
  c_cc :: "u8 list"
  c_pad :: "u8 list"

record tty_struct =
  tty_termios :: termios
  tty_pgrp :: int
  tty_stopped :: bool
  tty_read_q :: tty_queue
  tty_write_q :: tty_queue
  tty_secondary :: tty_queue

record tty = timers +
  tty_table :: "nat \<Rightarrow> tty_struct"
  cr_flag :: bool
  ctype_mem :: "int \<Rightarrow> u8"
  outs :: "(u32 \<times> u8) list"
  device :: "(u32 \<times> u8) list \<Rightarrow> u32 \<Rightarrow> u8"

definition outb :: "u8 \<Rightarrow> u32 \<Rightarrow> 'a tty_scheme \<Rightarrow> 'a tty_scheme" where
  "outb v port s = s\<lparr>outs := outs s @ [(port, v)]\<rparr>"

definition inb :: "u32 \<Rightarrow> 'a tty_scheme \<Rightarrow> u8" where
  "inb port s = device s (outs s) port"

subsection \<open>The macros of \<open>tty.h\<close>\<close>

definition INC :: "u32 \<Rightarrow> u32" where "INC a = (a + 1) AND (1024 - 1)"
definition DEC :: "u32 \<Rightarrow> u32" where "DEC a = (a - 1) AND (1024 - 1)"
definition EMPTY :: "tty_queue \<Rightarrow> bool" where "EMPTY a \<longleftrightarrow> q_head a = q_tail a"
definition LEFT :: "tty_queue \<Rightarrow> u32" where "LEFT a = (q_tail a - q_head a - 1) AND (1024 - 1)"
definition LAST :: "tty_queue \<Rightarrow> u8" where "LAST a = q_buf a ! unat ((1024 - 1) AND (q_head a - 1))"
definition FULL :: "tty_queue \<Rightarrow> bool" where "FULL a \<longleftrightarrow> LEFT a = 0"
definition CHARS :: "tty_queue \<Rightarrow> u32" where "CHARS a = (q_head a - q_tail a) AND (1024 - 1)"

definition GETCH :: "tty_queue \<Rightarrow> u8 \<times> tty_queue" where
  "GETCH q = (q_buf q ! unat (q_tail q), q\<lparr>q_tail := INC (q_tail q)\<rparr>)"

definition PUTCH :: "u8 \<Rightarrow> tty_queue \<Rightarrow> tty_queue" where
  "PUTCH c q = q\<lparr>q_buf := (q_buf q)[unat (q_head q) := c], q_head := INC (q_head q)\<rparr>"

abbreviation (input) "VINTR \<equiv> 0 :: nat"
abbreviation (input) "VQUIT \<equiv> 1 :: nat"
abbreviation (input) "VERASE \<equiv> 2 :: nat"
abbreviation (input) "VKILL \<equiv> 3 :: nat"
abbreviation (input) "VEOF \<equiv> 4 :: nat"
abbreviation (input) "VTIME \<equiv> 5 :: nat"
abbreviation (input) "VMIN \<equiv> 6 :: nat"
abbreviation (input) "VSTART \<equiv> 8 :: nat"
abbreviation (input) "VSTOP \<equiv> 9 :: nat"

abbreviation (input) INLCR :: u32 where "INLCR \<equiv> 0x40"
abbreviation (input) IGNCR :: u32 where "IGNCR \<equiv> 0x80"
abbreviation (input) ICRNL :: u32 where "ICRNL \<equiv> 0x100"
abbreviation (input) IUCLC :: u32 where "IUCLC \<equiv> 0x200"
abbreviation (input) OPOST :: u32 where "OPOST \<equiv> 0x1"
abbreviation (input) OLCUC :: u32 where "OLCUC \<equiv> 0x2"
abbreviation (input) ONLCR :: u32 where "ONLCR \<equiv> 0x4"
abbreviation (input) OCRNL :: u32 where "OCRNL \<equiv> 0x8"
abbreviation (input) ONLRET :: u32 where "ONLRET \<equiv> 0x20"
abbreviation (input) ISIG :: u32 where "ISIG \<equiv> 0x1"
abbreviation (input) ICANON :: u32 where "ICANON \<equiv> 0x2"
abbreviation (input) ECHO :: u32 where "ECHO \<equiv> 0x8"
abbreviation (input) ECHOCTL :: u32 where "ECHOCTL \<equiv> 0x200"
abbreviation (input) ECHOKE :: u32 where "ECHOKE \<equiv> 0x800"
abbreviation (input) B2400 :: u32 where "B2400 \<equiv> 0xB"
abbreviation (input) CS8 :: u32 where "CS8 \<equiv> 0x30"

text \<open>The flag tests, and a control character as the \<open>int\<close> it is promoted to.\<close>

definition L_FLAG :: "nat \<Rightarrow> u32 \<Rightarrow> 'a tty_scheme \<Rightarrow> bool" where
  "L_FLAG i f s \<longleftrightarrow> c_lflag (tty_termios (tty_table s i)) AND f \<noteq> 0"

definition I_FLAG :: "nat \<Rightarrow> u32 \<Rightarrow> 'a tty_scheme \<Rightarrow> bool" where
  "I_FLAG i f s \<longleftrightarrow> c_iflag (tty_termios (tty_table s i)) AND f \<noteq> 0"

definition O_FLAG :: "nat \<Rightarrow> u32 \<Rightarrow> 'a tty_scheme \<Rightarrow> bool" where
  "O_FLAG i f s \<longleftrightarrow> c_oflag (tty_termios (tty_table s i)) AND f \<noteq> 0"

definition CC :: "nat \<Rightarrow> nat \<Rightarrow> 'a tty_scheme \<Rightarrow> int" where
  "CC i k s = uint (c_cc (tty_termios (tty_table s i)) ! k)"

subsection \<open>Queues of a terminal\<close>

datatype queue_id = Read_q | Write_q | Secondary

fun tty_q :: "queue_id \<Rightarrow> tty_struct \<Rightarrow> tty_queue" where
  "tty_q Read_q t = tty_read_q t"
| "tty_q Write_q t = tty_write_q t"
| "tty_q Secondary t = tty_secondary t"

fun set_tty_q :: "queue_id \<Rightarrow> tty_queue \<Rightarrow> tty_struct \<Rightarrow> tty_struct" where
  "set_tty_q Read_q q t = t\<lparr>tty_read_q := q\<rparr>"
| "set_tty_q Write_q q t = t\<lparr>tty_write_q := q\<rparr>"
| "set_tty_q Secondary q t = t\<lparr>tty_secondary := q\<rparr>"

definition queue :: "queue_id \<Rightarrow> nat \<Rightarrow> 'a tty_scheme \<Rightarrow> tty_queue" where
  "queue k i s = tty_q k (tty_table s i)"

definition set_queue :: "queue_id \<Rightarrow> nat \<Rightarrow> tty_queue \<Rightarrow> 'a tty_scheme \<Rightarrow> 'a tty_scheme" where
  "set_queue k i q s = s\<lparr>tty_table := (tty_table s)(i := set_tty_q k q (tty_table s i))\<rparr>"

definition set_stopped :: "nat \<Rightarrow> bool \<Rightarrow> 'a tty_scheme \<Rightarrow> 'a tty_scheme" where
  "set_stopped i b s = s\<lparr>tty_table := (tty_table s)(i := (tty_table s i)\<lparr>tty_stopped := b\<rparr>)\<rparr>"

definition tty_wait :: "queue_id \<Rightarrow> nat \<Rightarrow> 'a tty_scheme wait_queue" where
  "tty_wait k i = (\<lambda>s. q_proc_list (queue k i s), \<lambda>v s. set_queue k i ((queue k i s)\<lparr>q_proc_list := v\<rparr>) s)"

definition putch :: "int \<Rightarrow> queue_id \<Rightarrow> nat \<Rightarrow> 'a tty_scheme \<Rightarrow> 'a tty_scheme" where
  "putch c k i s = set_queue k i (PUTCH (of_int c) (queue k i s)) s"

definition getch :: "queue_id \<Rightarrow> nat \<Rightarrow> 'a tty_scheme \<Rightarrow> int \<times> 'a tty_scheme" where
  "getch k i s = (let (c, q) = GETCH (queue k i s) in (sint c, set_queue k i q s))"

subsection \<open>Input: \<open>tty_intr\<close>, \<open>copy_to_cooked\<close>\<close>

definition tty_intr_step :: "nat \<Rightarrow> u32 \<Rightarrow> nat \<Rightarrow> 'a tty_scheme \<Rightarrow> 'a tty_scheme" where
  "tty_intr_step i sigs n s =
     (case task s ! n of
        None \<Rightarrow> s
      | Some p \<Rightarrow> if t_pgrp (tasks s p) = tty_pgrp (tty_table s i)
                  then update_task p (\<lambda>t. t\<lparr>t_signal := t_signal t OR sigs\<rparr>) s else s)"

definition tty_intr :: "nat \<Rightarrow> u32 \<Rightarrow> 'a tty_scheme \<Rightarrow> 'a tty_scheme" where
  "tty_intr i sigs s =
     (if tty_pgrp (tty_table s i) \<le> 0 then s else fold (tty_intr_step i sigs) [0..<NR_TASKS] s)"

partial_function (option) sleep_if_empty ::
  "'a tty_scheme environment \<Rightarrow> queue_id \<Rightarrow> nat \<Rightarrow> 'a tty_scheme \<Rightarrow> 'a tty_scheme option" where
  "sleep_if_empty env k i s =
     (if t_signal (cur_task s) = 0 \<and> EMPTY (queue k i s)
      then do { s \<leftarrow> interruptible_sleep_on env (tty_wait k i) s; sleep_if_empty env k i s }
      else Some s)"

partial_function (option) sleep_while_nearly_full ::
  "'a tty_scheme environment \<Rightarrow> queue_id \<Rightarrow> nat \<Rightarrow> 'a tty_scheme \<Rightarrow> 'a tty_scheme option" where
  "sleep_while_nearly_full env k i s =
     (if t_signal (cur_task s) = 0 \<and> LEFT (queue k i s) < 128
      then do { s \<leftarrow> interruptible_sleep_on env (tty_wait k i) s; sleep_while_nearly_full env k i s }
      else Some s)"

definition sleep_if_full ::
  "'a tty_scheme environment \<Rightarrow> queue_id \<Rightarrow> nat \<Rightarrow> 'a tty_scheme \<Rightarrow> 'a tty_scheme option" where
  "sleep_if_full env k i s = (if \<not> FULL (queue k i s) then Some s else sleep_while_nearly_full env k i s)"

definition wait_for_keypress :: "'a tty_scheme environment \<Rightarrow> 'a tty_scheme \<Rightarrow> 'a tty_scheme option" where
  "wait_for_keypress env s = sleep_if_empty env Secondary 0 s"

text \<open>The input translations; \<open>None\<close> is the \<open>continue\<close> of an ignored carriage return.\<close>

definition translate_input :: "nat \<Rightarrow> 'a tty_scheme \<Rightarrow> int \<Rightarrow> int option" where
  "translate_input i s c =
     (if c = 13 \<and> \<not> I_FLAG i ICRNL s \<and> I_FLAG i IGNCR s then None
      else
        let c = (if c = 13 then if I_FLAG i ICRNL s then 10 else c
                 else if c = 10 \<and> I_FLAG i INLCR s then 13 else c)
        in Some (if I_FLAG i IUCLC s then to_char (tolower (ctype_mem s) c) else c))"

text \<open>Rubbing out one character: the echo of a delete (two for a control character), then \<open>DEC\<close>.\<close>

definition rub_out ::
  "(nat \<Rightarrow> 'a tty_scheme \<Rightarrow> 'a tty_scheme option) \<Rightarrow> nat \<Rightarrow> int \<Rightarrow> 'a tty_scheme \<Rightarrow> 'a tty_scheme option" where
  "rub_out wr i c s =
     do { s \<leftarrow> (if L_FLAG i ECHO s
               then wr i (putch 127 Write_q i (if c < 32 then putch 127 Write_q i s else s)) else Some s);
          let q = queue Secondary i s;
          Some (set_queue Secondary i (q\<lparr>q_head := DEC (q_head q)\<rparr>) s) }"

text \<open>The end of the line being edited: nothing, a newline or an end of file.\<close>

definition at_line_start :: "nat \<Rightarrow> 'a tty_scheme \<Rightarrow> bool" where
  "at_line_start i s \<longleftrightarrow>
     (let q = queue Secondary i s; c = sint (LAST q) in EMPTY q \<or> c = 10 \<or> c = CC i VEOF s)"

partial_function (option) kill_line ::
  "(nat \<Rightarrow> 'a tty_scheme \<Rightarrow> 'a tty_scheme option) \<Rightarrow> nat \<Rightarrow> 'a tty_scheme \<Rightarrow> 'a tty_scheme option" where
  "kill_line wr i s =
     (if at_line_start i s then Some s
      else do { s \<leftarrow> rub_out wr i (sint (LAST (queue Secondary i s))) s; kill_line wr i s })"

definition erase_char ::
  "(nat \<Rightarrow> 'a tty_scheme \<Rightarrow> 'a tty_scheme option) \<Rightarrow> nat \<Rightarrow> 'a tty_scheme \<Rightarrow> 'a tty_scheme option" where
  "erase_char wr i s =
     (if at_line_start i s then Some s else rub_out wr i (sint (LAST (queue Secondary i s))) s)"

definition echo_put :: "nat \<Rightarrow> int \<Rightarrow> 'a tty_scheme \<Rightarrow> 'a tty_scheme" where
  "echo_put i c s =
     (if c = 10 then putch 13 Write_q i (putch 10 Write_q i s)
      else if c < 32 then
        if L_FLAG i ECHOCTL s then putch (c + 64) Write_q i (putch 94 Write_q i s) else s
      else putch c Write_q i s)"

text \<open>One turn of the loop of \<open>copy_to_cooked\<close>, after \<open>GETCH\<close> and the input translation.\<close>

definition cook_char ::
  "(nat \<Rightarrow> 'a tty_scheme \<Rightarrow> 'a tty_scheme option) \<Rightarrow> nat \<Rightarrow> int \<Rightarrow> 'a tty_scheme \<Rightarrow> 'a tty_scheme option" where
  "cook_char wr i c s =
     (let canon = L_FLAG i ICANON s; isig = L_FLAG i ISIG s in
      if canon \<and> c = CC i VKILL s then kill_line wr i s
      else if canon \<and> c = CC i VERASE s then erase_char wr i s
      else if canon \<and> c = CC i VSTOP s then Some (set_stopped i True s)
      else if canon \<and> c = CC i VSTART s then Some (set_stopped i False s)
      else if isig \<and> c = CC i VINTR s then Some (tty_intr i (sig_bit SIGINT) s)
      else if isig \<and> c = CC i VQUIT s then Some (tty_intr i (sig_bit SIGQUIT) s)
      else
        let s = (if c = 10 \<or> c = CC i VEOF s
                 then let q = queue Secondary i s in set_queue Secondary i (q\<lparr>q_data := q_data q + 1\<rparr>) s
                 else s)
        in do { s \<leftarrow> (if L_FLAG i ECHO s then wr i (echo_put i c s) else Some s);
                Some (putch c Secondary i s) })"

partial_function (option) cook_loop ::
  "(nat \<Rightarrow> 'a tty_scheme \<Rightarrow> 'a tty_scheme option) \<Rightarrow> nat \<Rightarrow> 'a tty_scheme \<Rightarrow> 'a tty_scheme option" where
  "cook_loop wr i s =
     (if \<not> EMPTY (queue Read_q i s) \<and> \<not> FULL (queue Secondary i s)
      then
        let (c, s) = getch Read_q i s
        in case translate_input i s c of
             None \<Rightarrow> cook_loop wr i s
           | Some c \<Rightarrow> do { s \<leftarrow> cook_char wr i c s; cook_loop wr i s }
      else Some s)"

definition copy_to_cooked ::
  "(nat \<Rightarrow> 'a tty_scheme \<Rightarrow> 'a tty_scheme option) \<Rightarrow> nat \<Rightarrow> 'a tty_scheme \<Rightarrow> 'a tty_scheme option" where
  "copy_to_cooked wr i s = do { s \<leftarrow> cook_loop wr i s; Some (wake_up (tty_wait Secondary i) s) }"

definition do_tty_interrupt ::
  "(nat \<Rightarrow> 'a tty_scheme \<Rightarrow> 'a tty_scheme option) \<Rightarrow> nat \<Rightarrow> 'a tty_scheme \<Rightarrow> 'a tty_scheme option" where
  "do_tty_interrupt wr i s = copy_to_cooked wr i s"

subsection \<open>\<open>tty_read\<close>\<close>

text \<open>
  The inner \<open>do \<dots> while\<close>: whether it returned at an end of file, the number of bytes stored so
  far, those still wanted and the state.
\<close>

function read_chars :: "nat \<Rightarrow> u32 \<Rightarrow> int \<Rightarrow> int \<Rightarrow> 'a tty_scheme \<Rightarrow> bool \<times> int \<times> int \<times> 'a tty_scheme" where
  "read_chars i buf b nr s =
     (let (c, s) = getch Secondary i s;
          s = (if c = CC i VEOF s \<or> c = 10
               then let q = queue Secondary i s in set_queue Secondary i (q\<lparr>q_data := q_data q - 1\<rparr>) s
               else s)
      in if c = CC i VEOF s \<and> L_FLAG i ICANON s then (True, b, nr, s)
      else
        let s = put_fs_byte (of_int c) (buf + of_int b) s;
            b = b + 1;
            nr = nr - 1
        in if nr = 0 then (False, b, nr, s)
        else if nr > 0 \<and> \<not> EMPTY (queue Secondary i s) then read_chars i buf b nr s
        else (False, b, nr, s))"
  by pat_completeness auto
termination
  by (relation "measure (\<lambda>(i, buf, b, nr, s). nat nr)") auto

declare read_chars.simps [simp del]

definition set_alarm :: "int \<Rightarrow> 'a tty_scheme \<Rightarrow> 'a tty_scheme" where
  "set_alarm v s = update_task (current s) (t_alarm_update (\<lambda>_. v)) s"

text \<open>The \<open>while\<close> loop; the result says whether the function returned from inside it.\<close>

partial_function (option) tty_read_loop ::
  "'a tty_scheme environment \<Rightarrow> nat \<Rightarrow> u32 \<Rightarrow> int \<Rightarrow> int \<Rightarrow> int \<Rightarrow> int \<Rightarrow> int \<Rightarrow> bool \<Rightarrow> 'a tty_scheme
     \<Rightarrow> (bool \<times> int \<times> 'a tty_scheme) option" where
  "tty_read_loop env i buf time minimum oldalarm b nr flag s =
     (if nr \<le> 0 then Some (False, b, s)
      else if flag \<and> t_signal (cur_task s) AND sig_bit SIGALRM \<noteq> 0 then
        Some (False, b, update_task (current s) (\<lambda>t. t\<lparr>t_signal := t_signal t AND NOT (sig_bit SIGALRM)\<rparr>) s)
      else if t_signal (cur_task s) \<noteq> 0 then Some (False, b, s)
      else if EMPTY (queue Secondary i s)
           \<or> L_FLAG i ICANON s \<and> q_data (queue Secondary i s) = 0 \<and> LEFT (queue Secondary i s) > 20 then
        do { s \<leftarrow> sleep_if_empty env Secondary i s;
             tty_read_loop env i buf time minimum oldalarm b nr flag s }
      else
        let (eof, b, nr, s) = read_chars i buf b nr s
        in if eof then Some (True, b, s)
        else
          let (flag, s) =
                (if time \<noteq> 0 \<and> \<not> L_FLAG i ICANON s
                 then if oldalarm = 0 \<or> wrap32 (time + jiffies s) < oldalarm
                      then (True, set_alarm (wrap32 (time + jiffies s)) s)
                      else (False, set_alarm oldalarm s)
                 else (flag, s))
          in if L_FLAG i ICANON s then
               if b \<noteq> 0 then Some (False, b, s)
               else tty_read_loop env i buf time minimum oldalarm b nr flag s
             else if b \<ge> minimum then Some (False, b, s)
             else tty_read_loop env i buf time minimum oldalarm b nr flag s)"

definition tty_read ::
  "'a tty_scheme environment \<Rightarrow> nat \<Rightarrow> u32 \<Rightarrow> int \<Rightarrow> 'a tty_scheme \<Rightarrow> (int \<times> 'a tty_scheme) option" where
  "tty_read env channel buf nr s =
     (if channel > 2 \<or> nr < 0 then Some (-1, s)
      else
        let oldalarm = t_alarm (cur_task s);
            time = 10 * CC channel VTIME s;
            minimum = CC channel VMIN s;
            (minimum, flag, s) =
              (if time \<noteq> 0 \<and> minimum = 0 then
                 if oldalarm = 0 \<or> wrap32 (time + jiffies s) < oldalarm
                 then (1, True, set_alarm (wrap32 (time + jiffies s)) s) else (1, False, s)
               else (minimum, False, s));
            minimum = (if minimum > nr then nr else minimum)
        in do { (returned, b, s) \<leftarrow> tty_read_loop env channel buf time minimum oldalarm 0 nr flag s;
                if returned then Some (b, s)
                else
                  let s = set_alarm oldalarm s
                  in if t_signal (cur_task s) \<noteq> 0 \<and> b = 0 then Some (- EINTR, s) else Some (b, s) })"

subsection \<open>\<open>tty_write\<close>\<close>

text \<open>The output translations of one character, with what they do to \<open>cr_flag\<close>: \<open>None\<close> is the \<open>continue\<close> path.\<close>

definition post_newline :: "nat \<Rightarrow> 'a tty_scheme \<Rightarrow> int \<Rightarrow> int" where
  "post_newline i s c =
     (if c = 13 \<and> O_FLAG i OCRNL s then 10
      else if c = 10 \<and> O_FLAG i ONLRET s then 13 else c)"

function write_chars :: "nat \<Rightarrow> u32 \<Rightarrow> int \<Rightarrow> int \<Rightarrow> 'a tty_scheme \<Rightarrow> int \<times> int \<times> 'a tty_scheme" where
  "write_chars i buf b nr s =
     (if nr > 0 \<and> \<not> FULL (queue Write_q i s) then
        let c = sint (get_fs_byte (buf + of_int b) s);
            c' = (if O_FLAG i OPOST s then post_newline i s c else c)
        in if O_FLAG i OPOST s \<and> c' = 10 \<and> \<not> cr_flag s \<and> O_FLAG i ONLCR s
           then write_chars i buf b nr (putch 13 Write_q i (s\<lparr>cr_flag := True\<rparr>))
           else
             let c' = (if O_FLAG i OPOST s \<and> O_FLAG i OLCUC s then to_char (toupper (ctype_mem s) c') else c')
             in write_chars i buf (b + 1) (nr - 1) (putch c' Write_q i (s\<lparr>cr_flag := False\<rparr>))
      else (b, nr, s))"
  by pat_completeness auto
termination
  by (relation "measure (\<lambda>(i, buf, b, nr, s). 2 * nat nr + (if cr_flag s then 0 else 1))")
    (auto simp: putch_def set_queue_def)

declare write_chars.simps [simp del]

partial_function (option) tty_write_loop ::
  "'a tty_scheme environment \<Rightarrow> (nat \<Rightarrow> 'a tty_scheme \<Rightarrow> 'a tty_scheme option) \<Rightarrow> nat \<Rightarrow> u32 \<Rightarrow> int \<Rightarrow> int
     \<Rightarrow> 'a tty_scheme \<Rightarrow> (int \<times> 'a tty_scheme) option" where
  "tty_write_loop env wr i buf b nr s =
     (if nr \<le> 0 then Some (b, s)
      else do {
        s \<leftarrow> sleep_if_full env Write_q i s;
        if t_signal (cur_task s) \<noteq> 0 then Some (b, s)
        else
          let (b, nr, s) = write_chars i buf b nr s
          in do { s \<leftarrow> wr i s;
                  s \<leftarrow> (if nr > 0 then reschedule env s else Some s);
                  tty_write_loop env wr i buf b nr s } })"

definition tty_write ::
  "'a tty_scheme environment \<Rightarrow> (nat \<Rightarrow> 'a tty_scheme \<Rightarrow> 'a tty_scheme option) \<Rightarrow> nat \<Rightarrow> u32 \<Rightarrow> int
     \<Rightarrow> 'a tty_scheme \<Rightarrow> (int \<times> 'a tty_scheme) option" where
  "tty_write env wr channel buf nr s =
     (if channel > 2 \<or> nr < 0 then Some (-1, s) else tty_write_loop env wr channel buf 0 nr s)"

subsection \<open>The serial lines\<close>

definition rs_write :: "nat \<Rightarrow> 'a tty_scheme \<Rightarrow> 'a tty_scheme option" where
  "rs_write i s =
     (let q = queue Write_q i s
      in Some (if EMPTY q then s else outb (inb (q_data q + 1) s OR 0x02) (q_data q + 1) s))"

definition rs_init_port :: "u32 \<Rightarrow> 'a tty_scheme \<Rightarrow> 'a tty_scheme" where
  "rs_init_port port s =
     fold (\<lambda>(v, p). outb v p)
       [(0x80, port + 3), (0x30, port), (0x00, port + 1), (0x03, port + 3), (0x0b, port + 4), (0x0d, port + 1)] s"

definition rs_init :: "'a tty_scheme \<Rightarrow> 'a tty_scheme" where
  "rs_init s =
     (let s = rs_init_port (q_data (queue Read_q 1 s)) s;
          s = rs_init_port (q_data (queue Read_q 2 s)) s
      in outb (inb 0x21 s AND 0xE7) 0x21 s)"

subsection \<open>A terminal queue is a first-in first-out queue of 1023 bytes\<close>

definition q_ok :: "tty_queue \<Rightarrow> bool" where
  "q_ok q \<longleftrightarrow> length (q_buf q) = TTY_BUF_SIZE \<and> unat (q_head q) < TTY_BUF_SIZE \<and> unat (q_tail q) < TTY_BUF_SIZE"

definition q_contents :: "tty_queue \<Rightarrow> u8 list" where
  "q_contents q = ring_contents (\<lambda>i. q_buf q ! i) TTY_BUF_SIZE (unat (q_head q)) (unat (q_tail q))"

lemma mask_1024: "(1024 - 1 :: u32) = mask 10"
  by (simp add: mask_eq_exp_minus_1)

lemma int_INC: "int (unat (INC a)) = (int (unat a) + 1) mod 1024"
  unfolding INC_def mask_1024 uint_nat [symmetric] by (subst uint_add_and_mask) simp_all

lemma int_DEC: "int (unat (DEC a)) = (int (unat a) - 1) mod 1024"
  unfolding DEC_def mask_1024 uint_nat [symmetric] by (subst uint_diff_and_mask) simp_all

lemma int_CHARS: "int (unat (CHARS q)) = (int (unat (q_head q)) - int (unat (q_tail q))) mod 1024"
  unfolding CHARS_def mask_1024 uint_nat [symmetric] by (subst uint_diff_and_mask) simp_all

lemma int_LEFT: "int (unat (LEFT q)) = (int (unat (q_tail q)) - (int (unat (q_head q)) + 1)) mod 1024"
proof -
  have "uint (LEFT q) = (uint (q_tail q - q_head q) - 1) mod 1024"
    unfolding LEFT_def mask_1024 by (subst uint_diff_and_mask) simp_all
  also have "\<dots> = (uint (q_tail q - q_head q) mod 1024 - 1) mod 1024" by (rule mod_diff_left_eq [symmetric])
  also have "uint (q_tail q - q_head q) mod 1024 = (uint (q_tail q) - uint (q_head q)) mod 1024"
    by (simp add: uint_word_ariths mod_mod_cancel)
  also have "((uint (q_tail q) - uint (q_head q)) mod 1024 - 1) mod 1024 = (uint (q_tail q) - uint (q_head q) - 1) mod 1024"
    by (rule mod_diff_left_eq)
  finally show ?thesis unfolding uint_nat [symmetric] by (simp only: diff_diff_eq)
qed

lemma unat_INC: "unat a < 1024 \<Longrightarrow> unat (INC a) = ring_next 1024 (unat a)"
  by (rule ring_next_int [OF int_INC ])

lemma unat_DEC: "unat a < 1024 \<Longrightarrow> unat (DEC a) = ring_prev 1024 (unat a)"
  by (rule ring_prev_int [OF int_DEC ])

lemma unat_CHARS: "q_ok q \<Longrightarrow> unat (CHARS q) = ring_count 1024 (unat (q_head q)) (unat (q_tail q))"
  unfolding q_ok_def by (rule ring_count_int [OF int_CHARS]) simp_all

lemma unat_LEFT: "q_ok q \<Longrightarrow> unat (LEFT q) = 1023 - ring_count 1024 (unat (q_head q)) (unat (q_tail q))"
  unfolding q_ok_def using ring_room_int [OF int_LEFT [of q]] by simp

lemma EMPTY_iff: "q_ok q \<Longrightarrow> EMPTY q \<longleftrightarrow> q_contents q = []"
  by (auto simp: EMPTY_def q_contents_def ring_contents_def ring_count_0 q_ok_def word_unat_eq_iff)

lemma FULL_iff: "q_ok q \<Longrightarrow> FULL q \<longleftrightarrow> length (q_contents q) = 1023"
  using unat_LEFT [of q] ring_count_less [of "unat (q_head q)" 1024 "unat (q_tail q)"]
  by (auto simp: FULL_def q_contents_def q_ok_def word_unat_eq_iff)

interpretation tty_fifo: fifo q_ok q_contents "\<lambda>q. unat (LEFT q)" PUTCH GETCH 1023
proof unfold_locales
  fix q c assume ok: "q_ok q"
  then show "unat (LEFT q) + length (q_contents q) = 1023"
    using ring_count_less [of "unat (q_head q)" 1024 "unat (q_tail q)"]
    by (simp add: unat_LEFT q_contents_def q_ok_def)
  show "q_ok (PUTCH c q)" "q_ok (snd (GETCH q))"
    using ok ring_next_less [of _ 1024] by (auto simp: q_ok_def PUTCH_def GETCH_def unat_INC)
  assume "unat (LEFT q) \<noteq> 0"
  then have "ring_next 1024 (unat (q_head q)) \<noteq> unat (q_tail q)"
    using ok by (simp add: unat_LEFT ring_count_full q_ok_def)
  then have "ring_contents ((\<lambda>i. q_buf q ! i)(unat (q_head q) := c)) 1024 (ring_next 1024 (unat (q_head q))) (unat (q_tail q))
      = q_contents q @ [c]"
    using ok unfolding q_contents_def q_ok_def by (intro ring_put) auto
  moreover have "(\<lambda>i. q_buf q ! i)(unat (q_head q) := c) = (\<lambda>i. (q_buf q)[unat (q_head q) := c] ! i)"
    using ok by (auto simp: q_ok_def fun_eq_iff)
  ultimately show "q_contents (PUTCH c q) = q_contents q @ [c]"
    using ok by (simp add: q_contents_def PUTCH_def unat_INC q_ok_def)
next
  fix q assume ok: "q_ok q" and ne: "q_contents q \<noteq> []"
  then have "unat (q_head q) \<noteq> unat (q_tail q)" using EMPTY_iff [of q] by (simp add: EMPTY_def word_unat_eq_iff)
  then show "q_contents q = fst (GETCH q) # q_contents (snd (GETCH q))"
    using ring_get [of "unat (q_head q)" 1024 "unat (q_tail q)"] ok
    by (simp add: q_contents_def GETCH_def unat_INC q_ok_def)
qed

lemma DEC_contents:
  assumes ok: "q_ok q" and ne: "\<not> EMPTY q"
  shows "q_ok (q\<lparr>q_head := DEC (q_head q)\<rparr>) \<and> q_contents q = q_contents (q\<lparr>q_head := DEC (q_head q)\<rparr>) @ [LAST q]"
proof -
  have "unat (q_head q) \<noteq> unat (q_tail q)" using ne by (simp add: EMPTY_def word_unat_eq_iff)
  moreover have "LAST q = q_buf q ! unat (DEC (q_head q))" by (simp add: LAST_def DEC_def and.commute)
  ultimately show ?thesis
    using ok ring_unput [of "unat (q_head q)" 1024 "unat (q_tail q)" "\<lambda>i. q_buf q ! i"]
      ring_prev_less [of "unat (q_head q)" 1024]
    by (simp add: q_ok_def q_contents_def unat_DEC)
qed

text \<open>
  A terminal queue loses, reorders and invents nothing: up to 1023 bytes put into an empty queue
  come out again in the same order, and one byte more makes the queue full, never overwritten
  silently: the room left is 1023 minus what it holds.
\<close>

theorem tty_queue_roundtrip:
  assumes "q_ok q" and "EMPTY q" and "length cs \<le> 1023"
  shows "fst (get_n GETCH (length cs) (fold PUTCH cs q)) = cs
    \<and> unat (LEFT (fold PUTCH cs q)) = 1023 - length cs
    \<and> FULL (fold PUTCH cs q) = (length cs = 1023)"
proof -
  have e: "q_contents q = []" using assms by (simp add: EMPTY_iff)
  have left: "length cs \<le> unat (LEFT q)" using tty_fifo.room [OF assms(1)] assms(3) e by simp
  note put = tty_fifo.fold_put [OF assms(1) left] and ok = tty_fifo.fold_put_ok [OF assms(1), of cs]
  show ?thesis
    using tty_fifo.roundtrip [OF assms(1) e, of cs] assms(3) tty_fifo.room [OF ok] put e FULL_iff [OF ok] by simp
qed

definition empty_queue :: "u32 \<Rightarrow> tty_queue" where
  "empty_queue port = \<lparr>q_data = port, q_head = 0, q_tail = 0, q_proc_list = None, q_buf = replicate 1024 0\<rparr>"

lemma empty_queue_ok: "q_ok (empty_queue p)" "EMPTY (empty_queue p)"
  by (simp_all add: q_ok_def EMPTY_def empty_queue_def)

theorem tty_queue_roundtrip_witness:
  "fst (get_n GETCH (length [7, 8, 9]) (fold PUTCH [7, 8, 9] (empty_queue 0))) = [7, 8, 9]"
  using tty_queue_roundtrip [OF empty_queue_ok, of "[7, 8, 9]" 0] by (simp del: get_n.simps fold_simps length_Cons)

interpretation tty_queues: wait_queue "fst (tty_wait k i)" "snd (tty_wait k i)"
proof unfold_locales
  fix v and s :: "'a tty_scheme"
  show "fst (tty_wait k i) (snd (tty_wait k i) v s) = v"
    by (cases k) (simp_all add: tty_wait_def queue_def set_queue_def)
qed (simp_all add: tty_wait_def queue_def set_queue_def)

subsection \<open>Line editing\<close>

text \<open>What the line discipline of a terminal reads and writes; echoing touches none of it.\<close>

definition line_view :: "nat \<Rightarrow> 'a tty_scheme \<Rightarrow> termios \<times> (int \<Rightarrow> u8) \<times> tty_queue \<times> tty_queue" where
  "line_view i s = (tty_termios (tty_table s i), ctype_mem s, queue Read_q i s, queue Secondary i s)"

lemma view_putch [simp]: "line_view i (putch c Write_q i s) = line_view i s"
  by (simp add: line_view_def putch_def set_queue_def queue_def)

lemma view_set_stopped [simp]: "line_view i (set_stopped i b s) = line_view i s"
  by (simp add: line_view_def set_stopped_def queue_def)

lemma tty_table_update_task [simp]: "tty_table (update_task p f s) = tty_table s" "ctype_mem (update_task p f s) = ctype_mem s"
  by (simp_all add: update_task_def)

lemma queue_update_task [simp]: "queue k i (update_task p f s) = queue k i s"
  by (simp add: queue_def)

lemma view_tty_intr [simp]: "line_view i (tty_intr i m s) = line_view i s"
proof -
  have "line_view i (fold (tty_intr_step i m) xs s) = line_view i s" for xs
    by (induction xs arbitrary: s)
      (auto simp: tty_intr_step_def line_view_def queue_def split: option.split)
  then show ?thesis by (simp add: tty_intr_def)
qed

lemma queue_set_queue: "queue k i (set_queue k' j q s) = (if k = k' \<and> i = j then q else queue k i s)"
  by (cases k; cases k') (auto simp: queue_def set_queue_def)

lemma view_flags:
  assumes "line_view i s = line_view i s'"
  shows "L_FLAG i f s = L_FLAG i f s'" "I_FLAG i f s = I_FLAG i f s'" "CC i k s = CC i k s'"
    "queue Read_q i s = queue Read_q i s'" "queue Secondary i s = queue Secondary i s'"
    "translate_input i s c = translate_input i s' c"
  using assms by (simp_all add: line_view_def L_FLAG_def I_FLAG_def CC_def translate_input_def)

lemma view_set_secondary [simp]:
  "line_view i (set_queue Secondary i q s) = (tty_termios (tty_table s i), ctype_mem s, queue Read_q i s, q)"
  by (simp add: line_view_def queue_def set_queue_def)

lemma view_set_read [simp]:
  "line_view i (set_queue Read_q i q s) = (tty_termios (tty_table s i), ctype_mem s, q, queue Secondary i s)"
  by (simp add: line_view_def queue_def set_queue_def)

text \<open>Line editing on lists: \<open>t\<close> the terminal's settings, \<open>xs\<close> the cooked text so far.\<close>

definition spec_translate :: "termios \<Rightarrow> (int \<Rightarrow> u8) \<Rightarrow> int \<Rightarrow> int option" where
  "spec_translate t mem c =
     (if c = 13 \<and> c_iflag t AND ICRNL = 0 \<and> c_iflag t AND IGNCR \<noteq> 0 then None
      else
        let c = (if c = 13 \<and> c_iflag t AND ICRNL \<noteq> 0 then 10
                 else if c = 10 \<and> c_iflag t AND INLCR \<noteq> 0 then 13 else c)
        in Some (if c_iflag t AND IUCLC \<noteq> 0 then to_char (tolower mem c) else c))"

definition spec_cc :: "termios \<Rightarrow> nat \<Rightarrow> int" where
  "spec_cc t k = uint (c_cc t ! k)"

definition line_end :: "termios \<Rightarrow> u8 \<Rightarrow> bool" where
  "line_end t c \<longleftrightarrow> sint c = 10 \<or> sint c = spec_cc t VEOF"

definition spec_kill :: "termios \<Rightarrow> u8 list \<Rightarrow> u8 list" where
  "spec_kill t xs = rev (dropWhile (\<lambda>c. \<not> line_end t c) (rev xs))"

definition spec_erase :: "termios \<Rightarrow> u8 list \<Rightarrow> u8 list" where
  "spec_erase t xs = (if xs = [] \<or> line_end t (last xs) then xs else butlast xs)"

definition spec_char :: "termios \<Rightarrow> int \<Rightarrow> u8 list \<Rightarrow> u8 list" where
  "spec_char t c xs =
     (let canon = c_lflag t AND ICANON \<noteq> 0; isig = c_lflag t AND ISIG \<noteq> 0 in
      if canon \<and> c = spec_cc t VKILL then spec_kill t xs
      else if canon \<and> c = spec_cc t VERASE then spec_erase t xs
      else if canon \<and> (c = spec_cc t VSTOP \<or> c = spec_cc t VSTART)
              \<or> isig \<and> (c = spec_cc t VINTR \<or> c = spec_cc t VQUIT) then xs
      else xs @ [of_int c])"

text \<open>The whole input, until it ends or the cooked queue is full: the text and the input left.\<close>

fun spec_cook :: "termios \<Rightarrow> (int \<Rightarrow> u8) \<Rightarrow> u8 list \<Rightarrow> u8 list \<Rightarrow> u8 list \<times> u8 list" where
  "spec_cook t mem [] xs = (xs, [])"
| "spec_cook t mem (c # cs) xs =
     (if length xs = 1023 then (xs, c # cs)
      else spec_cook t mem cs (case spec_translate t mem (sint c) of None \<Rightarrow> xs | Some c \<Rightarrow> spec_char t c xs))"

text \<open>
  What the line discipline needs of a driver's \<open>write\<close> routine: in the states \<open>calm\<close>, and for the
  characters \<open>chars\<close>, it returns, leaves the line alone and the terminal calm. Echoing keeps a
  terminal calm; the other steps of the line discipline do not matter to it.
\<close>

locale tty_driver =
  fixes wr :: "nat \<Rightarrow> 'a tty_scheme \<Rightarrow> 'a tty_scheme option"
    and calm :: "nat \<Rightarrow> 'a tty_scheme \<Rightarrow> bool"
    and chars :: "int \<Rightarrow> bool"
  assumes wr_returns: "calm i s \<Longrightarrow> \<exists>s'. wr i s = Some s' \<and> calm i s' \<and> line_view i s' = line_view i s"
    and calm_echo: "calm i s \<Longrightarrow> chars c \<Longrightarrow> calm i (echo_put i c s)"
    and calm_rub: "calm i s \<Longrightarrow> calm i (putch 127 Write_q i s)"
    and calm_queue: "k \<noteq> Write_q \<Longrightarrow> calm i (set_queue k i q s) = calm i s"
    and calm_stopped: "calm i (set_stopped i b s) = calm i s"
    and calm_intr: "calm i (tty_intr i m s) = calm i s"
begin

lemma view_rub_out:
  assumes "q_ok (queue Secondary i s)" "\<not> EMPTY (queue Secondary i s)" "calm i s"
  shows "\<exists>s'. rub_out wr i c s = Some s' \<and> calm i s'
    \<and> tty_termios (tty_table s' i) = tty_termios (tty_table s i) \<and> ctype_mem s' = ctype_mem s
    \<and> queue Read_q i s' = queue Read_q i s \<and> q_ok (queue Secondary i s')
    \<and> q_contents (queue Secondary i s) = q_contents (queue Secondary i s') @ [LAST (queue Secondary i s)]"
proof -
  let ?s0 = "putch 127 Write_q i (if c < 32 then putch 127 Write_q i s else s)"
  have "calm i ?s0" using assms(3) by (simp add: calm_rub)
  from wr_returns [OF this] obtain s1 where s1: "(if L_FLAG i ECHO s then wr i ?s0 else Some s) = Some s1"
    "calm i s1" "line_view i s1 = line_view i s"
    using assms(3) by (cases "L_FLAG i ECHO s") auto
  let ?q = "(queue Secondary i s)\<lparr>q_head := DEC (q_head (queue Secondary i s))\<rparr>"
  have q: "queue Secondary i s1 = queue Secondary i s" using s1(3) by (simp add: line_view_def)
  have eq: "rub_out wr i c s = Some (set_queue Secondary i ?q s1)"
    unfolding rub_out_def s1(1) by (simp add: q Let_def)
  have "line_view i (set_queue Secondary i ?q s1) = (tty_termios (tty_table s i), ctype_mem s, queue Read_q i s, ?q)"
    using s1(3) by (simp only: view_set_secondary) (simp add: line_view_def)
  with DEC_contents [OF assms(1, 2)] eq s1(2) calm_queue [of Secondary i ?q s1] show ?thesis
    by (simp add: line_view_def)
qed

lemma view_echo_put [simp]: "line_view i (echo_put i c s) = line_view i s"
  by (simp add: echo_put_def)

lemma at_line_start_iff:
  "q_ok (queue Secondary i s) \<Longrightarrow> at_line_start i s \<longleftrightarrow>
     q_contents (queue Secondary i s) = [] \<or> line_end (tty_termios (tty_table s i)) (last (q_contents (queue Secondary i s)))"
  using EMPTY_iff [of "queue Secondary i s"] DEC_contents [of "queue Secondary i s"]
  by (auto simp: at_line_start_def Let_def line_end_def CC_def spec_cc_def dest: arg_cong [where f = last])

definition keeps_line :: "nat \<Rightarrow> 'a tty_scheme \<Rightarrow> (u8 list \<Rightarrow> u8 list) \<Rightarrow> 'a tty_scheme \<Rightarrow> bool" where
  "keeps_line i s f s' \<longleftrightarrow> calm i s' \<and> tty_termios (tty_table s' i) = tty_termios (tty_table s i) \<and> ctype_mem s' = ctype_mem s
     \<and> queue Read_q i s' = queue Read_q i s \<and> q_ok (queue Secondary i s')
     \<and> q_contents (queue Secondary i s') = f (q_contents (queue Secondary i s))"

lemma kill_line_spec:
  "q_ok (queue Secondary i s) \<Longrightarrow> calm i s \<Longrightarrow>
     \<exists>s'. kill_line wr i s = Some s' \<and> keeps_line i s (spec_kill (tty_termios (tty_table s i))) s'"
proof (induction "length (q_contents (queue Secondary i s))" arbitrary: s)
  case 0
  then show ?case
    by (subst kill_line.simps) (simp add: at_line_start_iff keeps_line_def spec_kill_def)
next
  case (Suc n)
  let ?t = "tty_termios (tty_table s i)"
  show ?case
  proof (cases "at_line_start i s")
    case True
    with Suc.hyps(2) at_line_start_iff [OF Suc.prems(1)]
    have "line_end ?t (last (q_contents (queue Secondary i s)))" by auto
    moreover obtain ys y where "q_contents (queue Secondary i s) = ys @ [y]"
      using Suc.hyps(2) by (metis length_Suc_conv_rev)
    ultimately have "spec_kill ?t (q_contents (queue Secondary i s)) = q_contents (queue Secondary i s)"
      by (simp add: spec_kill_def)
    with True Suc.prems show ?thesis by (subst kill_line.simps) (simp add: keeps_line_def)
  next
    case False
    have ne: "\<not> EMPTY (queue Secondary i s)" using False by (simp add: at_line_start_def Let_def)
    from view_rub_out [OF Suc.prems(1) ne Suc.prems(2)] obtain s1 where
      r: "rub_out wr i (sint (LAST (queue Secondary i s))) s = Some s1" "calm i s1"
      "tty_termios (tty_table s1 i) = ?t" "ctype_mem s1 = ctype_mem s" "queue Read_q i s1 = queue Read_q i s"
      "q_ok (queue Secondary i s1)"
      "q_contents (queue Secondary i s) = q_contents (queue Secondary i s1) @ [LAST (queue Secondary i s)]" by blast
    then have "n = length (q_contents (queue Secondary i s1))" using Suc.hyps(2) by simp
    from Suc.hyps(1) [OF this] r obtain s' where s': "kill_line wr i s1 = Some s'"
      "keeps_line i s1 (spec_kill ?t) s'" by auto
    have "\<not> line_end ?t (LAST (queue Secondary i s))" using False at_line_start_iff [OF Suc.prems(1)] r(7) by simp
    then have "spec_kill ?t (q_contents (queue Secondary i s)) = spec_kill ?t (q_contents (queue Secondary i s1))"
      using r by (simp add: spec_kill_def)
    with s' r False show ?thesis by (subst kill_line.simps) (auto simp: keeps_line_def)
  qed
qed

lemma erase_char_spec:
  assumes ok: "q_ok (queue Secondary i s)" and calm: "calm i s"
  shows "\<exists>s'. erase_char wr i s = Some s' \<and> keeps_line i s (spec_erase (tty_termios (tty_table s i))) s'"
proof (cases "at_line_start i s")
  case True
  with ok calm at_line_start_iff [OF ok] show ?thesis by (auto simp: keeps_line_def erase_char_def spec_erase_def)
next
  case False
  then have ne: "\<not> EMPTY (queue Secondary i s)" by (simp add: at_line_start_def Let_def)
  show ?thesis
    using view_rub_out [OF ok ne calm, of "sint (LAST (queue Secondary i s))"] False at_line_start_iff [OF ok]
    by (auto simp: keeps_line_def erase_char_def spec_erase_def)
qed

lemma keeps_line_view:
  "line_view i s' = line_view i s \<Longrightarrow> q_ok (queue Secondary i s) \<Longrightarrow> calm i s' \<Longrightarrow> keeps_line i s (\<lambda>xs. xs) s'"
  by (simp add: keeps_line_def line_view_def)

lemma append_spec:
  assumes ok: "q_ok (queue Secondary i s)" and room: "\<not> FULL (queue Secondary i s)"
    and calm: "calm i s1" and q1: "queue Secondary i s1 = (queue Secondary i s)\<lparr>q_data := d\<rparr>"
    and v: "tty_termios (tty_table s1 i) = tty_termios (tty_table s i)" "ctype_mem s1 = ctype_mem s"
      "queue Read_q i s1 = queue Read_q i s"
  shows "keeps_line i s (\<lambda>xs. xs @ [of_int c]) (putch c Secondary i s1)"
proof -
  have ok1: "q_ok (queue Secondary i s1)" using ok by (simp add: q1 q_ok_def)
  have "unat (LEFT (queue Secondary i s1)) \<noteq> 0"
    using room by (simp add: FULL_def LEFT_def q1 unat_eq_0)
  from tty_fifo.put_contents [OF ok1 this, of "of_int c"] tty_fifo.put_ok [OF ok1, of "of_int c"] v
    calm calm_queue [of Secondary i "PUTCH (of_int c) (queue Secondary i s1)" s1]
  have "keeps_line i s (\<lambda>xs. q_contents (queue Secondary i s1) @ [of_int c]) (putch c Secondary i s1)"
    by (simp add: keeps_line_def putch_def queue_set_queue) (simp add: set_queue_def)
  moreover have "q_contents (queue Secondary i s1) = q_contents (queue Secondary i s)"
    by (simp add: q1 q_contents_def)
  ultimately show ?thesis by (simp add: keeps_line_def)
qed

lemma if_chain_ex:
  "A \<or> B \<or> C \<or> D \<Longrightarrow> P a \<Longrightarrow> P b \<Longrightarrow> P c \<Longrightarrow> P d \<Longrightarrow>
     \<exists>y. (if A then Some a else if B then Some b else if C then Some c else if D then Some d else e) = Some y \<and> P y"
  by auto

lemma cook_char_spec:
  assumes ok: "q_ok (queue Secondary i s)" and room: "\<not> FULL (queue Secondary i s)"
    and calm: "calm i s" and c: "chars c"
  shows "\<exists>s'. cook_char wr i c s = Some s' \<and> keeps_line i s (spec_char (tty_termios (tty_table s i)) c) s'"
proof -
  let ?t = "tty_termios (tty_table s i)"
  have flag: "L_FLAG i f s \<longleftrightarrow> c_lflag ?t AND f \<noteq> 0" for f by (simp add: L_FLAG_def)
  have cc: "CC i k s = spec_cc ?t k" for k by (simp add: CC_def spec_cc_def)
  let ?canon = "c_lflag ?t AND ICANON \<noteq> 0" and ?isig = "c_lflag ?t AND ISIG \<noteq> 0"
  consider (kill) "?canon \<and> c = spec_cc ?t VKILL"
    | (erase) "\<not> (?canon \<and> c = spec_cc ?t VKILL)" "?canon \<and> c = spec_cc ?t VERASE"
    | (ctl) "\<not> (?canon \<and> c = spec_cc ?t VKILL)" "\<not> (?canon \<and> c = spec_cc ?t VERASE)"
        "?canon \<and> (c = spec_cc ?t VSTOP \<or> c = spec_cc ?t VSTART) \<or> ?isig \<and> (c = spec_cc ?t VINTR \<or> c = spec_cc ?t VQUIT)"
    | (app) "\<not> (?canon \<and> c = spec_cc ?t VKILL)" "\<not> (?canon \<and> c = spec_cc ?t VERASE)"
        "\<not> (?canon \<and> (c = spec_cc ?t VSTOP \<or> c = spec_cc ?t VSTART) \<or> ?isig \<and> (c = spec_cc ?t VINTR \<or> c = spec_cc ?t VQUIT))"
    by blast
  then show ?thesis
  proof cases
    case kill
    then have "cook_char wr i c s = kill_line wr i s" "spec_char ?t c = spec_kill ?t"
      by (auto simp: cook_char_def flag cc spec_char_def fun_eq_iff)
    with kill_line_spec [OF ok calm] show ?thesis by simp
  next
    case erase
    then have "cook_char wr i c s = erase_char wr i s" "spec_char ?t c = spec_erase ?t"
      by (auto simp: cook_char_def flag cc spec_char_def fun_eq_iff Let_def)
    with erase_char_spec [OF ok calm] show ?thesis by simp
  next
    case ctl
    then have "spec_char ?t c = (\<lambda>xs. xs)"
      unfolding spec_char_def Let_def by (simp only: if_False if_True simp_thms)
    moreover have "\<exists>s'. cook_char wr i c s = Some s' \<and> line_view i s' = line_view i s \<and> calm i s'"
      unfolding cook_char_def Let_def flag cc if_not_P [OF ctl(1)] if_not_P [OF ctl(2)]
      using ctl(3) by (intro if_chain_ex) (auto simp: calm calm_stopped calm_intr)
    ultimately show ?thesis using keeps_line_view [OF _ ok] by auto
  next
    case app
    define s1 where "s1 = (if c = 10 \<or> c = CC i VEOF s
      then let q = queue Secondary i s in set_queue Secondary i (q\<lparr>q_data := q_data q + 1\<rparr>) s else s)"
    have calm1: "calm i s1" using calm by (simp add: s1_def Let_def calm_queue)
    have "calm i (echo_put i c s1)" using calm_echo [OF calm1 c] .
    from wr_returns [OF this] calm1 obtain s2 where
      s2: "(if L_FLAG i ECHO s1 then wr i (echo_put i c s1) else Some s1) = Some s2"
      "calm i s2" "line_view i s2 = line_view i s1" by (cases "L_FLAG i ECHO s1") auto
    have eq: "cook_char wr i c s = Some (putch c Secondary i s2)"
    proof -
      have "\<not> (?canon \<and> c = spec_cc ?t VSTOP)" "\<not> (?canon \<and> c = spec_cc ?t VSTART)"
        "\<not> (?isig \<and> c = spec_cc ?t VINTR)" "\<not> (?isig \<and> c = spec_cc ?t VQUIT)" using app(3) by blast+
      note n = app(1, 2) this
      show ?thesis
        unfolding cook_char_def Let_def flag cc n [THEN if_not_P] s1_def [unfolded Let_def cc, symmetric] s2(1)
        by simp
    qed
    have "\<exists>d. line_view i s1 = (?t, ctype_mem s, queue Read_q i s, (queue Secondary i s)\<lparr>q_data := d\<rparr>)"
    proof (cases "c = 10 \<or> c = CC i VEOF s")
      case True
      then show ?thesis unfolding s1_def Let_def by (simp only: if_True view_set_secondary) blast
    next
      case False
      then have "s1 = s" by (simp add: s1_def)
      then show ?thesis by (auto simp: line_view_def intro: exI [of _ "q_data (queue Secondary i s)"])
    qed
    with s2(3) obtain d where "queue Secondary i s2 = (queue Secondary i s)\<lparr>q_data := d\<rparr>"
      "tty_termios (tty_table s2 i) = ?t" "ctype_mem s2 = ctype_mem s" "queue Read_q i s2 = queue Read_q i s"
      by (auto simp: line_view_def)
    then have "keeps_line i s (\<lambda>xs. xs @ [of_int c]) (putch c Secondary i s2)"
      using append_spec [OF ok room s2(2)] by blast
    moreover have "spec_char ?t c = (\<lambda>xs. xs @ [of_int c])"
      using app unfolding spec_char_def Let_def by (simp only: if_False if_True simp_thms)
    ultimately show ?thesis using eq by simp
  qed
qed

lemma cook_loop_spec:
  assumes "q_ok (queue Read_q i s)" "q_ok (queue Secondary i s)" "calm i s"
    and "\<forall>c \<in> set (q_contents (queue Read_q i s)).
           \<forall>c'. spec_translate (tty_termios (tty_table s i)) (ctype_mem s) (sint c) = Some c' \<longrightarrow> chars c'"
  shows "\<exists>s'. cook_loop wr i s = Some s' \<and> calm i s' \<and> q_ok (queue Read_q i s') \<and> q_ok (queue Secondary i s')
    \<and> tty_termios (tty_table s' i) = tty_termios (tty_table s i)
    \<and> (q_contents (queue Secondary i s'), q_contents (queue Read_q i s'))
      = spec_cook (tty_termios (tty_table s i)) (ctype_mem s) (q_contents (queue Read_q i s)) (q_contents (queue Secondary i s))"
  using assms
proof (induction "q_contents (queue Read_q i s)" arbitrary: s)
  case Nil
  then have "EMPTY (queue Read_q i s)" by (simp add: EMPTY_iff)
  with Nil show ?case by (subst cook_loop.simps) (simp flip: Nil(1))
next
  case (Cons c cs)
  let ?t = "tty_termios (tty_table s i)" and ?xs = "q_contents (queue Secondary i s)"
  have ne: "\<not> EMPTY (queue Read_q i s)" using Cons.hyps(2) Cons.prems(1) by (metis EMPTY_iff list.distinct(1))
  show ?case
  proof (cases "FULL (queue Secondary i s)")
    case True
    then have "length ?xs = 1023" using Cons.prems(2) by (simp add: FULL_iff)
    with True Cons.prems show ?thesis by (subst cook_loop.simps) (simp flip: Cons.hyps(2))
  next
    case False
    then have len: "length ?xs \<noteq> 1023" using Cons.prems(2) by (simp add: FULL_iff)
    have gc: "c # cs = fst (GETCH (queue Read_q i s)) # q_contents (snd (GETCH (queue Read_q i s)))"
      using tty_fifo.get_contents [OF Cons.prems(1)] Cons.hyps(2) by (metis list.distinct(1))
    define s1 where "s1 = set_queue Read_q i (snd (GETCH (queue Read_q i s))) s"
    have g: "getch Read_q i s = (sint c, s1)" "q_contents (queue Read_q i s1) = cs" "q_ok (queue Read_q i s1)"
      using gc tty_fifo.get_ok [OF Cons.prems(1)]
      by (simp_all add: getch_def split_beta s1_def queue_set_queue)
    have k: "tty_termios (tty_table s1 i) = ?t" "ctype_mem s1 = ctype_mem s" "queue Secondary i s1 = queue Secondary i s"
      by (simp_all add: s1_def queue_set_queue) (simp_all add: set_queue_def)
    have cs: "\<forall>c \<in> set cs. \<forall>c'. spec_translate ?t (ctype_mem s) (sint c) = Some c' \<longrightarrow> chars c'"
      using Cons.prems(4) by (simp flip: Cons.hyps(2))
    have calm1: "calm i s1" using Cons.prems(3) by (simp add: s1_def calm_queue)
    have tr: "translate_input i s1 (sint c) = spec_translate ?t (ctype_mem s) (sint c)"
      by (simp add: translate_input_def spec_translate_def I_FLAG_def k)
    show ?thesis
    proof (cases "spec_translate ?t (ctype_mem s) (sint c)")
      case None
      then have "cook_loop wr i s = cook_loop wr i s1"
        using ne False g tr by (subst cook_loop.simps) simp
      with Cons.hyps(1) [of s1] g k calm1 Cons.prems(2) cs len None show ?thesis by (simp flip: Cons.hyps(2))
    next
      case (Some c')
      have "q_ok (queue Secondary i s1)" "\<not> FULL (queue Secondary i s1)" using k Cons.prems False by auto
      moreover have "chars c'" using Cons.prems(4) Some by (simp flip: Cons.hyps(2))
      ultimately obtain s2 where s2: "cook_char wr i c' s1 = Some s2"
        "keeps_line i s1 (spec_char ?t c') s2" using k cook_char_spec [of i s1 c'] calm1 by auto
      then have "cook_loop wr i s = cook_loop wr i s2"
        using ne False g tr Some by (subst cook_loop.simps) simp
      with Cons.hyps(1) [of s2] g k s2(2) Cons.prems(2) cs len Some show ?thesis
        by (simp add: keeps_line_def flip: Cons.hyps(2))
    qed
  qed
qed

end

text \<open>What \<open>tty_read\<close> takes from the cooked text: the bytes before an end of file, at most \<open>n\<close>.\<close>

definition taken :: "termios \<Rightarrow> nat \<Rightarrow> u8 list \<Rightarrow> u8 list" where
  "taken t n xs = takeWhile (\<lambda>c. sint c \<noteq> spec_cc t VEOF) (take n xs)"

definition hits_eof :: "termios \<Rightarrow> nat \<Rightarrow> u8 list \<Rightarrow> bool" where
  "hits_eof t n xs \<longleftrightarrow> (\<exists>c \<in> set (take n xs). sint c = spec_cc t VEOF)"

lemma read_chars_spec:
  assumes "q_ok (queue Secondary i s)" and "q_contents (queue Secondary i s) \<noteq> []" and "L_FLAG i ICANON s" and "0 < nr"
  shows "\<exists>s'. read_chars i buf b nr s
      = (hits_eof (tty_termios (tty_table s i)) (nat nr) (q_contents (queue Secondary i s)),
         b + int (length (taken (tty_termios (tty_table s i)) (nat nr) (q_contents (queue Secondary i s)))),
         nr - int (length (taken (tty_termios (tty_table s i)) (nat nr) (q_contents (queue Secondary i s)))), s')
    \<and> q_contents (queue Secondary i s')
      = drop (length (taken (tty_termios (tty_table s i)) (nat nr) (q_contents (queue Secondary i s)))
              + (if hits_eof (tty_termios (tty_table s i)) (nat nr) (q_contents (queue Secondary i s)) then 1 else 0))
             (q_contents (queue Secondary i s))
    \<and> q_ok (queue Secondary i s') \<and> tty_termios (tty_table s' i) = tty_termios (tty_table s i)
    \<and> tasks s' = tasks s \<and> current s' = current s
    \<and> umem s' = write_bytes (taken (tty_termios (tty_table s i)) (nat nr) (q_contents (queue Secondary i s))) (buf + of_int b) (umem s)"
  using assms
proof (induction "q_contents (queue Secondary i s)" arbitrary: s b nr)
  case (Cons c cs)
  let ?t = "tty_termios (tty_table s i)"
  define s1 where "s1 = set_queue Secondary i (snd (GETCH (queue Secondary i s))) s"
  define s2 where "s2 = (if sint c = CC i VEOF s1 \<or> sint c = 10
    then let q = queue Secondary i s1 in set_queue Secondary i (q\<lparr>q_data := q_data q - 1\<rparr>) s1 else s1)"
  have gc: "c # cs = fst (GETCH (queue Secondary i s)) # q_contents (snd (GETCH (queue Secondary i s)))"
    using tty_fifo.get_contents [OF Cons.prems(1)] Cons.hyps(2) by (metis list.distinct(1))
  have g: "getch Secondary i s = (sint c, s1)" using gc by (simp add: getch_def split_beta s1_def)
  have q1: "q_contents (queue Secondary i s1) = cs" "q_ok (queue Secondary i s1)"
    using gc tty_fifo.get_ok [OF Cons.prems(1)] by (simp_all add: s1_def queue_set_queue)
  have q2: "q_contents (queue Secondary i s2) = cs" "q_ok (queue Secondary i s2)"
    using q1 by (auto simp: s2_def Let_def queue_set_queue q_contents_def q_ok_def)
  have k: "tty_termios (tty_table s2 i) = ?t" "tasks s2 = tasks s" "current s2 = current s" "umem s2 = umem s"
    by (simp_all add: s2_def s1_def Let_def set_queue_def)
  have cc: "CC i VEOF s2 = spec_cc ?t VEOF" by (simp add: CC_def spec_cc_def k)
  have canon: "L_FLAG i ICANON s2" using Cons.prems(3) by (simp add: L_FLAG_def k)
  define s3 where "s3 = put_fs_byte c (buf + of_int b) s2"
  have q3: "queue k i s3 = queue k i s2" "tty_table s3 = tty_table s2" "tasks s3 = tasks s2" "current s3 = current s2"
    "umem s3 = (umem s)(buf + of_int b := c)" for k
    by (simp_all add: s3_def put_fs_byte_def queue_def k)
  have step: "read_chars i buf b nr s =
    (if sint c = spec_cc ?t VEOF then (True, b, nr, s2)
     else if nr - 1 = 0 then (False, b + 1, nr - 1, s3)
     else if nr - 1 > 0 \<and> \<not> EMPTY (queue Secondary i s3) then read_chars i buf (b + 1) (nr - 1) s3
     else (False, b + 1, nr - 1, s3))"
    apply (subst read_chars.simps)
    unfolding g prod.case Let_def s2_def [unfolded Let_def, symmetric] cc
    using canon by (simp add: s3_def)
  obtain n where n: "nat nr = Suc n" "nr = int n + 1" using that [of "nat (nr - 1)"] Cons.prems(4) by simp
  have xs: "q_contents (queue Secondary i s) = c # cs" using Cons.hyps(2) by simp
  show ?case
  proof (cases "sint c = spec_cc ?t VEOF")
    case True
    then show ?thesis unfolding step xs n(1) using q2 k by (simp add: taken_def hits_eof_def)
  next
    case False
    show ?thesis
    proof (cases "n = 0 \<or> cs = []")
      case True
      then have "read_chars i buf b nr s = (False, b + 1, nr - 1, s3)"
        unfolding step using False n q2 EMPTY_iff [of "queue Secondary i s3"] by (auto simp: q3)
      then show ?thesis unfolding xs n(1) using q2 q3 k False True n by (auto simp: taken_def hits_eof_def)
    next
      case more: False
      then have "read_chars i buf b nr s = read_chars i buf (b + 1) (nr - 1) s3"
        unfolding step using False n q2 EMPTY_iff [of "queue Secondary i s3"] by (auto simp: q3)
      moreover have "q_contents (queue Secondary i s3) = cs" "q_ok (queue Secondary i s3)" "L_FLAG i ICANON s3"
        "nat (nr - 1) = n" "0 < nr - 1" "tty_termios (tty_table s3 i) = ?t"
        using q2 q3 canon n more k by (auto simp: L_FLAG_def)
      ultimately show ?thesis
        using Cons.hyps(1) [of s3 "nr - 1" "b + 1"] more False k q3 unfolding xs n(1)
        by (auto simp: taken_def hits_eof_def add.assoc n)
    qed
  qed
qed simp

text \<open>
  C39. Reading a terminal in canonical mode, when a line (or 20 bytes short of a full queue) is there
  and no signal is pending: \<open>tty_read\<close> returns the bytes up to an end of file, at most \<open>nr\<close>, stores
  exactly those at \<open>buf\<close>, and consumes them and the end of file, which is not stored. It does not stop
  at the end of the first line.
\<close>

theorem tty_read_canonical:
  assumes "i \<le> 2" and "0 < nr" and "q_ok (queue Secondary i s)" and "q_contents (queue Secondary i s) \<noteq> []"
    and "L_FLAG i ICANON s" and "CC i VTIME s = 0" and "t_signal (cur_task s) = 0"
    and "q_data (queue Secondary i s) \<noteq> 0 \<or> LEFT (queue Secondary i s) \<le> 20"
    and "t = tty_termios (tty_table s i)" and "xs = q_contents (queue Secondary i s)"
  shows "\<exists>s'. tty_read env i buf nr s = Some (int (length (taken t (nat nr) xs)), s')
    \<and> umem s' = write_bytes (taken t (nat nr) xs) buf (umem s)
    \<and> q_contents (queue Secondary i s') = drop (length (taken t (nat nr) xs) + (if hits_eof t (nat nr) xs then 1 else 0)) xs
    \<and> t_alarm (cur_task s') = t_alarm (cur_task s)"
proof -
  from read_chars_spec [OF assms(3,4,5,2), of buf 0] obtain s1 where
    r: "read_chars i buf 0 nr s = (hits_eof t (nat nr) xs, int (length (taken t (nat nr) xs)),
          nr - int (length (taken t (nat nr) xs)), s1)"
    "q_contents (queue Secondary i s1) = drop (length (taken t (nat nr) xs) + (if hits_eof t (nat nr) xs then 1 else 0)) xs"
    "tty_termios (tty_table s1 i) = t" "tasks s1 = tasks s" "current s1 = current s"
    "umem s1 = write_bytes (taken t (nat nr) xs) buf (umem s)"
    unfolding assms(9,10) by auto
  have canon: "L_FLAG i ICANON s1" using assms(5,9) r(3) by (simp add: L_FLAG_def)
  have nonempty: "\<not> EMPTY (queue Secondary i s)" using assms(3,4) by (simp add: EMPTY_iff)
  have pos: "taken t (nat nr) xs \<noteq> []" if "\<not> hits_eof t (nat nr) xs"
  proof -
    obtain c cs where "xs = c # cs" using assms(4,10) by (metis neq_Nil_conv)
    moreover obtain n where "nat nr = Suc n" using assms(2) by (metis Suc_pred' zero_less_nat_eq)
    ultimately show ?thesis using that by (simp add: taken_def hits_eof_def)
  qed
  have cond: "\<not> (EMPTY (queue Secondary i s)
           \<or> L_FLAG i ICANON s \<and> q_data (queue Secondary i s) = 0 \<and> LEFT (queue Secondary i s) > 20)"
    using nonempty assms(8) by auto
  have loop: "tty_read_loop env i buf 0 m (t_alarm (cur_task s)) 0 nr False s
    = Some (hits_eof t (nat nr) xs, int (length (taken t (nat nr) xs)), s1)" for m
    apply (subst tty_read_loop.simps)
    unfolding if_not_P [OF cond] r(1) prod.case Let_def
    using assms(2,7) pos canon by auto
  show ?thesis
  proof (cases "hits_eof t (nat nr) xs")
    case True
    then show ?thesis using assms(1,2,6) loop r by (simp add: tty_read_def)
  next
    case False
    then show ?thesis
      using assms(1,2,6,7) loop r by (simp add: tty_read_def set_alarm_def queue_def update_task_def)
  qed
qed

subsection \<open>The table at boot\<close>

definition INIT_C_CC :: "u8 list" where
  "INIT_C_CC = [3, 28, 127, 21, 4, 0, 1, 0, 17, 19, 26, 0, 18, 15, 23, 22, 0]"

definition con_termios :: termios where
  "con_termios = \<lparr>c_iflag = ICRNL, c_oflag = OPOST OR ONLCR, c_cflag = 0,
     c_lflag = ISIG OR ICANON OR ECHO OR ECHOCTL OR ECHOKE, c_line = 0, c_cc = INIT_C_CC, c_pad = [0, 0]\<rparr>"

definition rs_termios :: termios where
  "rs_termios = \<lparr>c_iflag = 0, c_oflag = 0, c_cflag = B2400 OR CS8, c_lflag = 0, c_line = 0,
     c_cc = INIT_C_CC, c_pad = [0, 0]\<rparr>"

definition con_tty :: tty_struct where
  "con_tty = \<lparr>tty_termios = con_termios, tty_pgrp = 0, tty_stopped = False, tty_read_q = empty_queue 0,
     tty_write_q = empty_queue 0, tty_secondary = empty_queue 0\<rparr>"

definition rs_tty :: "u32 \<Rightarrow> tty_struct" where
  "rs_tty port = \<lparr>tty_termios = rs_termios, tty_pgrp = 0, tty_stopped = False, tty_read_q = empty_queue port,
     tty_write_q = empty_queue port, tty_secondary = empty_queue 0\<rparr>"

definition boot_tty :: tty where
  "boot_tty = timers.extend boot_timers
     \<lparr>tty_table = (\<lambda>i. if i = 0 then con_tty else if i = 1 then rs_tty 0x3f8 else rs_tty 0x2f8),
      cr_flag = False, ctype_mem = (\<lambda>_. 0), outs = [], device = (\<lambda>_ _. 0)\<rparr>"

text \<open>A console with two lines typed.\<close>

definition cooked_tty :: tty where
  "cooked_tty = set_queue Secondary 0 ((fold PUTCH [104, 105, 10, 33, 10] (empty_queue 0))\<lparr>q_data := 2\<rparr>) boot_tty"

lemma cooked_tty_queue:
  "q_ok (queue Secondary 0 cooked_tty)" "q_contents (queue Secondary 0 cooked_tty) = [104, 105, 10, 33, 10]"
  "q_data (queue Secondary 0 cooked_tty) = 2"
proof -
  let ?q = "fold PUTCH [104, 105, 10, 33, 10] (empty_queue 0)"
  have ok: "q_ok ?q" by (rule tty_fifo.fold_put_ok [OF empty_queue_ok(1)])
  have e: "q_contents (empty_queue 0) = []" using EMPTY_iff [OF empty_queue_ok(1)] empty_queue_ok(2) by simp
  have "unat (LEFT (empty_queue 0)) = 1023" using tty_fifo.room [OF empty_queue_ok(1), of 0] e by simp
  then have "q_contents ?q = [104, 105, 10, 33, 10]"
    using tty_fifo.fold_put [OF empty_queue_ok(1), of "[104, 105, 10, 33, 10]" 0] e by simp
  with ok show "q_ok (queue Secondary 0 cooked_tty)" "q_contents (queue Secondary 0 cooked_tty) = [104, 105, 10, 33, 10]"
    "q_data (queue Secondary 0 cooked_tty) = 2"
    by (simp_all add: cooked_tty_def queue_set_queue q_ok_def q_contents_def)
qed

lemma cooked_tty_fields: "tty_termios (tty_table cooked_tty 0) = con_termios" "tasks cooked_tty = tasks boot_sched"
  by (simp_all add: cooked_tty_def set_queue_def boot_tty_def timers.defs con_tty_def boot_timers_def sched.defs)

theorem tty_read_canonical_witness:
  "\<exists>s'. tty_read (\<lambda>_. Some) 0 100 80 cooked_tty = Some (5, s') \<and> umem s' 101 = 105"
proof -
  have "L_FLAG 0 ICANON cooked_tty" "CC 0 VTIME cooked_tty = 0"
    by (simp_all add: L_FLAG_def CC_def cooked_tty_fields con_termios_def INIT_C_CC_def)
  moreover have "t_signal (cur_task cooked_tty) = 0"
    by (simp add: cooked_tty_fields boot_sched_def INIT_TASK_def)
  moreover have "taken con_termios 80 [104, 105, 10, 33, 10] = [104, 105, 10, 33, 10]"
    by (simp add: taken_def spec_cc_def con_termios_def INIT_C_CC_def)
  moreover have "q_contents (queue Secondary 0 cooked_tty) \<noteq> []" "q_data (queue Secondary 0 cooked_tty) \<noteq> 0"
    by (simp_all add: cooked_tty_queue)
  ultimately obtain s' where "tty_read (\<lambda>_. Some) 0 100 80 cooked_tty = Some (5, s')"
    "umem s' = write_bytes [104, 105, 10, 33, 10] 100 (umem cooked_tty)"
    using tty_read_canonical [OF _ _ cooked_tty_queue(1) _ _ _ _ _ cooked_tty_fields(1) [symmetric]
        cooked_tty_queue(2) [symmetric], of 80 "\<lambda>_. Some" 100] by force
  moreover from this have "umem s' 101 = 105" by simp
  ultimately show ?thesis by blast
qed

subsection \<open>The serial driver\<close>

interpretation rs_driver: tty_driver rs_write "\<lambda>_ _. True" "\<lambda>_. True"
  by unfold_locales (simp_all add: rs_write_def Let_def outb_def line_view_def queue_def)


text \<open>Typing "ab", erase, "c", newline on a serial line in canonical mode.\<close>

definition raw_tty :: tty where
  "raw_tty = set_queue Read_q 1 (fold PUTCH [97, 98, 127, 99, 10] (empty_queue 0x3f8))
     (boot_tty\<lparr>tty_table := (tty_table boot_tty)(1 := (rs_tty 0x3f8)\<lparr>tty_termios := con_termios\<rparr>)\<rparr>)"

lemma fold_PUTCH_empty: "length cs \<le> 1023 \<Longrightarrow> q_ok (fold PUTCH cs (empty_queue p)) \<and> q_contents (fold PUTCH cs (empty_queue p)) = cs"
  using tty_fifo.fold_put [OF empty_queue_ok(1), of cs p] tty_fifo.fold_put_ok [OF empty_queue_ok(1), of cs p]
    tty_fifo.room [OF empty_queue_ok(1), of p] EMPTY_iff [OF empty_queue_ok(1), of p] empty_queue_ok(2) [of p]
  by simp

lemma raw_tty_queues:
  "q_ok (queue Read_q 1 raw_tty)" "q_contents (queue Read_q 1 raw_tty) = [97, 98, 127, 99, 10]"
  "q_ok (queue Secondary 1 raw_tty)" "q_contents (queue Secondary 1 raw_tty) = []"
  using fold_PUTCH_empty [of "[97, 98, 127, 99, 10]" "0x3f8"] fold_PUTCH_empty [of "[]" 0]
  by (simp_all add: raw_tty_def queue_set_queue) (simp_all add: queue_def rs_tty_def)


end
