(* ===== verification/Memory.thy ===== *)
theory Memory
  imports Tty
begin

text \<open>
  \<open>mm/memory.c\<close>: page frames, page tables, copy on write and page sharing. Physical memory is a
  function from the index of a 32-bit word (the address divided by four) to its value; the page
  directory is at address 0. \<open>oom()\<close> ends in \<open>do_exit\<close>, so an operation that runs out of memory
  there does not return. \<open>share_page\<close> and \<open>do_no_page\<close>, which need the file system, are in
  \<open>Demand_Paging\<close>; \<open>verify_area\<close> of \<open>kernel/fork.c\<close> is here because so many system calls use it.
\<close>

subsection \<open>State\<close>

abbreviation (input) LOW_MEM :: u32 where "LOW_MEM \<equiv> 0x100000"
abbreviation (input) PAGING_PAGES :: nat where "PAGING_PAGES \<equiv> 3840"
abbreviation (input) USED :: u8 where "USED \<equiv> 100"
abbreviation (input) PAGE_MASK :: u32 where "PAGE_MASK \<equiv> 0xfffff000"

record mm = tty +
  mem_map :: "u8 list"
  HIGH_MEMORY :: u32
  phys :: "nat \<Rightarrow> u32"

definition MAP_NR :: "u32 \<Rightarrow> nat" where
  "MAP_NR addr = unat (drop_bit 12 (addr - LOW_MEM))"

definition mem_long :: "u32 \<Rightarrow> 'a mm_scheme \<Rightarrow> u32" where
  "mem_long p s = phys s (unat p div 4)"

definition set_long :: "u32 \<Rightarrow> u32 \<Rightarrow> 'a mm_scheme \<Rightarrow> 'a mm_scheme" where
  "set_long p v s = s\<lparr>phys := (phys s)(unat p div 4 := v)\<rparr>"

definition mem_byte :: "u32 \<Rightarrow> 'a mm_scheme \<Rightarrow> u8" where
  "mem_byte p s = ucast (drop_bit (8 * (unat p mod 4)) (phys s (unat p div 4)))"

definition set_byte :: "u32 \<Rightarrow> u8 \<Rightarrow> 'a mm_scheme \<Rightarrow> 'a mm_scheme" where
  "set_byte p v s =
     (let sh = 8 * (unat p mod 4)
      in s\<lparr>phys := (phys s)(unat p div 4 :=
             (phys s (unat p div 4) AND NOT (push_bit sh 0xff)) OR push_bit sh (ucast v))\<rparr>)"

text \<open>The 1024 words of a page.\<close>

definition in_page :: "u32 \<Rightarrow> nat \<Rightarrow> bool" where
  "in_page page a \<longleftrightarrow> unat page div 4 \<le> a \<and> a < unat page div 4 + 1024"

definition clear_page :: "u32 \<Rightarrow> 'a mm_scheme \<Rightarrow> 'a mm_scheme" where
  "clear_page page s = s\<lparr>phys := (\<lambda>a. if in_page page a then 0 else phys s a)\<rparr>"

definition copy_page :: "u32 \<Rightarrow> u32 \<Rightarrow> 'a mm_scheme \<Rightarrow> 'a mm_scheme" where
  "copy_page from to s =
     s\<lparr>phys := (\<lambda>a. if in_page to a then phys s (unat from div 4 + (a - unat to div 4)) else phys s a)\<rparr>"

definition set_map :: "nat \<Rightarrow> u8 \<Rightarrow> 'a mm_scheme \<Rightarrow> 'a mm_scheme" where
  "set_map i v s = s\<lparr>mem_map := (mem_map s)[i := v]\<rparr>"

subsection \<open>Page frames\<close>

text \<open>\<open>std; repne; scasb\<close> from the last byte of \<open>mem_map\<close> down: the highest free page.\<close>

definition get_free_page :: "'a mm_scheme \<Rightarrow> u32 \<times> 'a mm_scheme" where
  "get_free_page s =
     (case List.find (\<lambda>i. mem_map s ! i = 0) (rev [0..<PAGING_PAGES]) of
        None \<Rightarrow> (0, s)
      | Some i \<Rightarrow>
          let s = set_map i 1 s;
              page = push_bit 12 (of_nat i) + LOW_MEM
          in (page, clear_page page s))"

definition free_page :: "u32 \<Rightarrow> 'a mm_scheme \<Rightarrow> 'a mm_scheme option" where
  "free_page addr s =
     (if addr < LOW_MEM then Some s
      else if addr \<ge> HIGH_MEMORY s then None
      else
        let i = MAP_NR addr
        in if mem_map s ! i \<noteq> 0 then Some (set_map i (mem_map s ! i - 1) s) else None)"

subsection \<open>Page tables\<close>

definition pg_dir_entry :: "u32 \<Rightarrow> u32" where
  "pg_dir_entry addr = drop_bit 20 addr AND 0xffc"

definition free_table_entry :: "u32 \<Rightarrow> 'a mm_scheme \<Rightarrow> 'a mm_scheme option" where
  "free_table_entry p s =
     do { s \<leftarrow> (if 1 AND mem_long p s \<noteq> 0 then free_page (PAGE_MASK AND mem_long p s) s else Some s);
          Some (set_long p 0 s) }"

definition free_table :: "u32 \<Rightarrow> 'a mm_scheme \<Rightarrow> 'a mm_scheme option" where
  "free_table dir s =
     (if 1 AND mem_long dir s = 0 then Some s
      else do {
        let pg_table = PAGE_MASK AND mem_long dir s;
        s \<leftarrow> fold_opt (\<lambda>nr. free_table_entry (pg_table + 4 * of_nat nr)) [0..<1024] s;
        s \<leftarrow> free_page (PAGE_MASK AND mem_long dir s) s;
        Some (set_long dir 0 s) })"

definition free_page_tables :: "u32 \<Rightarrow> u32 \<Rightarrow> 'a mm_scheme \<Rightarrow> (int \<times> 'a mm_scheme) option" where
  "free_page_tables from sz s =
     (if from AND 0x3fffff \<noteq> 0 then None
      else if from = 0 then None
      else do {
        let sz = drop_bit 22 (sz + 0x3fffff);
        let dir = pg_dir_entry from;
        s \<leftarrow> fold_opt (\<lambda>k. free_table (dir + 4 * of_nat k)) [0..<unat sz] s;
        Some (0, s) })"

definition copy_table_entry :: "u32 \<Rightarrow> u32 \<Rightarrow> 'a mm_scheme \<Rightarrow> 'a mm_scheme" where
  "copy_table_entry from_entry to_entry s =
     (let this_page = mem_long from_entry s
      in if 1 AND this_page = 0 then s
      else
        let this_page = this_page AND NOT 2;
            s = set_long to_entry this_page s
        in if this_page > LOW_MEM
           then let s = set_long from_entry this_page s; i = MAP_NR this_page
                in set_map i (mem_map s ! i + 1) s
           else s)"

definition copy_table :: "nat \<Rightarrow> u32 \<Rightarrow> u32 \<Rightarrow> 'a mm_scheme \<Rightarrow> 'a mm_scheme" where
  "copy_table nr from_table to_table s =
     fold (\<lambda>k. copy_table_entry (from_table + 4 * of_nat k) (to_table + 4 * of_nat k)) [0..<nr] s"

text \<open>The outer loop: \<open>n\<close> directory entries left, from \<open>from_dir\<close> to \<open>to_dir\<close>.\<close>

fun copy_dirs :: "nat \<Rightarrow> nat \<Rightarrow> u32 \<Rightarrow> u32 \<Rightarrow> 'a mm_scheme \<Rightarrow> (int \<times> 'a mm_scheme) option" where
  "copy_dirs nr 0 from_dir to_dir s = Some (0, s)"
| "copy_dirs nr (Suc n) from_dir to_dir s =
     (if 1 AND mem_long to_dir s \<noteq> 0 then None
      else if 1 AND mem_long from_dir s = 0 then copy_dirs nr n (from_dir + 4) (to_dir + 4) s
      else
        let from_table = PAGE_MASK AND mem_long from_dir s;
            (to_table, s) = get_free_page s
        in if to_table = 0 then Some (-1, s)
        else
          let s = set_long to_dir (to_table OR 7) s;
              s = copy_table nr from_table to_table s
          in copy_dirs nr n (from_dir + 4) (to_dir + 4) s)"

definition copy_page_tables :: "u32 \<Rightarrow> u32 \<Rightarrow> u32 \<Rightarrow> 'a mm_scheme \<Rightarrow> (int \<times> 'a mm_scheme) option" where
  "copy_page_tables from to sz s =
     (if from AND 0x3fffff \<noteq> 0 \<or> to AND 0x3fffff \<noteq> 0 then None
      else copy_dirs (if from = 0 then 0xA0 else 1024) (unat (drop_bit 22 (sz + 0x3fffff)))
             (pg_dir_entry from) (pg_dir_entry to) s)"

definition put_page :: "u32 \<Rightarrow> u32 \<Rightarrow> 'a mm_scheme \<Rightarrow> u32 \<times> 'a mm_scheme" where
  "put_page page address s =
     (let dir = pg_dir_entry address;
          index = 4 * (drop_bit 12 address AND 0x3ff)
      in if mem_long dir s AND 1 \<noteq> 0
         then (page, set_long ((PAGE_MASK AND mem_long dir s) + index) (page OR 7) s)
         else
           let (tmp, s) = get_free_page s
           in if tmp = 0 then (0, s)
              else (page, set_long (tmp + index) (page OR 7) (set_long dir (tmp OR 7) s)))"

subsection \<open>Copy on write\<close>

definition un_wp_page :: "u32 \<Rightarrow> 'a mm_scheme \<Rightarrow> 'a mm_scheme option" where
  "un_wp_page table_entry s =
     (let old_page = PAGE_MASK AND mem_long table_entry s
      in if old_page \<ge> LOW_MEM \<and> mem_map s ! MAP_NR old_page = 1
         then Some (set_long table_entry (mem_long table_entry s OR 2) s)
      else
        let (new_page, s) = get_free_page s
        in if new_page = 0 then None
        else
          let s = (if old_page \<ge> LOW_MEM
                   then set_map (MAP_NR old_page) (mem_map s ! MAP_NR old_page - 1) s else s);
              s = set_long table_entry (new_page OR 7) s
          in Some (copy_page old_page new_page s))"

text \<open>The entry of the page table that maps a linear address.\<close>

definition table_entry_of :: "u32 \<Rightarrow> 'a mm_scheme \<Rightarrow> u32" where
  "table_entry_of address s =
     (drop_bit 10 address AND 0xffc) + (PAGE_MASK AND mem_long (pg_dir_entry address) s)"

definition do_wp_page :: "u32 \<Rightarrow> u32 \<Rightarrow> 'a mm_scheme \<Rightarrow> 'a mm_scheme option" where
  "do_wp_page error_code address s = un_wp_page (table_entry_of address s) s"

definition write_verify :: "u32 \<Rightarrow> 'a mm_scheme \<Rightarrow> 'a mm_scheme option" where
  "write_verify address s =
     (if mem_long (pg_dir_entry address) s AND 1 = 0 then Some s
      else if 3 AND mem_long (table_entry_of address s) s = 1
      then un_wp_page (table_entry_of address s) s
      else Some s)"

definition get_empty_page :: "u32 \<Rightarrow> 'a mm_scheme \<Rightarrow> 'a mm_scheme option" where
  "get_empty_page address s =
     (let (tmp, s) = get_free_page s
      in if tmp = 0 then None
      else let (r, s) = put_page tmp address s in if r = 0 then None else Some s)"

text \<open>\<open>verify_area\<close>: copy on write for every page of a range of the current data segment.\<close>

definition verify_area :: "u32 \<Rightarrow> int \<Rightarrow> 'a mm_scheme \<Rightarrow> 'a mm_scheme option" where
  "verify_area addr sz s =
     (let sz = wrap32 (sz + uint (addr AND 0xfff));
          start = (addr AND PAGE_MASK) + t_data_base (cur_task s)
      in fold_opt (\<lambda>k. write_verify (start + 4096 * of_nat k)) [0..<nat ((sz + 4095) div 4096)] s)"

subsection \<open>Sharing\<close>

definition try_to_share :: "u32 \<Rightarrow> nat \<Rightarrow> 'a mm_scheme \<Rightarrow> (bool \<times> 'a mm_scheme) option" where
  "try_to_share address p s =
     (let from_dir = pg_dir_entry address + pg_dir_entry (t_start_code (tasks s p));
          to_dir = pg_dir_entry address + pg_dir_entry (t_start_code (cur_task s));
          from = mem_long from_dir s
      in if from AND 1 = 0 then Some (False, s)
      else
        let from_page = (from AND PAGE_MASK) + (drop_bit 10 address AND 0xffc);
            phys_addr = mem_long from_page s
        in if phys_addr AND 0x41 \<noteq> 0x01 then Some (False, s)
        else
          let phys_addr = phys_addr AND PAGE_MASK
          in if phys_addr \<ge> HIGH_MEMORY s \<or> phys_addr < LOW_MEM then Some (False, s)
          else do {
            let to = mem_long to_dir s;
            (to, s) \<leftarrow> (if to AND 1 = 0
                        then let (t, s) = get_free_page s
                             in if t = 0 then None else Some (t, set_long to_dir (t OR 7) s)
                        else Some (to, s));
            let to_page = (to AND PAGE_MASK) + (drop_bit 10 address AND 0xffc);
            if 1 AND mem_long to_page s \<noteq> 0 then None
            else
              let s = set_long from_page (mem_long from_page s AND NOT 2) s;
                  s = set_long to_page (mem_long from_page s) s;
                  i = MAP_NR phys_addr
              in Some (True, set_map i (mem_map s ! i + 1) s) })"

definition mem_init :: "int \<Rightarrow> int \<Rightarrow> 'a mm_scheme \<Rightarrow> 'a mm_scheme" where
  "mem_init start_mem end_mem s =
     (let s = s\<lparr>HIGH_MEMORY := of_int end_mem\<rparr>;
          s = s\<lparr>mem_map := replicate PAGING_PAGES USED\<rparr>;
          i = nat ((start_mem - uint LOW_MEM) div 4096)
      in fold (\<lambda>k. set_map (i + k) 0) [0..<nat ((end_mem - start_mem) div 4096)] s)"

subsection \<open>Page frames are handed out once\<close>

definition page_addr :: "nat \<Rightarrow> u32" where
  "page_addr i = push_bit 12 (of_nat i) + LOW_MEM"

definition mm_ok :: "'a mm_scheme \<Rightarrow> bool" where
  "mm_ok s \<longleftrightarrow> length (mem_map s) = PAGING_PAGES"

lemma unat_page_addr: "i < PAGING_PAGES \<Longrightarrow> unat (page_addr i) = 4096 * i + 0x100000"
proof -
  assume i: "i < PAGING_PAGES"
  have "unat (push_bit 12 (of_nat i :: u32)) = 4096 * i"
    using i by (simp add: push_bit_eq_mult unat_word_ariths unat_of_nat take_bit_nat_eq_self_iff)
  then show ?thesis using i by (simp add: page_addr_def unat_word_ariths)
qed

lemma page_addr_ne_0 [simp]: "i < PAGING_PAGES \<Longrightarrow> page_addr i \<noteq> 0"
  using unat_page_addr [of i] by (auto simp: word_unat_eq_iff)

lemma MAP_NR_nat: "LOW_MEM \<le> a \<Longrightarrow> MAP_NR a = (unat a - 0x100000) div 4096"
  by (simp add: MAP_NR_def drop_bit_eq_div unat_div_distrib unat_sub word_le_nat_alt)

lemma MAP_NR_page_addr [simp]: "i < PAGING_PAGES \<Longrightarrow> MAP_NR (page_addr i) = i"
proof -
  assume i: "i < PAGING_PAGES"
  have "LOW_MEM \<le> page_addr i" by (simp add: word_le_nat_alt unat_page_addr [OF i])
  then show ?thesis by (simp add: MAP_NR_nat unat_page_addr [OF i])
qed

lemma page_addr_high: "i < PAGING_PAGES \<Longrightarrow> LOW_MEM \<le> page_addr i"
  by (simp add: word_le_nat_alt unat_page_addr)

lemma page_addr_mask: "i < PAGING_PAGES \<Longrightarrow> PAGE_MASK AND page_addr i = page_addr i"
proof -
  assume i: "i < PAGING_PAGES"
  have "page_addr i = push_bit 12 (of_nat i + 0x100)" by (simp add: page_addr_def push_bit_add)
  moreover have "(PAGE_MASK :: u32) = NOT (mask 12)" by (simp add: mask_eq_exp_minus_1)
  moreover have "NOT (mask 12) AND push_bit 12 x = push_bit 12 x" for x :: u32
    by (rule bit_word_eqI) (auto simp: bit_simps)
  ultimately show ?thesis by simp
qed

lemma map_fields [frame_simps, simp]:
  "mem_map (set_map i v s) = (mem_map s)[i := v]" "phys (set_map i v s) = phys s"
  "HIGH_MEMORY (set_map i v s) = HIGH_MEMORY s" "tasks (set_map i v s) = tasks s" "current (set_map i v s) = current s"
  "mem_map (set_long p w s) = mem_map s" "HIGH_MEMORY (set_long p w s) = HIGH_MEMORY s"
  "tasks (set_long p w s) = tasks s" "current (set_long p w s) = current s"
  "mem_map (clear_page q s) = mem_map s" "HIGH_MEMORY (clear_page q s) = HIGH_MEMORY s"
  "mem_map (copy_page q r s) = mem_map s" "HIGH_MEMORY (copy_page q r s) = HIGH_MEMORY s"
  "mem_long p (set_map i v s) = mem_long p s"
  by (simp_all add: set_map_def set_long_def clear_page_def copy_page_def mem_long_def)

lemma get_free_page_cases:
  assumes ok: "mm_ok s"
  obtains (none) "get_free_page s = (0, s)" "\<forall>i < PAGING_PAGES. mem_map s ! i \<noteq> 0"
  | (some) i where "i < PAGING_PAGES" "mem_map s ! i = 0" "\<forall>j. i < j \<and> j < PAGING_PAGES \<longrightarrow> mem_map s ! j \<noteq> 0"
      "get_free_page s = (page_addr i, clear_page (page_addr i) (set_map i 1 s))"
proof (cases "List.find (\<lambda>i. mem_map s ! i = 0) (rev [0..<PAGING_PAGES])")
  case None
  then have "get_free_page s = (0, s)" by (simp add: get_free_page_def)
  moreover have "\<forall>i < PAGING_PAGES. mem_map s ! i \<noteq> 0" using None by (auto simp: find_None_iff)
  ultimately show ?thesis by (rule none)
next
  case (Some i)
  then obtain k where k: "k < PAGING_PAGES" "mem_map s ! (rev [0..<PAGING_PAGES] ! k) = 0" "i = rev [0..<PAGING_PAGES] ! k"
    "\<forall>j < k. mem_map s ! (rev [0..<PAGING_PAGES] ! j) \<noteq> 0"
    by (auto simp: find_Some_iff)
  have nth: "rev [0..<PAGING_PAGES] ! j = PAGING_PAGES - 1 - j" if "j < PAGING_PAGES" for j
    using that by (simp add: rev_nth)
  have i: "i = PAGING_PAGES - 1 - k" using k(1,3) nth by simp
  have "mem_map s ! j \<noteq> 0" if "i < j" "j < PAGING_PAGES" for j
    using k(4) [rule_format, of "PAGING_PAGES - 1 - j"] nth [of "PAGING_PAGES - 1 - j"] that i k(1) by simp
  moreover have "i < PAGING_PAGES" "mem_map s ! i = 0" using k i nth by auto
  ultimately show ?thesis using some [of i] Some by (simp add: get_free_page_def Let_def page_addr_def)
qed

text \<open>
  C34. \<open>get_free_page\<close> returns 0 exactly when no frame is free, and then changes nothing; otherwise it
  returns the page-aligned address of the highest free frame, above 1 MB, marks that frame used once,
  fills it with zeros, and touches no other frame's count and no other memory.
\<close>

theorem get_free_page_correct:
  assumes "mm_ok s" and "get_free_page s = (page, s')"
  shows "if \<exists>i < PAGING_PAGES. mem_map s ! i = 0
     then \<exists>i < PAGING_PAGES. mem_map s ! i = 0 \<and> (\<forall>j. i < j \<and> j < PAGING_PAGES \<longrightarrow> mem_map s ! j \<noteq> 0)
       \<and> unat page = 4096 * i + 0x100000 \<and> MAP_NR page = i \<and> mem_map s' = (mem_map s)[i := 1]
       \<and> (\<forall>a. phys s' a = (if in_page page a then 0 else phys s a)) \<and> mm_ok s'
     else page = 0 \<and> s' = s"
  using assms(1)
proof (cases rule: get_free_page_cases)
  case none
  with assms show ?thesis by auto
next
  case (some i)
  then have "page = page_addr i" "s' = clear_page (page_addr i) (set_map i 1 s)" using assms(2) by auto
  with some assms(1) show ?thesis
    by (auto simp: unat_page_addr clear_page_def mm_ok_def intro!: exI [of _ i])
qed

text \<open>
  \<open>free_page\<close> undoes \<open>get_free_page\<close>: a page just obtained can be freed once, which restores the
  map, and freeing it a second time, like freeing any free frame, panics.
\<close>

theorem free_page_inverse:
  assumes "mm_ok s" and "get_free_page s = (page, s1)" and "page \<noteq> 0" and "page < HIGH_MEMORY s"
  shows "\<exists>s2. free_page page s1 = Some s2 \<and> mem_map s2 = mem_map s \<and> free_page page s2 = None"
  using assms(1)
proof (cases rule: get_free_page_cases)
  case none
  with assms show ?thesis by auto
next
  case (some i)
  then have eq: "page = page_addr i" "s1 = clear_page (page_addr i) (set_map i 1 s)" using assms(2) by auto
  have len: "i < length (mem_map s)" using some(1) assms(1) by (simp add: mm_ok_def)
  have hi: "\<not> page < LOW_MEM" "\<not> HIGH_MEMORY s \<le> page"
    using page_addr_high [OF some(1)] assms(4) eq by (auto simp: not_less)
  have "(mem_map s)[i := 0] = mem_map s" using some(2) by (metis list_update_id)
  then show ?thesis using hi eq some(1, 2) len by (simp add: free_page_def Let_def)
qed

subsection \<open>Copy on write\<close>

text \<open>
  An entry of a page table, at address \<open>e\<close>, that maps the frame \<open>old\<close>: both the table and the frame
  are in use, and the table is not the frame.
\<close>

definition maps :: "u32 \<Rightarrow> u32 \<Rightarrow> 'a mm_scheme \<Rightarrow> bool" where
  "maps e old s \<longleftrightarrow> PAGE_MASK AND mem_long e s = old \<and> \<not> in_page old (unat e div 4)
     \<and> (LOW_MEM \<le> old \<longrightarrow> MAP_NR old < PAGING_PAGES \<and> mem_map s ! MAP_NR old \<noteq> 0)
     \<and> (\<forall>i < PAGING_PAGES. mem_map s ! i = 0 \<longrightarrow>
          \<not> in_page (page_addr i) (unat e div 4) \<and> (\<forall>a. in_page old a \<longrightarrow> \<not> in_page (page_addr i) a))"

lemma mask_or_flags: "i < PAGING_PAGES \<Longrightarrow> PAGE_MASK AND (page_addr i OR 7) = page_addr i"
proof -
  assume i: "i < PAGING_PAGES"
  have "PAGE_MASK AND (page_addr i OR 7) = (PAGE_MASK AND page_addr i) OR (PAGE_MASK AND 7)"
    by (rule bit.conj_disj_distrib)
  then show ?thesis using page_addr_mask [OF i] by simp
qed

text \<open>
  C36. Copy on write: after \<open>un_wp_page\<close> the entry is writable and maps a frame with the same contents
  that nothing else uses; a frame above 1 MB that was shared has one user less; no other word of
  memory and no other frame's count has changed. It fails to return only when the page is shared (or
  below 1 MB) and no frame is free.
\<close>

theorem un_wp_page_correct:
  assumes "mm_ok s" and "maps e old s"
  shows "case un_wp_page e s of
      None \<Rightarrow> (LOW_MEM \<le> old \<longrightarrow> mem_map s ! MAP_NR old \<noteq> 1) \<and> (\<forall>i < PAGING_PAGES. mem_map s ! i \<noteq> 0)
    | Some s' \<Rightarrow>
        let new = PAGE_MASK AND mem_long e s' in
          mem_long e s' AND 2 \<noteq> 0 \<and> mem_map s' ! MAP_NR new = 1
        \<and> (\<forall>k < 1024. phys s' (unat new div 4 + k) = phys s (unat old div 4 + k))
        \<and> (\<forall>a. a \<noteq> unat e div 4 \<longrightarrow> \<not> in_page new a \<longrightarrow> phys s' a = phys s a)
        \<and> (if LOW_MEM \<le> old \<and> mem_map s ! MAP_NR old = 1 then new = old \<and> mem_map s' = mem_map s
           else new \<noteq> old \<and> mem_map s ! MAP_NR new = 0
             \<and> mem_map s' = (if LOW_MEM \<le> old then (mem_map s)[MAP_NR new := 1, MAP_NR old := mem_map s ! MAP_NR old - 1]
                              else (mem_map s)[MAP_NR new := 1]))"
proof (cases "LOW_MEM \<le> old \<and> mem_map s ! MAP_NR old = 1")
  case True
  have flags: "PAGE_MASK AND (mem_long e s OR 2) = old" "(mem_long e s OR 2) AND 2 \<noteq> 0"
  proof -
    have "PAGE_MASK AND (mem_long e s OR 2) = (PAGE_MASK AND mem_long e s) OR (PAGE_MASK AND 2)"
      by (rule bit.conj_disj_distrib)
    then show "PAGE_MASK AND (mem_long e s OR 2) = old" using assms(2) by (simp add: maps_def)
    have "bit ((mem_long e s OR 2) AND 2) 1" by (simp add: bit_simps)
    then show "(mem_long e s OR 2) AND 2 \<noteq> 0" by auto
  qed
  have eq: "un_wp_page e s = Some (set_long e (mem_long e s OR 2) s)"
    using True assms(2) by (simp add: un_wp_page_def maps_def Let_def)
  have new: "mem_long e (set_long e (mem_long e s OR 2) s) = mem_long e s OR 2"
    by (simp add: mem_long_def set_long_def)
  have "\<not> in_page old (unat e div 4)" using assms(2) by (simp add: maps_def)
  then show ?thesis
    unfolding eq option.case Let_def new flags(1) using True flags(2) by (auto simp: set_long_def in_page_def)
next
  case False
  have old: "PAGE_MASK AND mem_long e s = old" using assms(2) by (simp add: maps_def)
  show ?thesis
    using assms(1)
  proof (cases rule: get_free_page_cases)
    case none
    then have "un_wp_page e s = None" using False old by (auto simp: un_wp_page_def Let_def)
    with False none show ?thesis by auto
  next
    case (some i)
    let ?s1 = "clear_page (page_addr i) (set_map i 1 s)"
    define s2 where "s2 = (if LOW_MEM \<le> old then set_map (MAP_NR old) (mem_map ?s1 ! MAP_NR old - 1) ?s1 else ?s1)"
    let ?s' = "copy_page old (page_addr i) (set_long e (page_addr i OR 7) s2)"
    have eq: "un_wp_page e s = Some ?s'"
      using False some old by (auto simp: un_wp_page_def Let_def s2_def)
    have e: "\<not> in_page (page_addr i) (unat e div 4)" and olde: "\<not> in_page old (unat e div 4)"
      and disj: "\<And>a. in_page old a \<Longrightarrow> \<not> in_page (page_addr i) a"
      using assms(2) some(1,2) by (auto simp: maps_def)
    have entry: "mem_long e ?s' = page_addr i OR 7"
      using e by (simp add: mem_long_def copy_page_def set_long_def)
    have new: "PAGE_MASK AND mem_long e ?s' = page_addr i" unfolding entry by (rule mask_or_flags [OF some(1)])
    have "bit ((page_addr i OR 7) AND 2) 1" by (simp add: bit_simps)
    then have w: "(page_addr i OR 7) AND 2 \<noteq> 0" by auto
    have p1: "phys s2 a = (if in_page (page_addr i) a then 0 else phys s a)" for a
      by (simp add: s2_def clear_page_def)
    have cont: "phys ?s' (unat (page_addr i) div 4 + k) = phys s (unat old div 4 + k)" if "k < 1024" for k
      using that disj [of "unat old div 4 + k"] olde
      by (auto simp: copy_page_def set_long_def p1 in_page_def)
    have rest: "phys ?s' a = phys s a" if "a \<noteq> unat e div 4" "\<not> in_page (page_addr i) a" for a
      using that by (simp add: copy_page_def set_long_def p1)
    have ne: "page_addr i \<noteq> old"
      using disj [of "unat old div 4"] by (auto simp: in_page_def)
    have mapne: "LOW_MEM \<le> old \<Longrightarrow> MAP_NR old \<noteq> i" using assms(2) some(2) by (auto simp: maps_def)
    have map: "mem_map ?s' = (if LOW_MEM \<le> old then (mem_map s)[i := 1, MAP_NR old := mem_map s ! MAP_NR old - 1]
        else (mem_map s)[i := 1])"
      using mapne by (cases "LOW_MEM \<le> old") (auto simp: s2_def nth_list_update_if)
    have one: "mem_map ?s' ! i = 1"
      unfolding map using some(1) assms(1) mapne by (auto simp: mm_ok_def nth_list_update_if)
    show ?thesis
      unfolding eq option.case Let_def new MAP_NR_page_addr [OF some(1)]
      using cont rest ne map one some(2) False w by (simp add: entry)
  qed
qed


subsection \<open>Copying a page table\<close>

text \<open>
  The entry of parent and child after \<open>fork\<close>: the same frame, not writable. \<open>present\<close> tells which
  entries are copied, \<open>uses\<close> how many of the first \<open>n\<close> map a given frame above 1 MB.
\<close>

definition entry_of :: "u32 \<Rightarrow> nat \<Rightarrow> 'a mm_scheme \<Rightarrow> u32" where
  "entry_of table k s = mem_long (table + 4 * of_nat k) s"

definition shared_entry :: "u32 \<Rightarrow> bool" where
  "shared_entry v \<longleftrightarrow> 1 AND v \<noteq> 0 \<and> v AND NOT 2 > LOW_MEM"

fun uses :: "u32 \<Rightarrow> nat \<Rightarrow> nat \<Rightarrow> 'a mm_scheme \<Rightarrow> nat" where
  "uses table 0 i s = 0"
| "uses table (Suc n) i s =
     uses table n i s + (if shared_entry (entry_of table n s) \<and> MAP_NR (entry_of table n s AND NOT 2) = i then 1 else 0)"

definition table_at :: "u32 \<Rightarrow> nat \<Rightarrow> bool" where
  "table_at table p \<longleftrightarrow> table = of_nat (4 * p) \<and> 4 * p + 4096 \<le> 2 ^ 32"

lemma entry_index: "table_at table p \<Longrightarrow> k < 1024 \<Longrightarrow> unat (table + 4 * of_nat k) div 4 = p + k"
proof -
  assume *: "table_at table p" "k < 1024"
  have "table + 4 * of_nat k = of_nat (4 * p + 4 * k)" using *(1) by (simp add: table_at_def)
  moreover have "4 * p + 4 * k < 2 ^ 32" using * by (simp add: table_at_def)
  moreover have "unat (of_nat m :: u32) = m" if "m < 2 ^ 32" for m
    using that by (simp add: unat_of_nat take_bit_nat_eq_self_iff)
  ultimately have "unat (table + 4 * of_nat k) = 4 * p + 4 * k" by metis
  then show ?thesis by simp
qed

lemma copy_table_spec:
  assumes tabs: "table_at from p" "table_at to q" "p + 1024 \<le> q \<or> q + 1024 \<le> p" and "n \<le> 1024"
    and len: "\<forall>k < n. shared_entry (entry_of from k s) \<longrightarrow> MAP_NR (entry_of from k s AND NOT 2) < length (mem_map s)"
    and s': "s' = copy_table n from to s"
  shows "(\<forall>k < n. entry_of to k s' = (if 1 AND entry_of from k s = 0 then entry_of to k s else entry_of from k s AND NOT 2))
    \<and> (\<forall>k < n. entry_of from k s' = (if shared_entry (entry_of from k s) then entry_of from k s AND NOT 2 else entry_of from k s))
    \<and> (\<forall>i < length (mem_map s). mem_map s' ! i = mem_map s ! i + of_nat (uses from n i s))
    \<and> length (mem_map s') = length (mem_map s)
    \<and> (\<forall>a. (\<forall>k < n. a \<noteq> p + k \<and> a \<noteq> q + k) \<longrightarrow> phys s' a = phys s a)"
  using assms(4) len s'
proof (induction n arbitrary: s')
  case 0
  then show ?case by (simp add: copy_table_def)
next
  case (Suc n)
  define t where "t = copy_table n from to s"
  have ih: "\<forall>k < n. entry_of to k t = (if 1 AND entry_of from k s = 0 then entry_of to k s else entry_of from k s AND NOT 2)"
    "\<forall>k < n. entry_of from k t = (if shared_entry (entry_of from k s) then entry_of from k s AND NOT 2 else entry_of from k s)"
    "\<forall>i < length (mem_map s). mem_map t ! i = mem_map s ! i + of_nat (uses from n i s)"
    "length (mem_map t) = length (mem_map s)"
    "\<forall>a. (\<forall>k < n. a \<noteq> p + k \<and> a \<noteq> q + k) \<longrightarrow> phys t a = phys s a"
    using Suc.IH [OF _ _ t_def] Suc.prems(1, 2) by auto
  have pk: "unat (from + 4 * of_nat k) div 4 = p + k" and qk: "unat (to + 4 * of_nat k) div 4 = q + k" if "k < 1024" for k
    using that entry_index tabs(1, 2) by blast+
  have n: "n < 1024" using Suc.prems(1) by simp
  have cur: "entry_of from n t = entry_of from n s" "entry_of to n t = entry_of to n s"
    using ih(5) tabs(3) n by (auto simp: entry_of_def mem_long_def pk qk)
  let ?e = "entry_of from n s"
  have s'_eq: "s' = copy_table_entry (from + 4 * of_nat n) (to + 4 * of_nat n) t"
    using Suc.prems(3) by (simp add: copy_table_def t_def)
  have ne: "q + n \<noteq> p + n" "\<And>k. k < 1024 \<Longrightarrow> q + n \<noteq> p + k" "\<And>k. k < 1024 \<Longrightarrow> p + n \<noteq> q + k"
    using tabs(3) n by auto
  have ent: "mem_long (from + 4 * of_nat n) t = ?e" using cur by (simp add: entry_of_def)
  have phys': "phys s' = (if 1 AND ?e = 0 then phys t
     else if shared_entry ?e then (phys t)(q + n := ?e AND NOT 2, p + n := ?e AND NOT 2)
     else (phys t)(q + n := ?e AND NOT 2))"
    unfolding s'_eq copy_table_entry_def Let_def ent
    by (auto simp: set_long_def shared_entry_def pk [OF n] qk [OF n])
  have map': "mem_map s' = (if shared_entry ?e
     then (mem_map t)[MAP_NR (?e AND NOT 2) := mem_map t ! MAP_NR (?e AND NOT 2) + 1] else mem_map t)"
    unfolding s'_eq copy_table_entry_def Let_def ent by (auto simp: shared_entry_def)
  have to': "entry_of to k s' = (if k = n \<and> 1 AND ?e \<noteq> 0 then ?e AND NOT 2 else entry_of to k t)" if "k \<le> n" for k
    using that n ne(1) ne(2) [of k] ne(3) [of k] by (auto simp: entry_of_def mem_long_def qk phys')
  have from': "entry_of from k s' = (if k = n \<and> shared_entry ?e then ?e AND NOT 2 else entry_of from k t)" if "k \<le> n" for k
    using that n ne(1) ne(2) [of k] by (auto simp: entry_of_def mem_long_def pk phys' shared_entry_def)
  have in_len: "MAP_NR (?e AND NOT 2) < length (mem_map s)" if "shared_entry ?e"
    using that Suc.prems(2) by blast
  have maps: "mem_map s' ! i = mem_map s ! i + of_nat (uses from (Suc n) i s)" if "i < length (mem_map s)" for i
    using that ih(3, 4) in_len by (auto simp: map' nth_list_update_if)
  have other: "phys s' a = phys s a" if "\<forall>k < Suc n. a \<noteq> p + k \<and> a \<noteq> q + k" for a
    using that ih(5) by (auto simp: phys' less_Suc_eq)
  show ?case
    using ih(1, 2, 4) to' from' maps other cur by (auto simp: less_Suc_eq map')
qed


lemma pg_dir_entry_less: "unat (pg_dir_entry a) div 4 < 1024"
proof -
  have "pg_dir_entry a \<le> 0xffc" by (simp add: pg_dir_entry_def word_and_le1)
  then have "unat (pg_dir_entry a) \<le> 0xffc" by (simp add: word_le_nat_alt)
  then show ?thesis by simp
qed

lemma table_at_page_addr: "i < PAGING_PAGES \<Longrightarrow> table_at (page_addr i) (1024 * i + 0x40000)"
proof -
  assume i: "i < PAGING_PAGES"
  have "page_addr i = of_nat (unat (page_addr i))" by simp
  also have "unat (page_addr i) = 4 * (1024 * i + 0x40000)" using unat_page_addr [OF i] by simp
  finally show ?thesis using i by (simp add: table_at_def)
qed

lemma in_page_page_addr: "i < PAGING_PAGES \<Longrightarrow> in_page (page_addr i) a \<longleftrightarrow> 1024 * i + 0x40000 \<le> a \<and> a < 1024 * i + 0x40000 + 1024"
  by (simp add: in_page_def unat_page_addr)

lemma uses_cong: "(\<And>k. k < n \<Longrightarrow> entry_of t k s = entry_of t k s') \<Longrightarrow> uses t n i s = uses t n i s'"
  by (induction n) auto

text \<open>
  The page table of a 4 MB block that is about to be copied: it is above the page directory, not in a
  free frame, and its entries map frames in use.
\<close>

definition parent_table :: "u32 \<Rightarrow> nat \<Rightarrow> 'a mm_scheme \<Rightarrow> bool" where
  "parent_table table p s \<longleftrightarrow> table_at table p \<and> 1024 \<le> p
     \<and> (\<forall>i < PAGING_PAGES. mem_map s ! i = 0 \<longrightarrow> p + 1024 \<le> 1024 * i + 0x40000 \<or> 1024 * i + 0x40000 + 1024 \<le> p)
     \<and> (\<forall>k < 1024. shared_entry (entry_of table k s) \<longrightarrow>
          MAP_NR (entry_of table k s AND NOT 2) < PAGING_PAGES \<and> mem_map s ! MAP_NR (entry_of table k s AND NOT 2) \<noteq> 0)"

lemma uses_0: "(\<And>k. k < n \<Longrightarrow> shared_entry (entry_of t k s) \<Longrightarrow> MAP_NR (entry_of t k s AND NOT 2) \<noteq> i) \<Longrightarrow> uses t n i s = 0"
  by (induction n) auto

text \<open>
  C35. \<open>fork\<close>'s copy of a 4 MB block: when a frame is free for the new page table, \<open>copy_page_tables\<close>
  returns 0, the child's table holds the parent's present entries with the write bit cleared and zeros
  elsewhere, the parent's entries above 1 MB lose their write bit too, and every frame's count grows by
  the number of entries that map it; the new table itself is used once. Without a free frame it returns
  -1 and changes nothing.
\<close>

theorem copy_page_tables_shares:
  assumes "mm_ok s" and "from AND 0x3fffff = 0" and "to AND 0x3fffff = 0" and "from \<noteq> 0"
    and "unat (drop_bit 22 (sz + 0x3fffff)) = 1"
    and "mem_long (pg_dir_entry to) s AND 1 = 0" and "mem_long (pg_dir_entry from) s AND 1 \<noteq> 0"
    and "pg_dir_entry from \<noteq> pg_dir_entry to"
    and "ft = PAGE_MASK AND mem_long (pg_dir_entry from) s" and "parent_table ft p s"
  shows "case copy_page_tables from to sz s of
      None \<Rightarrow> False
    | Some (r, s') \<Rightarrow>
        if \<forall>i < PAGING_PAGES. mem_map s ! i \<noteq> 0 then r = -1 \<and> s' = s
        else r = 0 \<and> (\<exists>n < PAGING_PAGES. mem_map s ! n = 0 \<and> mem_long (pg_dir_entry to) s' = page_addr n OR 7
          \<and> (\<forall>k < 1024. entry_of (page_addr n) k s' = (if 1 AND entry_of ft k s = 0 then 0 else entry_of ft k s AND NOT 2))
          \<and> (\<forall>k < 1024. entry_of ft k s' = (if shared_entry (entry_of ft k s) then entry_of ft k s AND NOT 2 else entry_of ft k s))
          \<and> (\<forall>i < PAGING_PAGES. mem_map s' ! i = (if i = n then 1 else mem_map s ! i + of_nat (uses ft 1024 i s))))"
proof -
  have un: "copy_page_tables from to sz s =
    (let (to_table, s1) = get_free_page s
     in if to_table = 0 then Some (-1, s1)
        else Some (0, copy_table 1024 ft to_table (set_long (pg_dir_entry to) (to_table OR 7) s1)))"
    using assms(2-7,9) by (simp add: copy_page_tables_def and.commute Let_def split: prod.split)
  show ?thesis
    using assms(1)
  proof (cases rule: get_free_page_cases)
    case none
    then show ?thesis unfolding un by simp
  next
    case (some n)
    define s1 where "s1 = clear_page (page_addr n) (set_map n 1 s)"
    define s2 where "s2 = set_long (pg_dir_entry to) (page_addr n OR 7) s1"
    define s' where "s' = copy_table 1024 ft (page_addr n) s2"
    let ?q = "1024 * n + 0x40000"
    have eq: "copy_page_tables from to sz s = Some (0, s')"
      unfolding un some(4) s'_def s2_def s1_def using some(1) by simp
    note tabs = assms(10) [unfolded parent_table_def]
    have dir: "unat (pg_dir_entry to) div 4 < 1024" by (rule pg_dir_entry_less)
    have disj: "p + 1024 \<le> ?q \<or> ?q + 1024 \<le> p" using tabs some(1, 2) by blast
    have tq: "table_at (page_addr n) ?q" using some(1) by (rule table_at_page_addr)
    have p2: "phys s2 a = (if a = unat (pg_dir_entry to) div 4 then page_addr n OR 7
        else if in_page (page_addr n) a then 0 else phys s a)" for a
      by (simp add: s2_def set_long_def s1_def clear_page_def)
    have from2: "entry_of ft k s2 = entry_of ft k s" if "k < 1024" for k
      using that tabs disj dir by (auto simp: entry_of_def mem_long_def entry_index p2 in_page_page_addr [OF some(1)])
    have to2: "entry_of (page_addr n) k s2 = 0" if "k < 1024" for k
      using that tq dir by (auto simp: entry_of_def mem_long_def entry_index p2 in_page_page_addr [OF some(1)])
    have map2: "mem_map s2 = (mem_map s)[n := 1]" by (simp add: s2_def s1_def)
    have len: "length (mem_map s) = PAGING_PAGES" using assms(1) by (simp add: mm_ok_def)
    have "\<forall>k < 1024. shared_entry (entry_of ft k s2) \<longrightarrow> MAP_NR (entry_of ft k s2 AND NOT 2) < length (mem_map s2)"
      using tabs by (simp add: from2 map2 len)
    from copy_table_spec [OF _ tq disj _ this s'_def] tabs
    have c: "\<forall>k < 1024. entry_of (page_addr n) k s' = (if 1 AND entry_of ft k s = 0 then 0 else entry_of ft k s AND NOT 2)"
      "\<forall>k < 1024. entry_of ft k s' = (if shared_entry (entry_of ft k s) then entry_of ft k s AND NOT 2 else entry_of ft k s)"
      "\<forall>i < PAGING_PAGES. mem_map s' ! i = (mem_map s)[n := 1] ! i + of_nat (uses ft 1024 i s2)"
      "\<forall>a. (\<forall>k < 1024. a \<noteq> p + k \<and> a \<noteq> ?q + k) \<longrightarrow> phys s' a = phys s2 a"
      by (simp_all add: from2 to2 map2 len)
    have u: "uses ft 1024 i s2 = uses ft 1024 i s" for i by (rule uses_cong) (rule from2)
    have "uses ft 1024 n s = 0" using tabs some(2) by (intro uses_0) auto
    then have maps: "\<forall>i < PAGING_PAGES. mem_map s' ! i = (if i = n then 1 else mem_map s ! i + of_nat (uses ft 1024 i s))"
      using c(3) some(1) len by (auto simp: u nth_list_update_if)
    have "mem_long (pg_dir_entry to) s' = page_addr n OR 7"
      using c(4) [rule_format, of "unat (pg_dir_entry to) div 4"] dir tabs by (auto simp: mem_long_def p2)
    with c(1, 2) maps some(1, 2) show ?thesis unfolding eq option.case prod.case by (simp only: if_False) auto
  qed
qed


subsection \<open>The memory at boot\<close>

lemma fold_set_map [simp]:
  shows "mem_map (fold (\<lambda>k. set_map (i + k) 0) [0..<n] s) ! j
     = (if i \<le> j \<and> j < i + n \<and> j < length (mem_map s) then 0 else mem_map s ! j)"
   and "length (mem_map (fold (\<lambda>k. set_map (i + k) 0) [0..<n] s)) = length (mem_map s)"
   and "HIGH_MEMORY (fold (\<lambda>k. set_map (i + k) 0) [0..<n] s) = HIGH_MEMORY s"
  by (induction n) (auto simp: nth_list_update_if less_Suc_eq)

text \<open>
  After \<open>mem_init\<close> with page-aligned bounds between 1 MB and 16 MB the free frames are exactly those
  of the main memory \<open>start_mem\<close> to \<open>end_mem\<close>; every other frame is marked used.
\<close>

theorem mem_init_correct:
  assumes "0x100000 \<le> a" and "a \<le> b" and "b \<le> 0x1000000" and "j < PAGING_PAGES" and "a mod 4096 = 0" and "b mod 4096 = 0"
  shows "mm_ok (mem_init a b s) \<and> uint (HIGH_MEMORY (mem_init a b s)) = b
    \<and> (mem_map (mem_init a b s) ! j = 0 \<longleftrightarrow> a \<le> uint (page_addr j) \<and> uint (page_addr j) < b)"
proof -
  define i where "i = nat ((a - 0x100000) div 4096)"
  define n where "n = nat ((b - a) div 4096)"
  have d: "4096 dvd a - 0x100000" "4096 dvd b - a"
    by (rule dvd_diff [OF mod_0_imp_dvd [OF assms(5)]], simp)
      (rule dvd_diff [OF mod_0_imp_dvd [OF assms(6)] mod_0_imp_dvd [OF assms(5)]])
  have i: "a = 0x100000 + 4096 * int i" using d(1) assms by (auto simp: i_def elim!: dvdE)
  have n: "b = a + 4096 * int n" using d(2) assms by (auto simp: n_def elim!: dvdE)
  have pj: "uint (page_addr j) = 4096 * int j + 0x100000"
  proof -
    have "uint (page_addr j) = int (unat (page_addr j))" by (rule uint_nat)
    also have "\<dots> = int (4096 * j + 0x100000)" unfolding unat_page_addr [OF assms(4)] ..
    finally show ?thesis by simp
  qed
  have hm: "uint (of_int b :: u32) = b" using assms by (simp add: uint_word_of_int mod_pos_pos_trivial)
  have eq: "mem_init a b s = fold (\<lambda>k. set_map (i + k) 0) [0..<n] (s\<lparr>HIGH_MEMORY := of_int b, mem_map := replicate PAGING_PAGES USED\<rparr>)"
    by (simp add: mem_init_def i_def n_def Let_def)
  have "mem_map (mem_init a b s) ! j = 0 \<longleftrightarrow> i \<le> j \<and> j < i + n"
    unfolding eq using assms(4) by simp
  also have "\<dots> \<longleftrightarrow> a \<le> uint (page_addr j) \<and> uint (page_addr j) < b"
    unfolding pj using i n by auto
  finally show ?thesis using hm unfolding mm_ok_def eq by simp
qed


text \<open>A machine of 16 MB whose main memory starts at 4 MB, with a page table in use at 2 MB.\<close>

definition boot_mm :: mm where
  "boot_mm = mem_init 0x400000 0x1000000
     (tty.extend boot_tty \<lparr>mem_map = replicate 3840 0, HIGH_MEMORY = 0, phys = (\<lambda>_. 0)\<rparr>)"

lemma boot_mm_map: "j < PAGING_PAGES \<Longrightarrow> mem_map boot_mm ! j = 0 \<longleftrightarrow> 768 \<le> j"
  and boot_mm_ok: "mm_ok boot_mm" and boot_mm_phys: "phys boot_mm a = 0"
proof -
  have eq: "boot_mm = fold (\<lambda>k. set_map (768 + k) 0) [0..<3072]
    ((tty.extend boot_tty \<lparr>mem_map = replicate 3840 0, HIGH_MEMORY = 0, phys = (\<lambda>_. 0)\<rparr>)
       \<lparr>HIGH_MEMORY := 0x1000000, mem_map := replicate PAGING_PAGES USED\<rparr>)"
    by (simp add: boot_mm_def mem_init_def Let_def)
  show "mem_map boot_mm ! j = 0 \<longleftrightarrow> 768 \<le> j" if "j < PAGING_PAGES"
    unfolding eq using that by simp
  show "mm_ok boot_mm" unfolding eq mm_ok_def by simp
  have "phys (fold (\<lambda>k. set_map (768 + k) 0) xs t) = phys t" for xs and t :: mm
    by (induction xs arbitrary: t) auto
  then show "phys boot_mm a = 0" unfolding eq by (simp add: tty.defs)
qed

theorem mem_init_correct_witness: "mm_ok (mem_init 0x400000 0x1000000 boot_mm)"
  using mem_init_correct [of "0x400000" "0x1000000" 0 boot_mm] by simp

lemma boot_get_free_page: "fst (get_free_page boot_mm) \<noteq> 0"
  using boot_mm_ok
proof (cases rule: get_free_page_cases)
  case none
  then show ?thesis using boot_mm_map [of 800] by simp
qed simp

theorem get_free_page_correct_witness:
  "MAP_NR (fst (get_free_page boot_mm)) = 3839"
proof -
  obtain page s' where g: "get_free_page boot_mm = (page, s')" by fastforce
  have "\<exists>i < PAGING_PAGES. mem_map boot_mm ! i = 0" using boot_mm_map [of 800] by (intro exI [of _ 800]) simp
  with get_free_page_correct [OF boot_mm_ok g] obtain i where "i < PAGING_PAGES"
    "\<forall>j. i < j \<and> j < PAGING_PAGES \<longrightarrow> mem_map boot_mm ! j \<noteq> 0" "MAP_NR page = i"
    by (auto simp del: One_nat_def)
  moreover from this have "i = 3839" using boot_mm_map [of 3839] by (cases "i < 3839") auto
  ultimately show ?thesis using g by simp
qed

theorem free_page_inverse_witness:
  "\<exists>s2. free_page (fst (get_free_page boot_mm)) (snd (get_free_page boot_mm)) = Some s2 \<and> mem_map s2 = mem_map boot_mm"
proof -
  have "HIGH_MEMORY boot_mm = 0x1000000"
    unfolding boot_mm_def mem_init_def Let_def by simp
  moreover have "fst (get_free_page boot_mm) < 0x1000000"
    using boot_mm_ok
  proof (cases rule: get_free_page_cases)
    case (some i)
    then show ?thesis using unat_page_addr [of i] by (simp add: word_less_nat_alt)
  qed simp
  ultimately show ?thesis using free_page_inverse [OF boot_mm_ok prod.collapse [symmetric] boot_get_free_page] by auto
qed


text \<open>A process at 64 MB whose page table, at 2 MB, maps one shared frame.\<close>

definition fork_mm :: mm where
  "fork_mm = set_long 0x40 0x200007 (set_long 0x200000 0x22C005 boot_mm)"

lemma fork_mm_phys: "phys fork_mm a = (if a = 16 then 0x200007 else if a = 0x80000 then 0x22C005 else 0)"
  by (simp add: fork_mm_def set_long_def boot_mm_phys)

lemma fork_mm_map: "mem_map fork_mm = mem_map boot_mm"
  by (simp add: fork_mm_def)

lemma fork_mm_ok: "mm_ok fork_mm"
  using boot_mm_ok by (simp add: mm_ok_def fork_mm_map)

lemma fork_mm_free: "i < PAGING_PAGES \<Longrightarrow> mem_map fork_mm ! i = 0 \<longleftrightarrow> 768 \<le> i"
  by (simp add: fork_mm_map boot_mm_map)

theorem un_wp_page_correct_witness:
  "maps 0x200000 0x22C000 fork_mm
   \<and> (\<exists>s'. un_wp_page 0x200000 fork_mm = Some s' \<and> mem_long 0x200000 s' AND 2 \<noteq> 0)"
proof -
  have "MAP_NR 0x22C000 = 300" by (simp add: MAP_NR_nat)
  moreover have "mem_map fork_mm ! 300 \<noteq> 0" using fork_mm_free [of 300] by simp
  ultimately have m: "maps 0x200000 0x22C000 fork_mm"
    unfolding maps_def
    by (auto simp: fork_mm_phys mem_long_def in_page_def unat_page_addr fork_mm_free)
  have "\<exists>i < PAGING_PAGES. mem_map fork_mm ! i = 0" using fork_mm_free [of 800] by (intro exI [of _ 800]) simp
  with un_wp_page_correct [OF fork_mm_ok m] m show ?thesis
    by (auto simp: Let_def split: option.splits)
qed

lemma fork_entry: "k < 1024 \<Longrightarrow> entry_of 0x200000 k fork_mm = (if k = 0 then 0x22C005 else 0)"
proof -
  assume k: "k < 1024"
  have "table_at 0x200000 0x80000" by (simp add: table_at_def)
  from entry_index [OF this k] show ?thesis by (simp add: entry_of_def mem_long_def fork_mm_phys)
qed

lemma fork_parent_table: "parent_table 0x200000 0x80000 fork_mm"
proof -
  have nr: "MAP_NR 0x22C005 = 300" by (simp add: MAP_NR_nat)
  have used: "mem_map fork_mm ! 300 \<noteq> 0" using fork_mm_free [of 300] by simp
  have "(0x22C005 :: u32) AND NOT 2 = 0x22C005" by simp
  then show ?thesis
    using used nr by (auto simp: parent_table_def table_at_def fork_entry shared_entry_def fork_mm_free)
qed

theorem copy_page_tables_shares_witness:
  "\<exists>s' n. copy_page_tables 0x4000000 0x8000000 4096 fork_mm = Some (0, s') \<and> entry_of (page_addr n) 0 s' = 0x22C005"
proof -
  have dirs: "pg_dir_entry 0x4000000 = 0x40" "pg_dir_entry 0x8000000 = 0x80" by (simp_all add: pg_dir_entry_def)
  have ft: "0x200000 = PAGE_MASK AND mem_long (pg_dir_entry 0x4000000) fork_mm"
    by (simp add: dirs mem_long_def fork_mm_phys)
  have nf: "\<not> (\<forall>i < PAGING_PAGES. mem_map fork_mm ! i \<noteq> 0)"
    using fork_mm_free [of 800] by (auto intro: exI [of _ 800])
  have sides: "(0x4000000 :: u32) AND 0x3fffff = 0" "(0x8000000 :: u32) AND 0x3fffff = 0" "(0x4000000 :: u32) \<noteq> 0"
    "unat (drop_bit 22 (4096 + 0x3fffff :: u32)) = 1"
    "mem_long (pg_dir_entry 0x8000000) fork_mm AND 1 = 0" "mem_long (pg_dir_entry 0x4000000) fork_mm AND 1 \<noteq> 0"
    "pg_dir_entry 0x4000000 \<noteq> pg_dir_entry 0x8000000"
    by (simp_all add: dirs mem_long_def fork_mm_phys)
  note T = copy_page_tables_shares [OF fork_mm_ok sides ft fork_parent_table, unfolded if_not_P [OF nf]]
  obtain r s' where eq: "copy_page_tables 0x4000000 0x8000000 4096 fork_mm = Some (r, s')"
    using T by (cases "copy_page_tables 0x4000000 0x8000000 4096 fork_mm") auto
  from T [unfolded eq option.case prod.case] obtain n where "r = 0"
    "\<forall>k < 1024. entry_of (page_addr n) k s' = (if 1 AND entry_of 0x200000 k fork_mm = 0 then 0 else entry_of 0x200000 k fork_mm AND NOT 2)"
    by blast
  then show ?thesis using eq fork_entry [of 0] by (intro exI [of _ s'] exI [of _ n]) simp
qed

end
