(* ===== verification/Blk.thy ===== *)
theory Blk
  imports Memory Chain "HOL-Library.Product_Lexorder"
begin

text \<open>
  \<open>kernel/blk_drv/ll_rw_blk.c\<close>, \<open>blk.h\<close> and the RAM disk (\<open>ramdisk.c\<close>): requests, the elevator that
  orders them, and the driver that serves them at once. A \<open>struct buffer_head *\<close> is an index into the
  buffer heads from \<open>start_buffer\<close> on, its \<open>b_data\<close> the 1024 bytes the pointer of that name points to;
  the pointer \<open>buffer\<close> of a request is a buffer head and an offset. Requests are indices into
  \<open>request[32]\<close>; queues are indexed by the major device number.

  The parameter \<open>io\<close> holds what the block layer calls and does not contain: \<open>wait_env\<close> is what runs
  while a task sleeps, \<open>start_request\<close> the call of a device's \<open>request_fn\<close>, \<open>floppy_change\<close> the
  test of the drive's disk-change line, and \<open>write_inodes\<close> the call of \<open>sync_inodes()\<close> that
  \<open>sync_dev\<close> makes (\<open>Inode\<close> gives it its value; the C functions are mutually recursive there).
\<close>

subsection \<open>State\<close>

abbreviation (input) NR_BLK_DEV :: nat where "NR_BLK_DEV \<equiv> 7"
abbreviation (input) NR_REQUEST :: nat where "NR_REQUEST \<equiv> 32"
abbreviation (input) READ :: int where "READ \<equiv> 0"
abbreviation (input) WRITE :: int where "WRITE \<equiv> 1"
abbreviation (input) READA :: int where "READA \<equiv> 2"
abbreviation (input) WRITEA :: int where "WRITEA \<equiv> 3"
abbreviation (input) BLOCK_SIZE :: nat where "BLOCK_SIZE \<equiv> 1024"

record buffer_head =
  b_data :: "u8 list"
  b_blocknr :: u32
  b_dev :: u16
  b_uptodate :: bool
  b_dirt :: bool
  b_count :: u8
  b_lock :: bool
  b_wait :: "nat option"
  b_prev :: "nat option"
  b_next :: "nat option"
  b_prev_free :: "nat option"
  b_next_free :: "nat option"

record request =
  r_dev :: int
  r_cmd :: int
  r_errors :: int
  r_sector :: u32
  r_nr_sectors :: u32
  r_buffer :: "nat \<times> nat"
  r_waiting :: "nat option"
  r_bh :: "nat option"
  r_next :: "nat option"

datatype request_handler = do_rd | do_fd | do_hd

record blk = mm +
  start_buffer :: u32
  buffers :: "nat \<Rightarrow> buffer_head"
  request :: "nat \<Rightarrow> request"
  wait_for_request :: "nat option"
  request_fn :: "nat \<Rightarrow> request_handler option"
  current_request :: "nat \<Rightarrow> nat option"
  rd_start :: u32
  rd_length :: int

record 's io =
  wait_env :: "'s environment"
  start_request :: "nat \<Rightarrow> 's \<Rightarrow> 's option"
  floppy_change :: "int \<Rightarrow> 's \<Rightarrow> (bool \<times> 's) option"
  write_inodes :: "'s \<Rightarrow> 's option"

definition MAJOR :: "int \<Rightarrow> nat" where "MAJOR a = unat (drop_bit 8 (of_int a :: u32))"
definition MINOR :: "int \<Rightarrow> int" where "MINOR a = a AND 0xff"

definition update_bh :: "nat \<Rightarrow> (buffer_head \<Rightarrow> buffer_head) \<Rightarrow> 'a blk_scheme \<Rightarrow> 'a blk_scheme" where
  "update_bh bh f s = s\<lparr>buffers := (buffers s)(bh := f (buffers s bh))\<rparr>"

definition update_request :: "nat \<Rightarrow> (request \<Rightarrow> request) \<Rightarrow> 'a blk_scheme \<Rightarrow> 'a blk_scheme" where
  "update_request r f s = s\<lparr>request := (request s)(r := f (request s r))\<rparr>"

definition set_current :: "nat \<Rightarrow> nat option \<Rightarrow> 'a blk_scheme \<Rightarrow> 'a blk_scheme" where
  "set_current major r s = s\<lparr>current_request := (current_request s)(major := r)\<rparr>"

definition buffer_queue :: "nat \<Rightarrow> 'a blk_scheme wait_queue" where
  "buffer_queue bh = (\<lambda>s. b_wait (buffers s bh), \<lambda>v s. update_bh bh (b_wait_update (\<lambda>_. v)) s)"

definition request_queue :: "'a blk_scheme wait_queue" where
  "request_queue = (\<lambda>s. wait_for_request s, \<lambda>v s. s\<lparr>wait_for_request := v\<rparr>)"

definition waiting_queue :: "nat \<Rightarrow> 'a blk_scheme wait_queue" where
  "waiting_queue r = (\<lambda>s. r_waiting (request s r), \<lambda>v s. update_request r (r_waiting_update (\<lambda>_. v)) s)"

subsection \<open>Locking a buffer\<close>

partial_function (option) wait_on_buffer ::
  "'a blk_scheme io \<Rightarrow> nat \<Rightarrow> 'a blk_scheme \<Rightarrow> 'a blk_scheme option" where
  "wait_on_buffer io bh s =
     (if b_lock (buffers s bh)
      then do { s \<leftarrow> sleep_on (wait_env io) (buffer_queue bh) s; wait_on_buffer io bh s }
      else Some s)"

definition lock_buffer :: "'a blk_scheme io \<Rightarrow> nat \<Rightarrow> 'a blk_scheme \<Rightarrow> 'a blk_scheme option" where
  "lock_buffer io bh s =
     do { s \<leftarrow> wait_on_buffer io bh s; Some (update_bh bh (b_lock_update (\<lambda>_. True)) s) }"

definition unlock_buffer :: "nat \<Rightarrow> 'a blk_scheme \<Rightarrow> 'a blk_scheme" where
  "unlock_buffer bh s = wake_up (buffer_queue bh) (update_bh bh (b_lock_update (\<lambda>_. False)) s)"

subsection \<open>The elevator\<close>

definition IN_ORDER :: "request \<Rightarrow> request \<Rightarrow> bool" where
  "IN_ORDER s1 s2 \<longleftrightarrow> r_cmd s1 < r_cmd s2
     \<or> r_cmd s1 = r_cmd s2 \<and> (r_dev s1 < r_dev s2 \<or> r_dev s1 = r_dev s2 \<and> r_sector s1 < r_sector s2)"

text \<open>The loop that looks for the request after which the new one goes.\<close>

partial_function (option) find_place :: "nat \<Rightarrow> nat \<Rightarrow> 'a blk_scheme \<Rightarrow> nat option" where
  "find_place req tmp s =
     (case r_next (request s tmp) of
        None \<Rightarrow> Some tmp
      | Some nxt \<Rightarrow>
          if (IN_ORDER (request s tmp) (request s req) \<or> \<not> IN_ORDER (request s tmp) (request s nxt))
             \<and> IN_ORDER (request s req) (request s nxt)
          then Some tmp else find_place req nxt s)"

definition add_request :: "'a blk_scheme io \<Rightarrow> nat \<Rightarrow> nat \<Rightarrow> 'a blk_scheme \<Rightarrow> 'a blk_scheme option" where
  "add_request io major req s =
     (let s = update_request req (r_next_update (\<lambda>_. None)) s;
          s = (case r_bh (request s req) of None \<Rightarrow> s | Some bh \<Rightarrow> update_bh bh (b_dirt_update (\<lambda>_. False)) s)
      in case current_request s major of
           None \<Rightarrow> start_request io major (set_current major (Some req) s)
         | Some tmp \<Rightarrow>
             do { tmp \<leftarrow> find_place req tmp s;
                  let s = update_request req (r_next_update (\<lambda>_. r_next (request s tmp))) s;
                  Some (update_request tmp (r_next_update (\<lambda>_. Some req)) s) })"

definition free_request :: "int \<Rightarrow> 'a blk_scheme \<Rightarrow> nat option" where
  "free_request rw s =
     List.find (\<lambda>i. r_dev (request s i) < 0) (rev [0..<(if rw = READ then NR_REQUEST else (NR_REQUEST * 2) div 3)])"

definition fill_request :: "int \<Rightarrow> nat \<Rightarrow> nat \<Rightarrow> 'a blk_scheme \<Rightarrow> 'a blk_scheme" where
  "fill_request rw bh req s = update_request req (\<lambda>_.
     \<lparr>r_dev = uint (b_dev (buffers s bh)), r_cmd = rw, r_errors = 0,
      r_sector = push_bit 1 (b_blocknr (buffers s bh)), r_nr_sectors = 2, r_buffer = (bh, 0),
      r_waiting = None, r_bh = Some bh, r_next = None\<rparr>) s"

text \<open>\<open>repeat:\<close> finds a request, sleeping until there is one unless this is read-ahead.\<close>

partial_function (option) get_request ::
  "'a blk_scheme io \<Rightarrow> nat \<Rightarrow> int \<Rightarrow> bool \<Rightarrow> nat \<Rightarrow> 'a blk_scheme \<Rightarrow> 'a blk_scheme option" where
  "get_request io major rw rw_ahead bh s =
     (case free_request rw s of
        None \<Rightarrow>
          if rw_ahead then Some (unlock_buffer bh s)
          else do { s \<leftarrow> sleep_on (wait_env io) request_queue s; get_request io major rw rw_ahead bh s }
      | Some req \<Rightarrow> add_request io major req (fill_request rw bh req s))"

definition make_request ::
  "'a blk_scheme io \<Rightarrow> nat \<Rightarrow> int \<Rightarrow> nat \<Rightarrow> 'a blk_scheme \<Rightarrow> 'a blk_scheme option" where
  "make_request io major rw bh s =
     (let rw_ahead = (rw = READA \<or> rw = WRITEA)
      in if rw_ahead \<and> b_lock (buffers s bh) then Some s
      else
        let rw = (if rw = READA then READ else if rw = WRITEA then WRITE else rw)
        in if rw \<noteq> READ \<and> rw \<noteq> WRITE then None
        else do {
          s \<leftarrow> lock_buffer io bh s;
          if rw = WRITE \<and> \<not> b_dirt (buffers s bh) \<or> rw = READ \<and> b_uptodate (buffers s bh)
          then Some (unlock_buffer bh s)
          else get_request io major rw rw_ahead bh s })"

definition ll_rw_block :: "'a blk_scheme io \<Rightarrow> int \<Rightarrow> nat \<Rightarrow> 'a blk_scheme \<Rightarrow> 'a blk_scheme option" where
  "ll_rw_block io rw bh s =
     (let major = MAJOR (uint (b_dev (buffers s bh)))
      in if major \<ge> NR_BLK_DEV \<or> request_fn s major = None then Some s
         else make_request io major rw bh s)"

definition blk_dev_init :: "'a blk_scheme \<Rightarrow> 'a blk_scheme" where
  "blk_dev_init s = fold (\<lambda>i. update_request i (\<lambda>r. r\<lparr>r_dev := -1, r_next := None\<rparr>)) [0..<NR_REQUEST] s"

subsection \<open>Finishing a request\<close>

text \<open>\<open>DEVICE_OFF\<close> starts the motor timer of a floppy and does nothing for other devices.\<close>

definition DEVICE_OFF :: "nat \<Rightarrow> int \<Rightarrow> 'a blk_scheme \<Rightarrow> 'a blk_scheme" where
  "DEVICE_OFF major dev s = (if major = 2 then floppy_off (nat (dev AND 3)) s else s)"

definition end_request :: "nat \<Rightarrow> bool \<Rightarrow> 'a blk_scheme \<Rightarrow> 'a blk_scheme option" where
  "end_request major uptodate s =
     do { r \<leftarrow> current_request s major;
          let s = DEVICE_OFF major (r_dev (request s r)) s;
          let s = (case r_bh (request s r) of
                     None \<Rightarrow> s
                   | Some bh \<Rightarrow> unlock_buffer bh (update_bh bh (b_uptodate_update (\<lambda>_. uptodate)) s));
          let s = wake_up (waiting_queue r) s;
          let s = wake_up request_queue s;
          let s = update_request r (r_dev_update (\<lambda>_. -1)) s;
          Some (set_current major (r_next (request s r)) s) }"

text \<open>\<open>INIT_REQUEST\<close> after its test for an empty queue: panics on a damaged one.\<close>

definition init_request_ok :: "nat \<Rightarrow> nat \<Rightarrow> 'a blk_scheme \<Rightarrow> bool" where
  "init_request_ok major r s \<longleftrightarrow> MAJOR (r_dev (request s r)) = major
     \<and> (case r_bh (request s r) of None \<Rightarrow> True | Some bh \<Rightarrow> b_lock (buffers s bh))"

subsection \<open>The RAM disk\<close>

definition read_mem :: "u32 \<Rightarrow> nat \<Rightarrow> 'a mm_scheme \<Rightarrow> u8 list" where
  "read_mem a n s = map (\<lambda>j. mem_byte (a + of_nat j) s) [0..<n]"

fun write_mem :: "u8 list \<Rightarrow> u32 \<Rightarrow> 'a mm_scheme \<Rightarrow> 'a mm_scheme" where
  "write_mem [] a s = s"
| "write_mem (c # cs) a s = write_mem cs (a + 1) (set_byte a c s)"

text \<open>\<open>memcpy\<close> into the buffer of a request, at its offset, and out of it.\<close>

definition to_buffer :: "nat \<times> nat \<Rightarrow> u8 list \<Rightarrow> 'a blk_scheme \<Rightarrow> 'a blk_scheme" where
  "to_buffer p cs s = update_bh (fst p)
     (\<lambda>b. b\<lparr>b_data := take (snd p) (b_data b) @ cs @ drop (snd p + length cs) (b_data b)\<rparr>) s"

definition from_buffer :: "nat \<times> nat \<Rightarrow> nat \<Rightarrow> 'a blk_scheme \<Rightarrow> u8 list" where
  "from_buffer p n s = take n (drop (snd p) (b_data (buffers s (fst p))))"

definition rd_serve :: "nat \<Rightarrow> 'a blk_scheme \<Rightarrow> 'a blk_scheme option" where
  "rd_serve r s =
     (let req = request s r;
          addr = rd_start s + push_bit 9 (r_sector req);
          len = push_bit 9 (r_nr_sectors req)
      in if MINOR (r_dev req) \<noteq> 1 \<or> addr + len > rd_start s + of_int (rd_length s)
         then end_request 1 False s
         else if r_cmd req = WRITE
         then end_request 1 True (write_mem (from_buffer (r_buffer req) (unat len) s) addr s)
         else if r_cmd req = READ
         then end_request 1 True (to_buffer (r_buffer req) (read_mem addr (unat len) s) s)
         else None)"

partial_function (option) do_rd_request :: "'a blk_scheme \<Rightarrow> 'a blk_scheme option" where
  "do_rd_request s =
     (case current_request s 1 of
        None \<Rightarrow> Some s
      | Some r \<Rightarrow>
          if init_request_ok 1 r s then do { s \<leftarrow> rd_serve r s; do_rd_request s } else None)"

definition rd_init :: "u32 \<Rightarrow> int \<Rightarrow> 'a blk_scheme \<Rightarrow> int \<times> 'a blk_scheme" where
  "rd_init mem_start len s =
     (let s = s\<lparr>request_fn := (request_fn s)(1 := Some do_rd)\<rparr>;
          s = s\<lparr>rd_start := mem_start, rd_length := len\<rparr>
      in (len, write_mem (replicate (nat len) 0) mem_start s))"

interpretation buffer_queues: wait_queue "fst (buffer_queue bh)" "snd (buffer_queue bh)"
  by unfold_locales (simp_all add: buffer_queue_def update_bh_def)

interpretation request_waiters: wait_queue "fst request_queue" "snd request_queue"
  by unfold_locales (simp_all add: request_queue_def)

interpretation request_owner: wait_queue "fst (waiting_queue r)" "snd (waiting_queue r)"
  by unfold_locales (simp_all add: waiting_queue_def update_request_def)

subsection \<open>The elevator keeps at most two sweeps\<close>

definition req_key :: "request \<Rightarrow> int \<times> int \<times> u32" where
  "req_key r = (r_cmd r, r_dev r, r_sector r)"

lemma IN_ORDER_key: "IN_ORDER r1 r2 \<longleftrightarrow> req_key r1 < req_key r2"
  by (auto simp: IN_ORDER_def req_key_def)

definition key_at :: "'a blk_scheme \<Rightarrow> nat \<Rightarrow> int \<times> int \<times> u32" where
  "key_at s i = req_key (request s i)"

definition next_request :: "'a blk_scheme \<Rightarrow> nat \<Rightarrow> nat option" where
  "next_request s i = r_next (request s i)"

text \<open>Where the loop puts a request in a list, and the number of places where the order goes back.\<close>

fun place :: "('n \<Rightarrow> 'k::linorder) \<Rightarrow> 'n \<Rightarrow> 'n list \<Rightarrow> 'n list" where
  "place k r [] = [r]"
| "place k r [t] = [t, r]"
| "place k r (t # u # us) =
     (if (k t < k r \<or> \<not> k t < k u) \<and> k r < k u then t # r # u # us else t # place k r (u # us))"

fun descents :: "'k::linorder list \<Rightarrow> nat" where
  "descents (x # y # zs) = (if x < y then 0 else 1) + descents (y # zs)"
| "descents _ = 0"

lemma set_place: "set (place k r q) = insert r (set q)"
  by (induction k r q rule: place.induct) auto

lemma place_ne [simp]: "place k r q \<noteq> []"
  by (induction k r q rule: place.induct) auto

lemma hd_place: "q \<noteq> [] \<Longrightarrow> \<exists>zs. place k r q = hd q # zs \<and> zs \<noteq> []"
  by (cases "(k, r, q)" rule: place.cases) auto

lemma place_later:
  "\<not> ((k t < k r \<or> \<not> k t < k u) \<and> k r < k u) \<Longrightarrow> place k r (t # u # us) = t # place k r (u # us)"
  by (simp only: place.simps if_False)

lemma descents_Cons_place:
  "descents (map k (t # place k r (u # us))) = (if k t < k u then 0 else 1) + descents (map k (place k r (u # us)))"
  using hd_place [of "u # us" k r] by auto

lemma place_ascending:
  "descents (map k q) = 0 \<Longrightarrow> k r \<notin> k ` set q \<Longrightarrow> q \<noteq> [] \<Longrightarrow>
     descents (map k (place k r q)) \<le> (if k (hd q) < k r then 0 else 1)"
proof (induction k r q rule: place.induct)
  case (3 k r t u us)
  then have tu: "k t < k u" "descents (map k (u # us)) = 0" by (auto split: if_splits)
  show ?case
  proof (cases "(k t < k r \<or> \<not> k t < k u) \<and> k r < k u")
    case True
    with tu show ?thesis by simp
  next
    case False
    then have "descents (map k (place k r (u # us))) \<le> (if k u < k r then 0 else 1)"
      using 3 tu by auto
    moreover have "k t < k r \<Longrightarrow> k u < k r" using False tu "3.prems"(2) by (auto simp: not_less)
    moreover have "k u < k r \<Longrightarrow> k t < k r" by (rule less_trans [OF tu(1)])
    moreover have "place k r (t # u # us) = t # place k r (u # us)" using False by (rule place_later)
    ultimately show ?thesis using tu(1) by (simp only: descents_Cons_place if_True add_0 list.sel) (auto split: if_splits)
  qed
qed auto

lemma place_descents:
  "descents (map k q) \<le> 1 \<Longrightarrow> k r \<notin> k ` set q \<Longrightarrow> descents (map k (place k r q)) \<le> 1"
proof (induction k r q rule: place.induct)
  case (3 k r t u us)
  show ?case
  proof (cases "(k t < k r \<or> \<not> k t < k u) \<and> k r < k u")
    case True
    with 3 show ?thesis by (auto split: if_splits)
  next
    case False
    show ?thesis
    proof (cases "k t < k u")
      case True
      then have "descents (map k (place k r (u # us))) \<le> 1" using 3 False by auto
      moreover have "place k r (t # u # us) = t # place k r (u # us)" using False by (rule place_later)
      ultimately show ?thesis using True by (simp only: descents_Cons_place if_True add_0)
    next
      case nlt: False
      then have "descents (map k (u # us)) = 0" using "3.prems"(1) by simp
      moreover have "k u < k r" using nlt False "3.prems"(2) by (auto simp: not_less le_less)
      ultimately have "descents (map k (place k r (u # us))) = 0" using place_ascending [of k "u # us" r] "3.prems" by auto
      moreover have "place k r (t # u # us) = t # place k r (u # us)" using False by (rule place_later)
      ultimately show ?thesis using nlt by (simp only: descents_Cons_place if_False add_0_right order_refl)
    qed
  qed
qed auto

lemma find_place_spec:
  assumes "chain (next_request s) (Some t) (t # ts)"
  shows "\<exists>p xs ys. find_place r t s = Some p \<and> t # ts = xs @ p # ys \<and> place (key_at s) r (t # ts) = xs @ p # r # ys"
  using assms
proof (induction ts arbitrary: t)
  case Nil
  then show ?case by (subst find_place.simps) (auto simp: next_request_def intro: exI [of _ "[]"])
next
  case (Cons u us)
  then have nx': "next_request s t = Some u" and ch: "chain (next_request s) (Some u) (u # us)" by auto
  from nx' have nx: "r_next (request s t) = Some u" by (simp add: next_request_def)
  let ?c = "(key_at s t < key_at s r \<or> \<not> key_at s t < key_at s u) \<and> key_at s r < key_at s u"
  have step: "find_place r t s = (if ?c then Some t else find_place r u s)"
    by (subst find_place.simps) (simp add: nx IN_ORDER_key key_at_def)
  show ?case
  proof (cases ?c)
    case True
    then show ?thesis unfolding step by (auto intro: exI [of _ "[]"])
  next
    case False
    from Cons.IH [OF ch] obtain p xs ys where "find_place r u s = Some p" "u # us = xs @ p # ys"
      "place (key_at s) r (u # us) = xs @ p # r # ys" by blast
    then have "place (key_at s) r (t # u # us) = (t # xs) @ p # r # ys" "t # u # us = (t # xs) @ p # ys"
      using place_later [of "key_at s" t r u us, OF False] by simp_all
    then show ?thesis unfolding step using False \<open>find_place r u s = Some p\<close> by metis
  qed
qed

lemma update_request_fields [simp]:
  "current_request (update_request r f s) = current_request s" "buffers (update_request r f s) = buffers s"
  "request (update_request r f s) i = (if i = r then f (request s r) else request s i)"
  by (simp_all add: update_request_def)

lemma update_bh_fields [simp]:
  "request (update_bh b g s) = request s" "current_request (update_bh b g s) = current_request s"
  "buffers (update_bh b g s) i = (if i = b then g (buffers s b) else buffers s i)"
  by (simp_all add: update_bh_def)

text \<open>
  C37. The elevator: adding a request to a busy queue returns, inserts it where \<open>place\<close> says, after the
  request being served, loses none, and keeps the queue in at most two ascending sweeps (reads
  before writes, then by device and sector), so a request waits at most for one sweep over the disk.
\<close>

theorem add_request_elevator:
  assumes "current_request s major = Some t" and "chain (next_request s) (Some t) (t # ts)" and "req \<notin> set (t # ts)"
    and "key_at s req \<notin> key_at s ` set (t # ts)" and "descents (map (key_at s) (t # ts)) \<le> 1"
  shows "\<exists>s'. add_request io major req s = Some s'
    \<and> chain (next_request s') (current_request s' major) (place (key_at s) req (t # ts))
    \<and> set (place (key_at s) req (t # ts)) = insert req (set (t # ts)) \<and> hd (place (key_at s) req (t # ts)) = t
    \<and> key_at s' = key_at s \<and> descents (map (key_at s') (place (key_at s) req (t # ts))) \<le> 1"
proof -
  define s1 where "s1 = (let s = update_request req (r_next_update (\<lambda>_. None)) s in
     case r_bh (request s req) of None \<Rightarrow> s | Some bh \<Rightarrow> update_bh bh (b_dirt_update (\<lambda>_. False)) s)"
  have s1: "current_request s1 = current_request s" "key_at s1 = key_at s"
    "next_request s1 = (next_request s)(req := None)"
    by (auto simp: s1_def Let_def key_at_def req_key_def next_request_def fun_eq_iff split: option.split)
  have ch: "chain (next_request s1) (Some t) (t # ts)"
  proof -
    have "chain (next_request s1) (Some t) (t # ts) = chain (next_request s) (Some t) (t # ts)"
      unfolding s1(3) using assms(3) by (rule chain_update)
    then show ?thesis using assms(2) by simp
  qed
  from find_place_spec [OF ch, of req] obtain p xs ys where
    p: "find_place req t s1 = Some p" "t # ts = xs @ p # ys" "place (key_at s1) req (t # ts) = xs @ p # req # ys" by blast
  define s' where "s' = update_request p (r_next_update (\<lambda>_. Some req))
    (update_request req (r_next_update (\<lambda>_. r_next (request s1 p))) s1)"
  have "add_request io major req s = (case current_request s1 major of
           None \<Rightarrow> start_request io major (set_current major (Some req) s1)
         | Some tmp \<Rightarrow>
             do { tmp \<leftarrow> find_place req tmp s1;
                  let s = update_request req (r_next_update (\<lambda>_. r_next (request s1 tmp))) s1;
                  Some (update_request tmp (r_next_update (\<lambda>_. Some req)) s) })"
    unfolding add_request_def s1_def Let_def ..
  then have "add_request io major req s = Some s'" using assms(1) p(1) s1(1) by (simp add: s'_def)
  moreover have "p \<noteq> req" using p(2) assms(3) by auto
  then have "next_request s' = (next_request s1)(req := next_request s1 p, p := Some req)"
    by (auto simp: s'_def next_request_def fun_eq_iff)
  then have "chain (next_request s') (Some t) (xs @ p # req # ys)"
    using chain_insert_after [of "next_request s1" "Some t" xs p ys req] ch p(2) assms(3) by simp
  moreover have "current_request s' = current_request s" by (simp add: s'_def s1)
  moreover have "key_at s' = key_at s"
    using s1(2) by (auto simp: s'_def key_at_def req_key_def fun_eq_iff)
  moreover have "hd (place (key_at s) req (t # ts)) = t" using hd_place [of "t # ts" "key_at s" req] by auto
  ultimately show ?thesis
    using p(3) assms(1) place_descents [OF assms(5, 4)] set_place [of "key_at s" req "t # ts"] by (simp add: s1)
qed

subsection \<open>Bytes of physical memory\<close>

lemma ff_mask: "(0xff :: u32) = mask 8"
  by (simp add: mask_eq_exp_minus_1)

lemma byte_of_word:
  fixes w :: u32 and v :: u8
  assumes "r < 4" "r' < 4"
  shows "(ucast (drop_bit (8 * r) ((w AND NOT (push_bit (8 * r') 0xff)) OR push_bit (8 * r') (ucast v))) :: u8)
    = (if r = r' then v else ucast (drop_bit (8 * r) w))"
proof (rule bit_word_eqI)
  fix n assume "n < LENGTH(8)"
  then have n: "n < 8" by simp
  have v: "\<not> bit v (8 + n)" "\<not> bit v (16 + n)" "\<not> bit v (24 + n)"
    using bit_imp_le_length [of v] by fastforce+
  have "r = 0 \<or> r = 1 \<or> r = 2 \<or> r = 3" "r' = 0 \<or> r' = 1 \<or> r' = 2 \<or> r' = 3" using assms by arith+
  then show "bit (ucast (drop_bit (8 * r) ((w AND NOT (push_bit (8 * r') 0xff)) OR push_bit (8 * r') (ucast v))) :: u8) n
    = bit (if r = r' then v else ucast (drop_bit (8 * r) w)) n"
    using n v unfolding ff_mask by (elim disjE) (simp_all add: bit_simps)
qed

lemma mem_byte_set_byte [simp]: "mem_byte q (set_byte p v s) = (if q = p then v else mem_byte q s)"
proof (cases "unat q div 4 = unat p div 4")
  case True
  have "q = p \<longleftrightarrow> unat q mod 4 = unat p mod 4"
    using True by (metis mult_div_mod_eq word_unat_eq_iff)
  then show ?thesis
    using byte_of_word [of "unat q mod 4" "unat p mod 4"] True by (simp add: mem_byte_def set_byte_def Let_def)
next
  case False
  then have "q \<noteq> p" by auto
  with False show ?thesis by (simp add: mem_byte_def set_byte_def Let_def)
qed

lemma mem_byte_more [simp]:
  "mem_byte q (mm.truncate s) = mem_byte q s"
  by (simp add: mem_byte_def mm.defs)

lemma write_mem_phys: "mem_byte q (write_mem cs a s) = write_bytes cs a (\<lambda>p. mem_byte p s) q"
proof (induction cs arbitrary: a s)
  case (Cons c cs)
  have "(\<lambda>p. mem_byte p (set_byte a c s)) = (\<lambda>p. mem_byte p s)(a := c)" by auto
  with Cons show ?case by simp
qed simp

lemma read_mem_bytes: "read_mem a n s = read_bytes a n (\<lambda>p. mem_byte p s)"
  by (simp add: read_mem_def read_bytes_def)

lemma read_write_mem: "length cs < 2 ^ 32 \<Longrightarrow> read_mem a (length cs) (write_mem cs a s) = cs"
  by (simp add: read_mem_bytes write_mem_phys read_write_bytes)

lemma set_byte_frame: "\<exists>p. set_byte a c s = s\<lparr>phys := p\<rparr>"
  by (auto simp: set_byte_def Let_def)

lemma write_mem_frame: "\<exists>p. write_mem cs a s = s\<lparr>phys := p\<rparr>"
proof (induction cs arbitrary: a s)
  case Nil
  show ?case by (auto intro: exI [of _ "phys s"])
next
  case (Cons c cs)
  obtain p where p: "set_byte a c s = s\<lparr>phys := p\<rparr>" using set_byte_frame by blast
  show ?case using Cons.IH [of "a + 1" "s\<lparr>phys := p\<rparr>"] by (auto simp: p)
qed

subsection \<open>Requests to the RAM disk are served at once\<close>

lemma update_task_blk [frame_simps, simp]:
  "buffers (update_task p f s) = buffers s" "request (update_task p f s) = request s"
  "current_request (update_task p f s) = current_request s" "request_fn (update_task p f s) = request_fn s"
  "phys (update_task p f s) = phys s" "rd_start (update_task p f s) = rd_start s" "rd_length (update_task p f s) = rd_length s"
  "mem_map (update_task p f s) = mem_map s"
  by (simp_all add: update_task_def)

lemma update_bh_blk [frame_simps, simp]:
  "request_fn (update_bh b g s) = request_fn s" "phys (update_bh b g s) = phys s"
  "rd_start (update_bh b g s) = rd_start s" "rd_length (update_bh b g s) = rd_length s"
  by (simp_all add: update_bh_def)

lemma update_request_blk [frame_simps, simp]:
  "request_fn (update_request b h s) = request_fn s" "phys (update_request b h s) = phys s"
  "rd_start (update_request b h s) = rd_start s" "rd_length (update_request b h s) = rd_length s"
  by (simp_all add: update_request_def)

lemma wake_up_buffer [frame_simps, simp]:
  "request (wake_up (buffer_queue bh) s) = request s"
  "current_request (wake_up (buffer_queue bh) s) = current_request s"
  "request_fn (wake_up (buffer_queue bh) s) = request_fn s" "phys (wake_up (buffer_queue bh) s) = phys s"
  "rd_start (wake_up (buffer_queue bh) s) = rd_start s" "rd_length (wake_up (buffer_queue bh) s) = rd_length s"
  "buffers (wake_up (buffer_queue bh) s) = (buffers s)(bh := (buffers s bh)\<lparr>b_wait := None\<rparr>)"
  by (auto simp: wake_up_def buffer_queue_def set_state_def update_bh_def fun_eq_iff split: option.split)

lemma wake_up_request [frame_simps, simp]:
  "request (wake_up request_queue s) = request s" "current_request (wake_up request_queue s) = current_request s"
  "request_fn (wake_up request_queue s) = request_fn s" "phys (wake_up request_queue s) = phys s"
  "rd_start (wake_up request_queue s) = rd_start s" "rd_length (wake_up request_queue s) = rd_length s"
  "buffers (wake_up request_queue s) = buffers s"
  by (auto simp: wake_up_def request_queue_def set_state_def split: option.split)

lemma wake_up_waiting [frame_simps, simp]:
  "request (wake_up (waiting_queue r) s) = (request s)(r := (request s r)\<lparr>r_waiting := None\<rparr>)"
  "current_request (wake_up (waiting_queue r) s) = current_request s"
  "request_fn (wake_up (waiting_queue r) s) = request_fn s" "phys (wake_up (waiting_queue r) s) = phys s"
  "rd_start (wake_up (waiting_queue r) s) = rd_start s" "rd_length (wake_up (waiting_queue r) s) = rd_length s"
  "buffers (wake_up (waiting_queue r) s) = buffers s"
  by (auto simp: wake_up_def waiting_queue_def set_state_def update_request_def fun_eq_iff split: option.split)

lemma mem_byte_cong: "phys s = phys s' \<Longrightarrow> mem_byte p s = mem_byte p s'"
  by (simp add: mem_byte_def)

text \<open>
  What serving the only request of the RAM disk leaves: an unlocked buffer, a free request, an idle
  device, and everything else on the disk and in the cache as it was.
\<close>

definition rd_done :: "nat \<Rightarrow> nat \<Rightarrow> bool \<Rightarrow> 'a blk_scheme \<Rightarrow> 'a blk_scheme \<Rightarrow> bool" where
  "rd_done r bh u s s' \<longleftrightarrow>
     buffers s' = (buffers s)(bh := (buffers s bh)\<lparr>b_uptodate := u, b_lock := False, b_wait := None\<rparr>)
     \<and> (\<forall>i. i \<noteq> r \<longrightarrow> request s' i = request s i) \<and> r_dev (request s' r) = -1
     \<and> current_request s' = (current_request s)(1 := None)
     \<and> phys s' = phys s \<and> rd_start s' = rd_start s \<and> rd_length s' = rd_length s \<and> request_fn s' = request_fn s"

lemma end_request_rd:
  assumes "current_request s 1 = Some r" "r_bh (request s r) = Some bh" "r_next (request s r) = None"
  shows "\<exists>s'. end_request 1 u s = Some s' \<and> rd_done r bh u s s'"
  using assms
  by (simp add: end_request_def DEVICE_OFF_def unlock_buffer_def rd_done_def set_current_def fun_eq_iff)

lemma do_rd_request_one:
  assumes "current_request s 1 = Some r" and "r_bh (request s r) = Some bh" and "r_next (request s r) = None"
    and "init_request_ok 1 r s" and "rd_serve r s = end_request 1 u s1"
    and "current_request s1 = current_request s" and "request s1 = request s"
  shows "\<exists>s'. do_rd_request s = Some s' \<and> rd_done r bh u s1 s'"
proof -
  from end_request_rd [of s1 r bh u] assms obtain s' where s': "end_request 1 u s1 = Some s'" "rd_done r bh u s1 s'" by auto
  then have "current_request s' 1 = None" by (simp add: rd_done_def)
  then have "do_rd_request s' = Some s'" by (subst do_rd_request.simps) simp
  then show ?thesis using assms(1,4,5) s' by (subst do_rd_request.simps) simp
qed

text \<open>A block of the RAM disk, and a buffer ready for a request to it on an idle machine.\<close>

definition rd_addr :: "u32 \<Rightarrow> 'a blk_scheme \<Rightarrow> u32" where
  "rd_addr n s = rd_start s + push_bit 10 n"

definition rd_block :: "u32 \<Rightarrow> 'a blk_scheme \<Rightarrow> u8 list" where
  "rd_block n s = read_mem (rd_addr n s) BLOCK_SIZE s"

definition rd_ready :: "'a blk_scheme io \<Rightarrow> nat \<Rightarrow> 'a blk_scheme \<Rightarrow> bool" where
  "rd_ready io bh s \<longleftrightarrow> b_dev (buffers s bh) = 0x101 \<and> \<not> b_lock (buffers s bh) \<and> length (b_data (buffers s bh)) = BLOCK_SIZE
     \<and> request_fn s 1 \<noteq> None \<and> current_request s 1 = None \<and> start_request io 1 = do_rd_request
     \<and> (\<exists>i < 21. r_dev (request s i) < 0)
     \<and> 1024 * (uint (b_blocknr (buffers s bh)) + 1) \<le> rd_length s \<and> uint (rd_start s) + rd_length s < 2 ^ 32"

lemma free_request_exists:
  assumes "i < 21" "r_dev (request s i) < 0"
  shows "\<exists>r. free_request rw s = Some r"
proof (rule ccontr)
  assume "\<nexists>r. free_request rw s = Some r"
  then have "free_request rw s = None" by simp
  then show False using assms by (auto simp: free_request_def find_None_iff split: if_splits)
qed

lemma rd_request_range:
  assumes ready: "rd_ready io bh s" and n: "n = b_blocknr (buffers s bh)"
  shows "push_bit 9 (push_bit 1 n) = push_bit 10 n"
    and "\<not> rd_addr n s + push_bit 9 2 > rd_start s + of_int (rd_length s)"
proof -
  show "push_bit 9 (push_bit 1 n) = push_bit 10 n" by (simp add: push_bit_eq_mult)
  have len: "1024 * uint n + 1024 \<le> rd_length s" "uint (rd_start s) + rd_length s < 4294967296"
    using ready n by (auto simp: rd_ready_def)
  have a: "uint (push_bit 10 n) = 1024 * uint n"
  proof -
    have "0 \<le> uint n * 1024" "uint n * 1024 < 4294967296"
      using len uint_ge_0 [of "rd_start s"] uint_ge_0 [of n] by linarith+
    then show ?thesis by (simp add: push_bit_eq_mult uint_word_ariths mod_pos_pos_trivial)
  qed
  have "uint (rd_addr n s + push_bit 9 2) = uint (rd_start s) + 1024 * uint n + 1024"
    using len uint_ge_0 [of "rd_start s"] uint_ge_0 [of n] a
    by (simp add: rd_addr_def uint_word_ariths mod_pos_pos_trivial)
  moreover have "uint (rd_start s + of_int (rd_length s)) = uint (rd_start s) + rd_length s"
  proof -
    have "0 \<le> rd_length s" "rd_length s < 4294967296"
      using len uint_ge_0 [of "rd_start s"] uint_ge_0 [of n] by linarith+
    then have m: "rd_length s mod 4294967296 = rd_length s" by (rule mod_pos_pos_trivial)
    have "(uint (rd_start s) + rd_length s) mod 4294967296 = uint (rd_start s) + rd_length s"
      using len(2) uint_ge_0 [of "rd_start s"] \<open>0 \<le> rd_length s\<close> by (intro mod_pos_pos_trivial) linarith+
    then show ?thesis by (simp add: uint_word_ariths uint_word_of_int m)
  qed
  ultimately show "\<not> rd_addr n s + push_bit 9 2 > rd_start s + of_int (rd_length s)"
    using len by (simp add: word_less_def)
qed

lemma ll_rw_block_rd:
  assumes ready: "rd_ready io bh s" and rw: "rw = READ \<or> rw = WRITE"
    and need: "if rw = WRITE then b_dirt (buffers s bh) else \<not> b_uptodate (buffers s bh)"
    and n: "n = b_blocknr (buffers s bh)"
  obtains r s1 s' where "ll_rw_block io rw bh s = Some s'" and "rd_done r bh True s1 s'" and "r < 32"
    and "s1 = (let s0 = set_current 1 (Some r) (update_bh bh (\<lambda>b. b\<lparr>b_lock := True, b_dirt := False\<rparr>)
                    (fill_request rw bh r s))
               in if rw = WRITE then write_mem (b_data (buffers s bh)) (rd_addr n s) s0
                  else update_bh bh (\<lambda>b. b\<lparr>b_data := rd_block n s\<rparr>) s0)"
proof -
  have dev: "b_dev (buffers s bh) = 0x101" "\<not> b_lock (buffers s bh)" "length (b_data (buffers s bh)) = BLOCK_SIZE"
    "request_fn s 1 \<noteq> None" "current_request s 1 = None" "start_request io 1 = do_rd_request"
    using ready by (auto simp: rd_ready_def)
  from ready obtain i where "i < 21" "r_dev (request s i) < 0" by (auto simp: rd_ready_def)
  let ?lk = "update_bh bh (b_lock_update (\<lambda>_. True)) s"
  have free_eq: "free_request rw ?lk = free_request rw s" by (simp add: free_request_def)
  obtain r where r: "free_request rw s = Some r" using free_request_exists \<open>i < 21\<close> \<open>r_dev (request s i) < 0\<close> by blast
  then have r32: "r < 32"
    by (auto simp: free_request_def find_Some_iff rev_nth split: if_splits)
  define s0 where "s0 = set_current 1 (Some r) (update_bh bh (\<lambda>b. b\<lparr>b_lock := True, b_dirt := False\<rparr>) (fill_request rw bh r s))"
  have major: "MAJOR 0x101 = 1" by (simp add: MAJOR_def)
  have lock: "lock_buffer io bh s = Some ?lk"
    using dev by (simp add: lock_buffer_def) (subst wait_on_buffer.simps, simp)
  have "ll_rw_block io rw bh s = get_request io 1 rw False bh ?lk"
    using dev rw need by (auto simp: ll_rw_block_def major make_request_def lock Let_def)
  also have "\<dots> = add_request io 1 r (fill_request rw bh r ?lk)"
    by (subst get_request.simps) (simp add: r free_eq)
  also have "\<dots> = do_rd_request s0"
    using dev by (simp add: add_request_def s0_def fill_request_def)
      (simp add: update_request_def update_bh_def set_current_def)
  finally have eq: "ll_rw_block io rw bh s = do_rd_request s0" .
  have q0: "request s0 r = \<lparr>r_dev = 0x101, r_cmd = rw, r_errors = 0, r_sector = push_bit 1 n, r_nr_sectors = 2,
      r_buffer = (bh, 0), r_waiting = None, r_bh = Some bh, r_next = None\<rparr>" "current_request s0 1 = Some r"
    "rd_start s0 = rd_start s" "rd_length s0 = rd_length s" "phys s0 = phys s"
    "buffers s0 bh = (buffers s bh)\<lparr>b_lock := True, b_dirt := False\<rparr>"
    using dev by (simp_all add: s0_def fill_request_def set_current_def n)
  note range = rd_request_range [OF ready n]
  have serve: "rd_serve r s0 = end_request 1 True
     (if rw = WRITE then write_mem (b_data (buffers s bh)) (rd_addr n s) s0
      else update_bh bh (\<lambda>b. b\<lparr>b_data := rd_block n s\<rparr>) s0)"
  proof -
    have len: "unat (push_bit 9 2 :: u32) = 1024" by simp
    have addr: "rd_start s0 + push_bit 9 (push_bit 1 n) = rd_addr n s" by (simp add: q0 rd_addr_def push_bit_eq_mult)
    have mem: "read_mem (rd_addr n s) 1024 s0 = rd_block n s"
      using q0(5) by (simp add: rd_block_def read_mem_def mem_byte_cong [OF q0(5)])
    have "\<not> rd_addr n s + push_bit 9 2 > rd_start s0 + of_int (rd_length s0)" using range(2) by (simp add: q0)
    then show ?thesis
      unfolding rd_serve_def Let_def q0(1) request.simps addr len
      using rw dev(3) by (auto simp: MINOR_def from_buffer_def q0 to_buffer_def mem rd_block_def read_mem_def mem_byte_cong [OF q0(5)]
          intro!: arg_cong [where f = "end_request 1 True"] simp: update_bh_def)
  qed
  let ?s1 = "if rw = WRITE then write_mem (b_data (buffers s bh)) (rd_addr n s) s0
      else update_bh bh (\<lambda>b. b\<lparr>b_data := rd_block n s\<rparr>) s0"
  obtain p where p: "write_mem (b_data (buffers s bh)) (rd_addr n s) s0 = s0\<lparr>phys := p\<rparr>" using write_mem_frame by blast
  have "\<exists>s'. do_rd_request s0 = Some s' \<and> rd_done r bh True ?s1 s'"
    by (rule do_rd_request_one [OF q0(2) _ _ _ serve])
      (simp_all add: q0 init_request_ok_def major p)
  then obtain s' where "do_rd_request s0 = Some s'" "rd_done r bh True ?s1 s'" by blast
  then show ?thesis using that [of s' r ?s1] eq r32 unfolding Let_def s0_def [symmetric] by simp
qed


lemma ramdisk_read_spec:
  assumes "rd_ready io bh s" and "\<not> b_uptodate (buffers s bh)"
  shows "\<exists>s'. ll_rw_block io READ bh s = Some s'
    \<and> b_data (buffers s' bh) = rd_block (b_blocknr (buffers s bh)) s
    \<and> b_uptodate (buffers s' bh) \<and> \<not> b_lock (buffers s' bh)
    \<and> (\<forall>b. b \<noteq> bh \<longrightarrow> buffers s' b = buffers s b) \<and> phys s' = phys s \<and> current_request s' 1 = None"
proof -
  have "if READ = WRITE then b_dirt (buffers s bh) else \<not> b_uptodate (buffers s bh)" using assms(2) by simp
  from ll_rw_block_rd [OF assms(1) _ this refl] obtain r s1 s' where
    "ll_rw_block io READ bh s = Some s'" and d: "rd_done r bh True s1 s'"
    and "s1 = (let s0 = set_current 1 (Some r) (update_bh bh (\<lambda>b. b\<lparr>b_lock := True, b_dirt := False\<rparr>) (fill_request READ bh r s))
               in if READ = WRITE then write_mem (b_data (buffers s bh)) (rd_addr (b_blocknr (buffers s bh)) s) s0
                  else update_bh bh (\<lambda>b. b\<lparr>b_data := rd_block (b_blocknr (buffers s bh)) s\<rparr>) s0)" by blast
  then show ?thesis by (simp add: rd_done_def set_current_def fill_request_def)
qed

text \<open>
  Reading a block of the RAM disk: with an idle driver and a free request, \<open>ll_rw_block(READ)\<close> on
  an unlocked buffer returns with the buffer up to date, unlocked, holding exactly the block's bytes;
  the disk, the other buffers and the empty queue are as before.
\<close>

theorem ramdisk_read:
  assumes "rd_ready io bh s" and "\<not> b_uptodate (buffers s bh)"
  shows "\<exists>s'. ll_rw_block io READ bh s = Some s'
    \<and> b_data (buffers s' bh) = rd_block (b_blocknr (buffers s bh)) s
    \<and> b_uptodate (buffers s' bh) \<and> \<not> b_lock (buffers s' bh)
    \<and> (\<forall>b. b \<noteq> bh \<longrightarrow> buffers s' b = buffers s b) \<and> phys s' = phys s \<and> current_request s' 1 = None"
  using assms by (rule ramdisk_read_spec)

lemma ramdisk_write_spec:
  assumes "rd_ready io bh s" and "b_dirt (buffers s bh)" and n: "n = b_blocknr (buffers s bh)"
  shows "\<exists>s' r. ll_rw_block io WRITE bh s = Some s' \<and> rd_block n s' = b_data (buffers s bh)
    \<and> \<not> b_dirt (buffers s' bh) \<and> \<not> b_lock (buffers s' bh) \<and> b_data (buffers s' bh) = b_data (buffers s bh)
    \<and> (\<forall>b. b \<noteq> bh \<longrightarrow> buffers s' b = buffers s b) \<and> current_request s' = current_request s
    \<and> (\<forall>p. (\<forall>j < 1024. p \<noteq> rd_addr n s + of_nat j) \<longrightarrow> mem_byte p s' = mem_byte p s)
    \<and> (\<forall>i. i \<noteq> r \<longrightarrow> request s' i = request s i) \<and> r_dev (request s' r) = -1
    \<and> rd_start s' = rd_start s \<and> rd_length s' = rd_length s \<and> request_fn s' = request_fn s"
proof -
  have len: "length (b_data (buffers s bh)) = BLOCK_SIZE" "current_request s 1 = None" using assms(1) by (auto simp: rd_ready_def)
  have "if WRITE = WRITE then b_dirt (buffers s bh) else \<not> b_uptodate (buffers s bh)" using assms(2) by simp
  from ll_rw_block_rd [OF assms(1) _ this n] obtain r s1 s' where
    eq: "ll_rw_block io WRITE bh s = Some s'" and d: "rd_done r bh True s1 s'"
    and s1: "s1 = (let s0 = set_current 1 (Some r) (update_bh bh (\<lambda>b. b\<lparr>b_lock := True, b_dirt := False\<rparr>) (fill_request WRITE bh r s))
               in if WRITE = WRITE then write_mem (b_data (buffers s bh)) (rd_addr n s) s0
                  else update_bh bh (\<lambda>b. b\<lparr>b_data := rd_block n s\<rparr>) s0)" by blast
  define s0 where "s0 = set_current 1 (Some r) (update_bh bh (\<lambda>b. b\<lparr>b_lock := True, b_dirt := False\<rparr>) (fill_request WRITE bh r s))"
  have s1': "s1 = write_mem (b_data (buffers s bh)) (rd_addr n s) s0" by (simp add: s1 s0_def)
  obtain p where p: "s1 = s0\<lparr>phys := p\<rparr>" using write_mem_frame unfolding s1' by blast
  have phys0: "phys s0 = phys s" by (simp add: s0_def set_current_def fill_request_def)
  have mem: "mem_byte q s' = write_bytes (b_data (buffers s bh)) (rd_addr n s) (\<lambda>p. mem_byte p s) q" for q
  proof -
    have "mem_byte q s' = mem_byte q s1" using d by (intro mem_byte_cong) (simp add: rd_done_def)
    also have "\<dots> = write_bytes (b_data (buffers s bh)) (rd_addr n s) (\<lambda>p. mem_byte p s0) q"
      unfolding s1' by (rule write_mem_phys)
    finally show ?thesis using mem_byte_cong [OF phys0] by simp
  qed
  have start: "rd_start s' = rd_start s" "rd_length s' = rd_length s" "request_fn s' = request_fn s"
    using d by (simp_all add: rd_done_def p s0_def set_current_def fill_request_def)
  have "rd_block n s' = b_data (buffers s bh)"
    using read_write_bytes [of "b_data (buffers s bh)" "rd_addr n s"] len(1)
    by (simp add: rd_block_def rd_addr_def start read_mem_bytes mem)
  moreover have "mem_byte q s' = mem_byte q s" if "\<forall>j < 1024. q \<noteq> rd_addr n s + of_nat j" for q
    unfolding mem using that len(1) by (intro write_bytes_other) simp
  ultimately show ?thesis
    using eq d start len(2) by (intro exI [of _ s'] exI [of _ r]) (simp add: rd_done_def p s0_def set_current_def fill_request_def fun_eq_iff)
qed

text \<open>
  C38. Writing then reading a block of the RAM disk: after a dirty buffer is written, reading the same
  block through another buffer returns the bytes of the first.
\<close>

theorem ramdisk_roundtrip:
  assumes "rd_ready io a s" and "b_dirt (buffers s a)" and "rd_ready io b s" and "a \<noteq> b"
    and "b_blocknr (buffers s b) = b_blocknr (buffers s a)" and "\<not> b_uptodate (buffers s b)"
  shows "\<exists>s1 s2. ll_rw_block io WRITE a s = Some s1 \<and> \<not> b_dirt (buffers s1 a)
    \<and> ll_rw_block io READ b s1 = Some s2 \<and> b_uptodate (buffers s2 b) \<and> b_data (buffers s2 b) = b_data (buffers s a)"
proof -
  from ramdisk_write_spec [OF assms(1, 2) refl] obtain s1 r where w: "ll_rw_block io WRITE a s = Some s1"
    "rd_block (b_blocknr (buffers s a)) s1 = b_data (buffers s a)" "\<not> b_dirt (buffers s1 a)"
    "\<forall>b. b \<noteq> a \<longrightarrow> buffers s1 b = buffers s b" "current_request s1 = current_request s"
    "\<forall>i. i \<noteq> r \<longrightarrow> request s1 i = request s i" "r_dev (request s1 r) = -1"
    "rd_start s1 = rd_start s" "rd_length s1 = rd_length s" "request_fn s1 = request_fn s" by blast
  have "\<exists>i < 21. r_dev (request s1 i) < 0"
  proof -
    obtain i where "i < 21" "r_dev (request s i) < 0" using assms(3) by (auto simp: rd_ready_def)
    then have "r_dev (request s1 i) < 0" using w(6, 7) by (cases "i = r") auto
    with \<open>i < 21\<close> show ?thesis by blast
  qed
  then have "rd_ready io b s1" using assms(3, 4) w by (simp add: rd_ready_def)
  moreover have "\<not> b_uptodate (buffers s1 b)" using assms(4, 6) w(4) by simp
  ultimately have "\<exists>s2. ll_rw_block io READ b s1 = Some s2 \<and> b_uptodate (buffers s2 b)
      \<and> b_data (buffers s2 b) = rd_block (b_blocknr (buffers s1 b)) s1"
    using ramdisk_read_spec by blast
  then show ?thesis using w assms(4, 5) by metis
qed

subsection \<open>A machine with a RAM disk\<close>

definition new_bh :: "int \<Rightarrow> int \<Rightarrow> bool \<Rightarrow> bool \<Rightarrow> u8 \<Rightarrow> buffer_head" where
  "new_bh dev nr uptodate dirt fill =
     \<lparr>b_data = replicate BLOCK_SIZE fill, b_blocknr = of_int nr, b_dev = of_int dev, b_uptodate = uptodate, b_dirt = dirt,
      b_count = 1, b_lock = False, b_wait = None, b_prev = None, b_next = None, b_prev_free = None, b_next_free = None\<rparr>"

definition empty_request :: request where
  "empty_request = \<lparr>r_dev = -1, r_cmd = 0, r_errors = 0, r_sector = 0, r_nr_sectors = 0, r_buffer = (0, 0),
     r_waiting = None, r_bh = None, r_next = None\<rparr>"

text \<open>Buffer 0 holds new contents of block 3 of the RAM disk, buffer 1 is to receive that block.\<close>

definition boot_blk :: blk where
  "boot_blk = mm.extend boot_mm
     \<lparr>start_buffer = 0x20000, buffers = (\<lambda>i. if i = 0 then new_bh 0x101 3 True True 7 else new_bh 0x101 3 False False 0),
      request = (\<lambda>_. empty_request), wait_for_request = None, request_fn = [1 \<mapsto> do_rd], current_request = (\<lambda>_. None),
      rd_start = 0x300000, rd_length = 0x80000\<rparr>"

definition rd_io :: "blk io" where
  "rd_io = \<lparr>wait_env = (\<lambda>_ _. None), start_request = (\<lambda>major s. if major = 1 then do_rd_request s else None),
     floppy_change = (\<lambda>_ s. Some (False, s)), write_inodes = Some\<rparr>"

lemma boot_rd_ready: "rd_ready rd_io i boot_blk"
  by (auto simp: rd_ready_def boot_blk_def mm.defs rd_io_def new_bh_def empty_request_def intro: exI [of _ 0])

theorem ramdisk_read_witness:
  "\<exists>s'. ll_rw_block rd_io READ 1 boot_blk = Some s' \<and> b_data (buffers s' 1) = rd_block 3 boot_blk \<and> b_uptodate (buffers s' 1)"
proof -
  have "\<not> b_uptodate (buffers boot_blk 1)" "b_blocknr (buffers boot_blk 1) = 3"
    by (simp_all add: boot_blk_def mm.defs new_bh_def)
  then show ?thesis using ramdisk_read [OF boot_rd_ready, of 1] by auto
qed

theorem ramdisk_roundtrip_witness:
  "\<exists>s1 s2. ll_rw_block rd_io WRITE 0 boot_blk = Some s1 \<and> ll_rw_block rd_io READ 1 s1 = Some s2
     \<and> b_data (buffers s2 1) = replicate 1024 7"
proof -
  have "b_dirt (buffers boot_blk 0)" "b_blocknr (buffers boot_blk 1) = b_blocknr (buffers boot_blk 0)"
    "\<not> b_uptodate (buffers boot_blk 1)" "b_data (buffers boot_blk 0) = replicate 1024 7"
    by (simp_all add: boot_blk_def mm.defs new_bh_def)
  then show ?thesis using ramdisk_roundtrip [OF boot_rd_ready _ boot_rd_ready, of 0 1] by auto
qed

text \<open>A queue of the hard disk: it is serving sector 20, reads of 30 and 10 wait, and sector 25 is asked for.\<close>

definition busy_blk :: blk where
  "busy_blk = boot_blk\<lparr>current_request := [3 \<mapsto> 0],
     request := (\<lambda>i. empty_request\<lparr>r_dev := 0x301, r_sector := [20, 30, 10, 25] ! i,
                        r_next := (if i = 0 then Some 1 else if i = 1 then Some 2 else None)\<rparr>)\<rparr>"

theorem add_request_elevator_witness:
  "\<exists>s'. add_request rd_io 3 3 busy_blk = Some s' \<and> chain (next_request s') (Some 0) [0, 3, 1, 2]"
proof -
  have k: "key_at busy_blk i = (0, 0x301, [20, 30, 10, 25] ! i)" for i
    by (simp add: key_at_def req_key_def busy_blk_def empty_request_def)
  have c: "current_request busy_blk 3 = Some 0" "chain (next_request busy_blk) (Some 0) (0 # [1, 2])"
    by (simp_all add: busy_blk_def next_request_def)
  have p: "place (key_at busy_blk) 3 (0 # [1, 2]) = [0, 3, 1, 2]" by (simp add: k)
  from add_request_elevator [OF c, of 3 rd_io] obtain s' where "add_request rd_io 3 3 busy_blk = Some s'"
    "chain (next_request s') (current_request s' 3) [0, 3, 1, 2]" unfolding p by (auto simp: k)
  moreover from this have "current_request s' 3 = Some 0" by simp
  ultimately show ?thesis by metis
qed

end
