(* ===== verification/Buffer.thy ===== *)
theory Buffer
  imports Blk
begin

text \<open>
  \<open>fs/buffer.c\<close>: the buffer cache. Buffer heads are found through the chains of \<open>hash_table\<close> and
  reused in the order of the ring \<open>free_list\<close>; both are doubly linked through the buffer heads.
  Devices and block numbers are C \<open>int\<close>s; \<open>b_blocknr\<close> is unsigned, so block numbers are
  compared as 32-bit words.
\<close>

subsection \<open>State\<close>

abbreviation (input) NR_HASH :: nat where "NR_HASH \<equiv> 307"

record cache = blk +
  hash_table :: "nat \<Rightarrow> nat option"
  free_list :: nat
  buffer_wait :: "nat option"
  nr_buffers :: nat

definition free_buffer_queue :: "'a cache_scheme wait_queue" where
  "free_buffer_queue = (\<lambda>s. buffer_wait s, \<lambda>v s. s\<lparr>buffer_wait := v\<rparr>)"

definition is_block :: "int \<Rightarrow> int \<Rightarrow> buffer_head \<Rightarrow> bool" where
  "is_block dev block b \<longleftrightarrow> uint (b_dev b) = dev \<and> b_blocknr b = of_int block"

text \<open>The address of a buffer head: the structure has 36 bytes.\<close>

definition bh_addr :: "nat \<Rightarrow> 'a blk_scheme \<Rightarrow> u32" where
  "bh_addr bh s = start_buffer s + 36 * of_nat bh"

subsection \<open>Writing back\<close>

definition sync_buffer :: "'a cache_scheme io \<Rightarrow> int \<Rightarrow> nat \<Rightarrow> 'a cache_scheme \<Rightarrow> 'a cache_scheme option" where
  "sync_buffer io dev i s =
     (if uint (b_dev (buffers s i)) \<noteq> dev then Some s
      else do {
        s \<leftarrow> wait_on_buffer io i s;
        if uint (b_dev (buffers s i)) = dev \<and> b_dirt (buffers s i) then ll_rw_block io WRITE i s else Some s })"

definition sync_dev :: "'a cache_scheme io \<Rightarrow> int \<Rightarrow> 'a cache_scheme \<Rightarrow> (int \<times> 'a cache_scheme) option" where
  "sync_dev io dev s =
     do { s \<leftarrow> fold_opt (sync_buffer io dev) [0..<nr_buffers s] s;
          s \<leftarrow> write_inodes io s;
          s \<leftarrow> fold_opt (sync_buffer io dev) [0..<nr_buffers s] s;
          Some (0, s) }"

definition sys_sync :: "'a cache_scheme io \<Rightarrow> 'a cache_scheme \<Rightarrow> (int \<times> 'a cache_scheme) option" where
  "sys_sync io s =
     do { s \<leftarrow> write_inodes io s;
          s \<leftarrow> fold_opt (\<lambda>i s. do {
                 s \<leftarrow> wait_on_buffer io i s;
                 if b_dirt (buffers s i) then ll_rw_block io WRITE i s else Some s }) [0..<nr_buffers s] s;
          Some (0, s) }"

definition invalidate_buffers :: "'a cache_scheme io \<Rightarrow> int \<Rightarrow> 'a cache_scheme \<Rightarrow> 'a cache_scheme option" where
  "invalidate_buffers io dev s =
     fold_opt (\<lambda>i s.
       if uint (b_dev (buffers s i)) \<noteq> dev then Some s
       else do {
         s \<leftarrow> wait_on_buffer io i s;
         Some (if uint (b_dev (buffers s i)) = dev
               then update_bh i (\<lambda>b. b\<lparr>b_uptodate := False, b_dirt := False\<rparr>) s else s) }) [0..<nr_buffers s] s"

subsection \<open>The queues\<close>

definition hashfn :: "u32 \<Rightarrow> u32 \<Rightarrow> nat" where
  "hashfn dev block = unat ((dev XOR block) mod 307)"

definition hash_of :: "buffer_head \<Rightarrow> nat" where
  "hash_of b = hashfn (ucast (b_dev b)) (b_blocknr b)"

definition set_hash :: "nat \<Rightarrow> nat option \<Rightarrow> 'a cache_scheme \<Rightarrow> 'a cache_scheme" where
  "set_hash h v s = s\<lparr>hash_table := (hash_table s)(h := v)\<rparr>"

definition remove_from_hash :: "nat \<Rightarrow> 'a cache_scheme \<Rightarrow> 'a cache_scheme" where
  "remove_from_hash bh s =
     (let s = (case b_next (buffers s bh) of
                 None \<Rightarrow> s | Some n \<Rightarrow> update_bh n (b_prev_update (\<lambda>_. b_prev (buffers s bh))) s);
          s = (case b_prev (buffers s bh) of
                 None \<Rightarrow> s | Some p \<Rightarrow> update_bh p (b_next_update (\<lambda>_. b_next (buffers s bh))) s);
          h = hash_of (buffers s bh)
      in if hash_table s h = Some bh then set_hash h (b_next (buffers s bh)) s else s)"

definition remove_from_free :: "nat \<Rightarrow> 'a cache_scheme \<Rightarrow> 'a cache_scheme option" where
  "remove_from_free bh s =
     (case (b_prev_free (buffers s bh), b_next_free (buffers s bh)) of
        (Some p, Some n) \<Rightarrow>
          let s = update_bh p (b_next_free_update (\<lambda>_. Some n)) s;
              s = update_bh n (b_prev_free_update (\<lambda>_. b_prev_free (buffers s bh))) s
          in Some (if free_list s = bh then s\<lparr>free_list := the (b_next_free (buffers s bh))\<rparr> else s)
      | _ \<Rightarrow> None)"

definition remove_from_queues :: "nat \<Rightarrow> 'a cache_scheme \<Rightarrow> 'a cache_scheme option" where
  "remove_from_queues bh s = remove_from_free bh (remove_from_hash bh s)"

text \<open>The buffer goes to the end of the ring: just before the buffer \<open>free_list\<close> points to.\<close>

definition insert_into_free :: "nat \<Rightarrow> 'a cache_scheme \<Rightarrow> 'a cache_scheme option" where
  "insert_into_free bh s =
     (let f = free_list s;
          s = update_bh bh (\<lambda>b. b\<lparr>b_next_free := Some f, b_prev_free := b_prev_free (buffers s f)\<rparr>) s
      in do {
        p \<leftarrow> b_prev_free (buffers s f);
        let s = update_bh p (b_next_free_update (\<lambda>_. Some bh)) s;
        Some (update_bh f (b_prev_free_update (\<lambda>_. Some bh)) s) })"

text \<open>
  The source does not test \<open>bh->b_next\<close> for \<open>NULL\<close>: on an empty chain it stores the address of the
  buffer head at \<open>&((struct buffer_head *) 0)->b_prev\<close>, which is address 20, in the page directory.
\<close>

definition insert_into_hash :: "nat \<Rightarrow> 'a cache_scheme \<Rightarrow> 'a cache_scheme" where
  "insert_into_hash bh s =
     (let s = update_bh bh (\<lambda>b. b\<lparr>b_prev := None, b_next := None\<rparr>) s
      in if b_dev (buffers s bh) = 0 then s
      else
        let h = hash_of (buffers s bh);
            s = update_bh bh (b_next_update (\<lambda>_. hash_table s h)) s;
            s = set_hash h (Some bh) s
        in case b_next (buffers s bh) of
             None \<Rightarrow> set_long 20 (bh_addr bh s) s
           | Some n \<Rightarrow> update_bh n (b_prev_update (\<lambda>_. Some bh)) s)"

definition insert_into_queues :: "nat \<Rightarrow> 'a cache_scheme \<Rightarrow> 'a cache_scheme option" where
  "insert_into_queues bh s = do { s \<leftarrow> insert_into_free bh s; Some (insert_into_hash bh s) }"

subsection \<open>Looking a block up\<close>

partial_function (option) find_in_chain ::
  "int \<Rightarrow> int \<Rightarrow> nat option \<Rightarrow> 'a cache_scheme \<Rightarrow> nat option option" where
  "find_in_chain dev block tmp s =
     (case tmp of
        None \<Rightarrow> Some None
      | Some t \<Rightarrow> if is_block dev block (buffers s t) then Some (Some t)
                  else find_in_chain dev block (b_next (buffers s t)) s)"

definition find_buffer :: "int \<Rightarrow> int \<Rightarrow> 'a cache_scheme \<Rightarrow> nat option option" where
  "find_buffer dev block s = find_in_chain dev block (hash_table s (hashfn (of_int dev) (of_int block))) s"

partial_function (option) get_hash_table ::
  "'a cache_scheme io \<Rightarrow> int \<Rightarrow> int \<Rightarrow> 'a cache_scheme \<Rightarrow> (nat option \<times> 'a cache_scheme) option" where
  "get_hash_table io dev block s =
     do { r \<leftarrow> find_buffer dev block s;
          case r of
            None \<Rightarrow> Some (None, s)
          | Some bh \<Rightarrow> do {
              let s = update_bh bh (\<lambda>b. b\<lparr>b_count := b_count b + 1\<rparr>) s;
              s \<leftarrow> wait_on_buffer io bh s;
              if is_block dev block (buffers s bh) then Some (Some bh, s)
              else get_hash_table io dev block (update_bh bh (\<lambda>b. b\<lparr>b_count := b_count b - 1\<rparr>) s) } }"

subsection \<open>\<open>getblk\<close>\<close>

definition BADNESS :: "buffer_head \<Rightarrow> nat" where
  "BADNESS b = 2 * of_bool (b_dirt b) + of_bool (b_lock b)"

text \<open>The loop over the ring: the first unused buffer with the least badness.\<close>

partial_function (option) choose_buffer :: "nat \<Rightarrow> nat option \<Rightarrow> 'a cache_scheme \<Rightarrow> nat option option" where
  "choose_buffer tmp bh s =
     (let better = (b_count (buffers s tmp) = 0
                    \<and> (bh = None \<or> BADNESS (buffers s tmp) < BADNESS (buffers s (the bh))));
          bh = (if better then Some tmp else bh)
      in if better \<and> BADNESS (buffers s tmp) = 0 then Some bh
      else case b_next_free (buffers s tmp) of
             None \<Rightarrow> None
           | Some n \<Rightarrow> if n = free_list s then Some bh else choose_buffer n bh s)"

text \<open>The loop that cleans the buffer; \<open>False\<close> when someone else took it meanwhile.\<close>

partial_function (option) write_back ::
  "'a cache_scheme io \<Rightarrow> nat \<Rightarrow> 'a cache_scheme \<Rightarrow> (bool \<times> 'a cache_scheme) option" where
  "write_back io bh s =
     (if \<not> b_dirt (buffers s bh) then Some (True, s)
      else do {
        (r, s) \<leftarrow> sync_dev io (uint (b_dev (buffers s bh))) s;
        s \<leftarrow> wait_on_buffer io bh s;
        if b_count (buffers s bh) \<noteq> 0 then Some (False, s) else write_back io bh s })"

definition claim_buffer :: "nat \<Rightarrow> int \<Rightarrow> int \<Rightarrow> 'a cache_scheme \<Rightarrow> 'a cache_scheme option" where
  "claim_buffer bh dev block s =
     do { let s = update_bh bh (\<lambda>b. b\<lparr>b_count := 1, b_dirt := False, b_uptodate := False\<rparr>) s;
          s \<leftarrow> remove_from_queues bh s;
          let s = update_bh bh (\<lambda>b. b\<lparr>b_dev := of_int dev, b_blocknr := of_int block\<rparr>) s;
          insert_into_queues bh s }"

partial_function (option) getblk ::
  "'a cache_scheme io \<Rightarrow> int \<Rightarrow> int \<Rightarrow> 'a cache_scheme \<Rightarrow> (nat \<times> 'a cache_scheme) option" where
  "getblk io dev block s =
     do { (r, s) \<leftarrow> get_hash_table io dev block s;
          case r of
            Some bh \<Rightarrow> Some (bh, s)
          | None \<Rightarrow> do {
              r \<leftarrow> choose_buffer (free_list s) None s;
              case r of
                None \<Rightarrow> do { s \<leftarrow> sleep_on (wait_env io) free_buffer_queue s; getblk io dev block s }
              | Some bh \<Rightarrow> do {
                  s \<leftarrow> wait_on_buffer io bh s;
                  if b_count (buffers s bh) \<noteq> 0 then getblk io dev block s
                  else do {
                    (ok, s) \<leftarrow> write_back io bh s;
                    if \<not> ok then getblk io dev block s
                    else do {
                      f \<leftarrow> find_buffer dev block s;
                      if f \<noteq> None then getblk io dev block s
                      else do { s \<leftarrow> claim_buffer bh dev block s; Some (bh, s) } } } } } }"

definition brelse :: "'a cache_scheme io \<Rightarrow> nat option \<Rightarrow> 'a cache_scheme \<Rightarrow> 'a cache_scheme option" where
  "brelse io buf s =
     (case buf of
        None \<Rightarrow> Some s
      | Some bh \<Rightarrow> do {
          s \<leftarrow> wait_on_buffer io bh s;
          if b_count (buffers s bh) = 0 then None
          else Some (wake_up free_buffer_queue (update_bh bh (\<lambda>b. b\<lparr>b_count := b_count b - 1\<rparr>) s)) })"

subsection \<open>Reading blocks\<close>

definition bread ::
  "'a cache_scheme io \<Rightarrow> int \<Rightarrow> int \<Rightarrow> 'a cache_scheme \<Rightarrow> (nat option \<times> 'a cache_scheme) option" where
  "bread io dev block s =
     do { (bh, s) \<leftarrow> getblk io dev block s;
          if b_uptodate (buffers s bh) then Some (Some bh, s)
          else do {
            s \<leftarrow> ll_rw_block io READ bh s;
            s \<leftarrow> wait_on_buffer io bh s;
            if b_uptodate (buffers s bh) then Some (Some bh, s)
            else do { s \<leftarrow> brelse io (Some bh) s; Some (None, s) } } }"

text \<open>The two loops of \<open>bread_page\<close>: start all reads, then wait, copy and release.\<close>

fun get_page_blocks ::
  "'a cache_scheme io \<Rightarrow> int \<Rightarrow> int list \<Rightarrow> 'a cache_scheme \<Rightarrow> (nat option list \<times> 'a cache_scheme) option" where
  "get_page_blocks io dev [] s = Some ([], s)"
| "get_page_blocks io dev (b # bs) s =
     (if b = 0 then do { (r, s) \<leftarrow> get_page_blocks io dev bs s; Some (None # r, s) }
      else do {
        (bh, s) \<leftarrow> getblk io dev b s;
        s \<leftarrow> (if b_uptodate (buffers s bh) then Some s else ll_rw_block io READ bh s);
        (r, s) \<leftarrow> get_page_blocks io dev bs s;
        Some (Some bh # r, s) })"

fun copy_page_blocks ::
  "'a cache_scheme io \<Rightarrow> u32 \<Rightarrow> nat option list \<Rightarrow> 'a cache_scheme \<Rightarrow> 'a cache_scheme option" where
  "copy_page_blocks io address [] s = Some s"
| "copy_page_blocks io address (None # bhs) s = copy_page_blocks io (address + of_nat BLOCK_SIZE) bhs s"
| "copy_page_blocks io address (Some bh # bhs) s =
     do { s \<leftarrow> wait_on_buffer io bh s;
          let s = (if b_uptodate (buffers s bh) then write_mem (b_data (buffers s bh)) address s else s);
          s \<leftarrow> brelse io (Some bh) s;
          copy_page_blocks io (address + of_nat BLOCK_SIZE) bhs s }"

definition bread_page ::
  "'a cache_scheme io \<Rightarrow> u32 \<Rightarrow> int \<Rightarrow> int list \<Rightarrow> 'a cache_scheme \<Rightarrow> 'a cache_scheme option" where
  "bread_page io address dev b s =
     do { (bhs, s) \<leftarrow> get_page_blocks io dev b s; copy_page_blocks io address bhs s }"

text \<open>The loop over the blocks to read ahead. It starts the read of \<open>bh\<close>, not of the block just found.\<close>

fun read_ahead ::
  "'a cache_scheme io \<Rightarrow> int \<Rightarrow> nat \<Rightarrow> int list \<Rightarrow> 'a cache_scheme \<Rightarrow> 'a cache_scheme option" where
  "read_ahead io dev bh [] s = Some s"
| "read_ahead io dev bh (first # rest) s =
     (if first < 0 then Some s
      else do {
        (tmp, s) \<leftarrow> getblk io dev first s;
        s \<leftarrow> (if b_uptodate (buffers s tmp) then Some s else ll_rw_block io READA bh s);
        let s = update_bh tmp (\<lambda>b. b\<lparr>b_count := b_count b - 1\<rparr>) s;
        read_ahead io dev bh rest s })"

definition breada ::
  "'a cache_scheme io \<Rightarrow> int \<Rightarrow> int \<Rightarrow> int list \<Rightarrow> 'a cache_scheme \<Rightarrow> (nat option \<times> 'a cache_scheme) option" where
  "breada io dev first args s =
     do { (bh, s) \<leftarrow> getblk io dev first s;
          s \<leftarrow> (if b_uptodate (buffers s bh) then Some s else ll_rw_block io READ bh s);
          s \<leftarrow> read_ahead io dev bh args s;
          s \<leftarrow> wait_on_buffer io bh s;
          if b_uptodate (buffers s bh) then Some (Some bh, s)
          else do { s \<leftarrow> brelse io (Some bh) s; Some (None, s) } }"

subsection \<open>Initialisation\<close>

text \<open>
  One buffer head at the low end and one block at the high end at a time, until they meet; the
  contents of the buffer are what memory holds at the block's address.
\<close>

definition init_bh :: "nat \<Rightarrow> u32 \<Rightarrow> 'a cache_scheme \<Rightarrow> 'a cache_scheme" where
  "init_bh h b s = update_bh h (\<lambda>x. x\<lparr>b_dev := 0, b_dirt := False, b_count := 0, b_lock := False,
     b_uptodate := False, b_wait := None, b_next := None, b_prev := None, b_data := read_mem b BLOCK_SIZE s,
     b_prev_free := Some (h - 1), b_next_free := Some (h + 1)\<rparr>) s"

partial_function (option) buffer_init_loop ::
  "nat \<Rightarrow> u32 \<Rightarrow> 'a cache_scheme \<Rightarrow> (nat \<times> 'a cache_scheme) option" where
  "buffer_init_loop h b s =
     (let b = b - of_nat BLOCK_SIZE
      in if b < bh_addr (h + 1) s then Some (h, s)
         else buffer_init_loop (h + 1) (if b = 0x100000 then 0xA0000 else b)
                (init_bh h b s\<lparr>nr_buffers := nr_buffers s + 1\<rparr>))"

definition buffer_init :: "int \<Rightarrow> 'a cache_scheme \<Rightarrow> 'a cache_scheme option" where
  "buffer_init buffer_end s =
     do { let b = (if buffer_end = 0x100000 then 640 * 1024 else of_int buffer_end);
          (h, s) \<leftarrow> buffer_init_loop 0 b s;
          let h = h - 1;
          let s = s\<lparr>free_list := 0\<rparr>;
          let s = update_bh (free_list s) (b_prev_free_update (\<lambda>_. Some h)) s;
          let s = update_bh h (b_next_free_update (\<lambda>_. Some (free_list s))) s;
          Some (s\<lparr>hash_table := (\<lambda>_. None)\<rparr>) }"

interpretation free_buffers: wait_queue "fst free_buffer_queue" "snd free_buffer_queue"
  by unfold_locales (simp_all add: free_buffer_queue_def)

end
