(* ===== verification/Fs.thy ===== *)
theory Fs
  imports Buffer
begin

text \<open>
  The tables of the file system (\<open>include/linux/fs.h\<close>) and what its parts share: the locks of inodes
  and super blocks, \<open>get_super\<close>, and the bytes, 16-bit words and bits of a block. A pointer to an
  entry of \<open>inode_table\<close>, \<open>file_table\<close> or \<open>super_block\<close> is its index.
\<close>

subsection \<open>State\<close>

abbreviation (input) NR_INODE :: nat where "NR_INODE \<equiv> 32"
abbreviation (input) NR_FILE :: nat where "NR_FILE \<equiv> 64"
abbreviation (input) NR_SUPER :: nat where "NR_SUPER \<equiv> 8"
abbreviation (input) ROOT_INO :: int where "ROOT_INO \<equiv> 1"
abbreviation (input) SUPER_MAGIC :: u16 where "SUPER_MAGIC \<equiv> 0x137F"

record m_inode =
  i_mode :: u16
  i_uid :: u16
  i_size :: u32
  i_mtime :: u32
  i_gid :: u8
  i_nlinks :: u8
  i_zone :: "u16 list"
  i_wait :: "nat option"
  i_atime :: u32
  i_ctime :: u32
  i_dev :: u16
  i_num :: u16
  i_count :: u16
  i_lock :: bool
  i_dirt :: bool
  i_pipe :: bool
  i_mount :: bool
  i_seek :: bool
  i_update :: bool

record kfile =
  f_mode :: u16
  f_flags :: u16
  f_count :: u16
  f_inode :: "nat option"
  f_pos :: int

record super_block =
  s_ninodes :: u16
  s_nzones :: u16
  s_imap_blocks :: u16
  s_zmap_blocks :: u16
  s_firstdatazone :: u16
  s_log_zone_size :: u16
  s_max_size :: u32
  s_magic :: u16
  s_imap :: "nat option list"
  s_zmap :: "nat option list"
  s_dev :: u16
  s_isup :: "nat option"
  s_imount :: "nat option"
  s_time :: u32
  s_wait :: "nat option"
  s_lock :: bool
  s_rd_only :: bool
  s_dirt :: bool

record fs = cache +
  inode_table :: "nat \<Rightarrow> m_inode"
  last_inode :: nat
  file_table :: "nat \<Rightarrow> kfile"
  super_blocks :: "nat \<Rightarrow> super_block"
  ROOT_DEV :: int

definition zero_inode :: m_inode where
  "zero_inode = \<lparr>i_mode = 0, i_uid = 0, i_size = 0, i_mtime = 0, i_gid = 0, i_nlinks = 0, i_zone = replicate 9 0,
     i_wait = None, i_atime = 0, i_ctime = 0, i_dev = 0, i_num = 0, i_count = 0, i_lock = False, i_dirt = False,
     i_pipe = False, i_mount = False, i_seek = False, i_update = False\<rparr>"

definition update_inode :: "nat \<Rightarrow> (m_inode \<Rightarrow> m_inode) \<Rightarrow> 'a fs_scheme \<Rightarrow> 'a fs_scheme" where
  "update_inode i f s = s\<lparr>inode_table := (inode_table s)(i := f (inode_table s i))\<rparr>"

definition update_file :: "nat \<Rightarrow> (kfile \<Rightarrow> kfile) \<Rightarrow> 'a fs_scheme \<Rightarrow> 'a fs_scheme" where
  "update_file i f s = s\<lparr>file_table := (file_table s)(i := f (file_table s i))\<rparr>"

definition update_super :: "nat \<Rightarrow> (super_block \<Rightarrow> super_block) \<Rightarrow> 'a fs_scheme \<Rightarrow> 'a fs_scheme" where
  "update_super i f s = s\<lparr>super_blocks := (super_blocks s)(i := f (super_blocks s i))\<rparr>"

definition inode_queue :: "nat \<Rightarrow> 'a fs_scheme wait_queue" where
  "inode_queue i = (\<lambda>s. i_wait (inode_table s i), \<lambda>v s. update_inode i (i_wait_update (\<lambda>_. v)) s)"

definition super_queue :: "nat \<Rightarrow> 'a fs_scheme wait_queue" where
  "super_queue i = (\<lambda>s. s_wait (super_blocks s i), \<lambda>v s. update_super i (s_wait_update (\<lambda>_. v)) s)"

subsection \<open>File types and modes (\<open>include/sys/stat.h\<close>)\<close>

abbreviation (input) S_IFMT :: u16 where "S_IFMT \<equiv> 0xf000"
abbreviation (input) S_IFREG :: u16 where "S_IFREG \<equiv> 0x8000"
abbreviation (input) S_IFBLK :: u16 where "S_IFBLK \<equiv> 0x6000"
abbreviation (input) S_IFDIR :: u16 where "S_IFDIR \<equiv> 0x4000"
abbreviation (input) S_IFCHR :: u16 where "S_IFCHR \<equiv> 0x2000"
abbreviation (input) S_IFIFO :: u16 where "S_IFIFO \<equiv> 0x1000"
abbreviation (input) S_ISUID :: u16 where "S_ISUID \<equiv> 0x800"
abbreviation (input) S_ISGID :: u16 where "S_ISGID \<equiv> 0x400"
abbreviation (input) S_ISVTX :: u16 where "S_ISVTX \<equiv> 0x200"

definition S_ISREG :: "u16 \<Rightarrow> bool" where "S_ISREG m \<longleftrightarrow> m AND S_IFMT = S_IFREG"
definition S_ISDIR :: "u16 \<Rightarrow> bool" where "S_ISDIR m \<longleftrightarrow> m AND S_IFMT = S_IFDIR"
definition S_ISCHR :: "u16 \<Rightarrow> bool" where "S_ISCHR m \<longleftrightarrow> m AND S_IFMT = S_IFCHR"
definition S_ISBLK :: "u16 \<Rightarrow> bool" where "S_ISBLK m \<longleftrightarrow> m AND S_IFMT = S_IFBLK"

subsection \<open>Locks\<close>

partial_function (option) wait_on_inode ::
  "'a fs_scheme io \<Rightarrow> nat \<Rightarrow> 'a fs_scheme \<Rightarrow> 'a fs_scheme option" where
  "wait_on_inode io i s =
     (if i_lock (inode_table s i)
      then do { s \<leftarrow> sleep_on (wait_env io) (inode_queue i) s; wait_on_inode io i s }
      else Some s)"

definition lock_inode :: "'a fs_scheme io \<Rightarrow> nat \<Rightarrow> 'a fs_scheme \<Rightarrow> 'a fs_scheme option" where
  "lock_inode io i s =
     do { s \<leftarrow> wait_on_inode io i s; Some (update_inode i (i_lock_update (\<lambda>_. True)) s) }"

definition unlock_inode :: "nat \<Rightarrow> 'a fs_scheme \<Rightarrow> 'a fs_scheme" where
  "unlock_inode i s = wake_up (inode_queue i) (update_inode i (i_lock_update (\<lambda>_. False)) s)"

partial_function (option) wait_on_super ::
  "'a fs_scheme io \<Rightarrow> nat \<Rightarrow> 'a fs_scheme \<Rightarrow> 'a fs_scheme option" where
  "wait_on_super io i s =
     (if s_lock (super_blocks s i)
      then do { s \<leftarrow> sleep_on (wait_env io) (super_queue i) s; wait_on_super io i s }
      else Some s)"

definition lock_super :: "'a fs_scheme io \<Rightarrow> nat \<Rightarrow> 'a fs_scheme \<Rightarrow> 'a fs_scheme option" where
  "lock_super io i s =
     do { s \<leftarrow> wait_on_super io i s; Some (update_super i (s_lock_update (\<lambda>_. True)) s) }"

definition free_super :: "nat \<Rightarrow> 'a fs_scheme \<Rightarrow> 'a fs_scheme" where
  "free_super i s = wake_up (super_queue i) (update_super i (s_lock_update (\<lambda>_. False)) s)"

text \<open>The search starts again when the entry was reused while the caller slept.\<close>

partial_function (option) get_super_from ::
  "'a fs_scheme io \<Rightarrow> int \<Rightarrow> nat \<Rightarrow> 'a fs_scheme \<Rightarrow> (nat option \<times> 'a fs_scheme) option" where
  "get_super_from io dev i s =
     (if NR_SUPER \<le> i then Some (None, s)
      else if uint (s_dev (super_blocks s i)) = dev
      then do {
        s \<leftarrow> wait_on_super io i s;
        if uint (s_dev (super_blocks s i)) = dev then Some (Some i, s) else get_super_from io dev 0 s }
      else get_super_from io dev (i + 1) s)"

definition get_super :: "'a fs_scheme io \<Rightarrow> int \<Rightarrow> 'a fs_scheme \<Rightarrow> (nat option \<times> 'a fs_scheme) option" where
  "get_super io dev s = (if dev = 0 then Some (None, s) else get_super_from io dev 0 s)"

subsection \<open>The contents of a block\<close>

text \<open>The \<open>k\<close>th \<open>unsigned short\<close> and the \<open>k\<close>th \<open>unsigned long\<close> of an array of bytes.\<close>

definition get_short :: "u8 list \<Rightarrow> nat \<Rightarrow> u16" where
  "get_short d k = ucast (d ! (2 * k)) OR push_bit 8 (ucast (d ! (2 * k + 1)))"

definition set_short :: "nat \<Rightarrow> u16 \<Rightarrow> u8 list \<Rightarrow> u8 list" where
  "set_short k v d = d[2 * k := ucast v, 2 * k + 1 := ucast (drop_bit 8 v)]"

definition get_long :: "u8 list \<Rightarrow> nat \<Rightarrow> u32" where
  "get_long d k = ucast (d ! (4 * k)) OR push_bit 8 (ucast (d ! (4 * k + 1)))
     OR push_bit 16 (ucast (d ! (4 * k + 2))) OR push_bit 24 (ucast (d ! (4 * k + 3)))"

definition short_bytes :: "u16 \<Rightarrow> u8 list" where
  "short_bytes v = [ucast v, ucast (drop_bit 8 v)]"

definition long_bytes :: "u32 \<Rightarrow> u8 list" where
  "long_bytes v = [ucast v, ucast (drop_bit 8 v), ucast (drop_bit 16 v), ucast (drop_bit 24 v)]"

text \<open>\<open>btsl\<close>, \<open>btrl\<close> and \<open>bt\<close> on a bit string in memory: bit \<open>nr mod 8\<close> of byte \<open>nr div 8\<close>.\<close>

definition test_bit :: "nat \<Rightarrow> u8 list \<Rightarrow> bool" where
  "test_bit nr d = bit (d ! (nr div 8)) (nr mod 8)"

definition put_bit :: "nat \<Rightarrow> bool \<Rightarrow> u8 list \<Rightarrow> u8 list" where
  "put_bit nr v d =
     d[nr div 8 := (if v then Bit_Operations.set_bit (nr mod 8) (d ! (nr div 8)) else unset_bit (nr mod 8) (d ! (nr div 8)))]"

interpretation inode_queues: wait_queue "fst (inode_queue i)" "snd (inode_queue i)"
  by unfold_locales (simp_all add: inode_queue_def update_inode_def)

interpretation super_queues: wait_queue "fst (super_queue i)" "snd (super_queue i)"
  by unfold_locales (simp_all add: super_queue_def update_super_def)

end
