(* ===== verification/Build.thy ===== *)
theory Build
  imports Fs
begin

text \<open>
  \<open>tools/build.c\<close>: the disk image from the files of the boot sector, the set-up code and the system. A file
  is the list of its bytes, and \<open>file\<close> and \<open>stat\<close> say what a name leads to; \<open>accept m n\<close> is the result of
  \<open>write\<close> with \<open>n\<close> bytes after \<open>m\<close> have been written. A result is \<open>Inl\<close> the message of \<open>die\<close> or \<open>Inr\<close>; the
  other messages, and the quotes in these, are left out. A \<open>long\<close> has 32 bits, as on the machine the tool was written for.
\<close>

abbreviation (input) MINIX_HEADER :: nat where "MINIX_HEADER \<equiv> 32"
abbreviation (input) GCC_HEADER :: nat where "GCC_HEADER \<equiv> 1024"
abbreviation (input) SYS_SIZE :: nat where "SYS_SIZE \<equiv> 0x2000"
abbreviation (input) SETUP_SECTS :: nat where "SETUP_SECTS \<equiv> 4"
abbreviation (input) BUF_SIZE :: nat where "BUF_SIZE \<equiv> 1024"

type_synonym 'a dies = "string + 'a"

definition and_then :: "'a dies \<Rightarrow> ('a \<Rightarrow> 'b dies) \<Rightarrow> 'b dies" where
  "and_then x f = (case x of Inl e \<Rightarrow> Inl e | Inr v \<Rightarrow> f v)"

definition unless_die :: "bool \<Rightarrow> string \<Rightarrow> 'a dies \<Rightarrow> 'a dies" where
  "unless_die b msg x = (if b then Inl msg else x)"

text \<open>The numbers of the root device, as two \<open>char\<close>s.\<close>

definition root_device :: "(string \<Rightarrow> int option) \<Rightarrow> string list \<Rightarrow> (u8 \<times> u8) dies" where
  "root_device stat argv =
     (if length argv \<noteq> 4 \<and> length argv \<noteq> 5 then Inl ''Usage: build bootsect setup system [rootdev] [> image]''
      else
        and_then
          (if length argv = 5
           then if argv ! 4 \<noteq> ''FLOPPY''
                then case stat (argv ! 4) of
                       None \<Rightarrow> Inl ''Couldn't stat root device.''
                     | Some st_rdev \<Rightarrow> Inr (of_int (drop_bit 8 (uint (of_int st_rdev :: u32))), of_int (st_rdev AND 0xff))
                else Inr (0, 0)
           else Inr (3, 6))
          (\<lambda>(major_root, minor_root).
             unless_die (major_root \<noteq> 2 \<and> major_root \<noteq> 3 \<and> major_root \<noteq> 0) ''Bad root device --- major #''
               (Inr (major_root, minor_root))))"

definition write_out :: "(nat \<Rightarrow> nat \<Rightarrow> nat) \<Rightarrow> u8 list \<Rightarrow> u8 list \<Rightarrow> u8 list dies" where
  "write_out accept bs out =
     unless_die (accept (length out) (length bs) \<noteq> length bs) ''Write call failed'' (Inr (out @ bs))"

text \<open>The header of \<open>boot\<close> and of \<open>setup\<close>; the bytes after it are the result.\<close>

definition minix_header :: "string \<Rightarrow> u8 list option \<Rightarrow> u8 list dies" where
  "minix_header name opened =
     (case opened of
        None \<Rightarrow> Inl (''Unable to open '' @ name)
      | Some f \<Rightarrow>
          let buf = take MINIX_HEADER f
          in unless_die (length buf \<noteq> MINIX_HEADER) (''Unable to read header of '' @ name)
            (unless_die (get_long buf 0 \<noteq> 0x04100301) (''Non-Minix header of '' @ name)
            (unless_die (get_long buf 1 \<noteq> of_nat MINIX_HEADER) (''Non-Minix header of '' @ name)
            (unless_die (get_long buf 3 \<noteq> 0) (''Illegal data segment in '' @ name)
            (unless_die (get_long buf 4 \<noteq> 0) (''Illegal bss in '' @ name)
            (unless_die (get_long buf 5 \<noteq> 0) (''Non-Minix header of '' @ name)
            (unless_die (get_long buf 7 \<noteq> 0) (''Illegal symbol table in '' @ name)
            (Inr (drop MINIX_HEADER f)))))))))"

definition boot_block :: "(nat \<Rightarrow> nat \<Rightarrow> nat) \<Rightarrow> u8 \<Rightarrow> u8 \<Rightarrow> u8 list \<Rightarrow> u8 list dies" where
  "boot_block accept major_root minor_root rest =
     (let buf = take BUF_SIZE rest
      in unless_die (length buf \<noteq> 512) ''Boot block must be exactly 512 bytes''
        (unless_die (get_short buf 255 \<noteq> 0xAA55) ''Boot block hasn't got boot flag (0xAA55)''
        (write_out accept (buf[508 := minor_root, 509 := major_root]) [])))"

text \<open>The copying loop: a block of the buffer's size at a time; the number of bytes and what has been written.\<close>

function copy_file :: "(nat \<Rightarrow> nat \<Rightarrow> nat) \<Rightarrow> u8 list \<Rightarrow> nat \<Rightarrow> u8 list \<Rightarrow> (nat \<times> u8 list) dies" where
  "copy_file accept f i out =
     (let buf = take BUF_SIZE f
      in if length buf = 0 then Inr (i, out)
         else and_then (write_out accept buf out) (\<lambda>out. copy_file accept (drop BUF_SIZE f) (i + length buf) out))"
  by pat_completeness auto
termination by (relation "measure (\<lambda>(_, f, _). length f)") auto

function pad_setup :: "(nat \<Rightarrow> nat \<Rightarrow> nat) \<Rightarrow> nat \<Rightarrow> u8 list \<Rightarrow> u8 list dies" where
  "pad_setup accept i out =
     (if i < SETUP_SECTS * 512
      then
        let c = min (SETUP_SECTS * 512 - i) BUF_SIZE
        in and_then (write_out accept (replicate c 0) out) (\<lambda>out. pad_setup accept (i + c) out)
      else Inr out)"
  by pat_completeness auto
termination by (relation "measure (\<lambda>(_, i, _). SETUP_SECTS * 512 - i)") auto

declare copy_file.simps [simp del] pad_setup.simps [simp del]

definition write_system :: "(nat \<Rightarrow> nat \<Rightarrow> nat) \<Rightarrow> u8 list option \<Rightarrow> u8 list \<Rightarrow> u8 list dies" where
  "write_system accept opened out =
     (case opened of
        None \<Rightarrow> Inl ''Unable to open system''
      | Some f \<Rightarrow>
          let buf = take GCC_HEADER f
          in unless_die (length buf \<noteq> GCC_HEADER) ''Unable to read header of system''
            (unless_die (get_long buf 5 \<noteq> 0) ''Non-GCC header of system''
            (and_then (copy_file accept (drop GCC_HEADER f) 0 out) (\<lambda>(i, out).
             unless_die (i > SYS_SIZE * 16) ''System is too big'' (Inr out)))))"

definition build_main ::
  "(nat \<Rightarrow> nat \<Rightarrow> nat) \<Rightarrow> (string \<Rightarrow> u8 list option) \<Rightarrow> (string \<Rightarrow> int option) \<Rightarrow> string list \<Rightarrow> u8 list dies" where
  "build_main accept file stat argv =
     and_then (root_device stat argv) (\<lambda>(major_root, minor_root).
     and_then (minix_header ''boot'' (file (argv ! 1))) (\<lambda>rest.
     and_then (boot_block accept major_root minor_root rest) (\<lambda>out.
     and_then (minix_header ''setup'' (file (argv ! 2))) (\<lambda>rest.
     and_then (copy_file accept rest 0 out) (\<lambda>(i, out).
     unless_die (i > SETUP_SECTS * 512) ''Setup exceeds 4 sectors - rewrite build/boot/setup''
     (and_then (pad_setup accept i out) (\<lambda>out.
     write_system accept (file (argv ! 3)) out)))))))"

subsection \<open>The image\<close>

lemma and_then_Inr: "and_then x f = Inr y \<longleftrightarrow> (\<exists>v. x = Inr v \<and> f v = Inr y)"
  by (cases x) (simp_all add: and_then_def)

lemma unless_die_Inr: "unless_die b msg x = Inr y \<longleftrightarrow> \<not> b \<and> x = Inr y"
  by (simp add: unless_die_def)

lemma write_out_all: "write_out (\<lambda>_ n. n) bs out = Inr (out @ bs)"
  by (simp add: write_out_def unless_die_def)

lemma copy_file_all: "copy_file (\<lambda>_ n. n) f i out = Inr (i + length f, out @ f)"
proof (induction "length f" arbitrary: f i out rule: less_induct)
  case less
  show ?case
  proof (cases "f = []")
    case False
    then have "copy_file (\<lambda>_ n. n) (drop 1024 f) (i + min (length f) 1024) (out @ take 1024 f)
        = Inr (i + min (length f) 1024 + length (drop 1024 f), (out @ take 1024 f) @ drop 1024 f)"
      by (intro less) simp
    then show ?thesis using False by (subst copy_file.simps) (simp add: write_out_all and_then_def Let_def min.commute)
  qed (subst copy_file.simps, simp)
qed

lemma pad_setup_all: "pad_setup (\<lambda>_ n. n) i out = Inr (out @ replicate (2048 - i) 0)"
proof (induction "2048 - i" arbitrary: i out rule: less_induct)
  case less
  show ?case
  proof (cases "i < 2048")
    case True
    define c where "c = min (2048 - i) 1024"
    have "pad_setup (\<lambda>_ n. n) (i + c) (out @ replicate c 0) = Inr ((out @ replicate c 0) @ replicate (2048 - (i + c)) 0)"
      by (intro less) (use True in \<open>simp add: c_def\<close>)
    moreover have "replicate c 0 @ replicate (2048 - (i + c)) 0 = replicate (2048 - i) (0 :: u8)"
      using True by (simp add: replicate_add [symmetric] c_def)
    ultimately show ?thesis
      using True by (subst pad_setup.simps) (simp add: write_out_all and_then_def Let_def c_def [symmetric])
  qed (subst pad_setup.simps, simp)
qed

text \<open>A file with the header of a Minix program that has only code.\<close>

definition minix_program :: "u8 list \<Rightarrow> u8 list \<Rightarrow> bool" where
  "minix_program f rest \<longleftrightarrow> (\<exists>hd. f = hd @ rest \<and> length hd = 32 \<and> get_long hd 0 = 0x04100301 \<and> get_long hd 1 = 32
     \<and> get_long hd 3 = 0 \<and> get_long hd 4 = 0 \<and> get_long hd 5 = 0 \<and> get_long hd 7 = 0)"

lemma minix_header_Inr: "minix_header name opened = Inr rest \<longleftrightarrow> (\<exists>f. opened = Some f \<and> minix_program f rest)"
proof (cases opened)
  case (Some f)
  have "minix_program f rest \<longleftrightarrow> rest = drop 32 f \<and> minix_program f (drop 32 f)"
    by (auto simp: minix_program_def)
  moreover have "minix_program f (drop 32 f) \<longleftrightarrow> length (take 32 f) = 32 \<and> get_long (take 32 f) 0 = 0x04100301 \<and> get_long (take 32 f) 1 = 32
     \<and> get_long (take 32 f) 3 = 0 \<and> get_long (take 32 f) 4 = 0 \<and> get_long (take 32 f) 5 = 0 \<and> get_long (take 32 f) 7 = 0"
    unfolding minix_program_def
    by (metis append_eq_conv_conj append_take_drop_id)
  ultimately show ?thesis using Some by (auto simp: minix_header_def Let_def unless_die_Inr)
qed (simp add: minix_header_def)

lemma write_system_all:
  "write_system (\<lambda>_ n. n) opened out = Inr img \<longleftrightarrow>
     (\<exists>header sys. opened = Some (header @ sys) \<and> length header = 1024 \<and> get_long header 5 = 0
        \<and> length sys \<le> 0x20000 \<and> img = out @ sys)"
proof (cases opened)
  case (Some f)
  have "length (take 1024 f) = 1024 \<and> get_long (take 1024 f) 5 = 0 \<and> length (drop 1024 f) \<le> 0x20000 \<and> img = out @ drop 1024 f
      \<longleftrightarrow> (\<exists>header sys. f = header @ sys \<and> length header = 1024 \<and> get_long header 5 = 0 \<and> length sys \<le> 0x20000 \<and> img = out @ sys)"
    by (metis append_eq_conv_conj append_take_drop_id)
  then show ?thesis
    using Some by (auto simp: write_system_def Let_def unless_die_Inr and_then_Inr copy_file_all)
qed (simp add: write_system_def)

text \<open>
  C24. The image. When the output takes all that is written, the tool succeeds exactly on a usable root device
  and files of the right kind and size, and what it writes is the boot sector with the numbers of the root
  device in its bytes 508 and 509 before the boot flag, the set-up code filled up with zeros to four sectors,
  and the system without its header.
\<close>

theorem build_image:
  "build_main (\<lambda>_ n. n) file stat argv = Inr img \<longleftrightarrow>
     (\<exists>major minor f boot g setup header sys.
        root_device stat argv = Inr (major, minor)
        \<and> file (argv ! 1) = Some f \<and> minix_program f boot \<and> length boot = 512 \<and> get_short boot 255 = 0xAA55
        \<and> file (argv ! 2) = Some g \<and> minix_program g setup \<and> length setup \<le> 2048
        \<and> file (argv ! 3) = Some (header @ sys) \<and> length header = 1024 \<and> get_long header 5 = 0 \<and> length sys \<le> 0x20000
        \<and> img = take 508 boot @ [minor, major] @ drop 510 boot @ setup @ replicate (2048 - length setup) 0 @ sys)"
proof -
  have boot: "boot_block (\<lambda>_ n. n) major minor rest = Inr out
      \<longleftrightarrow> length rest = 512 \<and> get_short rest 255 = 0xAA55 \<and> out = take 508 rest @ [minor, major] @ drop 510 rest"
    for major minor rest out
  proof -
    have "rest[508 := minor, 509 := major] = take 508 rest @ [minor, major] @ drop 510 rest" if "length rest = 512"
      using that by (simp add: list_eq_iff_nth_eq nth_append nth_list_update)
    then show ?thesis by (auto simp: boot_block_def Let_def unless_die_Inr write_out_all min_def split: if_splits)
  qed
  show ?thesis
    unfolding build_main_def and_then_Inr minix_header_Inr unless_die_Inr split_paired_Ex prod.case boot copy_file_all pad_setup_all
      write_system_all
    by (simp add: not_less) blast
qed

end
