(* ===== verification/Bitmap.thy ===== *)
theory Bitmap
  imports Fs
begin

text \<open>
  \<open>fs/bitmap.c\<close> and \<open>fs/truncate.c\<close>: the bit maps of blocks and inodes, and freeing the blocks of a
  file. A map bit beyond the maps of the super block, or a block whose map is missing, is a
  \<open>NULL\<close> pointer in the source; an operation that would follow one does not return here.
\<close>

subsection \<open>Searching a map\<close>

text \<open>\<open>bsfl\<close>: the lowest set bit.\<close>

definition bsf :: "u32 \<Rightarrow> nat option" where
  "bsf w = List.find (\<lambda>n. bit w n) [0..<32]"

text \<open>\<open>lodsl; notl; bsfl\<close> on the 256 words of a block, from word \<open>k\<close> on; \<open>n\<close> words are left.\<close>

fun find_first_zero_from :: "nat \<Rightarrow> nat \<Rightarrow> u8 list \<Rightarrow> nat" where
  "find_first_zero_from 0 k d = 32 * k"
| "find_first_zero_from (Suc n) k d =
     (case bsf (NOT (get_long d k)) of Some b \<Rightarrow> 32 * k + b | None \<Rightarrow> find_first_zero_from n (k + 1) d)"

definition find_first_zero :: "u8 list \<Rightarrow> nat" where
  "find_first_zero d = find_first_zero_from 256 0 d"

text \<open>The loop over the eight map slots: the slot, its buffer and the bit found.\<close>

fun scan_maps :: "nat \<Rightarrow> nat option list \<Rightarrow> (nat \<Rightarrow> buffer_head) \<Rightarrow> (nat \<times> nat \<times> nat) option" where
  "scan_maps i [] B = None"
| "scan_maps i (None # ms) B = scan_maps (i + 1) ms B"
| "scan_maps i (Some bh # ms) B =
     (let j = find_first_zero (b_data (B bh)) in if j < 8192 then Some (i, bh, j) else scan_maps (i + 1) ms B)"

subsection \<open>Blocks\<close>

text \<open>The end of \<open>free_block\<close>: the bit of the block is cleared, and must have been set.\<close>

definition clear_zone_bit :: "nat \<Rightarrow> int \<Rightarrow> 'a fs_scheme \<Rightarrow> 'a fs_scheme option" where
  "clear_zone_bit sb block s =
     (let sup = super_blocks s sb;
          block = nat (block - (uint (s_firstdatazone sup) - 1))
      in do {
        zm \<leftarrow> s_zmap sup ! (block div 8192);
        let was = test_bit (block AND 8191) (b_data (buffers s zm));
        let s = update_bh zm (\<lambda>b. b\<lparr>b_data := put_bit (block AND 8191) False (b_data b)\<rparr>) s;
        if \<not> was then None else Some (update_bh zm (b_dirt_update (\<lambda>_. True)) s) })"

definition free_block :: "'a fs_scheme io \<Rightarrow> int \<Rightarrow> int \<Rightarrow> 'a fs_scheme \<Rightarrow> 'a fs_scheme option" where
  "free_block io dev block s =
     do { (sb, s) \<leftarrow> get_super io dev s;
          sb \<leftarrow> sb;
          let sup = super_blocks s sb;
          if block < uint (s_firstdatazone sup) \<or> block \<ge> uint (s_nzones sup) then None
          else do {
            (bh, s) \<leftarrow> get_hash_table io dev block s;
            case bh of
              Some bh \<Rightarrow>
                if b_count (buffers s bh) \<noteq> 1 then Some s
                else do {
                  let s = update_bh bh (\<lambda>b. b\<lparr>b_dirt := False, b_uptodate := False\<rparr>) s;
                  s \<leftarrow> brelse io (Some bh) s;
                  clear_zone_bit sb block s }
            | None \<Rightarrow> clear_zone_bit sb block s } }"

definition clear_block :: "u8 list \<Rightarrow> u8 list" where
  "clear_block d = replicate BLOCK_SIZE 0"

definition new_block :: "'a fs_scheme io \<Rightarrow> int \<Rightarrow> 'a fs_scheme \<Rightarrow> (int \<times> 'a fs_scheme) option" where
  "new_block io dev s =
     do { (sb, s) \<leftarrow> get_super io dev s;
          sb \<leftarrow> sb;
          case scan_maps 0 (s_zmap (super_blocks s sb)) (buffers s) of
            None \<Rightarrow> Some (0, s)
          | Some (i, bh, j) \<Rightarrow>
              if test_bit j (b_data (buffers s bh)) then None
              else do {
                let s = update_bh bh (\<lambda>b. b\<lparr>b_data := put_bit j True (b_data b), b_dirt := True\<rparr>) s;
                let j = int j + int i * 8192 + uint (s_firstdatazone (super_blocks s sb)) - 1;
                if j \<ge> uint (s_nzones (super_blocks s sb)) then Some (0, s)
                else do {
                  (bh, s) \<leftarrow> getblk io dev j s;
                  if b_count (buffers s bh) \<noteq> 1 then None
                  else do {
                    let s = update_bh bh (\<lambda>b. b\<lparr>b_data := clear_block (b_data b), b_uptodate := True, b_dirt := True\<rparr>) s;
                    s \<leftarrow> brelse io (Some bh) s;
                    Some (j, s) } } } }"

subsection \<open>Inodes\<close>

definition free_inode :: "'a fs_scheme io \<Rightarrow> nat option \<Rightarrow> 'a fs_scheme \<Rightarrow> 'a fs_scheme option" where
  "free_inode io inode s =
     (case inode of
        None \<Rightarrow> Some s
      | Some i \<Rightarrow>
          if i_dev (inode_table s i) = 0 then Some (update_inode i (\<lambda>_. zero_inode) s)
          else if i_count (inode_table s i) > 1 then None
          else if i_nlinks (inode_table s i) \<noteq> 0 then None
          else do {
            (sb, s) \<leftarrow> get_super io (uint (i_dev (inode_table s i))) s;
            sb \<leftarrow> sb;
            let n = i_num (inode_table s i);
            if n < 1 \<or> n > s_ninodes (super_blocks s sb) then None
            else do {
              bh \<leftarrow> s_imap (super_blocks s sb) ! unat (drop_bit 13 n);
              let s = update_bh bh (\<lambda>b. b\<lparr>b_data := put_bit (unat (n AND 8191)) False (b_data b), b_dirt := True\<rparr>) s;
              Some (update_inode i (\<lambda>_. zero_inode) s) } })"

subsection \<open>\<open>fs/truncate.c\<close>\<close>

text \<open>\<open>free_ind\<close> frees the blocks an indirect block names, \<open>free_dind\<close> those of a doubly indirect one.\<close>

definition free_pointers ::
  "(int \<Rightarrow> 'a fs_scheme \<Rightarrow> 'a fs_scheme option) \<Rightarrow> nat \<Rightarrow> 'a fs_scheme \<Rightarrow> 'a fs_scheme option" where
  "free_pointers f bh s =
     fold_opt (\<lambda>i s.
       let p = get_short (b_data (buffers s bh)) i in if p \<noteq> 0 then f (uint p) s else Some s) [0..<512] s"

definition free_ind :: "'a fs_scheme io \<Rightarrow> int \<Rightarrow> int \<Rightarrow> 'a fs_scheme \<Rightarrow> 'a fs_scheme option" where
  "free_ind io dev block s =
     (if block = 0 then Some s
      else do {
        (bh, s) \<leftarrow> bread io dev block s;
        s \<leftarrow> (case bh of
                None \<Rightarrow> Some s
              | Some b \<Rightarrow> do { s \<leftarrow> free_pointers (free_block io dev) b s; brelse io bh s });
        free_block io dev block s })"

definition free_dind :: "'a fs_scheme io \<Rightarrow> int \<Rightarrow> int \<Rightarrow> 'a fs_scheme \<Rightarrow> 'a fs_scheme option" where
  "free_dind io dev block s =
     (if block = 0 then Some s
      else do {
        (bh, s) \<leftarrow> bread io dev block s;
        s \<leftarrow> (case bh of
                None \<Rightarrow> Some s
              | Some b \<Rightarrow> do { s \<leftarrow> free_pointers (free_ind io dev) b s; brelse io bh s });
        free_block io dev block s })"

definition set_zone :: "nat \<Rightarrow> u16 \<Rightarrow> m_inode \<Rightarrow> m_inode" where
  "set_zone k v i = i\<lparr>i_zone := (i_zone i)[k := v]\<rparr>"

definition truncate_file :: "'a fs_scheme io \<Rightarrow> nat \<Rightarrow> 'a fs_scheme \<Rightarrow> 'a fs_scheme option" where
  "truncate_file io i s =
     (if \<not> (S_ISREG (i_mode (inode_table s i)) \<or> S_ISDIR (i_mode (inode_table s i))) then Some s
      else do {
        s \<leftarrow> fold_opt (\<lambda>k s.
               if i_zone (inode_table s i) ! k \<noteq> 0
               then do { s \<leftarrow> free_block io (uint (i_dev (inode_table s i))) (uint (i_zone (inode_table s i) ! k)) s;
                         Some (update_inode i (set_zone k 0) s) }
               else Some s) [0..<7] s;
        s \<leftarrow> free_ind io (uint (i_dev (inode_table s i))) (uint (i_zone (inode_table s i) ! 7)) s;
        s \<leftarrow> free_dind io (uint (i_dev (inode_table s i))) (uint (i_zone (inode_table s i) ! 8)) s;
        let s = update_inode i (\<lambda>n. set_zone 8 0 (set_zone 7 0 n)) s;
        let now = of_int (CURRENT_TIME s);
        Some (update_inode i (\<lambda>n. n\<lparr>i_size := 0, i_dirt := True, i_mtime := now, i_ctime := now\<rparr>) s) })"

end
