(* ===== verification/Inode.thy ===== *)
theory Inode
  imports Bitmap
begin

text \<open>
  \<open>fs/inode.c\<close> and \<open>new_inode\<close> of \<open>fs/bitmap.c\<close>: inodes on disk and in memory, the map from the blocks
  of a file to the blocks of the disk, and the reference counts of \<open>inode_table\<close>.
\<close>

subsection \<open>Inodes on disk\<close>

text \<open>\<open>struct d_inode\<close>: the first 32 bytes of a \<open>struct m_inode\<close>, 32 of them to a block.\<close>

abbreviation (input) INODES_PER_BLOCK :: u32 where "INODES_PER_BLOCK \<equiv> 32"

definition decode_inode :: "u8 list \<Rightarrow> m_inode \<Rightarrow> m_inode" where
  "decode_inode d i = i\<lparr>i_mode := get_short d 0, i_uid := get_short d 1, i_size := get_long d 1,
     i_mtime := get_long d 2, i_gid := d ! 12, i_nlinks := d ! 13,
     i_zone := map (\<lambda>k. get_short d (7 + k)) [0..<9]\<rparr>"

definition encode_inode :: "m_inode \<Rightarrow> u8 list" where
  "encode_inode i = short_bytes (i_mode i) @ short_bytes (i_uid i) @ long_bytes (i_size i) @ long_bytes (i_mtime i)
     @ [i_gid i, i_nlinks i] @ concat (map short_bytes (i_zone i))"

definition inode_block :: "super_block \<Rightarrow> u16 \<Rightarrow> int" where
  "inode_block sb n =
     sint (2 + ucast (s_imap_blocks sb) + ucast (s_zmap_blocks sb) + (ucast n - 1) div INODES_PER_BLOCK)"

definition inode_offset :: "u16 \<Rightarrow> nat" where
  "inode_offset n = 32 * unat ((ucast n - 1) mod INODES_PER_BLOCK)"

definition read_inode :: "'a fs_scheme io \<Rightarrow> nat \<Rightarrow> 'a fs_scheme \<Rightarrow> 'a fs_scheme option" where
  "read_inode io i s =
     do { s \<leftarrow> lock_inode io i s;
          (sb, s) \<leftarrow> get_super io (uint (i_dev (inode_table s i))) s;
          sb \<leftarrow> sb;
          let n = i_num (inode_table s i);
          (bh, s) \<leftarrow> bread io (uint (i_dev (inode_table s i))) (inode_block (super_blocks s sb) n) s;
          bh \<leftarrow> bh;
          let s = update_inode i (decode_inode (drop (inode_offset n) (b_data (buffers s bh)))) s;
          s \<leftarrow> brelse io (Some bh) s;
          Some (unlock_inode i s) }"

definition write_inode :: "'a fs_scheme io \<Rightarrow> nat \<Rightarrow> 'a fs_scheme \<Rightarrow> 'a fs_scheme option" where
  "write_inode io i s =
     do { s \<leftarrow> lock_inode io i s;
          if \<not> i_dirt (inode_table s i) \<or> i_dev (inode_table s i) = 0 then Some (unlock_inode i s)
          else do {
            (sb, s) \<leftarrow> get_super io (uint (i_dev (inode_table s i))) s;
            sb \<leftarrow> sb;
            let n = i_num (inode_table s i);
            (bh, s) \<leftarrow> bread io (uint (i_dev (inode_table s i))) (inode_block (super_blocks s sb) n) s;
            bh \<leftarrow> bh;
            let d = encode_inode (inode_table s i);
            let s = update_bh bh (\<lambda>b. b\<lparr>b_data := take (inode_offset n) (b_data b) @ d
                                       @ drop (inode_offset n + 32) (b_data b), b_dirt := True\<rparr>) s;
            let s = update_inode i (i_dirt_update (\<lambda>_. False)) s;
            s \<leftarrow> brelse io (Some bh) s;
            Some (unlock_inode i s) } }"

definition sync_inodes :: "'a fs_scheme io \<Rightarrow> 'a fs_scheme \<Rightarrow> 'a fs_scheme option" where
  "sync_inodes io s =
     fold_opt (\<lambda>i s. do {
       s \<leftarrow> wait_on_inode io i s;
       if i_dirt (inode_table s i) \<and> \<not> i_pipe (inode_table s i) then write_inode io i s else Some s }) [0..<NR_INODE] s"

definition invalidate_inodes :: "'a fs_scheme io \<Rightarrow> int \<Rightarrow> 'a fs_scheme \<Rightarrow> 'a fs_scheme option" where
  "invalidate_inodes io dev s =
     fold_opt (\<lambda>i s. do {
       s \<leftarrow> wait_on_inode io i s;
       Some (if uint (i_dev (inode_table s i)) = dev
             then update_inode i (\<lambda>n. n\<lparr>i_dev := 0, i_dirt := False\<rparr>) s else s) }) [0..<NR_INODE] s"

text \<open>
  \<open>getblk\<close> calls \<open>sync_inodes\<close>, which calls \<open>write_inode\<close>, \<open>bread\<close> and \<open>getblk\<close> again. \<open>kernel_io n\<close>
  is the kernel's own block layer with room on its stack for \<open>n\<close> such nested calls.
\<close>

fun kernel_io :: "nat \<Rightarrow> 'a fs_scheme io \<Rightarrow> 'a fs_scheme io" where
  "kernel_io 0 io = io\<lparr>write_inodes := (\<lambda>_. None)\<rparr>"
| "kernel_io (Suc n) io = io\<lparr>write_inodes := sync_inodes (kernel_io n io)\<rparr>"

subsection \<open>The blocks of a file\<close>

text \<open>An entry of an indirect block, given a block when it has none and one is wanted.\<close>

definition map_entry ::
  "'a fs_scheme io \<Rightarrow> int \<Rightarrow> nat \<Rightarrow> nat \<Rightarrow> bool \<Rightarrow> 'a fs_scheme \<Rightarrow> (int \<times> 'a fs_scheme) option" where
  "map_entry io dev bh k create s =
     do { let i = uint (get_short (b_data (buffers s bh)) k);
          (i, s) \<leftarrow> (if create \<and> i = 0
                     then do { (n, s) \<leftarrow> new_block io dev s;
                               Some (n, if n \<noteq> 0
                                        then update_bh bh (\<lambda>b. b\<lparr>b_data := set_short k (of_int n) (b_data b), b_dirt := True\<rparr>) s
                                        else s) }
                     else Some (i, s));
          s \<leftarrow> brelse io (Some bh) s;
          Some (i, s) }"

text \<open>Entry \<open>k\<close> of \<open>i_zone\<close>, filled the same way.\<close>

definition map_zone ::
  "'a fs_scheme io \<Rightarrow> nat \<Rightarrow> nat \<Rightarrow> bool \<Rightarrow> 'a fs_scheme \<Rightarrow> (int \<times> 'a fs_scheme) option" where
  "map_zone io i k create s =
     do { s \<leftarrow> (if create \<and> i_zone (inode_table s i) ! k = 0
                then do { (n, s) \<leftarrow> new_block io (uint (i_dev (inode_table s i))) s;
                          let s = update_inode i (set_zone k (of_int n)) s;
                          let now = of_int (CURRENT_TIME s);
                          Some (if (of_int n :: u16) \<noteq> 0
                                then update_inode i (\<lambda>x. x\<lparr>i_ctime := now, i_dirt := True\<rparr>) s else s) }
                else Some s);
          Some (uint (i_zone (inode_table s i) ! k), s) }"

definition bmap_create ::
  "'a fs_scheme io \<Rightarrow> nat \<Rightarrow> int \<Rightarrow> bool \<Rightarrow> 'a fs_scheme \<Rightarrow> (int \<times> 'a fs_scheme) option" where
  "bmap_create io i block create s =
     (if block < 0 then None
      else if block \<ge> 7 + 512 + 512 * 512 then None
      else if block < 7 then map_zone io i (nat block) create s
      else
        let block = block - 7
        in if block < 512
        then do {
          (z, s) \<leftarrow> map_zone io i 7 create s;
          if z = 0 then Some (0, s)
          else do {
            (bh, s) \<leftarrow> bread io (uint (i_dev (inode_table s i))) z s;
            case bh of
              None \<Rightarrow> Some (0, s)
            | Some bh \<Rightarrow> map_entry io (uint (i_dev (inode_table s i))) bh (nat block) create s } }
        else
          let block = block - 512
          in do {
            (z, s) \<leftarrow> map_zone io i 8 create s;
            if z = 0 then Some (0, s)
            else do {
              (bh, s) \<leftarrow> bread io (uint (i_dev (inode_table s i))) z s;
              case bh of
                None \<Rightarrow> Some (0, s)
              | Some bh \<Rightarrow> do {
                  (n, s) \<leftarrow> map_entry io (uint (i_dev (inode_table s i))) bh (nat (block div 512)) create s;
                  if n = 0 then Some (0, s)
                  else do {
                    (bh, s) \<leftarrow> bread io (uint (i_dev (inode_table s i))) n s;
                    case bh of
                      None \<Rightarrow> Some (0, s)
                    | Some bh \<Rightarrow>
                        map_entry io (uint (i_dev (inode_table s i))) bh (nat (block AND 511)) create s } } } })"

definition bmap :: "'a fs_scheme io \<Rightarrow> nat \<Rightarrow> int \<Rightarrow> 'a fs_scheme \<Rightarrow> (int \<times> 'a fs_scheme) option" where
  "bmap io i block s = bmap_create io i block False s"

definition create_block :: "'a fs_scheme io \<Rightarrow> nat \<Rightarrow> int \<Rightarrow> 'a fs_scheme \<Rightarrow> (int \<times> 'a fs_scheme) option" where
  "create_block io i block s = bmap_create io i block True s"

subsection \<open>Reference counts\<close>

partial_function (option) iput_loop :: "'a fs_scheme io \<Rightarrow> nat \<Rightarrow> 'a fs_scheme \<Rightarrow> 'a fs_scheme option" where
  "iput_loop io i s =
     (if i_count (inode_table s i) > 1 then Some (update_inode i (\<lambda>n. n\<lparr>i_count := i_count n - 1\<rparr>) s)
      else if i_nlinks (inode_table s i) = 0 then do { s \<leftarrow> truncate_file io i s; free_inode io (Some i) s }
      else if i_dirt (inode_table s i)
      then do { s \<leftarrow> write_inode io i s; s \<leftarrow> wait_on_inode io i s; iput_loop io i s }
      else Some (update_inode i (\<lambda>n. n\<lparr>i_count := i_count n - 1\<rparr>) s))"

definition iput :: "'a fs_scheme io \<Rightarrow> nat option \<Rightarrow> 'a fs_scheme \<Rightarrow> 'a fs_scheme option" where
  "iput io inode s =
     (case inode of
        None \<Rightarrow> Some s
      | Some i \<Rightarrow> do {
          s \<leftarrow> wait_on_inode io i s;
          if i_count (inode_table s i) = 0 then None
          else if i_pipe (inode_table s i)
          then
            let s = wake_up (inode_queue i) s;
                s = update_inode i (\<lambda>n. n\<lparr>i_count := i_count n - 1\<rparr>) s
            in if i_count (inode_table s i) \<noteq> 0 then Some s
               else do { s \<leftarrow> free_page (i_size (inode_table s i)) s;
                         Some (update_inode i (\<lambda>n. n\<lparr>i_count := 0, i_dirt := False, i_pipe := False\<rparr>) s) }
          else if i_dev (inode_table s i) = 0 then Some (update_inode i (\<lambda>n. n\<lparr>i_count := i_count n - 1\<rparr>) s)
          else do {
            s \<leftarrow> (if S_ISBLK (i_mode (inode_table s i))
                  then do { (r, s) \<leftarrow> sync_dev io (uint (i_zone (inode_table s i) ! 0)) s; wait_on_inode io i s }
                  else Some s);
            iput_loop io i s } })"

text \<open>The loop over \<open>inode_table\<close>, from the entry after the last one used: \<open>n\<close> entries are left.\<close>

fun scan_inodes :: "nat \<Rightarrow> nat \<Rightarrow> nat option \<Rightarrow> (nat \<Rightarrow> m_inode) \<Rightarrow> nat \<times> nat option" where
  "scan_inodes 0 pos inode T = (pos, inode)"
| "scan_inodes (Suc n) pos inode T =
     (let pos = (if pos + 1 \<ge> NR_INODE then 0 else pos + 1)
      in if i_count (T pos) \<noteq> 0 then scan_inodes n pos inode T
         else if \<not> i_dirt (T pos) \<and> \<not> i_lock (T pos) then (pos, Some pos)
         else scan_inodes n pos (Some pos) T)"

partial_function (option) clean_inode :: "'a fs_scheme io \<Rightarrow> nat \<Rightarrow> 'a fs_scheme \<Rightarrow> 'a fs_scheme option" where
  "clean_inode io i s =
     (if i_dirt (inode_table s i)
      then do { s \<leftarrow> write_inode io i s; s \<leftarrow> wait_on_inode io i s; clean_inode io i s }
      else Some s)"

partial_function (option) get_empty_inode :: "'a fs_scheme io \<Rightarrow> 'a fs_scheme \<Rightarrow> (nat \<times> 'a fs_scheme) option" where
  "get_empty_inode io s =
     (let (pos, inode) = scan_inodes NR_INODE (last_inode s) None (inode_table s);
          s = s\<lparr>last_inode := pos\<rparr>
      in do {
        i \<leftarrow> inode;
        s \<leftarrow> wait_on_inode io i s;
        s \<leftarrow> clean_inode io i s;
        if i_count (inode_table s i) \<noteq> 0 then get_empty_inode io s
        else Some (i, update_inode i (\<lambda>_. zero_inode\<lparr>i_count := 1\<rparr>) s) })"

definition get_pipe_inode :: "'a fs_scheme io \<Rightarrow> 'a fs_scheme \<Rightarrow> (nat option \<times> 'a fs_scheme) option" where
  "get_pipe_inode io s =
     do { (i, s) \<leftarrow> get_empty_inode io s;
          let (page, s) = get_free_page s;
          let s = update_inode i (i_size_update (\<lambda>_. page)) s;
          if page = 0 then Some (None, update_inode i (i_count_update (\<lambda>_. 0)) s)
          else Some (Some i, update_inode i (\<lambda>n. set_zone 1 0 (set_zone 0 0 (n\<lparr>i_count := 2, i_pipe := True\<rparr>))) s) }"

text \<open>The search of \<open>iget\<close>: through \<open>inode_table\<close>, across mount points.\<close>

partial_function (option) iget_loop ::
  "'a fs_scheme io \<Rightarrow> int \<Rightarrow> int \<Rightarrow> nat \<Rightarrow> nat \<Rightarrow> 'a fs_scheme \<Rightarrow> (nat \<times> 'a fs_scheme) option" where
  "iget_loop io dev nr i spare s =
     (if NR_INODE \<le> i
      then do {
        let s = update_inode spare (\<lambda>n. n\<lparr>i_dev := of_int dev, i_num := of_int nr\<rparr>) s;
        s \<leftarrow> read_inode io spare s;
        Some (spare, s) }
      else if uint (i_dev (inode_table s i)) \<noteq> dev \<or> uint (i_num (inode_table s i)) \<noteq> nr
      then iget_loop io dev nr (i + 1) spare s
      else do {
        s \<leftarrow> wait_on_inode io i s;
        if uint (i_dev (inode_table s i)) \<noteq> dev \<or> uint (i_num (inode_table s i)) \<noteq> nr
        then iget_loop io dev nr 0 spare s
        else
          let s = update_inode i (\<lambda>n. n\<lparr>i_count := i_count n + 1\<rparr>) s
          in if i_mount (inode_table s i)
          then (case List.find (\<lambda>k. s_imount (super_blocks s k) = Some i) [0..<NR_SUPER] of
                  None \<Rightarrow> do { s \<leftarrow> iput io (Some spare) s; Some (i, s) }
                | Some k \<Rightarrow> do {
                    s \<leftarrow> iput io (Some i) s;
                    iget_loop io (uint (s_dev (super_blocks s k))) ROOT_INO 0 spare s })
          else do { s \<leftarrow> iput io (Some spare) s; Some (i, s) } })"

definition iget :: "'a fs_scheme io \<Rightarrow> int \<Rightarrow> int \<Rightarrow> 'a fs_scheme \<Rightarrow> (nat \<times> 'a fs_scheme) option" where
  "iget io dev nr s =
     (if dev = 0 then None
      else do { (spare, s) \<leftarrow> get_empty_inode io s; iget_loop io dev nr 0 spare s })"

definition new_inode :: "'a fs_scheme io \<Rightarrow> int \<Rightarrow> 'a fs_scheme \<Rightarrow> (nat option \<times> 'a fs_scheme) option" where
  "new_inode io dev s =
     do { (inode, s) \<leftarrow> get_empty_inode io s;
          (sb, s) \<leftarrow> get_super io dev s;
          sb \<leftarrow> sb;
          let found = scan_maps 0 (s_imap (super_blocks s sb)) (buffers s);
          case found of
            None \<Rightarrow> do { s \<leftarrow> iput io (Some inode) s; Some (None, s) }
          | Some (i, bh, j) \<Rightarrow>
              if int j + int i * 8192 > uint (s_ninodes (super_blocks s sb))
              then do { s \<leftarrow> iput io (Some inode) s; Some (None, s) }
              else if test_bit j (b_data (buffers s bh)) then None
              else
                let s = update_bh bh (\<lambda>b. b\<lparr>b_data := put_bit j True (b_data b), b_dirt := True\<rparr>) s;
                    now = of_int (CURRENT_TIME s);
                    s = update_inode inode (\<lambda>n. n\<lparr>i_count := 1, i_nlinks := 1, i_dev := of_int dev,
                          i_uid := t_euid (cur_task s), i_gid := ucast (t_egid (cur_task s)), i_dirt := True,
                          i_num := of_nat (j + i * 8192), i_mtime := now, i_atime := now, i_ctime := now\<rparr>) s
                in Some (Some inode, s) }"

end
