(* ===== verification/Namei.thy ===== *)
theory Namei
  imports Inode
begin

text \<open>
  \<open>fs/namei.c\<close>: permissions, directory entries, and the system calls that look names up or change
  directories. A \<open>struct dir_entry *\<close> into a buffer is the buffer and the number of the entry in it;
  path names are addresses in the user's data segment. After a block of a directory could not be
  read \<open>find_entry\<close> and \<open>add_entry\<close> compare with \<open>bh->b_data\<close> for a \<open>NULL\<close> \<open>bh\<close>: that reads the first
  entry of the page directory, a small number, so the comparison succeeds as it does here.
\<close>

subsection \<open>Permissions\<close>

abbreviation (input) MAY_EXEC :: int where "MAY_EXEC \<equiv> 1"
abbreviation (input) MAY_WRITE :: int where "MAY_WRITE \<equiv> 2"
abbreviation (input) MAY_READ :: int where "MAY_READ \<equiv> 4"
abbreviation (input) O_ACCMODE :: int where "O_ACCMODE \<equiv> 3"
abbreviation (input) O_WRONLY :: int where "O_WRONLY \<equiv> 1"
abbreviation (input) O_CREAT :: int where "O_CREAT \<equiv> 0x40"
abbreviation (input) O_EXCL :: int where "O_EXCL \<equiv> 0x80"
abbreviation (input) O_TRUNC :: int where "O_TRUNC \<equiv> 0x200"
abbreviation (input) O_APPEND :: int where "O_APPEND \<equiv> 0x400"
abbreviation (input) O_NONBLOCK :: int where "O_NONBLOCK \<equiv> 0x800"
abbreviation (input) SLASH :: u8 where "SLASH \<equiv> 47"
abbreviation (input) DOT :: u8 where "DOT \<equiv> 46"
abbreviation (input) NAME_LEN :: nat where "NAME_LEN \<equiv> 14"
abbreviation (input) DIR_ENTRIES_PER_BLOCK :: nat where "DIR_ENTRIES_PER_BLOCK \<equiv> 64"

definition ACC_MODE :: "int \<Rightarrow> int" where
  "ACC_MODE x = [4, 2, 6, -1] ! nat (x AND O_ACCMODE)"

definition permission :: "nat \<Rightarrow> int \<Rightarrow> 'a fs_scheme \<Rightarrow> bool" where
  "permission i m s =
     (let inode = inode_table s i;
          mode = uint (i_mode inode)
      in if i_dev inode \<noteq> 0 \<and> i_nlinks inode = 0 then False
      else
        let mode = (if t_euid (cur_task s) = i_uid inode then drop_bit 6 mode
                    else if t_egid (cur_task s) = ucast (i_gid inode) then drop_bit 3 mode
                    else mode)
        in mode AND m AND 7 = m \<or> suser s)"

subsection \<open>Directory entries\<close>

definition de_inode :: "u8 list \<Rightarrow> nat \<Rightarrow> u16" where
  "de_inode d k = get_short d (8 * k)"

definition de_name :: "u8 list \<Rightarrow> nat \<Rightarrow> u8 list" where
  "de_name d k = take NAME_LEN (drop (16 * k + 2) d)"

definition set_de_inode :: "nat \<Rightarrow> nat \<Rightarrow> u16 \<Rightarrow> 'a fs_scheme \<Rightarrow> 'a fs_scheme" where
  "set_de_inode bh k v s = update_bh bh (\<lambda>b. b\<lparr>b_data := set_short (8 * k) v (b_data b)\<rparr>) s"

text \<open>Bytes stored from the beginning of the name of an entry.\<close>

definition set_de_name :: "nat \<Rightarrow> nat \<Rightarrow> u8 list \<Rightarrow> 'a fs_scheme \<Rightarrow> 'a fs_scheme" where
  "set_de_name bh k cs s = update_bh bh (\<lambda>b. b\<lparr>b_data :=
     take (16 * k + 2) (b_data b) @ cs @ drop (16 * k + 2 + length cs) (b_data b)\<rparr>) s"

definition match :: "nat \<Rightarrow> u32 \<Rightarrow> u8 list \<Rightarrow> nat \<Rightarrow> 'a fs_scheme \<Rightarrow> bool" where
  "match len name d k s \<longleftrightarrow>
     de_inode d k \<noteq> 0 \<and> len \<le> NAME_LEN \<and> \<not> (len < NAME_LEN \<and> de_name d k ! len \<noteq> 0)
     \<and> read_bytes name len (umem s) = take len (de_name d k)"

partial_function (option) find_entry_loop ::
  "'a fs_scheme io \<Rightarrow> nat \<Rightarrow> u32 \<Rightarrow> nat \<Rightarrow> nat \<Rightarrow> nat option \<Rightarrow> nat \<Rightarrow> nat \<Rightarrow> 'a fs_scheme
     \<Rightarrow> ((nat \<times> nat) option \<times> 'a fs_scheme) option" where
  "find_entry_loop io dir name namelen entries bh de i s =
     (if entries \<le> i then do { s \<leftarrow> brelse io bh s; Some (None, s) }
      else do {
        (bh, de, s) \<leftarrow>
          (if bh = None \<or> DIR_ENTRIES_PER_BLOCK \<le> de
           then do {
             s \<leftarrow> brelse io bh s;
             (block, s) \<leftarrow> bmap io dir (int (i div DIR_ENTRIES_PER_BLOCK)) s;
             if block = 0 then Some (None, de, s)
             else do { (bh, s) \<leftarrow> bread io (uint (i_dev (inode_table s dir))) block s;
                       Some (bh, if bh = None then de else 0, s) } }
           else Some (bh, de, s));
        case bh of
          None \<Rightarrow> find_entry_loop io dir name namelen entries None de (i + DIR_ENTRIES_PER_BLOCK) s
        | Some b \<Rightarrow>
            if match namelen name (b_data (buffers s b)) de s then Some (Some (b, de), s)
            else find_entry_loop io dir name namelen entries bh (de + 1) (i + 1) s })"

text \<open>The directory searched (\<open>..\<close> may replace it), and the entry found.\<close>

definition find_entry ::
  "'a fs_scheme io \<Rightarrow> nat \<Rightarrow> u32 \<Rightarrow> nat \<Rightarrow> 'a fs_scheme \<Rightarrow> (nat \<times> (nat \<times> nat) option \<times> 'a fs_scheme) option" where
  "find_entry io dir name namelen s =
     (let namelen = min namelen NAME_LEN;
          entries = unat (i_size (inode_table s dir)) div 16
      in if namelen = 0 then Some (dir, None, s)
      else do {
        (namelen, dir, s) \<leftarrow>
          (if namelen = 2 \<and> get_fs_byte name s = DOT \<and> get_fs_byte (name + 1) s = DOT
           then if Some dir = t_root (cur_task s) then Some (1, dir, s)
           else if uint (i_num (inode_table s dir)) = ROOT_INO
           then do {
             (sb, s) \<leftarrow> get_super io (uint (i_dev (inode_table s dir))) s;
             sb \<leftarrow> sb;
             case s_imount (super_blocks s sb) of
               None \<Rightarrow> Some (namelen, dir, s)
             | Some m \<Rightarrow> do {
                 s \<leftarrow> iput io (Some dir) s;
                 dir \<leftarrow> s_imount (super_blocks s sb);
                 Some (namelen, dir, update_inode dir (\<lambda>n. n\<lparr>i_count := i_count n + 1\<rparr>) s) } }
           else Some (namelen, dir, s)
           else Some (namelen, dir, s));
        let block = uint (i_zone (inode_table s dir) ! 0);
        if block = 0 then Some (dir, None, s)
        else do {
          (bh, s) \<leftarrow> bread io (uint (i_dev (inode_table s dir))) block s;
          if bh = None then Some (dir, None, s)
          else do {
            (r, s) \<leftarrow> find_entry_loop io dir name namelen entries bh 0 0 s;
            Some (dir, r, s) } } })"

text \<open>The name stored in a new entry: the bytes of the name, then zeros.\<close>

definition entry_name :: "u32 \<Rightarrow> nat \<Rightarrow> 'a fs_scheme \<Rightarrow> u8 list" where
  "entry_name name namelen s =
     map (\<lambda>i. if i < namelen then get_fs_byte (name + of_nat i) s else 0) [0..<NAME_LEN]"

partial_function (option) add_entry_loop ::
  "'a fs_scheme io \<Rightarrow> nat \<Rightarrow> u32 \<Rightarrow> nat \<Rightarrow> nat option \<Rightarrow> nat \<Rightarrow> nat \<Rightarrow> 'a fs_scheme
     \<Rightarrow> ((nat \<times> nat) option \<times> 'a fs_scheme) option" where
  "add_entry_loop io dir name namelen bh de i s =
     do { (stop, bh, de, s) \<leftarrow>
            (if bh = None \<or> DIR_ENTRIES_PER_BLOCK \<le> de
             then do {
               s \<leftarrow> brelse io bh s;
               (block, s) \<leftarrow> create_block io dir (int (i div DIR_ENTRIES_PER_BLOCK)) s;
               if block = 0 then Some (True, None, de, s)
               else do { (bh, s) \<leftarrow> bread io (uint (i_dev (inode_table s dir))) block s;
                         Some (False, bh, if bh = None then de else 0, s) } }
             else Some (False, bh, de, s));
          if stop then Some (None, s)
          else case bh of
            None \<Rightarrow> add_entry_loop io dir name namelen None de (i + DIR_ENTRIES_PER_BLOCK) s
          | Some b \<Rightarrow>
              let now = of_int (CURRENT_TIME s);
                  s = (if of_nat (i * 16) \<ge> i_size (inode_table s dir)
                       then update_inode dir (\<lambda>n. n\<lparr>i_size := of_nat ((i + 1) * 16), i_dirt := True, i_ctime := now\<rparr>)
                              (set_de_inode b de 0 s)
                       else s)
              in if de_inode (b_data (buffers s b)) de = 0
                 then
                   let s = update_inode dir (i_mtime_update (\<lambda>_. now)) s;
                       s = set_de_name b de (entry_name name namelen s) s;
                       s = update_bh b (b_dirt_update (\<lambda>_. True)) s
                   in Some (Some (b, de), s)
                 else add_entry_loop io dir name namelen bh (de + 1) (i + 1) s }"

definition add_entry ::
  "'a fs_scheme io \<Rightarrow> nat \<Rightarrow> u32 \<Rightarrow> nat \<Rightarrow> 'a fs_scheme \<Rightarrow> ((nat \<times> nat) option \<times> 'a fs_scheme) option" where
  "add_entry io dir name namelen s =
     (let namelen = min namelen NAME_LEN;
          block = uint (i_zone (inode_table s dir) ! 0)
      in if namelen = 0 then Some (None, s)
      else if block = 0 then Some (None, s)
      else do {
        (bh, s) \<leftarrow> bread io (uint (i_dev (inode_table s dir))) block s;
        if bh = None then Some (None, s) else add_entry_loop io dir name namelen bh 0 0 s })"

subsection \<open>Path names\<close>

text \<open>The scan to the next \<open>/\<close> or to the end: length of the name, the character, the address after it.\<close>

partial_function (option) scan_name :: "u32 \<Rightarrow> nat \<Rightarrow> (u32 \<Rightarrow> u8) \<Rightarrow> (nat \<times> u8 \<times> u32) option" where
  "scan_name p namelen m =
     (let c = m p in if c \<noteq> 0 \<and> c \<noteq> SLASH then scan_name (p + 1) (namelen + 1) m else Some (namelen, c, p + 1))"

partial_function (option) get_dir_loop ::
  "'a fs_scheme io \<Rightarrow> nat \<Rightarrow> u32 \<Rightarrow> 'a fs_scheme \<Rightarrow> (nat option \<times> 'a fs_scheme) option" where
  "get_dir_loop io inode pathname s =
     (let thisname = pathname
      in if \<not> S_ISDIR (i_mode (inode_table s inode)) \<or> \<not> permission inode MAY_EXEC s
      then do { s \<leftarrow> iput io (Some inode) s; Some (None, s) }
      else do {
        (namelen, c, pathname) \<leftarrow> scan_name pathname 0 (umem s);
        if c = 0 then Some (Some inode, s)
        else do {
          (inode, r, s) \<leftarrow> find_entry io inode thisname namelen s;
          case r of
            None \<Rightarrow> do { s \<leftarrow> iput io (Some inode) s; Some (None, s) }
          | Some (bh, de) \<Rightarrow> do {
              let inr = uint (de_inode (b_data (buffers s bh)) de);
              let idev = uint (i_dev (inode_table s inode));
              s \<leftarrow> brelse io (Some bh) s;
              s \<leftarrow> iput io (Some inode) s;
              (inode, s) \<leftarrow> iget io idev inr s;
              get_dir_loop io inode pathname s } } })"

definition in_use :: "nat option \<Rightarrow> 'a fs_scheme \<Rightarrow> bool" where
  "in_use p s \<longleftrightarrow> (case p of None \<Rightarrow> False | Some i \<Rightarrow> i_count (inode_table s i) \<noteq> 0)"

definition get_dir :: "'a fs_scheme io \<Rightarrow> u32 \<Rightarrow> 'a fs_scheme \<Rightarrow> (nat option \<times> 'a fs_scheme) option" where
  "get_dir io pathname s =
     (if \<not> in_use (t_root (cur_task s)) s then None
      else if \<not> in_use (t_pwd (cur_task s)) s then None
      else
        let c = get_fs_byte pathname s
        in if c = 0 then Some (None, s)
        else
          let (inode, pathname) = (if c = SLASH then (the (t_root (cur_task s)), pathname + 1)
                                   else (the (t_pwd (cur_task s)), pathname))
          in get_dir_loop io inode pathname (update_inode inode (\<lambda>n. n\<lparr>i_count := i_count n + 1\<rparr>) s))"

text \<open>The loop of \<open>dir_namei\<close>: the address after the last \<open>/\<close>, and that after the final zero.\<close>

partial_function (option) last_name :: "u32 \<Rightarrow> u32 \<Rightarrow> (u32 \<Rightarrow> u8) \<Rightarrow> (u32 \<times> u32) option" where
  "last_name p base m =
     (let c = m p in if c = 0 then Some (base, p + 1) else last_name (p + 1) (if c = SLASH then p + 1 else base) m)"

definition dir_namei ::
  "'a fs_scheme io \<Rightarrow> u32 \<Rightarrow> 'a fs_scheme \<Rightarrow> ((nat \<times> nat \<times> u32) option \<times> 'a fs_scheme) option" where
  "dir_namei io pathname s =
     do { (dir, s) \<leftarrow> get_dir io pathname s;
          case dir of
            None \<Rightarrow> Some (None, s)
          | Some dir \<Rightarrow> do {
              (base, p) \<leftarrow> last_name pathname pathname (umem s);
              Some (Some (dir, unat (p - base - 1), base), s) } }"

definition namei :: "'a fs_scheme io \<Rightarrow> u32 \<Rightarrow> 'a fs_scheme \<Rightarrow> (nat option \<times> 'a fs_scheme) option" where
  "namei io pathname s =
     do { (r, s) \<leftarrow> dir_namei io pathname s;
          case r of
            None \<Rightarrow> Some (None, s)
          | Some (dir, namelen, basename) \<Rightarrow>
              if namelen = 0 then Some (Some dir, s)
              else do {
                (dir, r, s) \<leftarrow> find_entry io dir basename namelen s;
                case r of
                  None \<Rightarrow> do { s \<leftarrow> iput io (Some dir) s; Some (None, s) }
                | Some (bh, de) \<Rightarrow> do {
                    let inr = uint (de_inode (b_data (buffers s bh)) de);
                    let dev = uint (i_dev (inode_table s dir));
                    s \<leftarrow> brelse io (Some bh) s;
                    s \<leftarrow> iput io (Some dir) s;
                    (dir, s) \<leftarrow> iget io dev inr s;
                    let now = of_int (CURRENT_TIME s);
                    Some (Some dir, update_inode dir (\<lambda>n. n\<lparr>i_atime := now, i_dirt := True\<rparr>) s) } } }"

text \<open>The part of \<open>open_namei\<close> that creates the file: the entry is not in the directory.\<close>

definition open_create ::
  "'a fs_scheme io \<Rightarrow> nat \<Rightarrow> u32 \<Rightarrow> nat \<Rightarrow> int \<Rightarrow> int \<Rightarrow> 'a fs_scheme \<Rightarrow> (int \<times> nat option \<times> 'a fs_scheme) option" where
  "open_create io dir basename namelen flag mode s =
     (if flag AND O_CREAT = 0 then do { s \<leftarrow> iput io (Some dir) s; Some (-ENOENT, None, s) }
      else if \<not> permission dir MAY_WRITE s then do { s \<leftarrow> iput io (Some dir) s; Some (-EACCES, None, s) }
      else do {
        (inode, s) \<leftarrow> new_inode io (uint (i_dev (inode_table s dir))) s;
        case inode of
          None \<Rightarrow> do { s \<leftarrow> iput io (Some dir) s; Some (-ENOSPC, None, s) }
        | Some i \<Rightarrow> do {
            let s = update_inode i (\<lambda>n. n\<lparr>i_uid := t_euid (cur_task s), i_mode := of_int mode, i_dirt := True\<rparr>) s;
            (r, s) \<leftarrow> add_entry io dir basename namelen s;
            case r of
              None \<Rightarrow> do {
                let s = update_inode i (\<lambda>n. n\<lparr>i_nlinks := i_nlinks n - 1\<rparr>) s;
                s \<leftarrow> iput io (Some i) s;
                s \<leftarrow> iput io (Some dir) s;
                Some (-ENOSPC, None, s) }
            | Some (bh, de) \<Rightarrow> do {
                let s = set_de_inode bh de (i_num (inode_table s i)) s;
                let s = update_bh bh (b_dirt_update (\<lambda>_. True)) s;
                s \<leftarrow> brelse io (Some bh) s;
                s \<leftarrow> iput io (Some dir) s;
                Some (0, Some i, s) } } })"

text \<open>The part that opens the file an entry names.\<close>

definition open_existing ::
  "'a fs_scheme io \<Rightarrow> nat \<Rightarrow> nat \<Rightarrow> nat \<Rightarrow> int \<Rightarrow> 'a fs_scheme \<Rightarrow> (int \<times> nat option \<times> 'a fs_scheme) option" where
  "open_existing io dir bh de flag s =
     do { let inr = uint (de_inode (b_data (buffers s bh)) de);
          let dev = uint (i_dev (inode_table s dir));
          s \<leftarrow> brelse io (Some bh) s;
          s \<leftarrow> iput io (Some dir) s;
          if flag AND O_EXCL \<noteq> 0 then Some (-EEXIST, None, s)
          else do {
            (i, s) \<leftarrow> iget io dev inr s;
            if S_ISDIR (i_mode (inode_table s i)) \<and> flag AND O_ACCMODE \<noteq> 0 \<or> \<not> permission i (ACC_MODE flag) s
            then do { s \<leftarrow> iput io (Some i) s; Some (-EPERM, None, s) }
            else do {
              let now = of_int (CURRENT_TIME s);
              let s = update_inode i (i_atime_update (\<lambda>_. now)) s;
              s \<leftarrow> (if flag AND O_TRUNC \<noteq> 0 then truncate_file io i s else Some s);
              Some (0, Some i, s) } } }"

definition open_namei ::
  "'a fs_scheme io \<Rightarrow> u32 \<Rightarrow> int \<Rightarrow> int \<Rightarrow> 'a fs_scheme \<Rightarrow> (int \<times> nat option \<times> 'a fs_scheme) option" where
  "open_namei io pathname flag mode s =
     do { let flag = (if flag AND O_TRUNC \<noteq> 0 \<and> flag AND O_ACCMODE = 0 then flag OR O_WRONLY else flag);
          let mode = (mode AND 0x1ff AND NOT (uint (t_umask (cur_task s)))) OR uint S_IFREG;
          (r, s) \<leftarrow> dir_namei io pathname s;
          case r of
            None \<Rightarrow> Some (-ENOENT, None, s)
          | Some (dir, namelen, basename) \<Rightarrow>
              if namelen = 0
              then if flag AND (O_ACCMODE OR O_CREAT OR O_TRUNC) = 0 then Some (0, Some dir, s)
                   else do { s \<leftarrow> iput io (Some dir) s; Some (-EISDIR, None, s) }
              else do {
                (dir, r, s) \<leftarrow> find_entry io dir basename namelen s;
                case r of
                  None \<Rightarrow> open_create io dir basename namelen flag mode s
                | Some (bh, de) \<Rightarrow> open_existing io dir bh de flag s } }"

end
