(* ===== verification/Mount.thy ===== *)
theory Mount
  imports Namei
begin

text \<open>
  \<open>fs/super.c\<close> and \<open>check_disk_change\<close> of \<open>fs/buffer.c\<close>: reading the super block of a device, mounting
  and unmounting.
\<close>

subsection \<open>Super blocks\<close>

definition release_maps :: "'a fs_scheme io \<Rightarrow> nat \<Rightarrow> 'a fs_scheme \<Rightarrow> 'a fs_scheme option" where
  "release_maps io k s =
     do { s \<leftarrow> fold_opt (\<lambda>i s. brelse io (s_imap (super_blocks s k) ! i) s) [0..<8] s;
          fold_opt (\<lambda>i s. brelse io (s_zmap (super_blocks s k) ! i) s) [0..<8] s }"

definition put_super :: "'a fs_scheme io \<Rightarrow> int \<Rightarrow> 'a fs_scheme \<Rightarrow> 'a fs_scheme option" where
  "put_super io dev s =
     (if dev = ROOT_DEV s then Some s
      else do {
        (sb, s) \<leftarrow> get_super io dev s;
        case sb of
          None \<Rightarrow> Some s
        | Some k \<Rightarrow>
            if s_imount (super_blocks s k) \<noteq> None then Some s
            else do {
              s \<leftarrow> lock_super io k s;
              let s = update_super k (s_dev_update (\<lambda>_. 0)) s;
              s \<leftarrow> release_maps io k s;
              Some (free_super k s) } })"

definition check_disk_change :: "'a fs_scheme io \<Rightarrow> int \<Rightarrow> 'a fs_scheme \<Rightarrow> 'a fs_scheme option" where
  "check_disk_change io dev s =
     (if MAJOR dev \<noteq> 2 then Some s
      else do {
        (changed, s) \<leftarrow> floppy_change io (dev AND 3) s;
        if \<not> changed then Some s
        else do {
          s \<leftarrow> fold_opt (\<lambda>i s. if uint (s_dev (super_blocks s i)) = dev
                               then put_super io (uint (s_dev (super_blocks s i))) s else Some s) [0..<NR_SUPER] s;
          s \<leftarrow> invalidate_inodes io dev s;
          invalidate_buffers io dev s } })"

text \<open>\<open>struct d_super_block\<close>: the first 18 bytes (the size is aligned to 4) of block 1.\<close>

definition decode_super :: "u8 list \<Rightarrow> super_block \<Rightarrow> super_block" where
  "decode_super d sb = sb\<lparr>s_ninodes := get_short d 0, s_nzones := get_short d 1, s_imap_blocks := get_short d 2,
     s_zmap_blocks := get_short d 3, s_firstdatazone := get_short d 4, s_log_zone_size := get_short d 5,
     s_max_size := get_long d 3, s_magic := get_short d 8\<rparr>"

text \<open>
  The loops that read the maps, up to the first block that cannot be read: the number of the next
  block. A super block that names more than eight map blocks makes the source write past the arrays.
\<close>

fun read_maps ::
  "'a fs_scheme io \<Rightarrow> int \<Rightarrow> (nat option \<Rightarrow> nat \<Rightarrow> super_block \<Rightarrow> super_block) \<Rightarrow> nat \<Rightarrow> nat \<Rightarrow> nat \<Rightarrow> int
     \<Rightarrow> 'a fs_scheme \<Rightarrow> (int \<times> 'a fs_scheme) option" where
  "read_maps io dev put k 0 i block s = Some (block, s)"
| "read_maps io dev put k (Suc n) i block s =
     do { (bh, s) \<leftarrow> bread io dev block s;
          if 8 \<le> i then None
          else
            let s = update_super k (put bh i) s
            in if bh = None then Some (block, s) else read_maps io dev put k n (i + 1) (block + 1) s }"

definition put_imap :: "nat option \<Rightarrow> nat \<Rightarrow> super_block \<Rightarrow> super_block" where
  "put_imap bh i sb = sb\<lparr>s_imap := (s_imap sb)[i := bh]\<rparr>"

definition put_zmap :: "nat option \<Rightarrow> nat \<Rightarrow> super_block \<Rightarrow> super_block" where
  "put_zmap bh i sb = sb\<lparr>s_zmap := (s_zmap sb)[i := bh]\<rparr>"

text \<open>Bit 0 of the first map block stands for no inode and no zone.\<close>

definition reserve_bit_0 :: "nat option \<Rightarrow> 'a fs_scheme \<Rightarrow> 'a fs_scheme option" where
  "reserve_bit_0 bh s =
     do { bh \<leftarrow> bh; Some (update_bh bh (\<lambda>b. b\<lparr>b_data := (b_data b)[0 := b_data b ! 0 OR 1]\<rparr>) s) }"

definition drop_super :: "nat \<Rightarrow> 'a fs_scheme \<Rightarrow> (nat option \<times> 'a fs_scheme) option" where
  "drop_super k s = Some (None, free_super k (update_super k (s_dev_update (\<lambda>_. 0)) s))"

definition fill_super :: "'a fs_scheme io \<Rightarrow> int \<Rightarrow> nat \<Rightarrow> 'a fs_scheme \<Rightarrow> (nat option \<times> 'a fs_scheme) option" where
  "fill_super io dev k s =
     do { (bh, s) \<leftarrow> bread io dev 1 s;
          case bh of
            None \<Rightarrow> drop_super k s
          | Some b \<Rightarrow> do {
              let s = update_super k (decode_super (b_data (buffers s b))) s;
              s \<leftarrow> brelse io bh s;
              if s_magic (super_blocks s k) \<noteq> SUPER_MAGIC then drop_super k s
              else do {
                let s = update_super k (\<lambda>x. x\<lparr>s_imap := replicate 8 None, s_zmap := replicate 8 None\<rparr>) s;
                (block, s) \<leftarrow> read_maps io dev put_imap k (unat (s_imap_blocks (super_blocks s k))) 0 2 s;
                (block, s) \<leftarrow> read_maps io dev put_zmap k (unat (s_zmap_blocks (super_blocks s k))) 0 block s;
                if block \<noteq> 2 + uint (s_imap_blocks (super_blocks s k)) + uint (s_zmap_blocks (super_blocks s k))
                then do { s \<leftarrow> release_maps io k s; drop_super k s }
                else do {
                  s \<leftarrow> reserve_bit_0 (s_imap (super_blocks s k) ! 0) s;
                  s \<leftarrow> reserve_bit_0 (s_zmap (super_blocks s k) ! 0) s;
                  Some (Some k, free_super k s) } } } }"

definition read_super :: "'a fs_scheme io \<Rightarrow> int \<Rightarrow> 'a fs_scheme \<Rightarrow> (nat option \<times> 'a fs_scheme) option" where
  "read_super io dev s =
     (if dev = 0 then Some (None, s)
      else do {
        s \<leftarrow> check_disk_change io dev s;
        (sb, s) \<leftarrow> get_super io dev s;
        case sb of
          Some k \<Rightarrow> Some (Some k, s)
        | None \<Rightarrow>
            (case List.find (\<lambda>k. s_dev (super_blocks s k) = 0) [0..<NR_SUPER] of
               None \<Rightarrow> Some (None, s)
             | Some k \<Rightarrow> do {
                 let s = update_super k (\<lambda>x. x\<lparr>s_dev := of_int dev, s_isup := None, s_imount := None, s_time := 0,
                            s_rd_only := False, s_dirt := False\<rparr>) s;
                 s \<leftarrow> lock_super io k s;
                 fill_super io dev k s }) })"

subsection \<open>Mounting\<close>

definition sys_umount :: "'a fs_scheme io \<Rightarrow> u32 \<Rightarrow> 'a fs_scheme \<Rightarrow> (int \<times> 'a fs_scheme) option" where
  "sys_umount io dev_name s =
     do { (inode, s) \<leftarrow> namei io dev_name s;
          case inode of
            None \<Rightarrow> Some (-ENOENT, s)
          | Some i \<Rightarrow> do {
              let dev = uint (i_zone (inode_table s i) ! 0);
              let blk = S_ISBLK (i_mode (inode_table s i));
              s \<leftarrow> iput io inode s;
              if \<not> blk then Some (-ENOTBLK, s)
              else if dev = ROOT_DEV s then Some (-EBUSY, s)
              else do {
                (sb, s) \<leftarrow> get_super io dev s;
                case sb of
                  None \<Rightarrow> Some (-ENOENT, s)
                | Some k \<Rightarrow>
                    (case s_imount (super_blocks s k) of
                       None \<Rightarrow> Some (-ENOENT, s)
                     | Some m \<Rightarrow>
                         if \<exists>n \<in> {0..<NR_INODE}. uint (i_dev (inode_table s n)) = dev \<and> i_count (inode_table s n) \<noteq> 0
                         then Some (-EBUSY, s)
                         else do {
                           let s = update_inode m (i_mount_update (\<lambda>_. False)) s;
                           s \<leftarrow> iput io (s_imount (super_blocks s k)) s;
                           let s = update_super k (s_imount_update (\<lambda>_. None)) s;
                           s \<leftarrow> iput io (s_isup (super_blocks s k)) s;
                           let s = update_super k (s_isup_update (\<lambda>_. None)) s;
                           s \<leftarrow> put_super io dev s;
                           (r, s) \<leftarrow> sync_dev io dev s;
                           Some (0, s) }) } } }"

definition sys_mount :: "'a fs_scheme io \<Rightarrow> u32 \<Rightarrow> u32 \<Rightarrow> int \<Rightarrow> 'a fs_scheme \<Rightarrow> (int \<times> 'a fs_scheme) option" where
  "sys_mount io dev_name dir_name rw_flag s =
     do { (dev_i, s) \<leftarrow> namei io dev_name s;
          case dev_i of
            None \<Rightarrow> Some (-ENOENT, s)
          | Some i \<Rightarrow> do {
              let dev = uint (i_zone (inode_table s i) ! 0);
              let blk = S_ISBLK (i_mode (inode_table s i));
              s \<leftarrow> iput io dev_i s;
              if \<not> blk then Some (-EPERM, s)
              else do {
                (dir_i, s) \<leftarrow> namei io dir_name s;
                case dir_i of
                  None \<Rightarrow> Some (-ENOENT, s)
                | Some d \<Rightarrow>
                    if i_count (inode_table s d) \<noteq> 1 \<or> uint (i_num (inode_table s d)) = ROOT_INO
                    then do { s \<leftarrow> iput io dir_i s; Some (-EBUSY, s) }
                    else if \<not> S_ISDIR (i_mode (inode_table s d))
                    then do { s \<leftarrow> iput io dir_i s; Some (-EPERM, s) }
                    else do {
                      (sb, s) \<leftarrow> read_super io dev s;
                      case sb of
                        None \<Rightarrow> do { s \<leftarrow> iput io dir_i s; Some (-EBUSY, s) }
                      | Some k \<Rightarrow>
                          if s_imount (super_blocks s k) \<noteq> None then do { s \<leftarrow> iput io dir_i s; Some (-EBUSY, s) }
                          else if i_mount (inode_table s d) then do { s \<leftarrow> iput io dir_i s; Some (-EPERM, s) }
                          else
                            let s = update_super k (s_imount_update (\<lambda>_. dir_i)) s;
                                s = update_inode d (\<lambda>n. n\<lparr>i_mount := True, i_dirt := True\<rparr>) s
                            in Some (0, s) } } } }"

text \<open>The root: counts of free blocks and inodes are only printed.\<close>

definition mount_root :: "'a fs_scheme io \<Rightarrow> 'a fs_scheme \<Rightarrow> 'a fs_scheme option" where
  "mount_root io s =
     do { let s = fold (\<lambda>i. update_file i (f_count_update (\<lambda>_. 0))) [0..<NR_FILE] s;
          s \<leftarrow> (if MAJOR (ROOT_DEV s) = 2 then wait_for_keypress (wait_env io) s else Some s);
          let s = fold (\<lambda>k. update_super k (\<lambda>x. x\<lparr>s_dev := 0, s_lock := False, s_wait := None\<rparr>)) [0..<NR_SUPER] s;
          (p, s) \<leftarrow> read_super io (ROOT_DEV s) s;
          p \<leftarrow> p;
          (mi, s) \<leftarrow> iget io (ROOT_DEV s) ROOT_INO s;
          let s = update_inode mi (\<lambda>n. n\<lparr>i_count := i_count n + 3\<rparr>) s;
          let s = update_super p (\<lambda>x. x\<lparr>s_isup := Some mi, s_imount := Some mi\<rparr>) s;
          Some (update_task (current s) (\<lambda>t. t\<lparr>t_pwd := Some mi, t_root := Some mi\<rparr>) s) }"

end
