(* ===== verification/Char_Dev.thy ===== *)
theory Char_Dev
  imports Fs
begin

text \<open>
  Character devices: \<open>kernel/chr_drv/tty_ioctl.c\<close>, \<open>fs/char_dev.c\<close>, and the tables that dispatch on the
  major number (\<open>fs/ioctl.c\<close>). \<open>wr\<close> is the \<open>tty->write\<close> of the terminals, as in \<open>Tty\<close>; \<open>pad\<close> the
  byte of padding that \<open>get_termio\<close> copies out of its uninitialised local structure.
\<close>

subsection \<open>\<open>tty_ioctl\<close>\<close>

abbreviation (input) CBAUD :: u32 where "CBAUD \<equiv> 0xf"
abbreviation (input) TCGETS :: int where "TCGETS \<equiv> 0x5401"
abbreviation (input) TCSETS :: int where "TCSETS \<equiv> 0x5402"
abbreviation (input) TCSETSW :: int where "TCSETSW \<equiv> 0x5403"
abbreviation (input) TCSETSF :: int where "TCSETSF \<equiv> 0x5404"
abbreviation (input) TCGETA :: int where "TCGETA \<equiv> 0x5405"
abbreviation (input) TCSETA :: int where "TCSETA \<equiv> 0x5406"
abbreviation (input) TCSETAW :: int where "TCSETAW \<equiv> 0x5407"
abbreviation (input) TCSETAF :: int where "TCSETAF \<equiv> 0x5408"
abbreviation (input) TCSBRK :: int where "TCSBRK \<equiv> 0x5409"
abbreviation (input) TCFLSH :: int where "TCFLSH \<equiv> 0x540B"
abbreviation (input) TIOCGPGRP :: int where "TIOCGPGRP \<equiv> 0x540F"
abbreviation (input) TIOCSPGRP :: int where "TIOCSPGRP \<equiv> 0x5410"
abbreviation (input) TIOCOUTQ :: int where "TIOCOUTQ \<equiv> 0x5411"
abbreviation (input) TIOCINQ :: int where "TIOCINQ \<equiv> 0x541B"

definition quotient :: "u16 list" where
  "quotient = [0, 2304, 1536, 1047, 857, 768, 576, 384, 192, 96, 64, 48, 24, 12, 6, 3]"

definition change_speed :: "nat \<Rightarrow> 'a tty_scheme \<Rightarrow> 'a tty_scheme" where
  "change_speed i s =
     (let port = (ucast (q_data (tty_read_q (tty_table s i))) :: u16);
          quot = quotient ! unat (c_cflag (tty_termios (tty_table s i)) AND CBAUD);
          p = ucast port
      in if port = 0 then s
         else fold (\<lambda>(v, a). outb v a)
                [(0x80, p + 3), (ucast quot, p), (ucast (drop_bit 8 quot), p + 1), (0x03, p + 3)] s)"

definition flush :: "queue_id \<Rightarrow> nat \<Rightarrow> 'a tty_scheme \<Rightarrow> 'a tty_scheme" where
  "flush k i s = (let q = queue k i s in set_queue k i (q\<lparr>q_head := q_tail q\<rparr>) s)"

definition set_tty_termios :: "nat \<Rightarrow> termios \<Rightarrow> 'a tty_scheme \<Rightarrow> 'a tty_scheme" where
  "set_tty_termios i t s = s\<lparr>tty_table := (tty_table s)(i := (tty_table s i)\<lparr>tty_termios := t\<rparr>)\<rparr>"

text \<open>A sequence of bytes copied to the user's data segment.\<close>

definition put_bytes :: "u8 list \<Rightarrow> u32 \<Rightarrow> 'a sched_scheme \<Rightarrow> 'a sched_scheme" where
  "put_bytes cs addr s = s\<lparr>umem := write_bytes cs addr (umem s)\<rparr>"

definition termios_bytes :: "termios \<Rightarrow> u8 list" where
  "termios_bytes t = long_bytes (c_iflag t) @ long_bytes (c_oflag t) @ long_bytes (c_cflag t) @ long_bytes (c_lflag t)
     @ [c_line t] @ c_cc t @ c_pad t"

definition bytes_termios :: "u8 list \<Rightarrow> termios" where
  "bytes_termios d = \<lparr>c_iflag = get_long d 0, c_oflag = get_long d 1, c_cflag = get_long d 2, c_lflag = get_long d 3,
     c_line = d ! 16, c_cc = take 17 (drop 17 d), c_pad = take 2 (drop 34 d)\<rparr>"

definition get_termios :: "nat \<Rightarrow> u32 \<Rightarrow> 'a mm_scheme \<Rightarrow> (int \<times> 'a mm_scheme) option" where
  "get_termios i addr s =
     do { s \<leftarrow> verify_area addr 36 s;
          Some (0, put_bytes (termios_bytes (tty_termios (tty_table s i))) addr s) }"

definition set_termios :: "nat \<Rightarrow> u32 \<Rightarrow> 'a mm_scheme \<Rightarrow> int \<times> 'a mm_scheme" where
  "set_termios i addr s = (0, change_speed i (set_tty_termios i (bytes_termios (read_bytes addr 36 (umem s))) s))"

definition termio_bytes :: "termios \<Rightarrow> u8 list" where
  "termio_bytes t = short_bytes (ucast (c_iflag t)) @ short_bytes (ucast (c_oflag t)) @ short_bytes (ucast (c_cflag t))
     @ short_bytes (ucast (c_lflag t)) @ [c_line t] @ take 8 (c_cc t)"

text \<open>The low half of each flag word is replaced, and the first eight control characters.\<close>

definition low_half :: "u32 \<Rightarrow> u16 \<Rightarrow> u32" where
  "low_half w v = (w AND 0xffff0000) OR ucast v"

definition bytes_termio :: "u8 list \<Rightarrow> termios \<Rightarrow> termios" where
  "bytes_termio d t = t\<lparr>c_iflag := low_half (c_iflag t) (get_short d 0), c_oflag := low_half (c_oflag t) (get_short d 1),
     c_cflag := low_half (c_cflag t) (get_short d 2), c_lflag := low_half (c_lflag t) (get_short d 3),
     c_line := d ! 8, c_cc := take 8 (drop 9 d) @ drop 8 (c_cc t)\<rparr>"

definition get_termio :: "u8 list \<Rightarrow> nat \<Rightarrow> u32 \<Rightarrow> 'a mm_scheme \<Rightarrow> (int \<times> 'a mm_scheme) option" where
  "get_termio pad i addr s =
     do { s \<leftarrow> verify_area addr 18 s;
          Some (0, put_bytes (termio_bytes (tty_termios (tty_table s i)) @ take 1 pad) addr s) }"

definition set_termio :: "nat \<Rightarrow> u32 \<Rightarrow> 'a mm_scheme \<Rightarrow> int \<times> 'a mm_scheme" where
  "set_termio i addr s =
     (0, change_speed i (set_tty_termios i (bytes_termio (read_bytes addr 18 (umem s)) (tty_termios (tty_table s i))) s))"

definition tty_ioctl :: "u8 list \<Rightarrow> int \<Rightarrow> int \<Rightarrow> u32 \<Rightarrow> 'a mm_scheme \<Rightarrow> (int \<times> 'a mm_scheme) option" where
  "tty_ioctl pad dev cmd arg s =
     (let dev = (if MAJOR dev = 5 then t_tty (cur_task s) else dev AND 0xff)
      in if dev < 0 then None
      else
        let i = nat dev
        in if cmd = TCGETS then get_termios i arg s
        else if cmd = TCSETSF then Some (set_termios i arg (flush Read_q i s))
        else if cmd = TCSETSW \<or> cmd = TCSETS then Some (set_termios i arg s)
        else if cmd = TCGETA then get_termio pad i arg s
        else if cmd = TCSETAF then Some (set_termio i arg (flush Read_q i s))
        else if cmd = TCSETAW \<or> cmd = TCSETA then Some (set_termio i arg s)
        else if cmd = TCSBRK then Some (0, s)
        else if cmd = TCFLSH then
          if arg = 0 then Some (0, flush Read_q i s)
          else if arg = 1 then Some (0, flush Write_q i s)
          else if arg = 2 then Some (0, flush Write_q i (flush Read_q i s))
          else Some (-EINVAL, s)
        else if cmd = TIOCGPGRP then
          do { s \<leftarrow> verify_area arg 4 s; Some (0, put_fs_long (of_int (tty_pgrp (tty_table s i))) arg s) }
        else if cmd = TIOCSPGRP then
          Some (0, s\<lparr>tty_table := (tty_table s)(i := (tty_table s i)\<lparr>tty_pgrp := sint (get_fs_long arg s)\<rparr>)\<rparr>)
        else if cmd = TIOCOUTQ then
          do { s \<leftarrow> verify_area arg 4 s; Some (0, put_fs_long (CHARS (queue Write_q i s)) arg s) }
        else if cmd = TIOCINQ then
          do { s \<leftarrow> verify_area arg 4 s; Some (0, put_fs_long (CHARS (queue Secondary i s)) arg s) }
        else Some (-EINVAL, s))"

subsection \<open>\<open>fs/char_dev.c\<close>\<close>

definition rw_ttyx ::
  "'a tty_scheme environment \<Rightarrow> (nat \<Rightarrow> 'a tty_scheme \<Rightarrow> 'a tty_scheme option) \<Rightarrow> int \<Rightarrow> nat \<Rightarrow> u32 \<Rightarrow> int
     \<Rightarrow> 'a tty_scheme \<Rightarrow> (int \<times> 'a tty_scheme) option" where
  "rw_ttyx env wr rw minor buf count s =
     (if rw = READ then tty_read env minor buf count s else tty_write env wr minor buf count s)"

definition rw_tty ::
  "'a tty_scheme environment \<Rightarrow> (nat \<Rightarrow> 'a tty_scheme \<Rightarrow> 'a tty_scheme option) \<Rightarrow> int \<Rightarrow> nat \<Rightarrow> u32 \<Rightarrow> int
     \<Rightarrow> 'a tty_scheme \<Rightarrow> (int \<times> 'a tty_scheme) option" where
  "rw_tty env wr rw minor buf count s =
     (if t_tty (cur_task s) < 0 then Some (-EPERM, s)
      else rw_ttyx env wr rw (nat (t_tty (cur_task s))) buf count s)"

definition rw_ram :: "int \<Rightarrow> u32 \<Rightarrow> int \<Rightarrow> int" where
  "rw_ram rw buf count = -EIO"

definition rw_mem :: "int \<Rightarrow> u32 \<Rightarrow> int \<Rightarrow> int" where
  "rw_mem rw buf count = -EIO"

definition rw_kmem :: "int \<Rightarrow> u32 \<Rightarrow> int \<Rightarrow> int" where
  "rw_kmem rw buf count = -EIO"

text \<open>The loop of \<open>rw_port\<close>: the next port.\<close>

fun rw_port_loop :: "int \<Rightarrow> nat \<Rightarrow> u32 \<Rightarrow> int \<Rightarrow> 'a tty_scheme \<Rightarrow> int \<times> 'a tty_scheme" where
  "rw_port_loop rw 0 buf i s = (i, s)"
| "rw_port_loop rw (Suc n) buf i s =
     (if i < 65536
      then rw_port_loop rw n (buf + 1) (i + 1)
             (if rw = READ then put_fs_byte (inb (of_int i) s) buf s else outb (get_fs_byte buf s) (of_int i) s)
      else (i, s))"

definition rw_port :: "int \<Rightarrow> u32 \<Rightarrow> int \<Rightarrow> nat \<Rightarrow> 'a fs_scheme \<Rightarrow> int \<times> 'a fs_scheme" where
  "rw_port rw buf count f s =
     (let (i, s) = rw_port_loop rw (nat count) buf (f_pos (file_table s f)) s;
          i = i - f_pos (file_table s f)
      in (i, update_file f (\<lambda>x. x\<lparr>f_pos := f_pos x + i\<rparr>) s))"

definition rw_memory :: "int \<Rightarrow> int \<Rightarrow> u32 \<Rightarrow> int \<Rightarrow> nat \<Rightarrow> 'a fs_scheme \<Rightarrow> int \<times> 'a fs_scheme" where
  "rw_memory rw minor buf count f s =
     (if minor = 0 then (rw_ram rw buf count, s)
      else if minor = 1 then (rw_mem rw buf count, s)
      else if minor = 2 then (rw_kmem rw buf count, s)
      else if minor = 3 then (if rw = READ then 0 else count, s)
      else if minor = 4 then rw_port rw buf count f s
      else (-EIO, s))"

definition rw_char ::
  "'a fs_scheme io \<Rightarrow> (nat \<Rightarrow> 'a fs_scheme \<Rightarrow> 'a fs_scheme option) \<Rightarrow> int \<Rightarrow> int \<Rightarrow> u32 \<Rightarrow> int \<Rightarrow> nat
     \<Rightarrow> 'a fs_scheme \<Rightarrow> (int \<times> 'a fs_scheme) option" where
  "rw_char io wr rw dev buf count f s =
     (if MAJOR dev \<ge> 8 then Some (-ENODEV, s)
      else if MAJOR dev = 1 then Some (rw_memory rw (MINOR dev) buf count f s)
      else if MAJOR dev = 4 then rw_ttyx (wait_env io) wr rw (nat (MINOR dev)) buf count s
      else if MAJOR dev = 5 then rw_tty (wait_env io) wr rw (nat (MINOR dev)) buf count s
      else Some (-ENODEV, s))"

subsection \<open>\<open>fs/ioctl.c\<close>\<close>

text \<open>The open file of a descriptor.\<close>

definition fd_file :: "nat \<Rightarrow> 'a sched_scheme \<Rightarrow> nat option" where
  "fd_file fd s = (if fd \<ge> NR_OPEN then None else t_filp (cur_task s) ! fd)"

text \<open>\<open>sys_ioctl\<close> on a descriptor whose file has no inode would follow a \<open>NULL\<close> pointer.\<close>

definition sys_ioctl :: "u8 list \<Rightarrow> nat \<Rightarrow> int \<Rightarrow> u32 \<Rightarrow> 'a fs_scheme \<Rightarrow> (int \<times> 'a fs_scheme) option" where
  "sys_ioctl pad fd cmd arg s =
     (case fd_file fd s of
        None \<Rightarrow> Some (-EBADF, s)
      | Some f \<Rightarrow> do {
          i \<leftarrow> f_inode (file_table s f);
          let m = i_mode (inode_table s i);
          let dev = uint (i_zone (inode_table s i) ! 0);
          if \<not> S_ISCHR m \<and> \<not> S_ISBLK m then Some (-EINVAL, s)
          else if MAJOR dev \<ge> 8 then Some (-ENODEV, s)
          else if MAJOR dev \<noteq> 4 \<and> MAJOR dev \<noteq> 5 then Some (-ENOTTY, s)
          else tty_ioctl pad dev cmd arg s })"

end
