(* ===== verification/File_IO.thy ===== *)
theory File_IO
  imports Inode Char_Dev
begin

text \<open>
  Reading and writing: \<open>fs/file_dev.c\<close>, \<open>fs/block_dev.c\<close>, \<open>fs/pipe.c\<close> and \<open>fs/read_write.c\<close>. The loops
  that copy one byte at a time between a buffer and the user's data segment are one copy here. A
  file position is never negative (\<open>lseek\<close> refuses it), and where the source would then index
  before a buffer the operation does not return.
\<close>

text \<open>\<open>put_fs_byte\<close> and \<open>get_fs_byte\<close> in a loop.\<close>

definition to_user :: "u8 list \<Rightarrow> u32 \<Rightarrow> 'a sched_scheme \<Rightarrow> 'a sched_scheme" where
  "to_user cs buf s = s\<lparr>umem := write_bytes cs buf (umem s)\<rparr>"

definition from_user :: "u32 \<Rightarrow> nat \<Rightarrow> 'a sched_scheme \<Rightarrow> u8 list" where
  "from_user buf n s = read_bytes buf n (umem s)"

text \<open>Bytes stored in a buffer at an offset.\<close>

definition store :: "nat \<Rightarrow> u8 list \<Rightarrow> u8 list \<Rightarrow> u8 list" where
  "store off cs d = take off d @ cs @ drop (off + length cs) d"

subsection \<open>\<open>fs/file_dev.c\<close>\<close>

text \<open>The loop of \<open>file_read\<close>: the bytes still wanted when it stops.\<close>

partial_function (option) file_read_loop ::
  "'a fs_scheme io \<Rightarrow> nat \<Rightarrow> nat \<Rightarrow> u32 \<Rightarrow> int \<Rightarrow> 'a fs_scheme \<Rightarrow> (int \<times> 'a fs_scheme) option" where
  "file_read_loop io i f buf left s =
     (if left = 0 then Some (0, s)
      else if f_pos (file_table s f) < 0 then None
      else do {
        (nr, s) \<leftarrow> bmap io i (f_pos (file_table s f) sdiv 1024) s;
        (bh, s) \<leftarrow> (if nr \<noteq> 0 then bread io (uint (i_dev (inode_table s i))) nr s else Some (None, s));
        if nr \<noteq> 0 \<and> bh = None then Some (left, s)
        else do {
          let off = nat (f_pos (file_table s f) smod 1024);
          let chars = min (int BLOCK_SIZE - int off) left;
          let s = update_file f (\<lambda>x. x\<lparr>f_pos := wrap32 (f_pos x + chars)\<rparr>) s;
          let data = (case bh of None \<Rightarrow> replicate (nat chars) 0
                               | Some b \<Rightarrow> take (nat chars) (drop off (b_data (buffers s b))));
          let s = to_user data buf s;
          s \<leftarrow> brelse io bh s;
          file_read_loop io i f (buf + of_int chars) (left - chars) s } })"

definition file_read ::
  "'a fs_scheme io \<Rightarrow> nat \<Rightarrow> nat \<Rightarrow> u32 \<Rightarrow> int \<Rightarrow> 'a fs_scheme \<Rightarrow> (int \<times> 'a fs_scheme) option" where
  "file_read io i f buf count s =
     (if count \<le> 0 then Some (0, s)
      else do {
        (left, s) \<leftarrow> file_read_loop io i f buf count s;
        let now = of_int (CURRENT_TIME s);
        let s = update_inode i (i_atime_update (\<lambda>_. now)) s;
        Some (if count - left \<noteq> 0 then count - left else -ERROR, s) })"

text \<open>The loop of \<open>file_write\<close>: the position reached and the bytes written.\<close>

partial_function (option) file_write_loop ::
  "'a fs_scheme io \<Rightarrow> nat \<Rightarrow> u32 \<Rightarrow> int \<Rightarrow> int \<Rightarrow> int \<Rightarrow> 'a fs_scheme \<Rightarrow> (int \<times> int \<times> 'a fs_scheme) option" where
  "file_write_loop io i buf count pos n s =
     (if count \<le> n then Some (pos, n, s)
      else if pos < 0 then None
      else do {
        (block, s) \<leftarrow> create_block io i (pos sdiv 1024) s;
        if block = 0 then Some (pos, n, s)
        else do {
          (bh, s) \<leftarrow> bread io (uint (i_dev (inode_table s i))) block s;
          case bh of
            None \<Rightarrow> Some (pos, n, s)
          | Some b \<Rightarrow> do {
              let off = nat (pos smod 1024);
              let s = update_bh b (b_dirt_update (\<lambda>_. True)) s;
              let c = min (int BLOCK_SIZE - int off) (count - n);
              let pos = wrap32 (pos + c);
              let s = (if of_int pos > i_size (inode_table s i)
                       then update_inode i (\<lambda>x. x\<lparr>i_size := of_int pos, i_dirt := True\<rparr>) s else s);
              let s = update_bh b (\<lambda>x. x\<lparr>b_data := store off (from_user buf (nat c) s) (b_data x)\<rparr>) s;
              s \<leftarrow> brelse io bh s;
              file_write_loop io i (buf + of_int c) count pos (n + c) s } } })"

definition file_write ::
  "'a fs_scheme io \<Rightarrow> nat \<Rightarrow> nat \<Rightarrow> u32 \<Rightarrow> int \<Rightarrow> 'a fs_scheme \<Rightarrow> (int \<times> 'a fs_scheme) option" where
  "file_write io i f buf count s =
     (let append = f_flags (file_table s f) AND 0x400 \<noteq> 0;
          pos = (if append then sint (i_size (inode_table s i)) else f_pos (file_table s f))
      in do {
        (pos, n, s) \<leftarrow> file_write_loop io i buf count pos 0 s;
        let now = of_int (CURRENT_TIME s);
        let s = update_inode i (i_mtime_update (\<lambda>_. now)) s;
        let s = (if f_flags (file_table s f) AND 0x400 = 0
                 then update_inode i (i_ctime_update (\<lambda>_. now)) (update_file f (f_pos_update (\<lambda>_. pos)) s)
                 else s);
        Some (if n \<noteq> 0 then n else -1, s) })"

subsection \<open>\<open>fs/block_dev.c\<close>\<close>

text \<open>\<open>pos\<close> points to the position of the open file \<open>f\<close>.\<close>

partial_function (option) block_write_loop ::
  "'a fs_scheme io \<Rightarrow> int \<Rightarrow> nat \<Rightarrow> int \<Rightarrow> nat \<Rightarrow> u32 \<Rightarrow> int \<Rightarrow> int \<Rightarrow> 'a fs_scheme \<Rightarrow> (int \<times> 'a fs_scheme) option" where
  "block_write_loop io dev f block off buf count written s =
     (if count \<le> 0 then Some (written, s)
      else do {
        let chars = min (int BLOCK_SIZE - int off) count;
        (bh, s) \<leftarrow> (if chars = int BLOCK_SIZE
                    then do { (b, s) \<leftarrow> getblk io dev block s; Some (Some b, s) }
                    else breada io dev block [block + 1, block + 2, -1] s);
        case bh of
          None \<Rightarrow> Some (if written \<noteq> 0 then written else -EIO, s)
        | Some b \<Rightarrow> do {
            let s = update_file f (\<lambda>x. x\<lparr>f_pos := wrap32 (f_pos x + chars)\<rparr>) s;
            let s = update_bh b (\<lambda>x. x\<lparr>b_data := store off (from_user buf (nat chars) s) (b_data x), b_dirt := True\<rparr>) s;
            s \<leftarrow> brelse io bh s;
            block_write_loop io dev f (block + 1) 0 (buf + of_int chars) (count - chars) (written + chars) s } })"

definition block_write ::
  "'a fs_scheme io \<Rightarrow> int \<Rightarrow> nat \<Rightarrow> u32 \<Rightarrow> int \<Rightarrow> 'a fs_scheme \<Rightarrow> (int \<times> 'a fs_scheme) option" where
  "block_write io dev f buf count s =
     (let pos = f_pos (file_table s f)
      in block_write_loop io dev f (drop_bit 10 pos) (nat (pos AND 1023)) buf count 0 s)"

partial_function (option) block_read_loop ::
  "'a fs_scheme io \<Rightarrow> int \<Rightarrow> nat \<Rightarrow> int \<Rightarrow> nat \<Rightarrow> u32 \<Rightarrow> int \<Rightarrow> int \<Rightarrow> 'a fs_scheme \<Rightarrow> (int \<times> 'a fs_scheme) option" where
  "block_read_loop io dev f block off buf count got s =
     (if count \<le> 0 then Some (got, s)
      else do {
        let chars = min (int BLOCK_SIZE - int off) count;
        (bh, s) \<leftarrow> breada io dev block [block + 1, block + 2, -1] s;
        case bh of
          None \<Rightarrow> Some (if got \<noteq> 0 then got else -EIO, s)
        | Some b \<Rightarrow> do {
            let s = update_file f (\<lambda>x. x\<lparr>f_pos := wrap32 (f_pos x + chars)\<rparr>) s;
            let s = to_user (take (nat chars) (drop off (b_data (buffers s b)))) buf s;
            s \<leftarrow> brelse io bh s;
            block_read_loop io dev f (block + 1) 0 (buf + of_int chars) (count - chars) (got + chars) s } })"

definition block_read ::
  "'a fs_scheme io \<Rightarrow> int \<Rightarrow> nat \<Rightarrow> u32 \<Rightarrow> int \<Rightarrow> 'a fs_scheme \<Rightarrow> (int \<times> 'a fs_scheme) option" where
  "block_read io dev f buf count s =
     (let pos = (of_int (f_pos (file_table s f)) :: u32)
      in block_read_loop io dev f (uint (drop_bit 10 pos)) (unat (pos AND 1023)) buf count 0 s)"

subsection \<open>\<open>fs/pipe.c\<close>\<close>

text \<open>The page of a pipe is at the address in \<open>i_size\<close>; \<open>i_zone[0]\<close> and \<open>i_zone[1]\<close> are its head and tail.\<close>

abbreviation (input) PAGE_SIZE :: int where "PAGE_SIZE \<equiv> 4096"

definition PIPE_HEAD :: "m_inode \<Rightarrow> u16" where "PIPE_HEAD i = i_zone i ! 0"
definition PIPE_TAIL :: "m_inode \<Rightarrow> u16" where "PIPE_TAIL i = i_zone i ! 1"
definition PIPE_SIZE :: "m_inode \<Rightarrow> int" where
  "PIPE_SIZE i = (uint (PIPE_HEAD i) - uint (PIPE_TAIL i)) AND (PAGE_SIZE - 1)"

partial_function (option) wait_for_data ::
  "'a fs_scheme io \<Rightarrow> nat \<Rightarrow> 'a fs_scheme \<Rightarrow> (bool \<times> 'a fs_scheme) option" where
  "wait_for_data io i s =
     (if PIPE_SIZE (inode_table s i) \<noteq> 0 then Some (True, s)
      else
        let s = wake_up (inode_queue i) s
        in if i_count (inode_table s i) \<noteq> 2 then Some (False, s)
           else do { s \<leftarrow> sleep_on (wait_env io) (inode_queue i) s; wait_for_data io i s })"

partial_function (option) read_pipe_loop ::
  "'a fs_scheme io \<Rightarrow> nat \<Rightarrow> u32 \<Rightarrow> int \<Rightarrow> int \<Rightarrow> 'a fs_scheme \<Rightarrow> (int \<times> 'a fs_scheme) option" where
  "read_pipe_loop io i buf count got s =
     (if count \<le> 0 then Some (got, wake_up (inode_queue i) s)
      else do {
        (ready, s) \<leftarrow> wait_for_data io i s;
        if \<not> ready then Some (got, s)
        else
          let inode = inode_table s i;
              from = uint (PIPE_TAIL inode);
              chars = min (min (PAGE_SIZE - from) count) (PIPE_SIZE inode);
              s = update_inode i (set_zone 1 ((PIPE_TAIL inode + of_int chars) AND 4095)) s;
              s = to_user (read_mem (i_size inode + of_int from) (nat chars) s) buf s
          in read_pipe_loop io i (buf + of_int chars) (count - chars) (got + chars) s })"

definition read_pipe ::
  "'a fs_scheme io \<Rightarrow> nat \<Rightarrow> u32 \<Rightarrow> int \<Rightarrow> 'a fs_scheme \<Rightarrow> (int \<times> 'a fs_scheme) option" where
  "read_pipe io i buf count s = read_pipe_loop io i buf count 0 s"

partial_function (option) wait_for_room ::
  "'a fs_scheme io \<Rightarrow> nat \<Rightarrow> 'a fs_scheme \<Rightarrow> (bool \<times> 'a fs_scheme) option" where
  "wait_for_room io i s =
     (if PAGE_SIZE - 1 - PIPE_SIZE (inode_table s i) \<noteq> 0 then Some (True, s)
      else
        let s = wake_up (inode_queue i) s
        in if i_count (inode_table s i) \<noteq> 2
           then Some (False, update_task (current s) (\<lambda>t. t\<lparr>t_signal := t_signal t OR sig_bit SIGPIPE\<rparr>) s)
           else do { s \<leftarrow> sleep_on (wait_env io) (inode_queue i) s; wait_for_room io i s })"

partial_function (option) write_pipe_loop ::
  "'a fs_scheme io \<Rightarrow> nat \<Rightarrow> u32 \<Rightarrow> int \<Rightarrow> int \<Rightarrow> 'a fs_scheme \<Rightarrow> (int \<times> 'a fs_scheme) option" where
  "write_pipe_loop io i buf count written s =
     (if count \<le> 0 then Some (written, wake_up (inode_queue i) s)
      else do {
        (ready, s) \<leftarrow> wait_for_room io i s;
        if \<not> ready then Some (if written \<noteq> 0 then written else -1, s)
        else
          let inode = inode_table s i;
              to = uint (PIPE_HEAD inode);
              chars = min (min (PAGE_SIZE - to) count) (PAGE_SIZE - 1 - PIPE_SIZE inode);
              s = update_inode i (set_zone 0 ((PIPE_HEAD inode + of_int chars) AND 4095)) s;
              s = write_mem (from_user buf (nat chars) s) (i_size inode + of_int to) s
          in write_pipe_loop io i (buf + of_int chars) (count - chars) (written + chars) s })"

definition write_pipe ::
  "'a fs_scheme io \<Rightarrow> nat \<Rightarrow> u32 \<Rightarrow> int \<Rightarrow> 'a fs_scheme \<Rightarrow> (int \<times> 'a fs_scheme) option" where
  "write_pipe io i buf count s = write_pipe_loop io i buf count 0 s"

text \<open>The first entries of a table that satisfy a test, at most two, each marked as it is found.\<close>

definition set_filp :: "nat \<Rightarrow> nat option \<Rightarrow> 'a sched_scheme \<Rightarrow> 'a sched_scheme" where
  "set_filp fd v s = update_task (current s) (\<lambda>t. t\<lparr>t_filp := (t_filp t)[fd := v]\<rparr>) s"

definition first_two :: "(nat \<Rightarrow> bool) \<Rightarrow> nat \<Rightarrow> nat list" where
  "first_two P n = take 2 (filter P [0..<n])"

definition sys_pipe :: "'a fs_scheme io \<Rightarrow> u32 \<Rightarrow> 'a fs_scheme \<Rightarrow> (int \<times> 'a fs_scheme) option" where
  "sys_pipe io fildes s =
     (let f = first_two (\<lambda>i. f_count (file_table s i) = 0) NR_FILE;
          s = fold (\<lambda>i. update_file i (\<lambda>x. x\<lparr>f_count := f_count x + 1\<rparr>)) f s
      in if length f < 2 then Some (-1, fold (\<lambda>i. update_file i (f_count_update (\<lambda>_. 0))) f s)
      else
        let fd = first_two (\<lambda>i. t_filp (cur_task s) ! i = None) NR_OPEN;
            s = fold (\<lambda>j s. set_filp (fd ! j) (Some (f ! j)) s) [0..<length fd] s
        in if length fd < 2
           then
             let s = fold (\<lambda>i. set_filp i None) fd s
             in Some (-1, update_file (f ! 0) (f_count_update (\<lambda>_. 0)) (update_file (f ! 1) (f_count_update (\<lambda>_. 0)) s))
        else do {
          (inode, s) \<leftarrow> get_pipe_inode io s;
          case inode of
            None \<Rightarrow>
              let s = set_filp (fd ! 0) None (set_filp (fd ! 1) None s)
              in Some (-1, update_file (f ! 0) (f_count_update (\<lambda>_. 0)) (update_file (f ! 1) (f_count_update (\<lambda>_. 0)) s))
          | Some i \<Rightarrow>
              let s = update_file (f ! 0) (\<lambda>x. x\<lparr>f_inode := inode, f_pos := 0, f_mode := 1\<rparr>) s;
                  s = update_file (f ! 1) (\<lambda>x. x\<lparr>f_inode := inode, f_pos := 0, f_mode := 2\<rparr>) s;
                  s = put_fs_long (of_nat (fd ! 0)) fildes s
              in Some (0, put_fs_long (of_nat (fd ! 1)) (fildes + 4) s) })"

subsection \<open>\<open>fs/read_write.c\<close>\<close>

definition IS_SEEKABLE :: "nat \<Rightarrow> bool" where
  "IS_SEEKABLE x \<longleftrightarrow> x \<ge> 1 \<and> x \<le> 3"

definition sys_lseek :: "nat \<Rightarrow> int \<Rightarrow> int \<Rightarrow> 'a fs_scheme \<Rightarrow> int \<times> 'a fs_scheme" where
  "sys_lseek fd offset origin s =
     (case fd_file fd s of
        None \<Rightarrow> (-EBADF, s)
      | Some f \<Rightarrow>
          (case f_inode (file_table s f) of
             None \<Rightarrow> (-EBADF, s)
           | Some i \<Rightarrow>
               if \<not> IS_SEEKABLE (MAJOR (uint (i_dev (inode_table s i)))) then (-EBADF, s)
               else if i_pipe (inode_table s i) then (-ESPIPE, s)
               else
                 let pos = f_pos (file_table s f);
                     seek = (\<lambda>p. if p < 0 then (-EINVAL, s) else (p, update_file f (f_pos_update (\<lambda>_. p)) s))
                 in if origin = 0 then seek offset
                    else if origin = 1 then seek (wrap32 (pos + offset))
                    else if origin = 2 then seek (sint (i_size (inode_table s i) + of_int offset))
                    else (-EINVAL, s)))"

definition sys_read ::
  "'a fs_scheme io \<Rightarrow> (nat \<Rightarrow> 'a fs_scheme \<Rightarrow> 'a fs_scheme option) \<Rightarrow> nat \<Rightarrow> u32 \<Rightarrow> int
     \<Rightarrow> 'a fs_scheme \<Rightarrow> (int \<times> 'a fs_scheme) option" where
  "sys_read io wr fd buf count s =
     (if fd_file fd s = None \<or> count < 0 then Some (-EINVAL, s)
      else if count = 0 then Some (0, s)
      else do {
        f \<leftarrow> fd_file fd s;
        s \<leftarrow> verify_area buf count s;
        i \<leftarrow> f_inode (file_table s f);
        let m = i_mode (inode_table s i);
        let dev = uint (i_zone (inode_table s i) ! 0);
        if i_pipe (inode_table s i)
        then if f_mode (file_table s f) AND 1 \<noteq> 0 then read_pipe io i buf count s else Some (-EIO, s)
        else if S_ISCHR m then rw_char io wr READ dev buf count f s
        else if S_ISBLK m then block_read io dev f buf count s
        else if S_ISDIR m \<or> S_ISREG m
        then
          let sz = i_size (inode_table s i);
              pos = f_pos (file_table s f);
              count = (if of_int (count + pos) > sz then sint (sz - of_int pos) else count)
          in if count \<le> 0 then Some (0, s) else file_read io i f buf count s
        else Some (-EINVAL, s) })"

definition sys_write ::
  "'a fs_scheme io \<Rightarrow> (nat \<Rightarrow> 'a fs_scheme \<Rightarrow> 'a fs_scheme option) \<Rightarrow> nat \<Rightarrow> u32 \<Rightarrow> int
     \<Rightarrow> 'a fs_scheme \<Rightarrow> (int \<times> 'a fs_scheme) option" where
  "sys_write io wr fd buf count s =
     (if fd_file fd s = None \<or> count < 0 then Some (-EINVAL, s)
      else if count = 0 then Some (0, s)
      else do {
        f \<leftarrow> fd_file fd s;
        i \<leftarrow> f_inode (file_table s f);
        let m = i_mode (inode_table s i);
        let dev = uint (i_zone (inode_table s i) ! 0);
        if i_pipe (inode_table s i)
        then if f_mode (file_table s f) AND 2 \<noteq> 0 then write_pipe io i buf count s else Some (-EIO, s)
        else if S_ISCHR m then rw_char io wr WRITE dev buf count f s
        else if S_ISBLK m then block_write io dev f buf count s
        else if S_ISREG m then file_write io i f buf count s
        else Some (-EINVAL, s) })"

end
