(* ===== verification/Files.thy ===== *)
theory Files
  imports Mount File_IO
begin

text \<open>
  Open files: \<open>fs/open.c\<close>, \<open>fs/stat.c\<close> and \<open>fs/fcntl.c\<close>.
\<close>

subsection \<open>Descriptors\<close>

definition clear_cloexec :: "nat \<Rightarrow> 'a sched_scheme \<Rightarrow> 'a sched_scheme" where
  "clear_cloexec fd s = update_task (current s) (\<lambda>t. t\<lparr>t_close_on_exec := t_close_on_exec t AND NOT (push_bit fd 1)\<rparr>) s"

definition sys_close :: "'a fs_scheme io \<Rightarrow> nat \<Rightarrow> 'a fs_scheme \<Rightarrow> (int \<times> 'a fs_scheme) option" where
  "sys_close io fd s =
     (if fd \<ge> NR_OPEN then Some (-EINVAL, s)
      else
        let s = clear_cloexec fd s
        in case fd_file fd s of
             None \<Rightarrow> Some (-EINVAL, s)
           | Some f \<Rightarrow>
               let s = set_filp fd None s
               in if f_count (file_table s f) = 0 then None
               else
                 let s = update_file f (\<lambda>x. x\<lparr>f_count := f_count x - 1\<rparr>) s
                 in if f_count (file_table s f) \<noteq> 0 then Some (0, s)
                    else do { s \<leftarrow> iput io (f_inode (file_table s f)) s; Some (0, s) })"

text \<open>The first free descriptor from \<open>arg\<close> on.\<close>

definition free_fd :: "nat \<Rightarrow> 'a sched_scheme \<Rightarrow> nat option" where
  "free_fd arg s = List.find (\<lambda>n. t_filp (cur_task s) ! n = None) [arg..<NR_OPEN]"

definition dupfd :: "nat \<Rightarrow> nat \<Rightarrow> 'a fs_scheme \<Rightarrow> int \<times> 'a fs_scheme" where
  "dupfd fd arg s =
     (case fd_file fd s of
        None \<Rightarrow> (-EBADF, s)
      | Some f \<Rightarrow>
          if arg \<ge> NR_OPEN then (-EINVAL, s)
          else case free_fd arg s of
                 None \<Rightarrow> (-EMFILE, s)
               | Some n \<Rightarrow>
                   let s = clear_cloexec n s;
                       s = set_filp n (Some f) s
                   in (int n, update_file f (\<lambda>x. x\<lparr>f_count := f_count x + 1\<rparr>) s))"

definition sys_dup2 :: "'a fs_scheme io \<Rightarrow> nat \<Rightarrow> nat \<Rightarrow> 'a fs_scheme \<Rightarrow> (int \<times> 'a fs_scheme) option" where
  "sys_dup2 io oldfd newfd s = do { (r, s) \<leftarrow> sys_close io newfd s; Some (dupfd oldfd newfd s) }"

definition sys_dup :: "nat \<Rightarrow> 'a fs_scheme \<Rightarrow> int \<times> 'a fs_scheme" where
  "sys_dup fildes s = dupfd fildes 0 s"

abbreviation (input) F_DUPFD :: nat where "F_DUPFD \<equiv> 0"
abbreviation (input) F_GETFD :: nat where "F_GETFD \<equiv> 1"
abbreviation (input) F_SETFD :: nat where "F_SETFD \<equiv> 2"
abbreviation (input) F_GETFL :: nat where "F_GETFL \<equiv> 3"
abbreviation (input) F_SETFL :: nat where "F_SETFL \<equiv> 4"

definition sys_fcntl :: "nat \<Rightarrow> nat \<Rightarrow> u32 \<Rightarrow> 'a fs_scheme \<Rightarrow> int \<times> 'a fs_scheme" where
  "sys_fcntl fd cmd arg s =
     (case fd_file fd s of
        None \<Rightarrow> (-EBADF, s)
      | Some f \<Rightarrow>
          if cmd = F_DUPFD then dupfd fd (unat arg) s
          else if cmd = F_GETFD then (uint (drop_bit fd (t_close_on_exec (cur_task s)) AND 1), s)
          else if cmd = F_SETFD then
            (0, if arg AND 1 \<noteq> 0
                then update_task (current s) (\<lambda>t. t\<lparr>t_close_on_exec := t_close_on_exec t OR push_bit fd 1\<rparr>) s
                else clear_cloexec fd s)
          else if cmd = F_GETFL then (uint (f_flags (file_table s f)), s)
          else if cmd = F_SETFL then
            (0, update_file f (\<lambda>x. x\<lparr>f_flags := (f_flags x AND NOT 0xC00) OR (ucast arg AND 0xC00)\<rparr>) s)
          else (-1, s))"

subsection \<open>Opening\<close>

text \<open>What \<open>sys_open\<close> undoes when it fails after it took a descriptor and a file.\<close>

definition drop_file :: "nat \<Rightarrow> nat \<Rightarrow> int \<Rightarrow> 'a fs_scheme \<Rightarrow> (int \<times> 'a fs_scheme) option" where
  "drop_file fd f r s = Some (r, update_file f (f_count_update (\<lambda>_. 0)) (set_filp fd None s))"

text \<open>Opening a terminal: \<open>ttyxx\<close> becomes the controlling terminal of a session leader without one.\<close>

definition take_tty :: "nat \<Rightarrow> 'a fs_scheme \<Rightarrow> 'a fs_scheme" where
  "take_tty i s =
     (let dev = uint (i_zone (inode_table s i) ! 0);
          t = cur_task s
      in if S_ISCHR (i_mode (inode_table s i)) \<and> MAJOR dev = 4 \<and> t_leader t \<noteq> 0 \<and> t_tty t < 0
         then
           let s = update_task (current s) (t_tty_update (\<lambda>_. MINOR dev)) s;
               n = nat (t_tty (cur_task s))
           in s\<lparr>tty_table := (tty_table s)(n := (tty_table s n)\<lparr>tty_pgrp := t_pgrp (cur_task s)\<rparr>)\<rparr>
         else s)"

definition sys_open :: "'a fs_scheme io \<Rightarrow> u32 \<Rightarrow> int \<Rightarrow> int \<Rightarrow> 'a fs_scheme \<Rightarrow> (int \<times> 'a fs_scheme) option" where
  "sys_open io filename flag mode s =
     (let mode = mode AND 0x1ff AND NOT (uint (t_umask (cur_task s)))
      in case free_fd 0 s of
           None \<Rightarrow> Some (-EINVAL, s)
         | Some fd \<Rightarrow>
             let s = clear_cloexec fd s
             in case List.find (\<lambda>i. f_count (file_table s i) = 0) [0..<NR_FILE] of
                  None \<Rightarrow> Some (-EINVAL, s)
                | Some f \<Rightarrow> do {
                    let s = set_filp fd (Some f) s;
                    let s = update_file f (\<lambda>x. x\<lparr>f_count := f_count x + 1\<rparr>) s;
                    (r, inode, s) \<leftarrow> open_namei io filename flag mode s;
                    if r < 0 then drop_file fd f r s
                    else do {
                      i \<leftarrow> inode;
                      let dev = uint (i_zone (inode_table s i) ! 0);
                      let s = take_tty i s;
                      if S_ISCHR (i_mode (inode_table s i)) \<and> MAJOR dev = 5 \<and> t_tty (cur_task s) < 0
                      then do { s \<leftarrow> iput io (Some i) s; drop_file fd f (-EPERM) s }
                      else do {
                        s \<leftarrow> (if S_ISBLK (i_mode (inode_table s i)) then check_disk_change io dev s else Some s);
                        let s = update_file f (\<lambda>x. x\<lparr>f_mode := i_mode (inode_table s i), f_flags := of_int flag,
                                  f_count := 1, f_inode := Some i, f_pos := 0\<rparr>) s;
                        Some (int fd, s) } } })"

definition sys_creat :: "'a fs_scheme io \<Rightarrow> u32 \<Rightarrow> int \<Rightarrow> 'a fs_scheme \<Rightarrow> (int \<times> 'a fs_scheme) option" where
  "sys_creat io pathname mode s = sys_open io pathname (O_CREAT OR O_TRUNC) mode s"

subsection \<open>Attributes of files\<close>

definition sys_ustat :: "int \<Rightarrow> u32 \<Rightarrow> int" where
  "sys_ustat dev ubuf = -ENOSYS"

text \<open>\<open>with_name\<close>: the inode of a name, or an error return.\<close>

definition with_name ::
  "'a fs_scheme io \<Rightarrow> u32 \<Rightarrow> int \<Rightarrow> (nat \<Rightarrow> 'a fs_scheme \<Rightarrow> (int \<times> 'a fs_scheme) option)
     \<Rightarrow> 'a fs_scheme \<Rightarrow> (int \<times> 'a fs_scheme) option" where
  "with_name io filename err f s =
     do { (inode, s) \<leftarrow> namei io filename s;
          case inode of None \<Rightarrow> Some (err, s) | Some i \<Rightarrow> f i s }"

definition put_back :: "'a fs_scheme io \<Rightarrow> nat \<Rightarrow> int \<Rightarrow> 'a fs_scheme \<Rightarrow> (int \<times> 'a fs_scheme) option" where
  "put_back io i r s = do { s \<leftarrow> iput io (Some i) s; Some (r, s) }"

text \<open>\<open>tms\<close>, the \<open>times\<close> of the source, is a null pointer when it is 0.\<close>

definition sys_utime :: "'a fs_scheme io \<Rightarrow> u32 \<Rightarrow> u32 \<Rightarrow> 'a fs_scheme \<Rightarrow> (int \<times> 'a fs_scheme) option" where
  "sys_utime io filename tms s =
     with_name io filename (-ENOENT) (\<lambda>i s.
       let now = of_int (CURRENT_TIME s);
           (actime, modtime) = (if tms \<noteq> 0 then (get_fs_long tms s, get_fs_long (tms + 4) s) else (now, now))
       in put_back io i 0 (update_inode i (\<lambda>n. n\<lparr>i_atime := actime, i_mtime := modtime, i_dirt := True\<rparr>) s)) s"

definition sys_access :: "'a fs_scheme io \<Rightarrow> u32 \<Rightarrow> int \<Rightarrow> 'a fs_scheme \<Rightarrow> (int \<times> 'a fs_scheme) option" where
  "sys_access io filename mode s =
     (let mode = mode AND 7
      in with_name io filename (-EACCES) (\<lambda>i s. do {
           let i_md = uint (i_mode (inode_table s i)) AND 0x1ff;
           s \<leftarrow> iput io (Some i) s;
           let res = (if t_uid (cur_task s) = i_uid (inode_table s i) then drop_bit 6 i_md
                      else if t_gid (cur_task s) = ucast (i_gid (inode_table s i)) then drop_bit 6 i_md
                      else i_md);
           if res AND 7 AND mode = mode then Some (0, s)
           else if t_uid (cur_task s) = 0 \<and> (mode AND 1 = 0 \<or> i_md AND 0x49 \<noteq> 0) then Some (0, s)
           else Some (-EACCES, s) }) s)"

definition sys_chdir :: "'a fs_scheme io \<Rightarrow> u32 \<Rightarrow> 'a fs_scheme \<Rightarrow> (int \<times> 'a fs_scheme) option" where
  "sys_chdir io filename s =
     with_name io filename (-ENOENT) (\<lambda>i s.
       if \<not> S_ISDIR (i_mode (inode_table s i)) then put_back io i (-ENOTDIR) s
       else do {
         s \<leftarrow> iput io (t_pwd (cur_task s)) s;
         Some (0, update_task (current s) (t_pwd_update (\<lambda>_. Some i)) s) }) s"

definition sys_chroot :: "'a fs_scheme io \<Rightarrow> u32 \<Rightarrow> 'a fs_scheme \<Rightarrow> (int \<times> 'a fs_scheme) option" where
  "sys_chroot io filename s =
     with_name io filename (-ENOENT) (\<lambda>i s.
       if \<not> S_ISDIR (i_mode (inode_table s i)) then put_back io i (-ENOTDIR) s
       else do {
         s \<leftarrow> iput io (t_root (cur_task s)) s;
         Some (0, update_task (current s) (t_root_update (\<lambda>_. Some i)) s) }) s"

definition sys_chmod :: "'a fs_scheme io \<Rightarrow> u32 \<Rightarrow> int \<Rightarrow> 'a fs_scheme \<Rightarrow> (int \<times> 'a fs_scheme) option" where
  "sys_chmod io filename mode s =
     with_name io filename (-ENOENT) (\<lambda>i s.
       if t_euid (cur_task s) \<noteq> i_uid (inode_table s i) \<and> \<not> suser s then put_back io i (-EACCES) s
       else put_back io i 0 (update_inode i (\<lambda>n. n\<lparr>i_mode := (of_int mode AND 0xfff) OR (i_mode n AND NOT 0xfff),
                                                   i_dirt := True\<rparr>) s)) s"

definition sys_chown :: "'a fs_scheme io \<Rightarrow> u32 \<Rightarrow> int \<Rightarrow> int \<Rightarrow> 'a fs_scheme \<Rightarrow> (int \<times> 'a fs_scheme) option" where
  "sys_chown io filename uid gid s =
     with_name io filename (-ENOENT) (\<lambda>i s.
       if \<not> suser s then put_back io i (-EACCES) s
       else put_back io i 0 (update_inode i (\<lambda>n. n\<lparr>i_uid := of_int uid, i_gid := of_int gid, i_dirt := True\<rparr>) s)) s"

subsection \<open>\<open>fs/stat.c\<close>\<close>

text \<open>The 32 bytes of a \<open>struct stat\<close>; \<open>pad\<close> is what its four bytes of padding hold.\<close>

definition stat_bytes :: "u8 list \<Rightarrow> m_inode \<Rightarrow> u8 list" where
  "stat_bytes pad i = short_bytes (i_dev i) @ short_bytes (i_num i) @ short_bytes (i_mode i) @ [i_nlinks i, pad ! 0]
     @ short_bytes (i_uid i) @ [i_gid i, pad ! 1] @ short_bytes (i_zone i ! 0) @ [pad ! 2, pad ! 3]
     @ long_bytes (i_size i) @ long_bytes (i_atime i) @ long_bytes (i_mtime i) @ long_bytes (i_ctime i)"

definition cp_stat :: "u8 list \<Rightarrow> nat \<Rightarrow> u32 \<Rightarrow> 'a fs_scheme \<Rightarrow> 'a fs_scheme option" where
  "cp_stat pad i statbuf s =
     do { s \<leftarrow> verify_area statbuf 32 s; Some (to_user (stat_bytes pad (inode_table s i)) statbuf s) }"

definition sys_stat :: "'a fs_scheme io \<Rightarrow> u8 list \<Rightarrow> u32 \<Rightarrow> u32 \<Rightarrow> 'a fs_scheme \<Rightarrow> (int \<times> 'a fs_scheme) option" where
  "sys_stat io pad filename statbuf s =
     with_name io filename (-ENOENT) (\<lambda>i s. do { s \<leftarrow> cp_stat pad i statbuf s; put_back io i 0 s }) s"

definition sys_fstat :: "u8 list \<Rightarrow> nat \<Rightarrow> u32 \<Rightarrow> 'a fs_scheme \<Rightarrow> (int \<times> 'a fs_scheme) option" where
  "sys_fstat pad fd statbuf s =
     (case fd_file fd s of
        None \<Rightarrow> Some (-EBADF, s)
      | Some f \<Rightarrow>
          (case f_inode (file_table s f) of
             None \<Rightarrow> Some (-EBADF, s)
           | Some i \<Rightarrow> do { s \<leftarrow> cp_stat pad i statbuf s; Some (0, s) }))"

end
