(* ===== verification/Fork.thy ===== *)
theory Fork
  imports Files
begin

text \<open>
  \<open>kernel/fork.c\<close>: the process number and the slot of a new process, its task structure, its
  page tables and the references it shares with its parent. \<open>gdt\<close> is the global descriptor
  table, eight bytes an entry. The coprocessor state \<open>tss.i387\<close> is not part of the model, nor
  is the \<open>fnsave\<close> that copies it.
\<close>

record kern = fs +
  gdt :: "nat \<Rightarrow> u8 list"

subsection \<open>The process number and the slot\<close>

definition pid_used :: "int \<Rightarrow> 'a sched_scheme \<Rightarrow> bool" where
  "pid_used pid s \<longleftrightarrow>
     list_ex (\<lambda>i. case task s ! i of None \<Rightarrow> False | Some p \<Rightarrow> t_pid (tasks s p) = pid) [0..<NR_TASKS]"

definition next_pid :: "int \<Rightarrow> int" where
  "next_pid pid = (let p = wrap32 (pid + 1) in if p < 0 then 1 else p)"

partial_function (option) new_pid :: "'a sched_scheme \<Rightarrow> 'a sched_scheme option" where
  "new_pid s =
     (let s = s\<lparr>last_pid := next_pid (last_pid s)\<rparr>
      in if pid_used (last_pid s) s then new_pid s else Some s)"

definition find_empty_process :: "'a sched_scheme \<Rightarrow> (int \<times> 'a sched_scheme) option" where
  "find_empty_process s = do {
     s \<leftarrow> new_pid s;
     Some (case List.find (\<lambda>i. task s ! i = None) [1..<NR_TASKS] of
             Some i \<Rightarrow> (int i, s)
           | None \<Rightarrow> (-EAGAIN, s)) }"

subsection \<open>The page tables\<close>

definition set_bases :: "u32 \<Rightarrow> task_struct \<Rightarrow> task_struct" where
  "set_bases base t = t\<lparr>t_start_code := base, t_code_base := base, t_data_base := base\<rparr>"

definition copy_mem :: "nat \<Rightarrow> nat \<Rightarrow> 'a mm_scheme \<Rightarrow> (int \<times> 'a mm_scheme) option" where
  "copy_mem nr p s =
     (let code_limit = t_code_limit (cur_task s);
          data_limit = t_data_limit (cur_task s);
          old_code_base = t_code_base (cur_task s);
          old_data_base = t_data_base (cur_task s)
      in if old_data_base \<noteq> old_code_base then None
         else if data_limit < code_limit then None
         else do {
           let new_data_base = of_nat nr * 0x4000000;
           let s = update_task p (set_bases new_data_base) s;
           (r, s) \<leftarrow> copy_page_tables old_data_base new_data_base data_limit s;
           if r \<noteq> 0
           then do { (r, s) \<leftarrow> free_page_tables new_data_base data_limit s; Some (-ENOMEM, s) }
           else Some (0, s) })"

subsection \<open>The new task\<close>

text \<open>The registers that \<open>int 0x80\<close>, \<open>_system_call\<close> and \<open>_sys_fork\<close> pushed.\<close>

record fork_regs =
  r_ebp :: u32
  r_edi :: u32
  r_esi :: u32
  r_gs :: u32
  r_ebx :: u32
  r_ecx :: u32
  r_edx :: u32
  r_fs :: u32
  r_es :: u32
  r_ds :: u32
  r_eip :: u32
  r_cs :: u32
  r_eflags :: u32
  r_esp :: u32
  r_ss :: u32

abbreviation (input) PAGE_SIZE :: u32 where "PAGE_SIZE \<equiv> 4096"
abbreviation (input) FIRST_TSS_ENTRY :: nat where "FIRST_TSS_ENTRY \<equiv> 4"
abbreviation (input) FIRST_LDT_ENTRY :: nat where "FIRST_LDT_ENTRY \<equiv> 5"

text \<open>The offsets of \<open>ldt\<close> and \<open>tss\<close> in \<open>struct task_struct\<close>.\<close>

abbreviation (input) LDT_OFFSET :: u32 where "LDT_OFFSET \<equiv> 720"
abbreviation (input) TSS_OFFSET :: u32 where "TSS_OFFSET \<equiv> 744"

definition LDT_SEL :: "nat \<Rightarrow> u32" where
  "LDT_SEL n = push_bit 4 (of_nat n) + push_bit 3 (of_nat FIRST_LDT_ENTRY)"

definition child_tss :: "nat \<Rightarrow> u32 \<Rightarrow> fork_regs \<Rightarrow> tss_struct \<Rightarrow> tss_struct" where
  "child_tss nr page r t = t\<lparr>tss_back_link := 0, tss_esp0 := PAGE_SIZE + page, tss_ss0 := 0x10,
     tss_eip := r_eip r, tss_eflags := r_eflags r, tss_eax := 0, tss_ecx := r_ecx r, tss_edx := r_edx r,
     tss_ebx := r_ebx r, tss_esp := r_esp r, tss_ebp := r_ebp r, tss_esi := r_esi r, tss_edi := r_edi r,
     tss_es := r_es r AND 0xffff, tss_cs := r_cs r AND 0xffff, tss_ss := r_ss r AND 0xffff,
     tss_ds := r_ds r AND 0xffff, tss_fs := r_fs r AND 0xffff, tss_gs := r_gs r AND 0xffff,
     tss_ldt := LDT_SEL nr, tss_trace_bitmap := 0x80000000\<rparr>"

definition child_task :: "nat \<Rightarrow> u32 \<Rightarrow> fork_regs \<Rightarrow> int \<Rightarrow> int \<Rightarrow> task_struct \<Rightarrow> task_struct" where
  "child_task nr page r pid now t = t\<lparr>t_state := TASK_UNINTERRUPTIBLE, t_pid := pid, t_father := t_pid t,
     t_counter := t_priority t, t_signal := 0, t_alarm := 0, t_leader := 0, t_utime := 0, t_stime := 0,
     t_cutime := 0, t_cstime := 0, t_start_time := now, t_tss := child_tss nr page r (t_tss t)\<rparr>"

definition inc_file :: "nat option \<Rightarrow> 'a fs_scheme \<Rightarrow> 'a fs_scheme" where
  "inc_file f s = (case f of None \<Rightarrow> s | Some f \<Rightarrow> update_file f (\<lambda>x. x\<lparr>f_count := f_count x + 1\<rparr>) s)"

definition inc_inode :: "nat option \<Rightarrow> 'a fs_scheme \<Rightarrow> 'a fs_scheme" where
  "inc_inode i s = (case i of None \<Rightarrow> s | Some i \<Rightarrow> update_inode i (\<lambda>n. n\<lparr>i_count := i_count n + 1\<rparr>) s)"

text \<open>\<open>_set_tssldt_desc\<close> of \<open>include/asm/system.h\<close>: limit, address and type of a system descriptor.\<close>

definition tssldt_desc :: "u32 \<Rightarrow> u8 \<Rightarrow> u8 list" where
  "tssldt_desc addr type = [104, 0, ucast addr, ucast (drop_bit 8 addr), ucast (drop_bit 16 addr), type, 0,
     ucast (drop_bit 24 addr)]"

definition set_descs :: "nat \<Rightarrow> u32 \<Rightarrow> 'a kern_scheme \<Rightarrow> 'a kern_scheme" where
  "set_descs nr p s = s\<lparr>gdt := (gdt s)
     (2 * nr + FIRST_TSS_ENTRY := tssldt_desc (p + TSS_OFFSET) 0x89,
      2 * nr + FIRST_LDT_ENTRY := tssldt_desc (p + LDT_OFFSET) 0x82)\<rparr>"

definition copy_process :: "nat \<Rightarrow> fork_regs \<Rightarrow> 'a kern_scheme \<Rightarrow> (int \<times> 'a kern_scheme) option" where
  "copy_process nr r s =
     (let (page, s) = get_free_page s
      in if page = 0 then Some (-EAGAIN, s)
      else do {
        let p = unat page;
        let s = s\<lparr>task := (task s)[nr := Some p]\<rparr>;
        let s = update_task p (\<lambda>_. child_task nr page r (last_pid s) (jiffies s) (cur_task s)) s;
        (e, s) \<leftarrow> copy_mem nr p s;
        if e \<noteq> 0
        then do { s \<leftarrow> free_page page (s\<lparr>task := (task s)[nr := None]\<rparr>); Some (-EAGAIN, s) }
        else
          let s = fold inc_file (t_filp (tasks s p)) s;
              s = inc_inode (t_pwd (cur_task s)) s;
              s = inc_inode (t_root (cur_task s)) s;
              s = inc_inode (t_executable (cur_task s)) s;
              s = set_descs nr page s;
              s = set_state p TASK_RUNNING s
          in Some (last_pid s, s) })"

text \<open>\<open>_sys_fork\<close> of \<open>kernel/system_call.s\<close>.\<close>

definition sys_fork :: "fork_regs \<Rightarrow> 'a kern_scheme \<Rightarrow> (int \<times> 'a kern_scheme) option" where
  "sys_fork r s = do {
     (nr, s) \<leftarrow> find_empty_process s;
     if nr < 0 then Some (nr, s) else copy_process (nat nr) r s }"

end
