(* ===== verification/Console.thy ===== *)
theory Console
  imports Fork
begin

text \<open>
  \<open>kernel/chr_drv/console.c\<close>: the VT102 driver of the console. Its static variables are the
  record \<open>console\<close>; \<open>vram\<close> is the video memory, the 16-bit cell at each even address. The
  inline assembly that moves and fills cells is written with \<open>movsl\<close> and \<open>stosw\<close> in both
  directions. \<open>con_write\<close> calls itself through \<open>respond\<close>, \<open>copy_to_cooked\<close> and \<open>tty->write\<close>
  when the answer to a query is echoed; its first argument bounds the depth of these calls.
\<close>

subsection \<open>The state of the driver\<close>

record console =
  video_type :: u8
  video_num_columns :: u32
  video_size_row :: u32
  video_num_lines :: u32
  video_page :: u8
  video_mem_start :: u32
  video_mem_end :: u32
  video_port_reg :: u32
  video_port_val :: u32
  video_erase_char :: u16
  origin :: u32
  scr_end :: u32
  cur_pos :: u32
  cur_x :: u32
  cur_y :: u32
  scr_top :: u32
  scr_bottom :: u32
  con_state :: nat
  npar :: nat
  pars :: "u32 list"
  ques :: bool
  attr :: u8
  saved_x :: u32
  saved_y :: u32
  vram :: "u32 \<Rightarrow> u16"

record sys = kern +
  con :: console

abbreviation (input) NPAR :: nat where "NPAR \<equiv> 16"
abbreviation (input) VIDEO_TYPE_MDA :: u8 where "VIDEO_TYPE_MDA \<equiv> 0x10"
abbreviation (input) VIDEO_TYPE_CGA :: u8 where "VIDEO_TYPE_CGA \<equiv> 0x11"
abbreviation (input) VIDEO_TYPE_EGAM :: u8 where "VIDEO_TYPE_EGAM \<equiv> 0x20"
abbreviation (input) VIDEO_TYPE_EGAC :: u8 where "VIDEO_TYPE_EGAC \<equiv> 0x21"

subsection \<open>String instructions on the video memory\<close>

fun stosw :: "nat \<Rightarrow> u32 \<Rightarrow> u16 \<Rightarrow> (u32 \<Rightarrow> u16) \<Rightarrow> (u32 \<Rightarrow> u16)" where
  "stosw 0 d v m = m"
| "stosw (Suc n) d v m = stosw n (d + 2) v (m(d := v))"

fun stosw_down :: "nat \<Rightarrow> u32 \<Rightarrow> u16 \<Rightarrow> (u32 \<Rightarrow> u16) \<Rightarrow> (u32 \<Rightarrow> u16)" where
  "stosw_down 0 d v m = m"
| "stosw_down (Suc n) d v m = stosw_down n (d - 2) v (m(d := v))"

fun movsl :: "nat \<Rightarrow> u32 \<Rightarrow> u32 \<Rightarrow> (u32 \<Rightarrow> u16) \<Rightarrow> (u32 \<Rightarrow> u16)" where
  "movsl 0 d s m = m"
| "movsl (Suc n) d s m = movsl n (d + 4) (s + 4) (m(d := m s, d + 2 := m (s + 2)))"

fun movsl_down :: "nat \<Rightarrow> u32 \<Rightarrow> u32 \<Rightarrow> (u32 \<Rightarrow> u16) \<Rightarrow> (u32 \<Rightarrow> u16)" where
  "movsl_down 0 d s m = m"
| "movsl_down (Suc n) d s m = movsl_down n (d - 4) (s - 4) (m(d := m s, d + 2 := m (s + 2)))"

text \<open>\<open>rep movsl\<close> and then \<open>rep stosw\<close> of a row, from where the destination has come to.\<close>

definition scroll_fill :: "nat \<Rightarrow> u32 \<Rightarrow> u32 \<Rightarrow> console \<Rightarrow> console" where
  "scroll_fill n d s c = c\<lparr>vram := stosw (unat (video_num_columns c)) (d + 4 * of_nat n) (video_erase_char c)
     (movsl n d s (vram c))\<rparr>"

definition scroll_fill_down :: "nat \<Rightarrow> u32 \<Rightarrow> u32 \<Rightarrow> console \<Rightarrow> console" where
  "scroll_fill_down n d s c = c\<lparr>vram := stosw_down (unat (video_num_columns c)) (d - 4 * of_nat n + 2) (video_erase_char c)
     (movsl_down n d s (vram c))\<rparr>"

subsection \<open>Cursor and scrolling\<close>

definition gotoxy :: "u32 \<Rightarrow> u32 \<Rightarrow> console \<Rightarrow> console" where
  "gotoxy new_x new_y c =
     (if new_x > video_num_columns c \<or> new_y \<ge> video_num_lines c then c
      else c\<lparr>cur_x := new_x, cur_y := new_y, cur_pos := origin c + new_y * video_size_row c + push_bit 1 new_x\<rparr>)"

definition ega :: "console \<Rightarrow> bool" where
  "ega c \<longleftrightarrow> video_type c = VIDEO_TYPE_EGAC \<or> video_type c = VIDEO_TYPE_EGAM"

definition whole_screen :: "console \<Rightarrow> bool" where
  "whole_screen c \<longleftrightarrow> scr_top c = 0 \<and> scr_bottom c = video_num_lines c"

text \<open>The number of longs in the lines of the scrolling region but one.\<close>

definition region_longs :: "console \<Rightarrow> nat" where
  "region_longs c = unat (drop_bit 1 ((scr_bottom c - scr_top c - 1) * video_num_columns c))"

definition scrup_region :: "console \<Rightarrow> console" where
  "scrup_region c = scroll_fill (region_longs c) (origin c + video_size_row c * scr_top c)
     (origin c + video_size_row c * (scr_top c + 1)) c"

text \<open>On EGA and VGA the whole screen scrolls by moving its origin, until the video memory is used up.\<close>

definition scrup_origin :: "console \<Rightarrow> console" where
  "scrup_origin c =
     (let c = c\<lparr>origin := origin c + video_size_row c, cur_pos := cur_pos c + video_size_row c,
               scr_end := scr_end c + video_size_row c\<rparr>
      in if scr_end c > video_mem_end c
         then
           let c = scroll_fill (unat (drop_bit 1 ((video_num_lines c - 1) * video_num_columns c))) (video_mem_start c) (origin c) c
           in c\<lparr>scr_end := scr_end c - (origin c - video_mem_start c),
                cur_pos := cur_pos c - (origin c - video_mem_start c), origin := video_mem_start c\<rparr>
         else c\<lparr>vram := stosw (unat (video_num_columns c)) (scr_end c - video_size_row c) (video_erase_char c) (vram c)\<rparr>)"

definition scrup_con :: "console \<Rightarrow> console" where
  "scrup_con c = (if ega c \<and> whole_screen c then scrup_origin c else scrup_region c)"

definition scrdown :: "console \<Rightarrow> console" where
  "scrdown c = scroll_fill_down (region_longs c) (origin c + video_size_row c * scr_bottom c - 4)
     (origin c + video_size_row c * (scr_bottom c - 1) - 4) c"

definition ri :: "console \<Rightarrow> console" where
  "ri c = (if cur_y c > scr_top c then c\<lparr>cur_y := cur_y c - 1, cur_pos := cur_pos c - video_size_row c\<rparr> else scrdown c)"

definition cr :: "console \<Rightarrow> console" where
  "cr c = c\<lparr>cur_pos := cur_pos c - push_bit 1 (cur_x c), cur_x := 0\<rparr>"

definition del_char :: "console \<Rightarrow> console" where
  "del_char c =
     (if cur_x c \<noteq> 0
      then let p = cur_pos c - 2 in c\<lparr>cur_pos := p, cur_x := cur_x c - 1, vram := (vram c)(p := video_erase_char c)\<rparr>
      else c)"

text \<open>What touches the ports of the video controller works on the whole state.\<close>

definition on_con :: "(console \<Rightarrow> console) \<Rightarrow> 'a sys_scheme \<Rightarrow> 'a sys_scheme" where
  "on_con f s = s\<lparr>con := f (con s)\<rparr>"

definition video_reg :: "u8 \<Rightarrow> u32 \<Rightarrow> 'a sys_scheme \<Rightarrow> 'a sys_scheme" where
  "video_reg reg v s =
     outb (0xff AND ucast (drop_bit 1 v)) (video_port_val (con s)) (outb (reg + 1) (video_port_reg (con s))
       (outb (0xff AND ucast (drop_bit 9 v)) (video_port_val (con s)) (outb reg (video_port_reg (con s)) s)))"

definition set_origin :: "'a sys_scheme \<Rightarrow> 'a sys_scheme" where
  "set_origin s = video_reg 12 (origin (con s) - video_mem_start (con s)) s"

definition set_cursor :: "'a sys_scheme \<Rightarrow> 'a sys_scheme" where
  "set_cursor s = video_reg 14 (cur_pos (con s) - video_mem_start (con s)) s"

definition scrup :: "'a sys_scheme \<Rightarrow> 'a sys_scheme" where
  "scrup s = (if ega (con s) \<and> whole_screen (con s) then set_origin (on_con scrup_con s) else on_con scrup_con s)"

definition lf :: "'a sys_scheme \<Rightarrow> 'a sys_scheme" where
  "lf s =
     (if cur_y (con s) + 1 < scr_bottom (con s)
      then on_con (\<lambda>c. c\<lparr>cur_y := cur_y c + 1, cur_pos := cur_pos c + video_size_row c\<rparr>) s
      else scrup s)"

subsection \<open>Erasing\<close>

definition csi_J :: "u32 \<Rightarrow> console \<Rightarrow> console" where
  "csi_J p c =
     (let fill = (\<lambda>count start. c\<lparr>vram := stosw (unat count) start (video_erase_char c) (vram c)\<rparr>)
      in if p = 0 then fill (drop_bit 1 (scr_end c - cur_pos c)) (cur_pos c)
         else if p = 1 then fill (drop_bit 1 (cur_pos c - origin c)) (origin c)
         else if p = 2 then fill (video_num_columns c * video_num_lines c) (origin c)
         else c)"

definition csi_K :: "u32 \<Rightarrow> console \<Rightarrow> console" where
  "csi_K p c =
     (let fill = (\<lambda>count start. c\<lparr>vram := stosw (unat count) start (video_erase_char c) (vram c)\<rparr>);
          line = cur_pos c - push_bit 1 (cur_x c)
      in if p = 0
         then if cur_x c \<ge> video_num_columns c then c else fill (video_num_columns c - cur_x c) (cur_pos c)
         else if p = 1
         then fill (if cur_x c < video_num_columns c then cur_x c else video_num_columns c) line
         else if p = 2 then fill (video_num_columns c) line
         else c)"

definition set_attr :: "u32 \<Rightarrow> console \<Rightarrow> console" where
  "set_attr p c =
     (if p = 0 then c\<lparr>attr := 0x07\<rparr> else if p = 1 then c\<lparr>attr := 0x0f\<rparr> else if p = 4 then c\<lparr>attr := 0x0f\<rparr>
      else if p = 7 then c\<lparr>attr := 0x70\<rparr> else if p = 27 then c\<lparr>attr := 0x07\<rparr> else c)"

definition csi_m :: "console \<Rightarrow> console" where
  "csi_m c = fold (\<lambda>i c. set_attr (pars c ! i) c) [0..<Suc (npar c)] c"

subsection \<open>Inserting and deleting\<close>

fun shift_right :: "nat \<Rightarrow> u32 \<Rightarrow> u16 \<Rightarrow> (u32 \<Rightarrow> u16) \<Rightarrow> (u32 \<Rightarrow> u16)" where
  "shift_right 0 p old m = m"
| "shift_right (Suc n) p old m = shift_right n (p + 2) (m p) (m(p := old))"

fun shift_left :: "nat \<Rightarrow> u32 \<Rightarrow> u16 \<Rightarrow> (u32 \<Rightarrow> u16) \<Rightarrow> (u32 \<Rightarrow> u16)" where
  "shift_left 0 p v m = m(p := v)"
| "shift_left (Suc n) p v m = shift_left n (p + 2) v (m(p := m (p + 2)))"

definition insert_char :: "console \<Rightarrow> console" where
  "insert_char c = c\<lparr>vram := shift_right (unat (video_num_columns c) - unat (cur_x c)) (cur_pos c) (video_erase_char c) (vram c)\<rparr>"

definition delete_char :: "console \<Rightarrow> console" where
  "delete_char c =
     (if cur_x c \<ge> video_num_columns c then c
      else c\<lparr>vram := shift_left (unat (video_num_columns c) - unat (cur_x c) - 1) (cur_pos c) (video_erase_char c) (vram c)\<rparr>)"

definition insert_line :: "console \<Rightarrow> console" where
  "insert_line c =
     (scrdown (c\<lparr>scr_top := cur_y c, scr_bottom := video_num_lines c\<rparr>))\<lparr>scr_top := scr_top c, scr_bottom := scr_bottom c\<rparr>"

definition delete_line :: "'a sys_scheme \<Rightarrow> 'a sys_scheme" where
  "delete_line s =
     on_con (\<lambda>c. c\<lparr>scr_top := scr_top (con s), scr_bottom := scr_bottom (con s)\<rparr>)
       (scrup (on_con (\<lambda>c. c\<lparr>scr_top := cur_y c, scr_bottom := video_num_lines c\<rparr>) s))"

text \<open>The number of times: at least once, at most the size of the screen.\<close>

definition times_upto :: "u32 \<Rightarrow> u32 \<Rightarrow> nat" where
  "times_upto nr n = unat (if nr > n then n else if nr = 0 then 1 else nr)"

definition csi_at :: "u32 \<Rightarrow> console \<Rightarrow> console" where
  "csi_at nr c = (insert_char ^^ times_upto nr (video_num_columns c)) c"

definition csi_L :: "u32 \<Rightarrow> console \<Rightarrow> console" where
  "csi_L nr c = (insert_line ^^ times_upto nr (video_num_lines c)) c"

definition csi_P :: "u32 \<Rightarrow> console \<Rightarrow> console" where
  "csi_P nr c = (delete_char ^^ times_upto nr (video_num_columns c)) c"

definition csi_M :: "u32 \<Rightarrow> 'a sys_scheme \<Rightarrow> 'a sys_scheme" where
  "csi_M nr s = (delete_line ^^ times_upto nr (video_num_lines (con s))) s"

definition save_cur :: "console \<Rightarrow> console" where
  "save_cur c = c\<lparr>saved_x := cur_x c, saved_y := cur_y c\<rparr>"

definition restore_cur :: "console \<Rightarrow> console" where
  "restore_cur c = gotoxy (saved_x c) (saved_y c) c"

definition sysbeep :: "'a sys_scheme \<Rightarrow> 'a sys_scheme" where
  "sysbeep s =
     (outb 0x06 0x42 (outb 0x37 0x42 (outb 0xB6 0x43 (outb (inb 0x61 s OR 3) 0x61 s))))\<lparr>beepcount := HZ div 8\<rparr>"

definition sysbeepstop :: "'a tty_scheme \<Rightarrow> 'a tty_scheme" where
  "sysbeepstop s = outb (inb 0x61 s AND 0xFC) 0x61 s"

subsection \<open>Characters and escape sequences\<close>

text \<open>The \<open>char\<close> is signed: a byte from 128 on is a negative number, and not printed.\<close>

definition print_char :: "int \<Rightarrow> 'a sys_scheme \<Rightarrow> 'a sys_scheme" where
  "print_char ch s =
     (let s = (if cur_x (con s) \<ge> video_num_columns (con s)
               then lf (on_con (\<lambda>c. c\<lparr>cur_x := cur_x c - video_num_columns c, cur_pos := cur_pos c - video_size_row c\<rparr>) s)
               else s)
      in on_con (\<lambda>c. c\<lparr>vram := (vram c)(cur_pos c := push_bit 8 (ucast (attr c)) OR (of_int ch AND 0xff)),
                       cur_pos := cur_pos c + 2, cur_x := cur_x c + 1\<rparr>) s)"

definition tab_char :: "'a sys_scheme \<Rightarrow> 'a sys_scheme" where
  "tab_char s =
     (let n = 8 - (cur_x (con s) AND 7);
          s = on_con (\<lambda>c. c\<lparr>cur_x := cur_x c + n, cur_pos := cur_pos c + push_bit 1 n\<rparr>) s
      in if cur_x (con s) > video_num_columns (con s)
         then lf (on_con (\<lambda>c. c\<lparr>cur_x := cur_x c - video_num_columns c, cur_pos := cur_pos c - video_size_row c\<rparr>) s)
         else s)"

definition con_text :: "nat \<Rightarrow> int \<Rightarrow> 'a sys_scheme \<Rightarrow> 'a sys_scheme" where
  "con_text i ch s =
     (if ch > 31 \<and> ch < 127 then print_char ch s
      else if ch = 27 then on_con (con_state_update (\<lambda>_. 1)) s
      else if ch = 10 \<or> ch = 11 \<or> ch = 12 then lf s
      else if ch = 13 then on_con cr s
      else if ch = CC i VERASE s then on_con del_char s
      else if ch = 8
      then (if cur_x (con s) \<noteq> 0 then on_con (\<lambda>c. c\<lparr>cur_x := cur_x c - 1, cur_pos := cur_pos c - 2\<rparr>) s else s)
      else if ch = 9 then tab_char s
      else if ch = 7 then sysbeep s
      else s)"

definition RESPONSE :: "int list" where
  "RESPONSE = [27, 91, 63, 49, 59, 50, 99]"

definition respond ::
  "(nat \<Rightarrow> 'a sys_scheme \<Rightarrow> 'a sys_scheme option) \<Rightarrow> nat \<Rightarrow> 'a sys_scheme \<Rightarrow> 'a sys_scheme option" where
  "respond wr i s = copy_to_cooked wr i (fold (\<lambda>ch. putch ch Read_q i) RESPONSE s)"

text \<open>
  The character after ESC. The two last cases of the source compare the column \<open>x\<close>, not the
  character, with \<open>'7'\<close> and \<open>'8'\<close>.
\<close>

definition con_escape ::
  "(nat \<Rightarrow> 'a sys_scheme \<Rightarrow> 'a sys_scheme option) \<Rightarrow> nat \<Rightarrow> int \<Rightarrow> 'a sys_scheme \<Rightarrow> 'a sys_scheme option" where
  "con_escape wr i ch s =
     (let s = on_con (con_state_update (\<lambda>_. 0)) s
      in if ch = 91 then Some (on_con (con_state_update (\<lambda>_. 2)) s)
         else if ch = 69 then Some (on_con (\<lambda>c. gotoxy 0 (cur_y c + 1) c) s)
         else if ch = 77 then Some (on_con ri s)
         else if ch = 68 then Some (lf s)
         else if ch = 90 then respond wr i s
         else if cur_x (con s) = 55 then Some (on_con save_cur s)
         else if cur_x (con s) = 56 then Some (on_con restore_cur s)
         else Some s)"

definition par :: "nat \<Rightarrow> console \<Rightarrow> u32" where
  "par k c = pars c ! k"

definition set_par :: "nat \<Rightarrow> u32 \<Rightarrow> console \<Rightarrow> console" where
  "set_par k v c = c\<lparr>pars := (pars c)[k := v]\<rparr>"

definition at_least_1 :: "nat \<Rightarrow> console \<Rightarrow> console" where
  "at_least_1 k c = (if par k c = 0 then set_par k (par k c + 1) c else c)"

definition from_0 :: "nat \<Rightarrow> console \<Rightarrow> console" where
  "from_0 k c = (if par k c \<noteq> 0 then set_par k (par k c - 1) c else c)"

definition set_region :: "console \<Rightarrow> console" where
  "set_region c =
     (let c = from_0 0 c;
          c = (if par 1 c = 0 then set_par 1 (video_num_lines c) c else c)
      in if par 0 c < par 1 c \<and> par 1 c \<le> video_num_lines c
         then c\<lparr>scr_top := par 0 c, scr_bottom := par 1 c\<rparr> else c)"

text \<open>The command of a control sequence: the final character, by its code.\<close>

definition con_command :: "int \<Rightarrow> 'a sys_scheme \<Rightarrow> 'a sys_scheme" where
  "con_command ch s =
     (if ch = 71 \<or> ch = 96 then on_con (\<lambda>c. let c = from_0 0 c in gotoxy (par 0 c) (cur_y c) c) s
      else if ch = 65 then on_con (\<lambda>c. let c = at_least_1 0 c in gotoxy (cur_x c) (cur_y c - par 0 c) c) s
      else if ch = 66 \<or> ch = 101 then on_con (\<lambda>c. let c = at_least_1 0 c in gotoxy (cur_x c) (cur_y c + par 0 c) c) s
      else if ch = 67 \<or> ch = 97 then on_con (\<lambda>c. let c = at_least_1 0 c in gotoxy (cur_x c + par 0 c) (cur_y c) c) s
      else if ch = 68 then on_con (\<lambda>c. let c = at_least_1 0 c in gotoxy (cur_x c - par 0 c) (cur_y c) c) s
      else if ch = 69 then on_con (\<lambda>c. let c = at_least_1 0 c in gotoxy 0 (cur_y c + par 0 c) c) s
      else if ch = 70 then on_con (\<lambda>c. let c = at_least_1 0 c in gotoxy 0 (cur_y c - par 0 c) c) s
      else if ch = 100 then on_con (\<lambda>c. let c = from_0 0 c in gotoxy (cur_x c) (par 0 c) c) s
      else if ch = 72 \<or> ch = 102 then on_con (\<lambda>c. let c = from_0 1 (from_0 0 c) in gotoxy (par 1 c) (par 0 c) c) s
      else if ch = 74 then on_con (\<lambda>c. csi_J (par 0 c) c) s
      else if ch = 75 then on_con (\<lambda>c. csi_K (par 0 c) c) s
      else if ch = 76 then on_con (\<lambda>c. csi_L (par 0 c) c) s
      else if ch = 77 then csi_M (par 0 (con s)) s
      else if ch = 80 then on_con (\<lambda>c. csi_P (par 0 c) c) s
      else if ch = 64 then on_con (\<lambda>c. csi_at (par 0 c) c) s
      else if ch = 109 then on_con csi_m s
      else if ch = 114 then on_con set_region s
      else if ch = 115 then on_con save_cur s
      else if ch = 117 then on_con restore_cur s
      else s)"

text \<open>State 3 collects the parameters; another character ends the sequence, through state 4.\<close>

definition con_params :: "int \<Rightarrow> 'a sys_scheme \<Rightarrow> 'a sys_scheme" where
  "con_params ch s =
     (if ch = 59 \<and> npar (con s) < NPAR - 1 then on_con (\<lambda>c. c\<lparr>npar := npar c + 1\<rparr>) s
      else if 48 \<le> ch \<and> ch \<le> 57
      then on_con (\<lambda>c. set_par (npar c) (10 * par (npar c) c + of_int ch - 48) c) s
      else con_command ch (on_con (con_state_update (\<lambda>_. 0)) s))"

definition con_char ::
  "(nat \<Rightarrow> 'a sys_scheme \<Rightarrow> 'a sys_scheme option) \<Rightarrow> nat \<Rightarrow> int \<Rightarrow> 'a sys_scheme \<Rightarrow> 'a sys_scheme option" where
  "con_char wr i ch s =
     (if con_state (con s) = 0 then Some (con_text i ch s)
      else if con_state (con s) = 1 then con_escape wr i ch s
      else if con_state (con s) = 2
      then
        let s = on_con (\<lambda>c. c\<lparr>pars := replicate NPAR 0, npar := 0, con_state := 3, ques := ch = 63\<rparr>) s
        in if ques (con s) then Some s else Some (con_params ch s)
      else if con_state (con s) = 3 then Some (con_params ch s)
      else if con_state (con s) = 4 then Some (con_command ch (on_con (con_state_update (\<lambda>_. 0)) s))
      else Some s)"

text \<open>The number of characters is read once, before the loop.\<close>

fun con_chars ::
  "(nat \<Rightarrow> 'a sys_scheme \<Rightarrow> 'a sys_scheme option) \<Rightarrow> nat \<Rightarrow> nat \<Rightarrow> 'a sys_scheme \<Rightarrow> 'a sys_scheme option" where
  "con_chars wr i 0 s = Some s"
| "con_chars wr i (Suc nr) s =
     (let (ch, q) = GETCH (queue Write_q i s)
      in do { s \<leftarrow> con_char wr i (sint ch) (set_queue Write_q i q s); con_chars wr i nr s })"

fun con_write :: "nat \<Rightarrow> nat \<Rightarrow> 'a sys_scheme \<Rightarrow> 'a sys_scheme option" where
  "con_write 0 i s = None"
| "con_write (Suc d) i s =
     do { s \<leftarrow> con_chars (con_write d) i (unat (CHARS (queue Write_q i s))) s; Some (set_cursor s) }"

subsection \<open>\<open>con_init\<close>\<close>

text \<open>
  The parameters that \<open>setup.s\<close> left at \<open>0x90000\<close>, and the letters that say which adapter was
  found, written into the top right corner. The gate of the keyboard interrupt is not modelled.
\<close>

fun put_letters :: "string \<Rightarrow> u32 \<Rightarrow> (u32 \<Rightarrow> u16) \<Rightarrow> (u32 \<Rightarrow> u16)" where
  "put_letters [] p m = m"
| "put_letters (ch # cs) p m = put_letters cs (p + 2) (m(p := (m p AND 0xff00) OR of_nat (of_char ch)))"

definition con_setup :: "u8 \<Rightarrow> u8 \<Rightarrow> u8 \<Rightarrow> u8 \<Rightarrow> console \<Rightarrow> console" where
  "con_setup mode cols page ega_bx c =
     (let c = c\<lparr>video_num_columns := ucast cols, video_size_row := ucast cols * 2, video_num_lines := 25,
                video_page := page, video_erase_char := 0x0720\<rparr>;
          adapter = ega_bx \<noteq> 0x10;
          c = (if mode = 7
               then c\<lparr>video_mem_start := 0xb0000, video_port_reg := 0x3b4, video_port_val := 0x3b5,
                      video_type := (if adapter then VIDEO_TYPE_EGAM else VIDEO_TYPE_MDA),
                      video_mem_end := (if adapter then 0xb8000 else 0xb2000)\<rparr>
               else c\<lparr>video_mem_start := 0xb8000, video_port_reg := 0x3d4, video_port_val := 0x3d5,
                      video_type := (if adapter then VIDEO_TYPE_EGAC else VIDEO_TYPE_CGA),
                      video_mem_end := (if adapter then 0xbc000 else 0xba000)\<rparr>);
          desc = (if mode = 7 then if adapter then ''EGAm'' else ''*MDA'' else if adapter then ''EGAc'' else ''*CGA'');
          c = c\<lparr>vram := put_letters desc (video_mem_start c + video_size_row c - 8) (vram c)\<rparr>
      in c\<lparr>origin := video_mem_start c, scr_end := video_mem_start c + video_num_lines c * video_size_row c,
           scr_top := 0, scr_bottom := video_num_lines c\<rparr>)"

definition con_init :: "'a sys_scheme \<Rightarrow> 'a sys_scheme" where
  "con_init s =
     (let s = on_con (con_setup (mem_byte 0x90006 s) (mem_byte 0x90007 s) (mem_byte 0x90004 s) (mem_byte 0x9000a s)) s;
          s = on_con (gotoxy (ucast (mem_byte 0x90000 s)) (ucast (mem_byte 0x90001 s))) s;
          s = outb (inb 0x21 s AND 0xfd) 0x21 s;
          a = inb 0x61 s;
          s = outb (a OR 0x80) 0x61 s
      in outb a 0x61 s)"

end
