(* ===== verification/Rd_Load.thy ===== *)
theory Rd_Load
  imports Mount
begin

text \<open>
  \<open>rd_load\<close> of \<open>kernel/blk_drv/ramdisk.c\<close>: when the root device is the floppy, the image of a file
  system that starts at its block 256 is copied to the RAM disk, which becomes the root device.
\<close>

text \<open>The fields of the super block read here: \<open>s_nzones\<close>, \<open>s_log_zone_size\<close> and \<open>s_magic\<close>, at 2, 10 and 16.\<close>

abbreviation (input) RD_BLOCK :: int where "RD_BLOCK \<equiv> 256"

text \<open>The loop: \<open>nblocks\<close> blocks left, the next one \<open>block\<close>, to go to \<open>cp\<close>; whether it read them all.\<close>

partial_function (option) rd_copy ::
  "'a fs_scheme io \<Rightarrow> int \<Rightarrow> int \<Rightarrow> u32 \<Rightarrow> 'a fs_scheme \<Rightarrow> (bool \<times> 'a fs_scheme) option" where
  "rd_copy io nblocks block cp s =
     (if nblocks = 0 then Some (True, s)
      else do {
        (bh, s) \<leftarrow> (if nblocks > 2 then breada io (ROOT_DEV s) block [block + 1, block + 2] s
                   else bread io (ROOT_DEV s) block s);
        case bh of
          None \<Rightarrow> Some (False, s)
        | Some b \<Rightarrow> do {
            let s = write_mem (b_data (buffers s b)) cp s;
            s \<leftarrow> brelse io (Some b) s;
            rd_copy io (wrap32 (nblocks - 1)) (wrap32 (block + 1)) (cp + 1024) s } })"

definition rd_load :: "'a fs_scheme io \<Rightarrow> 'a fs_scheme \<Rightarrow> 'a fs_scheme option" where
  "rd_load io s =
     (if rd_length s = 0 then Some s
      else if MAJOR (ROOT_DEV s) \<noteq> 2 then Some s
      else do {
        (bh, s) \<leftarrow> breada io (ROOT_DEV s) (RD_BLOCK + 1) [RD_BLOCK, RD_BLOCK + 2] s;
        case bh of
          None \<Rightarrow> Some s
        | Some b \<Rightarrow> do {
            let sb = b_data (buffers s b);
            s \<leftarrow> brelse io (Some b) s;
            if get_short sb 8 \<noteq> SUPER_MAGIC then Some s
            else do {
              let nblocks = wrap32 (uint (get_short sb 1) * 2 ^ (unat (get_short sb 5) mod 32));
              if nblocks > drop_bit 10 (rd_length s) then Some s
              else do {
                (done, s) \<leftarrow> rd_copy io nblocks RD_BLOCK (rd_start s) s;
                Some (if done then s\<lparr>ROOT_DEV := 0x0101\<rparr> else s) } } } })"

end
