(* ===== verification/Hd.thy ===== *)
theory Hd
  imports Console Rd_Load
begin

text \<open>
  \<open>kernel/blk_drv/hd.c\<close>: the driver of the AT hard disk. The controller is a parameter of the state:
  \<open>port_in\<close> gives the value of a port, or the next word of the data port, after the reads and writes so
  far; nothing is assumed about it. The words of \<open>port_write\<close> are logged as two bytes each. A handler
  that waits for the next interrupt is a value of \<open>hd_intr\<close>. Messages on the console are not modelled.
\<close>

subsection \<open>State\<close>

record hd_i_struct =
  hi_head :: int
  hi_sect :: int
  hi_cyl :: int
  hi_wpcom :: int
  hi_lzone :: int
  hi_ctl :: int

record hd_struct =
  start_sect :: int
  nr_sects :: int

datatype hd_intr = Read_intr | Write_intr | Recal_intr

record hdd = sys +
  recalibrate :: bool
  hd_reset :: bool
  hd_info :: "nat \<Rightarrow> hd_i_struct"
  NR_HD :: nat
  hd_part :: "nat \<Rightarrow> hd_struct"
  do_hd_handler :: "hd_intr option"
  setup_callable :: bool
  port_reads :: nat
  port_in :: "nat \<Rightarrow> (u32 \<times> u8) list \<Rightarrow> u32 \<Rightarrow> u16"

abbreviation (input) MAX_ERRORS :: int where "MAX_ERRORS \<equiv> 7"
abbreviation (input) HD_DATA :: u32 where "HD_DATA \<equiv> 0x1f0"
abbreviation (input) HD_ERROR :: u32 where "HD_ERROR \<equiv> 0x1f1"
abbreviation (input) HD_STATUS :: u32 where "HD_STATUS \<equiv> 0x1f7"
abbreviation (input) HD_CMD :: u32 where "HD_CMD \<equiv> 0x3f6"
abbreviation (input) WIN_RESTORE :: u32 where "WIN_RESTORE \<equiv> 0x10"
abbreviation (input) WIN_READ :: u32 where "WIN_READ \<equiv> 0x20"
abbreviation (input) WIN_WRITE :: u32 where "WIN_WRITE \<equiv> 0x30"
abbreviation (input) WIN_SPECIFY :: u32 where "WIN_SPECIFY \<equiv> 0x91"

subsection \<open>Ports\<close>

definition next_inw :: "u32 \<Rightarrow> 'a hdd_scheme \<Rightarrow> u16 \<times> 'a hdd_scheme" where
  "next_inw port s = (port_in s (port_reads s) (outs s) port, s\<lparr>port_reads := port_reads s + 1\<rparr>)"

definition next_inb :: "u32 \<Rightarrow> 'a hdd_scheme \<Rightarrow> u8 \<times> 'a hdd_scheme" where
  "next_inb port s = (let (w, s) = next_inw port s in (ucast w, s))"

text \<open>\<open>rep; insw\<close> and \<open>rep; outsw\<close>: the low byte of a word comes first in memory.\<close>

fun port_read :: "u32 \<Rightarrow> nat \<Rightarrow> 'a hdd_scheme \<Rightarrow> u8 list \<times> 'a hdd_scheme" where
  "port_read port 0 s = ([], s)"
| "port_read port (Suc n) s =
     (let (w, s) = next_inw port s; (bs, s) = port_read port n s in (ucast w # ucast (drop_bit 8 w) # bs, s))"

definition port_write :: "u32 \<Rightarrow> u8 list \<Rightarrow> 'a hdd_scheme \<Rightarrow> 'a hdd_scheme" where
  "port_write port bs s = s\<lparr>outs := outs s @ map (\<lambda>b. (port, b)) bs\<rparr>"

subsection \<open>Commands\<close>

fun controller_ready :: "nat \<Rightarrow> 'a hdd_scheme \<Rightarrow> nat \<times> 'a hdd_scheme" where
  "controller_ready 0 s = (0, s)"
| "controller_ready (Suc n) s =
     (if n = 0 then (0, s)
      else let (i, s) = next_inb HD_STATUS s in if i AND 0xc0 = 0x40 then (n, s) else controller_ready n s)"

definition win_result :: "'a hdd_scheme \<Rightarrow> bool \<times> 'a hdd_scheme" where
  "win_result s =
     (let (i, s) = next_inb HD_STATUS s
      in if i AND 0xf1 = 0x50 then (False, s)
         else if i AND 1 \<noteq> 0 then let (i, s) = next_inb HD_ERROR s in (True, s)
         else (True, s))"

definition hd_out ::
  "u32 \<Rightarrow> u32 \<Rightarrow> u32 \<Rightarrow> u32 \<Rightarrow> u32 \<Rightarrow> u32 \<Rightarrow> hd_intr \<Rightarrow> 'a hdd_scheme \<Rightarrow> 'a hdd_scheme option" where
  "hd_out drive nsect sect head cyl cmd intr s =
     (if drive > 1 \<or> head > 15 then None
      else
        let (ready, s) = controller_ready 10000 s
        in if ready = 0 then None
        else
          let s = s\<lparr>do_hd_handler := Some intr\<rparr>;
              s = outb (of_int (hi_ctl (hd_info s (unat drive)))) HD_CMD s;
              s = outb (of_int (drop_bit 2 (hi_wpcom (hd_info s (unat drive))))) 0x1f1 s;
              s = outb (ucast nsect) 0x1f2 s;
              s = outb (ucast sect) 0x1f3 s;
              s = outb (ucast cyl) 0x1f4 s;
              s = outb (ucast (drop_bit 8 cyl)) 0x1f5 s;
              s = outb (0xA0 OR ucast (push_bit 4 drive) OR ucast head) 0x1f6 s
          in Some (outb (ucast cmd) 0x1f7 s))"

text \<open>
  The last test of \<open>drive_busy\<close> is parsed as \<open>(i == READY_STAT) | SEEK_STAT\<close>, which is never 0: the
  function returns 0 whatever the status.
\<close>

fun wait_drive :: "nat \<Rightarrow> 'a hdd_scheme \<Rightarrow> 'a hdd_scheme" where
  "wait_drive 0 s = s"
| "wait_drive (Suc n) s = (let (i, s) = next_inb HD_STATUS s in if i AND 0xc0 = 0x40 then s else wait_drive n s)"

definition drive_busy :: "'a hdd_scheme \<Rightarrow> bool \<times> 'a hdd_scheme" where
  "drive_busy s =
     (let s = wait_drive 10000 s;
          (i, s) = next_inb HD_STATUS s;
          i = i AND 0xd0
      in if (if i = 0x40 then 1 else 0) OR (0x10 :: int) \<noteq> 0 then (False, s) else (True, s))"

definition reset_controller :: "'a hdd_scheme \<Rightarrow> 'a hdd_scheme" where
  "reset_controller s =
     (let s = outb 4 HD_CMD s;
          s = outb (of_int (hi_ctl (hd_info s 0)) AND 0x0f) HD_CMD s;
          (busy, s) = drive_busy s
      in snd (next_inb HD_ERROR s))"

definition reset_hd :: "nat \<Rightarrow> 'a hdd_scheme \<Rightarrow> 'a hdd_scheme option" where
  "reset_hd nr s =
     (let s = reset_controller s; h = hd_info s nr
      in hd_out (of_nat nr) (of_int (hi_sect h)) (of_int (hi_sect h)) (of_int (hi_head h - 1)) (of_int (hi_cyl h))
           WIN_SPECIFY Recal_intr s)"

subsection \<open>Requests\<close>

text \<open>
  \<open>bad_rw_intr\<close> tests \<open>CURRENT->errors\<close> again after \<open>end_request\<close>, which may have emptied the queue:
  the field is then read at the address 8.
\<close>

definition bad_rw_intr :: "'a hdd_scheme \<Rightarrow> 'a hdd_scheme option" where
  "bad_rw_intr s = do {
     r \<leftarrow> current_request s 3;
     let s = update_request r (\<lambda>q. q\<lparr>r_errors := r_errors q + 1\<rparr>) s;
     s \<leftarrow> (if r_errors (request s r) \<ge> MAX_ERRORS then end_request 3 False s else Some s);
     let errors = (case current_request s 3 of None \<Rightarrow> sint (mem_long 8 s) | Some r \<Rightarrow> r_errors (request s r));
     Some (if errors > MAX_ERRORS div 2 then s\<lparr>hd_reset := True\<rparr> else s) }"

text \<open>Where a request is on the disk: the sector, the head and the cylinder of a block (\<open>divl\<close> traps on 0).\<close>

definition chs :: "hd_i_struct \<Rightarrow> u32 \<Rightarrow> (u32 \<times> u32 \<times> u32) option" where
  "chs h block =
     (if (of_int (hi_sect h) :: u32) = 0 \<or> (of_int (hi_head h) :: u32) = 0 then None
      else
        let sec = block mod of_int (hi_sect h); block = block div of_int (hi_sect h);
            head = block mod of_int (hi_head h); cyl = block div of_int (hi_head h)
        in Some (sec + 1, head, cyl))"

text \<open>The wait for \<open>DRQ_STAT\<close> before the first sector is written.\<close>

fun wait_drq :: "nat \<Rightarrow> 'a hdd_scheme \<Rightarrow> bool \<times> 'a hdd_scheme" where
  "wait_drq 0 s = (False, s)"
| "wait_drq (Suc n) s =
     (let (r, s) = next_inb HD_STATUS s in if r AND 0x08 \<noteq> 0 then (True, s) else wait_drq n s)"

definition CURRENT_DEV :: "nat \<Rightarrow> 'a blk_scheme \<Rightarrow> nat" where
  "CURRENT_DEV r s = nat (MINOR (r_dev (request s r)) div 5)"

partial_function (option) do_hd_request :: "'a hdd_scheme \<Rightarrow> 'a hdd_scheme option" where
  "do_hd_request s =
     (case current_request s 3 of
        None \<Rightarrow> Some s
      | Some r \<Rightarrow>
          if \<not> init_request_ok 3 r s then None
          else
            let dev = nat (MINOR (r_dev (request s r)));
                block = r_sector (request s r)
            in if dev \<ge> 5 * NR_HD s \<or> block + 2 > of_int (nr_sects (hd_part s dev))
            then do { s \<leftarrow> end_request 3 False s; do_hd_request s }
            else do {
              let block = block + of_int (start_sect (hd_part s dev));
              let dev = dev div 5;
              (sec, head, cyl) \<leftarrow> chs (hd_info s dev) block;
              let nsect = r_nr_sectors (request s r);
              if hd_reset s
              then reset_hd (CURRENT_DEV r s) (s\<lparr>hd_reset := False, recalibrate := True\<rparr>)
              else if recalibrate s
              then hd_out (of_nat dev) (of_int (hi_sect (hd_info s (CURRENT_DEV r s)))) 0 0 0 WIN_RESTORE Recal_intr
                     (s\<lparr>recalibrate := False\<rparr>)
              else if r_cmd (request s r) = WRITE
              then do {
                s \<leftarrow> hd_out (of_nat dev) nsect sec head cyl WIN_WRITE Write_intr s;
                let (drq, s) = wait_drq 3000 s;
                if \<not> drq then do { s \<leftarrow> bad_rw_intr s; do_hd_request s }
                else Some (port_write HD_DATA (from_buffer (r_buffer (request s r)) 512 s) s) }
              else if r_cmd (request s r) = READ
              then hd_out (of_nat dev) nsect sec head cyl WIN_READ Read_intr s
              else None })"

subsection \<open>Interrupts\<close>

definition next_sector :: "request \<Rightarrow> request" where
  "next_sector q = q\<lparr>r_sector := r_sector q + 1, r_buffer := (fst (r_buffer q), snd (r_buffer q) + 512)\<rparr>"

definition read_intr :: "'a hdd_scheme \<Rightarrow> 'a hdd_scheme option" where
  "read_intr s =
     (let (bad, s) = win_result s
      in if bad then do { s \<leftarrow> bad_rw_intr s; do_hd_request s }
      else do {
        r \<leftarrow> current_request s 3;
        let (bs, s) = port_read HD_DATA 256 s;
        let s = to_buffer (r_buffer (request s r)) bs s;
        let s = update_request r (\<lambda>q. (next_sector q)\<lparr>r_errors := 0, r_nr_sectors := r_nr_sectors q - 1\<rparr>) s;
        if r_nr_sectors (request s r) \<noteq> 0 then Some (s\<lparr>do_hd_handler := Some Read_intr\<rparr>)
        else do { s \<leftarrow> end_request 3 True s; do_hd_request s } })"

definition write_intr :: "'a hdd_scheme \<Rightarrow> 'a hdd_scheme option" where
  "write_intr s =
     (let (bad, s) = win_result s
      in if bad then do { s \<leftarrow> bad_rw_intr s; do_hd_request s }
      else do {
        r \<leftarrow> current_request s 3;
        let s = update_request r (\<lambda>q. q\<lparr>r_nr_sectors := r_nr_sectors q - 1\<rparr>) s;
        if r_nr_sectors (request s r) \<noteq> 0
        then let s = (update_request r next_sector s)\<lparr>do_hd_handler := Some Write_intr\<rparr>
             in Some (port_write HD_DATA (from_buffer (r_buffer (request s r)) 512 s) s)
        else do { s \<leftarrow> end_request 3 True s; do_hd_request s } })"

definition recal_intr :: "'a hdd_scheme \<Rightarrow> 'a hdd_scheme option" where
  "recal_intr s =
     (let (bad, s) = win_result s
      in do { s \<leftarrow> (if bad then bad_rw_intr s else Some s); do_hd_request s })"

text \<open>
  \<open>_hd_interrupt\<close>: both interrupt controllers are told, the handler is taken and cleared; without one the
  interrupt is unexpected.
\<close>

definition hd_interrupt :: "'a hdd_scheme \<Rightarrow> 'a hdd_scheme option" where
  "hd_interrupt s =
     (let s = outb 0x20 0xA0 s; h = do_hd_handler s; s = s\<lparr>do_hd_handler := None\<rparr>; s = outb 0x20 0x20 s
      in case h of
           None \<Rightarrow> Some s
         | Some Read_intr \<Rightarrow> read_intr s
         | Some Write_intr \<Rightarrow> write_intr s
         | Some Recal_intr \<Rightarrow> recal_intr s)"

definition hd_init :: "'a hdd_scheme \<Rightarrow> 'a hdd_scheme" where
  "hd_init s =
     (let s = s\<lparr>request_fn := (request_fn s)(3 := Some do_hd)\<rparr>;
          s = outb (inb 0x21 s AND 0xfb) 0x21 s
      in outb (inb 0xA1 s AND 0xbf) 0xA1 s)"


subsection \<open>\<open>sys_setup\<close>\<close>

definition bios_drive :: "u32 \<Rightarrow> 'a mm_scheme \<Rightarrow> hd_i_struct" where
  "bios_drive b s =
     (let byte = (\<lambda>k. uint (mem_byte (b + k) s)); short = (\<lambda>k. byte k + 256 * byte (k + 1))
      in \<lparr>hi_head = byte 2, hi_sect = byte 14, hi_cyl = short 0, hi_wpcom = short 5, hi_lzone = short 12, hi_ctl = byte 8\<rparr>)"

definition CMOS_READ :: "u8 \<Rightarrow> 'a tty_scheme \<Rightarrow> u8 \<times> 'a tty_scheme" where
  "CMOS_READ addr s = (let s = outb (0x80 OR addr) 0x70 s in (inb 0x71 s, s))"

definition set_part :: "nat \<Rightarrow> int \<Rightarrow> int \<Rightarrow> 'a hdd_scheme \<Rightarrow> 'a hdd_scheme" where
  "set_part k st n s = s\<lparr>hd_part := (hd_part s)(k := \<lparr>start_sect = st, nr_sects = n\<rparr>)\<rparr>"

text \<open>The entries of a partition table, from byte \<open>0x1BE\<close> of the first block on.\<close>

definition read_partitions :: "nat \<Rightarrow> u8 list \<Rightarrow> 'a hdd_scheme \<Rightarrow> 'a hdd_scheme" where
  "read_partitions drive d s =
     fold (\<lambda>i. let p = drop (0x1BE + 16 * (i - 1)) d in set_part (i + 5 * drive) (sint (get_long p 2)) (sint (get_long p 3))) [1..<5] s"

definition setup_drive :: "'a hdd_scheme io \<Rightarrow> nat \<Rightarrow> 'a hdd_scheme \<Rightarrow> 'a hdd_scheme option" where
  "setup_drive io drive s = do {
     (bh, s) \<leftarrow> bread io (0x300 + int drive * 5) 0 s;
     b \<leftarrow> bh;
     let d = b_data (buffers s b);
     if d ! 510 \<noteq> 0x55 \<or> d ! 511 \<noteq> 0xAA then None
     else brelse io bh (read_partitions drive d s) }"

definition sys_setup :: "'a hdd_scheme io \<Rightarrow> u32 \<Rightarrow> 'a hdd_scheme \<Rightarrow> (int \<times> 'a hdd_scheme) option" where
  "sys_setup io BIOS s =
     (if \<not> setup_callable s then Some (-1, s)
      else do {
        let s = s\<lparr>setup_callable := False\<rparr>;
        let s = s\<lparr>hd_info := (hd_info s)(0 := bios_drive BIOS s, 1 := bios_drive (BIOS + 16) s)\<rparr>;
        let s = s\<lparr>NR_HD := if hi_cyl (hd_info s 1) \<noteq> 0 then 2 else 1\<rparr>;
        let s = fold (\<lambda>i s. set_part (i * 5) 0 (hi_head (hd_info s i) * hi_sect (hd_info s i) * hi_cyl (hd_info s i)) s) [0..<NR_HD s] s;
        let (cmos_disks, s) = CMOS_READ 0x12 s;
        let s = s\<lparr>NR_HD := if cmos_disks AND 0xf0 = 0 then 0 else if cmos_disks AND 0x0f \<noteq> 0 then 2 else 1\<rparr>;
        let s = fold (\<lambda>i. set_part (i * 5) 0 0) [NR_HD s..<2] s;
        s \<leftarrow> fold_opt (setup_drive io) [0..<NR_HD s] s;
        s \<leftarrow> rd_load io s;
        s \<leftarrow> mount_root io s;
        Some (0, s) })"

end
