(* ===== verification/Floppy.thy ===== *)
theory Floppy
  imports Hd
begin

text \<open>
  \<open>kernel/blk_drv/floppy.c\<close>. The state machine of the driver: \<open>do_fd_request\<close> sets the drive up and
  waits for the motor, \<open>transfer\<close> seeks, \<open>setup_rw_floppy\<close> gives the command, and the interrupt
  handlers go on from there; a value of \<open>fd_intr\<close> is the handler that waits. The controller is
  \<open>port_in\<close>, as for the hard disk, and what it moves by DMA is not part of the driver. The driver calls
  \<open>do_fd_request\<close> from the functions that \<open>do_fd_request\<close> itself may reach: \<open>req\<close> is that call, and
  the first argument of \<open>do_fd_request\<close> bounds how deep such calls nest.
\<close>

subsection \<open>State\<close>

record floppy_struct =
  fl_size :: u32
  fl_sect :: u32
  fl_head :: u32
  fl_track :: u32
  fl_stretch :: u32
  fl_gap :: u8
  fl_rate :: u8
  fl_spec1 :: u8

definition fd_kind :: "u32 \<Rightarrow> u32 \<Rightarrow> u32 \<Rightarrow> u32 \<Rightarrow> u32 \<Rightarrow> u8 \<Rightarrow> u8 \<Rightarrow> u8 \<Rightarrow> floppy_struct" where
  "fd_kind sz sect head track stretch gap rate spec1 =
     \<lparr>fl_size = sz, fl_sect = sect, fl_head = head, fl_track = track, fl_stretch = stretch, fl_gap = gap,
      fl_rate = rate, fl_spec1 = spec1\<rparr>"

definition floppy_type :: "floppy_struct list" where
  "floppy_type =
     [fd_kind 0 0 0 0 0 0x00 0x00 0x00, fd_kind 720 9 2 40 0 0x2A 0x02 0xDF, fd_kind 2400 15 2 80 0 0x1B 0x00 0xDF,
      fd_kind 720 9 2 40 1 0x2A 0x02 0xDF, fd_kind 1440 9 2 80 0 0x2A 0x02 0xDF, fd_kind 720 9 2 40 1 0x23 0x01 0xDF,
      fd_kind 1440 9 2 80 0 0x23 0x01 0xDF, fd_kind 2880 18 2 80 0 0x1B 0x00 0xCF]"

datatype fd_intr = Rw_interrupt | Seek_interrupt | Recal_interrupt | Reset_interrupt

record fdd = hdd +
  fd_recalibrate :: bool
  fd_reset :: bool
  fd_seek :: bool
  reply_buffer :: "u8 list"
  cur_spec1 :: int
  cur_rate :: int
  floppy :: floppy_struct
  current_drive :: u8
  fd_sector :: u8
  fd_head :: u8
  fd_track :: u8
  seek_track :: u8
  current_track :: u8
  fd_command :: u8
  wait_on_floppy_select :: "nat option"
  do_floppy :: "fd_intr option"
  tmp_floppy_area :: "u8 list"
  data_addr :: "nat \<Rightarrow> u32"

text \<open>\<open>data_addr\<close> is the address that \<open>buffer_init\<close> gave the block of a buffer head.\<close>

abbreviation (input) FD_MAX_ERRORS :: int where "FD_MAX_ERRORS \<equiv> 8"
abbreviation (input) MAX_REPLIES :: nat where "MAX_REPLIES \<equiv> 7"
abbreviation (input) FD_STATUS :: u32 where "FD_STATUS \<equiv> 0x3f4"
abbreviation (input) FD_DATA :: u32 where "FD_DATA \<equiv> 0x3f5"
abbreviation (input) FD_DIR :: u32 where "FD_DIR \<equiv> 0x3f7"
abbreviation (input) FD_DCR :: u32 where "FD_DCR \<equiv> 0x3f7"
abbreviation (input) FD_RECALIBRATE :: u8 where "FD_RECALIBRATE \<equiv> 0x07"
abbreviation (input) FD_SEEK :: u8 where "FD_SEEK \<equiv> 0x0F"
abbreviation (input) FD_READ :: u8 where "FD_READ \<equiv> 0xE6"
abbreviation (input) FD_WRITE :: u8 where "FD_WRITE \<equiv> 0xC5"
abbreviation (input) FD_SENSEI :: u8 where "FD_SENSEI \<equiv> 0x08"
abbreviation (input) FD_SPECIFY :: u8 where "FD_SPECIFY \<equiv> 0x03"
abbreviation (input) DMA_READ :: u8 where "DMA_READ \<equiv> 0x46"
abbreviation (input) DMA_WRITE :: u8 where "DMA_WRITE \<equiv> 0x4A"

text \<open>The function pointers the driver gives to \<open>add_timer\<close>.\<close>

abbreviation (input) FLOPPY_ON_INTERRUPT :: nat where "FLOPPY_ON_INTERRUPT \<equiv> 1"
abbreviation (input) TRANSFER :: nat where "TRANSFER \<equiv> 2"

definition ST :: "nat \<Rightarrow> 'a fdd_scheme \<Rightarrow> u8" where
  "ST k s = reply_buffer s ! k"

subsection \<open>Selecting a drive\<close>

definition select_queue :: "'a fdd_scheme wait_queue" where
  "select_queue = (\<lambda>s. wait_on_floppy_select s, \<lambda>v s. s\<lparr>wait_on_floppy_select := v\<rparr>)"

definition floppy_deselect :: "u32 \<Rightarrow> 'a fdd_scheme \<Rightarrow> 'a fdd_scheme" where
  "floppy_deselect nr s = wake_up select_queue (s\<lparr>selected := False\<rparr>)"

partial_function (option) wait_selected ::
  "'a fdd_scheme environment \<Rightarrow> nat \<Rightarrow> 'a fdd_scheme \<Rightarrow> 'a fdd_scheme option" where
  "wait_selected env nr s =
     (if unat (current_DOR s AND 3) \<noteq> nr \<and> selected s
      then do { s \<leftarrow> interruptible_sleep_on env select_queue s; wait_selected env nr s } else Some s)"

partial_function (option) floppy_change ::
  "'a fdd_scheme environment \<Rightarrow> nat \<Rightarrow> 'a fdd_scheme \<Rightarrow> (bool \<times> 'a fdd_scheme) option" where
  "floppy_change env nr s = do {
     s \<leftarrow> floppy_on env nr s;
     s \<leftarrow> wait_selected env nr s;
     if unat (current_DOR s AND 3) \<noteq> nr then floppy_change env nr s
     else
       let (i, s) = next_inb FD_DIR s
       in Some (i AND 0x80 \<noteq> 0, floppy_off nr s) }"

subsection \<open>Talking to the controller\<close>

fun output_loop :: "nat \<Rightarrow> u8 \<Rightarrow> 'a fdd_scheme \<Rightarrow> 'a fdd_scheme" where
  "output_loop 0 b s = s\<lparr>fd_reset := True\<rparr>"
| "output_loop (Suc n) b s =
     (let (status, s) = next_inb FD_STATUS s
      in if status AND 0xc0 = 0x80 then outb b FD_DATA s else output_loop n b s)"

definition output_byte :: "u8 \<Rightarrow> 'a fdd_scheme \<Rightarrow> 'a fdd_scheme" where
  "output_byte b s = (if fd_reset s then s else output_loop 10000 b s)"

text \<open>The replies of the controller: their number, or -1 when it is not ready or sends too many.\<close>

fun result_loop :: "nat \<Rightarrow> nat \<Rightarrow> 'a fdd_scheme \<Rightarrow> int \<times> 'a fdd_scheme" where
  "result_loop 0 i s = (-1, s\<lparr>fd_reset := True\<rparr>)"
| "result_loop (Suc n) i s =
     (let (status, s) = next_inb FD_STATUS s
      in if status AND 0xd0 = 0x80 then (int i, s)
         else if status AND 0xd0 = 0xd0
         then if i \<ge> MAX_REPLIES then (-1, s\<lparr>fd_reset := True\<rparr>)
              else let (b, s) = next_inb FD_DATA s
                   in result_loop n (i + 1) (s\<lparr>reply_buffer := (reply_buffer s)[i := b]\<rparr>)
         else result_loop n i s)"

definition result :: "'a fdd_scheme \<Rightarrow> int \<times> 'a fdd_scheme" where
  "result s = (if fd_reset s then (-1, s) else result_loop 10000 0 s)"

text \<open>The address of \<open>CURRENT->buffer\<close>, and the two directions of \<open>copy_buffer\<close>.\<close>

definition buffer_address :: "nat \<Rightarrow> 'a fdd_scheme \<Rightarrow> u32" where
  "buffer_address r s = data_addr s (fst (r_buffer (request s r))) + of_nat (snd (r_buffer (request s r)))"

definition setup_DMA :: "u32 \<Rightarrow> 'a fdd_scheme \<Rightarrow> 'a fdd_scheme option" where
  "setup_DMA tmp_area s = do {
     r \<leftarrow> current_request s 2;
     let high = 0x100000 \<le>s buffer_address r s;
     let addr = (if high then tmp_area else buffer_address r s);
     let s = (if high \<and> fd_command s = FD_WRITE
              then s\<lparr>tmp_floppy_area := from_buffer (r_buffer (request s r)) 1024 s\<rparr> else s);
     let mode = (if fd_command s = FD_READ then DMA_READ else DMA_WRITE);
     Some (fold (\<lambda>(port, v). outb v port)
       [(10, 4 OR 2), (12, mode), (11, mode), (4, ucast addr), (4, ucast (drop_bit 8 addr)),
        (0x81, ucast (drop_bit 16 addr)), (5, 0xff), (5, 3), (10, 2)] s) }"

subsection \<open>Errors and reset\<close>

definition bad_flp_intr :: "'a fdd_scheme \<Rightarrow> 'a fdd_scheme option" where
  "bad_flp_intr s = do {
     r \<leftarrow> current_request s 2;
     let s = update_request r (\<lambda>q. q\<lparr>r_errors := r_errors q + 1\<rparr>) s;
     s \<leftarrow> (if r_errors (request s r) > FD_MAX_ERRORS
           then end_request 2 False (floppy_deselect (ucast (current_drive s)) s) else Some s);
     let errors = (case current_request s 2 of None \<Rightarrow> sint (mem_long 8 s) | Some r \<Rightarrow> r_errors (request s r));
     Some (if errors > FD_MAX_ERRORS div 2 then s\<lparr>fd_reset := True\<rparr> else s\<lparr>fd_recalibrate := True\<rparr>) }"

definition reset_floppy :: "'a fdd_scheme \<Rightarrow> 'a fdd_scheme" where
  "reset_floppy s =
     (let s = s\<lparr>fd_reset := False, cur_spec1 := -1, cur_rate := -1, fd_recalibrate := True\<rparr>;
          s = s\<lparr>do_floppy := Some Reset_interrupt\<rparr>;
          s = s\<lparr>FD_DOR := current_DOR s AND NOT 0x04\<rparr>
      in s\<lparr>FD_DOR := current_DOR s\<rparr>)"

definition head_drive :: "'a fdd_scheme \<Rightarrow> u8" where
  "head_drive s = push_bit 2 (fd_head s) OR current_drive s"

definition recalibrate_floppy ::
  "('a fdd_scheme \<Rightarrow> 'a fdd_scheme option) \<Rightarrow> 'a fdd_scheme \<Rightarrow> 'a fdd_scheme option" where
  "recalibrate_floppy req s =
     (let s = s\<lparr>fd_recalibrate := False, current_track := 0, do_floppy := Some Recal_interrupt\<rparr>;
          s = output_byte FD_RECALIBRATE s;
          s = output_byte (head_drive s) s
      in if fd_reset s then req s else Some s)"

subsection \<open>Seek and transfer\<close>

text \<open>\<open>tmp_area\<close> is the address of \<open>tmp_floppy_area\<close>, below 1 MB (\<open>boot/head.s\<close>).\<close>

abbreviation (input) TMP_FLOPPY_AREA :: u32 where "TMP_FLOPPY_AREA \<equiv> 0x5000"

definition setup_rw_floppy ::
  "('a fdd_scheme \<Rightarrow> 'a fdd_scheme option) \<Rightarrow> 'a fdd_scheme \<Rightarrow> 'a fdd_scheme option" where
  "setup_rw_floppy req s = do {
     s \<leftarrow> setup_DMA TMP_FLOPPY_AREA s;
     let s = s\<lparr>do_floppy := Some Rw_interrupt\<rparr>;
     let s = output_byte (fd_command s) s;
     let s = output_byte (head_drive s) s;
     let s = output_byte (fd_track s) s;
     let s = output_byte (fd_head s) s;
     let s = output_byte (fd_sector s) s;
     let s = output_byte 2 s;
     let s = output_byte (ucast (fl_sect (floppy s))) s;
     let s = output_byte (fl_gap (floppy s)) s;
     let s = output_byte 0xFF s;
     if fd_reset s then req s else Some s }"

definition transfer :: "('a fdd_scheme \<Rightarrow> 'a fdd_scheme option) \<Rightarrow> 'a fdd_scheme \<Rightarrow> 'a fdd_scheme option" where
  "transfer req s =
     (let s = (if cur_spec1 s \<noteq> uint (fl_spec1 (floppy s))
               then
                 let s = s\<lparr>cur_spec1 := uint (fl_spec1 (floppy s))\<rparr>
                 in output_byte 6 (output_byte (of_int (cur_spec1 s)) (output_byte FD_SPECIFY s))
               else s);
          s = (if cur_rate s \<noteq> uint (fl_rate (floppy s))
               then let s = s\<lparr>cur_rate := uint (fl_rate (floppy s))\<rparr> in outb (of_int (cur_rate s)) FD_DCR s
               else s)
      in if fd_reset s then req s
      else if \<not> fd_seek s then setup_rw_floppy req s
      else
        let s = s\<lparr>do_floppy := Some Seek_interrupt\<rparr>;
            s = (if seek_track s \<noteq> 0
                 then output_byte (seek_track s) (output_byte (head_drive s) (output_byte FD_SEEK s))
                 else output_byte (head_drive s) (output_byte FD_RECALIBRATE s))
        in if fd_reset s then req s else Some s)"

definition floppy_on_interrupt ::
  "('a fdd_scheme \<Rightarrow> 'a fdd_scheme option) \<Rightarrow> 'a fdd_scheme \<Rightarrow> 'a fdd_scheme option" where
  "floppy_on_interrupt req s =
     (let s = s\<lparr>selected := True\<rparr>
      in if current_drive s \<noteq> current_DOR s AND 3
         then
           let s = s\<lparr>current_DOR := current_DOR s AND 0xFC\<rparr>;
               s = s\<lparr>current_DOR := current_DOR s OR current_drive s\<rparr>;
               s = s\<lparr>FD_DOR := current_DOR s\<rparr>
           in add_timer (\<lambda>_ _. None) 2 (Some TRANSFER) s
         else transfer req s)"

subsection \<open>Requests\<close>

text \<open>
  The part between \<open>repeat:\<close> and \<open>goto repeat\<close>: requests beyond the end of the disk are ended, and the
  drive of the first other one is set up; whether there was one.
\<close>

partial_function (option) fd_next :: "'a fdd_scheme \<Rightarrow> (bool \<times> 'a fdd_scheme) option" where
  "fd_next s =
     (case current_request s 2 of
        None \<Rightarrow> Some (False, s)
      | Some r \<Rightarrow>
          if \<not> init_request_ok 2 r s then None
          else
            let kind = nat (drop_bit 2 (MINOR (r_dev (request s r))))
            in if kind \<ge> length floppy_type then None
            else
              let s = s\<lparr>floppy := floppy_type ! kind\<rparr>;
                  dev = of_int (r_dev (request s r) AND 3);
                  s = (if current_drive s \<noteq> dev then s\<lparr>fd_seek := True\<rparr> else s);
                  s = s\<lparr>current_drive := dev\<rparr>;
                  block = r_sector (request s r)
              in if block + 2 > fl_size (floppy s)
                 then do { s \<leftarrow> end_request 2 False s; fd_next s }
                 else if fl_sect (floppy s) = 0 \<or> fl_head (floppy s) = 0 then None
                 else
                   let s = s\<lparr>fd_sector := ucast (block mod fl_sect (floppy s))\<rparr>;
                       block = block div fl_sect (floppy s);
                       s = s\<lparr>fd_head := ucast (block mod fl_head (floppy s)),
                             fd_track := ucast (block div fl_head (floppy s))\<rparr>;
                       s = s\<lparr>seek_track := push_bit (unat (fl_stretch (floppy s))) (fd_track s)\<rparr>;
                       s = (if seek_track s \<noteq> current_track s then s\<lparr>fd_seek := True\<rparr> else s);
                       s = s\<lparr>fd_sector := fd_sector s + 1\<rparr>
                   in if r_cmd (request s r) = READ then Some (True, s\<lparr>fd_command := FD_READ\<rparr>)
                      else if r_cmd (request s r) = WRITE then Some (True, s\<lparr>fd_command := FD_WRITE\<rparr>)
                      else None)"

fun do_fd_request :: "nat \<Rightarrow> 'a fdd_scheme \<Rightarrow> 'a fdd_scheme option" where
  "do_fd_request 0 s = None"
| "do_fd_request (Suc d) s =
     (let s = s\<lparr>fd_seek := False\<rparr>
      in if fd_reset s then Some (reset_floppy s)
      else if fd_recalibrate s then recalibrate_floppy (do_fd_request d) s
      else do {
        (found, s) \<leftarrow> fd_next s;
        if \<not> found then Some s
        else do {
          (ticks, s) \<leftarrow> ticks_to_floppy_on (unat (current_drive s)) s;
          add_timer (\<lambda>_. floppy_on_interrupt (do_fd_request d)) ticks (Some FLOPPY_ON_INTERRUPT) s } })"

subsection \<open>Interrupts\<close>

definition rw_interrupt :: "nat \<Rightarrow> 'a fdd_scheme \<Rightarrow> 'a fdd_scheme option" where
  "rw_interrupt d s =
     (let (n, s) = result s
      in if n \<noteq> 7 \<or> ST 0 s AND 0xf8 \<noteq> 0 \<or> ST 1 s AND 0xbf \<noteq> 0 \<or> ST 2 s AND 0x73 \<noteq> 0
         then do {
           s \<leftarrow> (if ST 1 s AND 0x02 \<noteq> 0
                 then end_request 2 False (floppy_deselect (ucast (current_drive s)) s) else bad_flp_intr s);
           do_fd_request d s }
         else do {
           r \<leftarrow> current_request s 2;
           let s = (if fd_command s = FD_READ \<and> buffer_address r s \<ge> 0x100000
                    then to_buffer (r_buffer (request s r)) (tmp_floppy_area s) s else s);
           s \<leftarrow> end_request 2 True (floppy_deselect (ucast (current_drive s)) s);
           do_fd_request d s })"

definition seek_interrupt :: "nat \<Rightarrow> 'a fdd_scheme \<Rightarrow> 'a fdd_scheme option" where
  "seek_interrupt d s =
     (let (n, s) = result (output_byte FD_SENSEI s)
      in if n \<noteq> 2 \<or> ST 0 s AND 0xF8 \<noteq> 0x20 \<or> ST 1 s \<noteq> seek_track s
         then do { s \<leftarrow> bad_flp_intr s; do_fd_request d s }
         else setup_rw_floppy (do_fd_request d) (s\<lparr>current_track := ST 1 s\<rparr>))"

definition recal_interrupt :: "nat \<Rightarrow> 'a fdd_scheme \<Rightarrow> 'a fdd_scheme option" where
  "recal_interrupt d s =
     (let (n, s) = result (output_byte FD_SENSEI s)
      in do_fd_request d
           (if n \<noteq> 2 \<or> ST 0 s AND 0xE0 = 0x60 then s\<lparr>fd_reset := True\<rparr> else s\<lparr>fd_recalibrate := False\<rparr>))"

definition unexpected_floppy_interrupt :: "'a fdd_scheme \<Rightarrow> 'a fdd_scheme" where
  "unexpected_floppy_interrupt s =
     (let (n, s) = result (output_byte FD_SENSEI s)
      in if n \<noteq> 2 \<or> ST 0 s AND 0xE0 = 0x60 then s\<lparr>fd_reset := True\<rparr> else s\<lparr>fd_recalibrate := True\<rparr>)"

definition reset_interrupt :: "nat \<Rightarrow> 'a fdd_scheme \<Rightarrow> 'a fdd_scheme option" where
  "reset_interrupt d s =
     (let (n, s) = result (output_byte FD_SENSEI s)
      in do_fd_request d (output_byte 6 (output_byte (of_int (cur_spec1 s)) (output_byte FD_SPECIFY s))))"

text \<open>\<open>_floppy_interrupt\<close> of \<open>kernel/system_call.s\<close>, and the calls that the timers make.\<close>

definition floppy_interrupt :: "nat \<Rightarrow> 'a fdd_scheme \<Rightarrow> 'a fdd_scheme option" where
  "floppy_interrupt d s =
     (let s = outb 0x20 0x20 s; h = do_floppy s; s = s\<lparr>do_floppy := None\<rparr>
      in case h of
           None \<Rightarrow> Some (unexpected_floppy_interrupt s)
         | Some Rw_interrupt \<Rightarrow> rw_interrupt d s
         | Some Seek_interrupt \<Rightarrow> seek_interrupt d s
         | Some Recal_interrupt \<Rightarrow> recal_interrupt d s
         | Some Reset_interrupt \<Rightarrow> reset_interrupt d s)"

definition floppy_call :: "nat \<Rightarrow> nat \<Rightarrow> 'a fdd_scheme \<Rightarrow> 'a fdd_scheme option" where
  "floppy_call d f s =
     (if f = FLOPPY_ON_INTERRUPT then floppy_on_interrupt (do_fd_request d) s
      else if f = TRANSFER then transfer (do_fd_request d) s else None)"

definition floppy_init :: "'a fdd_scheme \<Rightarrow> 'a fdd_scheme" where
  "floppy_init s =
     (let s = s\<lparr>request_fn := (request_fn s)(2 := Some do_fd)\<rparr>
      in outb (inb 0x21 s AND NOT 0x40) 0x21 s)"

end
