(* ===== verification/Sys.thy ===== *)
theory Sys
  imports Memory
begin

text \<open>
  \<open>kernel/sys.c\<close>: the system calls that read and set the fields of the current task. A
  parameter of type \<open>int\<close> is an integer; the 16-bit user and group numbers are compared after
  the promotion to \<open>int\<close> and truncated when they are stored.
\<close>

subsection \<open>Users and groups\<close>

definition sys_setregid :: "int \<Rightarrow> int \<Rightarrow> 'a sched_scheme \<Rightarrow> int \<times> 'a sched_scheme" where
  "sys_setregid rgid egid s =
     (let r = (if rgid > 0
               then if uint (t_gid (cur_task s)) = rgid \<or> suser s
                    then Some (update_task (current s) (t_gid_update (\<lambda>_. of_int rgid)) s)
                    else None
               else Some s)
      in case r of
           None \<Rightarrow> (-EPERM, s)
         | Some s \<Rightarrow>
             if egid > 0
             then if uint (t_gid (cur_task s)) = egid \<or> uint (t_egid (cur_task s)) = egid
                     \<or> uint (t_sgid (cur_task s)) = egid \<or> suser s
                  then (0, update_task (current s) (t_egid_update (\<lambda>_. of_int egid)) s)
                  else (-EPERM, s)
             else (0, s))"

definition sys_setgid :: "int \<Rightarrow> 'a sched_scheme \<Rightarrow> int \<times> 'a sched_scheme" where
  "sys_setgid gid s = sys_setregid gid gid s"

definition sys_setreuid :: "int \<Rightarrow> int \<Rightarrow> 'a sched_scheme \<Rightarrow> int \<times> 'a sched_scheme" where
  "sys_setreuid ruid euid s =
     (let old_ruid = uint (t_uid (cur_task s));
          r = (if ruid > 0
               then if uint (t_euid (cur_task s)) = ruid \<or> old_ruid = ruid \<or> suser s
                    then Some (update_task (current s) (t_uid_update (\<lambda>_. of_int ruid)) s)
                    else None
               else Some s)
      in case r of
           None \<Rightarrow> (-EPERM, s)
         | Some s \<Rightarrow>
             if euid > 0
             then if old_ruid = euid \<or> uint (t_euid (cur_task s)) = euid \<or> suser s
                  then (0, update_task (current s) (t_euid_update (\<lambda>_. of_int euid)) s)
                  else (-EPERM, update_task (current s) (t_uid_update (\<lambda>_. of_int old_ruid)) s)
             else (0, s))"

definition sys_setuid :: "int \<Rightarrow> 'a sched_scheme \<Rightarrow> int \<times> 'a sched_scheme" where
  "sys_setuid uid s = sys_setreuid uid uid s"

subsection \<open>Times\<close>

definition sys_time :: "u32 \<Rightarrow> 'a mm_scheme \<Rightarrow> (int \<times> 'a mm_scheme) option" where
  "sys_time tloc s =
     (let i = wrap32 (CURRENT_TIME s)
      in if tloc = 0 then Some (i, s)
         else do { s \<leftarrow> verify_area tloc 4 s; Some (i, put_fs_long (of_int i) tloc s) })"

definition sys_stime :: "u32 \<Rightarrow> 'a sched_scheme \<Rightarrow> int \<times> 'a sched_scheme" where
  "sys_stime tptr s =
     (if \<not> suser s then (-EPERM, s)
      else (0, s\<lparr>startup_time := sint (get_fs_long tptr s - of_int (jiffies s sdiv HZ))\<rparr>))"

definition sys_times :: "u32 \<Rightarrow> 'a mm_scheme \<Rightarrow> (int \<times> 'a mm_scheme) option" where
  "sys_times tbuf s =
     (if tbuf = 0 then Some (jiffies s, s)
      else do {
        s \<leftarrow> verify_area tbuf 16 s;
        let s = put_fs_long (of_int (t_utime (cur_task s))) tbuf s;
        let s = put_fs_long (of_int (t_stime (cur_task s))) (tbuf + 4) s;
        let s = put_fs_long (of_int (t_cutime (cur_task s))) (tbuf + 8) s;
        let s = put_fs_long (of_int (t_cstime (cur_task s))) (tbuf + 12) s;
        Some (jiffies s, s) })"

subsection \<open>The break, process groups and sessions\<close>

definition sys_brk :: "u32 \<Rightarrow> 'a sched_scheme \<Rightarrow> int \<times> 'a sched_scheme" where
  "sys_brk end_data_seg s =
     (let s = (if end_data_seg \<ge> t_end_code (cur_task s) \<and> end_data_seg < t_start_stack (cur_task s) - 16384
               then update_task (current s) (t_brk_update (\<lambda>_. end_data_seg)) s else s)
      in (sint (t_brk (cur_task s)), s))"

definition find_pid :: "int \<Rightarrow> 'a sched_scheme \<Rightarrow> nat option" where
  "find_pid pid s =
     List.find (\<lambda>i. case task s ! i of None \<Rightarrow> False | Some p \<Rightarrow> t_pid (tasks s p) = pid) [0..<NR_TASKS]"

definition sys_setpgid :: "int \<Rightarrow> int \<Rightarrow> 'a sched_scheme \<Rightarrow> int \<times> 'a sched_scheme" where
  "sys_setpgid pid pgid s =
     (let pid = (if pid = 0 then t_pid (cur_task s) else pid);
          pgid = (if pgid = 0 then t_pid (cur_task s) else pgid)
      in case find_pid pid s of
           None \<Rightarrow> (-ESRCH, s)
         | Some i \<Rightarrow>
             let p = the (task s ! i)
             in if t_leader (tasks s p) \<noteq> 0 then (-EPERM, s)
                else if t_session (tasks s p) \<noteq> t_session (cur_task s) then (-EPERM, s)
                else (0, update_task p (t_pgrp_update (\<lambda>_. pgid)) s))"

definition sys_getpgrp :: "'a sched_scheme \<Rightarrow> int" where
  "sys_getpgrp s = t_pgrp (cur_task s)"

definition sys_setsid :: "'a sched_scheme \<Rightarrow> int \<times> 'a sched_scheme" where
  "sys_setsid s =
     (if t_leader (cur_task s) \<noteq> 0 \<and> \<not> suser s then (-EPERM, s)
      else
        let s = update_task (current s)
                  (\<lambda>t. t\<lparr>t_leader := 1, t_pgrp := t_pid t, t_session := t_pid t, t_tty := -1\<rparr>) s
        in (t_pgrp (cur_task s), s))"

subsection \<open>Names and masks\<close>

text \<open>The five fields of nine bytes of the static \<open>struct utsname\<close>, padded with NULs.\<close>

definition uts_field :: "string \<Rightarrow> u8 list" where
  "uts_field str = map (\<lambda>c. of_nat (of_char c)) str @ replicate (9 - length str) 0"

definition thisname :: "u8 list" where
  "thisname = concat (map uts_field [''linux .0'', ''nodename'', ''release '', ''version '', ''machine ''])"

definition sys_uname :: "u32 \<Rightarrow> 'a mm_scheme \<Rightarrow> (int \<times> 'a mm_scheme) option" where
  "sys_uname name s =
     (if name = 0 then Some (-ERROR, s)
      else do { s \<leftarrow> verify_area name 45 s; Some (0, s\<lparr>umem := write_bytes thisname name (umem s)\<rparr>) })"

definition sys_umask :: "int \<Rightarrow> 'a sched_scheme \<Rightarrow> int \<times> 'a sched_scheme" where
  "sys_umask msk s =
     (uint (t_umask (cur_task s)), update_task (current s) (t_umask_update (\<lambda>_. of_int msk AND 0x1ff)) s)"

text \<open>The calls of later systems that 0.11 only names.\<close>

definition sys_ftime :: int where "sys_ftime = -ENOSYS"
definition sys_break :: int where "sys_break = -ENOSYS"
definition sys_ptrace :: int where "sys_ptrace = -ENOSYS"
definition sys_stty :: int where "sys_stty = -ENOSYS"
definition sys_gtty :: int where "sys_gtty = -ENOSYS"
definition sys_rename :: int where "sys_rename = -ENOSYS"
definition sys_prof :: int where "sys_prof = -ENOSYS"
definition sys_acct :: int where "sys_acct = -ENOSYS"
definition sys_phys :: int where "sys_phys = -ENOSYS"
definition sys_lock :: int where "sys_lock = -ENOSYS"
definition sys_mpx :: int where "sys_mpx = -ENOSYS"
definition sys_ulimit :: int where "sys_ulimit = -ENOSYS"

end
