(* ===== verification/Exit.thy ===== *)
theory Exit
  imports Files Sys
begin

text \<open>
  \<open>kernel/exit.c\<close>: signals between processes, the end of a process and \<open>waitpid\<close>. The
  loops \<open>while (--p > &FIRST_TASK)\<close> visit the slots 63 down to 1 of \<open>task\<close>, the list
  \<open>task_slots\<close> of the scheduler. A process that has ended never runs again: \<open>do_exit\<close> gives
  the state in which the task picked by its last \<open>schedule()\<close> goes on.
\<close>

subsection \<open>Sending signals\<close>

definition raise_sig :: "nat \<Rightarrow> nat \<Rightarrow> 'a sched_scheme \<Rightarrow> 'a sched_scheme" where
  "raise_sig sig = (\<lambda>p. update_task p (\<lambda>t. t\<lparr>t_signal := t_signal t OR sig_bit sig\<rparr>))"

definition send_sig :: "int \<Rightarrow> nat option \<Rightarrow> bool \<Rightarrow> 'a sched_scheme \<Rightarrow> int \<times> 'a sched_scheme" where
  "send_sig sig p priv s =
     (case p of
        None \<Rightarrow> (-EINVAL, s)
      | Some p \<Rightarrow>
          if sig < 1 \<or> sig > 32 then (-EINVAL, s)
          else if priv \<or> t_euid (cur_task s) = t_euid (tasks s p) \<or> suser s then (0, raise_sig (nat sig) p s)
          else (-EPERM, s))"

definition kill_session_step :: "nat \<Rightarrow> 'a sched_scheme \<Rightarrow> 'a sched_scheme" where
  "kill_session_step i s =
     (case task s ! i of
        None \<Rightarrow> s
      | Some p \<Rightarrow> if t_session (tasks s p) = t_session (cur_task s) then raise_sig SIGHUP p s else s)"

definition kill_session :: "'a sched_scheme \<Rightarrow> 'a sched_scheme" where
  "kill_session s = fold kill_session_step task_slots s"

text \<open>One of the loops of \<open>kill\<close>: the tasks that satisfy \<open>sel\<close>, and the last error.\<close>

definition kill_step ::
  "(task_struct \<Rightarrow> bool) \<Rightarrow> int \<Rightarrow> bool \<Rightarrow> nat \<Rightarrow> int \<times> 'a sched_scheme \<Rightarrow> int \<times> 'a sched_scheme" where
  "kill_step sel sig priv i = (\<lambda>(retval, s).
     case task s ! i of
       None \<Rightarrow> (retval, s)
     | Some p \<Rightarrow>
         if sel (tasks s p)
         then let (err, s) = send_sig sig (Some p) priv s in (if err \<noteq> 0 then err else retval, s)
         else (retval, s))"

text \<open>
  The loop for the process number -1. The \<open>else\<close> that follows it in the source belongs to its
  \<open>if (err = send_sig(sig,*p,0))\<close>: once a signal has been sent, the loop over the process
  group \<open>-pid\<close> runs over the slots that are left, with the same \<open>p\<close>.
\<close>

fun kill_all :: "int \<Rightarrow> int \<Rightarrow> nat list \<Rightarrow> int \<times> 'a sched_scheme \<Rightarrow> int \<times> 'a sched_scheme" where
  "kill_all pid sig [] r = r"
| "kill_all pid sig (i # xs) (retval, s) =
     (let (err, s) = send_sig sig (task s ! i) False s
      in if err \<noteq> 0 then kill_all pid sig xs (err, s)
         else fold (kill_step (\<lambda>t. t_pgrp t = wrap32 (- pid)) sig False) xs (retval, s))"

definition sys_kill :: "int \<Rightarrow> int \<Rightarrow> 'a sched_scheme \<Rightarrow> int \<times> 'a sched_scheme" where
  "sys_kill pid sig s =
     (if pid = 0 then fold (kill_step (\<lambda>t. t_pgrp t = t_pid (cur_task s)) sig True) task_slots (0, s)
      else if pid > 0 then fold (kill_step (\<lambda>t. t_pid t = pid) sig False) task_slots (0, s)
      else if pid = -1 then kill_all pid sig task_slots (0, s)
      else (0, s))"

subsection \<open>The end of a process\<close>

text \<open>\<open>release\<close> up to its \<open>schedule()\<close>; the task that is not in the table is a panic.\<close>

definition release_slot :: "nat \<Rightarrow> 'a mm_scheme \<Rightarrow> 'a mm_scheme option" where
  "release_slot p s =
     (case List.find (\<lambda>i. task s ! i = Some p) [1..<NR_TASKS] of
        None \<Rightarrow> None
      | Some i \<Rightarrow> free_page (of_nat p) (s\<lparr>task := (task s)[i := None]\<rparr>))"

definition release :: "'a mm_scheme environment \<Rightarrow> nat option \<Rightarrow> 'a mm_scheme \<Rightarrow> 'a mm_scheme option" where
  "release env p s =
     (case p of
        None \<Rightarrow> Some s
      | Some p \<Rightarrow> do { s \<leftarrow> release_slot p s; reschedule env s })"

text \<open>
  Without a father the process releases itself, and the \<open>schedule()\<close> in \<open>release\<close> does not
  come back to it; it is the same call as the one at the end of \<open>do_exit\<close>.
\<close>

definition tell_father :: "int \<Rightarrow> 'a mm_scheme \<Rightarrow> 'a mm_scheme option" where
  "tell_father pid s =
     (case (if pid \<noteq> 0 then find_pid pid s else None) of
        Some i \<Rightarrow> Some (raise_sig SIGCHLD (the (task s ! i)) s)
      | None \<Rightarrow> release_slot (current s) s)"

definition orphan_step :: "nat \<Rightarrow> 'a sched_scheme \<Rightarrow> 'a sched_scheme" where
  "orphan_step i s =
     (case task s ! i of
        None \<Rightarrow> s
      | Some p \<Rightarrow>
          if t_father (tasks s p) = t_pid (cur_task s)
          then let s = update_task p (t_father_update (\<lambda>_. 1)) s
               in if t_state (tasks s p) = TASK_ZOMBIE then snd (send_sig (int SIGCHLD) (task s ! 1) True s) else s
          else s)"

definition close_all :: "'a fs_scheme io \<Rightarrow> 'a fs_scheme \<Rightarrow> 'a fs_scheme option" where
  "close_all io s =
     fold_opt (\<lambda>fd s. case fd_file fd s of
        None \<Rightarrow> Some s
      | Some f \<Rightarrow> do { (r, s) \<leftarrow> sys_close io fd s; Some s }) [0..<NR_OPEN] s"

definition put_dirs :: "'a fs_scheme io \<Rightarrow> 'a fs_scheme \<Rightarrow> 'a fs_scheme option" where
  "put_dirs io s = do {
     s \<leftarrow> iput io (t_pwd (cur_task s)) s;
     let s = update_task (current s) (t_pwd_update (\<lambda>_. None)) s;
     s \<leftarrow> iput io (t_root (cur_task s)) s;
     let s = update_task (current s) (t_root_update (\<lambda>_. None)) s;
     s \<leftarrow> iput io (t_executable (cur_task s)) s;
     Some (update_task (current s) (t_executable_update (\<lambda>_. None)) s) }"

definition leave_session :: "'a fs_scheme \<Rightarrow> 'a fs_scheme" where
  "leave_session s =
     (let t = cur_task s;
          s = (if t_leader t \<noteq> 0 \<and> t_tty t \<ge> 0
               then s\<lparr>tty_table := (tty_table s)(nat (t_tty t) := (tty_table s (nat (t_tty t)))\<lparr>tty_pgrp := 0\<rparr>)\<rparr> else s);
          s = (if last_task_used_math s = Some (current s) then s\<lparr>last_task_used_math := None\<rparr> else s)
      in if t_leader t \<noteq> 0 then kill_session s else s)"

definition do_exit :: "'a fs_scheme io \<Rightarrow> int \<Rightarrow> 'a fs_scheme \<Rightarrow> 'a fs_scheme option" where
  "do_exit io code s = do {
     (r, s) \<leftarrow> free_page_tables (t_code_base (cur_task s)) (t_code_limit (cur_task s)) s;
     (r, s) \<leftarrow> free_page_tables (t_data_base (cur_task s)) (t_data_limit (cur_task s)) s;
     let s = fold orphan_step [0..<NR_TASKS] s;
     s \<leftarrow> close_all io s;
     s \<leftarrow> put_dirs io s;
     let s = leave_session s;
     let s = update_task (current s) (\<lambda>t. t\<lparr>t_state := TASK_ZOMBIE, t_exit_code := wrap32 code\<rparr>) s;
     s \<leftarrow> tell_father (t_father (cur_task s)) s;
     schedule s }"

definition sys_exit :: "'a fs_scheme io \<Rightarrow> int \<Rightarrow> 'a fs_scheme \<Rightarrow> 'a fs_scheme option" where
  "sys_exit io error_code s = do_exit io ((error_code AND 0xff) * 256) s"

subsection \<open>\<open>waitpid\<close>\<close>

abbreviation (input) WNOHANG :: u32 where "WNOHANG \<equiv> 1"
abbreviation (input) WUNTRACED :: u32 where "WUNTRACED \<equiv> 2"

definition waited_for :: "int \<Rightarrow> 'a sched_scheme \<Rightarrow> nat \<Rightarrow> bool" where
  "waited_for pid s p \<longleftrightarrow>
     p \<noteq> current s \<and> t_father (tasks s p) = t_pid (cur_task s)
     \<and> (if pid > 0 then t_pid (tasks s p) = pid
        else if pid = 0 then t_pgrp (tasks s p) = t_pgrp (cur_task s)
        else if pid \<noteq> -1 then t_pgrp (tasks s p) = wrap32 (- pid)
        else True)"

text \<open>
  The \<open>for\<close> loop over the table: \<open>Inl r\<close> when it returns \<open>r\<close>, \<open>Inr flag\<close> when it ends.
\<close>

fun wait_scan ::
  "'a mm_scheme environment \<Rightarrow> int \<Rightarrow> u32 \<Rightarrow> u32 \<Rightarrow> nat list \<Rightarrow> bool \<Rightarrow> 'a mm_scheme
     \<Rightarrow> ((int + bool) \<times> 'a mm_scheme) option" where
  "wait_scan env pid stat_addr options [] flag s = Some (Inr flag, s)"
| "wait_scan env pid stat_addr options (i # xs) flag s =
     (case task s ! i of
        None \<Rightarrow> wait_scan env pid stat_addr options xs flag s
      | Some p \<Rightarrow>
          if \<not> waited_for pid s p then wait_scan env pid stat_addr options xs flag s
          else if t_state (tasks s p) = TASK_STOPPED
          then if options AND WUNTRACED = 0 then wait_scan env pid stat_addr options xs flag s
               else Some (Inl (t_pid (tasks s p)), put_fs_long 0x7f stat_addr s)
          else if t_state (tasks s p) = TASK_ZOMBIE
          then do {
            let s = update_task (current s)
                      (\<lambda>t. t\<lparr>t_cutime := wrap32 (t_cutime t + t_utime (tasks s p)),
                             t_cstime := wrap32 (t_cstime t + t_stime (tasks s p))\<rparr>) s;
            let flag = t_pid (tasks s p);
            let code = t_exit_code (tasks s p);
            s \<leftarrow> release env (Some p) s;
            Some (Inl flag, put_fs_long (of_int code) stat_addr s) }
          else wait_scan env pid stat_addr options xs True s)"

partial_function (option) wait_loop ::
  "'a mm_scheme environment \<Rightarrow> int \<Rightarrow> u32 \<Rightarrow> u32 \<Rightarrow> 'a mm_scheme \<Rightarrow> (int \<times> 'a mm_scheme) option" where
  "wait_loop env pid stat_addr options s =
     do { (r, s) \<leftarrow> wait_scan env pid stat_addr options task_slots False s;
          case r of
            Inl v \<Rightarrow> Some (v, s)
          | Inr flag \<Rightarrow>
              if \<not> flag then Some (-ECHILD, s)
              else if options AND WNOHANG \<noteq> 0 then Some (0, s)
              else do {
                s \<leftarrow> reschedule env (set_state (current s) TASK_INTERRUPTIBLE s);
                let s = update_task (current s) (\<lambda>t. t\<lparr>t_signal := t_signal t AND NOT (sig_bit SIGCHLD)\<rparr>) s;
                if t_signal (cur_task s) = 0 then wait_loop env pid stat_addr options s
                else Some (-EINTR, s) } }"

definition sys_waitpid ::
  "'a mm_scheme environment \<Rightarrow> int \<Rightarrow> u32 \<Rightarrow> u32 \<Rightarrow> 'a mm_scheme \<Rightarrow> (int \<times> 'a mm_scheme) option" where
  "sys_waitpid env pid stat_addr options s =
     do { s \<leftarrow> verify_area stat_addr 4 s; wait_loop env pid stat_addr options s }"

end
