(* ===== verification/Mktime.thy ===== *)
theory Mktime
  imports Prelude
begin

text \<open>
  \<open>kernel/mktime.c\<close>: \<open>kernel_mktime()\<close> turns the broken-down time read from the CMOS
  clock at boot (\<open>time_init()\<close> of \<open>init/main.c\<close>) into seconds since 1970. The model
  keeps the C \<open>long\<close> arithmetic, wrapped to 32 bits at every assignment; the theorem
  compares it with the Gregorian calendar counted year by year and month by month.
\<close>

subsection \<open>The code\<close>

record tm =
  tm_sec :: int
  tm_min :: int
  tm_hour :: int
  tm_mday :: int
  tm_mon :: int
  tm_year :: int

abbreviation (input) MINUTE :: int where "MINUTE \<equiv> 60"
abbreviation (input) HOUR :: int where "HOUR \<equiv> 60 * MINUTE"
abbreviation (input) DAY :: int where "DAY \<equiv> 24 * HOUR"
abbreviation (input) YEAR :: int where "YEAR \<equiv> 365 * DAY"

definition month :: "int list" where
  "month =
    [0,
     DAY * 31,
     DAY * (31 + 29),
     DAY * (31 + 29 + 31),
     DAY * (31 + 29 + 31 + 30),
     DAY * (31 + 29 + 31 + 30 + 31),
     DAY * (31 + 29 + 31 + 30 + 31 + 30),
     DAY * (31 + 29 + 31 + 30 + 31 + 30 + 31),
     DAY * (31 + 29 + 31 + 30 + 31 + 30 + 31 + 31),
     DAY * (31 + 29 + 31 + 30 + 31 + 30 + 31 + 31 + 30),
     DAY * (31 + 29 + 31 + 30 + 31 + 30 + 31 + 31 + 30 + 31),
     DAY * (31 + 29 + 31 + 30 + 31 + 30 + 31 + 31 + 30 + 31 + 30)]"

text \<open>\<open>sdiv\<close> and \<open>smod\<close> truncate towards zero, as C's \<open>/\<close> and \<open>%\<close> do.\<close>

definition kernel_mktime :: "tm \<Rightarrow> int" where
  "kernel_mktime t =
    (let year = tm_year t - 70;
         res = wrap32 (YEAR * year + DAY * ((year + 1) sdiv 4));
         res = wrap32 (res + month ! nat (tm_mon t));
         res = (if tm_mon t > 1 \<and> (year + 2) smod 4 \<noteq> 0 then wrap32 (res - DAY) else res);
         res = wrap32 (res + DAY * (tm_mday t - 1));
         res = wrap32 (res + HOUR * tm_hour t);
         res = wrap32 (res + MINUTE * tm_min t);
         res = wrap32 (res + tm_sec t)
     in res)"

subsection \<open>The calendar\<close>

definition leap_year :: "int \<Rightarrow> bool" where
  "leap_year y \<longleftrightarrow> 4 dvd y \<and> (\<not> 100 dvd y \<or> 400 dvd y)"

definition month_lengths :: "int \<Rightarrow> int list" where
  "month_lengths y = [31, if leap_year y then 29 else 28, 31, 30, 31, 30, 31, 31, 30, 31, 30, 31]"

text \<open>Days from 1 January 1970 to 1 January of the year \<open>1970 + n\<close>, year by year.\<close>

fun days_to_year :: "nat \<Rightarrow> int" where
  "days_to_year 0 = 0"
| "days_to_year (Suc n) = days_to_year n + (if leap_year (1970 + int n) then 366 else 365)"

definition days_to_month :: "int \<Rightarrow> nat \<Rightarrow> int" where
  "days_to_month y m = sum_list (take m (month_lengths y))"

definition seconds_since_1970 :: "tm \<Rightarrow> int" where
  "seconds_since_1970 t =
     86400 * (days_to_year (nat (tm_year t - 70)) + days_to_month (1900 + tm_year t) (nat (tm_mon t))
              + (tm_mday t - 1))
     + 3600 * tm_hour t + 60 * tm_min t + tm_sec t"

definition valid_tm :: "tm \<Rightarrow> bool" where
  "valid_tm t \<longleftrightarrow> 70 \<le> tm_year t \<and> 0 \<le> tm_mon t \<and> tm_mon t < 12
     \<and> 1 \<le> tm_mday t \<and> tm_mday t \<le> month_lengths (1900 + tm_year t) ! nat (tm_mon t)
     \<and> 0 \<le> tm_hour t \<and> tm_hour t < 24 \<and> 0 \<le> tm_min t \<and> tm_min t < 60
     \<and> 0 \<le> tm_sec t \<and> tm_sec t < 60"

lemma sdiv_pos: "0 \<le> a \<Longrightarrow> (a::int) sdiv 4 = a div 4"
  by (simp add: signed_divide_int_def sgn_if)

lemma smod_pos: "0 \<le> a \<Longrightarrow> (a::int) smod 4 = a mod 4"
  by (cases "a = 0") (simp_all add: signed_modulo_int_def)

text \<open>Between 1970 and 2099 every fourth year is a leap year (2000 is one, 2100 is not).\<close>

lemma leap_year_4: "0 \<le> n \<Longrightarrow> n < 130 \<Longrightarrow> leap_year (1970 + n) \<longleftrightarrow> (n + 2) mod 4 = 0"
proof -
  assume n: "0 \<le> n" "n < 130"
  have "100 dvd (1970 + n) \<longleftrightarrow> n = 30"
  proof
    assume "100 dvd (1970 + n)"
    then obtain k where k: "1970 + n = 100 * k" by (elim dvdE)
    with n have "k = 20" by simp
    with k show "n = 30" by simp
  qed simp
  moreover have "4 dvd (1970 + n) \<longleftrightarrow> (n + 2) mod 4 = 0" by presburger
  ultimately show ?thesis by (auto simp: leap_year_def)
qed

lemma days_to_year_closed: "n \<le> 130 \<Longrightarrow> days_to_year n = 365 * int n + (int n + 1) div 4"
proof (induction n)
  case 0
  show ?case by simp
next
  case (Suc n)
  then have "leap_year (1970 + int n) \<longleftrightarrow> (int n + 2) mod 4 = 0"
    by (intro leap_year_4) auto
  with Suc show ?case by (simp split: if_split) presburger
qed

lemma less_12_cases:
  "m < (12::nat) \<Longrightarrow> m = 0 \<or> m = 1 \<or> m = 2 \<or> m = 3 \<or> m = 4 \<or> m = 5 \<or> m = 6 \<or> m = 7
     \<or> m = 8 \<or> m = 9 \<or> m = 10 \<or> m = 11"
  by arith

lemma month_table:
  "m < 12 \<Longrightarrow>
   month ! m - (if 1 < m \<and> \<not> leap_year y then DAY else 0) = 86400 * days_to_month y m"
  by (drule less_12_cases) (auto simp: month_def days_to_month_def month_lengths_def)

lemma kernel_mktime_mod:
  assumes "70 \<le> tm_year t" "tm_year t < 200" "0 \<le> tm_mon t" "tm_mon t < 12"
  shows "kernel_mktime t = wrap32 (seconds_since_1970 t)"
proof -
  define n where "n = tm_year t - 70"
  have n: "0 \<le> n" "n < 130" "tm_year t = n + 70" using assms by (auto simp: n_def)
  let ?m = "nat (tm_mon t)"
  have m: "?m < 12" using assms by simp
  have leap: "leap_year (1900 + tm_year t) \<longleftrightarrow> (n + 2) smod 4 = 0"
    using leap_year_4 [of n] n by (simp add: smod_pos)
  have days: "days_to_year (nat n) = 365 * n + (n + 1) sdiv 4"
    using days_to_year_closed [of "nat n"] n by (simp add: sdiv_pos)
  have table: "month ! ?m = 86400 * days_to_month (1900 + tm_year t) ?m
      + (if tm_mon t > 1 \<and> (n + 2) smod 4 \<noteq> 0 then DAY else 0)"
    using month_table [OF m, of "1900 + tm_year t"] leap by (auto split: if_splits)
  show ?thesis
    unfolding kernel_mktime_def seconds_since_1970_def Let_def n_def [symmetric] table days
    by (simp only: wrap_simps if_distrib [of wrap32, symmetric])
      (rule arg_cong [where f = wrap32], auto simp: algebra_simps)
qed

lemma month_lengths_le: "m < 12 \<Longrightarrow> month_lengths y ! m \<le> 31"
  by (drule less_12_cases) (auto simp: month_lengths_def)

lemma days_to_month_bounds:
  "m < 12 \<Longrightarrow> 0 \<le> days_to_month y m \<and> days_to_month y m \<le> 335"
  by (drule less_12_cases) (auto simp: days_to_month_def month_lengths_def)

text \<open>
  C23. For every valid date from 1970 to 2037 \<open>kernel_mktime\<close> returns exactly the seconds
  since 1970 that the Gregorian calendar gives, with no overflow of the 32-bit \<open>long\<close>.
\<close>

theorem kernel_mktime_correct:
  assumes "valid_tm t" and "tm_year t < 138"
  shows "kernel_mktime t = seconds_since_1970 t"
proof -
  define n where "n = tm_year t - 70"
  have n: "0 \<le> n" "n < 68" using assms by (auto simp: n_def valid_tm_def)
  have m: "nat (tm_mon t) < 12" using assms by (auto simp: valid_tm_def)
  have days: "days_to_year (nat n) = 365 * n + (n + 1) div 4"
    using days_to_year_closed [of "nat n"] n by simp
  have mday: "0 \<le> tm_mday t - 1" "tm_mday t - 1 \<le> 30"
    using assms month_lengths_le [OF m, of "1900 + tm_year t"] by (auto simp: valid_tm_def)
  have "seconds_since_1970 t = 86400 * (365 * n + (n + 1) div 4
      + days_to_month (1900 + tm_year t) (nat (tm_mon t)) + (tm_mday t - 1))
      + 3600 * tm_hour t + 60 * tm_min t + tm_sec t"
    by (simp add: seconds_since_1970_def days [unfolded n_def] n_def)
  moreover have "0 \<le> (n + 1) div 4" "(n + 1) div 4 \<le> 17" using n by auto
  ultimately have "0 \<le> seconds_since_1970 t" "seconds_since_1970 t < 2 ^ 31"
    using n mday days_to_month_bounds [OF m, of "1900 + tm_year t"] assms(1)
    unfolding valid_tm_def by auto
  then show ?thesis
    using kernel_mktime_mod [of t] assms by (simp add: valid_tm_def wrap32_id)
qed

theorem kernel_mktime_correct_witness:
  "kernel_mktime \<lparr>tm_sec = 3, tm_min = 2, tm_hour = 1, tm_mday = 29, tm_mon = 1, tm_year = 104\<rparr>
     = 1078016523"
proof -
  let ?t = "\<lparr>tm_sec = 3, tm_min = 2, tm_hour = 1, tm_mday = 29, tm_mon = 1, tm_year = 104\<rparr>"
  have "valid_tm ?t" by (simp add: valid_tm_def month_lengths_def leap_year_def)
  moreover have "tm_year ?t < 138" by simp
  ultimately have "kernel_mktime ?t = seconds_since_1970 ?t" by (rule kernel_mktime_correct)
  then show ?thesis
    by (simp add: seconds_since_1970_def days_to_year_closed days_to_month_def month_lengths_def)
qed

end
