(* ===== verification/Mem_Frame.thy ===== *)
theory Mem_Frame
  imports Memory
begin

text \<open>
  What the memory manager may write: the page map and physical memory, and nothing else of the
  kernel's state.
\<close>

definition mem_only :: "'a mm_scheme \<Rightarrow> 'a mm_scheme \<Rightarrow> bool" where
  "mem_only s s' \<longleftrightarrow> (\<exists>m p. s' = s\<lparr>mem_map := m, phys := p\<rparr>)"

lemma mem_only_refl [simp]: "mem_only s s"
  unfolding mem_only_def by (intro exI [of _ "mem_map s"] exI [of _ "phys s"]) simp

lemma mem_onlyI: "s' = s\<lparr>mem_map := m, phys := p\<rparr> \<Longrightarrow> mem_only s s'"
  unfolding mem_only_def by blast

lemma mem_onlyE: assumes "mem_only s s'" obtains m p where "s' = s\<lparr>mem_map := m, phys := p\<rparr>"
  using assms unfolding mem_only_def by blast

lemma mem_map_phys_commute: "s\<lparr>phys := p, mem_map := m\<rparr> = s\<lparr>mem_map := m, phys := p\<rparr>" for s :: "'a mm_scheme"
  by (cases s) simp

lemma mem_only_trans: "mem_only s s' \<Longrightarrow> mem_only s' s'' \<Longrightarrow> mem_only s s''"
  by (elim mem_onlyE, rule mem_onlyI) (simp add: mem_map_phys_commute)

lemma mem_only_write [simp, intro]:
  "mem_only s t \<Longrightarrow> mem_only s (set_map i v t)" "mem_only s t \<Longrightarrow> mem_only s (set_long p w t)"
  "mem_only s t \<Longrightarrow> mem_only s (clear_page page t)" "mem_only s t \<Longrightarrow> mem_only s (copy_page page page' t)"
  by (elim mem_onlyE, rule mem_onlyI, simp add: set_map_def set_long_def clear_page_def copy_page_def mem_map_phys_commute)+

lemma mem_only_get_free_page: "get_free_page s = (page, s') \<Longrightarrow> mem_only s s'"
  by (auto simp: get_free_page_def Let_def split: option.splits)

lemma mem_only_free_page: "free_page a s = Some s' \<Longrightarrow> mem_only s s'"
  by (auto simp: free_page_def Let_def split: if_splits)

lemma mem_only_fold: "(\<And>x s. mem_only s (f x s)) \<Longrightarrow> mem_only s (fold f xs s)"
  by (induction xs arbitrary: s) (auto intro: mem_only_trans)

lemma mem_only_fold_opt:
  "(\<And>x s s'. f x s = Some s' \<Longrightarrow> mem_only s s') \<Longrightarrow> fold_opt f xs s = Some s' \<Longrightarrow> mem_only s s'"
proof (induction xs arbitrary: s)
  case (Cons x xs)
  then obtain s1 where "f x s = Some s1" "fold_opt f xs s1 = Some s'" by (auto simp: bind_eq_Some_conv)
  with Cons show ?case by (blast intro: mem_only_trans)
qed simp

lemma mem_only_copy_entry: "mem_only s (copy_table_entry e e' s)"
  by (simp add: copy_table_entry_def Let_def)

lemma mem_only_copy_table: "mem_only s (copy_table n t t' s)"
  unfolding copy_table_def by (rule mem_only_fold) (rule mem_only_copy_entry)

lemma mem_only_copy_dirs: "copy_dirs nr n d d' s = Some (r, s') \<Longrightarrow> mem_only s s'"
proof (induction nr n d d' s rule: copy_dirs.induct)
  case (2 nr n d d' s)
  obtain t s1 where g: "get_free_page s = (t, s1)" by fastforce
  consider "1 AND mem_long d s = 0" "copy_dirs nr n (d + 4) (d' + 4) s = Some (r, s')"
    | "1 AND mem_long d s \<noteq> 0" "t = 0" "s' = s1"
    | "1 AND mem_long d s \<noteq> 0" "t \<noteq> 0"
      "copy_dirs nr n (d + 4) (d' + 4) (copy_table nr (PAGE_MASK AND mem_long d s) t (set_long d' (t OR 7) s1)) = Some (r, s')"
    using "2.prems" g by (auto simp: Let_def split: if_splits)
  then show ?case
  proof cases
    case 1
    with "2.prems" show ?thesis by (intro "2.IH"(1)) (auto split: if_splits)
  next
    case 2
    with mem_only_get_free_page [OF g] show ?thesis by simp
  next
    case 3
    have "mem_only (copy_table nr (PAGE_MASK AND mem_long d s) t (set_long d' (t OR 7) s1)) s'"
      by (rule "2.IH"(2)) (use 3 g "2.prems" in \<open>auto split: if_splits\<close>)
    with mem_only_get_free_page [OF g] show ?thesis
      by (blast intro: mem_only_trans mem_only_write(2) mem_only_copy_table)
  qed
qed simp

lemma mem_only_copy_page_tables: "copy_page_tables a b n s = Some (r, s') \<Longrightarrow> mem_only s s'"
  by (auto simp: copy_page_tables_def split: if_splits dest: mem_only_copy_dirs)

lemma mem_only_free_entry: "free_table_entry p s = Some s' \<Longrightarrow> mem_only s s'"
  by (auto simp: free_table_entry_def bind_eq_Some_conv split: if_splits dest: mem_only_free_page)

lemma mem_only_free_entries: "fold_opt (\<lambda>k. free_table_entry (t + 4 * of_nat k)) xs s = Some s' \<Longrightarrow> mem_only s s'"
  by (rule mem_only_fold_opt [OF mem_only_free_entry])

lemma mem_only_free_table: "free_table d s = Some s' \<Longrightarrow> mem_only s s'"
  unfolding free_table_def Let_def
  by (auto simp: bind_eq_Some_conv split: if_splits dest!: mem_only_free_page mem_only_free_entries intro: mem_only_trans)

lemma mem_only_free_tables: "fold_opt (\<lambda>k. free_table (d + 4 * of_nat k)) xs s = Some s' \<Longrightarrow> mem_only s s'"
  by (rule mem_only_fold_opt [OF mem_only_free_table])

lemma mem_only_free_page_tables: "free_page_tables a n s = Some (r, s') \<Longrightarrow> mem_only s s'"
  by (auto simp: free_page_tables_def Let_def bind_eq_Some_conv split: if_splits dest: mem_only_free_tables)

lemma mem_only_un_wp_page: "un_wp_page e s = Some s' \<Longrightarrow> mem_only s s'"
  by (auto simp: un_wp_page_def Let_def split: if_splits prod.splits dest!: mem_only_get_free_page)

lemma mem_only_write_verify: "write_verify a s = Some s' \<Longrightarrow> mem_only s s'"
  by (auto simp: write_verify_def split: if_splits dest: mem_only_un_wp_page)

lemma mem_only_verify_area: "verify_area a n s = Some s' \<Longrightarrow> mem_only s s'"
  unfolding verify_area_def Let_def by (rule mem_only_fold_opt [OF mem_only_write_verify])

end
