(* ===== verification/Boot.thy ===== *)
theory Boot
  imports Floppy Exit Mktime Mem_Frame
begin

text \<open>
  \<open>kernel/traps.c\<close>, \<open>sched_init\<close>, \<open>math_state_restore\<close>, \<open>tty_init\<close> and \<open>init/main.c\<close> up to the move to
  user mode: the interrupt table, the division of the memory and the order of the initialisations. The
  state \<open>machine\<close> adds the interrupt descriptor table; \<open>handler_addr\<close> gives the addresses of the handlers,
  which are in the assembler files. Messages on the console are not modelled.
\<close>

subsection \<open>Gates\<close>

datatype trap_handler = Divide_error | Debug | Nmi | Int3 | Overflow | Bounds | Invalid_op | Device_not_available
  | Double_fault | Coprocessor_segment_overrun | Invalid_TSS | Segment_not_present | Stack_segment
  | General_protection | Page_fault | Reserved | Coprocessor_error | Irq13 | Parallel_interrupt
  | Timer_interrupt | System_call | Keyboard_interrupt | Hd_interrupt | Floppy_interrupt | Rs1_interrupt | Rs2_interrupt

record machine = fdd +
  idt :: "nat \<Rightarrow> u32 \<times> u32"
  handler_addr :: "trap_handler \<Rightarrow> u32"
  drive_info :: "u8 list"

text \<open>\<open>_set_gate\<close>: the two longs of a gate of the given type and privilege level.\<close>

definition gate :: "u32 \<Rightarrow> u32 \<Rightarrow> u32 \<Rightarrow> u32 \<times> u32" where
  "gate type dpl addr =
     (0x00080000 OR (addr AND 0xffff),
      (addr AND 0xffff0000) OR (0x8000 + push_bit 13 dpl + push_bit 8 type))"

definition set_gate :: "u32 \<Rightarrow> u32 \<Rightarrow> nat \<Rightarrow> trap_handler \<Rightarrow> 'a machine_scheme \<Rightarrow> 'a machine_scheme" where
  "set_gate type dpl n h s = s\<lparr>idt := (idt s)(n := gate type dpl (handler_addr s h))\<rparr>"

definition set_intr_gate :: "nat \<Rightarrow> trap_handler \<Rightarrow> 'a machine_scheme \<Rightarrow> 'a machine_scheme" where
  "set_intr_gate = set_gate 14 0"

definition set_trap_gate :: "nat \<Rightarrow> trap_handler \<Rightarrow> 'a machine_scheme \<Rightarrow> 'a machine_scheme" where
  "set_trap_gate = set_gate 15 0"

definition set_system_gate :: "nat \<Rightarrow> trap_handler \<Rightarrow> 'a machine_scheme \<Rightarrow> 'a machine_scheme" where
  "set_system_gate = set_gate 15 3"

subsection \<open>\<open>kernel/traps.c\<close>\<close>

definition trap_init :: "'a machine_scheme \<Rightarrow> 'a machine_scheme" where
  "trap_init s =
     (let s = set_trap_gate 0 Divide_error s;
          s = set_trap_gate 1 Debug s;
          s = set_trap_gate 2 Nmi s;
          s = set_system_gate 3 Int3 s;
          s = set_system_gate 4 Overflow s;
          s = set_system_gate 5 Bounds s;
          s = set_trap_gate 6 Invalid_op s;
          s = set_trap_gate 7 Device_not_available s;
          s = set_trap_gate 8 Double_fault s;
          s = set_trap_gate 9 Coprocessor_segment_overrun s;
          s = set_trap_gate 10 Invalid_TSS s;
          s = set_trap_gate 11 Segment_not_present s;
          s = set_trap_gate 12 Stack_segment s;
          s = set_trap_gate 13 General_protection s;
          s = set_trap_gate 14 Page_fault s;
          s = set_trap_gate 15 Reserved s;
          s = set_trap_gate 16 Coprocessor_error s;
          s = fold (\<lambda>i. set_trap_gate i Reserved) [17..<48] s;
          s = set_trap_gate 45 Irq13 s;
          s = outb (inb 0x21 s AND 0xfb) 0x21 s;
          s = outb (inb 0xA1 s AND 0xdf) 0xA1 s
      in set_trap_gate 39 Parallel_interrupt s)"

text \<open>\<open>die\<close> prints the registers and ends the process with the exit code 11.\<close>

definition die :: "'a fs_scheme io \<Rightarrow> 'a fs_scheme \<Rightarrow> 'a fs_scheme option" where
  "die io s = do_exit io 11 s"

definition do_coprocessor_error :: "'a fs_scheme io \<Rightarrow> 'a fs_scheme \<Rightarrow> 'a fs_scheme option" where
  "do_coprocessor_error io s =
     (if last_task_used_math s \<noteq> Some (current s) then Some s else die io s)"

text \<open>
  The C functions \<open>do_divide_error\<close> to \<open>do_reserved\<close>, by the name of the trap: all of them end the
  process, apart from \<open>do_int3\<close>, which only prints the registers, and \<open>do_coprocessor_error\<close>.
\<close>

definition do_trap :: "trap_handler \<Rightarrow> 'a fs_scheme io \<Rightarrow> 'a fs_scheme \<Rightarrow> 'a fs_scheme option" where
  "do_trap h io s =
     (if h = Int3 then Some s else if h = Coprocessor_error then do_coprocessor_error io s else die io s)"

subsection \<open>The coprocessor\<close>

text \<open>Only who owns the coprocessor is modelled, not its registers.\<close>

definition math_state_restore :: "'a sched_scheme \<Rightarrow> 'a sched_scheme" where
  "math_state_restore s =
     (if last_task_used_math s = Some (current s) then s
      else
        let s = s\<lparr>last_task_used_math := Some (current s)\<rparr>
        in if t_used_math (cur_task s) then s else update_task (current s) (t_used_math_update (\<lambda>_. True)) s)"

abbreviation (input) SIGFPE :: nat where "SIGFPE \<equiv> 8"

definition math_error :: "'a sched_scheme \<Rightarrow> 'a sched_scheme" where
  "math_error s = (case last_task_used_math s of None \<Rightarrow> s | Some p \<Rightarrow> raise_sig SIGFPE p s)"

text \<open>The new instruction pointer, after the two bytes of the instruction, which are only printed.\<close>

definition math_emulate :: "u16 \<Rightarrow> u32 \<Rightarrow> 'a sched_scheme \<Rightarrow> (u32 \<times> 'a sched_scheme) option" where
  "math_emulate cs eip s = (if cs \<noteq> 0xF then None else Some (eip + 2, raise_sig SIGFPE (current s) s))"

subsection \<open>\<open>sched_init\<close>, \<open>tty_init\<close>\<close>

abbreviation (input) LATCH :: u32 where "LATCH \<equiv> 11931"

definition clear_slot :: "nat \<Rightarrow> 'a kern_scheme \<Rightarrow> 'a kern_scheme" where
  "clear_slot i s =
     s\<lparr>task := (task s)[i := None],
       gdt := (gdt s)(2 * i + FIRST_TSS_ENTRY := replicate 8 0, 2 * i + FIRST_LDT_ENTRY := replicate 8 0)\<rparr>"

definition sched_init :: "'a machine_scheme \<Rightarrow> 'a machine_scheme" where
  "sched_init s =
     (let s = set_descs 0 (of_nat init_task) s;
          s = fold clear_slot [1..<NR_TASKS] s;
          s = outb 0x36 0x43 s;
          s = outb (ucast (LATCH AND 0xff)) 0x40 s;
          s = outb (ucast (drop_bit 8 LATCH)) 0x40 s;
          s = set_intr_gate 0x20 Timer_interrupt s;
          s = outb (inb 0x21 s AND NOT 0x01) 0x21 s
      in set_system_gate 0x80 System_call s)"

text \<open>
  The gates of the serial ports, the keyboard, the disks: \<open>rs_init\<close>, \<open>con_init\<close>, \<open>hd_init\<close> and
  \<open>floppy_init\<close> set them on the way.
\<close>

definition tty_init :: "'a machine_scheme \<Rightarrow> 'a machine_scheme" where
  "tty_init s =
     (let s = set_intr_gate 0x24 Rs1_interrupt s;
          s = set_intr_gate 0x23 Rs2_interrupt s;
          s = rs_init s;
          s = set_trap_gate 0x21 Keyboard_interrupt s
      in con_init s)"

subsection \<open>\<open>init/main.c\<close>\<close>

definition BCD_TO_BIN :: "int \<Rightarrow> int" where
  "BCD_TO_BIN val = (val AND 15) + drop_bit 4 val * 10"

text \<open>The fields of the clock, read again until the second has not changed.\<close>

partial_function (option) read_clock :: "'a tty_scheme \<Rightarrow> (tm \<times> 'a tty_scheme) option" where
  "read_clock s =
     (let (sec, s) = CMOS_READ 0 s; (min, s) = CMOS_READ 2 s; (hour, s) = CMOS_READ 4 s; (mday, s) = CMOS_READ 7 s;
          (mon, s) = CMOS_READ 8 s; (year, s) = CMOS_READ 9 s; (again, s) = CMOS_READ 0 s
      in if sec = again
         then Some (\<lparr>tm_sec = uint sec, tm_min = uint min, tm_hour = uint hour, tm_mday = uint mday,
                     tm_mon = uint mon, tm_year = uint year\<rparr>, s)
         else read_clock s)"

definition time_init :: "'a tty_scheme \<Rightarrow> 'a tty_scheme option" where
  "time_init s = do {
     (t, s) \<leftarrow> read_clock s;
     let t = \<lparr>tm_sec = BCD_TO_BIN (tm_sec t), tm_min = BCD_TO_BIN (tm_min t), tm_hour = BCD_TO_BIN (tm_hour t),
              tm_mday = BCD_TO_BIN (tm_mday t), tm_mon = BCD_TO_BIN (tm_mon t) - 1, tm_year = BCD_TO_BIN (tm_year t)\<rparr>;
     Some (s\<lparr>startup_time := kernel_mktime t\<rparr>) }"

text \<open>The ends of the memory and of the buffers, from the kilobytes above 1 MB that \<open>setup.s\<close> counted.\<close>

definition memory_end_of :: "u16 \<Rightarrow> int" where
  "memory_end_of ext = (let m = (2 ^ 20 + uint ext * 1024) AND 0xfffff000 in if m > 16 * 1024 * 1024 then 16 * 1024 * 1024 else m)"

definition buffer_memory_end_of :: "int \<Rightarrow> int" where
  "buffer_memory_end_of m =
     (if m > 12 * 1024 * 1024 then 4 * 1024 * 1024 else if m > 6 * 1024 * 1024 then 2 * 1024 * 1024 else 1024 * 1024)"

definition mem_short :: "u32 \<Rightarrow> 'a mm_scheme \<Rightarrow> u16" where
  "mem_short a s = ucast (mem_byte a s) OR push_bit 8 (ucast (mem_byte (a + 1) s))"

text \<open>
  \<open>main\<close> up to \<open>sti\<close>. \<open>ramdisk\<close> is the size of the RAM disk in kilobytes when the kernel is compiled with one.
\<close>

definition main_init :: "int option \<Rightarrow> 'a machine_scheme \<Rightarrow> 'a machine_scheme option" where
  "main_init ramdisk s = do {
     let s = s\<lparr>ROOT_DEV := uint (mem_short 0x901FC s)\<rparr>;
     let s = s\<lparr>drive_info := read_mem 0x90080 32 s\<rparr>;
     let memory_end = memory_end_of (mem_short 0x90002 s);
     let buffer_memory_end = buffer_memory_end_of memory_end;
     let (main_memory_start, s) =
       (case ramdisk of
          None \<Rightarrow> (buffer_memory_end, s)
        | Some kb \<Rightarrow> let (n, s) = rd_init (of_int buffer_memory_end) (kb * 1024) s in (buffer_memory_end + n, s));
     let s = mem_init main_memory_start memory_end s;
     let s = trap_init s;
     let s = blk_dev_init s;
     let s = tty_init s;
     s \<leftarrow> time_init s;
     let s = sched_init s;
     s \<leftarrow> buffer_init buffer_memory_end s;
     let s = set_intr_gate 0x2E Hd_interrupt s;
     let s = hd_init s;
     let s = set_trap_gate 0x26 Floppy_interrupt s;
     Some (floppy_init s) }"

end
