(* ===== verification/Kill.thy ===== *)
theory Kill
  imports Exit
begin

text \<open>
  What \<open>kill\<close> does for each kind of process number, as the set of the tasks that get the signal.
\<close>

subsection \<open>\<open>kill\<close>\<close>

text \<open>The state in which the tasks that satisfy \<open>P\<close> have the signal pending.\<close>

definition signalled :: "nat \<Rightarrow> (nat \<Rightarrow> bool) \<Rightarrow> 'a sched_scheme \<Rightarrow> 'a sched_scheme" where
  "signalled sig P s = s\<lparr>tasks := (\<lambda>p. if P p then (tasks s p)\<lparr>t_signal := t_signal (tasks s p) OR sig_bit sig\<rparr> else tasks s p)\<rparr>"

lemma raise_sig_signalled: "raise_sig sig p s = signalled sig (\<lambda>q. q = p) s"
  by (simp add: raise_sig_def update_task_def signalled_def fun_upd_def cong: if_cong)

lemma signalled_signalled: "signalled sig Q (signalled sig P s) = signalled sig (\<lambda>p. P p \<or> Q p) s"
  by (simp add: signalled_def fun_eq_iff or.assoc)

lemma signalled_none [simp]: "signalled sig (\<lambda>_. False) s = s"
  by (simp add: signalled_def)

lemma signalled_fields [simp]:
  "task (signalled sig P s) = task s" "current (signalled sig P s) = current s"
  "t_pid (tasks (signalled sig P s) p) = t_pid (tasks s p)"
  "t_pgrp (tasks (signalled sig P s) p) = t_pgrp (tasks s p)"
  "t_euid (tasks (signalled sig P s) p) = t_euid (tasks s p)" "suser (signalled sig P s) = suser s"
  by (simp_all add: signalled_def suser_def)

text \<open>The permission that \<open>send_sig\<close> asks for.\<close>

definition may_signal :: "'a sched_scheme \<Rightarrow> nat \<Rightarrow> bool" where
  "may_signal s p \<longleftrightarrow> t_euid (cur_task s) = t_euid (tasks s p) \<or> suser s"

lemma may_signal_signalled [simp]: "may_signal (signalled sig P s) p = may_signal s p"
  by (simp add: may_signal_def)

lemma send_sig_cases:
  "1 \<le> sig \<Longrightarrow> sig \<le> 32 \<Longrightarrow> send_sig sig (Some p) priv s =
    (if priv \<or> may_signal s p then (0, signalled (nat sig) (\<lambda>q. q = p) s) else (-EPERM, s))"
  by (simp add: send_sig_def may_signal_def raise_sig_signalled)

lemma kill_step_fold:
  assumes "1 \<le> sig" and "sig \<le> 32" and sel: "\<And>t w. sel (t_signal_update w t) = sel t"
  shows "fold (kill_step sel sig priv) xs (r, s) =
    (if \<exists>i \<in> set xs. \<exists>p. task s ! i = Some p \<and> sel (tasks s p) \<and> \<not> priv \<and> \<not> may_signal s p then -EPERM else r,
     signalled (nat sig) (\<lambda>p. (\<exists>i \<in> set xs. task s ! i = Some p) \<and> sel (tasks s p) \<and> (priv \<or> may_signal s p)) s)"
proof (induction xs arbitrary: r s)
  case (Cons i xs)
  have s: "sel (tasks (signalled n P s) p) = sel (tasks s p)" for n P p
    by (simp add: signalled_def sel)
  show ?case
  proof (cases "task s ! i")
    case None
    then have "kill_step sel sig priv i (r, s) = (r, s)" by (simp add: kill_step_def)
    with None show ?thesis by (simp add: Cons.IH)
  next
    case (Some p)
    consider "\<not> sel (tasks s p)" | "sel (tasks s p)" "priv \<or> may_signal s p" | "sel (tasks s p)" "\<not> priv" "\<not> may_signal s p"
      by blast
    then show ?thesis
    proof cases
      case 1
      with Some have "kill_step sel sig priv i (r, s) = (r, s)" by (simp add: kill_step_def)
      moreover have "(\<lambda>q. (\<exists>j \<in> set (i # xs). task s ! j = Some q) \<and> sel (tasks s q) \<and> (priv \<or> may_signal s q))
          = (\<lambda>q. (\<exists>j \<in> set xs. task s ! j = Some q) \<and> sel (tasks s q) \<and> (priv \<or> may_signal s q))"
        using 1 Some by auto
      ultimately show ?thesis using 1 Some by (auto simp: Cons.IH)
    next
      case 2
      then have "kill_step sel sig priv i (r, s) = (r, signalled (nat sig) (\<lambda>q. q = p) s)"
        using Some by (simp add: kill_step_def send_sig_cases assms(1,2))
      moreover have "(\<lambda>q. q = p \<or> (\<exists>j \<in> set xs. task s ! j = Some q) \<and> sel (tasks s q) \<and> (priv \<or> may_signal s q))
          = (\<lambda>q. (\<exists>j \<in> set (i # xs). task s ! j = Some q) \<and> sel (tasks s q) \<and> (priv \<or> may_signal s q))"
        using 2 Some by auto
      ultimately show ?thesis using 2 Some by (auto simp: Cons.IH s signalled_signalled)
    next
      case 3
      then have step: "kill_step sel sig priv i (r, s) = (-EPERM, s)"
        using Some by (simp add: kill_step_def send_sig_cases assms(1,2))
      have eq: "(\<lambda>q. (\<exists>j \<in> set (i # xs). task s ! j = Some q) \<and> sel (tasks s q) \<and> (priv \<or> may_signal s q))
          = (\<lambda>q. (\<exists>j \<in> set xs. task s ! j = Some q) \<and> sel (tasks s q) \<and> (priv \<or> may_signal s q))"
        using 3 Some by auto
      show ?thesis unfolding fold_simps step Cons.IH eq using 3 Some by auto
    qed
  qed
qed simp

text \<open>The tasks that \<open>kill\<close> looks for with a positive process number; task 0 is never one of them.\<close>

definition has_pid :: "int \<Rightarrow> 'a sched_scheme \<Rightarrow> nat \<Rightarrow> bool" where
  "has_pid pid s p \<longleftrightarrow> (\<exists>i \<in> {1..<NR_TASKS}. task s ! i = Some p) \<and> t_pid (tasks s p) = pid"

lemma kill_pid_spec:
  assumes "0 < pid" and "1 \<le> sig" and "sig \<le> 32"
  shows "sys_kill pid sig s =
    (if \<exists>p. has_pid pid s p \<and> \<not> may_signal s p then -EPERM else 0,
     signalled (nat sig) (\<lambda>p. has_pid pid s p \<and> may_signal s p) s)"
proof -
  have "sys_kill pid sig s = fold (kill_step (\<lambda>t. t_pid t = pid) sig False) task_slots (0, s)"
    using assms(1) by (simp add: sys_kill_def)
  then show ?thesis
    using assms(2,3) by (simp add: kill_step_fold has_pid_def conj_assoc) blast
qed

lemma kill_own_group:
  assumes "1 \<le> sig" and "sig \<le> 32"
  shows "sys_kill 0 sig s = (0, signalled (nat sig)
    (\<lambda>p. (\<exists>i \<in> {1..<NR_TASKS}. task s ! i = Some p) \<and> t_pgrp (tasks s p) = t_pid (cur_task s)) s)"
  using assms by (simp add: sys_kill_def kill_step_fold)

text \<open>A negative process number below -1 reaches no loop at all: the process group gets no signal.\<close>

lemma kill_process_group: "pid < -1 \<Longrightarrow> sys_kill pid sig s = (0, s)"
  by (simp add: sys_kill_def)

text \<open>
  With -1 the tasks that may not be signalled are skipped; the first that may be signalled gets
  the signal, and after it only the members of process group 1.
\<close>

lemma kill_all_spec:
  assumes sig: "1 \<le> sig" "sig \<le> 32" and "xs = ys @ i # zs" and i: "task s ! i = Some p" "may_signal s p"
    and ys: "\<forall>j \<in> set ys. \<forall>q. task s ! j = Some q \<longrightarrow> \<not> may_signal s q"
  shows "snd (kill_all (-1) sig xs (r, s)) =
    signalled (nat sig) (\<lambda>q. q = p \<or> (\<exists>j \<in> set zs. task s ! j = Some q) \<and> t_pgrp (tasks s q) = 1 \<and> may_signal s q) s"
  using assms(3) ys
proof (induction ys arbitrary: xs r)
  case Nil
  then show ?case using i sig
    by (simp add: send_sig_cases wrap32_id kill_step_fold signalled_signalled)
next
  case (Cons j ys)
  have "send_sig sig (task s ! j) False s = (if task s ! j = None then -EINVAL else -EPERM, s)"
    using Cons.prems(2) sig by (cases "task s ! j") (auto simp: send_sig_cases send_sig_def [where p = None])
  with Cons show ?case by simp
qed

text \<open>
  C14. \<open>kill\<close> with a positive process number raises the signal in exactly the tasks of slots 1 to 63
  that have the number and that the caller may signal (same effective user, or super user), changes
  nothing else, and returns \<open>-EPERM\<close> when one of them may not be signalled and 0 otherwise, also when
  there is no such task.
\<close>

theorem sys_kill_correct:
  assumes "0 < pid" and "1 \<le> sig" and "sig \<le> 32"
  shows "\<exists>s'. sys_kill pid sig s = (if \<exists>p. has_pid pid s p \<and> \<not> may_signal s p then -EPERM else 0, s')
    \<and> (\<forall>p. tasks s' p = (if has_pid pid s p \<and> may_signal s p
         then (tasks s p)\<lparr>t_signal := t_signal (tasks s p) OR sig_bit (nat sig)\<rparr> else tasks s p))
    \<and> s' = s\<lparr>tasks := tasks s'\<rparr>"
  using kill_pid_spec [OF assms, of s] by (simp add: signalled_def)

theorem sys_kill_correct_witness:
  "\<exists>s'. sys_kill 5 15 (two_tasks\<lparr>tasks := (\<lambda>_. INIT_TASK\<lparr>t_pid := 5, t_euid := 3\<rparr>)(init_task := INIT_TASK)\<rparr>) = (0, s')
     \<and> t_signal (tasks s' 7) AND sig_bit 15 \<noteq> 0"
proof -
  let ?s = "two_tasks\<lparr>tasks := (\<lambda>_. INIT_TASK\<lparr>t_pid := 5, t_euid := 3\<rparr>)(init_task := INIT_TASK)\<rparr>"
  have m: "may_signal ?s p" for p by (simp add: may_signal_def suser_def two_tasks_def boot_sched_def INIT_TASK_def)
  have h: "has_pid 5 ?s 7"
    by (auto simp: has_pid_def two_tasks_def boot_sched_def init_task_def INIT_TASK_def intro!: bexI [of _ 1])
  show ?thesis using sys_kill_correct [of 5 15 ?s] m h by (auto simp: bit.conj_disj_distrib2 sig_bit_def)
qed

end
