(* ===== verification/Cache.thy ===== *)
theory Cache
  imports Buffer
begin

text \<open>
  The correctness of the buffer cache of \<open>fs/buffer.c\<close>. \<open>cache_ok\<close> is its representation invariant: the
  free list is a ring of all buffers, every buffer with a device is on the chain of its hash value, and
  no block has two buffers. The lemmas give each queue operation over the lists the links represent,
  then \<open>find_buffer\<close>, \<open>getblk\<close>, \<open>bread\<close> and \<open>brelse\<close> over the contents of the buffers.
\<close>

subsection \<open>What the queues of the cache must look like\<close>

definition next_free :: "'a blk_scheme \<Rightarrow> nat \<Rightarrow> nat option" where "next_free s b = b_next_free (buffers s b)"
definition prev_free :: "'a blk_scheme \<Rightarrow> nat \<Rightarrow> nat option" where "prev_free s b = b_prev_free (buffers s b)"
definition next_hash :: "'a blk_scheme \<Rightarrow> nat \<Rightarrow> nat option" where "next_hash s b = b_next (buffers s b)"
definition prev_hash :: "'a blk_scheme \<Rightarrow> nat \<Rightarrow> nat option" where "prev_hash s b = b_prev (buffers s b)"

lemmas link_defs = next_free_def prev_free_def next_hash_def prev_hash_def

text \<open>A buffer without its four links: what the queue operations keep.\<close>

definition core :: "buffer_head \<Rightarrow> buffer_head" where
  "core b = b\<lparr>b_prev := None, b_next := None, b_prev_free := None, b_next_free := None\<rparr>"

lemma core_fields:
  "core b = core c \<longleftrightarrow> b_data b = b_data c \<and> b_blocknr b = b_blocknr c \<and> b_dev b = b_dev c \<and> b_uptodate b = b_uptodate c
     \<and> b_dirt b = b_dirt c \<and> b_count b = b_count c \<and> b_lock b = b_lock c \<and> b_wait b = b_wait c"
  by (cases b; cases c) (auto simp: core_def)

lemma core_links [simp]:
  "core (b\<lparr>b_prev := p\<rparr>) = core b" "core (b\<lparr>b_next := p\<rparr>) = core b"
  "core (b\<lparr>b_prev_free := p\<rparr>) = core b" "core (b\<lparr>b_next_free := p\<rparr>) = core b"
  by (simp_all add: core_def)

text \<open>\<open>fl\<close> are the buffers in the order of the free list, \<open>ch h\<close> those on the chain of hash value \<open>h\<close>.\<close>

definition free_rep :: "'a cache_scheme \<Rightarrow> nat list \<Rightarrow> bool" where
  "free_rep s fl \<longleftrightarrow> ring (next_free s) (prev_free s) fl \<and> hd fl = free_list s"

definition chains_rep :: "'a cache_scheme \<Rightarrow> (nat \<Rightarrow> nat list) \<Rightarrow> bool" where
  "chains_rep s ch \<longleftrightarrow> (\<forall>h. dlist (next_hash s) (prev_hash s) (hash_table s h) (ch h))"

definition hashed :: "'a cache_scheme \<Rightarrow> nat \<Rightarrow> nat \<Rightarrow> bool" where
  "hashed s h c \<longleftrightarrow> c < nr_buffers s \<and> b_dev (buffers s c) \<noteq> 0 \<and> hash_of (buffers s c) = h"

definition cache_rep :: "'a cache_scheme \<Rightarrow> nat list \<Rightarrow> (nat \<Rightarrow> nat list) \<Rightarrow> bool" where
  "cache_rep s fl ch \<longleftrightarrow> free_rep s fl \<and> set fl = {..<nr_buffers s} \<and> 2 \<le> length fl
     \<and> chains_rep s ch \<and> (\<forall>h c. c \<in> set (ch h) \<longleftrightarrow> hashed s h c)
     \<and> (\<forall>c < nr_buffers s. b_dev (buffers s c) = 0 \<longrightarrow> next_hash s c = None \<and> prev_hash s c = None)
     \<and> (\<forall>b < nr_buffers s. \<forall>c < nr_buffers s. b_dev (buffers s b) \<noteq> 0 \<and> b_dev (buffers s b) = b_dev (buffers s c)
          \<and> b_blocknr (buffers s b) = b_blocknr (buffers s c) \<longrightarrow> b = c)"

definition cache_ok :: "'a cache_scheme \<Rightarrow> bool" where
  "cache_ok s \<longleftrightarrow> (\<exists>fl ch. cache_rep s fl ch)"

text \<open>What an operation on the queues may change at all.\<close>

definition queues_only :: "'a cache_scheme \<Rightarrow> 'a cache_scheme \<Rightarrow> bool" where
  "queues_only s s' \<longleftrightarrow> (\<exists>P B H f. s' = s\<lparr>phys := P, buffers := B, hash_table := H, free_list := f\<rparr>)"

lemma queues_only_refl: "queues_only s s"
  unfolding queues_only_def by (intro exI [of _ "phys s"] exI [of _ "buffers s"] exI [of _ "hash_table s"] exI [of _ "free_list s"]) simp

lemma queues_only_trans: "queues_only s s' \<Longrightarrow> queues_only s' s'' \<Longrightarrow> queues_only s s''"
  unfolding queues_only_def by force

lemma queues_only_update_bh: "queues_only s (update_bh b f s)"
  unfolding queues_only_def update_bh_def
  by (intro exI [of _ "phys s"] exI [of _ "(buffers s)(b := f (buffers s b))"] exI [of _ "hash_table s"] exI [of _ "free_list s"]) simp

lemma queues_only_set_hash: "queues_only s (set_hash h v s)"
  unfolding queues_only_def set_hash_def
  by (intro exI [of _ "phys s"] exI [of _ "buffers s"] exI [of _ "(hash_table s)(h := v)"] exI [of _ "free_list s"]) simp

lemma queues_only_free_list: "queues_only s (s\<lparr>free_list := f\<rparr>)"
  unfolding queues_only_def
  by (intro exI [of _ "phys s"] exI [of _ "buffers s"] exI [of _ "hash_table s"] exI [of _ f]) simp

lemma queues_only_set_long: "queues_only s (set_long p v s)"
  unfolding queues_only_def set_long_def
  by (intro exI [of _ "(phys s)(unat p div 4 := v)"] exI [of _ "buffers s"] exI [of _ "hash_table s"] exI [of _ "free_list s"]) simp

lemmas queues_only_intros = queues_only_refl queues_only_update_bh queues_only_set_hash queues_only_free_list
  queues_only_set_long

lemma update_bh_cache [frame_simps, simp]:
  "hash_table (update_bh b g s) = hash_table s" "free_list (update_bh b g s) = free_list s"
  "nr_buffers (update_bh b g s) = nr_buffers s" "buffer_wait (update_bh b g s) = buffer_wait s"
  by (simp_all add: update_bh_def)

lemma set_hash_fields [frame_simps, simp]:
  "hash_table (set_hash h v s) = (hash_table s)(h := v)" "buffers (set_hash h v s) = buffers s"
  "free_list (set_hash h v s) = free_list s" "nr_buffers (set_hash h v s) = nr_buffers s"
  by (simp_all add: set_hash_def)

lemma set_long_cache [frame_simps, simp]:
  "buffers (set_long p v s) = buffers s" "hash_table (set_long p v s) = hash_table s"
  "free_list (set_long p v s) = free_list s" "nr_buffers (set_long p v s) = nr_buffers s"
  by (simp_all add: set_long_def)

subsection \<open>The free list\<close>

lemma remove_from_free_spec:
  assumes rep: "free_rep s (xs @ bh # ys)" and ne: "xs @ ys \<noteq> []"
  shows "\<exists>s'. remove_from_free bh s = Some s' \<and> free_rep s' (xs @ ys) \<and> queues_only s s'
    \<and> hash_table s' = hash_table s \<and> next_hash s' = next_hash s \<and> prev_hash s' = prev_hash s
    \<and> (\<forall>c. core (buffers s' c) = core (buffers s c))"
proof -
  let ?r = "ys @ xs"
  have ring: "ring (next_free s) (prev_free s) (bh # ?r)"
    using rep ring_rotate [of "next_free s" "prev_free s" xs "bh # ys"] by (simp add: free_rep_def)
  have ne': "?r \<noteq> []" and d: "distinct (bh # ?r)" using ne ring by (auto simp: ring_def)
  define p n where "p = last ?r" and "n = hd ?r"
  have pr: "b_prev_free (buffers s bh) = Some p"
    using ring_ends [OF ring] unfolding last_ConsR [OF ne'] by (simp add: p_def prev_free_def)
  have nx: "b_next_free (buffers s bh) = Some n"
    using ring ne' by (cases ?r) (auto simp: n_def ring_Cons next_free_def)
  have bh: "bh \<noteq> p" "bh \<noteq> n" using d ne' unfolding p_def n_def by (metis distinct.simps(2) last_in_set, metis distinct.simps(2) hd_in_set)
  define s1 where "s1 = update_bh n (b_prev_free_update (\<lambda>_. Some p)) (update_bh p (b_next_free_update (\<lambda>_. Some n)) s)"
  define s' where "s' = (if free_list s = bh then s1\<lparr>free_list := n\<rparr> else s1)"
  have "remove_from_free bh s = Some s'"
    using bh unfolding remove_from_free_def pr nx s'_def s1_def Let_def by (simp add: pr nx)
  moreover have links: "next_free s' = (next_free s)(p := Some n)" "prev_free s' = (prev_free s)(n := Some p)"
    by (auto simp: s'_def s1_def link_defs fun_eq_iff)
  have "ring (next_free s') (prev_free s') ?r"
    unfolding links p_def n_def using ring ne' by (rule ring_remove)
  then have "ring (next_free s') (prev_free s') (xs @ ys)" by (rule ring_rotate)
  moreover have "free_list s' = hd (xs @ ys)"
    using rep d by (cases xs) (auto simp: free_rep_def s'_def s1_def n_def)
  moreover have "queues_only s s1" unfolding s1_def by (rule queues_only_trans) (rule queues_only_intros)+
  then have "queues_only s s'"
    unfolding s'_def by (auto intro: queues_only_trans queues_only_free_list)
  ultimately show ?thesis by (intro exI [of _ s']) (auto simp: free_rep_def s'_def s1_def link_defs fun_eq_iff)
qed

lemma insert_into_free_spec:
  assumes rep: "free_rep s fl" and n: "bh \<notin> set fl"
  shows "\<exists>s'. insert_into_free bh s = Some s' \<and> free_rep s' (fl @ [bh]) \<and> queues_only s s'
    \<and> hash_table s' = hash_table s \<and> next_hash s' = next_hash s \<and> prev_hash s' = prev_hash s
    \<and> (\<forall>c. core (buffers s' c) = core (buffers s c))"
proof -
  have ring: "ring (next_free s) (prev_free s) fl" and ne: "fl \<noteq> []" using rep by (auto simp: free_rep_def ring_def)
  define f p where "f = hd fl" and "p = last fl"
  have f: "free_list s = f" using rep by (simp add: free_rep_def f_def)
  have pr: "b_prev_free (buffers s f) = Some p"
    using ring ring_ends [of "next_free s" "prev_free s" "hd fl" "tl fl"] ne by (simp add: f_def p_def prev_free_def)
  have bh: "bh \<noteq> f" "bh \<noteq> p" using n ne by (auto simp: f_def p_def)
  define s' where "s' = update_bh f (b_prev_free_update (\<lambda>_. Some bh)) (update_bh p (b_next_free_update (\<lambda>_. Some bh))
    (update_bh bh (\<lambda>b. b\<lparr>b_next_free := Some f, b_prev_free := Some p\<rparr>) s))"
  have "insert_into_free bh s = Some s'"
    unfolding insert_into_free_def f Let_def s'_def using bh by (simp add: pr)
  moreover have links: "next_free s' = (next_free s)(bh := Some f, p := Some bh)"
      "prev_free s' = (prev_free s)(bh := Some p, f := Some bh)"
    using bh by (auto simp: s'_def link_defs fun_eq_iff)
  have "ring (next_free s') (prev_free s') (fl @ [bh])"
    unfolding links f_def p_def using ring n by (rule ring_insert)
  moreover have "queues_only s s'"
    unfolding s'_def by (rule queues_only_trans, rule queues_only_trans) (rule queues_only_intros)+
  ultimately show ?thesis using ne f
    by (intro exI [of _ s']) (auto simp: free_rep_def s'_def f_def link_defs fun_eq_iff)
qed

subsection \<open>The hash chains\<close>

text \<open>The free list is a matter of the other two links.\<close>

lemma free_rep_cong:
  "next_free s' = next_free s \<Longrightarrow> prev_free s' = prev_free s \<Longrightarrow> free_list s' = free_list s \<Longrightarrow> free_rep s' fl = free_rep s fl"
  by (simp add: free_rep_def)

definition same_free :: "'a cache_scheme \<Rightarrow> 'a cache_scheme \<Rightarrow> bool" where
  "same_free s s' \<longleftrightarrow> next_free s' = next_free s \<and> prev_free s' = prev_free s \<and> free_list s' = free_list s"

lemma remove_from_hash_spec:
  assumes ch: "chains_rep s ch" and at: "ch h = xs @ bh # ys" and h: "h = hash_of (buffers s bh)"
    and disj: "\<And>g. g \<noteq> h \<Longrightarrow> set (ch g) \<inter> set (ch h) = {}"
  shows "chains_rep (remove_from_hash bh s) (ch(h := xs @ ys)) \<and> queues_only s (remove_from_hash bh s)
    \<and> same_free s (remove_from_hash bh s) \<and> (\<forall>c. core (buffers (remove_from_hash bh s) c) = core (buffers s c))
    \<and> (\<forall>c. c \<notin> set (ch h) \<longrightarrow> buffers (remove_from_hash bh s) c = buffers s c)"
proof -
  let ?nx = "next_hash s" and ?pv = "prev_hash s"
  have dl: "dlist ?nx ?pv (hash_table s h) (xs @ bh # ys)" using ch at by (metis chains_rep_def)
  have d: "distinct (xs @ bh # ys)" using dl by (simp add: dlist_def)
  have nbr: "n \<in> set (ch h) \<and> n \<noteq> bh" if "?nx bh = Some n" for n
  proof -
    have "links ?nx ?pv (bh # ys)" using dl links_append [of ?nx ?pv xs bh ys] by (simp add: dlist_def)
    then show ?thesis using that dl d at by (cases ys) (auto simp: dlist_def)
  qed
  have pbr: "p \<in> set (ch h) \<and> p \<noteq> bh" if "?pv bh = Some p" for p
  proof -
    have "links ?nx ?pv (xs @ [bh])" using dl links_append [of ?nx ?pv xs bh ys] by (simp add: dlist_def)
    then show ?thesis using that dl d at by (cases xs rule: rev_cases) (auto simp: dlist_def links_snoc)
  qed
  define s1 where "s1 = (case b_next (buffers s bh) of None \<Rightarrow> s | Some n \<Rightarrow> update_bh n (b_prev_update (\<lambda>_. b_prev (buffers s bh))) s)"
  have nb: "b_next (buffers s bh) = Some n \<Longrightarrow> n \<noteq> bh" for n using nbr by (auto simp: next_hash_def)
  have pb: "b_prev (buffers s bh) = Some p \<Longrightarrow> p \<noteq> bh" for p using pbr by (auto simp: prev_hash_def)
  have s1: "buffers s1 bh = buffers s bh" "hash_table s1 = hash_table s" "free_list s1 = free_list s"
    using nb by (auto simp: s1_def split: option.split)
  define s2 where "s2 = (case b_prev (buffers s bh) of None \<Rightarrow> s1 | Some p \<Rightarrow> update_bh p (b_next_update (\<lambda>_. b_next (buffers s bh))) s1)"
  have s2: "buffers s2 bh = buffers s bh" "hash_table s2 = hash_table s" "free_list s2 = free_list s"
    using pb s1 by (auto simp: s2_def split: option.split)
  define s' where "s' = (if hash_table s h = Some bh then set_hash h (b_next (buffers s bh)) s2 else s2)"
  have eq: "remove_from_hash bh s = s'"
    unfolding remove_from_hash_def Let_def s1_def [symmetric] s1(1) s2_def [symmetric] s2(1,2) h [symmetric] s'_def ..
  have links: "next_hash s' = unlink_next ?nx ?pv bh" "prev_hash s' = unlink_prev ?nx ?pv bh"
    by (auto simp: s'_def s2_def s1_def link_defs unlink_next_def unlink_prev_def fun_eq_iff split: option.split)
  have tab: "hash_table s' = (hash_table s)(h := if hash_table s h = Some bh then ?nx bh else hash_table s h)"
    by (auto simp: s'_def s2(2) link_defs)
  have "chains_rep s' (ch(h := xs @ ys))"
    unfolding chains_rep_def
  proof
    fix g
    show "dlist (next_hash s') (prev_hash s') (hash_table s' g) ((ch(h := xs @ ys)) g)"
    proof (cases "g = h")
      case True
      with dlist_unlink [OF dl] show ?thesis unfolding links tab by simp
    next
      case False
      have "a \<notin> set (ch h)" if "a \<in> set (ch g)" for a using that disj [OF False] by auto
      then have "dlist (next_hash s') (prev_hash s') (hash_table s g) (ch g) = dlist ?nx ?pv (hash_table s g) (ch g)"
        unfolding links using nbr pbr
        by (intro dlist_cong) (auto simp: unlink_next_def unlink_prev_def split: option.split)
      then show ?thesis using False ch by (simp add: tab chains_rep_def)
    qed
  qed
  moreover have "queues_only s s1" "queues_only s1 s2" "queues_only s2 s'"
    by (auto simp: s1_def s2_def s'_def intro: queues_only_intros split: option.split)
  then have "queues_only s s'" by (blast intro: queues_only_trans)
  moreover have "\<forall>c. c \<notin> set (ch h) \<longrightarrow> buffers s' c = buffers s c"
    using nbr pbr by (auto simp: s'_def s2_def s1_def link_defs split: option.split)
  ultimately show ?thesis unfolding eq
    by (auto simp: same_free_def s'_def s2_def s1_def link_defs fun_eq_iff split: option.split)
qed

lemma insert_into_hash_spec:
  assumes ch: "chains_rep s ch" and n: "\<And>g. bh \<notin> set (ch g)" and dev: "b_dev (buffers s bh) \<noteq> 0"
    and h: "h = hash_of (buffers s bh)" and disj: "\<And>g. g \<noteq> h \<Longrightarrow> set (ch g) \<inter> set (ch h) = {}"
  shows "chains_rep (insert_into_hash bh s) (ch(h := bh # ch h)) \<and> queues_only s (insert_into_hash bh s)
    \<and> same_free s (insert_into_hash bh s) \<and> (\<forall>c. core (buffers (insert_into_hash bh s) c) = core (buffers s c))
    \<and> (\<forall>c. c \<noteq> bh \<and> c \<notin> set (ch h) \<longrightarrow> buffers (insert_into_hash bh s) c = buffers s c)"
proof -
  let ?nx = "next_hash s" and ?pv = "prev_hash s"
  define s1 where "s1 = update_bh bh (\<lambda>b. b\<lparr>b_prev := None, b_next := None\<rparr>) s"
  define s2 where "s2 = set_hash h (Some bh) (update_bh bh (b_next_update (\<lambda>_. hash_table s h)) s1)"
  define s' where "s' = (case hash_table s h of None \<Rightarrow> set_long 20 (bh_addr bh s2) s2
     | Some n \<Rightarrow> update_bh n (b_prev_update (\<lambda>_. Some bh)) s2)"
  have "b_dev (buffers s1 bh) = b_dev (buffers s bh)" "hash_of (buffers s1 bh) = h" "hash_table s1 = hash_table s"
    "b_next (buffers s2 bh) = hash_table s h"
    by (simp_all add: s1_def s2_def hash_of_def h)
  then have eq: "insert_into_hash bh s = s'"
    using dev unfolding insert_into_hash_def Let_def s1_def [symmetric] s'_def by (simp add: s2_def split: option.split)
  have dl: "dlist ?nx ?pv (hash_table s h) (ch h)" using ch by (simp add: chains_rep_def)
  have head: "hash_table s h = Some m \<Longrightarrow> m \<in> set (ch h)" for m
    using dl by (auto simp: dlist_def split: if_splits)
  have links: "next_hash s' = ?nx(bh := hash_table s h)"
    "prev_hash s' = (case hash_table s h of None \<Rightarrow> ?pv | Some m \<Rightarrow> ?pv(m := Some bh))(bh := None)"
    using head n [of h] by (auto simp: s'_def s2_def s1_def link_defs fun_eq_iff split: option.split)
  have tab: "hash_table s' = (hash_table s)(h := Some bh)"
    by (auto simp: s'_def s2_def s1_def split: option.split)
  have "chains_rep s' (ch(h := bh # ch h))"
    unfolding chains_rep_def
  proof
    fix g
    show "dlist (next_hash s') (prev_hash s') (hash_table s' g) ((ch(h := bh # ch h)) g)"
    proof (cases "g = h")
      case True
      then show ?thesis unfolding links tab using dlist_push [OF dl n] by simp
    next
      case False
      have "a \<noteq> bh \<and> a \<notin> set (ch h)" if "a \<in> set (ch g)" for a using that disj [OF False] n by auto
      then have "dlist (next_hash s') (prev_hash s') (hash_table s g) (ch g) = dlist ?nx ?pv (hash_table s g) (ch g)"
        unfolding links using head by (intro dlist_cong) (auto split: option.split)
      then show ?thesis using False ch by (simp add: tab chains_rep_def)
    qed
  qed
  moreover have "queues_only s s1" "queues_only s1 s2" "queues_only s2 s'"
    by (auto simp: s1_def s2_def s'_def intro: queues_only_intros queues_only_trans split: option.split)
  then have "queues_only s s'" by (blast intro: queues_only_trans)
  moreover have "\<forall>c. c \<noteq> bh \<and> c \<notin> set (ch h) \<longrightarrow> buffers s' c = buffers s c"
    using head by (auto simp: s'_def s2_def s1_def split: option.split)
  ultimately show ?thesis unfolding eq
    by (auto simp: same_free_def s'_def s2_def s1_def link_defs core_def fun_eq_iff split: option.split)
qed

subsection \<open>Taking a buffer for a block\<close>

lemma hash_of_core: "core b = core c \<Longrightarrow> hash_of b = hash_of c \<and> b_dev b = b_dev c \<and> b_blocknr b = b_blocknr c"
  by (simp add: core_fields hash_of_def)

lemma cache_rep_disjoint: "cache_rep s fl ch \<Longrightarrow> g \<noteq> h \<Longrightarrow> set (ch g) \<inter> set (ch h) = {}"
  by (auto simp: cache_rep_def hashed_def)

lemma queues_only_nr [simp]: "queues_only s s' \<Longrightarrow> nr_buffers s' = nr_buffers s"
  by (auto simp: queues_only_def)

lemma remove_from_hash_any:
  assumes rep: "cache_rep s fl ch" and bh: "bh < nr_buffers s"
  shows "\<exists>ch'. chains_rep (remove_from_hash bh s) ch' \<and> (\<forall>g. set (ch' g) = set (ch g) - {bh})
    \<and> queues_only s (remove_from_hash bh s) \<and> same_free s (remove_from_hash bh s)
    \<and> (\<forall>c. core (buffers (remove_from_hash bh s) c) = core (buffers s c))
    \<and> (\<forall>c. (\<forall>g. c \<notin> set (ch g)) \<longrightarrow> buffers (remove_from_hash bh s) c = buffers s c)"
proof (cases "b_dev (buffers s bh) = 0")
  case True
  then have "b_next (buffers s bh) = None" "b_prev (buffers s bh) = None" "\<forall>g. bh \<notin> set (ch g)"
    using rep bh by (auto simp: cache_rep_def hashed_def link_defs)
  moreover have "hash_table s h \<noteq> Some bh" for h
    using rep \<open>\<forall>g. bh \<notin> set (ch g)\<close> by (auto simp: cache_rep_def chains_rep_def dlist_def) (metis hd_in_set option.inject option.distinct(1))
  ultimately have "remove_from_hash bh s = s" by (simp add: remove_from_hash_def)
  then show ?thesis using rep \<open>\<forall>g. bh \<notin> set (ch g)\<close>
    by (intro exI [of _ ch]) (auto simp: cache_rep_def queues_only_refl same_free_def)
next
  case False
  define h where "h = hash_of (buffers s bh)"
  have "bh \<in> set (ch h)" using rep bh False by (auto simp: cache_rep_def hashed_def h_def)
  then obtain xs ys where at: "ch h = xs @ bh # ys" by (auto simp: in_set_conv_decomp)
  have chs: "chains_rep s ch" using rep by (simp add: cache_rep_def)
  have "distinct (ch h)" using chs by (simp add: chains_rep_def dlist_def)
  moreover have "bh \<notin> set (ch g)" if "g \<noteq> h" for g using cache_rep_disjoint [OF rep that] \<open>bh \<in> set (ch h)\<close> by auto
  ultimately have "set ((ch(h := xs @ ys)) g) = set (ch g) - {bh}" for g using at by auto
  moreover note remove_from_hash_spec [OF chs at h_def cache_rep_disjoint [OF rep]]
  ultimately show ?thesis by (intro exI [of _ "ch(h := xs @ ys)"]) blast
qed

text \<open>The invariant is about links, keys and tables only.\<close>

lemma cache_rep_cong:
  assumes l: "next_free s' = next_free s" "prev_free s' = prev_free s" "next_hash s' = next_hash s" "prev_hash s' = prev_hash s"
    and k: "\<And>c. b_dev (buffers s' c) = b_dev (buffers s c)" "\<And>c. b_blocknr (buffers s' c) = b_blocknr (buffers s c)"
    and t: "hash_table s' = hash_table s" "free_list s' = free_list s" "nr_buffers s' = nr_buffers s"
  shows "cache_rep s' fl ch = cache_rep s fl ch"
proof -
  have "hash_of (buffers s' c) = hash_of (buffers s c)" for c by (simp add: hash_of_def k)
  then have "hashed s' h c = hashed s h c" for h c by (simp add: hashed_def k t)
  then show ?thesis unfolding cache_rep_def free_rep_def chains_rep_def l k t by simp
qed

lemma cache_ok_cong:
  assumes "next_free s' = next_free s" "prev_free s' = prev_free s" "next_hash s' = next_hash s" "prev_hash s' = prev_hash s"
    "\<And>c. b_dev (buffers s' c) = b_dev (buffers s c)" "\<And>c. b_blocknr (buffers s' c) = b_blocknr (buffers s c)"
    "hash_table s' = hash_table s" "free_list s' = free_list s" "nr_buffers s' = nr_buffers s"
  shows "cache_ok s' = cache_ok s"
  unfolding cache_ok_def cache_rep_cong [OF assms] ..

lemma remove_from_queues_spec:
  assumes rep: "cache_rep s (xs @ bh # ys) ch" and ne: "xs @ ys \<noteq> []"
  shows "\<exists>s' ch'. remove_from_queues bh s = Some s' \<and> free_rep s' (xs @ ys) \<and> chains_rep s' ch'
    \<and> (\<forall>g. set (ch' g) = set (ch g) - {bh}) \<and> queues_only s s' \<and> (\<forall>c. core (buffers s' c) = core (buffers s c))
    \<and> (\<forall>c. (\<forall>g. c \<notin> set (ch g)) \<longrightarrow> next_hash s' c = next_hash s c \<and> prev_hash s' c = prev_hash s c)"
proof -
  have fl: "set (xs @ bh # ys) = {..<nr_buffers s}" "free_rep s (xs @ bh # ys)" using rep by (auto simp: cache_rep_def)
  have "bh \<in> set (xs @ bh # ys)" by simp
  then have bh: "bh < nr_buffers s" unfolding fl(1) by simp
  define s1 where "s1 = remove_from_hash bh s"
  from remove_from_hash_any [OF rep bh] obtain ch1 where c1: "chains_rep s1 ch1" "\<And>g. set (ch1 g) = set (ch g) - {bh}"
    "queues_only s s1" "same_free s s1" "\<And>c. core (buffers s1 c) = core (buffers s c)"
    "\<And>c. \<forall>g. c \<notin> set (ch g) \<Longrightarrow> buffers s1 c = buffers s c" unfolding s1_def by blast
  have "free_rep s1 (xs @ bh # ys)" using c1(4) fl(2) unfolding free_rep_def same_free_def by simp
  from remove_from_free_spec [OF this ne] obtain s2 where r2: "remove_from_free bh s1 = Some s2" "free_rep s2 (xs @ ys)"
    "queues_only s1 s2" "hash_table s2 = hash_table s1" "next_hash s2 = next_hash s1" "prev_hash s2 = prev_hash s1"
    "\<And>c. core (buffers s2 c) = core (buffers s1 c)" by blast
  have "remove_from_queues bh s = Some s2" by (simp add: remove_from_queues_def s1_def [symmetric] r2(1))
  moreover have "chains_rep s2 ch1" using c1(1) by (simp add: chains_rep_def r2)
  moreover have "queues_only s s2" using c1(3) r2(3) by (rule queues_only_trans)
  moreover have "next_hash s2 c = next_hash s c \<and> prev_hash s2 c = prev_hash s c" if "\<forall>g. c \<notin> set (ch g)" for c
    using c1(6) [OF that] unfolding r2 by (simp add: link_defs)
  ultimately show ?thesis using r2(2,7) c1(2,5) by (intro exI [of _ s2] exI [of _ ch1]) simp
qed

lemma insert_into_queues_spec:
  assumes fr: "free_rep s fl" "bh \<notin> set fl" and ch: "chains_rep s ch" "\<And>g. bh \<notin> set (ch g)" and dev: "b_dev (buffers s bh) \<noteq> 0"
    and h: "h = hash_of (buffers s bh)" and disj: "\<And>g. g \<noteq> h \<Longrightarrow> set (ch g) \<inter> set (ch h) = {}"
  shows "\<exists>s'. insert_into_queues bh s = Some s' \<and> free_rep s' (fl @ [bh]) \<and> chains_rep s' (ch(h := bh # ch h))
    \<and> queues_only s s' \<and> (\<forall>c. core (buffers s' c) = core (buffers s c))
    \<and> (\<forall>c. c \<noteq> bh \<and> c \<notin> set (ch h) \<longrightarrow> next_hash s' c = next_hash s c \<and> prev_hash s' c = prev_hash s c)"
proof -
  from insert_into_free_spec [OF fr] obtain s1 where r1: "insert_into_free bh s = Some s1" "free_rep s1 (fl @ [bh])"
    "queues_only s s1" "hash_table s1 = hash_table s" "next_hash s1 = next_hash s" "prev_hash s1 = prev_hash s"
    "\<And>c. core (buffers s1 c) = core (buffers s c)" by blast
  have ch1: "chains_rep s1 ch" using ch(1) by (simp add: chains_rep_def r1)
  have k: "b_dev (buffers s1 bh) \<noteq> 0" "h = hash_of (buffers s1 bh)"
    using dev h hash_of_core [OF r1(7) [of bh]] by simp_all
  define s' where "s' = insert_into_hash bh s1"
  have s': "chains_rep s' (ch(h := bh # ch h))" "queues_only s1 s'" "same_free s1 s'"
    "\<And>c. core (buffers s' c) = core (buffers s1 c)"
    "\<And>c. c \<noteq> bh \<Longrightarrow> c \<notin> set (ch h) \<Longrightarrow> buffers s' c = buffers s1 c"
    using insert_into_hash_spec [OF ch1 ch(2) k disj] unfolding s'_def by auto
  have "insert_into_queues bh s = Some s'" by (simp add: insert_into_queues_def r1(1) s'_def)
  moreover have "free_rep s' (fl @ [bh])" using r1(2) s'(3) by (simp add: free_rep_def same_free_def)
  moreover have "next_hash s' c = next_hash s c \<and> prev_hash s' c = prev_hash s c" if "c \<noteq> bh" "c \<notin> set (ch h)" for c
    using s'(5) [OF that] r1(5,6) by (simp add: link_defs fun_eq_iff)
  ultimately show ?thesis using s'(1,4) r1(7) queues_only_trans [OF r1(3) s'(2)] by (intro exI [of _ s']) simp
qed

text \<open>No block has two buffers, and a block that had none gets one.\<close>

definition unique_keys :: "'a blk_scheme \<Rightarrow> nat \<Rightarrow> bool" where
  "unique_keys s n \<longleftrightarrow> (\<forall>b < n. \<forall>c < n. b_dev (buffers s b) \<noteq> 0 \<and> b_dev (buffers s b) = b_dev (buffers s c)
     \<and> b_blocknr (buffers s b) = b_blocknr (buffers s c) \<longrightarrow> b = c)"

lemma unique_keys_claim:
  assumes uq: "unique_keys s n" and dev: "0 < dev" "dev < 2 ^ 16"
    and new: "\<And>c. c < n \<Longrightarrow> \<not> is_block dev block (buffers s c)"
    and devs: "\<And>c. b_dev (buffers s' c) = (if c = bh then of_int dev else b_dev (buffers s c))"
      "\<And>c. b_blocknr (buffers s' c) = (if c = bh then of_int block else b_blocknr (buffers s c))"
  shows "unique_keys s' n"
proof -
  have u: "uint (of_int dev :: u16) = dev" using dev by (simp add: uint_word_of_int)
  have nk: "\<not> (b_dev (buffers s a) = of_int dev \<and> b_blocknr (buffers s a) = of_int block)" if "a < n" for a
    using new [OF that] u unfolding is_block_def by metis
  have "b = c" if "b < n" "c < n" "b_dev (buffers s' b) \<noteq> 0"
      "b_dev (buffers s' b) = b_dev (buffers s' c)" "b_blocknr (buffers s' b) = b_blocknr (buffers s' c)" for b c
  proof -
    have "c \<noteq> bh \<Longrightarrow> b \<noteq> bh" using that nk [of c] unfolding devs by metis
    moreover have "b \<noteq> bh \<Longrightarrow> c \<noteq> bh" using that nk [of b] unfolding devs by metis
    moreover have "b \<noteq> bh \<Longrightarrow> c \<noteq> bh \<Longrightarrow> b = c" using that uq unfolding unique_keys_def devs by metis
    ultimately show ?thesis by blast
  qed
  then show ?thesis unfolding unique_keys_def by blast
qed

lemma claim_buffer_spec:
  assumes rep: "cache_rep s (xs @ bh # ys) ch"
    and dev: "0 < dev" "dev < 2 ^ 16" and new: "\<And>c. c < nr_buffers s \<Longrightarrow> \<not> is_block dev block (buffers s c)"
  shows "\<exists>s'. claim_buffer bh dev block s = Some s' \<and> (\<exists>ch'. cache_rep s' (xs @ ys @ [bh]) ch') \<and> queues_only s s'
    \<and> (\<forall>c. c \<noteq> bh \<longrightarrow> core (buffers s' c) = core (buffers s c))
    \<and> core (buffers s' bh) = core ((buffers s bh)\<lparr>b_count := 1, b_dirt := False, b_uptodate := False,
                                     b_dev := of_int dev, b_blocknr := of_int block\<rparr>)"
proof -
  have fl: "set (xs @ bh # ys) = {..<nr_buffers s}" "2 \<le> length (xs @ bh # ys)" "free_rep s (xs @ bh # ys)"
    and old: "\<And>c g. c \<in> set (ch g) \<longleftrightarrow> hashed s g c" and uq: "unique_keys s (nr_buffers s)"
    using rep unfolding cache_rep_def unique_keys_def by blast+
  have "bh \<in> set (xs @ bh # ys)" by simp
  then have bh: "bh < nr_buffers s" unfolding fl(1) by simp
  have ne: "xs @ ys \<noteq> []" using fl(2) by auto
  have nin: "bh \<notin> set (xs @ ys)" using fl(3) by (auto simp: free_rep_def ring_def)
  define s0 where "s0 = update_bh bh (\<lambda>b. b\<lparr>b_count := 1, b_dirt := False, b_uptodate := False\<rparr>) s"
  have l0: "next_free s0 = next_free s" "prev_free s0 = prev_free s" "next_hash s0 = next_hash s" "prev_hash s0 = prev_hash s"
    by (auto simp: s0_def link_defs fun_eq_iff)
  have "cache_rep s0 (xs @ bh # ys) ch = cache_rep s (xs @ bh # ys) ch"
    by (intro cache_rep_cong l0) (auto simp: s0_def)
  then have "cache_rep s0 (xs @ bh # ys) ch" using rep by simp
  from remove_from_queues_spec [OF this ne] obtain s2 ch2 where r2: "remove_from_queues bh s0 = Some s2" "free_rep s2 (xs @ ys)"
    "chains_rep s2 ch2" "\<And>g. set (ch2 g) = set (ch g) - {bh}" "queues_only s0 s2" "\<And>c. core (buffers s2 c) = core (buffers s0 c)"
    "\<And>c. \<forall>g. c \<notin> set (ch g) \<Longrightarrow> next_hash s2 c = next_hash s c \<and> prev_hash s2 c = prev_hash s c" unfolding l0 by blast
  define s3 where "s3 = update_bh bh (\<lambda>b. b\<lparr>b_dev := of_int dev, b_blocknr := of_int block\<rparr>) s2"
  have l3: "next_free s3 = next_free s2" "prev_free s3 = prev_free s2" "next_hash s3 = next_hash s2" "prev_hash s3 = prev_hash s2"
    "hash_table s3 = hash_table s2" "free_list s3 = free_list s2" by (auto simp: s3_def link_defs fun_eq_iff)
  have f3: "free_rep s3 (xs @ ys)" "chains_rep s3 ch2" using r2(2,3) by (simp_all add: free_rep_def chains_rep_def l3)
  define h where "h = hash_of (buffers s3 bh)"
  have dev0: "(of_int dev :: u16) \<noteq> 0" using dev by (simp add: word_of_int_eq_0_iff zdvd_not_zless)
  have disj: "g \<noteq> h \<Longrightarrow> set (ch2 g) \<inter> set (ch2 h) = {}" for g using r2(4) cache_rep_disjoint [OF rep] by blast
  have nbh: "bh \<notin> set (ch2 g)" and dev3: "b_dev (buffers s3 bh) \<noteq> 0" for g using r2(4) dev0 by (simp_all add: s3_def)
  from insert_into_queues_spec [OF f3(1) nin f3(2) nbh dev3 h_def disj] obtain s' where
    s': "insert_into_queues bh s3 = Some s'" "free_rep s' ((xs @ ys) @ [bh])" "chains_rep s' (ch2(h := bh # ch2 h))"
    "queues_only s3 s'" "\<And>c. core (buffers s' c) = core (buffers s3 c)"
    "\<And>c. c \<noteq> bh \<Longrightarrow> c \<notin> set (ch2 h) \<Longrightarrow> next_hash s' c = next_hash s2 c \<and> prev_hash s' c = prev_hash s2 c"
    unfolding l3 by blast
  have eq: "claim_buffer bh dev block s = Some s'"
    by (simp add: claim_buffer_def Let_def s0_def [symmetric] r2(1) s3_def [symmetric] s'(1))
  have qo: "queues_only s s'"
    using queues_only_update_bh [of s bh] r2(5) queues_only_update_bh [of s2 bh] s'(4)
    unfolding s0_def s3_def by (meson queues_only_trans)
  have core': "c \<noteq> bh \<Longrightarrow> core (buffers s' c) = core (buffers s c)" for c
    using s'(5) [of c] r2(6) [of c] by (simp add: s3_def s0_def)
  have corebh: "core (buffers s' bh) = core ((buffers s bh)\<lparr>b_count := 1, b_dirt := False, b_uptodate := False,
                                     b_dev := of_int dev, b_blocknr := of_int block\<rparr>)"
    using s'(5) [of bh] r2(6) [of bh] by (simp add: s3_def s0_def core_fields)
  have nr: "nr_buffers s' = nr_buffers s" using qo by simp
  have devs: "b_dev (buffers s' c) = (if c = bh then of_int dev else b_dev (buffers s c))"
    "b_blocknr (buffers s' c) = (if c = bh then of_int block else b_blocknr (buffers s c))" for c
    using core' corebh by (auto simp: core_fields)
  have hs: "hash_of (buffers s' c) = (if c = bh then h else hash_of (buffers s c))" for c
    using hash_of_core [OF core' [of c]] hash_of_core [OF s'(5) [of bh]] by (cases "c = bh") (simp_all add: h_def)
  have in_chain: "c \<in> set ((ch2(h := bh # ch2 h)) g) \<longleftrightarrow> hashed s' g c" for c g
  proof (cases "c = bh")
    case False
    then have "c \<in> set ((ch2(h := bh # ch2 h)) g) \<longleftrightarrow> c \<in> set (ch g)" using r2(4) [of g] by auto
    then show ?thesis using False old by (simp add: hashed_def nr devs hs)
  qed (use nbh bh dev0 in \<open>auto simp: hashed_def nr devs hs\<close>)
  have "next_hash s' c = None \<and> prev_hash s' c = None" if c: "c < nr_buffers s'" "b_dev (buffers s' c) = 0" for c
  proof -
    have n: "c \<noteq> bh" "b_dev (buffers s c) = 0" using c devs [of c] dev0 by (auto split: if_splits)
    then have out: "\<forall>g. c \<notin> set (ch g)" unfolding old hashed_def by simp
    have "next_hash s c = None \<and> prev_hash s c = None" using rep n(2) c(1) unfolding nr cache_rep_def by simp
    then show ?thesis using s'(6) [OF n(1)] r2(7) [OF out] out r2(4) [of h] by simp
  qed
  moreover have "unique_keys s' (nr_buffers s')"
    unfolding nr by (rule unique_keys_claim [OF uq dev new devs])
  moreover have "set (xs @ ys @ [bh]) = {..<nr_buffers s'}" "2 \<le> length (xs @ ys @ [bh])" using fl(1,2) unfolding nr by auto
  ultimately have "cache_rep s' (xs @ ys @ [bh]) (ch2(h := bh # ch2 h))"
    using s'(2,3) in_chain unfolding cache_rep_def unique_keys_def by simp
  then show ?thesis using eq qo core' corebh by blast
qed

subsection \<open>Finding a block\<close>

lemma dlist_chain: "dlist nx pv p as \<Longrightarrow> chain nx p as"
proof -
  have c: "links nx pv (a # as) \<Longrightarrow> nx (last (a # as)) = None \<Longrightarrow> chain nx (Some a) (a # as)" for a as
    by (induction as arbitrary: a) (auto split: if_splits)
  show "chain nx p as" if "dlist nx pv p as"
  proof (cases as)
    case (Cons a bs)
    with that c [of a bs] show ?thesis by (simp add: dlist_def)
  qed (use that in \<open>simp add: dlist_def\<close>)
qed

lemma find_in_chain_find:
  "chain (next_hash s) p as \<Longrightarrow> find_in_chain dev block p s = Some (List.find (\<lambda>c. is_block dev block (buffers s c)) as)"
proof (induction as arbitrary: p)
  case Nil
  then show ?case by (subst find_in_chain.simps) simp
next
  case (Cons a as)
  then show ?case by (subst find_in_chain.simps) (auto simp: next_hash_def)
qed

lemma is_block_hash: "is_block dev block b \<Longrightarrow> hash_of b = hashfn (of_int dev) (of_int block)"
  by (auto simp: is_block_def hash_of_def)

text \<open>The buffer that holds a block is the one the hash table finds; without one it finds none.\<close>

lemma find_buffer_hit:
  assumes ok: "cache_ok s" and bh: "bh < nr_buffers s" "is_block dev block (buffers s bh)" and dev: "dev \<noteq> 0"
  shows "find_buffer dev block s = Some (Some bh)"
proof -
  obtain fl ch where rep: "cache_rep s fl ch" using ok by (auto simp: cache_ok_def)
  define h where "h = hashfn (of_int dev) (of_int block)"
  have key: "b_dev (buffers s c) = b_dev (buffers s bh) \<and> b_blocknr (buffers s c) = b_blocknr (buffers s bh)"
    if "is_block dev block (buffers s c)" for c
    using that bh(2) by (metis is_block_def word_uint_eqI)
  have d0: "b_dev (buffers s bh) \<noteq> 0" using bh(2) dev by (auto simp: is_block_def)
  have "bh \<in> set (ch h)" using rep bh d0 is_block_hash [OF bh(2)] by (simp add: cache_rep_def hashed_def h_def)
  moreover have "c = bh" if "c \<in> set (ch h)" "is_block dev block (buffers s c)" for c
  proof -
    have "c < nr_buffers s" using rep that(1) by (simp add: cache_rep_def hashed_def)
    then show ?thesis using rep key [OF that(2)] bh(1) d0 unfolding cache_rep_def by metis
  qed
  ultimately have "List.find (\<lambda>c. is_block dev block (buffers s c)) (ch h) = Some bh"
    using bh(2) by (induction "ch h" arbitrary: rule: list.induct) (metis find_Some_iff find_None_iff option.exhaust nth_mem)+
  moreover have "chain (next_hash s) (hash_table s h) (ch h)"
    using rep dlist_chain by (metis cache_rep_def chains_rep_def)
  ultimately show ?thesis using find_in_chain_find [of s "hash_table s h" "ch h"] by (simp add: find_buffer_def h_def)
qed

lemma find_buffer_miss:
  assumes ok: "cache_ok s" and none: "\<And>c. c < nr_buffers s \<Longrightarrow> \<not> is_block dev block (buffers s c)"
  shows "find_buffer dev block s = Some None"
proof -
  obtain fl ch where rep: "cache_rep s fl ch" using ok by (auto simp: cache_ok_def)
  define h where "h = hashfn (of_int dev) (of_int block)"
  have "List.find (\<lambda>c. is_block dev block (buffers s c)) (ch h) = None"
    using rep none by (auto simp: find_None_iff cache_rep_def hashed_def)
  moreover have "chain (next_hash s) (hash_table s h) (ch h)"
    using rep dlist_chain by (metis cache_rep_def chains_rep_def)
  ultimately show ?thesis using find_in_chain_find [of s "hash_table s h" "ch h"] by (simp add: find_buffer_def h_def)
qed

abbreviation hold :: "nat \<Rightarrow> 'a blk_scheme \<Rightarrow> 'a blk_scheme" where
  "hold bh \<equiv> update_bh bh (\<lambda>b. b\<lparr>b_count := b_count b + 1\<rparr>)"

lemma wait_on_buffer_unlocked [simp]: "\<not> b_lock (buffers s bh) \<Longrightarrow> wait_on_buffer io bh s = Some s"
  by (subst wait_on_buffer.simps) simp

lemma getblk_hit:
  assumes "cache_ok s" and "bh < nr_buffers s" "is_block dev block (buffers s bh)" and "dev \<noteq> 0" and "\<not> b_lock (buffers s bh)"
  shows "get_hash_table io dev block s = Some (Some bh, hold bh s)" and "getblk io dev block s = Some (bh, hold bh s)"
proof -
  have "is_block dev block ((buffers s bh)\<lparr>b_count := b_count (buffers s bh) + 1\<rparr>)" using assms(3) by (simp add: is_block_def)
  then show eq: "get_hash_table io dev block s = Some (Some bh, hold bh s)"
    using assms(5) by (subst get_hash_table.simps) (simp add: find_buffer_hit [OF assms(1-4)])
  show "getblk io dev block s = Some (bh, hold bh s)" by (subst getblk.simps) (simp add: eq)
qed

subsection \<open>Choosing a buffer\<close>

definition idle :: "buffer_head \<Rightarrow> bool" where
  "idle b \<longleftrightarrow> b_count b = 0 \<and> \<not> b_dirt b \<and> \<not> b_lock b"

lemma BADNESS_0: "BADNESS b = 0 \<longleftrightarrow> \<not> b_dirt b \<and> \<not> b_lock b"
  by (simp add: BADNESS_def)

lemma choose_idle:
  "idle (buffers s a) \<Longrightarrow> bh = None \<or> BADNESS (buffers s (the bh)) \<noteq> 0 \<Longrightarrow> choose_buffer a bh s = Some (Some a)"
proof -
  assume i: "idle (buffers s a)" and "bh = None \<or> BADNESS (buffers s (the bh)) \<noteq> 0"
  moreover have z: "BADNESS (buffers s a) = 0" using i by (simp add: idle_def BADNESS_0)
  ultimately have "bh = None \<or> BADNESS (buffers s a) < BADNESS (buffers s (the bh))" by auto
  with i z show ?thesis by (subst choose_buffer.simps) (auto simp: idle_def Let_def)
qed

lemma choose_buffer_find:
  "links (next_free s) (prev_free s) (a # as @ [free_list s]) \<Longrightarrow> free_list s \<notin> set as \<Longrightarrow>
   \<exists>b \<in> set (a # as). idle (buffers s b) \<Longrightarrow> bh = None \<or> BADNESS (buffers s (the bh)) \<noteq> 0 \<Longrightarrow>
   choose_buffer a bh s = Some (List.find (\<lambda>b. idle (buffers s b)) (a # as))"
proof (induction as arbitrary: a bh)
  case Nil
  then have "idle (buffers s a)" by simp
  then show ?case using Nil(4) by (simp add: choose_idle)
next
  case (Cons c cs)
  show ?case
  proof (cases "idle (buffers s a)")
    case True
    then show ?thesis using Cons.prems(4) by (simp add: choose_idle)
  next
    case False
    define better where "better \<longleftrightarrow> b_count (buffers s a) = 0 \<and> (bh = None \<or> BADNESS (buffers s a) < BADNESS (buffers s (the bh)))"
    define bh' where "bh' = (if better then Some a else bh)"
    have nb: "\<not> (better \<and> BADNESS (buffers s a) = 0)" using False by (auto simp: better_def idle_def BADNESS_0)
    have nx: "b_next_free (buffers s a) = Some c" and ne: "c \<noteq> free_list s" using Cons.prems by (auto simp: next_free_def)
    have "choose_buffer a bh s = choose_buffer c bh' s"
      by (subst choose_buffer.simps)
        (simp only: better_def [symmetric] bh'_def [symmetric] nx Let_def if_not_P [OF nb] option.case ne if_False)
    also have "bh' = None \<or> BADNESS (buffers s (the bh')) \<noteq> 0"
      using nb Cons.prems(4) by (auto simp: bh'_def)
    then have "choose_buffer c bh' s = Some (List.find (\<lambda>b. idle (buffers s b)) (c # cs))"
      using Cons.prems False by (intro Cons.IH) auto
    finally show ?thesis using False by simp
  qed
qed

lemma getblk_miss:
  assumes rep: "cache_rep s fl ch" and dev: "0 < dev" "dev < 2 ^ 16"
    and none: "\<And>c. c < nr_buffers s \<Longrightarrow> \<not> is_block dev block (buffers s c)"
    and free: "\<exists>c < nr_buffers s. idle (buffers s c)"
  shows "\<exists>bh. List.find (\<lambda>b. idle (buffers s b)) fl = Some bh \<and> bh < nr_buffers s \<and> idle (buffers s bh)
    \<and> (\<exists>s'. claim_buffer bh dev block s = Some s' \<and> getblk io dev block s = Some (bh, s') \<and> cache_ok s' \<and> queues_only s s'
         \<and> (\<forall>c. c \<noteq> bh \<longrightarrow> core (buffers s' c) = core (buffers s c))
         \<and> core (buffers s' bh) = core ((buffers s bh)\<lparr>b_count := 1, b_dirt := False, b_uptodate := False,
                                     b_dev := of_int dev, b_blocknr := of_int block\<rparr>))"
proof -
  have ok: "cache_ok s" using rep by (auto simp: cache_ok_def)
  have fl: "set fl = {..<nr_buffers s}" "ring (next_free s) (prev_free s) fl" "hd fl = free_list s"
    using rep by (auto simp: cache_rep_def free_rep_def)
  then obtain as where as: "fl = free_list s # as" by (cases fl) (auto simp: ring_def)
  have ex: "\<exists>b \<in> set fl. idle (buffers s b)" using free fl(1) by auto
  have "choose_buffer (free_list s) None s = Some (List.find (\<lambda>b. idle (buffers s b)) fl)"
    using fl(2) ex unfolding as by (intro choose_buffer_find) (auto simp: ring_def)
  moreover from ex obtain bh where f: "List.find (\<lambda>b. idle (buffers s b)) fl = Some bh"
    by (metis find_None_iff option.exhaust)
  ultimately have ch: "choose_buffer (free_list s) None s = Some (Some bh)" by simp
  from f have bh: "bh \<in> set fl" "idle (buffers s bh)" by (auto simp: find_Some_iff)
  then obtain xs ys where "fl = xs @ bh # ys" by (auto simp: in_set_conv_decomp)
  from claim_buffer_spec [OF rep [unfolded this] dev none] obtain s' where s': "claim_buffer bh dev block s = Some s'"
    "cache_ok s'" "queues_only s s'" "\<forall>c. c \<noteq> bh \<longrightarrow> core (buffers s' c) = core (buffers s c)"
    "core (buffers s' bh) = core ((buffers s bh)\<lparr>b_count := 1, b_dirt := False, b_uptodate := False,
                                     b_dev := of_int dev, b_blocknr := of_int block\<rparr>)" unfolding cache_ok_def by blast
  note miss = find_buffer_miss [OF ok none]
  have "get_hash_table io dev block s = Some (None, s)" by (subst get_hash_table.simps) (simp add: miss)
  moreover have "write_back io bh s = Some (True, s)" using bh(2) by (subst write_back.simps) (simp add: idle_def)
  ultimately have "getblk io dev block s = Some (bh, s')"
    using bh(2) by (subst getblk.simps) (simp add: ch miss idle_def s'(1))
  then show ?thesis using f bh fl(1) s' by blast
qed

lemma cache_ok_hold: "cache_ok (hold bh s) = cache_ok s"
  by (rule cache_ok_cong) (auto simp: link_defs fun_eq_iff)

lemma getblk_spec:
  assumes "cache_ok s" and "0 < dev" "dev < 2 ^ 16"
    and "\<And>c. c < nr_buffers s \<Longrightarrow> is_block dev block (buffers s c) \<Longrightarrow> \<not> b_lock (buffers s c)"
    and "\<exists>c < nr_buffers s. is_block dev block (buffers s c) \<or> idle (buffers s c)"
  shows "\<exists>bh s'. getblk io dev block s = Some (bh, s') \<and> cache_ok s' \<and> bh < nr_buffers s \<and> queues_only s s'
    \<and> (\<forall>c < nr_buffers s'. is_block dev block (buffers s' c) \<longleftrightarrow> c = bh)
    \<and> (\<forall>c. c \<noteq> bh \<longrightarrow> core (buffers s' c) = core (buffers s c))
    \<and> (if is_block dev block (buffers s bh)
       then core (buffers s' bh) = core ((buffers s bh)\<lparr>b_count := b_count (buffers s bh) + 1\<rparr>)
       else idle (buffers s bh) \<and> core (buffers s' bh) = core ((buffers s bh)\<lparr>b_count := 1, b_dirt := False, b_uptodate := False,
                                                                      b_dev := of_int dev, b_blocknr := of_int block\<rparr>))"
proof (cases "\<exists>c < nr_buffers s. is_block dev block (buffers s c)")
  case True
  then obtain bh where bh: "bh < nr_buffers s" "is_block dev block (buffers s bh)" by blast
  have dev: "dev \<noteq> 0" using assms(2) by simp
  have only: "c = bh" if "c < nr_buffers s" "is_block dev block (buffers s c)" for c
    using find_buffer_hit [OF assms(1) that dev] find_buffer_hit [OF assms(1) bh dev] by simp
  have "is_block dev block (buffers (hold bh s) c) = is_block dev block (buffers s c)" for c by (simp add: is_block_def)
  then have "c < nr_buffers s \<Longrightarrow> is_block dev block (buffers (hold bh s) c) \<longleftrightarrow> c = bh" for c using only bh(2) by blast
  then have b: "\<forall>c < nr_buffers (hold bh s). is_block dev block (buffers (hold bh s) c) \<longleftrightarrow> c = bh" by simp
  have "getblk io dev block s = Some (bh, hold bh s)" by (rule getblk_hit(2) [OF assms(1) bh dev assms(4) [OF bh]])
  moreover have "cache_ok (hold bh s)" unfolding cache_ok_hold by (rule assms(1))
  moreover have "queues_only s (hold bh s)" by (rule queues_only_update_bh)
  moreover have "\<forall>c. c \<noteq> bh \<longrightarrow> core (buffers (hold bh s) c) = core (buffers s c)"
      "core (buffers (hold bh s) bh) = core ((buffers s bh)\<lparr>b_count := b_count (buffers s bh) + 1\<rparr>)" by simp_all
  ultimately show ?thesis using b bh by (intro exI [of _ bh] exI [of _ "hold bh s"]) (simp only: if_True simp_thms)
next
  case False
  obtain fl ch where rep: "cache_rep s fl ch" using assms(1) by (auto simp: cache_ok_def)
  have none: "c < nr_buffers s \<Longrightarrow> \<not> is_block dev block (buffers s c)" for c using False by blast
  obtain bh s' where r: "bh < nr_buffers s" "idle (buffers s bh)" "getblk io dev block s = Some (bh, s')" "cache_ok s'"
    "queues_only s s'" "\<forall>c. c \<noteq> bh \<longrightarrow> core (buffers s' c) = core (buffers s c)"
    "core (buffers s' bh) = core ((buffers s bh)\<lparr>b_count := 1, b_dirt := False, b_uptodate := False,
                                     b_dev := of_int dev, b_blocknr := of_int block\<rparr>)"
    using getblk_miss [OF rep assms(2,3) none, of io] assms(5) False by blast
  have u: "uint (of_int dev :: u16) = dev" using assms(2,3) by (simp add: uint_word_of_int)
  have "is_block dev block (buffers s' c) \<longleftrightarrow> c = bh" if "c < nr_buffers s'" for c
  proof (cases "c = bh")
    case True
    then show ?thesis using r(7) u by (simp add: is_block_def core_fields)
  next
    case False
    have "core (buffers s' c) = core (buffers s c)" using r(6) False by blast
    then have "is_block dev block (buffers s' c) = is_block dev block (buffers s c)" by (simp add: is_block_def core_fields)
    then show ?thesis using False none that r(5) by simp
  qed
  then show ?thesis using r none by (intro exI [of _ bh] exI [of _ s']) (simp add: none)
qed

text \<open>
  C1. \<open>getblk\<close>: for a block of a device, when the buffer that holds it is not locked, or nothing holds
  it and some buffer is unused, clean and unlocked, \<open>getblk\<close> returns at once the only buffer for that block.
  It keeps the cache well formed (every buffer is on the free list once and, with a device, on
  the chain of its hash value; no block has two buffers). A buffer that held the block only gains
  a user; otherwise an idle buffer is taken over, empty. Every other buffer keeps its block and contents, and nothing
  but the buffers, the queues and one word of memory changes.
\<close>

theorem getblk_correct:
  assumes "cache_ok s" and "0 < dev" "dev < 2 ^ 16"
    and "\<And>c. c < nr_buffers s \<Longrightarrow> is_block dev block (buffers s c) \<Longrightarrow> \<not> b_lock (buffers s c)"
    and "\<exists>c < nr_buffers s. is_block dev block (buffers s c) \<or> idle (buffers s c)"
  shows "\<exists>bh s'. getblk io dev block s = Some (bh, s') \<and> cache_ok s' \<and> bh < nr_buffers s \<and> queues_only s s'
    \<and> (\<forall>c < nr_buffers s'. is_block dev block (buffers s' c) \<longleftrightarrow> c = bh)
    \<and> (\<forall>c. c \<noteq> bh \<longrightarrow> core (buffers s' c) = core (buffers s c))
    \<and> (if is_block dev block (buffers s bh)
       then core (buffers s' bh) = core ((buffers s bh)\<lparr>b_count := b_count (buffers s bh) + 1\<rparr>)
       else idle (buffers s bh) \<and> core (buffers s' bh) = core ((buffers s bh)\<lparr>b_count := 1, b_dirt := False, b_uptodate := False,
                                                                      b_dev := of_int dev, b_blocknr := of_int block\<rparr>))"
  using assms by (rule getblk_spec)

subsection \<open>A small cache\<close>

text \<open>Buffer 0 holds block 3 of the RAM disk and has a user, buffer 1 has never been used.\<close>

definition boot_cache :: cache where
  "boot_cache = blk.extend
     (boot_blk\<lparr>buffers := (\<lambda>i. if i = 0 then (new_bh 0x101 3 True True 7)\<lparr>b_prev_free := Some 1, b_next_free := Some 1\<rparr>
                               else (new_bh 0 0 False False 0)\<lparr>b_count := 0, b_prev_free := Some 0, b_next_free := Some 0\<rparr>)\<rparr>)
     \<lparr>hash_table = (\<lambda>h. if h = 258 then Some 0 else None), free_list = 0, buffer_wait = None, nr_buffers = 2\<rparr>"

lemma boot_cache_fields:
  "buffers boot_cache = (\<lambda>i. if i = 0 then (new_bh 0x101 3 True True 7)\<lparr>b_prev_free := Some 1, b_next_free := Some 1\<rparr>
                               else (new_bh 0 0 False False 0)\<lparr>b_count := 0, b_prev_free := Some 0, b_next_free := Some 0\<rparr>)"
  "hash_table boot_cache = (\<lambda>h. if h = 258 then Some 0 else None)" "free_list boot_cache = 0" "nr_buffers boot_cache = 2"
  by (simp_all add: boot_cache_def blk.defs)

lemma boot_cache_ok: "cache_ok boot_cache"
proof -
  have h: "hashfn 257 3 = 258" by (simp add: hashfn_def)
  have n: "c < nr_buffers boot_cache \<longleftrightarrow> c = 0 \<or> c = 1" for c by (auto simp: boot_cache_fields)
  have "free_rep boot_cache [0, 1]"
    by (simp add: free_rep_def ring_def boot_cache_fields next_free_def prev_free_def)
  moreover have "chains_rep boot_cache (\<lambda>h. if h = 258 then [0] else [])"
    by (simp add: chains_rep_def dlist_def boot_cache_fields next_hash_def prev_hash_def new_bh_def)
  moreover have "b_dev (buffers boot_cache 1) = 0" "b_dev (buffers boot_cache 0) = 257" "hash_of (buffers boot_cache 0) = 258"
    using h by (simp_all add: boot_cache_fields new_bh_def hash_of_def)
  moreover from this have "c \<in> set (if g = 258 then [0] else []) \<longleftrightarrow> hashed boot_cache g c" for g c
    unfolding hashed_def n by (cases "c = 0"; cases "c = 1"; cases "g = 258") simp_all
  moreover have "set [0, 1] = {..<nr_buffers boot_cache}"
    by (simp add: boot_cache_fields lessThan_Suc numeral_2_eq_2 insert_commute)
  moreover have "c < nr_buffers boot_cache \<Longrightarrow> b_dev (buffers boot_cache c) = 0 \<Longrightarrow>
      next_hash boot_cache c = None \<and> prev_hash boot_cache c = None" for c
    unfolding n by (auto simp: boot_cache_fields new_bh_def next_hash_def prev_hash_def)
  ultimately have "cache_rep boot_cache [0, 1] (\<lambda>h. if h = 258 then [0] else [])"
    unfolding cache_rep_def n by simp
  then show ?thesis by (auto simp: cache_ok_def)
qed

definition cache_io :: "cache io" where
  "cache_io = \<lparr>wait_env = (\<lambda>_ _. None), start_request = (\<lambda>major s. if major = 1 then do_rd_request s else None),
     floppy_change = (\<lambda>_ s. Some (False, s)), write_inodes = Some\<rparr>"

text \<open>Block 5 of the RAM disk is not in the cache: \<open>getblk\<close> takes buffer 1 for it.\<close>

theorem getblk_correct_witness:
  "\<exists>s'. getblk cache_io 0x101 5 boot_cache = Some (1, s') \<and> cache_ok s' \<and> is_block 0x101 5 (buffers s' 1)
     \<and> b_data (buffers s' 0) = replicate 1024 7"
proof -
  have n: "c < nr_buffers boot_cache \<longleftrightarrow> c = 0 \<or> c = 1" for c by (auto simp: boot_cache_fields)
  have i: "\<not> is_block 0x101 5 (buffers boot_cache c)" for c
    by (auto simp: is_block_def boot_cache_fields new_bh_def)
  have 1: "idle (buffers boot_cache 1)" "\<not> idle (buffers boot_cache 0)"
    by (simp_all add: idle_def boot_cache_fields new_bh_def)
  have "\<exists>c < nr_buffers boot_cache. is_block 0x101 5 (buffers boot_cache c) \<or> idle (buffers boot_cache c)"
    using 1 unfolding n by blast
  from getblk_correct [OF boot_cache_ok _ _ _ this, of cache_io] i obtain bh s' where
    r: "getblk cache_io 0x101 5 boot_cache = Some (bh, s')" "cache_ok s'" "bh < nr_buffers boot_cache"
    "queues_only boot_cache s'" "\<forall>c < nr_buffers s'. is_block 0x101 5 (buffers s' c) \<longleftrightarrow> c = bh"
    "\<forall>c. c \<noteq> bh \<longrightarrow> core (buffers s' c) = core (buffers boot_cache c)" "idle (buffers boot_cache bh)"
    by auto
  have bh: "bh = 1" using r(3,7) 1 unfolding n by metis
  moreover have "b_data (buffers s' 0) = b_data (buffers boot_cache 0)" using r(6) bh by (simp add: core_fields)
  ultimately show ?thesis using r by (simp add: boot_cache_fields new_bh_def)
qed

subsection \<open>Setting the cache up\<close>

text \<open>What the loop of \<open>buffer_init\<close> leaves in a buffer head.\<close>

definition fresh :: "nat \<Rightarrow> buffer_head \<Rightarrow> bool" where
  "fresh h b \<longleftrightarrow> b_dev b = 0 \<and> \<not> b_dirt b \<and> b_count b = 0 \<and> \<not> b_lock b \<and> b_next b = None \<and> b_prev b = None
     \<and> b_prev_free b = Some (h - 1) \<and> b_next_free b = Some (h + 1)"

lemma init_bh_fields:
  "fresh h (buffers (init_bh h b s) h)" "k \<noteq> h \<Longrightarrow> buffers (init_bh h b s) k = buffers s k"
  "nr_buffers (init_bh h b s) = nr_buffers s" "start_buffer (init_bh h b s) = start_buffer s"
  by (simp_all add: init_bh_def fresh_def update_bh_def)

lemma unat_bh_addr:
  assumes "unat (start_buffer s) \<le> 0x70000" "h \<le> 4097"
  shows "unat (bh_addr h s) = unat (start_buffer s) + 36 * h"
proof -
  have "36 * h < 2 ^ 32" "unat (start_buffer s) + 36 * h < 2 ^ 32" using assms by simp_all
  then show ?thesis by (simp add: bh_addr_def unat_word_ariths unat_of_nat)
qed

lemma buffer_init_loop_spec:
  "unat (start_buffer s) \<le> 0x70000 \<Longrightarrow> 0x1000 \<le> unat (start_buffer s) \<Longrightarrow> unat b + 1024 * h \<le> 0x400000 \<Longrightarrow>
   0x1000 \<le> unat b \<Longrightarrow>
   \<exists>h' s'. buffer_init_loop h b s = Some (h', s') \<and> h \<le> h' \<and> nr_buffers s' = nr_buffers s + (h' - h)
     \<and> (0x90000 \<le> unat b \<longrightarrow> h < h') \<and> (\<forall>k. h \<le> k \<and> k < h' \<longrightarrow> fresh k (buffers s' k)) \<and> (\<forall>k < h. buffers s' k = buffers s k)"
proof (induction "unat b" arbitrary: h b s rule: less_induct)
  case less
  define b' where "b' = b - (1024 :: u32)"
  have ub: "unat b' = unat b - 1024" using less.prems(4) by (simp add: b'_def unat_sub word_le_nat_alt)
  have addr: "unat (bh_addr (Suc h) s) = unat (start_buffer s) + 36 * (h + 1)"
    using unat_bh_addr [OF less.prems(1), of "h + 1"] less.prems(3) by simp
  show ?case
  proof (cases "b' < bh_addr (h + 1) s")
    case True
    then have "unat b - 1024 < unat (start_buffer s) + 36 * (h + 1)" by (simp add: word_less_nat_alt ub addr)
    then have "unat b < unat (start_buffer s) + 36 * (h + 1) + 1024" using less.prems(4) by linarith
    moreover have "h \<le> 3520" if "0x90000 \<le> unat b" using less.prems(3) that by simp
    ultimately have "\<not> 0x90000 \<le> unat b" using less.prems(1) by fastforce
    then show ?thesis using True by (subst buffer_init_loop.simps) (auto simp: b'_def Let_def)
  next
    case False
    then have ge: "unat (start_buffer s) + 36 * (h + 1) \<le> unat b'" by (simp add: word_less_nat_alt addr)
    define b2 where "b2 = (if b' = 0x100000 then 0xA0000 else b')"
    define s1 where "s1 = init_bh h b' s\<lparr>nr_buffers := nr_buffers s + 1\<rparr>"
    have step: "buffer_init_loop h b s = buffer_init_loop (h + 1) b2 s1"
      using False by (subst buffer_init_loop.simps) (simp add: b'_def [symmetric] b2_def s1_def Let_def)
    have u2: "unat b2 \<le> unat b'" "0x1000 \<le> unat b2" using ge less.prems(2) by (auto simp: b2_def)
    have sb: "start_buffer s1 = start_buffer s" by (simp add: s1_def init_bh_fields)
    have "\<exists>h' s'. buffer_init_loop (h + 1) b2 s1 = Some (h', s') \<and> h + 1 \<le> h' \<and> nr_buffers s' = nr_buffers s1 + (h' - (h + 1))
     \<and> (0x90000 \<le> unat b2 \<longrightarrow> h + 1 < h') \<and> (\<forall>k. h + 1 \<le> k \<and> k < h' \<longrightarrow> fresh k (buffers s' k)) \<and> (\<forall>k < h + 1. buffers s' k = buffers s1 k)"
      using u2 ub less.prems by (intro less.hyps) (simp_all add: sb)
    then obtain h' s' where r: "buffer_init_loop (h + 1) b2 s1 = Some (h', s')" "h + 1 \<le> h'" "nr_buffers s' = nr_buffers s1 + (h' - (h + 1))"
      "\<forall>k. h + 1 \<le> k \<and> k < h' \<longrightarrow> fresh k (buffers s' k)" "\<forall>k < h + 1. buffers s' k = buffers s1 k" by blast
    have "fresh k (buffers s' k)" if "h \<le> k" "k < h'" for k
    proof (cases "k = h")
      case True
      then show ?thesis using r(5) init_bh_fields(1) [of h b' s] by (simp add: s1_def)
    qed (use r(4) that in simp)
    moreover have "buffers s' k = buffers s k" if "k < h" for k
      using r(5) that init_bh_fields(2) [of k h b' s] by (simp add: s1_def)
    moreover have "nr_buffers s' = nr_buffers s + (h' - h)" using r(2,3) by (simp add: s1_def)
    ultimately show ?thesis using step r(1,2) by auto
  qed
qed

lemma links_nth:
  "links nx pv xs \<longleftrightarrow> (\<forall>k. Suc k < length xs \<longrightarrow> nx (xs ! k) = Some (xs ! Suc k) \<and> pv (xs ! Suc k) = Some (xs ! k))"
proof (induction nx pv xs rule: links.induct)
  case (1 nx pv a b as)
  have "(\<forall>k. Suc k < length (a # b # as) \<longrightarrow> nx ((a # b # as) ! k) = Some ((a # b # as) ! Suc k) \<and> pv ((a # b # as) ! Suc k) = Some ((a # b # as) ! k))
     \<longleftrightarrow> nx a = Some b \<and> pv b = Some a
       \<and> (\<forall>k. Suc k < length (b # as) \<longrightarrow> nx ((b # as) ! k) = Some ((b # as) ! Suc k) \<and> pv ((b # as) ! Suc k) = Some ((b # as) ! k))"
    (is "?l \<longleftrightarrow> ?r")
  proof
    assume l: ?l
    then show ?r using l [rule_format, of 0] by (auto dest: spec [of _ "Suc _"])
  next
    assume ?r then show ?l by (auto simp: nth_Cons split: nat.splits)
  qed
  with 1 show ?case by simp
qed simp_all


text \<open>A ring through all the buffers and no chains: the cache after \<open>buffer_init\<close>.\<close>

lemma fresh_cache_ok:
  assumes n: "2 \<le> nr_buffers s" and fl: "free_list s = 0" and ht: "\<And>h. hash_table s h = None"
    and b: "\<And>k. k < nr_buffers s \<Longrightarrow> b_dev (buffers s k) = 0 \<and> b_next (buffers s k) = None \<and> b_prev (buffers s k) = None"
    and nx: "\<And>k. k < nr_buffers s \<Longrightarrow> b_next_free (buffers s k) = Some (if k + 1 = nr_buffers s then 0 else k + 1)"
    and pv: "\<And>k. k < nr_buffers s \<Longrightarrow> b_prev_free (buffers s k) = Some (if k = 0 then nr_buffers s - 1 else k - 1)"
  shows "cache_ok s"
proof -
  let ?n = "nr_buffers s"
  have el: "([0..<?n] @ [0]) ! k = (if k < ?n then k else 0)" if "k \<le> ?n" for k
    using that by (simp add: nth_append)
  have "links (next_free s) (prev_free s) ([0..<?n] @ [0])"
    unfolding links_nth
  proof (intro allI impI)
    fix k assume k: "Suc k < length ([0..<?n] @ [0])"
    then have "k < ?n" "(if Suc k < ?n then Suc k else 0) < ?n" using n by auto
    then show "next_free s (([0..<?n] @ [0]) ! k) = Some (([0..<?n] @ [0]) ! Suc k)
        \<and> prev_free s (([0..<?n] @ [0]) ! Suc k) = Some (([0..<?n] @ [0]) ! k)"
      using k nx [of k] pv [of "if Suc k < ?n then Suc k else 0"] by (auto simp: el next_free_def prev_free_def)
  qed
  moreover have "[0..<?n] = 0 # [1..<?n]" using n by (simp add: upt_conv_Cons)
  ultimately have "ring (next_free s) (prev_free s) [0..<?n]" by (metis append_Cons distinct_upt ring_Cons)
  then have "free_rep s [0..<?n]" using n fl by (simp add: free_rep_def)
  moreover have "chains_rep s (\<lambda>_. [])" using ht by (simp add: chains_rep_def dlist_def)
  moreover have "\<not> hashed s h c" for h c using b by (auto simp: hashed_def)
  ultimately have "cache_rep s [0..<?n] (\<lambda>_. [])"
    using n b by (auto simp: cache_rep_def link_defs)
  then show ?thesis by (auto simp: cache_ok_def)
qed

lemma buffer_init_loop_frame:
  assumes "buffer_init_loop h b s = Some (n, s')"
  shows "\<exists>B k. s' = s\<lparr>buffers := B, nr_buffers := k\<rparr>"
proof -
  have "\<exists>B k. snd (n, s') = s\<lparr>buffers := B, nr_buffers := k\<rparr>"
  proof (rule buffer_init_loop.raw_induct [where P = "\<lambda>h b s r. \<exists>B k. snd r = s\<lparr>buffers := B, nr_buffers := k\<rparr>", OF _ assms])
    fix f and h b and s :: "'a cache_scheme" and r
    assume IH: "\<And>h b s r. f h b s = Some r \<Longrightarrow> \<exists>B k. snd r = s\<lparr>buffers := B, nr_buffers := k\<rparr>"
      and eq: "(let b = b - of_nat BLOCK_SIZE
        in if b < bh_addr (h + 1) s then Some (h, s)
           else f (h + 1) (if b = 0x100000 then 0xA0000 else b) (init_bh h b s\<lparr>nr_buffers := nr_buffers s + 1\<rparr>)) = Some r"
    show "\<exists>B k. snd r = s\<lparr>buffers := B, nr_buffers := k\<rparr>"
    proof (cases "b - of_nat BLOCK_SIZE < bh_addr (h + 1) s")
      case True
      with eq show ?thesis by (auto simp: Let_def intro!: exI [of _ "buffers s"] exI [of _ "nr_buffers s"])
    next
      case False
      with eq have "f (h + 1) (if b - of_nat BLOCK_SIZE = 0x100000 then 0xA0000 else b - of_nat BLOCK_SIZE)
          (init_bh h (b - of_nat BLOCK_SIZE) s\<lparr>nr_buffers := nr_buffers s + 1\<rparr>) = Some r" by (simp only: Let_def if_False)
      from IH [OF this] obtain B k where
        "snd r = (init_bh h (b - of_nat BLOCK_SIZE) s\<lparr>nr_buffers := nr_buffers s + 1\<rparr>)\<lparr>buffers := B, nr_buffers := k\<rparr>" by blast
      then have "snd r = s\<lparr>buffers := B, nr_buffers := k\<rparr>" by (simp add: init_bh_def update_bh_def)
      then show ?thesis by blast
    qed
  qed
  then show ?thesis by simp
qed

text \<open>The same with what it leaves alone, for the start-up of the whole system.\<close>

lemma buffer_init_spec:
  assumes s: "0x1000 \<le> unat (start_buffer s)" "unat (start_buffer s) \<le> 0x70000" "nr_buffers s = 0"
    and e: "0x100000 \<le> buffer_end" "buffer_end \<le> 0x400000"
  shows "\<exists>s'. buffer_init buffer_end s = Some s' \<and> cache_ok s' \<and> 2 \<le> nr_buffers s'
    \<and> (\<forall>k < nr_buffers s'. idle (buffers s' k) \<and> b_dev (buffers s' k) = 0)
    \<and> (\<exists>B n l h. s' = s\<lparr>buffers := B, nr_buffers := n, free_list := l, hash_table := h\<rparr>)"
proof -
  define b where "b = (if buffer_end = 0x100000 then 640 * 1024 else (of_int buffer_end :: u32))"
  have "uint (of_int buffer_end :: u32) = buffer_end" using e by (simp add: uint_word_of_int)
  then have "unat (of_int buffer_end :: u32) = nat buffer_end" by (simp only: unat_eq_nat_uint)
  then have ub: "unat b = (if buffer_end = 0x100000 then 0xA0000 else nat buffer_end)" by (simp add: b_def)
  then have b: "0xA0000 \<le> unat b" "unat b \<le> 0x400000" using e by auto
  define b' where "b' = b - (1024 :: u32)"
  define b2 where "b2 = (if b' = 0x100000 then 0xA0000 else b')"
  define s1 where "s1 = init_bh 0 b' s\<lparr>nr_buffers := nr_buffers s + 1\<rparr>"
  have ub': "unat b' = unat b - 1024" using b by (simp add: b'_def unat_sub word_le_nat_alt)
  have "unat (bh_addr (Suc 0) s) = unat (start_buffer s) + 36" using unat_bh_addr [OF s(2), of 1] by simp
  then have "\<not> b' < bh_addr (Suc 0) s" using s(2) b(1) by (simp add: word_less_nat_alt ub')
  then have step: "buffer_init_loop 0 b s = buffer_init_loop 1 b2 s1"
    by (subst buffer_init_loop.simps) (simp add: b'_def [symmetric] b2_def s1_def Let_def)
  have "0x90000 \<le> unat b2" "unat b2 \<le> unat b'" using b ub' by (auto simp: b2_def)
  then have "\<exists>h' s'. buffer_init_loop 1 b2 s1 = Some (h', s') \<and> 1 \<le> h' \<and> nr_buffers s' = nr_buffers s1 + (h' - 1)
     \<and> (0x90000 \<le> unat b2 \<longrightarrow> 1 < h') \<and> (\<forall>k. 1 \<le> k \<and> k < h' \<longrightarrow> fresh k (buffers s' k)) \<and> (\<forall>k < 1. buffers s' k = buffers s1 k)"
    using s b ub' by (intro buffer_init_loop_spec) (simp_all add: s1_def init_bh_fields)
  then obtain n s2 where r: "buffer_init_loop 0 b s = Some (n, s2)" "1 < n" "nr_buffers s2 = n"
    "\<And>k. 1 \<le> k \<Longrightarrow> k < n \<Longrightarrow> fresh k (buffers s2 k)" "buffers s2 0 = buffers s1 0"
    using \<open>0x90000 \<le> unat b2\<close> step s(3) by (auto simp: s1_def init_bh_fields)
  have "fresh 0 (buffers s2 0)" using init_bh_fields(1) [of 0 b' s] by (simp add: r(5) s1_def)
  then have fr: "fresh k (buffers s2 k)" if "k < n" for k using r(4) [of k] that by (cases "k = 0") simp_all
  define s' where "s' = update_bh (n - 1) (b_next_free_update (\<lambda>_. Some 0))
    (update_bh 0 (b_prev_free_update (\<lambda>_. Some (n - 1))) (s2\<lparr>free_list := 0\<rparr>))\<lparr>hash_table := (\<lambda>_. None)\<rparr>"
  have "buffer_init buffer_end s = Some s'"
    by (simp add: buffer_init_def b_def [symmetric] r(1) s'_def Let_def)
  moreover have nr: "nr_buffers s' = n" by (simp add: s'_def r(3))
  moreover have "cache_ok s'"
  proof (rule fresh_cache_ok, unfold nr)
    fix k assume "k < n"
    note f = fr [OF this]
    show "b_dev (buffers s' k) = 0 \<and> b_next (buffers s' k) = None \<and> b_prev (buffers s' k) = None"
      using f by (auto simp: s'_def fresh_def)
    show "b_next_free (buffers s' k) = Some (if k + 1 = n then 0 else k + 1)"
      using f \<open>k < n\<close> by (cases "k = n - 1") (auto simp: s'_def fresh_def)
    show "b_prev_free (buffers s' k) = Some (if k = 0 then n - 1 else k - 1)"
      using f by (cases "k = 0") (auto simp: s'_def fresh_def)
  qed (use r(2) in \<open>simp_all add: s'_def\<close>)
  moreover have "idle (buffers s' k) \<and> b_dev (buffers s' k) = 0" if "k < n" for k
    using fr [OF that] by (auto simp: s'_def fresh_def idle_def)
  moreover obtain B k where "s2 = s\<lparr>buffers := B, nr_buffers := k\<rparr>" using buffer_init_loop_frame [OF r(1)] by blast
  then have "\<exists>B n l h. s' = s\<lparr>buffers := B, nr_buffers := n, free_list := l, hash_table := h\<rparr>"
    by (intro exI [of _ "buffers s'"] exI [of _ "nr_buffers s'"] exI [of _ "free_list s'"] exI [of _ "hash_table s'"])
      (simp add: s'_def update_bh_def)
  ultimately show ?thesis using r(2) nr by (intro exI [of _ s']) simp
qed

text \<open>
  \<open>buffer_init\<close> stops and sets the cache up: with the kernel ending below 448 KB and the buffer memory
  between 1 and 4 MB, the loop that lets buffer heads grow up and blocks grow down ends, there
  are at least two buffers, all of them unused, clean, unlocked and without a device, and the cache is well formed.
\<close>

theorem buffer_init_correct:
  assumes "0x1000 \<le> unat (start_buffer s)" "unat (start_buffer s) \<le> 0x70000" "nr_buffers s = 0"
    and "0x100000 \<le> buffer_end" "buffer_end \<le> 0x400000"
  shows "\<exists>s'. buffer_init buffer_end s = Some s' \<and> cache_ok s' \<and> 2 \<le> nr_buffers s'
    \<and> (\<forall>k < nr_buffers s'. idle (buffers s' k) \<and> b_dev (buffers s' k) = 0)"
  using buffer_init_spec [OF assms] by blast

theorem buffer_init_correct_witness:
  "\<exists>s'. buffer_init 0x400000 (boot_cache\<lparr>nr_buffers := 0\<rparr>) = Some s' \<and> cache_ok s'"
proof -
  have "start_buffer (boot_cache\<lparr>nr_buffers := 0\<rparr>) = 0x20000" by (simp add: boot_cache_def blk.defs boot_blk_def mm.defs)
  then show ?thesis using buffer_init_correct [of "boot_cache\<lparr>nr_buffers := 0\<rparr>" "0x400000"] by auto
qed

end
