(* ===== verification/Cached_Files.thy ===== *)
theory Cached_Files
  imports File_IO Namei Cache
begin

text \<open>
  Files whose blocks are in the buffer cache. \<open>cached\<close> is the contents of a block as \<open>bread\<close> finds it
  without waiting, \<open>file_zone\<close> the block map of a file, \<open>file_byte\<close> and \<open>file_bytes\<close> its contents. The lemmas
  give \<open>bread\<close> and \<open>brelse\<close>, \<open>bmap\<close>, \<open>file_read\<close> and \<open>file_write\<close> over these, and \<open>read\<close> as a whole.
\<close>

lemma update_bh_fs [frame_simps, simp]:
  "inode_table (update_bh b g s) = inode_table s" "file_table (update_bh b g s) = file_table s"
  "super_blocks (update_bh b g s) = super_blocks s" "umem (update_bh b g s) = umem s"
  by (simp_all add: update_bh_def)

subsection \<open>Blocks in the cache\<close>

text \<open>The contents of a block when it is in the cache, valid, and can be taken without waiting.\<close>

definition cached :: "int \<Rightarrow> int \<Rightarrow> 'a cache_scheme \<Rightarrow> u8 list option" where
  "cached dev block s =
     (case find_buffer dev block s of
        Some (Some bh) \<Rightarrow>
          let b = buffers s bh
          in if b_uptodate b \<and> \<not> b_lock b \<and> b_count b \<noteq> 255 then Some (b_data b) else None
      | _ \<Rightarrow> None)"

lemma find_in_chain_block: "find_in_chain dev block p s = Some (Some bh) \<Longrightarrow> is_block dev block (buffers s bh)"
proof -
  have "\<forall>bh. r = Some bh \<longrightarrow> is_block dev block (buffers s bh)" if "find_in_chain dev block p s = Some r" for r
    by (rule find_in_chain.raw_induct [of "\<lambda>dev block p s r. \<forall>bh. r = Some bh \<longrightarrow> is_block dev block (buffers s bh)", OF _ that])
      (auto split: option.splits if_splits)
  then show "find_in_chain dev block p s = Some (Some bh) \<Longrightarrow> is_block dev block (buffers s bh)" by blast
qed

lemma find_buffer_block: "find_buffer dev block s = Some (Some bh) \<Longrightarrow> is_block dev block (buffers s bh)"
  unfolding find_buffer_def by (rule find_in_chain_block)

lemma release_hold:
  assumes "buffer_wait s = None" and "\<not> b_lock (buffers s bh)" and "b_count (buffers s bh) \<noteq> 255"
  shows "brelse io (Some bh) (hold bh s) = Some s"
proof -
  have "b_count (buffers s bh) + 1 \<noteq> 0"
  proof
    assume "b_count (buffers s bh) + 1 = 0"
    then have "b_count (buffers s bh) = - 1" by (rule eq_neg_iff_add_eq_0 [THEN iffD2])
    then show False using assms(3) by simp
  qed
  then show ?thesis using assms(1,2)
    by (simp add: brelse_def wake_up_def free_buffer_queue_def) (simp add: update_bh_def)
qed

lemma bread_cached:
  assumes "cached dev block s = Some d" and "buffer_wait s = None"
  shows "\<exists>bh. bread io dev block s = Some (Some bh, hold bh s) \<and> find_buffer dev block s = Some (Some bh)
    \<and> b_data (buffers s bh) = d \<and> \<not> b_lock (buffers s bh) \<and> b_count (buffers s bh) \<noteq> 255
    \<and> brelse io (Some bh) (hold bh s) = Some s"
proof -
  obtain bh where bh: "find_buffer dev block s = Some (Some bh)" "b_uptodate (buffers s bh)" "\<not> b_lock (buffers s bh)"
    "b_count (buffers s bh) \<noteq> 255" "b_data (buffers s bh) = d"
    using assms(1) by (auto simp: cached_def Let_def split: option.splits if_splits)
  have "is_block dev block ((buffers s bh)\<lparr>b_count := n\<rparr>)" for n
    using find_buffer_block [OF bh(1)] by (simp add: is_block_def)
  then have "get_hash_table io dev block s = Some (Some bh, hold bh s)"
    using bh by (subst get_hash_table.simps) simp
  then have "getblk io dev block s = Some (bh, hold bh s)" by (subst getblk.simps) simp
  then show ?thesis using bh release_hold [OF assms(2) bh(3,4)] by (intro exI [of _ bh]) (simp add: bread_def)
qed

subsection \<open>The block map of a file\<close>

text \<open>Entry \<open>k\<close> of a block of block numbers; an entry of no block is no block.\<close>

definition indirect :: "(int \<Rightarrow> u8 list option) \<Rightarrow> int \<Rightarrow> nat \<Rightarrow> int option" where
  "indirect R b k = (if b = 0 then Some 0 else map_option (\<lambda>d. uint (get_short d k)) (R b))"

text \<open>The block that holds block \<open>k\<close> of a file: seven direct ones, 512 single and 512 * 512 doubly indirect ones.\<close>

definition zone_of :: "(int \<Rightarrow> u8 list option) \<Rightarrow> u16 list \<Rightarrow> nat \<Rightarrow> int option" where
  "zone_of R z k =
     (if k < 7 then Some (uint (z ! k))
      else if k < 519 then indirect R (uint (z ! 7)) (k - 7)
      else if k < 262663 then Option.bind (indirect R (uint (z ! 8)) ((k - 519) div 512)) (\<lambda>b. indirect R b ((k - 519) mod 512))
      else None)"

definition file_zone :: "nat \<Rightarrow> nat \<Rightarrow> 'a fs_scheme \<Rightarrow> int option" where
  "file_zone i k s = zone_of (\<lambda>b. cached (uint (i_dev (inode_table s i))) b s) (i_zone (inode_table s i)) k"

lemma map_entry_lookup:
  assumes "brelse io (Some bh) (hold bh s) = Some s" and "uint (get_short (b_data (buffers s bh)) k) = n" and "create \<longrightarrow> n \<noteq> 0"
  shows "map_entry io dev bh k create (hold bh s) = Some (n, s)"
  using assms by (auto simp: map_entry_def Let_def)

lemma and_511: "(x::int) AND 511 = x mod 512"
  using take_bit_eq_mask [of 9 x] by (simp add: take_bit_eq_mod mask_eq_exp_minus_1)

text \<open>With and without \<open>create\<close>: a block that is there is found and nothing changes.\<close>

lemma bmap_create_cached:
  assumes "file_zone i k s = Some n" and w: "buffer_wait s = None" and cr: "create \<longrightarrow> n \<noteq> 0"
  shows "bmap_create io i (int k) create s = Some (n, s)"
proof -
  define dev z where "dev = uint (i_dev (inode_table s i))" and "z = i_zone (inode_table s i)"
  have fz: "zone_of (\<lambda>b. cached dev b s) z k = Some n" using assms(1) by (simp add: file_zone_def dev_def z_def)
  have zone: "map_zone io i j create s = Some (uint (z ! j), s)" if "create \<longrightarrow> uint (z ! j) \<noteq> 0" for j
    using that by (auto simp: map_zone_def z_def)
  have entry: "\<exists>bh. bread io dev b s = Some (Some bh, hold bh s) \<and> map_entry io dev bh j create (hold bh s) = Some (m, s)"
    if ind: "indirect (\<lambda>b. cached dev b s) b j = Some m" and "b \<noteq> 0" "create \<longrightarrow> m \<noteq> 0" for b j m
  proof -
    obtain d where d: "cached dev b s = Some d" "m = uint (get_short d j)" using ind \<open>b \<noteq> 0\<close> by (auto simp: indirect_def)
    from bread_cached [OF d(1) w, of io] obtain bh where "bread io dev b s = Some (Some bh, hold bh s)"
      "b_data (buffers s bh) = d" "brelse io (Some bh) (hold bh s) = Some s" by blast
    then show ?thesis using d(2) that(3) by (intro exI [of _ bh]) (simp add: map_entry_lookup)
  qed
  have zero: "indirect R b j = Some m \<Longrightarrow> b = 0 \<Longrightarrow> m = 0" for R b j m by (simp add: indirect_def)
  consider "k < 7" | "7 \<le> k" "k < 519" | "519 \<le> k" "k < 262663" using fz by (force simp: zone_of_def split: if_splits)
  then show ?thesis
  proof cases
    case 1
    then show ?thesis using fz zone [of k] cr by (simp add: bmap_create_def zone_of_def)
  next
    case 2
    then have ind: "indirect (\<lambda>b. cached dev b s) (uint (z ! 7)) (k - 7) = Some n" using fz by (simp add: zone_of_def)
    show ?thesis
    proof (cases "uint (z ! 7) = 0")
      case True
      then show ?thesis using 2 zero [OF ind] cr zone [of 7] by (simp add: bmap_create_def)
    next
      case False
      from entry [OF ind this cr] obtain bh where "bread io dev (uint (z ! 7)) s = Some (Some bh, hold bh s)"
        "map_entry io dev bh (k - 7) create (hold bh s) = Some (n, s)" by blast
      moreover have "nat (int k - 7) = k - 7" using 2 by simp
      ultimately show ?thesis using 2 False zone [of 7] by (simp add: bmap_create_def dev_def [symmetric])
    qed
  next
    case 3
    then obtain b where ind: "indirect (\<lambda>b. cached dev b s) (uint (z ! 8)) ((k - 519) div 512) = Some b"
      "indirect (\<lambda>b. cached dev b s) b ((k - 519) mod 512) = Some n"
      using fz by (auto simp: zone_of_def bind_Some_iff)
    have idx: "nat ((int k - 519) div 512) = (k - 519) div 512" "nat ((int k - 519) AND 511) = (k - 519) mod 512"
    proof -
      have k: "int k - 519 = int (k - 519)" using 3 by simp
      show "nat ((int k - 519) div 512) = (k - 519) div 512" "nat ((int k - 519) AND 511) = (k - 519) mod 512"
        unfolding k and_511 by (simp_all add: nat_div_distrib nat_mod_distrib)
    qed
    note defs = bmap_create_def dev_def [symmetric] Let_def idx
    show ?thesis
    proof (cases "uint (z ! 8) = 0")
      case True
      then show ?thesis using 3 zero [OF ind(1)] zero [OF ind(2)] cr zone [of 8] by (simp add: defs)
    next
      case False
      have "create \<longrightarrow> b \<noteq> 0" using cr zero [OF ind(2)] by blast
      from entry [OF ind(1) False this] obtain b1 where 1: "bread io dev (uint (z ! 8)) s = Some (Some b1, hold b1 s)"
        "map_entry io dev b1 ((k - 519) div 512) create (hold b1 s) = Some (b, s)" by blast
      show ?thesis
      proof (cases "b = 0")
        case True
        then show ?thesis using 3 False 1 zero [OF ind(2)] zone [of 8] by (simp add: defs)
      next
        case b: False
        from entry [OF ind(2) this cr] obtain b2 where "bread io dev b s = Some (Some b2, hold b2 s)"
          "map_entry io dev b2 ((k - 519) mod 512) create (hold b2 s) = Some (n, s)" by blast
        then show ?thesis using 3 False b 1 zone [of 8] by (simp add: defs)
      qed
    qed
  qed
qed


lemma bmap_cached: "file_zone i k s = Some n \<Longrightarrow> buffer_wait s = None \<Longrightarrow> bmap io i (int k) s = Some (n, s)"
  by (simp add: bmap_def bmap_create_cached)

lemma create_block_cached:
  "file_zone i k s = Some n \<Longrightarrow> n \<noteq> 0 \<Longrightarrow> buffer_wait s = None \<Longrightarrow> create_block io i (int k) s = Some (n, s)"
  by (simp add: create_block_def bmap_create_cached)

subsection \<open>Reading a file\<close>

text \<open>Block \<open>k\<close> of a file, zeros when no block of the disk stands for it.\<close>

definition file_block :: "nat \<Rightarrow> nat \<Rightarrow> 'a fs_scheme \<Rightarrow> u8 list option" where
  "file_block i k s =
     Option.bind (file_zone i k s)
       (\<lambda>n. if n = 0 then Some (replicate BLOCK_SIZE 0) else cached (uint (i_dev (inode_table s i))) n s)"

text \<open>The bytes of a file from position \<open>pos\<close> on.\<close>

definition file_bytes :: "nat \<Rightarrow> nat \<Rightarrow> nat \<Rightarrow> 'a fs_scheme \<Rightarrow> u8 list" where
  "file_bytes i pos n s = map (\<lambda>p. the (file_block i (p div 1024) s) ! (p mod 1024)) [pos..<pos + n]"

text \<open>Every block of that part is in the cache, or a hole.\<close>

definition in_core :: "nat \<Rightarrow> nat \<Rightarrow> nat \<Rightarrow> 'a fs_scheme \<Rightarrow> bool" where
  "in_core i pos n s \<longleftrightarrow> buffer_wait s = None
     \<and> (\<forall>p \<in> {pos..<pos + n}. \<exists>d. file_block i (p div 1024) s = Some d \<and> length d = BLOCK_SIZE)"

text \<open>The search depends on the keys and the chains only.\<close>

definition same_keys :: "'a blk_scheme \<Rightarrow> 'a blk_scheme \<Rightarrow> bool" where
  "same_keys s s' \<longleftrightarrow> (\<forall>c. b_dev (buffers s' c) = b_dev (buffers s c) \<and> b_blocknr (buffers s' c) = b_blocknr (buffers s c)
     \<and> b_next (buffers s' c) = b_next (buffers s c))"

lemma find_in_chain_same:
  assumes "same_keys s s'" and "find_in_chain dev b p s = Some r"
  shows "find_in_chain dev b p s' = Some r"
proof -
  have "\<forall>s'. same_keys s s' \<longrightarrow> find_in_chain dev b p s' = Some r"
    by (rule find_in_chain.raw_induct
        [of "\<lambda>dev b p s r. \<forall>s'. same_keys s s' \<longrightarrow> find_in_chain dev b p s' = Some r", OF _ assms(2)])
      (subst find_in_chain.simps, auto simp: same_keys_def is_block_def split: option.splits if_splits)
  then show ?thesis using assms(1) by blast
qed

lemma find_buffer_same:
  assumes "same_keys s s'" "hash_table s' = hash_table s"
  shows "find_buffer dev b s' = find_buffer dev b s"
proof -
  have sym: "same_keys s' s" using assms(1) by (simp add: same_keys_def)
  have "find_in_chain dev b p s' = find_in_chain dev b p s" for p
  proof (cases "find_in_chain dev b p s")
    case None
    show ?thesis
    proof (cases "find_in_chain dev b p s'")
      case (Some r)
      then show ?thesis using None find_in_chain_same [OF sym Some] by simp
    qed (simp add: None)
  qed (use find_in_chain_same [OF assms(1)] in simp)
  then show ?thesis by (simp add: find_buffer_def assms(2))
qed

lemma cached_cong:
  fixes s s' :: "'a cache_scheme"
  assumes "buffers s' = buffers s" "hash_table s' = hash_table s"
  shows "cached dev b s' = cached dev b s"
proof -
  have "find_buffer dev b s' = find_buffer dev b s"
    using assms by (intro find_buffer_same) (simp_all add: same_keys_def)
  then show ?thesis unfolding cached_def assms by (rule arg_cong)
qed

text \<open>Storing in the buffer of a block changes the contents of that block only.\<close>

lemma cached_store:
  fixes s s' :: "'a cache_scheme"
  assumes b: "find_buffer dev n s = Some (Some b)" and c: "cached dev n s = Some d"
    and s': "buffers s' = (buffers s)(b := (buffers s b)\<lparr>b_data := d', b_dirt := True\<rparr>)" "hash_table s' = hash_table s"
    and n: "0 \<le> n" "n < 2 ^ 16" "0 \<le> m" "m < 2 ^ 16"
  shows "cached dev m s' = (if m = n then Some d' else cached dev m s)"
proof -
  have fb: "find_buffer dev k s' = find_buffer dev k s" for k
    using s' by (intro find_buffer_same) (simp_all add: same_keys_def)
  show ?thesis
  proof (cases "m = n")
    case True
    then show ?thesis using b c fb [of n] s'(1) by (auto simp: cached_def Let_def split: if_splits)
  next
    case False
    have "find_buffer dev m s \<noteq> Some (Some b)"
    proof
      assume "find_buffer dev m s = Some (Some b)"
      from find_buffer_block [OF this] find_buffer_block [OF b] have "(of_int m :: u32) = of_int n"
        by (simp add: is_block_def)
      then have "uint (of_int m :: u32) = uint (of_int n :: u32)" by simp
      then show False using n False by (simp add: uint_word_of_int)
    qed
    then show ?thesis using False fb [of m] s'(1) by (auto simp: cached_def Let_def split: option.splits)
  qed
qed

lemma file_block_cong:
  fixes s s' :: "'a fs_scheme"
  assumes "buffers s' = buffers s" "hash_table s' = hash_table s" "i_zone (inode_table s' i) = i_zone (inode_table s i)"
    "i_dev (inode_table s' i) = i_dev (inode_table s i)"
  shows "file_block i k s' = file_block i k s"
  unfolding file_block_def file_zone_def assms(3,4) cached_cong [OF assms(1,2)] by (rule refl)

lemma length_file_bytes [simp]: "length (file_bytes i pos n s) = n"
  by (simp add: file_bytes_def)

lemma file_bytes_add: "file_bytes i pos (m + n) s = file_bytes i pos m s @ file_bytes i (pos + m) n s"
  using upt_add_eq_append [of pos "pos + m" n] by (simp add: file_bytes_def add.assoc)

text \<open>A part of one block.\<close>

lemma file_bytes_block:
  assumes "file_block i (pos div 1024) s = Some d" "length d = BLOCK_SIZE" "pos mod 1024 + n \<le> 1024"
  shows "file_bytes i pos n s = take n (drop (pos mod 1024) d)"
proof (rule nth_equalityI)
  fix j assume "j < length (file_bytes i pos n s)"
  then have j: "j < n" by simp
  have at: "pos + j = (pos mod 1024 + j) + pos div 1024 * 1024" by simp
  have "(pos + j) div 1024 = pos div 1024" "(pos + j) mod 1024 = pos mod 1024 + j"
    unfolding at using j assms(3) by (simp_all only: div_mult_self1 mod_mult_self1) simp_all
  then show "file_bytes i pos n s ! j = take n (drop (pos mod 1024) d) ! j"
    using j assms by (simp add: file_bytes_def add.commute)
qed (use assms in simp)

text \<open>One block of the loop of \<open>file_read\<close>.\<close>

lemma read_block:
  assumes ic: "in_core i pos n s" and n: "0 < n" and c: "pos mod 1024 + c \<le> 1024"
  shows "\<exists>nr bh s1. bmap io i (int (pos div 1024)) s = Some (nr, s)
    \<and> (if nr \<noteq> 0 then bread io (uint (i_dev (inode_table s i))) nr s else Some (None, s)) = Some (bh, s1)
    \<and> (nr \<noteq> 0 \<longrightarrow> bh \<noteq> None) \<and> (bh = None \<longrightarrow> s1 = s) \<and> (\<forall>b. bh = Some b \<longrightarrow> s1 = hold b s)
    \<and> (case bh of None \<Rightarrow> replicate c 0 | Some b \<Rightarrow> take c (drop (pos mod 1024) (b_data (buffers s1 b)))) = file_bytes i pos c s
    \<and> (\<forall>T F m. brelse io bh (s1\<lparr>inode_table := T, file_table := F, umem := m\<rparr>) = Some (s\<lparr>inode_table := T, file_table := F, umem := m\<rparr>))"
proof -
  obtain d where d: "file_block i (pos div 1024) s = Some d" "length d = BLOCK_SIZE"
    using ic n by (force simp: in_core_def)
  then obtain nr where nr: "file_zone i (pos div 1024) s = Some nr" by (auto simp: file_block_def bind_Some_iff)
  have w: "buffer_wait s = None" using ic by (simp add: in_core_def)
  have bm: "bmap io i (int (pos div 1024)) s = Some (nr, s)" by (rule bmap_cached [OF nr w])
  note fb = file_bytes_block [OF d c]
  show ?thesis
  proof (cases "nr = 0")
    case True
    then have "d = replicate BLOCK_SIZE 0" using d nr by (simp add: file_block_def)
    then show ?thesis using bm True fb c by (simp add: brelse_def)
  next
    case False
    then have "cached (uint (i_dev (inode_table s i))) nr s = Some d" using d nr by (simp add: file_block_def)
    from bread_cached [OF this w, of io] obtain b where b:
      "bread io (uint (i_dev (inode_table s i))) nr s = Some (Some b, hold b s)" "b_data (buffers s b) = d"
      "\<not> b_lock (buffers s b)" "b_count (buffers s b) \<noteq> 255" by blast
    have "brelse io (Some b) (hold b s\<lparr>inode_table := T, file_table := F, umem := m\<rparr>) = Some (s\<lparr>inode_table := T, file_table := F, umem := m\<rparr>)"
      for T F m
    proof -
      have "hold b s\<lparr>inode_table := T, file_table := F, umem := m\<rparr> = hold b (s\<lparr>inode_table := T, file_table := F, umem := m\<rparr>)"
        by (simp add: update_bh_def)
      then show ?thesis using release_hold [of "s\<lparr>inode_table := T, file_table := F, umem := m\<rparr>" b io] w b(3,4) by simp
    qed
    then show ?thesis using bm False b fb by (intro exI [of _ nr] exI [of _ "Some b"] exI [of _ "hold b s"]) simp
  qed
qed

lemma in_core_part: "in_core i pos (m + n) s \<Longrightarrow> in_core i (pos + m) n s"
  by (auto simp: in_core_def)

lemma in_core_cong:
  fixes s s' :: "'a fs_scheme"
  assumes "buffers s' = buffers s" "hash_table s' = hash_table s" "buffer_wait s' = buffer_wait s"
    "i_zone (inode_table s' i) = i_zone (inode_table s i)" "i_dev (inode_table s' i) = i_dev (inode_table s i)"
  shows "in_core i pos n s' = in_core i pos n s" and "file_bytes i pos n s' = file_bytes i pos n s"
  unfolding in_core_def file_bytes_def assms(3) file_block_cong [OF assms(1,2,4,5)] by (rule refl)+

lemma int_sdiv_pos: "(0::int) \<le> a \<Longrightarrow> 0 < b \<Longrightarrow> a sdiv b = a div b"
  by (cases "a = 0") (simp_all add: signed_divide_int_def)

lemma int_smod_pos: "(0::int) \<le> a \<Longrightarrow> 0 < b \<Longrightarrow> a smod b = a mod b"
  by (cases "a = 0") (simp_all add: signed_modulo_int_def)

lemma file_read_loop_correct:
  "in_core i pos n s \<Longrightarrow> f_pos (file_table s f) = int pos \<Longrightarrow> pos + n < 2 ^ 31 \<Longrightarrow>
   file_read_loop io i f buf (int n) s =
     Some (0, s\<lparr>file_table := (file_table s)(f := (file_table s f)\<lparr>f_pos := int (pos + n)\<rparr>),
                umem := write_bytes (file_bytes i pos n s) buf (umem s)\<rparr>)"
proof (induction n arbitrary: pos buf s rule: less_induct)
  case (less n)
  show ?case
  proof (cases "n = 0")
    case True
    then have "file_table s = (file_table s)(f := (file_table s f)\<lparr>f_pos := int (pos + n)\<rparr>)"
      using less.prems(2) by (auto simp: fun_eq_iff)
    then show ?thesis using True by (subst file_read_loop.simps) (simp add: file_bytes_def)
  next
    case False
    define off where "off = pos mod 1024"
    define c where "c = min (1024 - off) n"
    have "off < 1024" by (simp add: off_def)
    then have c: "0 < c" "c \<le> n" "off + c \<le> 1024" using False by (auto simp: c_def)
    have chars: "min (1024 - int off) (int n) = int c" using \<open>off < 1024\<close> by (auto simp: c_def)
    have pos: "int pos smod 1024 = int off" "int pos sdiv 1024 = int (pos div 1024)"
      by (simp_all add: off_def int_sdiv_pos int_smod_pos zdiv_int zmod_int)
    have wrap: "wrap32 (int pos + int c) = int (pos + c)" using less.prems(3) c by (simp add: wrap32_id)
    from read_block [OF less.prems(1) _ c(3) [unfolded off_def], of io] False obtain nr bh s1 where
      r: "bmap io i (int (pos div 1024)) s = Some (nr, s)"
      "(if nr \<noteq> 0 then bread io (uint (i_dev (inode_table s i))) nr s else Some (None, s)) = Some (bh, s1)"
      "nr \<noteq> 0 \<longrightarrow> bh \<noteq> None" "bh = None \<longrightarrow> s1 = s" "\<forall>b. bh = Some b \<longrightarrow> s1 = hold b s"
      "(case bh of None \<Rightarrow> replicate c 0 | Some b \<Rightarrow> take c (drop off (b_data (buffers s1 b)))) = file_bytes i pos c s"
      "\<forall>T F m. brelse io bh (s1\<lparr>inode_table := T, file_table := F, umem := m\<rparr>) = Some (s\<lparr>inode_table := T, file_table := F, umem := m\<rparr>)"
      unfolding off_def by blast
    have s1: "file_table s1 = file_table s" "umem s1 = umem s" "inode_table s1 = inode_table s"
      using r(4,5) by (cases bh; simp)+
    define F where "F = (file_table s)(f := (file_table s f)\<lparr>f_pos := int (pos + c)\<rparr>)"
    define m where "m = write_bytes (file_bytes i pos c s) buf (umem s)"
    define s2 where "s2 = s\<lparr>file_table := F, umem := m\<rparr>"
    have upd: "to_user (file_bytes i pos c s) buf (update_file f (\<lambda>x. x\<lparr>f_pos := wrap32 (f_pos x + int c)\<rparr>) s1)
        = s1\<lparr>inode_table := inode_table s, file_table := F, umem := m\<rparr>"
      using s1 less.prems(2) wrap by (simp add: to_user_def update_file_def F_def m_def)
    have data: "(case bh of None \<Rightarrow> replicate c 0 | Some b \<Rightarrow> take c (drop off (b_data (buffers (update_file f g s1) b))))
        = file_bytes i pos c s" for g
      using r(6) by (simp add: update_file_def cong: option.case_cong)
    have "file_read_loop io i f buf (int n) s = file_read_loop io i f (buf + of_nat c) (int (n - c)) s2"
      using False c r(3)
      by (subst file_read_loop.simps, simp add: less.prems(2) pos r(1,2) s1 chars data upd r(7) s2_def Let_def of_nat_diff
            del: of_nat_min cong: option.case_cong, auto)
    also have "\<dots> = Some (0, s2\<lparr>file_table := (file_table s2)(f := (file_table s2 f)\<lparr>f_pos := int ((pos + c) + (n - c))\<rparr>),
                umem := write_bytes (file_bytes i (pos + c) (n - c) s2) (buf + of_nat c) (umem s2)\<rparr>)"
    proof (rule less.IH)
      show "in_core i (pos + c) (n - c) s2"
        using in_core_part [of i pos c "n - c" s] less.prems(1) c(2) in_core_cong(1) [of s2 s i] by (simp add: s2_def)
    qed (use c less.prems(3) False in \<open>simp_all add: s2_def F_def\<close>)
    also have "file_bytes i (pos + c) (n - c) s2 = file_bytes i (pos + c) (n - c) s"
      by (rule in_core_cong(2)) (simp_all add: s2_def)
    finally show ?thesis
      using file_bytes_add [of i pos c "n - c" s] c(2) by (simp add: s2_def F_def m_def write_bytes_append cong: if_cong)
  qed
qed


text \<open>
  C3. \<open>read\<close> on a regular file whose blocks are in the cache, single, doubly indirect and holes included:
  it returns the number of bytes between the position and the end of the file, at most the number
  asked for; it stores exactly those bytes of the file in the caller's buffer, moves the position past
  them, sets the access time and changes nothing else. At the end of the file it returns 0.
\<close>

theorem sys_read_regular:
  assumes fd: "fd_file fd s = Some f" and count: "0 < count" and va: "verify_area buf (int count) s = Some s1"
    and opened: "f_inode (file_table s1 f) = Some i" "f_pos (file_table s1 f) = int pos"
    and inode: "S_ISREG (i_mode (inode_table s1 i))" "\<not> i_pipe (inode_table s1 i)" "i_size (inode_table s1 i) = of_nat sz"
    and range: "pos \<le> sz" "sz < 2 ^ 31" "count < 2 ^ 31" and n: "n = min count (sz - pos)"
    and ic: "in_core i pos n s1"
  shows "sys_read io wr fd buf (int count) s =
    Some (int n, if n = 0 then s1 else
      s1\<lparr>file_table := (file_table s1)(f := (file_table s1 f)\<lparr>f_pos := int (pos + n)\<rparr>),
         umem := write_bytes (file_bytes i pos n s1) buf (umem s1),
         inode_table := (inode_table s1)(i := (inode_table s1 i)\<lparr>i_atime := of_int (CURRENT_TIME s1)\<rparr>)\<rparr>)"
proof -
  have types: "\<not> S_ISCHR (i_mode (inode_table s1 i))" "\<not> S_ISBLK (i_mode (inode_table s1 i))"
    using inode(1) by (auto simp: S_ISREG_def S_ISCHR_def S_ISBLK_def)
  have cnt: "(if (of_int (int count + int pos) :: u32) > of_nat sz then sint ((of_nat sz :: u32) - of_int (int pos)) else int count) = int n"
  proof -
    have "unat (of_nat (count + pos) :: u32) = count + pos" "unat (of_nat sz :: u32) = sz"
      using range by (simp_all only: unat_of_nat) simp_all
    then have "(of_nat (count + pos) :: u32) > of_nat sz \<longleftrightarrow> count + pos > sz" by (simp only: word_less_nat_alt)
    moreover have "sint ((of_nat sz :: u32) - of_nat pos) = int (sz - pos)"
    proof -
      have "(of_nat sz :: u32) - of_nat pos = of_nat (sz - pos)" using range(1) by simp
      then show ?thesis using range(2) by (simp only:) (simp add: sint32_uint unsigned_of_nat take_bit_nat_eq_self)
    qed
    ultimately show ?thesis using range(1) by (simp add: n) 
  qed
  show ?thesis
  proof (cases "n = 0")
    case True
    then show ?thesis using fd count va opened inode types cnt by (simp add: sys_read_def Let_def)
  next
    case False
    have b: "pos + n < 2 ^ 31" using range by (simp add: n min_def, linarith)
    have "file_read io i f buf (int n) s1 = Some (int n,
      s1\<lparr>file_table := (file_table s1)(f := (file_table s1 f)\<lparr>f_pos := int (pos + n)\<rparr>),
         umem := write_bytes (file_bytes i pos n s1) buf (umem s1),
         inode_table := (inode_table s1)(i := (inode_table s1 i)\<lparr>i_atime := of_int (CURRENT_TIME s1)\<rparr>)\<rparr>)"
      using False by (simp add: file_read_def file_read_loop_correct [OF ic opened(2) b] update_inode_def CURRENT_TIME_def)
    then show ?thesis using False fd count va opened inode types cnt by (simp add: sys_read_def Let_def)
  qed
qed

subsection \<open>A small file system\<close>

text \<open>
  Inode 2 is a regular file of 1500 bytes on the RAM disk, block 3 and a hole, open as descriptor 0
  at position 1000. Block 3 is in the cache.
\<close>

definition boot_fs :: fs where
  "boot_fs = cache.extend
     (boot_cache\<lparr>tasks := (\<lambda>_. INIT_TASK\<lparr>t_filp := Some 0 # replicate 19 None\<rparr>)\<rparr>)
     \<lparr>inode_table = (\<lambda>_. zero_inode)(2 := zero_inode\<lparr>i_mode := 0x81a4, i_dev := 0x101, i_num := 5, i_nlinks := 1, i_count := 1,
        i_size := 1500, i_zone := 3 # replicate 8 0\<rparr>),
      last_inode = 0,
      file_table = (\<lambda>_. \<lparr>f_mode = 0, f_flags = 0, f_count = 0, f_inode = None, f_pos = 0\<rparr>)
        (0 := \<lparr>f_mode = 3, f_flags = 2, f_count = 1, f_inode = Some 2, f_pos = 1000\<rparr>),
      super_blocks = (\<lambda>_. undefined), ROOT_DEV = 0x101\<rparr>"

text \<open>A machine whose only block device is the RAM disk.\<close>

definition fs_io :: "fs io" where
  "fs_io = \<lparr>wait_env = (\<lambda>_ _. None), start_request = (\<lambda>major s. if major = 1 then do_rd_request s else None),
     floppy_change = (\<lambda>_ s. Some (False, s)), write_inodes = Some\<rparr>"

lemma boot_fs_fields:
  "buffers boot_fs = buffers boot_cache" "hash_table boot_fs = hash_table boot_cache" "buffer_wait boot_fs = None"
  "inode_table boot_fs 2 = zero_inode\<lparr>i_mode := 0x81a4, i_dev := 0x101, i_num := 5, i_nlinks := 1, i_count := 1,
        i_size := 1500, i_zone := 3 # replicate 8 0\<rparr>"
  "file_table boot_fs 0 = \<lparr>f_mode = 3, f_flags = 2, f_count = 1, f_inode = Some 2, f_pos = 1000\<rparr>"
  "cur_task boot_fs = INIT_TASK\<lparr>t_filp := Some 0 # replicate 19 None\<rparr>" "phys boot_fs = phys boot_mm"
  by (simp_all add: boot_fs_def boot_cache_def cache.defs blk.defs boot_blk_def mm.defs)

lemma boot_fs_cached: "cached 0x101 3 boot_fs = Some (replicate 1024 7)"
proof -
  have h: "hash_table boot_fs (hashfn 257 3) = Some 0" by (simp add: boot_fs_fields boot_cache_fields hashfn_def)
  have "find_buffer 0x101 3 boot_fs = Some (Some 0)"
    using h unfolding find_buffer_def
    by (subst find_in_chain.simps) (simp add: is_block_def boot_fs_fields boot_cache_fields new_bh_def)
  then show ?thesis by (simp add: cached_def boot_fs_fields boot_cache_fields new_bh_def)
qed

lemma boot_fs_blocks: "file_block 2 0 boot_fs = Some (replicate 1024 7)" "file_block 2 1 boot_fs = Some (replicate 1024 0)"
  using boot_fs_cached by (simp_all add: file_block_def file_zone_def zone_of_def boot_fs_fields)

lemma boot_fs_in_core: "pos + n \<le> 2048 \<Longrightarrow> in_core 2 pos n boot_fs"
  unfolding in_core_def
proof (intro conjI ballI)
  fix p assume "pos + n \<le> 2048" "p \<in> {pos..<pos + n}"
  then have "p div 1024 = 0 \<or> p div 1024 = 1" by auto
  then show "\<exists>d. file_block 2 (p div 1024) boot_fs = Some d \<and> length d = BLOCK_SIZE" using boot_fs_blocks by auto
qed (simp add: boot_fs_fields)

text \<open>2000 bytes are asked for, 500 are left: 24 of block 3 and 476 of the hole.\<close>

theorem sys_read_regular_witness:
  "\<exists>s'. sys_read fs_io (\<lambda>_. Some) 0 0x5000 2000 boot_fs = Some (500, s') \<and> f_pos (file_table s' 0) = 1500
     \<and> umem s' 0x5000 = 7 \<and> umem s' 0x5018 = 0"
proof -
  have fd: "fd_file 0 boot_fs = Some 0" by (simp add: fd_file_def boot_fs_fields)
  have va: "verify_area 0x5000 (int 2000) boot_fs = Some boot_fs"
    by (simp add: verify_area_def wrap32_id Let_def write_verify_def mem_long_def boot_fs_fields boot_mm_phys)
  have "file_bytes 2 1000 500 boot_fs = file_bytes 2 1000 24 boot_fs @ file_bytes 2 1024 476 boot_fs"
    using file_bytes_add [of 2 1000 24 476 boot_fs] by simp
  also have "file_bytes 2 1000 24 boot_fs = replicate 24 7"
    using file_bytes_block [of 2 1000 boot_fs _ 24] boot_fs_blocks(1) by simp
  also have "file_bytes 2 1024 476 boot_fs = replicate 476 0"
    using file_bytes_block [of 2 1024 boot_fs _ 476] boot_fs_blocks(2) by simp
  finally have b: "file_bytes 2 1000 500 boot_fs = replicate 24 7 @ replicate 476 0" .
  have "umem m 0x5000 = 7 \<and> umem m 0x5018 = 0" if "umem m = write_bytes (replicate 24 7 @ replicate 476 0) 0x5000 M"
    for m :: fs and M
    using write_bytes_nth [of "replicate 24 7 @ replicate 476 0" 0 "0x5000" M]
      write_bytes_nth [of "replicate 24 7 @ replicate 476 0" 24 "0x5000" M] that by (simp add: nth_append)
  from this [of "boot_fs\<lparr>umem := write_bytes (replicate 24 7 @ replicate 476 0) 0x5000 (umem boot_fs)\<rparr>"]
  have "write_bytes (replicate 24 7 @ replicate 476 0) 0x5000 (umem boot_fs) 0x5000 = 7"
    "write_bytes (replicate 24 7 @ replicate 476 0) 0x5000 (umem boot_fs) 0x5018 = 0" by simp_all
  then show ?thesis
    using sys_read_regular [OF fd _ va, of 2 1000 1500 500 fs_io "\<lambda>_. Some"] boot_fs_in_core [of 1000 500] b
    by (simp add: boot_fs_fields S_ISREG_def zero_inode_def)
qed

subsection \<open>Writing a file\<close>

definition file_byte :: "nat \<Rightarrow> nat \<Rightarrow> 'a fs_scheme \<Rightarrow> u8" where
  "file_byte i p s = the (file_block i (p div 1024) s) ! (p mod 1024)"

lemma file_bytes_byte: "file_bytes i pos n s = map (\<lambda>p. file_byte i p s) [pos..<pos + n]"
  by (simp add: file_bytes_def file_byte_def)

text \<open>A part of a file in its direct blocks, all of them there and no two the same.\<close>

definition direct :: "nat \<Rightarrow> nat \<Rightarrow> nat \<Rightarrow> 'a fs_scheme \<Rightarrow> bool" where
  "direct i pos n s \<longleftrightarrow> pos + n \<le> 7168 \<and> in_core i pos n s
     \<and> (\<forall>p \<in> {pos..<pos + n}. i_zone (inode_table s i) ! (p div 1024) \<noteq> 0)
     \<and> (\<forall>j < 7. \<forall>k < 7. i_zone (inode_table s i) ! j = i_zone (inode_table s i) ! k \<and> i_zone (inode_table s i) ! j \<noteq> 0 \<longrightarrow> j = k)"

lemma directD:
  assumes "direct i q m s" and "p \<in> {q..<q + m}"
  shows "file_zone i (p div 1024) s = Some (uint (i_zone (inode_table s i) ! (p div 1024)))"
    and "uint (i_zone (inode_table s i) ! (p div 1024)) \<noteq> 0"
    and "\<exists>d. cached (uint (i_dev (inode_table s i))) (uint (i_zone (inode_table s i) ! (p div 1024))) s = Some d
          \<and> length d = BLOCK_SIZE \<and> file_block i (p div 1024) s = Some d"
proof -
  have k: "p div 1024 < 7" using assms by (auto simp: direct_def)
  then show fz: "file_zone i (p div 1024) s = Some (uint (i_zone (inode_table s i) ! (p div 1024)))"
    by (simp add: file_zone_def zone_of_def)
  show nz: "uint (i_zone (inode_table s i) ! (p div 1024)) \<noteq> 0"
    using assms by (simp add: direct_def unsigned_eq_0_iff)
  obtain d where "file_block i (p div 1024) s = Some d" "length d = BLOCK_SIZE"
    using assms by (force simp: direct_def in_core_def)
  then show "\<exists>d. cached (uint (i_dev (inode_table s i))) (uint (i_zone (inode_table s i) ! (p div 1024))) s = Some d
          \<and> length d = BLOCK_SIZE \<and> file_block i (p div 1024) s = Some d"
    using fz nz by (simp add: file_block_def)
qed

lemma store_nth:
  "length d = n \<Longrightarrow> off + length cs \<le> n \<Longrightarrow> j < n \<Longrightarrow>
   store off cs d ! j = (if off \<le> j \<and> j < off + length cs then cs ! (j - off) else d ! j)"
  by (auto simp: store_def nth_append min_def)

lemma length_store [simp]: "off + length cs \<le> length d \<Longrightarrow> length (store off cs d) = length d"
  by (simp add: store_def)

lemma same_block: "(p::nat) div 1024 = pos div 1024 \<Longrightarrow> pos mod 1024 + c \<le> 1024 \<Longrightarrow>
    (pos mod 1024 \<le> p mod 1024 \<and> p mod 1024 < pos mod 1024 + c \<longleftrightarrow> pos \<le> p \<and> p < pos + c)
    \<and> (pos \<le> p \<longrightarrow> p mod 1024 - pos mod 1024 = p - pos)"
proof -
  assume a: "p div 1024 = pos div 1024" "pos mod 1024 + c \<le> 1024"
  have "p = pos div 1024 * 1024 + p mod 1024" "pos = pos div 1024 * 1024 + pos mod 1024"
    using div_mult_mod_eq [of p 1024] div_mult_mod_eq [of pos 1024] a(1) by metis+
  then show ?thesis by linarith
qed

lemma other_block: "(p::nat) div 1024 \<noteq> pos div 1024 \<Longrightarrow> pos mod 1024 + c \<le> 1024 \<Longrightarrow> \<not> (pos \<le> p \<and> p < pos + c)"
proof -
  assume a: "p div 1024 \<noteq> pos div 1024" "pos mod 1024 + c \<le> 1024"
  have "p = p div 1024 * 1024 + p mod 1024" "pos = pos div 1024 * 1024 + pos mod 1024" "p mod 1024 < 1024" by simp_all
  with a show ?thesis by (cases "p div 1024 < pos div 1024") linarith+
qed

text \<open>Storing \<open>cs\<close> at \<open>pos\<close> in the buffer of that block of the file.\<close>

lemma store_in_file:
  fixes s s' :: "'a fs_scheme"
  assumes dir: "direct i q m s" and pos: "pos \<in> {q..<q + m}" and cs: "pos mod 1024 + length cs \<le> 1024"
    and b: "find_buffer (uint (i_dev (inode_table s i))) (uint (i_zone (inode_table s i) ! (pos div 1024))) s = Some (Some b)"
    and s': "buffers s' = (buffers s)(b := (buffers s b)\<lparr>b_data := store (pos mod 1024) cs (b_data (buffers s b)), b_dirt := True\<rparr>)"
      "hash_table s' = hash_table s" "buffer_wait s' = buffer_wait s"
      "i_zone (inode_table s' i) = i_zone (inode_table s i)" "i_dev (inode_table s' i) = i_dev (inode_table s i)"
  shows "direct i q m s'"
    and "p \<in> {q..<q + m} \<Longrightarrow> file_byte i p s' = (if pos \<le> p \<and> p < pos + length cs then cs ! (p - pos) else file_byte i p s)"
proof -
  define z dev where "z = i_zone (inode_table s i)" and "dev = uint (i_dev (inode_table s i))"
  obtain d where d: "cached dev (uint (z ! (pos div 1024))) s = Some d" "length d = BLOCK_SIZE"
      "file_block i (pos div 1024) s = Some d" using directD(3) [OF dir pos] by (auto simp: z_def dev_def)
  have bd: "b_data (buffers s b) = d" using d(1) b by (auto simp: cached_def z_def dev_def Let_def split: if_splits)
  have lt: "uint w < 2 ^ 16" for w :: u16 using uint_lt2p [of w] by simp
  have c': "cached dev (uint w) s' = (if w = z ! (pos div 1024) then Some (store (pos mod 1024) cs d) else cached dev (uint w) s)" for w
    using cached_store [OF b [folded z_def dev_def] d(1) s'(1,2), of "uint w"] lt bd
    by (simp add: word_uint_eq_iff)
  have kpos: "pos div 1024 < 7" using dir pos by (auto simp: direct_def)
  have fb: "file_block i (p div 1024) s' = (if p div 1024 = pos div 1024 then Some (store (pos mod 1024) cs d) else file_block i (p div 1024) s)"
    if p: "p \<in> {q..<q + m}" for p
  proof -
    have k: "p div 1024 < 7" using dir p by (auto simp: direct_def)
    have nz: "uint (z ! (p div 1024)) \<noteq> 0" using directD(2) [OF dir p] by (simp add: z_def)
    have inj: "z ! (p div 1024) = z ! (pos div 1024) \<longleftrightarrow> p div 1024 = pos div 1024"
    proof
      have "z ! (p div 1024) \<noteq> 0" using dir p unfolding direct_def z_def by blast
      moreover assume "z ! (p div 1024) = z ! (pos div 1024)"
      ultimately show "p div 1024 = pos div 1024" using dir k kpos unfolding direct_def z_def by blast
    qed simp
    show ?thesis
      using k nz c' [of "z ! (p div 1024)"] inj s'(4,5) by (simp add: file_block_def file_zone_def zone_of_def z_def dev_def)
  qed
  have "\<exists>d. file_block i (p div 1024) s' = Some d \<and> length d = BLOCK_SIZE" if "p \<in> {q..<q + m}" for p
    using fb [OF that] directD(3) [OF dir that] d(2) cs by auto
  then show "direct i q m s'" using dir unfolding direct_def in_core_def s'(3,4) by blast
  show "file_byte i p s' = (if pos \<le> p \<and> p < pos + length cs then cs ! (p - pos) else file_byte i p s)" if p: "p \<in> {q..<q + m}"
  proof (cases "p div 1024 = pos div 1024")
    case True
    then have "file_byte i p s' = store (pos mod 1024) cs d ! (p mod 1024)" using fb [OF p] by (simp add: file_byte_def)
    also have "\<dots> = (if pos \<le> p \<and> p < pos + length cs then cs ! (p - pos) else d ! (p mod 1024))"
      using store_nth [OF d(2) cs, of "p mod 1024"] same_block [OF True cs] by auto
    finally show ?thesis using True d(3) by (simp add: file_byte_def)
  next
    case False
    then show ?thesis using fb [OF p] other_block [OF False cs] by (auto simp: file_byte_def)
  qed
qed

text \<open>The bytes of a file after \<open>cs\<close> is written at \<open>pos\<close>, and what a write may change besides.\<close>

definition written :: "nat \<Rightarrow> nat \<Rightarrow> nat \<Rightarrow> nat \<Rightarrow> u8 list \<Rightarrow> 'a fs_scheme \<Rightarrow> 'a fs_scheme \<Rightarrow> bool" where
  "written i q m pos cs s s' \<longleftrightarrow>
     (\<forall>p \<in> {q..<q + m}. file_byte i p s' = (if pos \<le> p \<and> p < pos + length cs then cs ! (p - pos) else file_byte i p s))
     \<and> i_size (inode_table s' i) = (if cs = [] then i_size (inode_table s i)
                                   else max (i_size (inode_table s i)) (of_nat (pos + length cs)))
     \<and> (\<exists>B x y. s' = s\<lparr>buffers := B, inode_table := (inode_table s)(i := (inode_table s i)\<lparr>i_size := x, i_dirt := y\<rparr>)\<rparr>)"

lemma written_refl: "written i q m pos [] s s"
  unfolding written_def
  by (auto intro!: exI [of _ "buffers s"] exI [of _ "i_size (inode_table s i)"] exI [of _ "i_dirt (inode_table s i)"])

lemma written_append:
  assumes "written i q m pos cs s s1" and "written i q m (pos + length cs) ds s1 s2" and "pos + length cs + length ds < 2 ^ 31"
  shows "written i q m pos (cs @ ds) s s2"
proof -
  have le: "(of_nat (pos + length cs) :: u32) \<le> of_nat (pos + length cs + length ds)"
    using assms(3) by (simp only: word_le_nat_alt unat_of_nat) simp
  from assms(1) obtain B x y where s1: "s1 = s\<lparr>buffers := B, inode_table := (inode_table s)(i := (inode_table s i)\<lparr>i_size := x, i_dirt := y\<rparr>)\<rparr>"
    by (auto simp: written_def)
  from assms(2) obtain B' x' y' where s2: "s2 = s1\<lparr>buffers := B', inode_table := (inode_table s1)(i := (inode_table s1 i)\<lparr>i_size := x', i_dirt := y'\<rparr>)\<rparr>"
    by (auto simp: written_def)
  have "file_byte i p s2 = (if pos \<le> p \<and> p < pos + length (cs @ ds) then (cs @ ds) ! (p - pos) else file_byte i p s)"
    if "p \<in> {q..<q + m}" for p
  proof -
    have "file_byte i p s1 = (if pos \<le> p \<and> p < pos + length cs then cs ! (p - pos) else file_byte i p s)"
      "file_byte i p s2 = (if pos + length cs \<le> p \<and> p < pos + length cs + length ds then ds ! (p - (pos + length cs))
         else file_byte i p s1)"
      using assms(1,2) that unfolding written_def by blast+
    then show ?thesis by (auto simp: nth_append)
  qed
  moreover have "i_size (inode_table s2 i) = (if cs @ ds = [] then i_size (inode_table s i)
      else max (i_size (inode_table s i)) (of_nat (pos + length (cs @ ds))))"
    using assms(1,2) le unfolding written_def by (cases "cs = []"; cases "ds = []") (simp_all add: add.assoc max.assoc max_absorb2)
  moreover have "s2 = s\<lparr>buffers := B', inode_table := (inode_table s)(i := (inode_table s i)\<lparr>i_size := x', i_dirt := y'\<rparr>)\<rparr>"
    unfolding s2 s1 by simp
  ultimately show ?thesis unfolding written_def by blast
qed

lemma file_write_loop_correct:
  "direct i q m s \<Longrightarrow> q \<le> pos \<Longrightarrow> pos + r \<le> q + m \<Longrightarrow> n + r < 2 ^ 31 \<Longrightarrow>
   \<exists>s'. file_write_loop io i buf (int (n + r)) (int pos) (int n) s = Some (int (pos + r), int (n + r), s')
     \<and> direct i q m s' \<and> written i q m pos (read_bytes buf r (umem s)) s s'"
proof (induction r arbitrary: pos n buf s rule: less_induct)
  case (less r)
  show ?case
  proof (cases "r = 0")
    case True
    then show ?thesis using less.prems(1) written_refl by (subst file_write_loop.simps) simp
  next
    case False
    define off c where "off = pos mod 1024" and "c = min (1024 - off) r"
    define dev z where "dev = uint (i_dev (inode_table s i))" and "z = uint (i_zone (inode_table s i) ! (pos div 1024))"
    have "off < 1024" by (simp add: off_def)
    then have c: "0 < c" "c \<le> r" "off + c \<le> 1024" using False by (auto simp: c_def)
    have chars: "min (1024 - int off) (int (n + r) - int n) = int c" using \<open>off < 1024\<close> by (auto simp: c_def)
    have lim: "pos + r \<le> 7168" using less.prems(1,3) by (simp add: direct_def)
    have pos: "int pos smod 1024 = int off" "int pos sdiv 1024 = int (pos div 1024)"
      by (simp_all add: off_def int_sdiv_pos int_smod_pos zdiv_int zmod_int)
    have wrap: "wrap32 (int (pos + c)) = int (pos + c)" using lim c by (simp add: wrap32_id)
    have p: "pos \<in> {q..<q + m}" using less.prems(2,3) False by simp
    have w: "buffer_wait s = None" using less.prems(1) by (simp add: direct_def in_core_def)
    note dD = directD [OF less.prems(1) p, folded dev_def z_def]
    from dD(3) obtain d where d: "cached dev z s = Some d" "length d = BLOCK_SIZE" by blast
    from bread_cached [OF d(1) w, of io] obtain b where b: "bread io dev z s = Some (Some b, hold b s)"
      "find_buffer dev z s = Some (Some b)" "\<not> b_lock (buffers s b)" "b_count (buffers s b) \<noteq> 255" by blast
    define cs where "cs = read_bytes buf c (umem s)"
    define B where "B = (buffers s)(b := (buffers s b)\<lparr>b_data := store off cs (b_data (buffers s b)), b_dirt := True\<rparr>)"
    define big where "big \<longleftrightarrow> of_nat (pos + c) > i_size (inode_table s i)"
    define T where "T = (if big then (inode_table s)(i := (inode_table s i)\<lparr>i_size := of_nat (pos + c), i_dirt := True\<rparr>)
                         else inode_table s)"
    define s1 where "s1 = s\<lparr>buffers := B, inode_table := T\<rparr>"
    have rel: "brelse io (Some b) (hold b s1) = Some s1"
      using b(3,4) w by (intro release_hold) (simp_all add: s1_def B_def)
    have "file_write_loop io i buf (int (n + r)) (int pos) (int n) s
        = file_write_loop io i (buf + of_nat c) (int (n + r)) (int (pos + c)) (int (n + c)) s1"
    proof -
      have swap: "x\<lparr>b_data := D, b_dirt := True, b_count := k\<rparr> = x\<lparr>b_count := k, b_dirt := True, b_data := D\<rparr>" for x D k
        by (cases x) simp
      have "update_bh b (\<lambda>x. x\<lparr>b_data := store off cs (b_data x)\<rparr>)
          (if big then update_inode i (\<lambda>x. x\<lparr>i_size := of_nat (pos + c), i_dirt := True\<rparr>) (update_bh b (b_dirt_update (\<lambda>_. True)) (hold b s))
           else update_bh b (b_dirt_update (\<lambda>_. True)) (hold b s)) = hold b s1"
        by (simp add: s1_def B_def T_def update_inode_def update_bh_def swap)
      moreover have "umem (if big then update_inode i g (update_bh b h (hold b s)) else update_bh b h (hold b s)) = umem s" for g h
        by (simp add: update_inode_def)
      ultimately show ?thesis
        using False create_block_cached [OF dD(1,2) w, of io] b(1) rel dD(2)
        by (subst file_write_loop.simps)
          (cases big; simp add: pos wrap chars dev_def [symmetric] big_def [symmetric] from_user_def cs_def [symmetric] Let_def
            of_nat_add [symmetric] del: of_nat_add of_nat_min)
    qed
    moreover have st: "direct i q m s1" "\<And>p. p \<in> {q..<q + m} \<Longrightarrow>
        file_byte i p s1 = (if pos \<le> p \<and> p < pos + length cs then cs ! (p - pos) else file_byte i p s)"
      using store_in_file [OF less.prems(1) p _ b(2) [unfolded dev_def z_def], of cs s1] c(3)
      by (simp_all add: s1_def B_def T_def off_def cs_def)
    have "written i q m pos cs s s1"
    proof -
      have "T = (inode_table s)(i := (inode_table s i)\<lparr>i_size := if big then of_nat (pos + c) else i_size (inode_table s i),
          i_dirt := big \<or> i_dirt (inode_table s i)\<rparr>)"
        by (cases big) (simp_all add: T_def)
      moreover have "i_size (inode_table s1 i) = max (i_size (inode_table s i)) (of_nat (pos + length cs))"
        by (auto simp: s1_def T_def big_def cs_def max_def not_less)
      moreover have "cs \<noteq> []" using c(1) by (metis cs_def length_read_bytes list.size(3) less_irrefl)
      ultimately show ?thesis unfolding written_def s1_def using st(2) [unfolded s1_def] by auto
    qed
    moreover have "\<exists>s'. file_write_loop io i (buf + of_nat c) (int ((n + c) + (r - c))) (int (pos + c)) (int (n + c)) s1
        = Some (int ((pos + c) + (r - c)), int ((n + c) + (r - c)), s') \<and> direct i q m s'
        \<and> written i q m (pos + c) (read_bytes (buf + of_nat c) (r - c) (umem s1)) s1 s'"
      by (rule less.IH) (use st(1) less.prems(2-4) c False in simp_all)
    then obtain s' where "file_write_loop io i (buf + of_nat c) (int ((n + c) + (r - c))) (int (pos + c)) (int (n + c)) s1
        = Some (int ((pos + c) + (r - c)), int ((n + c) + (r - c)), s')" "direct i q m s'"
        "written i q m (pos + c) (read_bytes (buf + of_nat c) (r - c) (umem s1)) s1 s'" by blast
    moreover have "read_bytes buf r (umem s) = cs @ read_bytes (buf + of_nat c) (r - c) (umem s1)"
      using read_bytes_append [of buf c "r - c" "umem s"] c(2) by (simp add: cs_def s1_def)
    ultimately show ?thesis
      using c(2) lim written_append [of i q m pos cs s s1 "read_bytes (buf + of_nat c) (r - c) (umem s1)" s']
      by (intro exI [of _ s']) (simp add: cs_def)
  qed
qed

lemma written_frame:
  assumes "written i q m pos cs s s'"
  shows "umem s' = umem s" "file_table s' = file_table s" "i_mode (inode_table s' i) = i_mode (inode_table s i)"
    "i_zone (inode_table s' i) = i_zone (inode_table s i)" "buffer_wait s' = buffer_wait s"
  using assms by (auto simp: written_def)

lemma file_write_spec:
  assumes dir: "direct i q m s" and pos: "f_pos (file_table s f) = int pos" "q \<le> pos" "pos + n \<le> q + m" and n: "0 < n"
    and app: "f_flags (file_table s f) AND 0x400 = 0"
  shows "\<exists>s'. file_write io i f buf (int n) s = Some (int n, s') \<and> direct i q m s'
    \<and> (\<forall>p \<in> {q..<q + m}. file_byte i p s' = (if pos \<le> p \<and> p < pos + n then umem s (buf + of_nat (p - pos)) else file_byte i p s))
    \<and> i_size (inode_table s' i) = max (i_size (inode_table s i)) (of_nat (pos + n))
    \<and> file_table s' = (file_table s)(f := (file_table s f)\<lparr>f_pos := int (pos + n)\<rparr>)
    \<and> umem s' = umem s \<and> (\<forall>j. j \<noteq> i \<longrightarrow> inode_table s' j = inode_table s j)"
proof -
  have "0 + n < 2 ^ 31" using dir pos(3) by (auto simp: direct_def)
  from file_write_loop_correct [OF dir pos(2,3) this, of io buf] obtain s1 where
    l: "file_write_loop io i buf (int n) (int pos) 0 s = Some (int (pos + n), int n, s1)"
    and d1: "direct i q m s1" and w: "written i q m pos (read_bytes buf n (umem s)) s s1" by auto
  define now where "now = (of_int (CURRENT_TIME s1) :: u32)"
  define s' where "s' = update_inode i (i_ctime_update (\<lambda>_. now))
    (update_file f (f_pos_update (\<lambda>_. int (pos + n))) (update_inode i (i_mtime_update (\<lambda>_. now)) s1))"
  have ft: "file_table s1 = file_table s" by (rule written_frame(2) [OF w])
  have "file_write io i f buf (int n) s = Some (int n, s')"
    using n by (simp add: file_write_def app pos(1) l Let_def s'_def now_def update_inode_def update_file_def ft)
  moreover have z: "i_zone (inode_table s' i) = i_zone (inode_table s1 i)" "i_dev (inode_table s' i) = i_dev (inode_table s1 i)"
      "buffers s' = buffers s1" "hash_table s' = hash_table s1" "buffer_wait s' = buffer_wait s1"
      "i_size (inode_table s' i) = i_size (inode_table s1 i)"
    by (simp_all add: s'_def update_inode_def update_file_def)
  then have "direct i q m s'" using d1 unfolding direct_def in_core_cong(1) [OF z(3,4,5,1,2)] z(1) by blast
  moreover have "file_byte i p s' = file_byte i p s1" for p
    unfolding file_byte_def file_block_cong [OF z(3,4,1,2)] ..
  then have "\<forall>p \<in> {q..<q + m}. file_byte i p s' = (if pos \<le> p \<and> p < pos + n then umem s (buf + of_nat (p - pos)) else file_byte i p s)"
    using w by (auto simp: written_def read_bytes_def)
  moreover have "i_size (inode_table s' i) = max (i_size (inode_table s i)) (of_nat (pos + n))"
    using w n z(6) by (auto simp: written_def read_bytes_def)
  moreover have "file_table s' = (file_table s)(f := (file_table s f)\<lparr>f_pos := int (pos + n)\<rparr>)" "umem s' = umem s"
    using ft written_frame(1) [OF w] by (simp_all add: s'_def update_inode_def update_file_def)
  moreover have "j \<noteq> i \<Longrightarrow> inode_table s' j = inode_table s j" for j
    using w by (auto simp: s'_def update_inode_def update_file_def written_def)
  ultimately show ?thesis by blast
qed


lemma file_read_spec:
  assumes "in_core i pos n s" and "f_pos (file_table s f) = int pos" and "pos + n < 2 ^ 31" and "0 < n"
  shows "\<exists>s'. file_read io i f buf (int n) s = Some (int n, s') \<and> umem s' = write_bytes (file_bytes i pos n s) buf (umem s)"
  using assms(4) by (simp add: file_read_def file_read_loop_correct [OF assms(1-3)] update_inode_def)


lemma boot_fs_direct: "direct 2 0 1024 boot_fs"
proof -
  have "p div 1024 = 0" if "p \<in> {0..<0 + 1024}" for p :: nat using that by simp
  then have z: "i_zone (inode_table boot_fs 2) ! (p div 1024) \<noteq> 0" if "p \<in> {0..<0 + 1024}" for p
    using that by (simp add: boot_fs_fields)
  have "i_zone (inode_table boot_fs 2) ! j = (if j = 0 then 3 else 0)" if "j < 7" for j
    using that by (simp add: boot_fs_fields nth_Cons' )
  then show ?thesis using z boot_fs_in_core [of 0 1024] unfolding direct_def by auto
qed



text \<open>
  C32. \<open>bmap\<close> computes the block map of the file: for a block with its indirect blocks in the cache it
  returns the entry of \<open>i_zone\<close>, of the indirect block, or of the doubly indirect one, 0 for a hole, and
  leaves the whole state as it was, every buffer it read released.
\<close>

theorem bmap_correct:
  assumes "file_zone i k s = Some n" and "buffer_wait s = None"
  shows "bmap io i (int k) s = Some (n, s)"
  using assms by (rule bmap_cached)

theorem bmap_correct_witness: "bmap fs_io 2 (int 0) boot_fs = Some (3, boot_fs)"
proof -
  have "file_zone 2 0 boot_fs = Some 3" "buffer_wait boot_fs = None"
    by (simp_all add: file_zone_def zone_of_def boot_fs_fields)
  then show ?thesis by (rule bmap_correct)
qed

end
