(* ===== verification/Fork_Correct.thy ===== *)
theory Fork_Correct
  imports Fork Mem_Frame Cached_Files
begin

text \<open>
  \<open>find_empty_process\<close> returns, and returns a fresh process number; what a \<open>fork\<close> that succeeds and
  one that fails leave of the task table; and the invariant of the counts of open files, which
  \<open>fork\<close>, \<open>dup\<close> and \<open>close\<close> keep.
\<close>

subsection \<open>A fresh process number\<close>

definition MAX_PID :: int where "MAX_PID = 2 ^ 31 - 1"

lemma next_pid_mod: "0 \<le> p \<Longrightarrow> p \<le> MAX_PID \<Longrightarrow> next_pid p = p mod MAX_PID + 1"
proof -
  assume p: "0 \<le> p" "p \<le> MAX_PID"
  consider "p = MAX_PID" | "p < MAX_PID" using p by linarith
  then show "next_pid p = p mod MAX_PID + 1"
  proof cases
    case 1
    then show ?thesis by (simp add: next_pid_def wrap32_def MAX_PID_def signed_take_bit_eq_take_bit_minus take_bit_eq_mod)
  next
    case 2
    with p have "wrap32 (p + 1) = p + 1" by (intro wrap32_id) (simp_all add: MAX_PID_def)
    with 2 p show ?thesis by (simp add: next_pid_def)
  qed
qed

lemma next_pid_iterate:
  "0 \<le> p \<Longrightarrow> p \<le> MAX_PID \<Longrightarrow> (next_pid ^^ Suc k) p = (p + int k) mod MAX_PID + 1"
proof (induction k)
  case 0
  then show ?case by (simp add: next_pid_mod)
next
  case (Suc k)
  have M: "0 < MAX_PID" by (simp add: MAX_PID_def)
  have "(next_pid ^^ Suc (Suc k)) p = next_pid ((p + int k) mod MAX_PID + 1)" using Suc by simp
  also have "\<dots> = ((p + int k) mod MAX_PID + 1) mod MAX_PID + 1"
    using pos_mod_bound [OF M, of "p + int k"] pos_mod_sign [OF M, of "p + int k"] by (intro next_pid_mod) simp_all
  also have "\<dots> = (p + int (Suc k)) mod MAX_PID + 1" by (simp add: mod_simps algebra_simps)
  finally show ?case .
qed

lemma pid_used_iff: "pid_used pid s \<longleftrightarrow> (\<exists>i < NR_TASKS. \<exists>p. task s ! i = Some p \<and> t_pid (tasks s p) = pid)"
  by (auto simp: pid_used_def list_ex_iff split: option.splits)

lemma pid_used_last_pid [simp]: "pid_used pid (s\<lparr>last_pid := l\<rparr>) = pid_used pid s"
  by (simp add: pid_used_iff)

text \<open>Of 65 candidates in a row one is free, because they are different and there are 64 tasks.\<close>

lemma some_pid_free:
  assumes "0 \<le> p" and "p \<le> MAX_PID"
  shows "\<exists>k \<le> NR_TASKS. \<not> pid_used ((next_pid ^^ Suc k) p) s"
proof (rule ccontr)
  assume "\<not> ?thesis"
  then have used: "pid_used ((p + int k) mod MAX_PID + 1) s" if "k \<le> NR_TASKS" for k
    using that next_pid_iterate [OF assms] by metis
  let ?c = "\<lambda>k. (p + int k) mod MAX_PID + 1" and ?pids = "(\<lambda>i. t_pid (tasks s (the (task s ! i)))) ` {0..<NR_TASKS}"
  have "inj_on ?c {0..NR_TASKS}"
  proof (rule inj_onI)
    fix j k assume jk: "j \<in> {0..NR_TASKS}" "k \<in> {0..NR_TASKS}" and "?c j = ?c k"
    then have "(p + int j) mod MAX_PID = (p + int k) mod MAX_PID" by simp
    then have "MAX_PID dvd int j - int k" by (metis add_diff_cancel_left mod_eq_dvd_iff)
    then obtain q where q: "int j - int k = MAX_PID * q" by (elim dvdE)
    have "q = 0"
    proof (rule ccontr)
      assume "q \<noteq> 0"
      then have "MAX_PID \<le> \<bar>MAX_PID * q\<bar>" by (auto simp: abs_mult MAX_PID_def)
      with q jk show False by (simp add: MAX_PID_def)
    qed
    with q show "j = k" by simp
  qed
  then have "card (?c ` {0..NR_TASKS}) = 65" by (simp add: card_image)
  moreover have "?c ` {0..NR_TASKS} \<subseteq> ?pids"
  proof (rule image_subsetI)
    fix k assume "k \<in> {0..NR_TASKS}"
    with used [of k] obtain i p where "i < NR_TASKS" "task s ! i = Some p" "t_pid (tasks s p) = ?c k"
      by (auto simp: pid_used_iff)
    then show "?c k \<in> ?pids" by (intro image_eqI [of _ _ i]) simp_all
  qed
  then have "card (?c ` {0..NR_TASKS}) \<le> card ?pids" by (intro card_mono) simp_all
  moreover have "card ?pids \<le> 64" using card_image_le [of "{0..<NR_TASKS}"] by simp
  ultimately show False by linarith
qed

lemma new_pid_iterate:
  "(\<forall>j < k. pid_used ((next_pid ^^ Suc j) (last_pid s)) s) \<Longrightarrow> \<not> pid_used ((next_pid ^^ Suc k) (last_pid s)) s
   \<Longrightarrow> new_pid s = Some (s\<lparr>last_pid := (next_pid ^^ Suc k) (last_pid s)\<rparr>)"
proof (induction k arbitrary: s)
  case 0
  then show ?case by (subst new_pid.simps) (simp add: Let_def)
next
  case (Suc k)
  let ?s = "s\<lparr>last_pid := next_pid (last_pid s)\<rparr>"
  have "pid_used (next_pid (last_pid s)) s" using Suc.prems(1) by (force dest: spec [of _ 0])
  then have "new_pid s = new_pid ?s" by (subst new_pid.simps) (simp add: Let_def)
  also have "\<dots> = Some (?s\<lparr>last_pid := (next_pid ^^ Suc k) (last_pid ?s)\<rparr>)"
  proof (rule Suc.IH)
    show "\<forall>j < k. pid_used ((next_pid ^^ Suc j) (last_pid ?s)) ?s"
    proof (intro allI impI)
      fix j assume "j < k"
      with Suc.prems(1) have "pid_used ((next_pid ^^ Suc (Suc j)) (last_pid s)) s" by blast
      then show "pid_used ((next_pid ^^ Suc j) (last_pid ?s)) ?s" by (simp add: funpow_swap1)
    qed
    show "\<not> pid_used ((next_pid ^^ Suc k) (last_pid ?s)) ?s" using Suc.prems(2) by (simp add: funpow_swap1)
  qed
  finally show ?case by (simp add: funpow_swap1)
qed

lemma find_empty_process_spec:
  assumes "0 \<le> last_pid s" and "last_pid s \<le> MAX_PID"
  shows "\<exists>pid. 0 < pid \<and> pid \<le> MAX_PID \<and> \<not> pid_used pid s
    \<and> find_empty_process s = Some (case List.find (\<lambda>i. task s ! i = None) [1..<NR_TASKS] of
         Some i \<Rightarrow> int i | None \<Rightarrow> -EAGAIN, s\<lparr>last_pid := pid\<rparr>)"
proof -
  define k where "k = (LEAST k. \<not> pid_used ((next_pid ^^ Suc k) (last_pid s)) s)"
  have k: "\<not> pid_used ((next_pid ^^ Suc k) (last_pid s)) s"
    unfolding k_def using some_pid_free [OF assms, of s] by (metis (mono_tags, lifting) LeastI)
  moreover have "\<forall>j < k. pid_used ((next_pid ^^ Suc j) (last_pid s)) s"
    unfolding k_def using not_less_Least by blast
  ultimately have new: "new_pid s = Some (s\<lparr>last_pid := (next_pid ^^ Suc k) (last_pid s)\<rparr>)"
    by (intro new_pid_iterate)
  have "0 < (next_pid ^^ Suc k) (last_pid s) \<and> (next_pid ^^ Suc k) (last_pid s) \<le> MAX_PID"
    unfolding next_pid_iterate [OF assms]
    using pos_mod_sign [of MAX_PID "last_pid s + int k"] pos_mod_bound [of MAX_PID "last_pid s + int k"]
    by (simp add: MAX_PID_def)
  with k show ?thesis
    by (intro exI [of _ "(next_pid ^^ Suc k) (last_pid s)"])
      (simp add: find_empty_process_def new split: option.split)
qed

subsection \<open>\<open>fork\<close>\<close>

text \<open>The effects of the counting loops, in closed form.\<close>

lemma inc_files:
  "fold inc_file fs s = s\<lparr>file_table := (\<lambda>f. (file_table s f)\<lparr>f_count := f_count (file_table s f) + of_nat (count_list fs (Some f))\<rparr>)\<rparr>"
proof (induction fs arbitrary: s)
  case (Cons g fs)
  have "inc_file g s = s\<lparr>file_table := (\<lambda>f. (file_table s f)\<lparr>f_count := f_count (file_table s f) + (if g = Some f then 1 else 0)\<rparr>)\<rparr>"
    by (cases g) (auto simp: inc_file_def update_file_def fun_eq_iff intro!: fs.fold_congs)
  then show ?case by (simp add: Cons.IH fun_eq_iff algebra_simps)
qed simp

lemma inc_inode_eq:
  "inc_inode i s = s\<lparr>inode_table := (\<lambda>j. (inode_table s j)\<lparr>i_count := i_count (inode_table s j) + (if i = Some j then 1 else 0)\<rparr>)\<rparr>"
  by (cases i) (auto simp: inc_inode_def update_inode_def fun_eq_iff intro!: fs.fold_congs)

lemma mem_only_copy_mem:
  assumes "copy_mem nr p s = Some (e, s')"
  shows "mem_only (update_task p (set_bases (of_nat nr * 0x4000000)) s) s'"
  using assms
  by (auto simp: copy_mem_def Let_def bind_eq_Some_conv split: if_splits
      dest!: mem_only_copy_page_tables mem_only_free_page_tables intro: mem_only_trans)

text \<open>What a call of \<open>copy_process\<close> leaves, apart from the page map and physical memory.\<close>

definition forked :: "nat \<Rightarrow> nat \<Rightarrow> fork_regs \<Rightarrow> 'a kern_scheme \<Rightarrow> 'a kern_scheme" where
  "forked nr i r s =
     (let p = unat (page_addr i); t = cur_task s
      in s\<lparr>task := (task s)[nr := Some p],
           tasks := (tasks s)(p := (set_bases (of_nat nr * 0x4000000)
             (child_task nr (page_addr i) r (last_pid s) (jiffies s) t))\<lparr>t_state := TASK_RUNNING\<rparr>),
           file_table := (\<lambda>f. (file_table s f)\<lparr>f_count := f_count (file_table s f) + of_nat (count_list (t_filp t) (Some f))\<rparr>),
           inode_table := (\<lambda>j. (inode_table s j)\<lparr>i_count := i_count (inode_table s j)
             + of_nat (count_list [t_pwd t, t_root t, t_executable t] (Some j))\<rparr>),
           gdt := gdt (set_descs nr (page_addr i) s)\<rparr>)"

lemma copy_process_cases:
  assumes ok: "mm_ok s" and eq: "copy_process nr r s = Some (v, s')"
    and cur: "\<forall>i < PAGING_PAGES. mem_map s ! i = 0 \<longrightarrow> current s \<noteq> unat (page_addr i)"
  obtains (none) "v = -EAGAIN" "s' = s" "\<forall>i < PAGING_PAGES. mem_map s ! i \<noteq> 0"
  | (no_tables) i t where "v = -EAGAIN" "i < PAGING_PAGES" "mem_map s ! i = 0"
      "mem_only (s\<lparr>task := (task s)[nr := None], tasks := (tasks s)(unat (page_addr i) := t)\<rparr>) s'"
  | (success) i where "v = last_pid s" "i < PAGING_PAGES" "mem_map s ! i = 0" "mem_only (forked nr i r s) s'"
  using ok
proof (cases rule: get_free_page_cases)
  case none
  with eq that(1) show ?thesis by (simp add: copy_process_def)
next
  case (some i)
  let ?p = "unat (page_addr i)"
  let ?s1 = "clear_page (page_addr i) (set_map i 1 s)"
  obtain m1 p1 where s1: "?s1 = s\<lparr>mem_map := m1, phys := p1\<rparr>"
    using mem_onlyE [OF mem_only_get_free_page [OF some(4)]] .
  let ?child = "child_task nr (page_addr i) r (last_pid s) (jiffies s) (cur_task s)"
  let ?s3 = "update_task ?p (\<lambda>_. ?child) (s\<lparr>mem_map := m1, phys := p1, task := (task s)[nr := Some ?p]\<rparr>)"
  have cur': "current s \<noteq> ?p" using cur some(1,2) by blast
  obtain e s4 where cm: "copy_mem nr ?p ?s3 = Some (e, s4)"
    using eq some by (auto simp: copy_process_def s1 bind_eq_Some_conv Let_def)
  obtain m4 p4 where s4: "s4 = (update_task ?p (set_bases (of_nat nr * 0x4000000)) ?s3)\<lparr>mem_map := m4, phys := p4\<rparr>"
    using mem_onlyE [OF mem_only_copy_mem [OF cm]] .
  show ?thesis
  proof (cases "e = 0")
    case False
    then have fp: "free_page (page_addr i) (s4\<lparr>task := (task s4)[nr := None]\<rparr>) = Some s'" and v: "v = -EAGAIN"
      using eq some cm by (auto simp: copy_process_def s1 bind_eq_Some_conv Let_def)
    obtain m5 p5 where "s' = s4\<lparr>task := (task s4)[nr := None], mem_map := m5, phys := p5\<rparr>"
      using mem_onlyE [OF mem_only_free_page [OF fp]] .
    then have "mem_only (s\<lparr>task := (task s)[nr := None], tasks := (tasks s)(?p := set_bases (of_nat nr * 0x4000000) ?child)\<rparr>) s'"
      by (intro mem_onlyI [where m = m5 and p = p5]) (cases s, simp add: s4 update_task_def)
    with that(2) v some(1,2) show ?thesis by blast
  next
    case True
    have v: "v = last_pid s" and s': "s' = set_state ?p TASK_RUNNING (set_descs nr (page_addr i)
        (inc_inode (t_executable (cur_task s)) (inc_inode (t_root (cur_task s)) (inc_inode (t_pwd (cur_task s))
          (fold inc_file (t_filp (cur_task s)) s4)))))"
      using eq some cm True cur'
      by (auto simp: copy_process_def s1 Let_def s4 update_task_def inc_files inc_inode_eq set_descs_def set_state_def
          set_bases_def child_task_def)
    have "mem_only (forked nr i r s) s'"
      unfolding s' by (rule mem_onlyI [where m = m4 and p = p4])
        (use cur' in \<open>cases s, simp add: s4 update_task_def inc_files inc_inode_eq set_descs_def set_state_def forked_def Let_def
          set_bases_def fun_eq_iff\<close>)
    with that(3) v some(1,2) show ?thesis by blast
  qed
qed

text \<open>No frame that the page map calls free holds a task structure.\<close>

definition tasks_used :: "'a mm_scheme \<Rightarrow> bool" where
  "tasks_used s \<longleftrightarrow> (\<forall>i < PAGING_PAGES. mem_map s ! i = 0 \<longrightarrow> unat (page_addr i) \<notin> insert (current s) (task_ptrs s))"

definition fork_ready :: "'a mm_scheme \<Rightarrow> bool" where
  "fork_ready s \<longleftrightarrow> mm_ok s \<and> length (task s) = NR_TASKS \<and> tasks_used s \<and> 0 \<le> last_pid s \<and> last_pid s \<le> MAX_PID"

text \<open>The first slot that is free, task 0's own slot apart.\<close>

definition lowest_free :: "nat \<Rightarrow> 'a sched_scheme \<Rightarrow> bool" where
  "lowest_free nr s \<longleftrightarrow> 1 \<le> nr \<and> nr < NR_TASKS \<and> task s ! nr = None \<and> (\<forall>j. 1 \<le> j \<and> j < nr \<longrightarrow> task s ! j \<noteq> None)"

lemma find_free_slot:
  "case List.find (\<lambda>i. task s ! i = None) [1..<NR_TASKS] of
     None \<Rightarrow> \<forall>i. 1 \<le> i \<and> i < NR_TASKS \<longrightarrow> task s ! i \<noteq> None
   | Some nr \<Rightarrow> lowest_free nr s"
proof (cases "List.find (\<lambda>i. task s ! i = None) [1..<NR_TASKS]")
  case None
  then have "\<forall>i. 1 \<le> i \<and> i < NR_TASKS \<longrightarrow> task s ! i \<noteq> None" by (auto simp: find_None_iff)
  with None show ?thesis by simp
next
  case (Some nr)
  then obtain k where k: "k < 63" "task s ! (Suc k) = None" "nr = Suc k" "\<forall>j < k. task s ! (Suc j) \<noteq> None"
    by (auto simp: find_Some_iff simp del: upt_Suc)
  have "task s ! j \<noteq> None" if "1 \<le> j" "j < nr" for j
    using k(3,4) that by (cases j) auto
  with k Some show ?thesis by (simp add: lowest_free_def)
qed

lemma sys_fork_cases:
  assumes ok: "fork_ready s" and eq: "sys_fork r s = Some (v, s')"
  obtains (fails) s1 where "v = -EAGAIN" "mem_only s1 s'" "task s1 = task s" "current s1 = current s"
      "file_table s1 = file_table s" "inode_table s1 = inode_table s"
      "\<forall>q \<in> insert (current s) (task_ptrs s). tasks s1 q = tasks s q" "0 < last_pid s1" "last_pid s1 \<le> MAX_PID"
  | (forks) nr i where "0 < v" "v \<le> MAX_PID" "\<not> pid_used v s" "lowest_free nr s" "i < PAGING_PAGES" "mem_map s ! i = 0"
      "unat (page_addr i) \<notin> insert (current s) (task_ptrs s)" "mem_only (forked nr i r (s\<lparr>last_pid := v\<rparr>)) s'"
proof -
  have ok': "mm_ok s" "0 \<le> last_pid s" "last_pid s \<le> MAX_PID" and
    tu: "i < PAGING_PAGES \<Longrightarrow> mem_map s ! i = 0 \<Longrightarrow> unat (page_addr i) \<notin> insert (current s) (task_ptrs s)" for i
    using ok by (auto simp: fork_ready_def tasks_used_def)
  obtain pid where pid: "0 < pid" "pid \<le> MAX_PID" "\<not> pid_used pid s" and
    f: "find_empty_process s = Some (case List.find (\<lambda>i. task s ! i = None) [1..<NR_TASKS] of
         Some i \<Rightarrow> int i | None \<Rightarrow> -EAGAIN, s\<lparr>last_pid := pid\<rparr>)"
    using find_empty_process_spec [OF ok'(2,3)] by blast
  show ?thesis
  proof (cases "List.find (\<lambda>i. task s ! i = None) [1..<NR_TASKS]")
    case None
    then have "v = -EAGAIN" "s' = s\<lparr>last_pid := pid\<rparr>" using eq f by (simp_all add: sys_fork_def)
    with pid show ?thesis by (intro fails [of "s\<lparr>last_pid := pid\<rparr>"]) simp_all
  next
    case (Some nr)
    let ?s = "s\<lparr>last_pid := pid\<rparr>"
    have nr: "lowest_free nr s" using find_free_slot [of s] Some by simp
    have cp: "copy_process nr r ?s = Some (v, s')" using eq f Some by (simp add: sys_fork_def)
    have mm: "mm_ok ?s" using ok'(1) by (simp add: mm_ok_def)
    have cur: "\<forall>i < PAGING_PAGES. mem_map ?s ! i = 0 \<longrightarrow> current ?s \<noteq> unat (page_addr i)"
    proof (intro allI impI)
      fix i assume "i < PAGING_PAGES" "mem_map ?s ! i = 0"
      then show "current ?s \<noteq> unat (page_addr i)" using tu [of i] by auto
    qed
    show ?thesis
      using mm cp cur
    proof (cases rule: copy_process_cases)
      case none
      with pid show ?thesis by (intro fails [of ?s]) simp_all
    next
      case (no_tables i t)
      have "(task s)[nr := None] = task s" using nr list_update_id [of "task s" nr] by (simp add: lowest_free_def)
      with no_tables tu [of i] pid show ?thesis
        by (intro fails [of "?s\<lparr>task := (task ?s)[nr := None], tasks := (tasks ?s)(unat (page_addr i) := t)\<rparr>"]) auto
    next
      case (success i)
      with nr pid tu [of i] show ?thesis by (intro forks [of nr i]) auto
    qed
  qed
qed



subsection \<open>The counts of open files\<close>

text \<open>The number of descriptors of the tasks in the table that refer to an open file.\<close>

definition task_refs :: "nat \<Rightarrow> nat option \<Rightarrow> 'a sched_scheme \<Rightarrow> nat" where
  "task_refs f p s = (case p of None \<Rightarrow> 0 | Some p \<Rightarrow> count_list (t_filp (tasks s p)) (Some f))"

definition file_refs :: "nat \<Rightarrow> 'a sched_scheme \<Rightarrow> nat" where
  "file_refs f s = (\<Sum>i \<in> {0..<NR_TASKS}. task_refs f (task s ! i) s)"

text \<open>
  The task table has 64 slots, no two for the same task, the current task is in it, every task has
  20 descriptors, and every count is the number of descriptors, modulo the 16 bits it has.
\<close>

definition table_ok :: "'a sched_scheme \<Rightarrow> bool" where
  "table_ok s \<longleftrightarrow> length (task s) = NR_TASKS \<and> current s \<in> task_ptrs s
     \<and> (\<forall>i < NR_TASKS. \<forall>j < NR_TASKS. task s ! i = task s ! j \<longrightarrow> task s ! i \<noteq> None \<longrightarrow> i = j)
     \<and> (\<forall>p \<in> task_ptrs s. length (t_filp (tasks s p)) = NR_OPEN)"

definition files_ok :: "'a fs_scheme \<Rightarrow> bool" where
  "files_ok s \<longleftrightarrow> table_ok s \<and> (\<forall>f. f_count (file_table s f) = of_nat (file_refs f s))"

lemma file_refs_cong:
  "task s' = task s \<Longrightarrow> (\<And>i p. i < NR_TASKS \<Longrightarrow> task s ! i = Some p \<Longrightarrow> t_filp (tasks s' p) = t_filp (tasks s p))
   \<Longrightarrow> file_refs f s' = file_refs f s"
  unfolding file_refs_def task_refs_def by (intro sum.cong) (auto split: option.split)

lemma file_refs_slot:
  assumes "length (task s) = NR_TASKS" and "nr < NR_TASKS" and "task s ! nr = None" and "p \<notin> task_ptrs s"
    and "task s' = (task s)[nr := Some p]" and "\<And>q. q \<noteq> p \<Longrightarrow> t_filp (tasks s' q) = t_filp (tasks s q)"
  shows "file_refs f s' = file_refs f s + count_list (t_filp (tasks s' p)) (Some f)"
proof -
  have "file_refs f s' = task_refs f (task s' ! nr) s' + (\<Sum>i \<in> {0..<NR_TASKS} - {nr}. task_refs f (task s' ! i) s')"
    unfolding file_refs_def using assms(2) by (intro sum.remove) simp_all
  also have "(\<Sum>i \<in> {0..<NR_TASKS} - {nr}. task_refs f (task s' ! i) s') = (\<Sum>i \<in> {0..<NR_TASKS} - {nr}. task_refs f (task s ! i) s)"
  proof (rule sum.cong)
    fix i assume i: "i \<in> {0..<NR_TASKS} - {nr}"
    have "task s ! i = Some q \<Longrightarrow> q \<noteq> p" for q using task_ptrsI [of s i q] i assms(1,4) by auto
    then show "task_refs f (task s' ! i) s' = task_refs f (task s ! i) s"
      using i assms(5,6) by (simp add: task_refs_def split: option.split)
  qed simp
  also have "task_refs f (task s' ! nr) s' = count_list (t_filp (tasks s' p)) (Some f)"
    using assms(1,2,5) by (simp add: task_refs_def)
  also have "(\<Sum>i \<in> {0..<NR_TASKS} - {nr}. task_refs f (task s ! i) s) = file_refs f s"
    unfolding file_refs_def using assms(2,3) sum.remove [of "{0..<NR_TASKS}" nr "\<lambda>i. task_refs f (task s ! i) s"]
    by (simp add: task_refs_def)
  finally show ?thesis by simp
qed

lemma task_ptrs_nth: "p \<in> task_ptrs s \<longleftrightarrow> (\<exists>i < length (task s). task s ! i = Some p)"
  by (auto simp: task_ptrs_def in_set_conv_nth)

lemma table_ok_cong:
  "table_ok s \<Longrightarrow> task s' = task s \<Longrightarrow> current s' = current s
   \<Longrightarrow> (\<And>p. p \<in> task_ptrs s \<Longrightarrow> length (t_filp (tasks s' p)) = length (t_filp (tasks s p))) \<Longrightarrow> table_ok s'"
  unfolding table_ok_def task_ptrs_def by simp

lemma files_ok_mem_only: "mem_only s s' \<Longrightarrow> files_ok s' = files_ok s"
  by (elim mem_onlyE) (simp add: files_ok_def table_ok_def task_ptrs_def file_refs_def task_refs_def cong: option.case_cong)

lemma forked_fields:
  "task (forked nr i r s) = (task s)[nr := Some (unat (page_addr i))]" "current (forked nr i r s) = current s"
  "t_filp (tasks (forked nr i r s) q) = (if q = unat (page_addr i) then t_filp (cur_task s) else t_filp (tasks s q))"
  "f_count (file_table (forked nr i r s) f) = f_count (file_table s f) + of_nat (count_list (t_filp (cur_task s)) (Some f))"
  by (simp_all add: forked_def Let_def set_bases_def child_task_def)

lemma table_ok_add:
  fixes s t :: "'a sched_scheme"
  assumes tb: "table_ok s" and nr: "nr < NR_TASKS" "task s ! nr = None" and p: "p \<notin> task_ptrs s"
    and t: "task t = (task s)[nr := Some p]" "current t = current s"
      "\<And>q. t_filp (tasks t q) = (if q = p then t_filp (cur_task s) else t_filp (tasks s q))"
  shows "table_ok t"
proof -
  have len: "length (task s) = NR_TASKS" and cur: "current s \<in> task_ptrs s" using tb by (simp_all add: table_ok_def)
  have other: "task s ! i \<noteq> Some p" if "i < NR_TASKS" for i using that p len task_ptrsI [of s i] by auto
  have ptrs: "task_ptrs t = insert p (task_ptrs s)"
  proof
    show "task_ptrs t \<subseteq> insert p (task_ptrs s)"
      unfolding task_ptrs_def t(1) using set_update_subset_insert [of "task s" nr "Some p"] by auto
    show "insert p (task_ptrs s) \<subseteq> task_ptrs t"
    proof
      fix q assume "q \<in> insert p (task_ptrs s)"
      then consider "q = p" | k where "k < NR_TASKS" "task s ! k = Some q" using len by (auto simp: task_ptrs_nth)
      then show "q \<in> task_ptrs t"
      proof cases
        case 1
        then show ?thesis unfolding task_ptrs_nth t(1) using nr(1) len by (intro exI [of _ nr]) simp
      next
        case 2
        with nr(2) have "k \<noteq> nr" by auto
        with 2 show ?thesis unfolding task_ptrs_nth t(1) using len by (intro exI [of _ k]) simp
      qed
    qed
  qed
  have inj: "j = k" if "j < NR_TASKS" "k < NR_TASKS" "task t ! j = task t ! k" "task t ! j \<noteq> None" for j k
  proof -
    have u: "task t ! l = (if l = nr then Some p else task s ! l)" if "l < NR_TASKS" for l
      unfolding t(1) using that len by (simp add: nth_list_update)
    show ?thesis using that tb other [of j] other [of k] unfolding table_ok_def by (auto simp: u split: if_splits)
  qed
  have "length (t_filp (tasks t q)) = NR_OPEN" if "q \<in> insert p (task_ptrs s)" for q
    using that cur tb by (auto simp: t(3) table_ok_def)
  with inj show ?thesis unfolding table_ok_def ptrs t(2) using cur len t(1) by simp
qed

lemma fork_files_ok:
  assumes ok: "fork_ready s" and inv: "files_ok s" and eq: "sys_fork r s = Some (v, s')"
  shows "files_ok s'"
  using ok eq
proof (cases rule: sys_fork_cases)
  case (fails s1)
  have len: "length (task s) = NR_TASKS" using ok by (simp add: fork_ready_def)
  have "file_refs f s1 = file_refs f s" for f
  proof (rule file_refs_cong [OF fails(3)])
    fix i p assume "i < NR_TASKS" "task s ! i = Some p"
    then have "p \<in> task_ptrs s" using len by (intro task_ptrsI) simp_all
    then show "t_filp (tasks s1 p) = t_filp (tasks s p)" using fails(7) by simp
  qed
  moreover have "table_ok s1"
    by (rule table_ok_cong [of s]) (use inv fails(3,4,7) in \<open>simp_all add: files_ok_def\<close>)
  ultimately have "files_ok s1" using inv fails(5) by (simp add: files_ok_def)
  with fails(2) show ?thesis by (simp add: files_ok_mem_only)
next
  case (forks nr i)
  let ?p = "unat (page_addr i)" and ?s = "s\<lparr>last_pid := v\<rparr>"
  let ?t = "forked nr i r ?s"
  have nr: "nr < NR_TASKS" "task s ! nr = None" "length (task s) = NR_TASKS" and p: "?p \<notin> task_ptrs s"
    using forks(4,7) ok by (auto simp: lowest_free_def fork_ready_def)
  have "table_ok ?t"
    by (rule table_ok_add [of s nr ?p]) (use nr p inv in \<open>simp_all add: forked_fields files_ok_def\<close>)
  moreover have "file_refs f ?t = file_refs f s + count_list (t_filp (tasks ?t ?p)) (Some f)" for f
    by (rule file_refs_slot [of s nr ?p]) (use nr p in \<open>simp_all add: forked_fields\<close>)
  then have "f_count (file_table ?t f) = of_nat (file_refs f ?t)" for f
    using inv by (simp add: forked_fields files_ok_def)
  ultimately have "files_ok ?t" by (simp add: files_ok_def)
  with forks(8) show ?thesis by (simp add: files_ok_mem_only)
qed

text \<open>One descriptor of the current task changes.\<close>

lemma count_list_update:
  "n < length xs \<Longrightarrow> count_list (xs[n := v]) x + (if xs ! n = x then 1 else 0) = count_list xs x + (if v = x then 1 else 0)"
proof (induction xs arbitrary: n)
  case (Cons y ys)
  show ?case
  proof (cases n)
    case (Suc m)
    with Cons.prems have "count_list (ys[m := v]) x + (if ys ! m = x then 1 else 0) = count_list ys x + (if v = x then 1 else 0)"
      by (intro Cons.IH) simp
    with Suc show ?thesis by (auto split: if_splits)
  qed simp
qed simp

lemma file_refs_set_filp:
  fixes s s' :: "'a sched_scheme"
  assumes tb: "table_ok s" and n: "n < NR_OPEN" and s': "task s' = task s"
    "\<And>q. t_filp (tasks s' q) = (if q = current s then (t_filp (cur_task s))[n := v] else t_filp (tasks s q))"
  shows "file_refs f s' + (if t_filp (cur_task s) ! n = Some f then 1 else 0) = file_refs f s + (if v = Some f then 1 else 0)"
proof -
  obtain k where k: "k < NR_TASKS" "task s ! k = Some (current s)" using tb by (auto simp: table_ok_def task_ptrs_nth)
  have other: "task s ! i \<noteq> Some (current s)" if "i < NR_TASKS" "i \<noteq> k" for i
    using that tb k unfolding table_ok_def by (metis option.distinct(1))
  have split: "file_refs f u = task_refs f (task u ! k) u + (\<Sum>i \<in> {0..<NR_TASKS} - {k}. task_refs f (task u ! i) u)"
    for u :: "'a sched_scheme"
    unfolding file_refs_def using k(1) by (intro sum.remove) simp_all
  have "(\<Sum>i \<in> {0..<NR_TASKS} - {k}. task_refs f (task s' ! i) s') = (\<Sum>i \<in> {0..<NR_TASKS} - {k}. task_refs f (task s ! i) s)"
    using other by (intro sum.cong) (auto simp: task_refs_def s' split: option.split)
  moreover have "length (t_filp (cur_task s)) = NR_OPEN" using tb by (simp add: table_ok_def)
  ultimately show ?thesis
    using count_list_update [of n "t_filp (cur_task s)" v "Some f"] k(2) n
    unfolding split [of s] split [of s'] by (simp add: task_refs_def s')
qed

lemma file_refs_bound: "table_ok s \<Longrightarrow> file_refs f s \<le> 1280"
proof -
  assume tb: "table_ok s"
  have "task_refs f (task s ! i) s \<le> 20" if "i < NR_TASKS" for i
  proof (cases "task s ! i")
    case (Some p)
    with that tb have "length (t_filp (tasks s p)) = 20" by (auto simp: table_ok_def dest: task_ptrsI)
    with Some show ?thesis using count_le_length [of "t_filp (tasks s p)" "Some f"] by (simp add: task_refs_def)
  qed (simp add: task_refs_def)
  then have "file_refs f s \<le> of_nat (card {0..<NR_TASKS}) * 20"
    unfolding file_refs_def by (intro sum_bounded_above) simp
  then show ?thesis by simp
qed

lemma descriptor_change:
  fixes s s' :: "'a fs_scheme"
  assumes inv: "files_ok s" and n: "n < NR_OPEN" and s': "task s' = task s" "current s' = current s"
    "\<And>q. t_filp (tasks s' q) = (if q = current s then (t_filp (cur_task s))[n := v] else t_filp (tasks s q))"
    "\<And>f. f_count (file_table s' f) + (if t_filp (cur_task s) ! n = Some f then 1 else 0)
        = f_count (file_table s f) + (if v = Some f then 1 else 0)"
  shows "files_ok s'"
proof -
  have "f_count (file_table s' f) = of_nat (file_refs f s')" for f
  proof -
    have "of_nat (file_refs f s' + (if t_filp (cur_task s) ! n = Some f then 1 else 0))
        = (of_nat (file_refs f s + (if v = Some f then 1 else 0)) :: u16)"
      using file_refs_set_filp [of s n s' v f] inv n s' by (simp only: files_ok_def)
    then have "of_nat (file_refs f s') + (if t_filp (cur_task s) ! n = Some f then 1 else 0 :: u16)
        = f_count (file_table s' f) + (if t_filp (cur_task s) ! n = Some f then 1 else 0)"
      using s'(4) [of f] inv by (cases "t_filp (cur_task s) ! n = Some f"; cases "v = Some f") (simp_all add: files_ok_def add.commute)
    then show ?thesis by (simp only: add_right_cancel)
  qed
  moreover have "table_ok s'"
    by (rule table_ok_cong [of s]) (use inv s' in \<open>simp_all add: files_ok_def\<close>)
  ultimately show ?thesis by (simp add: files_ok_def)
qed

lemma dup_files_ok:
  assumes inv: "files_ok s"
  shows "files_ok (snd (sys_dup fd s))"
proof -
  consider "snd (sys_dup fd s) = s"
    | f n where "fd_file fd s = Some f" "free_fd 0 s = Some n"
      "snd (sys_dup fd s) = update_file f (\<lambda>x. x\<lparr>f_count := f_count x + 1\<rparr>) (set_filp n (Some f) (clear_cloexec n s))"
    by (cases "fd_file fd s"; cases "free_fd 0 s") (simp_all add: sys_dup_def dupfd_def Let_def)
  then show ?thesis
  proof cases
    case 2
    then have n: "n < NR_OPEN" "t_filp (cur_task s) ! n = None"
      by (auto simp: free_fd_def find_Some_iff)
    show ?thesis
      unfolding 2(3)
      by (rule descriptor_change [OF inv n(1), where v = "Some f"])
        (use n in \<open>simp_all add: update_file_def set_filp_def clear_cloexec_def update_task_def\<close>)
  qed (use inv in simp)
qed

lemma close_files_ok:
  assumes inv: "files_ok s" and fd: "fd_file fd s = Some f"
  shows "f_count (file_table s f) \<noteq> 0 \<and> (\<exists>s1. files_ok s1 \<and> file_refs f s1 = file_refs f s - 1 \<and>
    sys_close io fd s = (if file_refs f s = 1 then do { s \<leftarrow> iput io (f_inode (file_table s f)) s1; Some (0, s) } else Some (0, s1)))"
proof -
  let ?s1 = "update_file f (\<lambda>x. x\<lparr>f_count := f_count x - 1\<rparr>) (set_filp fd None (clear_cloexec fd s))"
  have n: "fd < NR_OPEN" "t_filp (cur_task s) ! fd = Some f" using fd by (auto simp: fd_file_def split: if_splits)
  have c: "f_count (file_table s f) = of_nat (file_refs f s)" and tb: "table_ok s" using inv by (simp_all add: files_ok_def add.commute)
  have s1: "files_ok ?s1"
    by (rule descriptor_change [OF inv n(1), where v = None])
      (use n in \<open>simp_all add: update_file_def set_filp_def clear_cloexec_def update_task_def\<close>)
  have r: "file_refs f ?s1 + 1 = file_refs f s"
    using file_refs_set_filp [OF tb n(1), of ?s1 None f] n(2)
    by (simp add: update_file_def set_filp_def clear_cloexec_def update_task_def)
  have b: "file_refs f s \<le> 1280" using file_refs_bound [OF tb] .
  have w: "(of_nat k :: u16) = 0 \<longleftrightarrow> k = 0" if "k \<le> 1280" for k
    using that by (auto simp: word_of_nat_eq_0_iff dest: dvd_imp_le)
  have "f_count (file_table s f) \<noteq> 0" using r b c w [of "file_refs f s"] by simp
  moreover have "f_count (file_table ?s1 f) = 0 \<longleftrightarrow> file_refs f s = 1"
    using s1 r b w [of "file_refs f ?s1"] by (auto simp: files_ok_def)
  moreover have "f_inode (file_table ?s1 f) = f_inode (file_table s f)"
    "file_table (set_filp fd None (clear_cloexec fd s)) f = file_table s f"
    by (simp_all add: update_file_def set_filp_def clear_cloexec_def update_task_def)
  moreover have "fd_file fd (clear_cloexec fd s) = Some f"
    using n by (simp add: fd_file_def clear_cloexec_def update_task_def)
  ultimately have "sys_close io fd s =
      (if file_refs f s = 1 then do { s \<leftarrow> iput io (f_inode (file_table s f)) ?s1; Some (0, s) } else Some (0, ?s1))"
    using n(1) by (simp add: sys_close_def Let_def)
  with s1 r \<open>f_count (file_table s f) \<noteq> 0\<close> show ?thesis by (intro conjI exI [of _ ?s1]) simp_all
qed

text \<open>
  C12. The reference counts of open files are invariant: as long as every count is the number of
  descriptors that refer to the file, so it is after \<open>dup\<close>, after \<open>fork\<close> and after \<open>close\<close>. The panic
  ``Close: file count is 0'' is therefore never reached, and \<open>close\<close> gives the inode back exactly when
  the last descriptor goes away.
\<close>

theorem file_counts_invariant:
  fixes s :: "'a kern_scheme"
  assumes "files_ok s"
  shows "files_ok (snd (sys_dup fd s))
    \<and> (fork_ready s \<longrightarrow> sys_fork r s = Some (v, s') \<longrightarrow> files_ok s')
    \<and> (fd_file fd s = Some f \<longrightarrow> f_count (file_table s f) \<noteq> 0 \<and>
      (\<exists>s1. files_ok s1 \<and> file_refs f s1 = file_refs f s - 1 \<and> sys_close io fd s =
        (if file_refs f s = 1 then do { s \<leftarrow> iput io (f_inode (file_table s f)) s1; Some (0, s) } else Some (0, s1))))"
  using dup_files_ok [OF assms] fork_files_ok [OF _ assms] close_files_ok [OF assms] by blast

subsection \<open>A machine with one process\<close>

text \<open>Task 0 has the file of \<open>boot_fs\<close> open; \<open>full_kern\<close> is the same machine without a free page.\<close>

definition boot_kern :: kern where
  "boot_kern = fs.extend boot_fs \<lparr>gdt = (\<lambda>_. replicate 8 0)\<rparr>"

definition full_kern :: kern where
  "full_kern = boot_kern\<lparr>mem_map := replicate 3840 1\<rparr>"

definition kern_io :: "kern io" where
  "kern_io = \<lparr>wait_env = (\<lambda>_ _. None), start_request = (\<lambda>major s. if major = 1 then do_rd_request s else None),
     floppy_change = (\<lambda>_ s. Some (False, s)), write_inodes = Some\<rparr>"

definition boot_regs :: fork_regs where
  "boot_regs = \<lparr>r_ebp = 0, r_edi = 0, r_esi = 0, r_gs = 0x17, r_ebx = 0, r_ecx = 0, r_edx = 0, r_fs = 0x17, r_es = 0x17,
     r_ds = 0x17, r_eip = 0x1234, r_cs = 0xf, r_eflags = 0x202, r_esp = 0x8000, r_ss = 0x17\<rparr>"

lemma fold_set_map_sched:
  "task (fold (\<lambda>k. set_map (f k) (g k)) xs s) = task s" "current (fold (\<lambda>k. set_map (f k) (g k)) xs s) = current s"
  "last_pid (fold (\<lambda>k. set_map (f k) (g k)) xs s) = last_pid s"
  by (induction xs arbitrary: s) (simp_all add: set_map_def)

lemma boot_kern_fields:
  "task boot_kern = Some 0 # replicate 63 None" "current boot_kern = 0" "last_pid boot_kern = 0"
  "tasks boot_kern = (\<lambda>_. INIT_TASK\<lparr>t_filp := Some 0 # replicate 19 None\<rparr>)" "phys boot_kern = phys boot_mm"
  "mem_map boot_kern = mem_map boot_mm" "file_table boot_kern = file_table boot_fs" "HIGH_MEMORY boot_kern = HIGH_MEMORY boot_mm"
  by (simp_all add: boot_kern_def fs.defs boot_fs_def cache.defs boot_cache_def blk.defs boot_blk_def mm.defs
      boot_mm_def mem_init_def Let_def fold_set_map_sched tty.defs boot_tty_def timers.defs boot_timers_def sched.defs
      boot_sched_def init_task_def)

lemma boot_task_ptrs: "task s = Some 0 # replicate 63 None \<Longrightarrow> task_ptrs s = {0}"
  by (simp add: task_ptrs_def)

lemma unat_page_addr_ne_0 [simp]: "i < PAGING_PAGES \<Longrightarrow> unat (page_addr i) \<noteq> 0"
  by (simp add: unat_page_addr)

lemma boot_kern_ready: "fork_ready boot_kern" "fork_ready full_kern"
  using boot_mm_ok
  by (simp_all add: fork_ready_def mm_ok_def tasks_used_def boot_task_ptrs full_kern_def boot_kern_fields MAX_PID_def)

lemma boot_kern_files: "files_ok boot_kern"
proof -
  have t: "task_ptrs boot_kern = {0}" by (simp add: boot_task_ptrs boot_kern_fields)
  have nth: "task boot_kern ! i = (if i = 0 then Some 0 else None)" if "i < NR_TASKS" for i
    using that by (simp add: boot_kern_fields nth_Cons split: nat.split)
  have "table_ok boot_kern"
    unfolding table_ok_def t using nth by (auto simp: boot_kern_fields split: if_splits)
  moreover have "file_refs f boot_kern = (if f = 0 then 1 else 0)" for f
  proof -
    have "file_refs f boot_kern = (\<Sum>i \<in> {0..<NR_TASKS}. if i = 0 then count_list (Some 0 # replicate 19 None) (Some f) else 0)"
      unfolding file_refs_def by (intro sum.cong) (simp_all add: task_refs_def nth boot_kern_fields)
    also have "\<dots> = count_list (Some 0 # replicate 19 None) (Some f)" by (simp add: sum.delta)
    also have "\<dots> = (if f = 0 then 1 else 0)" by (simp add: count_list_0_iff)
    finally show ?thesis .
  qed
  ultimately show ?thesis by (simp add: files_ok_def boot_kern_fields boot_fs_def cache.defs)
qed

lemma boot_kern_forks: "\<exists>v s'. sys_fork boot_regs boot_kern = Some (v, s') \<and> 0 < v"
proof -
  have z: "phys boot_mm = (\<lambda>_. 0)" by (simp add: boot_mm_phys fun_eq_iff)
  obtain pid where pid: "0 < pid" "find_empty_process boot_kern = Some (1, boot_kern\<lparr>last_pid := pid\<rparr>)"
    using find_empty_process_spec [of boot_kern] by (auto simp: boot_kern_fields MAX_PID_def upt_rec)
  let ?s = "boot_kern\<lparr>last_pid := pid\<rparr>"
  have "mm_ok ?s" using boot_mm_ok by (simp add: mm_ok_def boot_kern_fields)
  then have "\<exists>s'. copy_process 1 boot_regs ?s = Some (pid, s')"
  proof (cases rule: get_free_page_cases)
    case none
    then show ?thesis using boot_mm_map [of 800] by (auto simp: boot_kern_fields)
  next
    case (some i)
    then show ?thesis
      by (simp add: copy_process_def Let_def copy_mem_def update_task_def boot_kern_fields INIT_TASK_def
          copy_page_tables_def mem_long_def clear_page_def set_map_def z pg_dir_entry_def inc_inode_eq inc_files
          set_descs_def set_state_def)
  qed
  with pid show ?thesis by (auto simp: sys_fork_def)
qed



theorem file_counts_invariant_witness:
  "files_ok (snd (sys_dup 0 boot_kern)) \<and> f_count (file_table boot_kern 0) \<noteq> 0"
  using file_counts_invariant [OF boot_kern_files, where fd = 0 and f = 0 and io = kern_io]
  by (auto simp: fd_file_def boot_kern_fields)

text \<open>
  C17. \<open>find_empty_process\<close> always returns: among 65 candidates in a row one is free. It returns the
  first free slot from 1 on, or \<open>-EAGAIN\<close> when there is none, and the new \<open>last_pid\<close> is a positive
  number that no task has, also when the counter wraps around.
\<close>

theorem find_empty_process_correct:
  assumes "0 \<le> last_pid s" and "last_pid s \<le> MAX_PID"
  shows "\<exists>v pid. find_empty_process s = Some (v, s\<lparr>last_pid := pid\<rparr>) \<and> 0 < pid \<and> pid \<le> MAX_PID \<and> \<not> pid_used pid s
    \<and> (if \<forall>i. 1 \<le> i \<and> i < NR_TASKS \<longrightarrow> task s ! i \<noteq> None then v = -EAGAIN else lowest_free (nat v) s \<and> 0 < v)"
proof -
  obtain pid where pid: "0 < pid" "pid \<le> MAX_PID" "\<not> pid_used pid s"
    "find_empty_process s = Some (case List.find (\<lambda>i. task s ! i = None) [1..<NR_TASKS] of
         Some i \<Rightarrow> int i | None \<Rightarrow> -EAGAIN, s\<lparr>last_pid := pid\<rparr>)"
    using find_empty_process_spec [OF assms] by blast
  with find_free_slot [of s] show ?thesis
    by (cases "List.find (\<lambda>i. task s ! i = None) [1..<NR_TASKS]") (auto simp: lowest_free_def)
qed

theorem find_empty_process_correct_witness:
  "\<exists>v pid. find_empty_process (boot_kern\<lparr>last_pid := 2 ^ 31 - 1\<rparr>) = Some (v, boot_kern\<lparr>last_pid := pid\<rparr>) \<and> 0 < pid"
proof -
  have "0 \<le> last_pid (boot_kern\<lparr>last_pid := 2 ^ 31 - 1\<rparr>)" "last_pid (boot_kern\<lparr>last_pid := 2 ^ 31 - 1\<rparr>) \<le> MAX_PID"
    by (simp_all add: MAX_PID_def)
  from find_empty_process_correct [OF this] show ?thesis by auto
qed

end
