(* ===== verification/Wait.thy ===== *)
theory Wait
  imports Exit Fork_Correct
begin

text \<open>
  \<open>waitpid\<close>: its errors, and what it does with a child that has ended.
\<close>

subsection \<open>\<open>waitpid\<close>\<close>

text \<open>The children that end the scan, and those that only show that there is someone to wait for.\<close>

definition reports :: "int \<Rightarrow> u32 \<Rightarrow> 'a sched_scheme \<Rightarrow> nat \<Rightarrow> bool" where
  "reports pid options s i \<longleftrightarrow> (\<exists>p. task s ! i = Some p \<and> waited_for pid s p
     \<and> (t_state (tasks s p) = TASK_ZOMBIE \<or> t_state (tasks s p) = TASK_STOPPED \<and> options AND WUNTRACED \<noteq> 0))"

definition alive :: "int \<Rightarrow> 'a sched_scheme \<Rightarrow> nat \<Rightarrow> bool" where
  "alive pid s i \<longleftrightarrow> (\<exists>p. task s ! i = Some p \<and> waited_for pid s p
     \<and> t_state (tasks s p) \<noteq> TASK_ZOMBIE \<and> t_state (tasks s p) \<noteq> TASK_STOPPED)"

lemma wait_scan_skip:
  "(\<forall>i \<in> set xs. \<not> reports pid options s i) \<Longrightarrow>
   wait_scan env pid st options (xs @ ys) flag s = wait_scan env pid st options ys (flag \<or> (\<exists>i \<in> set xs. alive pid s i)) s"
proof (induction xs arbitrary: flag)
  case (Cons i xs)
  then have IH: "wait_scan env pid st options (xs @ ys) f s = wait_scan env pid st options ys (f \<or> (\<exists>i \<in> set xs. alive pid s i)) s" for f
    by simp
  have "wait_scan env pid st options ((i # xs) @ ys) flag s = wait_scan env pid st options (xs @ ys) (flag \<or> alive pid s i) s"
  proof (cases "task s ! i")
    case None
    then show ?thesis by (simp add: alive_def)
  next
    case (Some p)
    have "\<not> reports pid options s i" using Cons.prems by simp
    with Some show ?thesis by (auto simp: alive_def reports_def)
  qed
  then show ?case by (simp add: IH disj_assoc)
qed simp

lemma find_split:
  "List.find P xs = Some x \<Longrightarrow> \<exists>ys zs. xs = ys @ x # zs \<and> P x \<and> (\<forall>y \<in> set ys. \<not> P y)"
proof (induction xs)
  case (Cons a xs)
  show ?case
  proof (cases "P a")
    case True
    with Cons.prems show ?thesis by (intro exI [of _ "[]"] exI [of _ xs]) simp
  next
    case False
    with Cons obtain ys zs where "xs = ys @ x # zs" "P x" "\<forall>y \<in> set ys. \<not> P y" by auto
    with False show ?thesis by (intro exI [of _ "a # ys"] exI [of _ zs]) simp
  qed
qed simp

text \<open>The state in which a child that has ended leaves the table: its times go to its father, its page is free.\<close>

definition charge :: "nat \<Rightarrow> 'a sched_scheme \<Rightarrow> 'a sched_scheme" where
  "charge p s = update_task (current s)
     (\<lambda>t. t\<lparr>t_cutime := wrap32 (t_cutime t + t_utime (tasks s p)), t_cstime := wrap32 (t_cstime t + t_stime (tasks s p))\<rparr>) s"

lemma wait_loop_spec:
  "wait_loop env pid st options s =
    (case List.find (reports pid options s) task_slots of
       Some i \<Rightarrow>
         let p = the (task s ! i); v = t_pid (tasks s p)
         in if t_state (tasks s p) = TASK_STOPPED then Some (v, put_fs_long 0x7f st s)
            else do { s' \<leftarrow> release env (Some p) (charge p s);
                      Some (v, put_fs_long (of_int (t_exit_code (tasks s p))) st s') }
     | None \<Rightarrow>
         if \<not> (\<exists>i \<in> set task_slots. alive pid s i) then Some (-ECHILD, s)
         else if options AND WNOHANG \<noteq> 0 then Some (0, s)
         else do {
           s \<leftarrow> reschedule env (set_state (current s) TASK_INTERRUPTIBLE s);
           let s = update_task (current s) (\<lambda>t. t\<lparr>t_signal := t_signal t AND NOT (sig_bit SIGCHLD)\<rparr>) s;
           if t_signal (cur_task s) = 0 then wait_loop env pid st options s else Some (-EINTR, s) })"
proof (cases "List.find (reports pid options s) task_slots")
  case None
  then have "\<forall>i \<in> set task_slots. \<not> reports pid options s i" unfolding find_None_iff by blast
  then have "wait_scan env pid st options task_slots False s = Some (Inr (\<exists>i \<in> set task_slots. alive pid s i), s)"
    using wait_scan_skip [of task_slots pid options s env st "[]" False] by simp
  then show ?thesis unfolding None by (subst wait_loop.simps) (simp del: set_task_slots)
next
  case (Some i)
  then obtain ys zs where yz: "task_slots = ys @ i # zs" "reports pid options s i" "\<forall>y \<in> set ys. \<not> reports pid options s y"
    using find_split [of "reports pid options s" task_slots i] by blast
  from yz(2) obtain p where p: "task s ! i = Some p" "waited_for pid s p" "p \<noteq> current s"
    "t_state (tasks s p) = TASK_ZOMBIE \<or> t_state (tasks s p) = TASK_STOPPED \<and> options AND WUNTRACED \<noteq> 0"
    by (auto simp: reports_def waited_for_def)
  obtain flag where "wait_scan env pid st options task_slots False s = wait_scan env pid st options (i # zs) flag s"
    unfolding yz(1) wait_scan_skip [OF yz(3)] by blast
  then show ?thesis unfolding Some using p
    by (subst wait_loop.simps) (auto simp: Let_def charge_def bind_eq_Some_conv update_task_def split: option.split)
qed


text \<open>What leaving the table does to the page map: the frame is used once less.\<close>

lemma release_slot_spec:
  assumes "length (task s) = NR_TASKS" and "1 \<le> i" and "i < NR_TASKS" and "task s ! i = Some p"
    and only: "\<And>j. j < NR_TASKS \<Longrightarrow> task s ! j = Some p \<Longrightarrow> j = i"
    and page: "p = unat (page_addr k)" "k < PAGING_PAGES" "page_addr k < HIGH_MEMORY s" "mem_map s ! k \<noteq> 0"
  shows "release_slot p s = Some (set_map k (mem_map s ! k - 1) (s\<lparr>task := (task s)[i := None]\<rparr>))"
proof -
  have "List.find (\<lambda>i. task s ! i = Some p) [1..<NR_TASKS] = Some i"
  proof (cases "List.find (\<lambda>i. task s ! i = Some p) [1..<NR_TASKS]")
    case None
    then show ?thesis using assms(2-4) unfolding find_None_iff by auto
  next
    case (Some j)
    from find_split [OF Some] obtain ys zs where j: "[1..<NR_TASKS] = ys @ j # zs" "task s ! j = Some p" by blast
    have "j \<in> set [1..<NR_TASKS]" unfolding j(1) by simp
    with Some only [of j] j(2) show ?thesis by (simp del: upt_Suc)
  qed
  moreover have "of_nat p = page_addr k" "\<not> page_addr k < LOW_MEM"
    using page(1) page_addr_high [OF page(2)] by simp_all
  ultimately show ?thesis
    using page by (simp add: release_slot_def free_page_def set_map_def Let_def)
qed


text \<open>
  C13. \<open>waitpid\<close> takes the ended child in the highest slot: it adds the child's times to those of
  the caller, empties its slot, gives its page back, lets the scheduler run, and returns the child's
  process number with its exit code stored for the caller.
\<close>

theorem waitpid_reaps:
  assumes area: "verify_area st 4 s = Some s1" and table: "table_ok s1"
    and i: "1 \<le> i" "i < NR_TASKS" "task s1 ! i = Some p" "waited_for pid s1 p" "t_state (tasks s1 p) = TASK_ZOMBIE"
    and higher: "\<forall>j. i < j \<and> j < NR_TASKS \<longrightarrow> \<not> reports pid options s1 j"
    and page: "p = unat (page_addr k)" "k < PAGING_PAGES" "page_addr k < HIGH_MEMORY s1" "mem_map s1 ! k \<noteq> 0"
  shows "\<exists>s2. task s2 = (task s1)[i := None] \<and> mem_map s2 = (mem_map s1)[k := mem_map s1 ! k - 1]
    \<and> t_cutime (cur_task s2) = wrap32 (t_cutime (cur_task s1) + t_utime (tasks s1 p))
    \<and> t_cstime (cur_task s2) = wrap32 (t_cstime (cur_task s1) + t_stime (tasks s1 p))
    \<and> sys_waitpid env pid st options s = do {
        s' \<leftarrow> reschedule env s2;
        Some (t_pid (tasks s1 p), put_fs_long (of_int (t_exit_code (tasks s1 p))) st s') }"
proof -
  have rep: "reports pid options s1 i" using i by (auto simp: reports_def)
  have "List.find (reports pid options s1) task_slots = Some i"
  proof (cases "List.find (reports pid options s1) task_slots")
    case None
    then show ?thesis using rep i(1,2) unfolding find_None_iff by auto
  next
    case (Some j)
    from find_split [OF Some] obtain ys zs where
      j: "task_slots = ys @ j # zs" "reports pid options s1 j" "\<forall>y \<in> set ys. \<not> reports pid options s1 y" by blast
    have "sorted_wrt (>) task_slots" unfolding task_slots_def sorted_wrt_rev by (simp del: upt_Suc)
    then have "\<forall>z \<in> set zs. z < j" unfolding j(1) by (simp add: sorted_wrt_append)
    moreover have "i \<in> set (ys @ j # zs)" using i(1,2) unfolding j(1) [symmetric] by simp
    ultimately have "i \<le> j" using j(3) rep by auto
    moreover have "j \<in> {1..<NR_TASKS}" using arg_cong [OF j(1), of set] by auto
    then have "\<not> i < j" using higher j(2) by auto
    ultimately show ?thesis using Some by simp
  qed
  moreover have cur: "p \<noteq> current s1" using i(4) by (simp add: waited_for_def)
  moreover have rel: "release_slot p (charge p s1) =
      Some (set_map k (mem_map (charge p s1) ! k - 1) ((charge p s1)\<lparr>task := (task (charge p s1))[i := None]\<rparr>))"
    (is "_ = Some ?s2")
  proof (rule release_slot_spec)
    show "\<And>j. j < NR_TASKS \<Longrightarrow> task (charge p s1) ! j = Some p \<Longrightarrow> j = i"
      using table i unfolding table_ok_def by (simp add: charge_def)
  qed (use table i page in \<open>simp_all add: charge_def table_ok_def update_task_def\<close>)
  ultimately have "sys_waitpid env pid st options s = do {
      s' \<leftarrow> reschedule env ?s2; Some (t_pid (tasks s1 p), put_fs_long (of_int (t_exit_code (tasks s1 p))) st s') }"
    using area i(3,5) by (simp add: sys_waitpid_def wait_loop_spec release_def)
  then show ?thesis
    by (intro exI [of _ ?s2]) (simp add: charge_def update_task_def set_map_def)
qed

subsection \<open>A father with a child that has ended\<close>

definition zombie :: task_struct where
  "zombie = INIT_TASK\<lparr>t_pid := 5, t_father := 0, t_state := TASK_ZOMBIE, t_utime := 40, t_exit_code := 0x300\<rparr>"

definition zombie_kern :: kern where
  "zombie_kern = boot_kern\<lparr>task := Some 0 # Some 0xCB8000 # replicate 62 None,
     tasks := (tasks boot_kern)(0xCB8000 := zombie), mem_map := (mem_map boot_kern)[3000 := 1]\<rparr>"

lemma zombie_kern_fields:
  "i < 64 \<Longrightarrow> task zombie_kern ! i = (if i = 0 then Some 0 else if i = 1 then Some 0xCB8000 else None)"
  "length (task zombie_kern) = 64" "current zombie_kern = 0" "phys zombie_kern = phys boot_mm"
  "tasks zombie_kern = (\<lambda>_. INIT_TASK\<lparr>t_filp := Some 0 # replicate 19 None\<rparr>)(0xCB8000 := zombie)"
  by (simp_all add: zombie_kern_def boot_kern_fields nth_Cons split: nat.split)

lemma zombie_verify: "verify_area 0x5000 4 zombie_kern = Some zombie_kern"
  by (simp add: verify_area_def wrap32_id Let_def write_verify_def mem_long_def zombie_kern_fields boot_mm_phys INIT_TASK_def upt_rec)

lemma zombie_table: "table_ok zombie_kern"
proof -
  have "task_ptrs zombie_kern = {0, 0xCB8000}"
    unfolding task_ptrs_def by (auto simp: zombie_kern_def boot_kern_fields)
  moreover have "i = j" if "i < NR_TASKS" "j < NR_TASKS" "task zombie_kern ! i = task zombie_kern ! j" "task zombie_kern ! i \<noteq> None" for i j
    using that zombie_kern_fields(1) [OF that(1)] zombie_kern_fields(1) [OF that(2)] by (auto split: if_splits)
  ultimately show ?thesis
    unfolding table_ok_def by (auto simp: zombie_kern_fields(2-) zombie_def INIT_TASK_def)
qed

theorem waitpid_reaps_witness:
  "\<exists>s2. task s2 ! 1 = None \<and> t_cutime (cur_task s2) = 40 \<and>
     sys_waitpid (\<lambda>_ _. None) (-1) 0x5000 0 zombie_kern = do {
       s' \<leftarrow> reschedule (\<lambda>_ _. None) s2; Some (5, put_fs_long 0x300 0x5000 s') }"
proof -
  have w: "waited_for (-1) zombie_kern 0xCB8000" "t_state (tasks zombie_kern 0xCB8000) = TASK_ZOMBIE"
    by (simp_all add: waited_for_def zombie_kern_fields zombie_def INIT_TASK_def)
  have h: "\<forall>j. 1 < j \<and> j < NR_TASKS \<longrightarrow> \<not> reports (-1) 0 zombie_kern j"
    by (simp add: reports_def zombie_kern_fields(1))
  have p: "0xCB8000 = unat (page_addr 3000)" "page_addr 3000 < HIGH_MEMORY zombie_kern" "mem_map zombie_kern ! 3000 \<noteq> 0"
    using boot_mm_ok by (simp_all add: unat_page_addr word_less_nat_alt zombie_kern_def boot_kern_fields mm_ok_def)
      (simp add: boot_mm_def mem_init_def)
  have t: "task zombie_kern ! 1 = Some 0xCB8000" by (simp add: zombie_kern_fields(1))
  obtain s2 where "task s2 = (task zombie_kern)[1 := None]"
      "t_cutime (cur_task s2) = wrap32 (t_cutime (cur_task zombie_kern) + t_utime (tasks zombie_kern 0xCB8000))"
      "sys_waitpid (\<lambda>_ _. None) (-1) 0x5000 0 zombie_kern = do {
         s' \<leftarrow> reschedule (\<lambda>_ _. None) s2;
         Some (t_pid (tasks zombie_kern 0xCB8000), put_fs_long (of_int (t_exit_code (tasks zombie_kern 0xCB8000))) 0x5000 s') }"
    using waitpid_reaps [OF zombie_verify zombie_table _ _ t w h p(1) _ p(2,3), of "\<lambda>_ _. None"] by auto
  then show ?thesis
    by (intro exI [of _ s2]) (simp add: zombie_kern_fields zombie_def INIT_TASK_def wrap32_id)
qed


end
