(* ===== verification/Pipe.thy ===== *)
theory Pipe
  imports Cached_Files
begin

text \<open>
  Pipes (\<open>fs/pipe.c\<close>) as queues of bytes: \<open>pipe_contents\<close> is the list the page of a pipe holds between tail
  and head. Both operations move a part of the page that does not wrap at a time.
\<close>

subsection \<open>The ring of a pipe\<close>

text \<open>Writing \<open>cs\<close> at the head, without crossing the end of the page, and reading at the tail.\<close>

lemma mod_add_less: "(a::nat) < n \<Longrightarrow> a + c \<le> n \<Longrightarrow> (a + c) mod n = (if a + c = n then 0 else a + c)"
  by auto

lemma ring_count_add:
  assumes "h < n" "t < n" "h + c \<le> n" "ring_count n h t + c < n"
  shows "ring_count n ((h + c) mod n) t = ring_count n h t + c"
  using assms by (auto simp: ring_count_def mod_add_less split: if_splits)

lemma ring_write:
  assumes "h < n" "t < n" "h + length cs \<le> n" "ring_count n h t + length cs < n"
    and "\<And>k. k < n \<Longrightarrow> buf' k = (if h \<le> k \<and> k < h + length cs then cs ! (k - h) else buf k)"
  shows "ring_contents buf' n ((h + length cs) mod n) t = ring_contents buf n h t @ cs"
proof (rule nth_equalityI)
  let ?r = "ring_count n h t"
  show "length (ring_contents buf' n ((h + length cs) mod n) t) = length (ring_contents buf n h t @ cs)"
    using ring_count_add [OF assms(1-4)] by simp
  fix j assume "j < length (ring_contents buf' n ((h + length cs) mod n) t)"
  then have j: "j < ?r + length cs" using ring_count_add [OF assms(1-4)] by simp
  have n: "0 < n" "(t + j) mod n < n" using assms(1) by simp_all
  have at: "ring_contents buf' n ((h + length cs) mod n) t ! j = buf' ((t + j) mod n)"
    using j ring_count_add [OF assms(1-4)] by (simp add: ring_contents_def)
  show "ring_contents buf' n ((h + length cs) mod n) t ! j = (ring_contents buf n h t @ cs) ! j"
  proof (cases "j < ?r")
    case True
    have "\<not> (h \<le> (t + j) mod n \<and> (t + j) mod n < h + length cs)"
    proof (cases "t + j < n")
      case True
      then show ?thesis using \<open>j < ?r\<close> assms(1-4) by (auto simp: ring_count_def split: if_splits)
    next
      case False
      then have "(t + j) mod n = t + j - n" using j assms(2,4) by (simp add: le_mod_geq)
      then show ?thesis using \<open>j < ?r\<close> assms(1-4) False by (auto simp: ring_count_def split: if_splits)
    qed
    then show ?thesis using True assms(5) [OF n(2)] at by (auto simp: nth_append ring_contents_def)
  next
    case False
    then have k: "j - ?r < length cs" using j by simp
    have "(t + j) mod n = (t + ?r + (j - ?r)) mod n" using False by simp
    also have "\<dots> = ((t + ?r) mod n + (j - ?r)) mod n" by (simp add: mod_add_left_eq)
    also have "\<dots> = h + (j - ?r)" using ring_index [OF assms(1,2)] k assms(3) by simp
    finally have "(t + j) mod n = h + (j - ?r)" .
    then have "ring_contents buf' n ((h + length cs) mod n) t ! j = cs ! (j - ?r)"
      using assms(5) [OF n(2)] at k by (simp del: add_diff_assoc)
    then show ?thesis using False by (simp add: nth_append)
  qed
qed

lemma ring_count_drop:
  assumes "h < n" "t < n" "t + c \<le> n" "c \<le> ring_count n h t"
  shows "ring_count n h ((t + c) mod n) = ring_count n h t - c"
  using assms by (auto simp: ring_count_def mod_add_less split: if_splits)

lemma ring_read:
  assumes "h < n" "t < n" "t + c \<le> n" "c \<le> ring_count n h t"
  shows "ring_contents buf n h t = map buf [t..<t + c] @ ring_contents buf n h ((t + c) mod n)"
proof (rule nth_equalityI)
  show len: "length (ring_contents buf n h t) = length (map buf [t..<t + c] @ ring_contents buf n h ((t + c) mod n))"
    using ring_count_drop [OF assms] assms(4) by simp
  fix j assume "j < length (ring_contents buf n h t)"
  then have j: "j < ring_count n h t" by simp
  show "ring_contents buf n h t ! j = (map buf [t..<t + c] @ ring_contents buf n h ((t + c) mod n)) ! j"
  proof (cases "j < c")
    case True
    then show ?thesis using j assms(3) by (simp add: ring_contents_def nth_append)
  next
    case False
    have "((t + c) mod n + (j - c)) mod n = (t + c + (j - c)) mod n" by (rule mod_add_left_eq)
    then have "((t + c) mod n + (j - c)) mod n = (t + j) mod n" using False by simp
    moreover have "[0..<ring_count n h t - c] ! (j - c) = j - c" using j False by simp
    ultimately show ?thesis using False j ring_count_drop [OF assms] by (simp add: ring_contents_def nth_append del: add_diff_assoc)
  qed
qed

definition pipe_ok :: "m_inode \<Rightarrow> bool" where
  "pipe_ok i \<longleftrightarrow> PIPE_HEAD i < 4096 \<and> PIPE_TAIL i < 4096 \<and> 2 \<le> length (i_zone i)"

definition pipe_contents :: "nat \<Rightarrow> 'a fs_scheme \<Rightarrow> u8 list" where
  "pipe_contents i s =
     ring_contents (\<lambda>k. mem_byte (i_size (inode_table s i) + of_nat k) s) 4096
       (unat (PIPE_HEAD (inode_table s i))) (unat (PIPE_TAIL (inode_table s i)))"

lemma and_4095: "(x::int) AND 4095 = x mod 4096"
  using take_bit_eq_mask [of 12 x] by (simp add: take_bit_eq_mod mask_eq_exp_minus_1)

lemma PIPE_SIZE_count:
  assumes "pipe_ok i"
  shows "PIPE_SIZE i = int (ring_count 4096 (unat (PIPE_HEAD i)) (unat (PIPE_TAIL i)))"
proof -
  have lt: "unat (PIPE_HEAD i) < 4096" "unat (PIPE_TAIL i) < 4096"
    using assms by (simp_all add: pipe_ok_def word_less_nat_alt)
  have eq: "PIPE_SIZE i = (int (unat (PIPE_HEAD i)) - int (unat (PIPE_TAIL i))) mod 4096" by (simp add: PIPE_SIZE_def and_4095)
  then have "0 \<le> PIPE_SIZE i" by (simp only: pos_mod_sign zero_less_numeral)
  then have int: "int (nat (PIPE_SIZE i)) = PIPE_SIZE i" by (rule nat_0_le)
  have "nat (PIPE_SIZE i) = ring_count 4096 (unat (PIPE_HEAD i)) (unat (PIPE_TAIL i))"
  proof (rule ring_count_int)
    show "int (nat (PIPE_SIZE i)) = (int (unat (PIPE_HEAD i)) - int (unat (PIPE_TAIL i))) mod 4096" using int eq by (rule trans)
  qed (simp_all add: lt)
  then show ?thesis using int by simp
qed

lemma unat_and_4095: "unat ((w + of_nat c) AND 4095 :: u16) = (unat w + c) mod 4096"
proof -
  have "uint ((w + of_nat c) AND mask 12 :: u16) = (uint w + uint (of_nat c :: u16)) mod 2 ^ 12"
    by (rule uint_add_and_mask) simp
  also have "\<dots> = int ((unat w + c mod 65536) mod 4096)"
  proof -
    have c: "uint (of_nat c :: u16) = int (c mod 65536)" by (simp only: uint_nat unat_of_nat) simp
    have w: "uint w = int (unat w)" by simp
    show ?thesis unfolding c w by (simp only: of_nat_add [symmetric] zmod_int) (simp add: zmod_int)
  qed
  also have "(unat w + c mod 65536) mod 4096 = (unat w + c) mod 4096"
  proof -
    have "c mod 65536 mod 4096 = c mod 4096" by (rule mod_mod_cancel) simp
    then show ?thesis by (metis mod_add_right_eq)
  qed
  finally have "int (unat ((w + of_nat c) AND 4095 :: u16)) = int ((unat w + c) mod 4096)"
    by (simp add: mask_eq_exp_minus_1)
  then show ?thesis by (simp only: of_nat_eq_iff)
qed

text \<open>One block of bytes stored behind the head or taken from the tail.\<close>

lemma PIPE_set:
  "2 \<le> length (i_zone n) \<Longrightarrow> PIPE_HEAD (set_zone 0 v n) = v" "PIPE_TAIL (set_zone 0 v n) = PIPE_TAIL n"
  "2 \<le> length (i_zone n) \<Longrightarrow> PIPE_TAIL (set_zone 1 v n) = v" "PIPE_HEAD (set_zone 1 v n) = PIPE_HEAD n"
  "length (i_zone (set_zone k v n)) = length (i_zone n)" "i_size (set_zone k v n) = i_size n"
  "i_count (set_zone k v n) = i_count n" "i_pipe (set_zone k v n) = i_pipe n"
  by (auto simp: PIPE_HEAD_def PIPE_TAIL_def set_zone_def nth_list_update_if)

lemma and_4095_less: "(w AND 4095 :: u16) < 4096"
  using unat_and_4095 [of w 0] by (simp add: word_less_nat_alt)

lemma phys_fields [frame_simps, simp]:
  "inode_table (s\<lparr>phys := P\<rparr>) = inode_table s" "umem (s\<lparr>phys := P\<rparr>) = umem s"
  by simp_all

text \<open>What an operation on a pipe may change.\<close>

definition pipe_only :: "'a fs_scheme \<Rightarrow> 'a fs_scheme \<Rightarrow> bool" where
  "pipe_only s s' \<longleftrightarrow> (\<exists>P T. s' = s\<lparr>phys := P, inode_table := T\<rparr>)"

lemma pipe_onlyI: "s' = s\<lparr>phys := P, inode_table := T\<rparr> \<Longrightarrow> pipe_only s s'"
  unfolding pipe_only_def by blast

lemma pipe_only_refl: "pipe_only s s"
  by (rule pipe_onlyI [where P = "phys s" and T = "inode_table s"]) simp

lemma pipe_only_trans: "pipe_only s s' \<Longrightarrow> pipe_only s' s'' \<Longrightarrow> pipe_only s s''"
proof -
  assume "pipe_only s s'" "pipe_only s' s''"
  then obtain P T P' T' where "s' = s\<lparr>phys := P, inode_table := T\<rparr>" "s'' = s'\<lparr>phys := P', inode_table := T'\<rparr>"
    unfolding pipe_only_def by blast
  then show ?thesis by (intro pipe_onlyI [where P = P' and T = T']) simp
qed

lemma of_nat_page: "a < 4096 \<Longrightarrow> b < 4096 \<Longrightarrow> (x + of_nat a :: u32) = x + of_nat b \<longleftrightarrow> a = b"
proof
  assume "a < 4096" "b < 4096" "x + of_nat a = (x + of_nat b :: u32)"
  then have "(of_nat a :: u32) = of_nat b" by simp
  then have "unat (of_nat a :: u32) = unat (of_nat b :: u32)" by simp
  then show "a = b" using \<open>a < 4096\<close> \<open>b < 4096\<close> by (simp add: unat_of_nat)
qed simp

lemma pipe_put:
  fixes s :: "'a fs_scheme"
  assumes ok: "pipe_ok (inode_table s i)" and h: "h = unat (PIPE_HEAD (inode_table s i))"
    and len: "h + length cs \<le> 4096" "length (pipe_contents i s) + length cs < 4096"
    and s': "s' = write_mem cs (i_size (inode_table s i) + of_int (uint (PIPE_HEAD (inode_table s i))))
       (update_inode i (set_zone 0 ((PIPE_HEAD (inode_table s i) + of_nat (length cs)) AND 4095)) s)"
  shows "pipe_ok (inode_table s' i)" "pipe_contents i s' = pipe_contents i s @ cs" "umem s' = umem s"
    "i_size (inode_table s' i) = i_size (inode_table s i)" "i_wait (inode_table s' i) = i_wait (inode_table s i)"
    "pipe_only s s'"
proof -
  let ?n = "inode_table s i" and ?base = "i_size (inode_table s i)"
  define s0 where "s0 = update_inode i (set_zone 0 ((PIPE_HEAD ?n + of_nat (length cs)) AND 4095)) s"
  obtain P where P: "s' = s0\<lparr>phys := P\<rparr>" using write_mem_frame unfolding s' s0_def by blast
  have z: "2 \<le> length (i_zone ?n)" using ok by (simp add: pipe_ok_def)
  have n': "inode_table s' i = set_zone 0 ((PIPE_HEAD ?n + of_nat (length cs)) AND 4095) ?n"
    by (simp add: P s0_def update_inode_def)
  show "pipe_ok (inode_table s' i)" using ok by (simp add: n' pipe_ok_def PIPE_set and_4095_less)
  show "umem s' = umem s" "i_size (inode_table s' i) = ?base" "i_wait (inode_table s' i) = i_wait ?n"
    by (simp_all add: P s0_def update_inode_def set_zone_def)
  show "pipe_only s s'"
    by (rule pipe_onlyI [where P = P and T = "inode_table s0"]) (simp add: P s0_def update_inode_def)
  have hd: "unat ((PIPE_HEAD ?n + of_nat (length cs)) AND 4095) = (h + length cs) mod 4096"
    by (simp add: unat_and_4095 h)
  have lt: "h < 4096" "unat (PIPE_TAIL ?n) < 4096" using ok by (simp_all add: pipe_ok_def word_less_nat_alt h)
  have mem: "mem_byte p s' = write_bytes cs (?base + of_nat h) (\<lambda>p. mem_byte p s) p" for p
  proof -
    have "mem_byte p s' = write_bytes cs (?base + of_nat h) (\<lambda>p. mem_byte p s0) p"
      unfolding s' s0_def [symmetric] by (simp add: write_mem_phys h)
    moreover have "mem_byte p s0 = mem_byte p s" for p by (rule mem_byte_cong) (simp add: s0_def update_inode_def)
    ultimately show ?thesis by simp
  qed
  have cell: "mem_byte (?base + of_nat k) s' = (if h \<le> k \<and> k < h + length cs then cs ! (k - h) else mem_byte (?base + of_nat k) s)"
    if "k < 4096" for k
  proof (cases "h \<le> k \<and> k < h + length cs")
    case True
    then have "?base + of_nat k = ?base + of_nat h + of_nat (k - h)" by (simp add: of_nat_diff)
    moreover have "k - h < length cs" using True by auto
    ultimately show ?thesis using True write_bytes_nth [of cs "k - h" "?base + of_nat h"] len(1) by (simp add: mem)
  next
    case False
    have "?base + of_nat k \<noteq> ?base + of_nat h + of_nat j" if "j < length cs" for j
      using of_nat_page [of k "h + j" ?base] \<open>k < 4096\<close> that len(1) False by (auto simp: add.assoc)
    then have "mem_byte (?base + of_nat k) s' = mem_byte (?base + of_nat k) s" unfolding mem by (rule write_bytes_other)
    then show ?thesis by (subst if_not_P [OF False])
  qed
  have cnt: "ring_count 4096 h (unat (PIPE_TAIL ?n)) + length cs < 4096" using len(2) by (simp add: pipe_contents_def h)
  show "pipe_contents i s' = pipe_contents i s @ cs"
    unfolding pipe_contents_def n' PIPE_set(1) [OF z] PIPE_set(2,6) hd h [symmetric]
    by (rule ring_write [OF lt len(1) cnt cell])
qed

lemma write_pipe_loop_spec:
  fixes s :: "'a fs_scheme"
  shows "pipe_ok (inode_table s i) \<Longrightarrow> n + length (pipe_contents i s) < 4096 \<Longrightarrow>
   \<exists>s'. write_pipe_loop io i buf (int n) w s = Some (w + int n, wake_up (inode_queue i) s')
     \<and> pipe_ok (inode_table s' i) \<and> pipe_contents i s' = pipe_contents i s @ read_bytes buf n (umem s)
     \<and> pipe_only s s' \<and> i_wait (inode_table s' i) = i_wait (inode_table s i)"
proof (induction n arbitrary: buf w s rule: less_induct)
  case (less n)
  let ?n = "inode_table s i"
  show ?case
  proof (cases "n = 0")
    case True
    then show ?thesis using less.prems by (subst write_pipe_loop.simps) (auto intro!: exI [of _ s] pipe_only_refl)
  next
    case False
    define h where "h = unat (PIPE_HEAD ?n)"
    define c where "c = min (4096 - h) n"
    have h: "h < 4096" using less.prems(1) by (simp add: h_def pipe_ok_def word_less_nat_alt)
    then have c: "0 < c" "c \<le> n" "h + c \<le> 4096" using False by (auto simp: c_def)
    have sz: "PIPE_SIZE ?n = int (length (pipe_contents i s))"
      using PIPE_SIZE_count [OF less.prems(1)] by (simp add: pipe_contents_def)
    have room: "wait_for_room io i s = Some (True, s)"
      using less.prems(2) False by (subst wait_for_room.simps) (simp add: sz)
    have u: "uint (PIPE_HEAD ?n) = int h" by (simp add: h_def)
    have "min (min (PAGE_SIZE - int h) (int n)) (PAGE_SIZE - 1 - PIPE_SIZE ?n) = int c"
      using less.prems(2) h unfolding sz c_def by linarith
    then have chars: "min (min (4096 - int h) (int n)) (4095 - PIPE_SIZE ?n) = int c" by simp
    define cs where "cs = read_bytes buf c (umem s)"
    define s1 where "s1 = write_mem cs (i_size ?n + of_int (uint (PIPE_HEAD ?n)))
       (update_inode i (set_zone 0 ((PIPE_HEAD ?n + of_nat (length cs)) AND 4095)) s)"
    have ub: "ucast (PIPE_HEAD ?n) = (of_nat h :: u32)" by (simp add: h_def)
    have lc: "length cs = c" by (simp add: cs_def)
    have s1: "s1 = write_mem cs (i_size ?n + of_nat h) (update_inode i (set_zone 0 ((PIPE_HEAD ?n + of_nat (length cs)) AND 4095)) s)"
      by (simp only: s1_def u of_int_of_nat_eq)
    have len: "h + length cs \<le> 4096" "length (pipe_contents i s) + length cs < 4096" using c less.prems(2) lc by simp_all
    note put = pipe_put [OF less.prems(1) h_def len s1_def]
    have "write_pipe_loop io i buf (int n) w s = write_pipe_loop io i (buf + of_nat c) (int (n - c)) (w + int c) s1"
      using False c(2) by (subst write_pipe_loop.simps)
        (simp add: room u ub chars s1 from_user_def cs_def update_inode_def Let_def of_nat_diff)
    moreover have "\<exists>s'. write_pipe_loop io i (buf + of_nat c) (int (n - c)) (w + int c) s1
        = Some (w + int c + int (n - c), wake_up (inode_queue i) s')
      \<and> pipe_ok (inode_table s' i) \<and> pipe_contents i s' = pipe_contents i s1 @ read_bytes (buf + of_nat c) (n - c) (umem s1)
      \<and> pipe_only s1 s' \<and> i_wait (inode_table s' i) = i_wait (inode_table s1 i)"
      using less.prems(2) c False put(1,2) lc by (intro less.IH) simp_all
    moreover have "read_bytes buf n (umem s) = cs @ read_bytes (buf + of_nat c) (n - c) (umem s1)"
      using read_bytes_append [of buf c "n - c" "umem s"] c(2) by (simp add: cs_def put(3))
    ultimately show ?thesis using c(2) put(2,5) pipe_only_trans [OF put(6)] by auto
  qed
qed

lemma pipe_get:
  fixes s :: "'a fs_scheme"
  assumes ok: "pipe_ok (inode_table s i)" and t: "t = unat (PIPE_TAIL (inode_table s i))"
    and len: "t + c \<le> 4096" "c \<le> length (pipe_contents i s)"
    and s1: "s1 = update_inode i (set_zone 1 ((PIPE_TAIL (inode_table s i) + of_nat c) AND 4095)) s"
  shows "pipe_ok (inode_table s1 i)" "pipe_contents i s1 = drop c (pipe_contents i s)"
    "read_mem (i_size (inode_table s i) + of_nat t) c s1 = take c (pipe_contents i s)"
    "i_wait (inode_table s1 i) = i_wait (inode_table s i)"
proof -
  let ?n = "inode_table s i" and ?base = "i_size (inode_table s i)"
  let ?buf = "\<lambda>k. mem_byte (?base + of_nat k) s"
  have z: "2 \<le> length (i_zone ?n)" using ok by (simp add: pipe_ok_def)
  have n': "inode_table s1 i = set_zone 1 ((PIPE_TAIL ?n + of_nat c) AND 4095) ?n"
    by (simp add: s1 update_inode_def)
  show "pipe_ok (inode_table s1 i)" using ok by (simp add: n' pipe_ok_def PIPE_set and_4095_less del: One_nat_def)
  show "i_wait (inode_table s1 i) = i_wait ?n" by (simp add: n' set_zone_def)
  have tl: "unat ((PIPE_TAIL ?n + of_nat c) AND 4095) = (t + c) mod 4096" by (simp add: unat_and_4095 t)
  have lt: "unat (PIPE_HEAD ?n) < 4096" "t < 4096" using ok by (simp_all add: pipe_ok_def word_less_nat_alt t)
  have mem: "mem_byte p s1 = mem_byte p s" for p by (rule mem_byte_cong) (simp add: s1 update_inode_def)
  have cnt: "c \<le> ring_count 4096 (unat (PIPE_HEAD ?n)) t" using len(2) by (simp add: pipe_contents_def t)
  have split: "pipe_contents i s = map ?buf [t..<t + c] @ pipe_contents i s1"
    using ring_read [OF lt len(1) cnt, of ?buf]
    by (simp add: pipe_contents_def n' PIPE_set(3) [OF z] PIPE_set(4,6) tl mem t [symmetric] del: One_nat_def)
  then show "pipe_contents i s1 = drop c (pipe_contents i s)" by simp
  have "read_mem (?base + of_nat t) c s1 = map ?buf [t..<t + c]"
    by (rule nth_equalityI) (simp_all add: read_mem_def mem add.assoc)
  then show "read_mem (?base + of_nat t) c s1 = take c (pipe_contents i s)" by (simp add: split)
qed

lemma pipe_contents_user: "pipe_contents i (to_user cs buf s) = pipe_contents i s"
  using mem_byte_cong [of "to_user cs buf s" s] by (simp add: pipe_contents_def to_user_def)

lemma read_pipe_loop_spec:
  fixes s :: "'a fs_scheme"
  shows "pipe_ok (inode_table s i) \<Longrightarrow> n \<le> length (pipe_contents i s) \<Longrightarrow> n < 4096 \<Longrightarrow>
   \<exists>s'. read_pipe_loop io i buf (int n) g s = Some (g + int n, wake_up (inode_queue i) s')
     \<and> pipe_ok (inode_table s' i) \<and> pipe_contents i s' = drop n (pipe_contents i s)
     \<and> umem s' = write_bytes (take n (pipe_contents i s)) buf (umem s)"
proof (induction n arbitrary: buf g s rule: less_induct)
  case (less n)
  let ?n = "inode_table s i"
  show ?case
  proof (cases "n = 0")
    case True
    then show ?thesis using less.prems by (subst read_pipe_loop.simps) auto
  next
    case False
    define t where "t = unat (PIPE_TAIL ?n)"
    define c where "c = min (4096 - t) n"
    have t: "t < 4096" using less.prems(1) by (simp add: t_def pipe_ok_def word_less_nat_alt)
    then have c: "0 < c" "c \<le> n" "t + c \<le> 4096" using False by (auto simp: c_def)
    have sz: "PIPE_SIZE ?n = int (length (pipe_contents i s))"
      using PIPE_SIZE_count [OF less.prems(1)] by (simp add: pipe_contents_def)
    have ready: "wait_for_data io i s = Some (True, s)"
      using less.prems(2) False by (subst wait_for_data.simps) (auto simp: sz)
    have u: "uint (PIPE_TAIL ?n) = int t" by (simp add: t_def)
    have ub: "ucast (PIPE_TAIL ?n) = (of_nat t :: u32)" by (simp add: t_def)
    have "min (min (4096 - int t) (int n)) (int (length (pipe_contents i s))) = int c"
      using less.prems(2) t unfolding c_def by linarith
    then have chars: "min (min (4096 - int t) (int n)) (PIPE_SIZE ?n) = int c" unfolding sz .
    define s1 where "s1 = update_inode i (set_zone 1 ((PIPE_TAIL ?n + of_nat c) AND 4095)) s"
    have cl: "c \<le> length (pipe_contents i s)" using c(2) less.prems(2) by simp
    note got = pipe_get [OF less.prems(1) t_def c(3) cl s1_def]
    define s2 where "s2 = to_user (take c (pipe_contents i s)) buf s1"
    have inode2: "inode_table s2 = inode_table s1" by (simp add: s2_def to_user_def)
    have "read_pipe_loop io i buf (int n) g s = read_pipe_loop io i (buf + of_nat c) (int (n - c)) (g + int c) s2"
      using False c(2) got(3) by (subst read_pipe_loop.simps)
        (simp add: ready u ub chars s2_def s1_def [symmetric] Let_def of_nat_diff del: One_nat_def)
    moreover have "\<exists>s'. read_pipe_loop io i (buf + of_nat c) (int (n - c)) (g + int c) s2
        = Some (g + int c + int (n - c), wake_up (inode_queue i) s')
      \<and> pipe_ok (inode_table s' i) \<and> pipe_contents i s' = drop (n - c) (pipe_contents i s2)
      \<and> umem s' = write_bytes (take (n - c) (pipe_contents i s2)) (buf + of_nat c) (umem s2)"
      using less.prems(2,3) c False got(1,2) inode2
      by (intro less.IH) (simp_all add: s2_def pipe_contents_user)
    moreover have "pipe_contents i s2 = drop c (pipe_contents i s)" by (simp add: s2_def pipe_contents_user got(2))
    moreover have "umem s2 = write_bytes (take c (pipe_contents i s)) buf (umem s)"
      by (simp add: s2_def to_user_def s1_def update_inode_def)
    moreover have "take n (pipe_contents i s) = take c (pipe_contents i s) @ take (n - c) (drop c (pipe_contents i s))"
      using c(2) by (metis le_add_diff_inverse take_add)
    ultimately show ?thesis using c(2) cl by (auto simp: write_bytes_append)
  qed
qed

lemma wake_up_inode:
  "pipe_contents i (wake_up (inode_queue i) s) = pipe_contents i s" "umem (wake_up (inode_queue i) s) = umem s"
  "pipe_ok (inode_table (wake_up (inode_queue i) s) i) = pipe_ok (inode_table s i)"
  using mem_byte_cong [of "wake_up (inode_queue i) s" s]
  by (auto simp: wake_up_def inode_queue_def pipe_contents_def pipe_ok_def PIPE_HEAD_def PIPE_TAIL_def update_inode_def
      set_state_def update_task_def split: option.splits)

text \<open>
  C29. A pipe is a first-in first-out channel: while what it holds and the \<open>n\<close> bytes written fit in 4095 bytes,
  \<open>write_pipe\<close> returns \<open>n\<close> without sleeping and appends the caller's bytes to the contents; a following
  \<open>read_pipe\<close> of no more than that returns the oldest bytes in order and leaves the rest, wherever in
  the page head and tail are.
\<close>

theorem pipe_fifo:
  fixes s :: "'a fs_scheme"
  assumes "pipe_ok (inode_table s i)" and "n + length (pipe_contents i s) < 4096" and "m \<le> n + length (pipe_contents i s)"
  shows "\<exists>s1 s2. write_pipe io i buf (int n) s = Some (int n, s1)
    \<and> pipe_contents i s1 = pipe_contents i s @ read_bytes buf n (umem s)
    \<and> read_pipe io i buf' (int m) s1 = Some (int m, s2)
    \<and> read_bytes buf' m (umem s2) = take m (pipe_contents i s @ read_bytes buf n (umem s))
    \<and> pipe_contents i s2 = drop m (pipe_contents i s @ read_bytes buf n (umem s))"
proof -
  from write_pipe_loop_spec [OF assms(1,2), of io buf 0] obtain s1 where w:
    "write_pipe io i buf (int n) s = Some (int n, wake_up (inode_queue i) s1)" "pipe_ok (inode_table s1 i)"
    "pipe_contents i s1 = pipe_contents i s @ read_bytes buf n (umem s)" by (auto simp: write_pipe_def)
  define s1' where "s1' = wake_up (inode_queue i) s1"
  have c: "pipe_contents i s1' = pipe_contents i s @ read_bytes buf n (umem s)" "pipe_ok (inode_table s1' i)"
    using w(2,3) by (simp_all add: s1'_def wake_up_inode)
  have "m \<le> length (pipe_contents i s1')" "m < 4096" using assms(2,3) c(1) by simp_all
  from read_pipe_loop_spec [OF c(2) this, of io buf' 0] obtain s2 where r:
    "read_pipe io i buf' (int m) s1' = Some (int m, wake_up (inode_queue i) s2)"
    "pipe_contents i s2 = drop m (pipe_contents i s1')" "umem s2 = write_bytes (take m (pipe_contents i s1')) buf' (umem s1')"
    by (auto simp: read_pipe_def)
  have "read_bytes buf' m (umem s2) = take m (pipe_contents i s1')"
  proof -
    have "length (take m (pipe_contents i s1')) = m" using assms(3) c(1) by simp
    with read_write_bytes [of "take m (pipe_contents i s1')" buf' "umem s1'"] show ?thesis
      unfolding r(3) using \<open>m < 4096\<close> by simp
  qed
  then show ?thesis using w(1) c(1) r(1,2)
    by (intro exI [of _ s1'] exI [of _ "wake_up (inode_queue i) s2"]) (simp add: s1'_def wake_up_inode)
qed

text \<open>A pipe with the head two bytes before the end of its page; four bytes are written and read.\<close>

definition pipe_fs :: fs where
  "pipe_fs = boot_fs\<lparr>inode_table := (inode_table boot_fs)
     (3 := zero_inode\<lparr>i_size := 0x200000, i_count := 2, i_pipe := True, i_zone := [4094, 4094] @ replicate 7 0\<rparr>)\<rparr>"

theorem pipe_fifo_witness:
  "\<exists>s1 s2. write_pipe fs_io 3 0x5000 4 pipe_fs = Some (4, s1) \<and> read_pipe fs_io 3 0x6000 4 s1 = Some (4, s2)
     \<and> read_bytes 0x6000 4 (umem s2) = read_bytes 0x5000 4 (umem pipe_fs)"
proof -
  have n: "PIPE_HEAD (inode_table pipe_fs 3) = 4094" "PIPE_TAIL (inode_table pipe_fs 3) = 4094"
    by (simp_all add: pipe_fs_def PIPE_HEAD_def PIPE_TAIL_def)
  have "pipe_ok (inode_table pipe_fs 3)" unfolding pipe_ok_def n by (simp add: pipe_fs_def)
  moreover have "pipe_contents 3 pipe_fs = []" by (simp add: pipe_contents_def n ring_contents_def ring_count_def)
  ultimately show ?thesis using pipe_fifo [of pipe_fs 3 4 4 fs_io "0x5000" "0x6000"] by fastforce
qed

end
