(* ===== verification/Dir_Calls.thy ===== *)
theory Dir_Calls
  imports Namei
begin

text \<open>
  The system calls of \<open>fs/namei.c\<close> that change directories: \<open>mknod\<close>, \<open>mkdir\<close>, \<open>rmdir\<close>, \<open>unlink\<close> and
  \<open>link\<close>.
\<close>

text \<open>Many returns release inodes in turn, then buffers.\<close>

definition leave :: "'a fs_scheme io \<Rightarrow> nat list \<Rightarrow> nat list \<Rightarrow> int \<Rightarrow> 'a fs_scheme \<Rightarrow> (int \<times> 'a fs_scheme) option" where
  "leave io is bhs r s =
     do { s \<leftarrow> fold_opt (\<lambda>i. iput io (Some i)) is s;
          s \<leftarrow> fold_opt (\<lambda>b. brelse io (Some b)) bhs s;
          Some (r, s) }"

subsection \<open>Making nodes\<close>

text \<open>The new entry gets its inode number, and the buffer is dirty.\<close>

definition enter :: "nat \<Rightarrow> nat \<Rightarrow> nat \<Rightarrow> 'a fs_scheme \<Rightarrow> 'a fs_scheme" where
  "enter bh de i s = update_bh bh (b_dirt_update (\<lambda>_. True)) (set_de_inode bh de (i_num (inode_table s i)) s)"

definition mknod_at ::
  "'a fs_scheme io \<Rightarrow> nat \<Rightarrow> u32 \<Rightarrow> nat \<Rightarrow> int \<Rightarrow> int \<Rightarrow> 'a fs_scheme \<Rightarrow> (int \<times> 'a fs_scheme) option" where
  "mknod_at io dir basename namelen mode dev s =
     do { (inode, s) \<leftarrow> new_inode io (uint (i_dev (inode_table s dir))) s;
          case inode of
            None \<Rightarrow> leave io [dir] [] (-ENOSPC) s
          | Some i \<Rightarrow> do {
              let s = update_inode i (i_mode_update (\<lambda>_. of_int mode)) s;
              let s = (if S_ISBLK (of_int mode) \<or> S_ISCHR (of_int mode)
                       then update_inode i (set_zone 0 (of_int dev)) s else s);
              let now = of_int (CURRENT_TIME s);
              let s = update_inode i (\<lambda>n. n\<lparr>i_mtime := now, i_atime := now, i_dirt := True\<rparr>) s;
              (r, s) \<leftarrow> add_entry io dir basename namelen s;
              case r of
                None \<Rightarrow> do {
                  s \<leftarrow> iput io (Some dir) s;
                  let s = update_inode i (i_nlinks_update (\<lambda>_. 0)) s;
                  leave io [i] [] (-ENOSPC) s }
              | Some (bh, de) \<Rightarrow> leave io [dir, i] [bh] 0 (enter bh de i s) } }"

definition sys_mknod ::
  "'a fs_scheme io \<Rightarrow> u32 \<Rightarrow> int \<Rightarrow> int \<Rightarrow> 'a fs_scheme \<Rightarrow> (int \<times> 'a fs_scheme) option" where
  "sys_mknod io filename mode dev s =
     (if \<not> suser s then Some (-EPERM, s)
      else do {
        (r, s) \<leftarrow> dir_namei io filename s;
        case r of
          None \<Rightarrow> Some (-ENOENT, s)
        | Some (dir, namelen, basename) \<Rightarrow>
            if namelen = 0 then leave io [dir] [] (-ENOENT) s
            else if \<not> permission dir MAY_WRITE s then leave io [dir] [] (-EPERM) s
            else do {
              (dir, r, s) \<leftarrow> find_entry io dir basename namelen s;
              case r of
                Some (bh, de) \<Rightarrow> do { s \<leftarrow> brelse io (Some bh) s; leave io [dir] [] (-EEXIST) s }
              | None \<Rightarrow> mknod_at io dir basename namelen mode dev s } })"

text \<open>The first block of a new directory: the entries \<open>.\<close> and \<open>..\<close>.\<close>

definition dot_entries :: "nat \<Rightarrow> u16 \<Rightarrow> u16 \<Rightarrow> 'a fs_scheme \<Rightarrow> 'a fs_scheme" where
  "dot_entries bh self parent s =
     set_de_name bh 1 [DOT, DOT, 0] (set_de_inode bh 1 parent (set_de_name bh 0 [DOT, 0] (set_de_inode bh 0 self s)))"

definition mkdir_at ::
  "'a fs_scheme io \<Rightarrow> nat \<Rightarrow> u32 \<Rightarrow> nat \<Rightarrow> int \<Rightarrow> 'a fs_scheme \<Rightarrow> (int \<times> 'a fs_scheme) option" where
  "mkdir_at io dir basename namelen mode s =
     do { (inode, s) \<leftarrow> new_inode io (uint (i_dev (inode_table s dir))) s;
          case inode of
            None \<Rightarrow> leave io [dir] [] (-ENOSPC) s
          | Some i \<Rightarrow> do {
              let now = of_int (CURRENT_TIME s);
              let s = update_inode i (\<lambda>n. n\<lparr>i_size := 32, i_dirt := True, i_mtime := now, i_atime := now\<rparr>) s;
              (z, s) \<leftarrow> new_block io (uint (i_dev (inode_table s i))) s;
              let s = update_inode i (set_zone 0 (of_int z)) s;
              let dev = uint (i_dev (inode_table s i));
              if i_zone (inode_table s i) ! 0 = 0
              then do {
                s \<leftarrow> iput io (Some dir) s;
                leave io [i] [] (-ENOSPC) (update_inode i (\<lambda>n. n\<lparr>i_nlinks := i_nlinks n - 1\<rparr>) s) }
              else do {
                let s = update_inode i (i_dirt_update (\<lambda>_. True)) s;
                (dir_block, s) \<leftarrow> bread io dev (uint (i_zone (inode_table s i) ! 0)) s;
                case dir_block of
                  None \<Rightarrow> do {
                    s \<leftarrow> iput io (Some dir) s;
                    s \<leftarrow> free_block io (uint (i_dev (inode_table s i))) (uint (i_zone (inode_table s i) ! 0)) s;
                    leave io [i] [] (-ERROR) (update_inode i (\<lambda>n. n\<lparr>i_nlinks := i_nlinks n - 1\<rparr>) s) }
                | Some db \<Rightarrow> do {
                    let s = dot_entries db (i_num (inode_table s i)) (i_num (inode_table s dir)) s;
                    let s = update_inode i (i_nlinks_update (\<lambda>_. 2)) s;
                    let s = update_bh db (b_dirt_update (\<lambda>_. True)) s;
                    s \<leftarrow> brelse io (Some db) s;
                    let s = update_inode i (\<lambda>n. n\<lparr>i_mode := of_int (uint S_IFDIR OR
                              (mode AND 0x1ff AND NOT (uint (t_umask (cur_task s))))), i_dirt := True\<rparr>) s;
                    (r, s) \<leftarrow> add_entry io dir basename namelen s;
                    case r of
                      None \<Rightarrow> do {
                        s \<leftarrow> iput io (Some dir) s;
                        s \<leftarrow> free_block io (uint (i_dev (inode_table s i))) (uint (i_zone (inode_table s i) ! 0)) s;
                        leave io [i] [] (-ENOSPC) (update_inode i (i_nlinks_update (\<lambda>_. 0)) s) }
                    | Some (bh, de) \<Rightarrow>
                        let s = enter bh de i s;
                            s = update_inode dir (\<lambda>n. n\<lparr>i_nlinks := i_nlinks n + 1, i_dirt := True\<rparr>) s
                        in leave io [dir, i] [bh] 0 s } } } }"

definition sys_mkdir :: "'a fs_scheme io \<Rightarrow> u32 \<Rightarrow> int \<Rightarrow> 'a fs_scheme \<Rightarrow> (int \<times> 'a fs_scheme) option" where
  "sys_mkdir io pathname mode s =
     (if \<not> suser s then Some (-EPERM, s)
      else do {
        (r, s) \<leftarrow> dir_namei io pathname s;
        case r of
          None \<Rightarrow> Some (-ENOENT, s)
        | Some (dir, namelen, basename) \<Rightarrow>
            if namelen = 0 then leave io [dir] [] (-ENOENT) s
            else if \<not> permission dir MAY_WRITE s then leave io [dir] [] (-EPERM) s
            else do {
              (dir, r, s) \<leftarrow> find_entry io dir basename namelen s;
              case r of
                Some (bh, de) \<Rightarrow> do { s \<leftarrow> brelse io (Some bh) s; leave io [dir] [] (-EEXIST) s }
              | None \<Rightarrow> mkdir_at io dir basename namelen mode s } })"

subsection \<open>Removing directories\<close>

text \<open>The test loop. After a hole in the directory \<open>bh\<close> is released again on the next round.\<close>

partial_function (option) empty_dir_loop ::
  "'a fs_scheme io \<Rightarrow> nat \<Rightarrow> nat \<Rightarrow> nat \<Rightarrow> nat \<Rightarrow> nat \<Rightarrow> 'a fs_scheme \<Rightarrow> (bool \<times> 'a fs_scheme) option" where
  "empty_dir_loop io inode len bh de nr s =
     (if len \<le> nr then do { s \<leftarrow> brelse io (Some bh) s; Some (True, s) }
      else if DIR_ENTRIES_PER_BLOCK \<le> de
      then do {
        s \<leftarrow> brelse io (Some bh) s;
        (block, s) \<leftarrow> bmap io inode (int (nr div DIR_ENTRIES_PER_BLOCK)) s;
        if block = 0 then empty_dir_loop io inode len bh de (nr + DIR_ENTRIES_PER_BLOCK) s
        else do {
          (r, s) \<leftarrow> bread io (uint (i_dev (inode_table s inode))) block s;
          case r of
            None \<Rightarrow> Some (False, s)
          | Some bh \<Rightarrow>
              if de_inode (b_data (buffers s bh)) 0 \<noteq> 0 then do { s \<leftarrow> brelse io (Some bh) s; Some (False, s) }
              else empty_dir_loop io inode len bh 1 (nr + 1) s } }
      else if de_inode (b_data (buffers s bh)) de \<noteq> 0 then do { s \<leftarrow> brelse io (Some bh) s; Some (False, s) }
      else empty_dir_loop io inode len bh (de + 1) (nr + 1) s)"

definition bad_dots :: "u16 \<Rightarrow> u8 list \<Rightarrow> bool" where
  "bad_dots num d \<longleftrightarrow> de_inode d 0 \<noteq> num \<or> de_inode d 1 = 0
     \<or> take 2 (de_name d 0) \<noteq> [DOT, 0] \<or> take 3 (de_name d 1) \<noteq> [DOT, DOT, 0]"

definition empty_dir :: "'a fs_scheme io \<Rightarrow> nat \<Rightarrow> 'a fs_scheme \<Rightarrow> (bool \<times> 'a fs_scheme) option" where
  "empty_dir io inode s =
     (let len = unat (i_size (inode_table s inode)) div 16
      in if len < 2 \<or> i_zone (inode_table s inode) ! 0 = 0 then Some (False, s)
      else do {
        (bh, s) \<leftarrow> bread io (uint (i_dev (inode_table s inode))) (uint (i_zone (inode_table s inode) ! 0)) s;
        case bh of
          None \<Rightarrow> Some (False, s)
        | Some b \<Rightarrow>
            if bad_dots (i_num (inode_table s inode)) (b_data (buffers s b)) then Some (False, s)
            else empty_dir_loop io inode len b 2 2 s })"

text \<open>Taking the entry out of its directory: the common end of \<open>rmdir\<close> and \<open>unlink\<close>.\<close>

definition clear_entry :: "'a fs_scheme io \<Rightarrow> nat \<Rightarrow> nat \<Rightarrow> 'a fs_scheme \<Rightarrow> 'a fs_scheme option" where
  "clear_entry io bh de s =
     brelse io (Some bh) (update_bh bh (b_dirt_update (\<lambda>_. True)) (set_de_inode bh de 0 s))"

definition rmdir_at ::
  "'a fs_scheme io \<Rightarrow> nat \<Rightarrow> nat \<Rightarrow> nat \<Rightarrow> 'a fs_scheme \<Rightarrow> (int \<times> 'a fs_scheme) option" where
  "rmdir_at io dir bh de s =
     do { (i, s) \<leftarrow> iget io (uint (i_dev (inode_table s dir))) (uint (de_inode (b_data (buffers s bh)) de)) s;
          if i_mode (inode_table s dir) AND S_ISVTX \<noteq> 0 \<and> t_euid (cur_task s) \<noteq> 0
             \<and> i_uid (inode_table s i) \<noteq> t_euid (cur_task s)
          then leave io [dir, i] [bh] (-EPERM) s
          else if i_dev (inode_table s i) \<noteq> i_dev (inode_table s dir) \<or> i_count (inode_table s i) > 1
          then leave io [dir, i] [bh] (-EPERM) s
          else if i = dir then leave io [i, dir] [bh] (-EPERM) s
          else if \<not> S_ISDIR (i_mode (inode_table s i)) then leave io [i, dir] [bh] (-ENOTDIR) s
          else do {
            (e, s) \<leftarrow> empty_dir io i s;
            if \<not> e then leave io [i, dir] [bh] (-ENOTEMPTY) s
            else do {
              s \<leftarrow> clear_entry io bh de s;
              let now = of_int (CURRENT_TIME s);
              let s = update_inode i (\<lambda>n. n\<lparr>i_nlinks := 0, i_dirt := True\<rparr>) s;
              let s = update_inode dir (\<lambda>n. n\<lparr>i_nlinks := i_nlinks n - 1, i_ctime := now, i_mtime := now, i_dirt := True\<rparr>) s;
              leave io [dir, i] [] 0 s } } }"

definition sys_rmdir :: "'a fs_scheme io \<Rightarrow> u32 \<Rightarrow> 'a fs_scheme \<Rightarrow> (int \<times> 'a fs_scheme) option" where
  "sys_rmdir io name s =
     (if \<not> suser s then Some (-EPERM, s)
      else do {
        (r, s) \<leftarrow> dir_namei io name s;
        case r of
          None \<Rightarrow> Some (-ENOENT, s)
        | Some (dir, namelen, basename) \<Rightarrow>
            if namelen = 0 then leave io [dir] [] (-ENOENT) s
            else if \<not> permission dir MAY_WRITE s then leave io [dir] [] (-EPERM) s
            else do {
              (dir, r, s) \<leftarrow> find_entry io dir basename namelen s;
              case r of
                None \<Rightarrow> leave io [dir] [] (-ENOENT) s
              | Some (bh, de) \<Rightarrow> rmdir_at io dir bh de s } })"

subsection \<open>Links\<close>

definition unlink_at ::
  "'a fs_scheme io \<Rightarrow> nat \<Rightarrow> nat \<Rightarrow> nat \<Rightarrow> 'a fs_scheme \<Rightarrow> (int \<times> 'a fs_scheme) option" where
  "unlink_at io dir bh de s =
     do { (i, s) \<leftarrow> iget io (uint (i_dev (inode_table s dir))) (uint (de_inode (b_data (buffers s bh)) de)) s;
          if i_mode (inode_table s dir) AND S_ISVTX \<noteq> 0 \<and> \<not> suser s
             \<and> t_euid (cur_task s) \<noteq> i_uid (inode_table s i) \<and> t_euid (cur_task s) \<noteq> i_uid (inode_table s dir)
          then leave io [dir, i] [bh] (-EPERM) s
          else if S_ISDIR (i_mode (inode_table s i)) then leave io [i, dir] [bh] (-EPERM) s
          else do {
            let s = (if i_nlinks (inode_table s i) = 0 then update_inode i (i_nlinks_update (\<lambda>_. 1)) s else s);
            s \<leftarrow> clear_entry io bh de s;
            let now = of_int (CURRENT_TIME s);
            let s = update_inode i (\<lambda>n. n\<lparr>i_nlinks := i_nlinks n - 1, i_dirt := True, i_ctime := now\<rparr>) s;
            leave io [i, dir] [] 0 s } }"

definition sys_unlink :: "'a fs_scheme io \<Rightarrow> u32 \<Rightarrow> 'a fs_scheme \<Rightarrow> (int \<times> 'a fs_scheme) option" where
  "sys_unlink io name s =
     do { (r, s) \<leftarrow> dir_namei io name s;
          case r of
            None \<Rightarrow> Some (-ENOENT, s)
          | Some (dir, namelen, basename) \<Rightarrow>
              if namelen = 0 then leave io [dir] [] (-ENOENT) s
              else if \<not> permission dir MAY_WRITE s then leave io [dir] [] (-EPERM) s
              else do {
                (dir, r, s) \<leftarrow> find_entry io dir basename namelen s;
                case r of
                  None \<Rightarrow> leave io [dir] [] (-ENOENT) s
                | Some (bh, de) \<Rightarrow> unlink_at io dir bh de s } }"

definition link_at ::
  "'a fs_scheme io \<Rightarrow> nat \<Rightarrow> nat \<Rightarrow> u32 \<Rightarrow> nat \<Rightarrow> 'a fs_scheme \<Rightarrow> (int \<times> 'a fs_scheme) option" where
  "link_at io old dir basename namelen s =
     do { (dir, r, s) \<leftarrow> find_entry io dir basename namelen s;
          case r of
            Some (bh, de) \<Rightarrow> do { s \<leftarrow> brelse io (Some bh) s; leave io [dir, old] [] (-EEXIST) s }
          | None \<Rightarrow> do {
              (r, s) \<leftarrow> add_entry io dir basename namelen s;
              case r of
                None \<Rightarrow> leave io [dir, old] [] (-ENOSPC) s
              | Some (bh, de) \<Rightarrow> do {
                  let s = enter bh de old s;
                  s \<leftarrow> brelse io (Some bh) s;
                  s \<leftarrow> iput io (Some dir) s;
                  let now = of_int (CURRENT_TIME s);
                  let s = update_inode old (\<lambda>n. n\<lparr>i_nlinks := i_nlinks n + 1, i_ctime := now, i_dirt := True\<rparr>) s;
                  leave io [old] [] 0 s } } }"

definition sys_link :: "'a fs_scheme io \<Rightarrow> u32 \<Rightarrow> u32 \<Rightarrow> 'a fs_scheme \<Rightarrow> (int \<times> 'a fs_scheme) option" where
  "sys_link io oldname newname s =
     do { (old, s) \<leftarrow> namei io oldname s;
          case old of
            None \<Rightarrow> Some (-ENOENT, s)
          | Some old \<Rightarrow>
              if S_ISDIR (i_mode (inode_table s old)) then leave io [old] [] (-EPERM) s
              else do {
                (r, s) \<leftarrow> dir_namei io newname s;
                case r of
                  None \<Rightarrow> leave io [old] [] (-EACCES) s
                | Some (dir, namelen, basename) \<Rightarrow>
                    if namelen = 0 then leave io [old, dir] [] (-EPERM) s
                    else if i_dev (inode_table s dir) \<noteq> i_dev (inode_table s old) then leave io [dir, old] [] (-EXDEV) s
                    else if \<not> permission dir MAY_WRITE s then leave io [dir, old] [] (-EACCES) s
                    else link_at io old dir basename namelen s } }"

end
