(* ===== verification/Signal.thy ===== *)
theory Signal
  imports Exit
begin

text \<open>
  \<open>kernel/signal.c\<close>: the signal mask and the handlers of the current task, and \<open>do_signal\<close>,
  which \<open>kernel/system_call.s\<close> calls on the way back to user mode.
\<close>

abbreviation (input) SA_NOMASK :: u32 where "SA_NOMASK \<equiv> 0x40000000"
abbreviation (input) SA_ONESHOT :: u32 where "SA_ONESHOT \<equiv> 0x80000000"

definition sys_sgetmask :: "'a sched_scheme \<Rightarrow> int" where
  "sys_sgetmask s = sint (t_blocked (cur_task s))"

definition sys_ssetmask :: "int \<Rightarrow> 'a sched_scheme \<Rightarrow> int \<times> 'a sched_scheme" where
  "sys_ssetmask newmask s =
     (sint (t_blocked (cur_task s)),
      update_task (current s) (t_blocked_update (\<lambda>_. of_int newmask AND NOT (sig_bit SIGKILL))) s)"

text \<open>The 16 bytes of a \<open>struct sigaction\<close> in the user's memory, copied byte by byte in the source.\<close>

definition get_new :: "u32 \<Rightarrow> 'a sched_scheme \<Rightarrow> sigaction" where
  "get_new from s = \<lparr>sa_handler = get_fs_long from s, sa_mask = get_fs_long (from + 4) s,
     sa_flags = get_fs_long (from + 8) s, sa_restorer = get_fs_long (from + 12) s\<rparr>"

definition save_old :: "sigaction \<Rightarrow> u32 \<Rightarrow> 'a mm_scheme \<Rightarrow> 'a mm_scheme option" where
  "save_old sa to s = do {
     s \<leftarrow> verify_area to 16 s;
     Some (put_fs_long (sa_restorer sa) (to + 12) (put_fs_long (sa_flags sa) (to + 8)
       (put_fs_long (sa_mask sa) (to + 4) (put_fs_long (sa_handler sa) to s)))) }"

definition sig_action :: "nat \<Rightarrow> 'a sched_scheme \<Rightarrow> sigaction" where
  "sig_action signr s = t_sigaction (cur_task s) ! (signr - 1)"

definition set_sig_action :: "nat \<Rightarrow> sigaction \<Rightarrow> 'a sched_scheme \<Rightarrow> 'a sched_scheme" where
  "set_sig_action signr sa s = update_task (current s) (\<lambda>t. t\<lparr>t_sigaction := (t_sigaction t)[signr - 1 := sa]\<rparr>) s"

definition bad_signum :: "int \<Rightarrow> bool" where
  "bad_signum signum \<longleftrightarrow> signum < 1 \<or> signum > 32 \<or> signum = int SIGKILL"

definition sys_signal :: "int \<Rightarrow> u32 \<Rightarrow> u32 \<Rightarrow> 'a sched_scheme \<Rightarrow> int \<times> 'a sched_scheme" where
  "sys_signal signum handler restorer s =
     (if bad_signum signum then (-1, s)
      else (sint (sa_handler (sig_action (nat signum) s)),
            set_sig_action (nat signum)
              \<lparr>sa_handler = handler, sa_mask = 0, sa_flags = SA_ONESHOT OR SA_NOMASK, sa_restorer = restorer\<rparr> s))"

definition sys_sigaction :: "int \<Rightarrow> u32 \<Rightarrow> u32 \<Rightarrow> 'a mm_scheme \<Rightarrow> (int \<times> 'a mm_scheme) option" where
  "sys_sigaction signum action oldaction s =
     (if bad_signum signum then Some (-1, s)
      else do {
        let n = nat signum;
        let tmp = sig_action n s;
        let s = set_sig_action n (get_new action s) s;
        s \<leftarrow> (if oldaction \<noteq> 0 then save_old tmp oldaction s else Some s);
        let sa = sig_action n s;
        Some (0, set_sig_action n
          (if sa_flags sa AND SA_NOMASK \<noteq> 0 then sa\<lparr>sa_mask := 0\<rparr>
           else sa\<lparr>sa_mask := sa_mask sa OR sig_bit n\<rparr>) s) })"

text \<open>The part of the kernel stack that \<open>do_signal\<close> reads and changes.\<close>

record trap_frame =
  fr_eax :: u32
  fr_ebx :: u32
  fr_ecx :: u32
  fr_edx :: u32
  fr_fs :: u32
  fr_es :: u32
  fr_ds :: u32
  fr_eip :: u32
  fr_cs :: u32
  fr_eflags :: u32
  fr_esp :: u32
  fr_ss :: u32

fun put_longs :: "u32 list \<Rightarrow> u32 \<Rightarrow> 'a sched_scheme \<Rightarrow> 'a sched_scheme" where
  "put_longs [] a s = s"
| "put_longs (v # vs) a s = put_longs vs (a + 4) (put_fs_long v a s)"

text \<open>
  \<open>Inl\<close> the frame with which the task goes on in user mode, \<open>Inr\<close> the state in which the next
  task runs when the signal ended this one.
\<close>

definition do_signal ::
  "'a fs_scheme io \<Rightarrow> nat \<Rightarrow> trap_frame \<Rightarrow> 'a fs_scheme \<Rightarrow> (trap_frame \<times> 'a fs_scheme + 'a fs_scheme) option" where
  "do_signal io signr f s =
     (let sa = sig_action signr s;
          handler = sa_handler sa
      in if handler = 1 then Some (Inl (f, s))
         else if handler = 0
         then if signr = SIGCHLD then Some (Inl (f, s))
              else do { s \<leftarrow> do_exit io (sint (sig_bit signr)) s; Some (Inr s) }
         else do {
           let s = (if sa_flags sa AND SA_ONESHOT \<noteq> 0 then set_sig_action signr (sa\<lparr>sa_handler := 0\<rparr>) s else s);
           let nomask = sa_flags sa AND SA_NOMASK \<noteq> 0;
           let esp = fr_esp f - (if nomask then 28 else 32);
           s \<leftarrow> verify_area esp (if nomask then 28 else 32) s;
           let s = put_longs ([sa_restorer sa, of_nat signr]
                     @ (if nomask then [] else [t_blocked (cur_task s)])
                     @ [fr_eax f, fr_ecx f, fr_edx f, fr_eflags f, fr_eip f]) esp s;
           let s = update_task (current s) (\<lambda>t. t\<lparr>t_blocked := t_blocked t OR sa_mask sa\<rparr>) s;
           Some (Inl (f\<lparr>fr_eip := handler, fr_esp := esp\<rparr>, s)) })"

text \<open>
  \<open>ret_from_sys_call\<close> of \<open>kernel/system_call.s\<close>: the lowest pending signal that is not
  blocked is taken, for a task other than task 0 that goes back to user mode.
\<close>

definition low_bit :: "u32 \<Rightarrow> nat option" where
  "low_bit w = List.find (\<lambda>n. bit w n) [0..<32]"

definition ret_from_sys_call ::
  "'a fs_scheme io \<Rightarrow> trap_frame \<Rightarrow> 'a fs_scheme \<Rightarrow> (trap_frame \<times> 'a fs_scheme + 'a fs_scheme) option" where
  "ret_from_sys_call io f s =
     (if Some (current s) = task s ! 0 then Some (Inl (f, s))
      else if fr_cs f AND 0xffff \<noteq> 0xf then Some (Inl (f, s))
      else if fr_ss f AND 0xffff \<noteq> 0x17 then Some (Inl (f, s))
      else case low_bit (t_signal (cur_task s) AND NOT (t_blocked (cur_task s))) of
             None \<Rightarrow> Some (Inl (f, s))
           | Some n \<Rightarrow>
               do_signal io (n + 1) f
                 (update_task (current s) (\<lambda>t. t\<lparr>t_signal := unset_bit n (t_signal t)\<rparr>) s))"

end
