(* ===== verification/Exec.thy ===== *)
theory Exec
  imports Signal
begin

text \<open>
  \<open>fs/exec.c\<close>: \<open>do_execve\<close>. The strings of the arguments and of the environment are copied into
  fresh pages, from the last byte of the last string down; these pages become the top of the new
  address space, and \<open>create_tables\<close> builds the pointer tables below them. \<open>umem\<close> is the user segment;
  when \<open>change_ldt\<close> replaces the address space it becomes what the pages hold, and \<open>img\<close>, a parameter,
  elsewhere: what demand paging (\<open>do_no_page\<close>) puts into a page that is not present.
\<close>

abbreviation (input) MAX_ARG_PAGES :: nat where "MAX_ARG_PAGES \<equiv> 32"
abbreviation (input) ZMAGIC :: u32 where "ZMAGIC \<equiv> 0x10b"

subsection \<open>Strings in user memory\<close>

text \<open>The bytes of a string with its NUL, and the address after it.\<close>

partial_function (option) user_string :: "u32 \<Rightarrow> 'a sched_scheme \<Rightarrow> u8 list option" where
  "user_string p s =
     (if get_fs_byte p s = 0 then Some [0]
      else do { bs \<leftarrow> user_string (p + 1) s; Some (get_fs_byte p s # bs) })"

partial_function (option) skip_string :: "u32 \<Rightarrow> 'a sched_scheme \<Rightarrow> u32 option" where
  "skip_string p s = (if get_fs_byte p s = 0 then Some (p + 1) else skip_string (p + 1) s)"

text \<open>One of the two loops of \<open>create_tables\<close>: \<open>n\<close> pointers at \<open>t\<close> to the strings from \<open>p\<close> on.\<close>

fun put_table :: "nat \<Rightarrow> u32 \<Rightarrow> u32 \<Rightarrow> 'a sched_scheme \<Rightarrow> (u32 \<times> 'a sched_scheme) option" where
  "put_table 0 p t s = Some (p, put_fs_long 0 t s)"
| "put_table (Suc n) p t s =
     do { let s = put_fs_long p t s; p \<leftarrow> skip_string p s; put_table n p (t + 4) s }"

definition create_tables :: "u32 \<Rightarrow> nat \<Rightarrow> nat \<Rightarrow> 'a sched_scheme \<Rightarrow> (u32 \<times> 'a sched_scheme) option" where
  "create_tables p argc envc s = do {
     let envp = (0xfffffffc AND p) - 4 * (of_nat envc + 1);
     let argv = envp - 4 * (of_nat argc + 1);
     let sp = argv - 12;
     let s = put_fs_long (of_nat argc) sp (put_fs_long argv (sp + 4) (put_fs_long envp (sp + 8) s));
     (p, s) \<leftarrow> put_table argc p argv s;
     (p, s) \<leftarrow> put_table envc p envp s;
     Some (sp, s) }"

partial_function (option) count_from :: "u32 \<Rightarrow> nat \<Rightarrow> 'a sched_scheme \<Rightarrow> nat option" where
  "count_from tmp i s = (if get_fs_long tmp s = 0 then Some i else count_from (tmp + 4) (i + 1) s)"

definition count :: "u32 \<Rightarrow> 'a sched_scheme \<Rightarrow> nat option" where
  "count argv s = (if argv = 0 then Some 0 else count_from argv 0 s)"

subsection \<open>\<open>copy_strings\<close>\<close>

text \<open>
  The inner loop of \<open>copy_strings\<close>: the bytes of a string, last one first, go below \<open>p\<close>. \<open>off\<close> and
  \<open>pag\<close> are the place in the current page; the flag says whether there were enough pages. The array has
  32 entries, and the test \<open>p-len < 0\<close> of the source never holds for its unsigned operands, so that
  too long strings run off the array: that is \<open>None\<close>.
\<close>

fun copy_bytes ::
  "u8 list \<Rightarrow> int \<Rightarrow> u32 \<Rightarrow> u32 \<Rightarrow> u32 list \<Rightarrow> 'a mm_scheme
     \<Rightarrow> (bool \<times> int \<times> u32 \<times> u32 \<times> u32 list \<times> 'a mm_scheme) option" where
  "copy_bytes [] off pag p page s = Some (True, off, pag, p, page, s)"
| "copy_bytes (b # bs) off pag p page s =
     (let p = p - 1; off = off - 1
      in if off \<ge> 0 then copy_bytes bs off pag p page (set_byte (pag + of_int off) b s)
      else
        let k = unat (p div 4096); off = uint (p mod 4096)
        in if k \<ge> MAX_ARG_PAGES then None
        else
          let (pag, s) = (if page ! k \<noteq> 0 then (page ! k, s) else get_free_page s); page = page[k := pag]
          in if pag = 0 then Some (False, off, pag, p, page, s)
             else copy_bytes bs off pag p page (set_byte (pag + of_int off) b s))"

text \<open>The strings to copy, the last one first, as the ways to read them: from user or kernel memory.\<close>

fun copy_all ::
  "('a mm_scheme \<Rightarrow> u8 list option) list \<Rightarrow> int \<Rightarrow> u32 \<Rightarrow> u32 \<Rightarrow> u32 list \<Rightarrow> 'a mm_scheme
     \<Rightarrow> (u32 \<times> u32 list \<times> 'a mm_scheme) option" where
  "copy_all [] off pag p page s = Some (p, page, s)"
| "copy_all (f # fs) off pag p page s = do {
     bs \<leftarrow> f s;
     (ok, off, pag, p, page, s) \<leftarrow> copy_bytes (rev bs) off pag p page s;
     if ok then copy_all fs off pag p page s else Some (0, page, s) }"

definition copy_strings ::
  "('a mm_scheme \<Rightarrow> u8 list option) list \<Rightarrow> u32 list \<Rightarrow> u32 \<Rightarrow> 'a mm_scheme \<Rightarrow> (u32 \<times> u32 list \<times> 'a mm_scheme) option" where
  "copy_strings fs page p s = (if p = 0 then Some (0, page, s) else copy_all fs 0 0 p page s)"

text \<open>The strings of an array of \<open>argc\<close> pointers in user memory; a null pointer among them is a panic.\<close>

definition user_strings :: "nat \<Rightarrow> u32 \<Rightarrow> ('a mm_scheme \<Rightarrow> u8 list option) list" where
  "user_strings argc argv =
     map (\<lambda>k s. let tmp = get_fs_long (argv + 4 * of_nat k) s in if tmp = 0 then None else user_string tmp s) (rev [0..<argc])"

definition kernel_string :: "u8 list \<Rightarrow> 'a mm_scheme \<Rightarrow> u8 list option" where
  "kernel_string bs s = Some (bs @ [0])"

subsection \<open>The new address space\<close>

text \<open>What the user segment holds once the pages of the arguments are its top 128 kB.\<close>

definition arg_umem :: "u32 list \<Rightarrow> (u32 \<Rightarrow> u8) \<Rightarrow> 'a mm_scheme \<Rightarrow> u32 \<Rightarrow> u8" where
  "arg_umem page img s a =
     (let k = unat ((a - 0x3fe0000) div 4096)
      in if 0x3fe0000 \<le> a \<and> a < 0x4000000 \<and> page ! k \<noteq> 0 then mem_byte (page ! k + a mod 4096) s else img a)"

definition put_arg_page :: "u32 \<Rightarrow> u32 list \<Rightarrow> nat \<Rightarrow> 'a mm_scheme \<Rightarrow> 'a mm_scheme" where
  "put_arg_page high page i s =
     (if page ! i \<noteq> 0 then snd (put_page (page ! i) (high - 4096 * of_nat (MAX_ARG_PAGES - i)) s) else s)"

definition change_ldt :: "u32 \<Rightarrow> u32 list \<Rightarrow> (u32 \<Rightarrow> u8) \<Rightarrow> 'a mm_scheme \<Rightarrow> u32 \<times> 'a mm_scheme" where
  "change_ldt text_size page img s =
     (let code_limit = (text_size + 4096 - 1) AND 0xFFFFF000;
          data_limit = 0x4000000;
          base = t_code_base (cur_task s);
          s = update_task (current s) (\<lambda>t. t\<lparr>t_code_limit := code_limit, t_data_base := base, t_data_limit := data_limit\<rparr>) s;
          s = s\<lparr>umem := arg_umem page img s\<rparr>
      in (data_limit, fold (put_arg_page (base + data_limit) page) (rev [0..<MAX_ARG_PAGES]) s))"

subsection \<open>Headers and scripts\<close>

text \<open>\<open>struct exec\<close>: eight longs.\<close>

record exec =
  a_magic :: u32
  a_text :: u32
  a_data :: u32
  a_bss :: u32
  a_syms :: u32
  a_entry :: u32
  a_trsize :: u32
  a_drsize :: u32

definition decode_exec :: "u8 list \<Rightarrow> exec" where
  "decode_exec d =
     \<lparr>a_magic = get_long d 0, a_text = get_long d 1, a_data = get_long d 2, a_bss = get_long d 3,
      a_syms = get_long d 4, a_entry = get_long d 5, a_trsize = get_long d 6, a_drsize = get_long d 7\<rparr>"

definition N_TXTOFF :: "exec \<Rightarrow> u32" where
  "N_TXTOFF ex = (if a_magic ex = ZMAGIC then 1024 - 32 + 32 else 32)"

text \<open>The tests of the header of an executable; all of them fail with \<open>ENOEXEC\<close>.\<close>

definition exec_ok :: "exec \<Rightarrow> u32 \<Rightarrow> bool" where
  "exec_ok ex fsize \<longleftrightarrow>
     \<not> (a_magic ex \<noteq> ZMAGIC \<or> a_trsize ex \<noteq> 0 \<or> a_drsize ex \<noteq> 0 \<or> a_text ex + a_data ex + a_bss ex > 0x3000000
        \<or> fsize < a_text ex + a_data ex + a_syms ex + N_TXTOFF ex)
     \<and> N_TXTOFF ex = 1024"

definition blank :: "u8 \<Rightarrow> bool" where
  "blank c \<longleftrightarrow> c = 32 \<or> c = 9"

text \<open>
  The line of a script: the path of the interpreter, the last component of that, and the argument
  when there is one; \<open>None\<close> without a newline or without a name.
\<close>

definition script_line :: "u8 list \<Rightarrow> (u8 list \<times> u8 list \<times> u8 list option) option" where
  "script_line d =
     (let buf = takeWhile (\<lambda>c. c \<noteq> 0) (take 1022 (drop 2 d));
          line = dropWhile blank (takeWhile (\<lambda>c. c \<noteq> 10) buf);
          interp = takeWhile (\<lambda>c. \<not> blank c) line;
          rest = drop (length interp) line
      in if 10 \<notin> set buf \<or> line = [] then None
         else Some (interp, rev (takeWhile (\<lambda>c. c \<noteq> 47) (rev interp)), if rest = [] then None else Some (tl rest)))"

definition is_script :: "u8 list \<Rightarrow> bool" where
  "is_script d \<longleftrightarrow> d ! 0 = 35 \<and> d ! 1 = 33"

subsection \<open>\<open>do_execve\<close>\<close>

text \<open>The tests of the inode: an error, or the new user and group and the first block of the file.\<close>

definition exec_check ::
  "'a fs_scheme io \<Rightarrow> nat \<Rightarrow> 'a fs_scheme \<Rightarrow> ((int + u16 \<times> u16 \<times> nat) \<times> 'a fs_scheme) option" where
  "exec_check io i s =
     (let n = inode_table s i; m = uint (i_mode n); t = cur_task s
      in if \<not> S_ISREG (i_mode n) then Some (Inl (-EACCES), s)
      else
        let e_uid = (if m AND 0x800 \<noteq> 0 then i_uid n else t_euid t);
            e_gid = (if m AND 0x400 \<noteq> 0 then ucast (i_gid n) else t_egid t);
            x = (if t_euid t = i_uid n then drop_bit 6 m else if t_egid t = ucast (i_gid n) then drop_bit 3 m else m)
        in if x AND 1 = 0 \<and> \<not> (m AND 0x49 \<noteq> 0 \<and> suser s) then Some (Inl (-ENOEXEC), s)
        else do {
          (bh, s) \<leftarrow> bread io (uint (i_dev n)) (uint (i_zone n ! 0)) s;
          case bh of None \<Rightarrow> Some (Inl (-EACCES), s) | Some b \<Rightarrow> Some (Inr (e_uid, e_gid, b), s) })"

text \<open>\<open>exec_error1\<close> gives the pages back, \<open>exec_error2\<close> the inode first.\<close>

definition exec_error1 ::
  "int \<Rightarrow> u32 list \<Rightarrow> trap_frame \<Rightarrow> 'a fs_scheme \<Rightarrow> (int \<times> trap_frame \<times> 'a fs_scheme) option" where
  "exec_error1 retval page f s = do { s \<leftarrow> fold_opt free_page page s; Some (retval, f, s) }"

definition exec_error2 ::
  "'a fs_scheme io \<Rightarrow> nat \<Rightarrow> int \<Rightarrow> u32 list \<Rightarrow> trap_frame \<Rightarrow> 'a fs_scheme
     \<Rightarrow> (int \<times> trap_frame \<times> 'a fs_scheme) option" where
  "exec_error2 io inode retval page f s = do { s \<leftarrow> iput io (Some inode) s; exec_error1 retval page f s }"

text \<open>The handlers that are dropped and the descriptors that are closed.\<close>

definition drop_handlers :: "task_struct \<Rightarrow> task_struct" where
  "drop_handlers t = t\<lparr>t_sigaction := map (\<lambda>a. a\<lparr>sa_handler := 0\<rparr>) (t_sigaction t)\<rparr>"

definition close_on_exec_files :: "'a fs_scheme io \<Rightarrow> 'a fs_scheme \<Rightarrow> 'a fs_scheme option" where
  "close_on_exec_files io s = do {
     s \<leftarrow> fold_opt (\<lambda>fd s. if bit (t_close_on_exec (cur_task s)) fd then do { (r, s) \<leftarrow> sys_close io fd s; Some s } else Some s)
           [0..<NR_OPEN] s;
     Some (update_task (current s) (t_close_on_exec_update (\<lambda>_. 0)) s) }"

text \<open>The zeros from the end of the data to the end of its page.\<close>

definition zero_page_end :: "u32 \<Rightarrow> 'a sched_scheme \<Rightarrow> 'a sched_scheme" where
  "zero_page_end i s = fold (\<lambda>k. put_fs_byte 0 (i + of_nat k)) [0..<unat (- i AND 0xfff)] s"

text \<open>From the point of no return on.\<close>

definition exec_start ::
  "'a fs_scheme io \<Rightarrow> nat \<Rightarrow> exec \<Rightarrow> u16 \<Rightarrow> u16 \<Rightarrow> nat \<Rightarrow> nat \<Rightarrow> u32 \<Rightarrow> u32 list \<Rightarrow> (u32 \<Rightarrow> u8)
     \<Rightarrow> trap_frame \<Rightarrow> 'a fs_scheme \<Rightarrow> (int \<times> trap_frame \<times> 'a fs_scheme) option" where
  "exec_start io inode ex e_uid e_gid argc envc p page img f s = do {
     s \<leftarrow> iput io (t_executable (cur_task s)) s;
     let s = update_task (current s) (t_executable_update (\<lambda>_. Some inode)) s;
     let s = update_task (current s) drop_handlers s;
     s \<leftarrow> close_on_exec_files io s;
     (r, s) \<leftarrow> free_page_tables (t_code_base (cur_task s)) (t_code_limit (cur_task s)) s;
     (r, s) \<leftarrow> free_page_tables (t_data_base (cur_task s)) (t_data_limit (cur_task s)) s;
     let s = (if last_task_used_math s = Some (current s) then s\<lparr>last_task_used_math := None\<rparr> else s);
     let s = update_task (current s) (t_used_math_update (\<lambda>_. False)) s;
     let (limit, s) = change_ldt (a_text ex) page img s;
     (p, s) \<leftarrow> create_tables (p + limit - of_nat MAX_ARG_PAGES * 4096) argc envc s;
     let s = update_task (current s) (\<lambda>t. t\<lparr>t_end_code := a_text ex, t_end_data := a_data ex + a_text ex,
               t_brk := a_bss ex + (a_data ex + a_text ex), t_start_stack := p AND 0xfffff000,
               t_euid := e_uid, t_egid := e_gid\<rparr>) s;
     let s = zero_page_end (a_text ex + a_data ex) s;
     Some (0, f\<lparr>fr_eip := a_entry ex, fr_esp := p\<rparr>, s) }"

text \<open>A binary whose header has been read; the strings of a script have been copied before.\<close>

definition exec_binary ::
  "'a fs_scheme io \<Rightarrow> nat \<Rightarrow> exec \<Rightarrow> u16 \<Rightarrow> u16 \<Rightarrow> nat \<Rightarrow> nat \<Rightarrow> u32 \<Rightarrow> u32 \<Rightarrow> bool \<Rightarrow> u32 \<Rightarrow> u32 list \<Rightarrow> (u32 \<Rightarrow> u8)
     \<Rightarrow> trap_frame \<Rightarrow> 'a fs_scheme \<Rightarrow> (int \<times> trap_frame \<times> 'a fs_scheme) option" where
  "exec_binary io inode ex e_uid e_gid argc envc argv envp sh_bang p page img f s =
     (if \<not> exec_ok ex (i_size (inode_table s inode)) then exec_error2 io inode (-ENOEXEC) page f s
      else if sh_bang then exec_start io inode ex e_uid e_gid argc envc p page img f s
      else do {
        (p, page, s) \<leftarrow> copy_strings (user_strings envc envp) page p s;
        (p, page, s) \<leftarrow> copy_strings (user_strings argc argv) page p s;
        if p = 0 then exec_error2 io inode (-ENOMEM) page f s
        else exec_start io inode ex e_uid e_gid argc envc p page img f s })"

text \<open>\<open>namei\<close> on a string in kernel memory, with \<open>fs\<close> set to the kernel's segment.\<close>

definition kernel_namei :: "'a fs_scheme io \<Rightarrow> u8 list \<Rightarrow> 'a fs_scheme \<Rightarrow> (nat option \<times> 'a fs_scheme) option" where
  "kernel_namei io name s = do {
     (i, s') \<leftarrow> namei io 0 (s\<lparr>umem := write_bytes (name @ [0]) 0 (\<lambda>_. 0)\<rparr>);
     Some (i, s'\<lparr>umem := umem s\<rparr>) }"

text \<open>The second turn, with the inode of an interpreter: a script there is taken for a binary.\<close>

definition exec_interp ::
  "'a fs_scheme io \<Rightarrow> nat \<Rightarrow> nat \<Rightarrow> nat \<Rightarrow> u32 \<Rightarrow> u32 \<Rightarrow> u32 \<Rightarrow> u32 list \<Rightarrow> (u32 \<Rightarrow> u8) \<Rightarrow> trap_frame
     \<Rightarrow> 'a fs_scheme \<Rightarrow> (int \<times> trap_frame \<times> 'a fs_scheme) option" where
  "exec_interp io inode argc envc argv envp p page img f s = do {
     (r, s) \<leftarrow> exec_check io inode s;
     case r of
       Inl e \<Rightarrow> exec_error2 io inode e page f s
     | Inr (e_uid, e_gid, b) \<Rightarrow> do {
         let ex = decode_exec (b_data (buffers s b));
         s \<leftarrow> brelse io (Some b) s;
         exec_binary io inode ex e_uid e_gid argc envc argv envp True p page img f s } }"

definition exec_script ::
  "'a fs_scheme io \<Rightarrow> u8 list \<Rightarrow> u32 \<Rightarrow> nat \<Rightarrow> nat \<Rightarrow> u32 \<Rightarrow> u32 \<Rightarrow> u32 \<Rightarrow> u32 list \<Rightarrow> (u32 \<Rightarrow> u8) \<Rightarrow> trap_frame
     \<Rightarrow> 'a fs_scheme \<Rightarrow> (int \<times> trap_frame \<times> 'a fs_scheme) option" where
  "exec_script io d filename argc envc argv envp p page img f s =
     (case script_line d of
        None \<Rightarrow> exec_error1 (-ENOEXEC) page f s
      | Some (interp, i_name, i_arg) \<Rightarrow> do {
          (p, page, s) \<leftarrow> copy_strings (user_strings envc envp) page p s;
          (p, page, s) \<leftarrow> copy_strings (user_strings (argc - 1) (argv + 4)) page p s;
          (p, page, s) \<leftarrow> copy_strings [user_string filename] page p s;
          (p, page, s) \<leftarrow> (case i_arg of None \<Rightarrow> Some (p, page, s) | Some a \<Rightarrow> copy_strings [kernel_string a] page p s);
          (p, page, s) \<leftarrow> copy_strings [kernel_string i_name] page p s;
          let argc = nat (int argc - 1 + (if i_arg = None then 2 else 3));
          if p = 0 then exec_error1 (-ENOMEM) page f s
          else do {
            (i, s) \<leftarrow> kernel_namei io interp s;
            case i of
              None \<Rightarrow> exec_error1 (-ENOENT) page f s
            | Some inode \<Rightarrow> exec_interp io inode argc envc argv envp p page img f s } })"

definition do_execve ::
  "'a fs_scheme io \<Rightarrow> (u32 \<Rightarrow> u8) \<Rightarrow> trap_frame \<Rightarrow> u32 \<Rightarrow> u32 \<Rightarrow> u32 \<Rightarrow> 'a fs_scheme
     \<Rightarrow> (int \<times> trap_frame \<times> 'a fs_scheme) option" where
  "do_execve io img f filename argv envp s =
     (if fr_cs f AND 0xffff \<noteq> 0x000f then None
      else do {
        let page = replicate MAX_ARG_PAGES 0;
        let p = of_nat (4096 * MAX_ARG_PAGES - 4);
        (i, s) \<leftarrow> namei io filename s;
        case i of
          None \<Rightarrow> Some (-ENOENT, f, s)
        | Some inode \<Rightarrow> do {
            argc \<leftarrow> count argv s;
            envc \<leftarrow> count envp s;
            (r, s) \<leftarrow> exec_check io inode s;
            case r of
              Inl e \<Rightarrow> exec_error2 io inode e page f s
            | Inr (e_uid, e_gid, b) \<Rightarrow> do {
                let d = b_data (buffers s b);
                s \<leftarrow> brelse io (Some b) s;
                if is_script d
                then do {
                  s \<leftarrow> iput io (Some inode) s;
                  exec_script io d filename argc envc argv envp p page img f s }
                else exec_binary io inode (decode_exec d) e_uid e_gid argc envc argv envp False p page img f s } } })"

end
