(* ===== verification/Syscall.thy ===== *)
theory Syscall
  imports Boot Kill Wait Pipe Dir_Calls Char_Dev Exec
begin

text \<open>
  The kernel seen from user mode: \<open>_system_call\<close>, \<open>_timer_interrupt\<close> and the two traps of the coprocessor
  of \<open>kernel/system_call.s\<close>, the table of \<open>include/linux/sys.h\<close>, and the functions of the C library that
  make a call (\<open>include/unistd.h\<close>, \<open>lib/\<close>). A call takes its arguments from \<open>ebx\<close>, \<open>ecx\<close> and \<open>edx\<close>. The C
  functions of the kernel could change these slots of their stack, which a compiler may use for anything;
  here they are left alone.
\<close>

subsection \<open>The block layer of the machine\<close>

text \<open>
  The functions behind the pointers: the drivers that \<open>request_fn\<close> names, with room for \<open>d\<close> calls of
  \<open>do_fd_request\<close> inside each other, and \<open>sync_inodes\<close> with room for \<open>n\<close>. \<open>env\<close> is what the other tasks and
  the interrupts do while the current task sleeps.
\<close>

definition call_request_fn :: "nat \<Rightarrow> nat \<Rightarrow> 'a machine_scheme \<Rightarrow> 'a machine_scheme option" where
  "call_request_fn d major s =
     (case request_fn s major of
        None \<Rightarrow> None
      | Some do_rd \<Rightarrow> do_rd_request s
      | Some do_fd \<Rightarrow> do_fd_request d s
      | Some do_hd \<Rightarrow> do_hd_request s)"

definition machine_io :: "nat \<Rightarrow> nat \<Rightarrow> 'a machine_scheme environment \<Rightarrow> 'a machine_scheme io" where
  "machine_io n d env = kernel_io n
     \<lparr>wait_env = env, start_request = call_request_fn d, floppy_change = (\<lambda>nr. Floppy.floppy_change env (nat nr)),
      write_inodes = (\<lambda>_. None)\<rparr>"

text \<open>The \<open>write\<close> functions of the three entries of \<open>tty_table\<close>.\<close>

definition tty_write_fn :: "nat \<Rightarrow> nat \<Rightarrow> 'a sys_scheme \<Rightarrow> 'a sys_scheme option" where
  "tty_write_fn d i = (if i = 0 then con_write d 0 else rs_write i)"

subsection \<open>The table of the system calls\<close>

text \<open>
  What a call needs besides its arguments: the block layer, the terminals, the bytes of uninitialised
  padding that some calls copy out, and the contents of the pages of a new program.
\<close>

record 's kernel =
  k_io :: "'s io"
  k_tty :: "nat \<Rightarrow> 's \<Rightarrow> 's option"
  k_pad :: "u8 list"
  k_img :: "u32 \<Rightarrow> u8"

text \<open>The registers that \<open>_system_call\<close> leaves in the processor and that only \<open>_sys_fork\<close> pushes.\<close>

record kept_regs =
  k_gs :: u32
  k_esi :: u32
  k_edi :: u32
  k_ebp :: u32

definition pushed :: "kept_regs \<Rightarrow> trap_frame \<Rightarrow> fork_regs" where
  "pushed r f = \<lparr>r_ebp = k_ebp r, r_edi = k_edi r, r_esi = k_esi r, r_gs = k_gs r, r_ebx = fr_ebx f, r_ecx = fr_ecx f,
     r_edx = fr_edx f, r_fs = fr_fs f, r_es = fr_es f, r_ds = fr_ds f, r_eip = fr_eip f, r_cs = fr_cs f,
     r_eflags = fr_eflags f, r_esp = fr_esp f, r_ss = fr_ss f\<rparr>"

text \<open>
  \<open>Inl\<close> the result with the frame of the caller, which only \<open>execve\<close> changes; \<open>Inr\<close> the state in which
  another task runs, after \<open>exit\<close>.
\<close>

type_synonym 's call_result = "(int \<times> trap_frame \<times> 's + 's) option"

definition returns :: "trap_frame \<Rightarrow> (int \<times> 's) option \<Rightarrow> 's call_result" where
  "returns f x = map_option (\<lambda>(v, s). Inl (v, f, s)) x"

definition sys_execve ::
  "'a fs_scheme kernel \<Rightarrow> trap_frame \<Rightarrow> u32 \<Rightarrow> u32 \<Rightarrow> u32 \<Rightarrow> 'a fs_scheme \<Rightarrow> 'a fs_scheme call_result" where
  "sys_execve k f filename argv envp s = map_option Inl (do_execve (k_io k) (k_img k) f filename argv envp s)"

definition sys_call_table ::
  "'a machine_scheme kernel \<Rightarrow> kept_regs \<Rightarrow> trap_frame \<Rightarrow> 'a machine_scheme \<Rightarrow> 'a machine_scheme call_result list" where
  "sys_call_table k r f s =
     (let io = k_io k; a = fr_ebx f; b = fr_ecx f; c = fr_edx f; val = (\<lambda>v. returns f (Some (v, s))); upd = (\<lambda>p. returns f (Some p)); ret = returns f
      in [ret (sys_setup io a s), map_option Inr (sys_exit io (sint a) s), ret (sys_fork (pushed r f) s),
          ret (sys_read io (k_tty k) (unat a) b (sint c) s),
          ret (sys_write io (k_tty k) (unat a) b (sint c) s), ret (sys_open io a (sint b) (sint c) s),
          ret (sys_close io (unat a) s), ret (sys_waitpid (wait_env io) (sint a) b c s), ret (sys_creat io a (sint b) s),
          ret (sys_link io a b s),
          ret (sys_unlink io a s), sys_execve k f a b c s, ret (sys_chdir io a s), ret (sys_time a s),
          ret (sys_mknod io a (sint b) (sint c) s), ret (sys_chmod io a (sint b) s),
          ret (sys_chown io a (sint b) (sint c) s), val sys_break, ret (sys_stat io (k_pad k) a b s),
          upd (sys_lseek (unat a) (sint b) (sint c) s), val (sys_getpid s), ret (sys_mount io a b (sint c) s),
          ret (sys_umount io a s), upd (sys_setuid (sint a) s), val (sys_getuid s), upd (sys_stime a s), val sys_ptrace,
          upd (sys_alarm (sint a) s),
          ret (sys_fstat (k_pad k) (unat a) b s), ret (sys_pause (wait_env io) s), ret (sys_utime io a b s), val sys_stty,
          val sys_gtty, ret (sys_access io a (sint b) s),
          upd (sys_nice (sint a) s), val sys_ftime, ret (sys_sync io s), upd (sys_kill (sint a) (sint b) s), val sys_rename,
          ret (sys_mkdir io a (sint b) s),
          ret (sys_rmdir io a s), upd (sys_dup (unat a) s), ret (sys_pipe io a s), ret (sys_times a s), val sys_prof,
          upd (sys_brk a s), upd (sys_setgid (sint a) s),
          val (sys_getgid s), upd (sys_signal (sint a) b c s), val (sys_geteuid s), val (sys_getegid s), val sys_acct, val sys_phys,
          val sys_lock, ret (sys_ioctl (k_pad k) (unat a) (sint b) c s), upd (sys_fcntl (unat a) (unat b) c s), val sys_mpx,
          upd (sys_setpgid (sint a) (sint b) s), val sys_ulimit,
          ret (sys_uname a s), upd (sys_umask (sint a) s), ret (sys_chroot io a s), val (sys_ustat (sint a) b),
          ret (sys_dup2 io (unat a) (unat b) s), val (sys_getppid s),
          val (sys_getpgrp s), upd (sys_setsid s), ret (sys_sigaction (sint a) b c s), val (sys_sgetmask s),
          upd (sys_ssetmask (sint a) s),
          upd (sys_setreuid (sint a) (sint b) s), upd (sys_setregid (sint a) (sint b) s)])"

subsection \<open>\<open>_system_call\<close> and the interrupts\<close>

text \<open>
  A number above 71 returns at once, without a look at the signals. After a call the task gives up the
  processor when it may not run on. \<open>Inr\<close> is as for \<open>do_signal\<close>.
\<close>

type_synonym 's return = "(trap_frame \<times> 's + 's) option"

definition system_call ::
  "'a machine_scheme kernel \<Rightarrow> kept_regs \<Rightarrow> trap_frame \<Rightarrow> 'a machine_scheme \<Rightarrow> 'a machine_scheme return" where
  "system_call k r f s =
     (if fr_eax f > 71 then Some (Inl (f\<lparr>fr_eax := -1\<rparr>, s))
      else do {
        x \<leftarrow> sys_call_table k r f s ! unat (fr_eax f);
        case x of
          Inr s \<Rightarrow> Some (Inr s)
        | Inl (v, f, s) \<Rightarrow> do {
            s \<leftarrow> (if t_state (cur_task s) \<noteq> 0 \<or> t_counter (cur_task s) = 0 then reschedule (wait_env (k_io k)) s else Some s);
            ret_from_sys_call (k_io k) (f\<lparr>fr_eax := of_int v\<rparr>) s } })"

definition timer_interrupt ::
  "'a fs_scheme io \<Rightarrow> (nat \<Rightarrow> 'a fs_scheme \<Rightarrow> 'a fs_scheme option) \<Rightarrow> trap_frame \<Rightarrow> 'a fs_scheme \<Rightarrow> 'a fs_scheme return" where
  "timer_interrupt io call f s = do {
     let s = s\<lparr>jiffies := wrap32 (jiffies s + 1)\<rparr>;
     let s = outb 0x20 0x20 s;
     s \<leftarrow> do_timer (wait_env io) call (uint (fr_cs f AND 3)) s;
     ret_from_sys_call io f s }"

definition coprocessor_error :: "'a fs_scheme io \<Rightarrow> trap_frame \<Rightarrow> 'a fs_scheme \<Rightarrow> 'a fs_scheme return" where
  "coprocessor_error io f s = ret_from_sys_call io f (math_error s)"

text \<open>\<open>em\<close> is the bit of \<open>cr0\<close> that asks for emulation.\<close>

definition device_not_available :: "bool \<Rightarrow> 'a fs_scheme io \<Rightarrow> trap_frame \<Rightarrow> 'a fs_scheme \<Rightarrow> 'a fs_scheme return" where
  "device_not_available em io f s =
     (if \<not> em then ret_from_sys_call io f (math_state_restore s)
      else do {
        (eip, s) \<leftarrow> math_emulate (ucast (fr_cs f)) (fr_eip f) s;
        ret_from_sys_call io (f\<lparr>fr_eip := eip\<rparr>) s })"

subsection \<open>The C library\<close>

text \<open>
  The macros \<open>_syscall0\<close> to \<open>_syscall3\<close>: the number and the arguments in their registers, and a negative
  result turned into \<open>errno\<close>. When a signal is caught the handler runs first and its return restores
  \<open>eax\<close> from the frame.
\<close>

definition user_result :: "u32 \<Rightarrow> int \<Rightarrow> int \<times> int" where
  "user_result eax errno = (if sint eax \<ge> 0 then (sint eax, errno) else (-1, wrap32 (- sint eax)))"

definition syscall ::
  "'a machine_scheme kernel \<Rightarrow> kept_regs \<Rightarrow> u32 \<Rightarrow> trap_frame \<Rightarrow> int \<Rightarrow> 'a machine_scheme
     \<Rightarrow> ((int \<times> int) \<times> trap_frame \<times> 'a machine_scheme + 'a machine_scheme) option" where
  "syscall k r nr f errno s = do {
     x \<leftarrow> system_call k r (f\<lparr>fr_eax := nr\<rparr>) s;
     Some (case x of Inr s \<Rightarrow> Inr s | Inl (f, s) \<Rightarrow> Inl (user_result (fr_eax f) errno, f, s)) }"

definition syscall1 where "syscall1 k r nr a f = syscall k r nr (f\<lparr>fr_ebx := a\<rparr>)"
definition syscall2 where "syscall2 k r nr a b f = syscall k r nr (f\<lparr>fr_ebx := a, fr_ecx := b\<rparr>)"
definition syscall3 where "syscall3 k r nr a b c f = syscall k r nr (f\<lparr>fr_ebx := a, fr_ecx := b, fr_edx := c\<rparr>)"

text \<open>The files of \<open>lib/\<close>; \<open>_exit\<close> does not return.\<close>

definition lib_exit :: "'a machine_scheme kernel \<Rightarrow> kept_regs \<Rightarrow> u32 \<Rightarrow> trap_frame \<Rightarrow> 'a machine_scheme \<Rightarrow> 'a machine_scheme return" where
  "lib_exit k r exit_code f = system_call k r (f\<lparr>fr_eax := 1, fr_ebx := exit_code\<rparr>)"

definition lib_write where "lib_write k r fd buf len = syscall3 k r 4 fd buf len"
definition lib_open where "lib_open k r filename flag mode = syscall3 k r 5 filename flag mode"
definition lib_close where "lib_close k r fd = syscall1 k r 6 fd"
definition lib_waitpid where "lib_waitpid k r pid wait_stat options = syscall3 k r 7 pid wait_stat options"
definition lib_wait where "lib_wait k r wait_stat = lib_waitpid k r (-1) wait_stat 0"
definition lib_execve where "lib_execve k r file argv envp = syscall3 k r 11 file argv envp"
definition lib_dup where "lib_dup k r fd = syscall1 k r 41 fd"
definition lib_setsid where "lib_setsid k r = syscall k r 66"

end
