(* ===== verification/Exec_Args.thy ===== *)
theory Exec_Args
  imports Exec
begin

text \<open>
  The arguments of a new program: the strings of \<open>argv\<close> and \<open>envp\<close> are copied into fresh pages, these
  become the top of the new address space, and \<open>create_tables\<close> builds the tables that point to them. The
  new program finds the strings its caller passed.
\<close>

subsection \<open>The pages\<close>

text \<open>What is at an offset of the 128 kB that the pages stand for.\<close>

definition arg_byte :: "u32 list \<Rightarrow> 'a mm_scheme \<Rightarrow> nat \<Rightarrow> u8 option" where
  "arg_byte page s x =
     (if page ! (x div 4096) = 0 then None else Some (mem_byte (page ! (x div 4096) + of_nat (x mod 4096)) s))"

definition free_frames :: "'a mm_scheme \<Rightarrow> nat" where
  "free_frames s = card {i. i < PAGING_PAGES \<and> mem_map s ! i = 0}"

definition empty_slots :: "u32 list \<Rightarrow> nat" where
  "empty_slots page = card {k. k < MAX_ARG_PAGES \<and> page ! k = 0}"

lemma empty_slots_pos: "k < MAX_ARG_PAGES \<Longrightarrow> page ! k = 0 \<Longrightarrow> 0 < empty_slots page"
  unfolding empty_slots_def by (subst card_gt_0_iff) auto

text \<open>The pages are different frames in use, and there are enough free ones for the empty entries.\<close>

definition pages_ok :: "u32 list \<Rightarrow> 'a mm_scheme \<Rightarrow> bool" where
  "pages_ok page s \<longleftrightarrow> mm_ok s \<and> length page = MAX_ARG_PAGES \<and> empty_slots page \<le> free_frames s
     \<and> (\<forall>k < MAX_ARG_PAGES. page ! k \<noteq> 0 \<longrightarrow> (\<exists>i < PAGING_PAGES. page ! k = page_addr i \<and> mem_map s ! i \<noteq> 0))
     \<and> (\<forall>j < MAX_ARG_PAGES. \<forall>k < MAX_ARG_PAGES. page ! j \<noteq> 0 \<longrightarrow> page ! j = page ! k \<longrightarrow> j = k)"

lemma unat_in_page: "i < PAGING_PAGES \<Longrightarrow> m < 4096 \<Longrightarrow> unat (page_addr i + of_nat m) = 4096 * i + 0x100000 + m"
  by (simp add: unat_word_ariths unat_page_addr unat_of_nat)

lemma page_addr_inject:
  assumes "page_addr i + of_nat m = page_addr j + of_nat n" "i < PAGING_PAGES" "j < PAGING_PAGES" "m < 4096" "n < 4096"
  shows "i = j \<and> m = n"
proof -
  have "4096 * i + m = 4096 * j + n"
    using arg_cong [OF assms(1), of unat] assms(2-5) by (simp add: unat_in_page)
  then have "(4096 * i + m) div 4096 = (4096 * j + n) div 4096" "(4096 * i + m) mod 4096 = (4096 * j + n) mod 4096" by simp_all
  with assms(4,5) show ?thesis by simp
qed

lemma page_addr_eq: "i < PAGING_PAGES \<Longrightarrow> j < PAGING_PAGES \<Longrightarrow> page_addr i = page_addr j \<longleftrightarrow> i = j"
  using page_addr_inject [of i 0 j 0] by auto

lemma pages_ok_D: "pages_ok page s \<Longrightarrow> mm_ok s \<and> length page = MAX_ARG_PAGES \<and> empty_slots page \<le> free_frames s"
  unfolding pages_ok_def by blast

lemma pages_ok_page:
  assumes "pages_ok page s" "k < MAX_ARG_PAGES" "page ! k \<noteq> 0"
  obtains i where "i < PAGING_PAGES" "page ! k = page_addr i" "mem_map s ! i \<noteq> 0"
  using assms unfolding pages_ok_def by blast

lemma pages_ok_inject:
  "pages_ok page s \<Longrightarrow> j < MAX_ARG_PAGES \<Longrightarrow> k < MAX_ARG_PAGES \<Longrightarrow> page ! j \<noteq> 0 \<Longrightarrow> page ! j = page ! k \<Longrightarrow> j = k"
  unfolding pages_ok_def by blast

lemma arg_byte_set:
  assumes ok: "pages_ok page s" and k: "k < MAX_ARG_PAGES" "page ! k \<noteq> 0" and m: "m < 4096" and y: "y < 131072"
  shows "arg_byte page (set_byte (page ! k + of_nat m) b s) y = (if y = 4096 * k + m then Some b else arg_byte page s y)"
proof (cases "page ! (y div 4096) = 0")
  case True
  with k m show ?thesis by (auto simp: arg_byte_def)
next
  case False
  have ky: "y div 4096 < MAX_ARG_PAGES" using y by simp
  obtain i where i: "i < PAGING_PAGES" "page ! k = page_addr i" using ok k by (auto simp: pages_ok_def)
  obtain j where j: "j < PAGING_PAGES" "page ! (y div 4096) = page_addr j" using ok ky False by (auto simp: pages_ok_def)
  have "page ! (y div 4096) + of_nat (y mod 4096) = page ! k + of_nat m \<longleftrightarrow> y = 4096 * k + m"
  proof
    assume "page ! (y div 4096) + of_nat (y mod 4096) = page ! k + of_nat m"
    then have "j = i \<and> y mod 4096 = m" unfolding i j using i j m by (intro page_addr_inject) simp_all
    then have "y div 4096 = k \<and> y mod 4096 = m" using ok ky k i j by (auto simp: pages_ok_def)
    then show "y = 4096 * k + m" by (metis mult_div_mod_eq)
  qed (use m in simp)
  with False show ?thesis by (simp add: arg_byte_def)
qed

lemma mem_byte_clear:
  assumes "i < PAGING_PAGES" "j < PAGING_PAGES" "m < 4096"
  shows "mem_byte (page_addr j + of_nat m) (clear_page (page_addr i) s)
     = (if i = j then 0 else mem_byte (page_addr j + of_nat m) s)"
proof -
  have "in_page (page_addr i) ((4096 * j + 0x100000 + m) div 4) \<longleftrightarrow> i = j"
    using assms by (auto simp: in_page_page_addr)
  then show ?thesis
    unfolding mem_byte_def clear_page_def unat_in_page [OF assms(2,3)] by simp
qed

lemma pages_ok_set: "pages_ok page s \<Longrightarrow> pages_ok page (set_byte a b s)"
  by (simp add: pages_ok_def mm_ok_def free_frames_def set_byte_def Let_def)

lemma umem_set_byte [simp]: "umem (set_byte a b s) = umem s"
  by (simp add: set_byte_def Let_def)

text \<open>A fresh page for an empty entry: it is not one of the others and changes none of them.\<close>

lemma fresh_page:
  assumes ok: "pages_ok page s" and k: "k < MAX_ARG_PAGES" "page ! k = 0"
    and i: "i < PAGING_PAGES" "mem_map s ! i = 0"
    and s': "s' = clear_page (page_addr i) (set_map i 1 s)"
  shows "pages_ok (page[k := page_addr i]) s'"
    "\<And>y. y < 131072 \<Longrightarrow> arg_byte page s y \<noteq> None \<Longrightarrow> arg_byte (page[k := page_addr i]) s' y = arg_byte page s y"
proof -
  have other: "page ! j \<noteq> page_addr i" if "j < MAX_ARG_PAGES" for j
  proof
    assume a: "page ! j = page_addr i"
    then have "page ! j \<noteq> 0" using i(1) by simp
    then obtain i' where i': "i' < PAGING_PAGES" "page ! j = page_addr i'" "mem_map s ! i' \<noteq> 0"
      using pages_ok_page [OF ok \<open>j < MAX_ARG_PAGES\<close>] by blast
    have "page_addr i' = page_addr i" using trans [OF sym [OF i'(2)] a] .
    then have "i' = i" using page_addr_eq [OF i'(1) i(1)] by blast
    then show False using i'(3) i(2) by simp
  qed
  have "\<exists>i' < PAGING_PAGES. page[k := page_addr i] ! j = page_addr i' \<and> (mem_map s)[i := 1] ! i' \<noteq> 0"
    if j: "j < MAX_ARG_PAGES" "page[k := page_addr i] ! j \<noteq> 0" for j
  proof (cases "j = k")
    case True
    have "length (mem_map s) = PAGING_PAGES" "length page = MAX_ARG_PAGES" using ok by (simp_all add: pages_ok_def mm_ok_def)
    then have "page[k := page_addr i] ! j = page_addr i \<and> (mem_map s)[i := 1] ! i \<noteq> 0" using True i(1) k(1) by simp
    then show ?thesis using i(1) by blast
  next
    case False
    then have nz: "page ! j \<noteq> 0" using j by simp
    obtain i' where i': "i' < PAGING_PAGES" "page ! j = page_addr i'" "mem_map s ! i' \<noteq> 0"
      using pages_ok_page [OF ok j(1) nz] .
    then have "i' \<noteq> i" using i(2) by auto
    then have "page[k := page_addr i] ! j = page_addr i' \<and> (mem_map s)[i := 1] ! i' \<noteq> 0" using False i' by simp
    then show ?thesis using i'(1) by blast
  qed
  moreover have "j = l" if "j < MAX_ARG_PAGES" "l < MAX_ARG_PAGES" "page[k := page_addr i] ! j \<noteq> 0"
      "page[k := page_addr i] ! j = page[k := page_addr i] ! l" for j l
  proof (cases "j = k \<or> l = k")
    case True
    have len: "length page = MAX_ARG_PAGES" using ok by (simp add: pages_ok_def)
    show ?thesis
    proof (rule ccontr)
      assume "j \<noteq> l"
      with True that(1,2,4) len k(1) other [of j] other [of l] show False by (cases "j = k") auto
    qed
  next
    case False
    then have "page ! j \<noteq> 0" "page ! j = page ! l" using that(3,4) by simp_all
    then show ?thesis using pages_ok_inject [OF ok that(1,2)] by blast
  qed
  moreover have "mm_ok s'" "length (page[k := page_addr i]) = MAX_ARG_PAGES" "mem_map s' = (mem_map s)[i := 1]"
    using ok by (simp_all add: s' pages_ok_def mm_ok_def)
  moreover have "empty_slots (page[k := page_addr i]) \<le> free_frames s'"
  proof -
    have len: "length page = MAX_ARG_PAGES" "length (mem_map s) = PAGING_PAGES" "empty_slots page \<le> free_frames s"
      using pages_ok_D [OF ok] by (simp_all add: mm_ok_def)
    have "page[k := page_addr i] ! l = 0 \<longleftrightarrow> page ! l = 0 \<and> l \<noteq> k" if "l < MAX_ARG_PAGES" for l
      using that len(1) i(1) by (cases "l = k") simp_all
    then have "{l. l < MAX_ARG_PAGES \<and> page[k := page_addr i] ! l = 0} = {l. l < MAX_ARG_PAGES \<and> page ! l = 0} - {k}" by blast
    then have 1: "empty_slots (page[k := page_addr i]) = empty_slots page - 1" using k by (simp add: empty_slots_def)
    have "(mem_map s)[i := 1] ! l = 0 \<longleftrightarrow> mem_map s ! l = 0 \<and> l \<noteq> i" if "l < PAGING_PAGES" for l
      using that len(2) by (cases "l = i") simp_all
    then have "{l. l < PAGING_PAGES \<and> (mem_map s)[i := 1] ! l = 0} = {l. l < PAGING_PAGES \<and> mem_map s ! l = 0} - {i}" by blast
    then have 2: "free_frames s' = free_frames s - 1" using i by (simp add: free_frames_def s')
    show ?thesis using 1 2 len(3) by simp
  qed
  ultimately show "pages_ok (page[k := page_addr i]) s'" unfolding pages_ok_def by simp
  fix y :: nat assume y: "y < 131072" "arg_byte page s y \<noteq> None"
  then have ky: "y div 4096 < MAX_ARG_PAGES" "page ! (y div 4096) \<noteq> 0" by (auto simp: arg_byte_def split: if_splits)
  then have ne: "y div 4096 \<noteq> k" using k by auto
  obtain j where j: "j < PAGING_PAGES" "page ! (y div 4096) = page_addr j" using pages_ok_page [OF ok ky] by blast
  have "i \<noteq> j" using other [OF ky(1)] j by auto
  then show "arg_byte (page[k := page_addr i]) s' y = arg_byte page s y"
    using ne i j mem_byte_clear [of i j "y mod 4096" "set_map i 1 s"]
    by (simp add: arg_byte_def s' mem_byte_def)
qed

subsection \<open>\<open>copy_strings\<close>\<close>

text \<open>The loop's own idea of where it is: \<open>off\<close> is 0, or the offset of \<open>p\<close> in the page \<open>pag\<close>.\<close>

definition at_page :: "int \<Rightarrow> u32 \<Rightarrow> nat \<Rightarrow> u32 list \<Rightarrow> bool" where
  "at_page off pag x page \<longleftrightarrow> off = 0 \<or> off = int (x mod 4096) \<and> pag = page ! (x div 4096) \<and> pag \<noteq> 0"

text \<open>The bytes from \<open>lo\<close> on in the area.\<close>

definition holds :: "nat \<Rightarrow> u8 list \<Rightarrow> u32 list \<Rightarrow> 'a mm_scheme \<Rightarrow> bool" where
  "holds lo bs page s \<longleftrightarrow> (\<forall>j < length bs. arg_byte page s (lo + j) = Some (bs ! j))"

lemma holds_append: "holds lo (xs @ ys) page s \<longleftrightarrow> holds lo xs page s \<and> holds (lo + length xs) ys page s"
  unfolding holds_def
proof (intro iffI conjI allI impI)
  fix j assume a: "\<forall>j < length (xs @ ys). arg_byte page s (lo + j) = Some ((xs @ ys) ! j)"
  { assume "j < length xs" with a [rule_format, of j] show "arg_byte page s (lo + j) = Some (xs ! j)" by (simp add: nth_append) }
  { assume "j < length ys" with a [rule_format, of "length xs + j"]
    show "arg_byte page s (lo + length xs + j) = Some (ys ! j)" by (simp add: nth_append add.assoc) }
next
  fix j assume "(\<forall>j < length xs. arg_byte page s (lo + j) = Some (xs ! j))
      \<and> (\<forall>j < length ys. arg_byte page s (lo + length xs + j) = Some (ys ! j))" "j < length (xs @ ys)"
  then show "arg_byte page s (lo + j) = Some ((xs @ ys) ! j)"
    by (cases "j < length xs") (auto simp: nth_append dest!: spec [of _ "j - length xs"])
qed

text \<open>One turn: the byte goes to the offset below, and what was in the pages stays.\<close>

lemma div_mod_pred: "n mod 4096 \<noteq> 0 \<Longrightarrow> (n - 1) div 4096 = n div 4096 \<and> (n - 1) mod 4096 = n mod 4096 - (1 :: nat)"
  by (cases n) (auto simp: div_Suc mod_Suc)

lemma copy_byte:
  assumes ok: "pages_ok page s" "at_page off pag (unat p) page" and p: "0 < unat p" "unat p \<le> 131072"
  shows "\<exists>off' pag' page' s'. copy_bytes (b # bs) off pag p page s = copy_bytes bs off' pag' (p - 1) page' s'
      \<and> pages_ok page' s' \<and> at_page off' pag' (unat p - 1) page' \<and> umem s' = umem s
      \<and> arg_byte page' s' (unat p - 1) = Some b
      \<and> (\<forall>y < 131072. y \<noteq> unat p - 1 \<longrightarrow> arg_byte page s y \<noteq> None \<longrightarrow> arg_byte page' s' y = arg_byte page s y)"
proof -
  have p1: "unat (p - 1) = unat p - 1" using p(1) by (simp add: unat_minus_one word_unat_eq_iff)
  let ?x = "unat p - 1"
  let ?k = "?x div 4096" and ?m = "?x mod 4096"
  have k: "unat ((p - 1) div 4096) = ?k" "?k < MAX_ARG_PAGES" "?x < 131072"
    using p by (simp_all add: unat_div p1)
  have "uint (p - 1) = int ?x" by (simp only: p1 [symmetric] uint_nat)
  then have m: "uint ((p - 1) mod 4096) = int ?m" by (simp add: uint_mod zmod_int)
  have x: "4096 * ?k + ?m = ?x" by simp
  have put: "pages_ok page' s' \<Longrightarrow> page' ! ?k \<noteq> 0 \<Longrightarrow>
      pages_ok page' (set_byte (page' ! ?k + of_nat ?m) b s') \<and> at_page (int ?m) (page' ! ?k) ?x page'
      \<and> umem (set_byte (page' ! ?k + of_nat ?m) b s') = umem s'
      \<and> arg_byte page' (set_byte (page' ! ?k + of_nat ?m) b s') ?x = Some b
      \<and> (\<forall>y < 131072. y \<noteq> ?x \<longrightarrow> arg_byte page' (set_byte (page' ! ?k + of_nat ?m) b s') y = arg_byte page' s' y)" for page' s'
    using arg_byte_set [of page' s' ?k ?m] k x umem_set_byte by (simp add: pages_ok_set at_page_def)
  show ?thesis
  proof (cases "off - 1 \<ge> 0")
    case True
    then have at: "off = int (unat p mod 4096)" "pag = page ! (unat p div 4096)" "pag \<noteq> 0"
      using ok(2) by (auto simp: at_page_def)
    have "unat p mod 4096 \<noteq> 0" using True at(1) by simp
    then have "unat p div 4096 = ?k" "unat p mod 4096 - 1 = ?m" using div_mod_pred [of "unat p"] by simp_all
    with \<open>unat p mod 4096 \<noteq> 0\<close> have "unat p div 4096 = ?k" "int (unat p mod 4096) - 1 = int ?m" by linarith+
    then have o: "off - 1 = int ?m" "pag = page ! ?k" "page ! ?k \<noteq> 0" using at True by simp_all
    then have "copy_bytes (b # bs) off pag p page s
        = copy_bytes bs (int ?m) (page ! ?k) (p - 1) page (set_byte (page ! ?k + of_nat ?m) b s)" by (simp add: Let_def)
    then show ?thesis using put [OF ok(1) o(3)] by blast
  next
    case False
    show ?thesis
    proof (cases "page ! ?k = 0")
      case True
      have "mm_ok s" using pages_ok_D [OF ok(1)] by blast
      then show ?thesis
      proof (cases rule: get_free_page_cases)
        case none
        then have "free_frames s = 0" by (auto simp: free_frames_def)
        moreover have "empty_slots page \<noteq> 0" using empty_slots_pos [OF k(2) True] by simp
        ultimately show ?thesis using pages_ok_D [OF ok(1)] by simp
      next
        case (some i)
        let ?page = "page[?k := page_addr i]" and ?s = "clear_page (page_addr i) (set_map i 1 s)"
        have f: "pages_ok ?page ?s" "\<And>y. y < 131072 \<Longrightarrow> arg_byte page s y \<noteq> None \<Longrightarrow> arg_byte ?page ?s y = arg_byte page s y"
          using fresh_page [OF ok(1) k(2) True some(1,2) refl] .
        have nz: "?page ! ?k = page_addr i" using nth_list_update_eq [of ?k page] pages_ok_D [OF ok(1)] k(2) by metis
        then have nz0: "?page ! ?k \<noteq> 0" using some(1) by simp
        have "umem ?s = umem s" by (simp add: clear_page_def set_map_def)
        moreover have "copy_bytes (b # bs) off pag p page s
          = copy_bytes bs (int ?m) (?page ! ?k) (p - 1) ?page (set_byte (?page ! ?k + of_nat ?m) b ?s)"
          using False True k m some(1,4) nz by (simp add: Let_def)
        ultimately show ?thesis using put [OF f(1) nz0] f(2) by metis
      qed
    next
      case nz: False
      have "page[?k := page ! ?k] = page" by simp
      then have "copy_bytes (b # bs) off pag p page s
        = copy_bytes bs (int ?m) (page ! ?k) (p - 1) page (set_byte (page ! ?k + of_nat ?m) b s)"
        using False nz k m by (simp add: Let_def)
      then show ?thesis using put [OF ok(1) nz] by blast
    qed
  qed
qed

text \<open>What the pages held below 128 kB is still there.\<close>

definition keeps :: "nat \<Rightarrow> u32 list \<Rightarrow> 'a mm_scheme \<Rightarrow> u32 list \<Rightarrow> 'a mm_scheme \<Rightarrow> bool" where
  "keeps lo page s page' s' \<longleftrightarrow> umem s' = umem s
     \<and> (\<forall>y. lo \<le> y \<longrightarrow> y < 131072 \<longrightarrow> arg_byte page s y \<noteq> None \<longrightarrow> arg_byte page' s' y = arg_byte page s y)"

lemma keeps_trans: "keeps m page s page' s' \<Longrightarrow> keeps n page' s' page'' s'' \<Longrightarrow> n \<le> m \<Longrightarrow> keeps m page s page'' s''"
  by (simp add: keeps_def)

lemma keeps_refl: "keeps n page s page s"
  by (simp add: keeps_def)

lemma keeps_holds: "keeps n page s page' s' \<Longrightarrow> holds lo bs page s \<Longrightarrow> n \<le> lo \<Longrightarrow> lo + length bs \<le> 131072 \<Longrightarrow> holds lo bs page' s'"
  by (simp add: keeps_def holds_def)

lemma copy_bytes_spec:
  assumes "pages_ok page s" "at_page off pag (unat p) page" "length bs \<le> unat p" "unat p \<le> 131072"
  shows "\<exists>off' pag' p' page' s'. copy_bytes bs off pag p page s = Some (True, off', pag', p', page', s')
      \<and> pages_ok page' s' \<and> at_page off' pag' (unat p') page' \<and> unat p' = unat p - length bs
      \<and> holds (unat p') (rev bs) page' s' \<and> keeps (unat p) page s page' s'"
  using assms
proof (induction bs arbitrary: off pag p page s)
  case Nil
  then show ?case by (simp add: holds_def keeps_refl)
next
  case (Cons b bs)
  have p: "0 < unat p" using Cons.prems by simp
  then have p1: "unat (p - 1) = unat p - 1" by (simp add: unat_minus_one word_unat_eq_iff)
  obtain off1 pag1 page1 and s1 :: "'a mm_scheme" where
    1: "copy_bytes (b # bs) off pag p page s = copy_bytes bs off1 pag1 (p - 1) page1 s1"
    "pages_ok page1 s1" "at_page off1 pag1 (unat p - 1) page1" "umem s1 = umem s" "arg_byte page1 s1 (unat p - 1) = Some b"
    "\<forall>y < 131072. y \<noteq> unat p - 1 \<longrightarrow> arg_byte page s y \<noteq> None \<longrightarrow> arg_byte page1 s1 y = arg_byte page s y"
    using copy_byte [OF Cons.prems(1,2) p Cons.prems(4), of b bs] by blast
  have k1: "keeps (unat p) page s page1 s1" using 1(4,6) p by (auto simp: keeps_def)
  have h1: "holds (unat p - 1) [b] page1 s1" using 1(5) by (simp add: holds_def)
  have "at_page off1 pag1 (unat (p - 1)) page1" "length bs \<le> unat (p - 1)" "unat (p - 1) \<le> 131072"
    using 1(3) p1 Cons.prems(3,4) by simp_all
  from Cons.IH [OF 1(2) this] obtain off' pag' p' page' and s' :: "'a mm_scheme" where
    2: "copy_bytes bs off1 pag1 (p - 1) page1 s1 = Some (True, off', pag', p', page', s')" "pages_ok page' s'"
    "at_page off' pag' (unat p') page'" "unat p' = unat (p - 1) - length bs" "holds (unat p') (rev bs) page' s'"
    "keeps (unat (p - 1)) page1 s1 page' s'" by blast
  have "holds (unat p - 1) [b] page' s'" using keeps_holds [OF 2(6) h1] p p1 Cons.prems(4) by simp
  then have "holds (unat p') (rev (b # bs)) page' s'" using 2(4,5) p1 Cons.prems(3) by (simp add: holds_append)
  moreover have "keeps (unat p) page s page' s'" using keeps_trans [OF k1 2(6)] p1 by simp
  moreover have "unat p' = unat p - length (b # bs)" using 2(4) p1 by simp
  ultimately show ?case using 2(1-3) unfolding 1(1) by blast
qed

text \<open>The strings, the last one first.\<close>

definition reads :: "('a mm_scheme \<Rightarrow> u8 list option) \<Rightarrow> u8 list \<Rightarrow> 'a mm_scheme \<Rightarrow> bool" where
  "reads f bs s \<longleftrightarrow> (\<forall>t. umem t = umem s \<longrightarrow> f t = Some bs)"

lemma copy_all_spec:
  assumes "pages_ok page s" "at_page off pag (unat p) page" "length (concat bss) \<le> unat p" "unat p \<le> 131072"
    "list_all2 (\<lambda>f bs. reads f bs s) fs bss"
  shows "\<exists>p' page' s'. copy_all fs off pag p page s = Some (p', page', s') \<and> pages_ok page' s'
      \<and> unat p' = unat p - length (concat bss) \<and> holds (unat p') (concat (rev bss)) page' s' \<and> keeps (unat p) page s page' s'"
  using assms
proof (induction fs arbitrary: off pag p page s bss)
  case Nil
  then show ?case by (simp add: holds_def keeps_refl)
next
  case (Cons f fs off pag p page s bss')
  obtain bs bss where bss': "bss' = bs # bss" "reads f bs s" "list_all2 (\<lambda>f bs. reads f bs s) fs bss"
    using Cons.prems(5) by (auto simp: list_all2_Cons1)
  note prems = Cons.prems [unfolded bss'(1)]
  have f: "f s = Some bs" using bss'(2) unfolding reads_def by blast
  have len: "length (rev bs) \<le> unat p" using prems(3) by simp
  obtain off' pag' p' page' and s' :: "'a mm_scheme" where 1:
    "copy_bytes (rev bs) off pag p page s = Some (True, off', pag', p', page', s')" "pages_ok page' s'"
    "at_page off' pag' (unat p') page'" "unat p' = unat p - length (rev bs)" "holds (unat p') (rev (rev bs)) page' s'"
    "keeps (unat p) page s page' s'"
    using copy_bytes_spec [OF prems(1,2) len prems(4)] by blast
  have l: "length (concat bss) \<le> unat p'" "unat p' \<le> 131072" using 1(4) prems(3,4) by simp_all
  have eq: "copy_all (f # fs) off pag p page s = copy_all fs off' pag' p' page' s'" by (simp add: f 1(1))
  have r: "reads g cs s' = reads g cs s" for g cs using 1(6) by (simp add: reads_def keeps_def)
  obtain p'' page'' and s'' :: "'a mm_scheme" where 2: "copy_all fs off' pag' p' page' s' = Some (p'', page'', s'')"
    "pages_ok page'' s''" "unat p'' = unat p' - length (concat bss)" "holds (unat p'') (concat (rev bss)) page'' s''"
    "keeps (unat p') page' s' page'' s''"
    using Cons.IH [OF 1(2,3) l bss'(3) [folded r]] by blast
  have "holds (unat p') bs page'' s''" using keeps_holds [of "unat p'" page' s' page'' s'' "unat p'" bs] 2(5) 1(4,5) prems(3,4) by simp
  moreover have "length (concat (rev bss)) = length (concat bss)" by (simp add: length_concat flip: rev_map)
  then have "unat p'' + length (concat (rev bss)) = unat p'" and u: "unat p'' = unat p - length (concat (bs # bss))"
    using 2(3) 1(4) l by simp_all
  ultimately have "holds (unat p'') (concat (rev bss) @ bs) page'' s''" using 2(4) by (simp only: holds_append)
  moreover have "keeps (unat p) page s page'' s''" using keeps_trans [OF 1(6) 2(5)] 1(4) by simp
  ultimately show ?case using 2(1,2) u unfolding eq bss'(1) by simp
qed

subsection \<open>Strings and longs in user memory\<close>

definition text_at :: "u32 \<Rightarrow> u8 list \<Rightarrow> 'a sched_scheme \<Rightarrow> bool" where
  "text_at a bs s \<longleftrightarrow> (\<forall>j < length bs. umem s (a + of_nat j) = bs ! j)"

lemma text_at_Cons: "text_at a (b # bs) s \<longleftrightarrow> umem s a = b \<and> text_at (a + 1) bs s"
  unfolding text_at_def
proof (intro iffI conjI allI impI)
  assume a: "\<forall>j < length (b # bs). umem s (a + of_nat j) = (b # bs) ! j"
  show "umem s a = b" using a [rule_format, of 0] by simp
  show "umem s (a + 1 + of_nat j) = bs ! j" if "j < length bs" for j
    using a [rule_format, of "Suc j"] that by (simp add: add.assoc)
next
  fix j assume "umem s a = b \<and> (\<forall>j < length bs. umem s (a + 1 + of_nat j) = bs ! j)" "j < length (b # bs)"
  then show "umem s (a + of_nat j) = (b # bs) ! j" by (cases j) (simp_all add: add.assoc)
qed

lemma text_at_append: "text_at a (xs @ ys) s \<longleftrightarrow> text_at a xs s \<and> text_at (a + of_nat (length xs)) ys s"
  by (induction xs arbitrary: a) (auto simp: text_at_Cons add.assoc, simp_all add: text_at_def)

lemma user_string_text:
  assumes "user_string a s = Some bs"
  shows "\<exists>cs. bs = cs @ [0] \<and> 0 \<notin> set cs \<and> text_at a bs s"
proof (rule user_string.raw_induct [where P = "\<lambda>a s bs. \<exists>cs. bs = cs @ [0] \<and> 0 \<notin> set cs \<and> text_at a bs s", OF _ assms])
  fix f and a :: u32 and s :: "'a sched_scheme" and r
  assume IH: "\<And>a s r. f a s = Some r \<Longrightarrow> \<exists>cs. r = cs @ [0] \<and> 0 \<notin> set cs \<and> text_at a r s"
    and eq: "(if get_fs_byte a s = 0 then Some [0] else do { bs \<leftarrow> f (a + 1) s; Some (get_fs_byte a s # bs) }) = Some r"
  show "\<exists>cs. r = cs @ [0] \<and> 0 \<notin> set cs \<and> text_at a r s"
  proof (cases "umem s a = 0")
    case True
    with eq show ?thesis by (intro exI [of _ "[]"]) (auto simp: get_fs_byte_def text_at_def)
  next
    case False
    with eq obtain bs where bs: "f (a + 1) s = Some bs" "r = umem s a # bs" by (auto simp: get_fs_byte_def bind_Some_iff)
    then obtain cs where "bs = cs @ [0] \<and> 0 \<notin> set cs \<and> text_at (a + 1) bs s" using IH by blast
    with bs False show ?thesis by (intro exI [of _ "umem s a # cs"]) (auto simp: text_at_Cons)
  qed
qed

lemma text_user_string:
  "text_at a (cs @ [0]) s \<Longrightarrow> 0 \<notin> set cs \<Longrightarrow>
     user_string a s = Some (cs @ [0]) \<and> skip_string a s = Some (a + of_nat (length cs + 1))"
proof (induction cs arbitrary: a)
  case Nil
  then show ?case by (subst user_string.simps, subst skip_string.simps) (simp add: text_at_Cons get_fs_byte_def)
next
  case (Cons c cs)
  then show ?case
    by (subst user_string.simps, subst skip_string.simps) (auto simp: text_at_Cons get_fs_byte_def add.assoc)
qed

lemma user_string_reads:
  "user_string a s = Some bs \<Longrightarrow> umem t = umem s \<Longrightarrow> user_string a t = Some bs"
  using user_string_text [of a s bs] text_user_string [of a _ t] by (auto simp: text_at_def)

lemma user_string_cong: "umem t = umem s \<Longrightarrow> user_string a t = user_string a s"
  using user_string_reads [of a s _ t] user_string_reads [of a t _ s]
  by (cases "user_string a s"; cases "user_string a t") auto

lemma get_put_fs_long: "get_fs_long a (put_fs_long v a s) = v"
proof (rule bit_word_eqI)
  fix n assume "n < LENGTH(32)"
  have "(a + 1 :: u32) \<noteq> a" "a + 2 \<noteq> a" "a + 3 \<noteq> a" "(a + 1 :: u32) \<noteq> a + 2" "(a + 1 :: u32) \<noteq> a + 3" "(a + 2 :: u32) \<noteq> a + 3"
    by simp_all
  note ne = this
  consider "n < 8" | "8 \<le> n" "n < 16" | "16 \<le> n" "n < 24" | "24 \<le> n" "n < 32" using \<open>n < _\<close> by fastforce
  then show "bit (get_fs_long a (put_fs_long v a s)) n = bit v n"
    using ne by cases (auto simp: get_fs_long_def put_fs_long_def bit_simps)
qed

text \<open>What a sequence of writes within an interval of addresses leaves.\<close>

definition outside :: "nat \<Rightarrow> nat \<Rightarrow> 'a sched_scheme \<Rightarrow> 'a sched_scheme \<Rightarrow> bool" where
  "outside lo hi s s' \<longleftrightarrow> (\<exists>m. s' = s\<lparr>umem := m\<rparr>) \<and> (\<forall>a. unat a < lo \<or> hi \<le> unat a \<longrightarrow> umem s' a = umem s a)"

lemma outside_trans: "outside lo hi s s' \<Longrightarrow> outside lo hi s' s'' \<Longrightarrow> outside lo hi s s''"
  by (auto simp: outside_def)

lemma outside_weaken: "outside lo hi s s' \<Longrightarrow> lo' \<le> lo \<Longrightarrow> hi \<le> hi' \<Longrightarrow> outside lo' hi' s s'"
  unfolding outside_def by (intro conjI) (blast, auto)

lemma outside_refl: "outside lo hi s s"
  by (auto simp: outside_def intro: exI [of _ "umem s"])

lemma unat_of_nat_small: "n < 2 ^ 32 \<Longrightarrow> unat (of_nat n :: u32) = n"
  by (simp add: unat_of_nat take_bit_nat_eq_self_iff)

lemma unat_plus_small: "unat (t :: u32) + n < 2 ^ 32 \<Longrightarrow> unat (t + of_nat n) = unat t + n"
  by (simp add: unat_word_ariths unat_of_nat)

lemma outside_put: "unat t + 3 < 2 ^ 32 \<Longrightarrow> outside (unat t) (unat t + 4) s (put_fs_long v t s)"
  using unat_plus_small [of t 1] unat_plus_small [of t 2] unat_plus_small [of t 3]
  by (auto simp: outside_def put_fs_long_def)

lemma outside_get:
  "outside lo hi s s' \<Longrightarrow> unat a + 3 < 2 ^ 32 \<Longrightarrow> unat a + 4 \<le> lo \<or> hi \<le> unat a \<Longrightarrow> get_fs_long a s' = get_fs_long a s"
  using unat_plus_small [of a 1] unat_plus_small [of a 2] unat_plus_small [of a 3]
  by (auto simp: outside_def get_fs_long_def)

lemma outside_text:
  "outside lo hi s s' \<Longrightarrow> unat a + length bs \<le> 2 ^ 32 \<Longrightarrow> hi \<le> unat a \<Longrightarrow> text_at a bs s' = text_at a bs s"
  using unat_plus_small [of a] by (auto simp: outside_def text_at_def)

subsection \<open>\<open>create_tables\<close>\<close>

definition strings :: "u8 list list \<Rightarrow> u8 list" where
  "strings cs = concat (map (\<lambda>c. c @ [0]) cs)"

lemma strings_simps [simp]:
  "strings [] = []" "strings (c # cs) = c @ 0 # strings cs" "strings (xs @ ys) = strings xs @ strings ys"
  by (simp_all add: strings_def)

lemma length_strings: "length cs \<le> length (strings cs)"
  by (induction cs) simp_all

text \<open>A table at \<open>t\<close> of pointers to the strings, ended by a null pointer.\<close>

definition table_of :: "u32 \<Rightarrow> u8 list list \<Rightarrow> 'a sched_scheme \<Rightarrow> bool" where
  "table_of t cs s \<longleftrightarrow> (\<forall>i < length cs. text_at (get_fs_long (t + 4 * of_nat i) s) (cs ! i @ [0]) s)
     \<and> get_fs_long (t + 4 * of_nat (length cs)) s = 0"

text \<open>The pointers lead to text above an address.\<close>

definition above :: "nat \<Rightarrow> u32 \<Rightarrow> u8 list list \<Rightarrow> 'a sched_scheme \<Rightarrow> bool" where
  "above lo t cs s \<longleftrightarrow> (\<forall>i < length cs. lo \<le> unat (get_fs_long (t + 4 * of_nat i) s)
     \<and> unat (get_fs_long (t + 4 * of_nat i) s) + length (cs ! i @ [0]) < 2 ^ 32)"

lemma table_of_outside:
  assumes o: "outside lo hi s s'" and t: "unat t + 4 * (length cs + 1) \<le> lo \<or> hi \<le> unat t" "unat t + 4 * (length cs + 1) < 2 ^ 32"
    and a: "above hi t cs s" "table_of t cs s"
  shows "above hi t cs s' \<and> table_of t cs s'"
proof -
  have g: "get_fs_long (t + 4 * of_nat i) s' = get_fs_long (t + 4 * of_nat i) s" if "i \<le> length cs" for i
  proof -
    have "unat (t + 4 * of_nat i) = unat t + 4 * i" using unat_plus_small [of t "4 * i"] that t(2) by simp
    then show ?thesis using that t by (intro outside_get [OF o]) auto
  qed
  have x: "text_at (get_fs_long (t + 4 * of_nat i) s) (cs ! i @ [0]) s'" if "i < length cs" for i
  proof -
    have "hi \<le> unat (get_fs_long (t + 4 * of_nat i) s)" "unat (get_fs_long (t + 4 * of_nat i) s) + length (cs ! i @ [0]) < 2 ^ 32"
      using a(1) that unfolding above_def by blast+
    then show ?thesis
      using a(2) that outside_text [OF o less_imp_le] unfolding table_of_def by blast
  qed
  show ?thesis using a g x by (simp add: above_def table_of_def)
qed

lemma put_table_spec:
  assumes "text_at p (strings cs) s" "\<forall>c \<in> set cs. 0 \<notin> set c" "unat p + length (strings cs) < 2 ^ 32"
    "unat t + 4 * (length cs + 1) \<le> unat p"
  shows "\<exists>s'. put_table (length cs) p t s = Some (p + of_nat (length (strings cs)), s')
    \<and> outside (unat t) (unat t + 4 * (length cs + 1)) s s' \<and> above (unat p) t cs s' \<and> table_of t cs s'"
  using assms
proof (induction cs arbitrary: p t s)
  case Nil
  then have "unat t + 3 < 2 ^ 32" by simp
  then show ?case by (simp add: outside_put above_def table_of_def get_put_fs_long)
next
  case (Cons c cs)
  let ?s = "put_fs_long p t s" and ?n = "length c + 1"
  have len: "unat p + ?n + length (strings cs) < 2 ^ 32" "unat t + 3 < 2 ^ 32" using Cons.prems(3,4) by simp_all
  have o: "outside (unat t) (unat t + 4) s ?s" using outside_put [OF len(2)] .
  have t1: "text_at p (strings (c # cs)) ?s"
    using outside_text [OF o, of p "strings (c # cs)"] Cons.prems by simp
  then have t2: "text_at p (c @ [0]) ?s" "text_at (p + of_nat ?n) (strings cs) ?s"
    using text_at_append [of p "c @ [0]" "strings cs" ?s] by simp_all
  have skip: "skip_string p ?s = Some (p + of_nat ?n)" using text_user_string [OF t2(1)] Cons.prems(2) by simp
  have u: "unat (p + of_nat ?n) = unat p + ?n" "unat (t + 4) = unat t + 4"
    using unat_plus_small [of p ?n] unat_plus_small [of t 4] len Cons.prems(4) by simp_all
  obtain s' where s': "put_table (length cs) (p + of_nat ?n) (t + 4) ?s = Some (p + of_nat ?n + of_nat (length (strings cs)), s')"
    "outside (unat (t + 4)) (unat (t + 4) + 4 * (length cs + 1)) ?s s'"
    "above (unat (p + of_nat ?n)) (t + 4) cs s'" "table_of (t + 4) cs s'"
    using Cons.IH [OF t2(2), of "t + 4"] Cons.prems(2-4) u len by auto
  have get: "get_fs_long t s' = p"
    using outside_get [OF s'(2), of t] len(2) u by (simp add: get_put_fs_long)
  have "put_table (length (c # cs)) p t s = Some (p + of_nat (length (strings (c # cs))), s')"
    using skip s'(1) by (simp add: add.assoc)
  moreover have "outside (unat t) (unat t + 4 * (length (c # cs) + 1)) s s'"
    using outside_trans [OF outside_weaken [OF o] outside_weaken [OF s'(2)]] u by simp
  moreover have "text_at p (c @ [0]) s'"
    using outside_text [OF s'(2), of p "c @ [0]"] t2(1) u len Cons.prems(4) by simp
  then have "table_of t (c # cs) s'" "above (unat p) t (c # cs) s'"
    using s'(3,4) get u len by (auto simp: table_of_def above_def nth_Cons add.assoc split: nat.split)
  ultimately show ?case by blast
qed

text \<open>The whole stack of the new program: the count, the two tables and the strings.\<close>

definition arguments_at :: "u32 \<Rightarrow> u8 list list \<Rightarrow> u8 list list \<Rightarrow> 'a sched_scheme \<Rightarrow> bool" where
  "arguments_at sp args envs s \<longleftrightarrow> get_fs_long sp s = of_nat (length args)
     \<and> table_of (get_fs_long (sp + 4) s) args s \<and> table_of (get_fs_long (sp + 8) s) envs s"

lemma mask_4: "unat (0xfffffffc AND p :: u32) \<le> unat p \<and> unat p \<le> unat (0xfffffffc AND p :: u32) + 3"
proof -
  let ?x = "0xfffffffc AND p :: u32"
  have m: "(0xfffffffc :: u32) = NOT (mask 2)" by (simp add: mask_eq_exp_minus_1)
  have le: "?x \<le> p" by (rule word_and_le1)
  have "?x = push_bit 2 (drop_bit 2 p)"
    unfolding m by (rule bit_word_eqI) (auto simp: bit_simps simp flip: add_2_eq_Suc)
  then have "p - ?x = take_bit 2 p" using bits_ident [of 2 p] by (simp add: algebra_simps)
  then have "unat (p - ?x) = take_bit 2 (unat p)" by (simp add: unsigned_take_bit_eq)
  also have "\<dots> \<le> 3" by (simp add: take_bit_eq_mod)
  finally show ?thesis using le unat_sub [OF le] by (simp add: word_le_nat_alt)
qed

lemma above_mono: "above hi t cs s \<Longrightarrow> lo \<le> hi \<Longrightarrow> above lo t cs s"
  by (auto simp: above_def)

lemma create_tables_spec:
  assumes tx: "text_at p (strings (args @ envs)) s" "\<forall>c \<in> set (args @ envs). 0 \<notin> set c"
    and p: "unat p + length (strings (args @ envs)) < 2 ^ 32" "4 * (length args + length envs) + 23 \<le> unat p"
  shows "\<exists>sp s'. create_tables p (length args) (length envs) s = Some (sp, s') \<and> arguments_at sp args envs s'"
proof -
  define x where "x = 0xfffffffc AND p"
  define envp where "envp = x - 4 * (of_nat (length envs) + 1)"
  define argv where "argv = envp - 4 * (of_nat (length args) + 1)"
  define sp where "sp = argv - 12"
  note defs = x_def envp_def argv_def sp_def
  have x: "unat x \<le> unat p" "unat p \<le> unat x + 3" using mask_4 [of p] by (simp_all add: x_def)
  have minus: "unat (y - of_nat n) = unat y - n" if "n \<le> unat y" for y :: u32 and n
  proof -
    have "unat y < 2 ^ LENGTH(32)" by (rule unsigned_less)
    then have "n < 2 ^ 32" using that by simp
    then have "unat (of_nat n :: u32) = n" by (simp add: unat_of_nat take_bit_nat_eq_self_iff)
    then show ?thesis using that unat_sub [of "of_nat n" y] by (simp add: word_le_nat_alt)
  qed
  have envp: "unat envp = unat x - 4 * (length envs + 1)"
    using minus [of "4 * (length envs + 1)" x] x p(2) by (simp add: envp_def add.commute)
  have argv: "unat argv = unat envp - 4 * (length args + 1)"
    using minus [of "4 * (length args + 1)" envp] x p(2) envp by (simp add: argv_def add.commute)
  have sp: "unat sp = unat argv - 12" using minus [of 12 argv] x p(2) envp argv by (simp add: sp_def)
  have lay: "unat sp + 12 = unat argv" "unat argv + 4 * (length args + 1) = unat envp" "unat envp + 4 * (length envs + 1) = unat x"
    using x p(2) envp argv sp by simp_all
  have sp4: "unat (sp + 4) = unat sp + 4" "unat (sp + 8) = unat sp + 8"
    using unat_plus_small [of sp 4] unat_plus_small [of sp 8] lay x p(1) by simp_all
  define s1 where "s1 = put_fs_long (of_nat (length args)) sp (put_fs_long argv (sp + 4) (put_fs_long envp (sp + 8) s))"
  have small: "unat sp + 11 < 2 ^ 32" using lay x p(1) by simp
  have o1: "outside (unat sp) (unat argv) s s1"
    unfolding s1_def
    by (rule outside_trans [OF outside_weaken [OF outside_put] outside_trans [OF outside_weaken [OF outside_put] outside_weaken [OF outside_put]]])
      (use lay sp4 small in simp_all)
  have g1: "get_fs_long sp s1 = of_nat (length args)" by (simp add: s1_def get_put_fs_long)
  let ?s8 = "put_fs_long envp (sp + 8) s"
  have "get_fs_long (sp + 4) s1 = get_fs_long (sp + 4) (put_fs_long argv (sp + 4) ?s8)"
    unfolding s1_def by (rule outside_get [OF outside_put]) (use sp4 small in simp_all)
  then have g2: "get_fs_long (sp + 4) s1 = argv" by (simp add: get_put_fs_long)
  have "get_fs_long (sp + 8) s1 = get_fs_long (sp + 8) (put_fs_long argv (sp + 4) ?s8)"
    unfolding s1_def by (rule outside_get [OF outside_put]) (use sp4 small in simp_all)
  also have "\<dots> = get_fs_long (sp + 8) ?s8"
    by (rule outside_get [OF outside_put]) (use sp4 small in simp_all)
  finally have g3: "get_fs_long (sp + 8) s1 = envp" by (simp add: get_put_fs_long)
  have t1: "text_at p (strings (args @ envs)) s1"
    using outside_text [OF o1, of p "strings (args @ envs)"] tx p lay x by simp
  then have t1': "text_at p (strings args) s1" "text_at (p + of_nat (length (strings args))) (strings envs) s1"
    by (simp_all add: text_at_append)
  obtain s2 where s2: "put_table (length args) p argv s1 = Some (p + of_nat (length (strings args)), s2)"
    "outside (unat argv) (unat argv + 4 * (length args + 1)) s1 s2" "above (unat p) argv args s2" "table_of argv args s2"
    using put_table_spec [OF t1'(1), of argv] tx(2) p lay x by auto
  let ?p = "p + of_nat (length (strings args))"
  have up: "unat ?p = unat p + length (strings args)" using unat_plus_small [of p "length (strings args)"] p(1) by simp
  have "text_at ?p (strings envs) s2"
    using outside_text [OF s2(2), of ?p "strings envs"] t1'(2) p lay x up by simp
  from put_table_spec [OF this, of envp] obtain s3 where s3: "put_table (length envs) ?p envp s2 = Some (?p + of_nat (length (strings envs)), s3)"
    "outside (unat envp) (unat envp + 4 * (length envs + 1)) s2 s3" "table_of envp envs s3"
    using tx(2) p lay x up by auto
  have ab: "above (unat x) argv args s2" using above_mono [OF s2(3) x(1)] .
  have "table_of argv args s3"
    using table_of_outside [OF s3(2) [unfolded lay] _ _ ab s2(4)] lay x p(1) by simp
  moreover have "get_fs_long a s3 = get_fs_long a s1" if "unat sp \<le> unat a" "unat a + 4 \<le> unat argv" for a
    using outside_get [OF s3(2), of a] outside_get [OF s2(2), of a] that lay x p(1) by simp
  then have "get_fs_long sp s3 = of_nat (length args)" "get_fs_long (sp + 4) s3 = argv" "get_fs_long (sp + 8) s3 = envp"
    using g1 g2 g3 sp4 lay by simp_all
  ultimately have "arguments_at sp args envs s3" using s3(3) by (simp add: arguments_at_def)
  moreover have "create_tables p (length args) (length envs) s = Some (sp, s3)"
    using s2(1) s3(1) by (simp add: create_tables_def Let_def s1_def defs)
  ultimately show ?thesis by blast
qed

subsection \<open>The new address space\<close>

lemma put_arg_page_umem: "umem (put_arg_page high page i s) = umem s"
proof -
  have "umem (snd (get_free_page s)) = umem s" for s :: "'a mm_scheme"
    by (auto simp: get_free_page_def set_map_def clear_page_def Let_def split: option.split)
  then show ?thesis
    by (auto simp: put_arg_page_def put_page_def set_long_def Let_def split_beta)
qed

lemma change_ldt_umem: "umem (snd (change_ldt text_size page img s)) = arg_umem page img s"
proof -
  have "umem (fold (put_arg_page high page) is s) = umem s" for high "is" and s :: "'a mm_scheme"
    by (induction "is" arbitrary: s) (simp_all add: put_arg_page_umem)
  moreover have "arg_umem page img (update_task p f s) = arg_umem page img s" for p f
    by (simp add: arg_umem_def mem_byte_def update_task_def Let_def fun_eq_iff)
  ultimately show ?thesis by (simp add: change_ldt_def Let_def)
qed

lemma arg_umem_byte:
  assumes "arg_byte page s x = Some b" "x < 131072"
  shows "arg_umem page img s (0x3fe0000 + of_nat x) = b"
proof -
  let ?a = "0x3fe0000 + of_nat x :: u32"
  have a: "unat ?a = 0x3fe0000 + x" using unat_plus_small [of "0x3fe0000" x] assms(2) by simp
  have "unat ((?a - 0x3fe0000) div 4096) = x div 4096"
    using assms(2) by (simp add: unat_div unat_of_nat take_bit_nat_eq_self_iff)
  moreover have "?a mod 4096 = of_nat (x mod 4096)"
  proof (rule word_unat_eq_iff [THEN iffD2])
    have "x mod 4096 < 4096" by (rule mod_less_divisor) simp
    then have "unat (of_nat (x mod 4096) :: u32) = x mod 4096" by (rule unat_of_nat_small [OF less_trans]) simp
    moreover have "(x + 0x3fe0 * 4096) mod 4096 = x mod 4096" by (rule mod_mult_self1)
    then have "(0x3fe0000 + x) mod 4096 = x mod 4096" by (simp add: add.commute)
    moreover have "unat (?a mod 4096) = (0x3fe0000 + x) mod 4096" unfolding unat_mod a by simp
    ultimately show "unat (?a mod 4096) = unat (of_nat (x mod 4096) :: u32)" by (simp only:)
  qed
  moreover have "0x3fe0000 \<le> ?a" "?a < 0x4000000" using a assms(2) by (simp_all add: word_le_nat_alt word_less_nat_alt)
  moreover have "page ! (x div 4096) \<noteq> 0" "mem_byte (page ! (x div 4096) + of_nat (x mod 4096)) s = b"
    using assms(1) by (auto simp: arg_byte_def split: if_splits)
  ultimately show ?thesis by (simp only: arg_umem_def Let_def simp_thms if_True)
qed

subsection \<open>The arguments of \<open>execve\<close>\<close>

text \<open>An array of pointers in user memory to the strings of a list, and that many entries.\<close>

definition passes :: "u32 \<Rightarrow> u8 list list \<Rightarrow> 'a sched_scheme \<Rightarrow> bool" where
  "passes argv cs s \<longleftrightarrow> (\<forall>i < length cs. get_fs_long (argv + 4 * of_nat i) s \<noteq> 0
     \<and> user_string (get_fs_long (argv + 4 * of_nat i) s) s = Some (cs ! i @ [0]))"

lemma get_fs_long_cong: "umem t = umem s \<Longrightarrow> get_fs_long a t = get_fs_long a s"
  by (simp add: get_fs_long_def)

lemma passes_cong: "umem t = umem s \<Longrightarrow> passes argv cs t \<longleftrightarrow> passes argv cs s"
  by (simp add: passes_def user_string_cong [of t s] get_fs_long_cong [of t s])

lemma passes_reads:
  assumes "passes argv cs s"
  shows "list_all2 (\<lambda>f bs. reads f bs s) (user_strings (length cs) argv) (map (\<lambda>c. c @ [0]) (rev cs))"
proof (rule list_all2_all_nthI)
  show "length (user_strings (length cs) argv) = length (map (\<lambda>c. c @ [0]) (rev cs))" by (simp add: user_strings_def)
  fix i assume "i < length (user_strings (length cs) argv)"
  then have i: "i < length cs" by (simp add: user_strings_def)
  let ?k = "length cs - Suc i"
  have k: "?k < length cs" using i by simp
  have "reads (\<lambda>t. let tmp = get_fs_long (argv + 4 * of_nat ?k) t in if tmp = 0 then None else user_string tmp t) (cs ! ?k @ [0]) s"
    unfolding reads_def
  proof (intro allI impI)
    fix t :: "'a mm_scheme" assume eq: "umem t = umem s"
    have "get_fs_long (argv + 4 * of_nat ?k) s \<noteq> 0" "user_string (get_fs_long (argv + 4 * of_nat ?k) s) s = Some (cs ! ?k @ [0])"
      using assms k unfolding passes_def by blast+
    then show "(let tmp = get_fs_long (argv + 4 * of_nat ?k) t in if tmp = 0 then None else user_string tmp t) = Some (cs ! ?k @ [0])"
      by (simp only: Let_def get_fs_long_cong [OF eq] user_string_cong [OF eq] if_False)
  qed
  then show "reads (user_strings (length cs) argv ! i) (map (\<lambda>c. c @ [0]) (rev cs) ! i) s"
    using i by (simp add: user_strings_def rev_map [symmetric] rev_nth del: map_map)
qed

lemma strings_rev: "concat (rev (map (\<lambda>c. c @ [0]) (rev cs))) = strings cs"
  by (simp add: strings_def rev_map)

lemma length_strings_rev: "length (concat (map (\<lambda>c. c @ [0]) (rev cs))) = length (strings cs)"
  unfolding strings_def by (simp add: length_concat rev_map [symmetric] comp_def)

lemma copy_strings_spec:
  assumes "pages_ok page s" "passes argv cs s" "length (strings cs) < unat p" "unat p \<le> 131072"
  shows "\<exists>p' page' s'. copy_strings (user_strings (length cs) argv) page p s = Some (p', page', s') \<and> pages_ok page' s'
      \<and> unat p' = unat p - length (strings cs) \<and> holds (unat p') (strings cs) page' s' \<and> keeps (unat p) page s page' s'"
proof -
  have "p \<noteq> 0" using assms(3) by auto
  then show ?thesis
    using copy_all_spec [OF assms(1) _ _ assms(4) passes_reads [OF assms(2)], of 0 0] assms(3)
    unfolding copy_strings_def length_strings_rev strings_rev by (simp add: at_page_def)
qed


text \<open>The memory of a process that passes the argument \<open>ls\<close> and no environment.\<close>

definition exec_mm :: mm where
  "exec_mm = put_fs_long 0x200 0x100 (boot_mm\<lparr>umem := (\<lambda>_. 0)(0x200 := 108, 0x201 := 115)\<rparr>)"

lemma exec_mm_passes: "passes 0x100 [[108, 115]] exec_mm" "passes 0 [] exec_mm"
proof -
  have "text_at 0x200 ([108, 115] @ [0]) exec_mm"
    by (simp add: text_at_Cons) (simp add: text_at_def exec_mm_def put_fs_long_def)
  then have "user_string 0x200 exec_mm = Some ([108, 115] @ [0])" using text_user_string [where a = "0x200" and cs = "[108, 115]" and s = exec_mm] by auto
  moreover have "get_fs_long 0x100 exec_mm = 0x200" unfolding exec_mm_def by (rule get_put_fs_long)
  ultimately show "passes 0x100 [[108, 115]] exec_mm" by (simp add: passes_def)
qed (simp add: passes_def)

lemma exec_mm_ok: "mm_ok exec_mm" "32 \<le> free_frames exec_mm"
proof -
  have m: "mem_map exec_mm = mem_map boot_mm" by (simp add: exec_mm_def put_fs_long_def)
  then show "mm_ok exec_mm" using boot_mm_ok by (simp add: mm_ok_def)
  have "{i. i < PAGING_PAGES \<and> mem_map exec_mm ! i = 0} = {768..<PAGING_PAGES}"
    using boot_mm_map unfolding m by auto
  then show "32 \<le> free_frames exec_mm" by (simp add: free_frames_def)
qed


end
