(* ===== verification/Console_Safe.thy ===== *)
theory Console_Safe
  imports Console
begin

text \<open>
  The console driver never writes outside the video memory, and keeps the cursor on the screen.
\<close>

subsection \<open>Writes within a range of addresses\<close>

definition within :: "nat \<Rightarrow> nat \<Rightarrow> (u32 \<Rightarrow> u16) \<Rightarrow> (u32 \<Rightarrow> u16) \<Rightarrow> bool" where
  "within S E m m' \<longleftrightarrow> (\<forall>a. \<not> (S \<le> unat a \<and> unat a < E) \<longrightarrow> m' a = m a)"

lemma within_refl [simp]: "within S E m m"
  by (simp add: within_def)

lemma within_trans: "within S E m m' \<Longrightarrow> within S E m' m'' \<Longrightarrow> within S E m m''"
  by (simp add: within_def)

lemma unat_of_nat32: "a < 2 ^ 32 \<Longrightarrow> unat (of_nat a :: u32) = a"
  by (simp add: unat_of_nat)

lemma within_upd: "within S E m m' \<Longrightarrow> S \<le> d \<Longrightarrow> d < E \<Longrightarrow> E < 2 ^ 32 \<Longrightarrow> within S E m (m'(of_nat d := v))"
  by (auto simp: within_def unat_of_nat32)

lemma of_nat_minus: "k \<le> d \<Longrightarrow> (of_nat d :: u32) - of_nat k = of_nat (d - k)"
  by (simp add: of_nat_diff)

lemma stosw_within: "S \<le> d \<Longrightarrow> d + 2 * n \<le> E \<Longrightarrow> E < 2 ^ 32 \<Longrightarrow> within S E m (stosw n (of_nat d) v m)"
proof (induction n arbitrary: d m)
  case (Suc n)
  have eq: "stosw (Suc n) (of_nat d) v m = stosw n (of_nat (d + 2)) v (m(of_nat d := v))" by (simp add: add.commute)
  show ?case unfolding eq
    by (rule within_trans [OF within_upd [OF within_refl] Suc.IH]) (use Suc.prems in simp_all)
qed simp

lemma stosw_down_within:
  "S + 2 * n \<le> d + 2 \<Longrightarrow> d + 2 \<le> E \<Longrightarrow> E < 2 ^ 32 \<Longrightarrow> within S E m (stosw_down n (of_nat d) v m)"
proof (induction n arbitrary: d m)
  case (Suc n)
  have 1: "within S E m (m(of_nat d := v))" using Suc.prems by (intro within_upd) simp_all
  show ?case
  proof (cases n)
    case 0
    then have eq: "stosw_down (Suc n) (of_nat d) v m = m(of_nat d := v)" by (simp add: add.commute)
    with 1 show ?thesis by (simp only:)
  next
    case (Suc k)
    then have eq: "stosw_down (Suc n) (of_nat d) v m = stosw_down n (of_nat (d - 2)) v (m(of_nat d := v))"
      using of_nat_minus [of 2 d] Suc.prems by (simp add: add.commute)
    show ?thesis unfolding eq
      by (rule within_trans [OF 1 Suc.IH]) (use Suc Suc.prems in simp_all)
  qed
qed simp

lemma two_upd_within:
  "S \<le> d \<Longrightarrow> d + 4 \<le> E \<Longrightarrow> E < 2 ^ 32 \<Longrightarrow> within S E m (m(of_nat d := v, of_nat (d + 2) := w))"
  by (intro within_upd within_refl) simp_all

lemma movsl_within: "S \<le> d \<Longrightarrow> d + 4 * n \<le> E \<Longrightarrow> E < 2 ^ 32 \<Longrightarrow> within S E m (movsl n (of_nat d) s m)"
proof (induction n arbitrary: d s m)
  case (Suc n)
  have eq: "movsl (Suc n) (of_nat d) s m = movsl n (of_nat (d + 4)) (s + 4) (m(of_nat d := m s, of_nat (d + 2) := m (s + 2)))" by (simp add: add.commute)
  show ?case unfolding eq
    by (rule within_trans [OF two_upd_within Suc.IH]) (use Suc.prems in simp_all)
qed simp

lemma movsl_down_within:
  "S + 4 * n \<le> d + 4 \<Longrightarrow> d + 4 \<le> E \<Longrightarrow> E < 2 ^ 32 \<Longrightarrow> within S E m (movsl_down n (of_nat d) s m)"
proof (induction n arbitrary: d s m)
  case (Suc n)
  let ?m = "m(of_nat d := m s, of_nat (d + 2) := m (s + 2))"
  have 1: "within S E m ?m" using Suc.prems by (intro two_upd_within) simp_all
  show ?case
  proof (cases n)
    case 0
    then have eq: "movsl_down (Suc n) (of_nat d) s m = ?m" by (simp add: add.commute)
    with 1 show ?thesis by (simp only:)
  next
    case (Suc k)
    then have eq: "movsl_down (Suc n) (of_nat d) s m = movsl_down n (of_nat (d - 4)) (s - 4) ?m"
      using of_nat_minus [of 4 d] Suc.prems by (simp add: add.commute)
    show ?thesis unfolding eq
      by (rule within_trans [OF 1 Suc.IH]) (use Suc Suc.prems in simp_all)
  qed
qed simp

lemma shift_right_within: "S \<le> d \<Longrightarrow> d + 2 * n \<le> E \<Longrightarrow> E < 2 ^ 32 \<Longrightarrow> within S E m (shift_right n (of_nat d) v m)"
proof (induction n arbitrary: d v m)
  case (Suc n)
  have eq: "shift_right (Suc n) (of_nat d) v m = shift_right n (of_nat (d + 2)) (m (of_nat d)) (m(of_nat d := v))" by (simp add: add.commute)
  show ?case unfolding eq
    by (rule within_trans [OF within_upd [OF within_refl] Suc.IH]) (use Suc.prems in simp_all)
qed simp

lemma shift_left_within: "S \<le> d \<Longrightarrow> d + 2 * n + 2 \<le> E \<Longrightarrow> E < 2 ^ 32 \<Longrightarrow> within S E m (shift_left n (of_nat d) v m)"
proof (induction n arbitrary: d m)
  case 0
  have eq: "shift_left 0 (of_nat d) v m = m(of_nat d := v)" by (simp add: add.commute)
  show ?case unfolding eq
    by (rule within_upd [OF within_refl]) (use 0 in simp_all)
next
  case (Suc n)
  have eq: "shift_left (Suc n) (of_nat d) v m = shift_left n (of_nat (d + 2)) v (m(of_nat d := m (of_nat (d + 2))))" by (simp add: add.commute)
  show ?case unfolding eq
    by (rule within_trans [OF within_upd [OF within_refl] Suc.IH]) (use Suc.prems in simp_all)
qed

subsection \<open>The screen\<close>

text \<open>
  The screen: \<open>C\<close> columns, an even number, and 25 lines of cells from the address \<open>Q\<close> on, inside
  the video memory from \<open>S\<close> to \<open>E\<close>; the scrolling region from line \<open>T\<close> to line \<open>B\<close>; the cursor in
  column \<open>X\<close> (one past the last column is allowed) and line \<open>Y\<close>, and \<open>pos\<close> the address of its cell.
\<close>

definition screen_at :: "nat \<Rightarrow> nat \<Rightarrow> nat \<Rightarrow> nat \<Rightarrow> nat \<Rightarrow> nat \<Rightarrow> nat \<Rightarrow> nat \<Rightarrow> console \<Rightarrow> bool" where
  "screen_at C S E Q T B X Y c \<longleftrightarrow>
     video_num_columns c = of_nat C \<and> video_size_row c = of_nat (2 * C) \<and> video_num_lines c = of_nat 25
     \<and> video_mem_start c = of_nat S \<and> video_mem_end c = of_nat E
     \<and> origin c = of_nat Q \<and> scr_end c = of_nat (Q + 50 * C)
     \<and> scr_top c = of_nat T \<and> scr_bottom c = of_nat B
     \<and> cur_x c = of_nat X \<and> cur_y c = of_nat Y \<and> cur_pos c = of_nat (Q + 2 * C * Y + 2 * X)
     \<and> even C \<and> 8 \<le> C \<and> C \<le> 254 \<and> 8 \<le> S \<and> S \<le> Q \<and> Q + 50 * C \<le> E \<and> E \<le> 0x100000
     \<and> T < B \<and> B \<le> 25 \<and> X \<le> C \<and> Y < 25"

text \<open>The parser: sixteen parameters and an index into them.\<close>

definition parser_ok :: "console \<Rightarrow> bool" where
  "parser_ok c \<longleftrightarrow> length (pars c) = NPAR \<and> npar c < NPAR \<and> con_state c \<le> 3"

definition con_at :: "nat \<Rightarrow> nat \<Rightarrow> nat \<Rightarrow> console \<Rightarrow> bool" where
  "con_at C S E c \<longleftrightarrow> parser_ok c \<and> (\<exists>Q T B X Y. screen_at C S E Q T B X Y c)"

lemma con_atI: "parser_ok c \<Longrightarrow> screen_at C S E Q T B X Y c \<Longrightarrow> con_at C S E c"
  unfolding con_at_def by blast

text \<open>What an operation may do: keep all of this, and write video memory only.\<close>

definition safe :: "console \<Rightarrow> console \<Rightarrow> bool" where
  "safe c c' \<longleftrightarrow> (\<forall>C S E. con_at C S E c \<longrightarrow> con_at C S E c' \<and> within S E (vram c) (vram c'))"

lemma safe_refl [simp]: "safe c c"
  by (simp add: safe_def)

lemma safe_trans: "safe c c' \<Longrightarrow> safe c' c'' \<Longrightarrow> safe c c''"
  unfolding safe_def by (blast intro: within_trans)

text \<open>An operation that moves the cursor, the region or the origin.\<close>

lemma safe_move:
  assumes "\<And>C S E Q T B X Y. parser_ok c \<Longrightarrow> screen_at C S E Q T B X Y c \<Longrightarrow>
    parser_ok c' \<and> within S E (vram c) (vram c') \<and> (\<exists>Q' T' B' X' Y'. screen_at C S E Q' T' B' X' Y' c')"
  shows "safe c c'"
  unfolding safe_def con_at_def using assms by blast

subsection \<open>The operations\<close>

lemma safe_vram:
  assumes "\<And>C S E Q T B X Y. screen_at C S E Q T B X Y c \<Longrightarrow> within S E (vram c) m"
  shows "safe c (c\<lparr>vram := m\<rparr>)"
proof (rule safe_move)
  fix C S E Q T B X Y assume "parser_ok c" and v: "screen_at C S E Q T B X Y c"
  then have "screen_at C S E Q T B X Y (c\<lparr>vram := m\<rparr>)" "parser_ok (c\<lparr>vram := m\<rparr>)"
    by (simp_all add: screen_at_def parser_ok_def)
  with assms [OF v] show "parser_ok (c\<lparr>vram := m\<rparr>) \<and> within S E (vram c) (vram (c\<lparr>vram := m\<rparr>))
      \<and> (\<exists>Q' T' B' X' Y'. screen_at C S E Q' T' B' X' Y' (c\<lparr>vram := m\<rparr>))"
    by (intro conjI exI [of _ Q] exI [of _ T] exI [of _ B] exI [of _ X] exI [of _ Y]) simp_all
qed

text \<open>What \<open>screen_at\<close> says of the words and of the numbers.\<close>

lemma screen_words:
  assumes "screen_at C S E Q T B X Y c"
  shows "video_num_columns c = of_nat C" "video_size_row c = of_nat (2 * C)" "video_num_lines c = of_nat 25"
    "video_mem_start c = of_nat S" "video_mem_end c = of_nat E" "origin c = of_nat Q" "scr_end c = of_nat (Q + 50 * C)"
    "scr_top c = of_nat T" "scr_bottom c = of_nat B" "cur_x c = of_nat X" "cur_y c = of_nat Y"
    "cur_pos c = of_nat (Q + 2 * C * Y + 2 * X)"
  using assms by (simp_all only: screen_at_def)

lemma screen_nats:
  assumes "screen_at C S E Q T B X Y c"
  shows "even C" "8 \<le> C" "C \<le> 254" "8 \<le> S" "S \<le> Q" "Q + 50 * C \<le> E" "E \<le> 0x100000" "T < B" "B \<le> 25" "X \<le> C" "Y < 25"
    "E < 2 ^ 32"
  using assms by (auto simp: screen_at_def)

lemma unat_div2: "n < 2 ^ 32 \<Longrightarrow> unat (drop_bit 1 (of_nat n :: u32)) = n div 2"
  by (simp add: unat_drop_bit_eq drop_bit_eq_div unat_of_nat32 unat_div)

lemma region_longs_nat:
  assumes v: "screen_at C S E Q T B X Y c"
  shows "region_longs c = (B - T - 1) * C div 2" "4 * region_longs c = 2 * C * (B - T - 1)"
proof -
  have "(B - T - 1) * C \<le> 25 * 254" using screen_nats [OF v] by (intro mult_le_mono) simp_all
  moreover have "(of_nat B - of_nat T - 1 :: u32) = of_nat (B - T - 1)"
    using of_nat_minus [of T B] of_nat_minus [of 1 "B - T"] screen_nats(8) [OF v] by simp
  then have "(of_nat B - of_nat T - 1) * of_nat C = (of_nat ((B - T - 1) * C) :: u32)" by (simp only: of_nat_mult)
  moreover have "(B - T - 1) * C < 2 ^ 32" using \<open>(B - T - 1) * C \<le> 25 * 254\<close> by simp
  ultimately show r: "region_longs c = (B - T - 1) * C div 2"
    unfolding region_longs_def screen_words [OF v] by (simp only: unat_div2)
  have "4 * ((B - T - 1) * C div 2) = 2 * (2 * ((B - T - 1) * C div 2))" by simp
  also have "2 * ((B - T - 1) * C div 2) = (B - T - 1) * C" using screen_nats(1) [OF v] by simp
  finally show "4 * region_longs c = 2 * C * (B - T - 1)" using r by simp
qed

lemma scroll_fill_within:
  assumes "S \<le> d" and "d + 4 * n + 2 * unat (video_num_columns c) \<le> E" and "E < 2 ^ 32"
  shows "within S E (vram c) (vram (scroll_fill n (of_nat d) s c))"
proof -
  have "(of_nat d :: u32) + 4 * of_nat n = of_nat (d + 4 * n)" by simp
  then have eq: "vram (scroll_fill n (of_nat d) s c) =
      stosw (unat (video_num_columns c)) (of_nat (d + 4 * n)) (video_erase_char c) (movsl n (of_nat d) s (vram c))"
    by (simp only: scroll_fill_def console.select_convs console.update_convs) simp
  show ?thesis unfolding eq
    by (rule within_trans [OF movsl_within stosw_within]) (use assms in simp_all)
qed

lemma line_below: "T < B \<Longrightarrow> B \<le> 25 \<Longrightarrow> 2 * C * T + 2 * C * (B - T - 1) + 2 * C = 2 * C * B" for C T B :: nat
proof -
  assume "T < B"
  then have "B = T + (B - T - 1) + 1" by simp
  then have "2 * C * B = 2 * C * (T + (B - T - 1) + 1)" by metis
  then show ?thesis by (simp only: distrib_left mult_1_right)
qed

lemma scrup_region_safe: "safe c (scrup_region c)"
proof -
  have eq: "scrup_region c = c\<lparr>vram := vram (scrup_region c)\<rparr>"
    by (simp add: scrup_region_def scroll_fill_def)
  show ?thesis
  proof (subst eq, rule safe_vram)
    fix C S E Q T B X Y assume v: "screen_at C S E Q T B X Y c"
    note w = screen_words [OF v] and n = screen_nats [OF v]
    have "origin c + video_size_row c * scr_top c = of_nat (Q + 2 * C * T)" unfolding w by simp
    moreover have "within S E (vram c) (vram (scroll_fill (region_longs c) (of_nat (Q + 2 * C * T)) s c))" for s
    proof (rule scroll_fill_within)
      have "2 * C * B \<le> 2 * C * 25" using n(9) by (rule mult_le_mono2)
      moreover have "unat (video_num_columns c) = C" unfolding w using n(3) by (simp add: unat_of_nat32)
      ultimately show "Q + 2 * C * T + 4 * region_longs c + 2 * unat (video_num_columns c) \<le> E"
        using line_below [OF n(8,9), of C] n(6) unfolding region_longs_nat(2) [OF v] by linarith
    qed (use n in simp_all)
    ultimately show "within S E (vram c) (vram (scrup_region c))" by (simp add: scrup_region_def)
  qed
qed

lemma screen_move:
  assumes v: "screen_at C S E Q T B X Y c" and q: "S \<le> Q'" "Q' + 50 * C \<le> E" and t: "T' < B'" "B' \<le> 25" and x: "X' \<le> C" "Y' < 25"
    and c': "video_num_columns c' = video_num_columns c" "video_size_row c' = video_size_row c" "video_num_lines c' = video_num_lines c"
      "video_mem_start c' = video_mem_start c" "video_mem_end c' = video_mem_end c" "origin c' = of_nat Q'"
      "scr_end c' = of_nat (Q' + 50 * C)" "scr_top c' = of_nat T'" "scr_bottom c' = of_nat B'" "cur_x c' = of_nat X'"
      "cur_y c' = of_nat Y'" "cur_pos c' = of_nat (Q' + 2 * C * Y' + 2 * X')"
  shows "screen_at C S E Q' T' B' X' Y' c'"
  using v unfolding screen_at_def c' by (intro conjI) (use q t x in \<open>simp_all only:\<close>)

lemma gotoxy_safe: "safe c (gotoxy a b c)"
proof (cases "a > video_num_columns c \<or> b \<ge> video_num_lines c")
  case False
  show ?thesis
  proof (rule safe_move)
    fix C S E Q T B X Y assume p: "parser_ok c" and v: "screen_at C S E Q T B X Y c"
    note w = screen_words [OF v] and n = screen_nats [OF v]
    have ab: "unat a \<le> C" "unat b < 25"
      using False n(3) unfolding w by (auto simp: word_less_nat_alt word_le_nat_alt unat_of_nat32 not_le not_less)
    have "of_nat Q + b * of_nat (2 * C) + push_bit 1 a = (of_nat (Q + 2 * C * unat b + 2 * unat a) :: u32)"
      by (simp add: push_bit_eq_mult algebra_simps)
    then have "screen_at C S E Q T B (unat a) (unat b) (gotoxy a b c)"
      using False n ab by (intro screen_move [OF v]) (simp_all add: gotoxy_def w)
    moreover have "parser_ok (gotoxy a b c)" "vram (gotoxy a b c) = vram c" using False p by (simp_all add: gotoxy_def parser_ok_def)
    ultimately show "parser_ok (gotoxy a b c) \<and> within S E (vram c) (vram (gotoxy a b c))
        \<and> (\<exists>Q' T' B' X' Y'. screen_at C S E Q' T' B' X' Y' (gotoxy a b c))" by (metis within_refl)
  qed
qed (simp add: gotoxy_def)

lemma scrdown_safe: "safe c (scrdown c)"
proof -
  have eq: "scrdown c = c\<lparr>vram := vram (scrdown c)\<rparr>"
    by (simp add: scrdown_def scroll_fill_down_def)
  show ?thesis
  proof (subst eq, rule safe_vram)
    fix C S E Q T B X Y assume v: "screen_at C S E Q T B X Y c"
    note w = screen_words [OF v] and n = screen_nats [OF v]
    let ?n = "region_longs c" and ?d = "Q + 2 * C * B - 4"
    have CB: "2 * C * B \<le> 2 * C * 25" "2 * C * 1 \<le> 2 * C * B" using n(8,9) by (intro mult_le_mono2; simp)+
    have lb: "2 * C * T + 4 * ?n + 2 * C = 2 * C * B"
      using line_below [OF n(8,9), of C] unfolding region_longs_nat(2) [OF v] by linarith
    have "origin c + video_size_row c * scr_bottom c = of_nat (Q + 2 * C * B)" unfolding w by simp
    moreover have "4 \<le> Q + 2 * C * B" using n(4,5) by linarith
    ultimately have d: "origin c + video_size_row c * scr_bottom c - 4 = of_nat ?d"
      using of_nat_minus [of 4 "Q + 2 * C * B"] by simp
    have "of_nat ?d - 4 * of_nat ?n + 2 = (of_nat (?d - 4 * ?n + 2) :: u32)"
    proof -
      have "4 * ?n \<le> ?d" using lb n(2,4,5) by linarith
      then show ?thesis using of_nat_minus [of "4 * ?n" ?d] by simp
    qed
    then have m: "vram (scroll_fill_down ?n (of_nat ?d) s c) = stosw_down (unat (video_num_columns c))
        (of_nat (?d - 4 * ?n + 2)) (video_erase_char c) (movsl_down ?n (of_nat ?d) s (vram c))" for s
      by (simp add: scroll_fill_down_def add.commute)
    have C: "unat (video_num_columns c) = C" unfolding w using n(3) by (simp add: unat_of_nat32)
    show "within S E (vram c) (vram (scrdown c))"
      unfolding scrdown_def d m C
    proof (rule within_trans [OF movsl_down_within stosw_down_within])
      show "S + 4 * ?n \<le> ?d + 4" "?d + 4 \<le> E" using lb CB n(2,4,5,6) by linarith+
      show "S + 2 * C \<le> ?d - 4 * ?n + 2 + 2" "?d - 4 * ?n + 2 + 2 \<le> E" using lb CB n(2,4,5,6) by linarith+
    qed (use n in simp_all)
  qed
qed

lemma ri_safe: "safe c (ri c)"
proof (cases "cur_y c > scr_top c")
  case True
  show ?thesis
  proof (rule safe_move)
    fix C S E Q T B X Y assume p: "parser_ok c" and v: "screen_at C S E Q T B X Y c"
    note w = screen_words [OF v] and n = screen_nats [OF v]
    have Y: "1 \<le> Y" using True n unfolding w by (cases Y) simp_all
    then obtain y where y: "Y = Suc y" by (cases Y) simp_all
    have "screen_at C S E Q T B X y (ri c)"
      using True n y by (intro screen_move [OF v]) (simp_all add: ri_def w algebra_simps)
    moreover have "parser_ok (ri c)" "vram (ri c) = vram c" using True p by (simp_all add: ri_def parser_ok_def)
    ultimately show "parser_ok (ri c) \<and> within S E (vram c) (vram (ri c)) \<and> (\<exists>Q' T' B' X' Y'. screen_at C S E Q' T' B' X' Y' (ri c))"
      by (metis within_refl)
  qed
qed (simp add: ri_def scrdown_safe)

lemma cr_safe: "safe c (cr c)"
proof (rule safe_move)
  fix C S E Q T B X Y assume p: "parser_ok c" and v: "screen_at C S E Q T B X Y c"
  note w = screen_words [OF v] and n = screen_nats [OF v]
  have "screen_at C S E Q T B 0 Y (cr c)"
    using n by (intro screen_move [OF v]) (simp_all add: cr_def w push_bit_eq_mult)
  moreover have "parser_ok (cr c)" "vram (cr c) = vram c" using p by (simp_all add: cr_def parser_ok_def)
  ultimately show "parser_ok (cr c) \<and> within S E (vram c) (vram (cr c)) \<and> (\<exists>Q' T' B' X' Y'. screen_at C S E Q' T' B' X' Y' (cr c))"
    by (metis within_refl)
qed

text \<open>The address of a cell of the screen lies in the video memory.\<close>

lemma cell_in: "screen_at C S E Q T B X Y c \<Longrightarrow> r < 25 \<Longrightarrow> k < C \<Longrightarrow> S \<le> Q + 2 * C * r + 2 * k \<and> Q + 2 * C * r + 2 * k + 2 \<le> E"
proof -
  assume v: "screen_at C S E Q T B X Y c" and rk: "r < 25" "k < C"
  have "2 * C * r \<le> 2 * C * 24" using rk(1) by (intro mult_le_mono2) simp
  then show ?thesis using screen_nats [OF v] rk by linarith
qed

lemma row_in: "screen_at C S E Q T B X Y c \<Longrightarrow> r < 25 \<Longrightarrow> S \<le> Q + 2 * C * r \<and> Q + 2 * C * r + 2 * C \<le> E"
proof -
  assume v: "screen_at C S E Q T B X Y c" and r: "r < 25"
  have "2 * C * r \<le> 2 * C * 24" using r by (intro mult_le_mono2) simp
  then show ?thesis using screen_nats [OF v] by linarith
qed

lemma back_safe:
  assumes X: "cur_x c \<noteq> 0"
    and c': "c' = c\<lparr>cur_pos := cur_pos c - 2, cur_x := cur_x c - 1, vram := (if wr then (vram c)(cur_pos c - 2 := v) else vram c)\<rparr>"
  shows "safe c c'"
proof (rule safe_move)
  fix C S E Q T B X Y assume p: "parser_ok c" and v: "screen_at C S E Q T B X Y c"
  note w = screen_words [OF v] and n = screen_nats [OF v]
  obtain x where x: "X = Suc x" using assms(1) unfolding w by (cases X) simp_all
  have pos: "cur_pos c - 2 = of_nat (Q + 2 * C * Y + 2 * x)" unfolding w x by simp
  have "screen_at C S E Q T B x Y c'"
    using n x by (intro screen_move [OF v]) (simp_all add: c' pos, simp_all add: w)
  moreover have "parser_ok c'" using p by (simp add: c' parser_ok_def)
  moreover have "within S E (vram c) (vram c')"
    using cell_in [OF v n(11), of x] n(10,12) x within_upd [OF within_refl, of S "Q + 2 * C * Y + 2 * x" E "vram c" v]
    unfolding c' pos by simp
  ultimately show "parser_ok c' \<and> within S E (vram c) (vram c') \<and> (\<exists>Q' T' B' X' Y'. screen_at C S E Q' T' B' X' Y' c')"
    by blast
qed

lemma del_char_safe: "safe c (del_char c)"
proof (cases "cur_x c = 0")
  case False
  then show ?thesis by (rule back_safe [where wr = True and v = "video_erase_char c"]) (simp add: del_char_def False Let_def)
qed (simp add: del_char_def)

text \<open>Filling from a cell: \<open>count\<close> cells from the address \<open>d\<close> on.\<close>

lemma fill_within:
  assumes v: "screen_at C S E Q T B X Y c" and "S \<le> d" and "d + 2 * count \<le> E"
  shows "within S E (vram c) (stosw (unat (of_nat count :: u32)) (of_nat d) e (vram c))"
proof -
  have "count < 2 ^ 32" using assms(3) screen_nats(12) [OF v] by linarith
  then show ?thesis using assms(2,3) screen_nats(12) [OF v] by (simp only: unat_of_nat32) (rule stosw_within)
qed

lemma drop_1_double: "2 * k < 2 ^ 32 \<Longrightarrow> (drop_bit 1 (of_nat (2 * k)) :: u32) = of_nat k"
proof -
  assume k: "2 * k < 2 ^ 32"
  have "unat (drop_bit 1 (of_nat (2 * k)) :: u32) = unat (of_nat k :: u32)"
    using unat_div2 [OF k] k by (simp add: unat_of_nat32)
  then show ?thesis by (simp only: word_unat_eq_iff)
qed

lemma pos_bounds: "screen_at C S E Q T B X Y c \<Longrightarrow> Q + 2 * C * Y + 2 * X \<le> Q + 50 * C"
proof -
  assume v: "screen_at C S E Q T B X Y c"
  have "2 * C * Y \<le> 2 * C * 24" using screen_nats(11) [OF v] by (intro mult_le_mono2) simp
  then show ?thesis using screen_nats(10) [OF v] by linarith
qed

lemma csi_J_safe: "safe c (csi_J p c)"
proof -
  have eq: "csi_J p c = c\<lparr>vram := vram (csi_J p c)\<rparr>" by (simp add: csi_J_def Let_def)
  show ?thesis
  proof (subst eq, rule safe_vram)
    fix C S E Q T B X Y assume v: "screen_at C S E Q T B X Y c"
    note w = screen_words [OF v] and n = screen_nats [OF v]
    let ?k = "25 * C - C * Y - X"
    have k: "Q + 2 * C * Y + 2 * X + 2 * ?k = Q + 50 * C" using pos_bounds [OF v] by simp
    have s: "2 * ?k < 2 ^ 32" "2 * (C * Y + X) < 2 ^ 32" using k pos_bounds [OF v] n(6,7) by simp_all
    have "scr_end c - cur_pos c = of_nat (2 * ?k)"
      unfolding w using of_nat_minus [OF pos_bounds [OF v]] k by (metis add_diff_cancel_left')
    then have 0: "drop_bit 1 (scr_end c - cur_pos c) = of_nat ?k" using drop_1_double [OF s(1)] by simp
    have "cur_pos c - origin c = of_nat (2 * (C * Y + X))" unfolding w by simp
    then have 1: "drop_bit 1 (cur_pos c - origin c) = of_nat (C * Y + X)" using drop_1_double [OF s(2)] by simp
    have d: "2 * (C * Y + X) = 2 * C * Y + 2 * X" by simp
    have 2: "video_num_columns c * video_num_lines c = of_nat (25 * C)" unfolding w by simp
    have "within S E (vram c) (stosw (unat (of_nat ?k :: u32)) (cur_pos c) e (vram c))"
      "within S E (vram c) (stosw (unat (of_nat (C * Y + X) :: u32)) (origin c) e (vram c))"
      "within S E (vram c) (stosw (unat (of_nat (25 * C) :: u32)) (origin c) e (vram c))" for e
      unfolding w by (rule fill_within [OF v]; use k n(5,6) pos_bounds [OF v] d in linarith)+
    then show "within S E (vram c) (vram (csi_J p c))" by (simp only: csi_J_def Let_def 0 1 2) simp
  qed
qed

lemma csi_K_safe: "safe c (csi_K p c)"
proof -
  have eq: "csi_K p c = c\<lparr>vram := vram (csi_K p c)\<rparr>" by (simp add: csi_K_def Let_def)
  show ?thesis
  proof (subst eq, rule safe_vram)
    fix C S E Q T B X Y assume v: "screen_at C S E Q T B X Y c"
    note w = screen_words [OF v] and n = screen_nats [OF v]
    have line: "cur_pos c - push_bit 1 (cur_x c) = of_nat (Q + 2 * C * Y)" unfolding w by (simp add: push_bit_eq_mult)
    have cols: "video_num_columns c - cur_x c = of_nat (C - X)" unfolding w using of_nat_minus [OF n(10)] .
    have b: "S \<le> Q + 2 * C * Y" "Q + 2 * C * Y + 2 * C \<le> E" "Q + 2 * C * Y + 2 * X + 2 * (C - X) \<le> E"
      using row_in [OF v n(11)] n(10) by linarith+
    have f: "within S E (vram c) (stosw (unat (of_nat (C - X) :: u32)) (cur_pos c) e (vram c))"
      "within S E (vram c) (stosw (unat (of_nat X :: u32)) (of_nat (Q + 2 * C * Y)) e (vram c))"
      "within S E (vram c) (stosw (unat (of_nat C :: u32)) (of_nat (Q + 2 * C * Y)) e (vram c))" for e
      unfolding w by (rule fill_within [OF v]; use b n(10) in linarith)+
    have "within S E (vram c) (stosw (unat (if b then of_nat X else of_nat C :: u32)) (of_nat (Q + 2 * C * Y)) e (vram c))" for b e
      using f(2,3) by simp
    with f show "within S E (vram c) (vram (csi_K p c))"
      by (simp only: csi_K_def Let_def line cols) (simp add: w(1,10))
  qed
qed

lemma insert_char_safe: "safe c (insert_char c)"
  unfolding insert_char_def
proof (rule safe_vram)
  fix C S E Q T B X Y assume v: "screen_at C S E Q T B X Y c"
  note w = screen_words [OF v] and n = screen_nats [OF v]
  have "unat (video_num_columns c) - unat (cur_x c) = C - X" unfolding w using n(3,10) by (simp add: unat_of_nat32)
  moreover have "Q + 2 * C * Y + 2 * X + 2 * (C - X) \<le> E" "S \<le> Q + 2 * C * Y + 2 * X"
    using row_in [OF v n(11)] n(10) by linarith+
  ultimately show "within S E (vram c) (shift_right (unat (video_num_columns c) - unat (cur_x c)) (cur_pos c) (video_erase_char c) (vram c))"
    unfolding w(12) using n(12) by (simp only:) (rule shift_right_within)
qed

lemma delete_char_safe: "safe c (delete_char c)"
proof (cases "cur_x c \<ge> video_num_columns c")
  case False
  then have eq: "delete_char c = c\<lparr>vram := shift_left (unat (video_num_columns c) - unat (cur_x c) - 1) (cur_pos c) (video_erase_char c) (vram c)\<rparr>"
    by (simp add: delete_char_def)
  show ?thesis
    unfolding eq
  proof (rule safe_vram)
    fix C S E Q T B X Y assume v: "screen_at C S E Q T B X Y c"
    note w = screen_words [OF v] and n = screen_nats [OF v]
    have "X < C" using False n(3,10) unfolding w by (auto simp: word_le_nat_alt unat_of_nat32)
    moreover have "unat (video_num_columns c) - unat (cur_x c) - 1 = C - X - 1" unfolding w using n(3,10) by (simp add: unat_of_nat32)
    moreover have "Q + 2 * C * Y + 2 * X + 2 * (C - X - 1) + 2 \<le> E" "S \<le> Q + 2 * C * Y + 2 * X"
      using row_in [OF v n(11)] \<open>X < C\<close> by linarith+
    ultimately show "within S E (vram c) (shift_left (unat (video_num_columns c) - unat (cur_x c) - 1) (cur_pos c) (video_erase_char c) (vram c))"
      unfolding w(12) using n(12) by (simp only:) (rule shift_left_within)
  qed
qed (simp add: delete_char_def)

lemma scrup_origin_safe:
  assumes whole: "whole_screen c"
  shows "safe c (scrup_origin c)"
proof (rule safe_move)
  fix C S E Q T B X Y assume p: "parser_ok c" and v: "screen_at C S E Q T B X Y c"
  note w = screen_words [OF v] and n = screen_nats [OF v]
  let ?c = "c\<lparr>origin := origin c + video_size_row c, cur_pos := cur_pos c + video_size_row c,
               scr_end := scr_end c + video_size_row c\<rparr>"
  have new: "origin ?c = of_nat (Q + 2 * C)" "cur_pos ?c = of_nat (Q + 2 * C * Y + 2 * X + 2 * C)"
    "scr_end ?c = of_nat (Q + 50 * C + 2 * C)" unfolding console.select_convs console.update_convs by (simp_all add: w)
  have C: "unat (video_num_columns c) = C" unfolding w using n(3) by (simp add: unat_of_nat32)
  have cmp: "scr_end ?c > video_mem_end ?c \<longleftrightarrow> E < Q + 50 * C + 2 * C"
    unfolding new(3) using n(3,6,7) by (simp add: w word_less_nat_alt unat_of_nat32 del: of_nat_add of_nat_mult)
  show "parser_ok (scrup_origin c) \<and> within S E (vram c) (vram (scrup_origin c))
      \<and> (\<exists>Q' T' B' X' Y'. screen_at C S E Q' T' B' X' Y' (scrup_origin c))"
  proof (cases "E < Q + 50 * C + 2 * C")
    case False
    have eq: "scrup_origin c = ?c\<lparr>vram := stosw (unat (video_num_columns c)) (scr_end ?c - video_size_row c) (video_erase_char c) (vram c)\<rparr>"
      using False cmp by (simp add: scrup_origin_def Let_def)
    have "scr_end ?c - video_size_row c = of_nat (Q + 50 * C)" by (simp add: w)
    then have "vram (scrup_origin c) = stosw C (of_nat (Q + 50 * C)) (video_erase_char c) (vram c)" unfolding eq by (simp add: C)
    moreover have "within S E (vram c) (stosw C (of_nat (Q + 50 * C)) (video_erase_char c) (vram c))"
      by (rule stosw_within) (use False n in linarith)+
    moreover have "screen_at C S E (Q + 2 * C) T B X Y (scrup_origin c)"
      unfolding eq using False n by (intro screen_move [OF v]) (simp_all add: w algebra_simps)
    moreover have "parser_ok (scrup_origin c)" using p unfolding eq by (simp add: parser_ok_def)
    ultimately show ?thesis by metis
  next
    case True
    let ?n = "unat (drop_bit 1 ((video_num_lines c - 1) * video_num_columns c))"
    have "(video_num_lines c - 1) * video_num_columns c = of_nat (24 * C)" unfolding w by simp
    then have fn: "?n = 12 * C" using unat_div2 [of "24 * C"] n(3) by simp
    define F where "F = scroll_fill ?n (video_mem_start c) (origin ?c) ?c"
    have eq: "scrup_origin c = F\<lparr>scr_end := scr_end F - (origin F - video_mem_start F),
        cur_pos := cur_pos F - (origin F - video_mem_start F), origin := video_mem_start F\<rparr>"
      using True cmp by (simp add: scrup_origin_def Let_def F_def)
    have f: "origin F = of_nat (Q + 2 * C)" "video_mem_start F = of_nat S" "scr_end F = of_nat (Q + 50 * C + 2 * C)"
      "cur_pos F = of_nat (Q + 2 * C * Y + 2 * X + 2 * C)"
      by (simp_all add: F_def scroll_fill_def w)
    have g: "video_num_columns F = video_num_columns c" "video_size_row F = video_size_row c"
      "video_num_lines F = video_num_lines c" "video_mem_end F = video_mem_end c" "scr_top F = scr_top c"
      "scr_bottom F = scr_bottom c" "cur_x F = cur_x c" "cur_y F = cur_y c" "pars F = pars c" "npar F = npar c"
      "con_state F = con_state c"
      by (simp_all add: F_def scroll_fill_def)
    have d: "origin F - video_mem_start F = of_nat (Q + 2 * C - S)" unfolding f using n(5) by (intro of_nat_minus) simp
    have "screen_at C S E S T B X Y (scrup_origin c)"
    proof (rule screen_move [OF v])
      show "scr_end (scrup_origin c) = of_nat (S + 50 * C)"
        unfolding eq console.select_convs console.update_convs d f using n(5) by (simp add: of_nat_diff)
      show "cur_pos (scrup_origin c) = of_nat (S + 2 * C * Y + 2 * X)"
        unfolding eq console.select_convs console.update_convs d f using n(5) by (simp add: of_nat_diff)
    qed (use n in \<open>simp_all add: eq f g w\<close>)
    moreover have "within S E (vram ?c) (vram F)"
      unfolding w(4) fn F_def using n C by (intro scroll_fill_within) simp_all
    then have "within S E (vram c) (vram (scrup_origin c))" by (simp add: eq)
    moreover have "parser_ok (scrup_origin c)" using p by (simp add: eq parser_ok_def g)
    ultimately show ?thesis by blast
  qed
qed

lemma scrup_con_safe: "safe c (scrup_con c)"
  by (simp add: scrup_con_def scrup_region_safe scrup_origin_safe)

text \<open>The operations that leave the screen alone.\<close>

lemma safe_other:
  assumes "vram c' = vram c" and "video_num_columns c' = video_num_columns c" "video_size_row c' = video_size_row c"
    "video_num_lines c' = video_num_lines c" "video_mem_start c' = video_mem_start c" "video_mem_end c' = video_mem_end c"
    "origin c' = origin c" "scr_end c' = scr_end c" "scr_top c' = scr_top c" "scr_bottom c' = scr_bottom c"
    "cur_x c' = cur_x c" "cur_y c' = cur_y c" "cur_pos c' = cur_pos c" and "parser_ok c \<Longrightarrow> parser_ok c'"
  shows "safe c c'"
proof (rule safe_move)
  fix C S E Q T B X Y assume "parser_ok c" and v: "screen_at C S E Q T B X Y c"
  moreover from v have "screen_at C S E Q T B X Y c'" using assms(2-13) by (simp only: screen_at_def)
  ultimately show "parser_ok c' \<and> within S E (vram c) (vram c') \<and> (\<exists>Q' T' B' X' Y'. screen_at C S E Q' T' B' X' Y' c')"
    using assms(1,14) by (metis within_refl)
qed

lemma set_attr_safe: "safe c (set_attr p c)"
  by (rule safe_other) (simp_all add: set_attr_def parser_ok_def)

lemma save_cur_safe: "safe c (save_cur c)"
  by (rule safe_other) (simp_all add: save_cur_def parser_ok_def)

lemma set_par_safe: "safe c (set_par k v c)"
  by (rule safe_other) (simp_all add: set_par_def parser_ok_def)

lemma con_state_safe: "k \<le> 3 \<Longrightarrow> safe c (con_state_update (\<lambda>_. k) c)"
  by (rule safe_other) (simp_all add: parser_ok_def)

lemma restore_cur_safe: "safe c (restore_cur c)"
  by (simp add: restore_cur_def gotoxy_safe)

lemma safe_fold: "(\<And>x c. safe c (f x c)) \<Longrightarrow> safe c (fold f xs c)"
  by (induction xs arbitrary: c) (auto intro: safe_trans)

lemma safe_funpow: "(\<And>c. safe c (f c)) \<Longrightarrow> safe c ((f ^^ n) c)"
  by (induction n) (auto intro: safe_trans)

lemma csi_m_safe: "safe c (csi_m c)"
  unfolding csi_m_def by (rule safe_fold) (rule set_attr_safe)

text \<open>A scroll with another region: the region is put back afterwards.\<close>

lemma with_region_safe:
  assumes "safe (c\<lparr>scr_top := cur_y c, scr_bottom := video_num_lines c\<rparr>) c'"
  shows "safe c (c'\<lparr>scr_top := scr_top c, scr_bottom := scr_bottom c\<rparr>)"
proof (rule safe_move)
  fix C S E Q T B X Y assume p: "parser_ok c" and v: "screen_at C S E Q T B X Y c"
  note w = screen_words [OF v] and n = screen_nats [OF v]
  let ?c = "c\<lparr>scr_top := cur_y c, scr_bottom := video_num_lines c\<rparr>"
  have "screen_at C S E Q Y 25 X Y ?c" using n by (intro screen_move [OF v]) (simp_all add: w)
  moreover have "parser_ok ?c" using p by (simp add: parser_ok_def)
  ultimately have "con_at C S E ?c" unfolding con_at_def by blast
  then have "con_at C S E c'" and m: "within S E (vram c) (vram c')"
    using assms(1) unfolding safe_def by (metis, fastforce)
  then obtain Q' T' B' X' Y' where p': "parser_ok c'" and v': "screen_at C S E Q' T' B' X' Y' c'"
    by (auto simp: con_at_def)
  let ?d = "c'\<lparr>scr_top := scr_top c, scr_bottom := scr_bottom c\<rparr>"
  note w' = screen_words [OF v'] and n' = screen_nats [OF v']
  have "screen_at C S E Q' T B X' Y' ?d"
    by (rule screen_move [OF v']) (use n n' in \<open>simp_all add: w w'\<close>)
  moreover have "parser_ok ?d" "vram ?d = vram c'" using p' by (simp_all add: parser_ok_def)
  ultimately show "parser_ok ?d \<and> within S E (vram c) (vram ?d) \<and> (\<exists>Q' T' B' X' Y'. screen_at C S E Q' T' B' X' Y' ?d)"
    using m by metis
qed

lemma insert_line_safe: "safe c (insert_line c)"
  unfolding insert_line_def
  by (rule with_region_safe) (rule scrdown_safe)

end
