(* ===== verification/Console_Run.thy ===== *)
theory Console_Run
  imports Console_Safe
begin

subsection \<open>Characters\<close>

lemma con_ports [simp]:
  "con (set_origin s) = con s" "con (set_cursor s) = con s" "con (on_con f s) = f (con s)" "con (outb v p s) = con s"
  by (simp_all add: set_origin_def set_cursor_def video_reg_def on_con_def outb_def)

lemma con_scrup [simp]: "con (scrup s) = scrup_con (con s)"
  by (simp add: scrup_def)

text \<open>The line feed on the record of the console.\<close>

definition lf_con :: "console \<Rightarrow> console" where
  "lf_con c = (if cur_y c + 1 < scr_bottom c then c\<lparr>cur_y := cur_y c + 1, cur_pos := cur_pos c + video_size_row c\<rparr> else scrup_con c)"

lemma con_lf [simp]: "con (lf s) = lf_con (con s)"
  by (simp add: lf_def lf_con_def)

lemma scrup_con_x [simp]: "cur_x (scrup_con c) = cur_x c" "video_num_columns (scrup_con c) = video_num_columns c"
  by (simp_all add: scrup_con_def scrup_origin_def scrup_region_def scroll_fill_def Let_def)

lemma lf_con_x [simp]: "cur_x (lf_con c) = cur_x c" "video_num_columns (lf_con c) = video_num_columns c"
  by (simp_all add: lf_con_def)

lemma lf_safe: "safe c (lf_con c)"
proof (cases "cur_y c + 1 < scr_bottom c")
  case True
  show ?thesis
  proof (rule safe_move)
    fix C S E Q T B X Y assume p: "parser_ok c" and v: "screen_at C S E Q T B X Y c"
    note w = screen_words [OF v] and n = screen_nats [OF v]
    have "unat (cur_y c + 1) < unat (scr_bottom c)" using True by (simp only: word_less_nat_alt)
    moreover have "cur_y c + 1 = of_nat (Y + 1)" unfolding w by simp
    ultimately have "unat (of_nat (Y + 1) :: u32) < unat (of_nat B :: u32)" by (simp only: w)
    moreover have "unat (of_nat (Y + 1) :: u32) = Y + 1" "unat (of_nat B :: u32) = B"
      using n(9,11) by (intro unat_of_nat32; simp)+
    ultimately have "Y + 1 < B" by (simp only:)
    then have "screen_at C S E Q T B X (Y + 1) (lf_con c)"
      using True n by (intro screen_move [OF v]) (simp_all add: lf_con_def w algebra_simps)
    moreover have "parser_ok (lf_con c)" "vram (lf_con c) = vram c" using True p by (simp_all add: lf_con_def parser_ok_def)
    ultimately show "parser_ok (lf_con c) \<and> within S E (vram c) (vram (lf_con c))
        \<and> (\<exists>Q' T' B' X' Y'. screen_at C S E Q' T' B' X' Y' (lf_con c))" by (metis within_refl)
  qed
qed (simp add: lf_con_def scrup_con_safe)

text \<open>Wrapping at the end of a line.\<close>

definition back_a_line :: "console \<Rightarrow> console" where
  "back_a_line c = c\<lparr>cur_x := cur_x c - video_num_columns c, cur_pos := cur_pos c - video_size_row c\<rparr>"

lemma wrap_at:
  assumes v: "screen_at C S E Q T B C Y c"
  shows "screen_at C S E Q T B 0 Y (back_a_line c)"
  using screen_nats [OF v] by (intro screen_move [OF v]) (simp_all add: back_a_line_def screen_words [OF v])

definition put_cell :: "u16 \<Rightarrow> console \<Rightarrow> console" where
  "put_cell v c = c\<lparr>vram := (vram c)(cur_pos c := v), cur_pos := cur_pos c + 2, cur_x := cur_x c + 1\<rparr>"

lemma put_cell_at:
  assumes v: "screen_at C S E Q T B X Y c" and X: "X < C"
  shows "screen_at C S E Q T B (X + 1) Y (put_cell a c)" "within S E (vram c) (vram (put_cell a c))"
proof -
  note w = screen_words [OF v] and n = screen_nats [OF v]
  show "screen_at C S E Q T B (X + 1) Y (put_cell a c)"
    using n X by (intro screen_move [OF v]) (simp_all add: put_cell_def w)
  show "within S E (vram c) (vram (put_cell a c))"
    using within_upd [OF within_refl, of S "Q + 2 * C * Y + 2 * X" E "vram c" a] cell_in [OF v n(11) X] n(12)
    by (simp add: put_cell_def w del: of_nat_add of_nat_mult)
qed

definition print_con :: "u16 \<Rightarrow> console \<Rightarrow> console" where
  "print_con a c = put_cell a (if cur_x c \<ge> video_num_columns c then lf_con (back_a_line c) else c)"

lemma print_safe: "safe c (print_con a c)"
  unfolding safe_def
proof (intro allI impI)
  fix C S E assume "con_at C S E c"
  then obtain Q T B X Y where p: "parser_ok c" and v: "screen_at C S E Q T B X Y c" by (auto simp: con_at_def)
  note w = screen_words [OF v] and n = screen_nats [OF v]
  define c1 where "c1 = (if cur_x c \<ge> video_num_columns c then lf_con (back_a_line c) else c)"
  have ge: "cur_x c \<ge> video_num_columns c \<longleftrightarrow> X = C"
    unfolding w using n(3,10) by (auto simp: word_le_nat_alt unat_of_nat32)
  have "parser_ok c1 \<and> within S E (vram c) (vram c1) \<and> (\<exists>Q T B X Y. screen_at C S E Q T B X Y c1 \<and> X < C)"
  proof (cases "X = C")
    case False
    with n(10) have "X < C" by simp
    moreover have "c1 = c" unfolding c1_def using False ge by simp
    ultimately show ?thesis using v p within_refl by metis
  next
    case True
    have c1: "c1 = lf_con (back_a_line c)" unfolding c1_def using ge True by simp
    have "parser_ok (back_a_line c)" "screen_at C S E Q T B 0 Y (back_a_line c)"
      using wrap_at [of C S E Q T B Y c] v p True by (simp_all add: parser_ok_def back_a_line_def)
    then have b: "con_at C S E (back_a_line c)" "vram (back_a_line c) = vram c"
      by (rule con_atI) (simp add: back_a_line_def)
    with lf_safe [of "back_a_line c"] have l: "con_at C S E c1" "within S E (vram c) (vram c1)" unfolding c1 safe_def by metis+
    then obtain Q' T' B' X' Y' where v': "parser_ok c1" "screen_at C S E Q' T' B' X' Y' c1" by (auto simp: con_at_def)
    have "cur_x c1 = 0" unfolding c1 by (simp add: back_a_line_def w True)
    then have "X' = 0" using screen_words(10) [OF v'(2)] screen_nats(3,10) [OF v'(2)] by (simp add: word_of_nat_eq_0_iff) (auto dest: dvd_imp_le)
    with v'(2) n(2) have "screen_at C S E Q' T' B' 0 Y' c1" "0 < C" by simp_all
    with l(2) v'(1) show ?thesis by blast
  qed
  then obtain Q T B X Y where c1: "parser_ok c1" "within S E (vram c) (vram c1)" "screen_at C S E Q T B X Y c1" "X < C" by blast
  have "parser_ok (put_cell a c1)" using c1(1) by (simp add: put_cell_def parser_ok_def)
  with put_cell_at [OF c1(3,4), of a] c1(2) show "con_at C S E (print_con a c) \<and> within S E (vram c) (vram (print_con a c))"
    unfolding print_con_def c1_def [symmetric] con_at_def by (blast intro: within_trans)
qed

lemma attr_kept [simp]: "attr (lf_con c) = attr c" "attr (back_a_line c) = attr c"
  by (simp_all add: lf_con_def scrup_con_def scrup_origin_def scrup_region_def scroll_fill_def Let_def back_a_line_def)

lemma con_print_char [simp]: "con (print_char ch s) = print_con (push_bit 8 (ucast (attr (con s))) OR (of_int ch AND 0xff)) (con s)"
  by (simp add: print_char_def Let_def print_con_def put_cell_def back_a_line_def [symmetric])

text \<open>The tabulator moves to the next column that is a multiple of eight, or wraps.\<close>

definition tab_con :: "console \<Rightarrow> console" where
  "tab_con c =
     (let n = 8 - (cur_x c AND 7); c = c\<lparr>cur_x := cur_x c + n, cur_pos := cur_pos c + push_bit 1 n\<rparr>
      in if cur_x c > video_num_columns c then lf_con (back_a_line c) else c)"

lemma con_tab_char [simp]: "con (tab_char s) = tab_con (con s)"
  by (simp add: tab_char_def tab_con_def Let_def back_a_line_def [symmetric])

lemma and_7: "(of_nat x AND 7 :: u32) = of_nat (x mod 8)"
proof -
  have "(of_nat x AND 7 :: u32) = take_bit 3 (of_nat x)" by (simp add: take_bit_eq_mask mask_numeral)
  also have "\<dots> = of_nat (take_bit 3 x)" by (simp add: take_bit_of_nat)
  finally show ?thesis by (simp add: take_bit_eq_mod)
qed

lemma tab_safe: "safe c (tab_con c)"
  unfolding safe_def
proof (intro allI impI)
  fix C S E assume "con_at C S E c"
  then obtain Q T B X Y where p: "parser_ok c" and v: "screen_at C S E Q T B X Y c" by (auto simp: con_at_def)
  note w = screen_words [OF v] and n = screen_nats [OF v]
  let ?n = "8 - X mod 8"
  let ?c = "c\<lparr>cur_x := of_nat (X + ?n), cur_pos := of_nat (Q + 2 * C * Y + 2 * X + 2 * ?n)\<rparr>"
  have m: "X mod 8 < 8" by simp
  have eight: "(8 :: u32) - of_nat (X mod 8) = of_nat ?n" using of_nat_minus [of "X mod 8" 8] m by simp
  have upd: "c\<lparr>cur_x := cur_x c + (8 - (cur_x c AND 7)), cur_pos := cur_pos c + push_bit 1 (8 - (cur_x c AND 7))\<rparr> = ?c"
    unfolding w and_7 eight by (simp add: push_bit_eq_mult)
  have gt: "(of_nat (X + ?n) :: u32) > of_nat C \<longleftrightarrow> C < X + ?n"
    using unat_of_nat32 [of "X + ?n"] unat_of_nat32 [of C] n(3,10) by (simp only: word_less_nat_alt) simp
  show "con_at C S E (tab_con c) \<and> within S E (vram c) (vram (tab_con c))"
  proof (cases "C < X + ?n")
    case False
    then have eq: "tab_con c = ?c" unfolding tab_con_def Let_def upd using gt by (simp add: w)
    have "screen_at C S E Q T B (X + ?n) Y ?c"
      using n False m by (intro screen_move [OF v]) (simp_all add: w)
    then have "con_at C S E ?c" using p by (intro con_atI) (simp add: parser_ok_def)
    then show ?thesis unfolding eq by simp
  next
    case True
    then have eq: "tab_con c = lf_con (back_a_line ?c)" unfolding tab_con_def Let_def upd using gt by (simp add: w)
    have x: "X + ?n - C \<le> C" using n(2,10) by linarith
    have "screen_at C S E Q T B (X + ?n - C) Y (back_a_line ?c)"
      using n True x by (intro screen_move [OF v]) (simp_all add: back_a_line_def w of_nat_diff)
    moreover have "parser_ok (back_a_line ?c)" "vram (back_a_line ?c) = vram c" using p by (simp_all add: parser_ok_def back_a_line_def)
    ultimately have "con_at C S E (back_a_line ?c)" "vram (back_a_line ?c) = vram c" unfolding con_at_def by blast+
    with lf_safe [of "back_a_line ?c"] show ?thesis unfolding eq safe_def by metis
  qed
qed


subsection \<open>Commands\<close>

lemma at_least_1_safe: "safe c (at_least_1 k c)"
  by (simp add: at_least_1_def set_par_safe)

lemma from_0_safe: "safe c (from_0 k c)"
  by (simp add: from_0_def set_par_safe)

lemma goto_safe: "(\<And>c. safe c (f c)) \<Longrightarrow> safe c (let c = f c in gotoxy (a c) (b c) c)"
  unfolding Let_def by (rule safe_trans [OF _ gotoxy_safe])

lemma region_safe:
  assumes t: "t < b" "b \<le> video_num_lines c"
  shows "safe c (c\<lparr>scr_top := t, scr_bottom := b\<rparr>)"
proof (rule safe_move)
  fix C S E Q T B X Y assume p: "parser_ok c" and v: "screen_at C S E Q T B X Y c"
  note w = screen_words [OF v] and n = screen_nats [OF v]
  have "unat t < unat b" "unat b \<le> 25" using t unfolding w by (simp_all add: word_less_nat_alt word_le_nat_alt)
  then have "screen_at C S E Q (unat t) (unat b) X Y (c\<lparr>scr_top := t, scr_bottom := b\<rparr>)"
    using n by (intro screen_move [OF v]) (simp_all add: w)
  moreover have "parser_ok (c\<lparr>scr_top := t, scr_bottom := b\<rparr>)" "vram (c\<lparr>scr_top := t, scr_bottom := b\<rparr>) = vram c"
    using p by (simp_all add: parser_ok_def)
  ultimately show "parser_ok (c\<lparr>scr_top := t, scr_bottom := b\<rparr>) \<and> within S E (vram c) (vram (c\<lparr>scr_top := t, scr_bottom := b\<rparr>))
      \<and> (\<exists>Q' T' B' X' Y'. screen_at C S E Q' T' B' X' Y' (c\<lparr>scr_top := t, scr_bottom := b\<rparr>))"
    by (metis within_refl)
qed

lemma set_region_safe: "safe c (set_region c)"
proof -
  define d where "d = from_0 0 c"
  define e where "e = (if par 1 d = 0 then set_par 1 (video_num_lines d) d else d)"
  have "safe c d" unfolding d_def by (rule from_0_safe)
  moreover have "safe d e" unfolding e_def by (simp add: set_par_safe)
  moreover have "set_region c = (if par 0 e < par 1 e \<and> par 1 e \<le> video_num_lines e
      then e\<lparr>scr_top := par 0 e, scr_bottom := par 1 e\<rparr> else e)"
    by (simp add: set_region_def Let_def d_def e_def)
  then have "safe e (set_region c)" by (simp add: region_safe)
  ultimately show ?thesis by (blast intro: safe_trans)
qed

lemma delete_line_safe: "safe (con s) (con (delete_line s))"
  unfolding delete_line_def con_ports con_scrup by (rule with_region_safe) (rule scrup_con_safe)

lemma csi_M_safe: "safe (con s) (con (csi_M n s))"
proof -
  have "safe (con s) (con ((delete_line ^^ k) s))" for k
    by (induction k) (auto intro: safe_trans delete_line_safe)
  then show ?thesis by (simp add: csi_M_def)
qed

lemma times_safe:
  "safe c (csi_at n c)" "safe c (csi_L n c)" "safe c (csi_P n c)"
  unfolding csi_at_def csi_L_def csi_P_def
  by (rule safe_funpow, rule insert_char_safe insert_line_safe delete_char_safe)+

lemma safe_if: "safe c x \<Longrightarrow> safe c y \<Longrightarrow> safe c (if b then x else y)"
  by simp

lemmas command_safe = goto_safe [OF at_least_1_safe] goto_safe [OF from_0_safe]
  goto_safe [OF safe_trans [OF from_0_safe from_0_safe]] csi_J_safe csi_K_safe times_safe csi_M_safe csi_m_safe
  set_region_safe save_cur_safe restore_cur_safe

lemma con_command_safe: "safe (con s) (con (con_command ch s))"
  unfolding con_command_def
  by (simp only: if_distrib [of con] con_ports) (rule safe_if command_safe safe_refl)+

lemma con_params_safe: "safe (con s) (con (con_params ch s))"
proof -
  have "safe c (c\<lparr>npar := npar c + 1\<rparr>)" if "npar c < 15" for c
    by (rule safe_other) (use that in \<open>simp_all add: parser_ok_def\<close>)
  moreover have "safe (con s) (con (con_command ch (on_con (con_state_update (\<lambda>_. 0)) s)))"
    by (rule safe_trans [OF _ con_command_safe]) (simp add: con_state_safe)
  ultimately show ?thesis
    by (simp add: con_params_def set_par_safe)
qed

lemma sysbeep_safe: "safe (con s) (con (sysbeep s))"
  by (simp add: sysbeep_def)

lemma con_text_safe: "safe (con s) (con (con_text i ch s))"
proof -
  have "safe (con s) (con (on_con (\<lambda>c. c\<lparr>cur_x := cur_x c - 1, cur_pos := cur_pos c - 2\<rparr>) s))" if "cur_x (con s) \<noteq> 0"
    unfolding con_ports by (rule back_safe [OF that, where wr = False]) (cases "con s", simp)
  then show ?thesis
    by (simp add: con_text_def print_safe lf_safe cr_safe del_char_safe tab_safe sysbeep_safe con_state_safe)
qed


subsection \<open>The line discipline leaves the console alone, but for the echo\<close>

lemma con_queues [simp]: "con (set_queue k i q s) = con s" "con (putch c k i s) = con s" "con (set_stopped i b s) = con s"
  by (simp_all add: set_queue_def putch_def set_stopped_def)

lemma con_echo_put [simp]: "con (echo_put i c s) = con s"
  by (simp add: echo_put_def)

lemma con_tty_intr [simp]: "con (tty_intr i sigs s) = con s"
proof -
  have "con (fold (tty_intr_step i sigs) ns s) = con s" for ns
    by (induction ns arbitrary: s) (simp_all add: tty_intr_step_def update_task_def split: option.split)
  then show ?thesis by (simp add: tty_intr_def)
qed

lemma con_getch: "getch k i s = (c, s') \<Longrightarrow> con s' = con s"
  by (auto simp: getch_def Let_def split: prod.splits)

lemma con_wake_up [simp]: "con (wake_up (tty_wait k i) s) = con s"
  by (simp add: wake_up_def tty_wait_def set_state_def update_task_def split: option.split)

text \<open>A writer that keeps the console safe.\<close>

definition writes_safely :: "(nat \<Rightarrow> 'a sys_scheme \<Rightarrow> 'a sys_scheme option) \<Rightarrow> bool" where
  "writes_safely wr \<longleftrightarrow> (\<forall>i s s'. wr i s = Some s' \<longrightarrow> safe (con s) (con s'))"

lemma writes_safelyD: "writes_safely wr \<Longrightarrow> wr i s = Some s' \<Longrightarrow> safe (con s) (con s')"
  by (simp add: writes_safely_def)

lemma rub_out_safe:
  assumes "writes_safely wr" and "rub_out wr i c s = Some s'"
  shows "safe (con s) (con s')"
  using assms(2) by (auto simp: rub_out_def Let_def safe_refl split: if_splits bind_splits dest!: writes_safelyD [OF assms(1)])

lemma kill_line_safe:
  assumes wr: "writes_safely wr" and "kill_line wr i s = Some s'"
  shows "safe (con s) (con s')"
  by (rule kill_line.raw_induct [where P = "\<lambda>wr' i s s'. wr' = wr \<longrightarrow> safe (con s) (con s')", THEN mp, OF _ assms(2) refl])
    (auto simp: safe_refl split: if_splits bind_splits dest!: rub_out_safe [OF wr] intro: safe_trans)

lemma erase_char_safe:
  assumes "writes_safely wr" and "erase_char wr i s = Some s'"
  shows "safe (con s) (con s')"
  using assms by (auto simp: erase_char_def safe_refl split: if_splits dest!: rub_out_safe)

lemma cook_char_safe:
  assumes wr: "writes_safely wr" and "cook_char wr i c s = Some s'"
  shows "safe (con s) (con s')"
proof -
  have q: "con (if b then let q = queue Secondary i s in set_queue Secondary i (q\<lparr>q_data := q_data q + 1\<rparr>) s else s) = con s" for b
    by (simp add: Let_def)
  show ?thesis
    using assms(2) unfolding cook_char_def Let_def
    by (auto simp: safe_refl split: if_splits bind_splits dest!: kill_line_safe [OF wr] erase_char_safe [OF wr] writes_safelyD [OF wr])
qed

lemma cook_loop_safe:
  assumes wr: "writes_safely wr" and "cook_loop wr i s = Some s'"
  shows "safe (con s) (con s')"
  by (rule cook_loop.raw_induct [where P = "\<lambda>wr' i s s'. wr' = wr \<longrightarrow> safe (con s) (con s')", THEN mp, OF _ assms(2) refl])
    (auto simp: safe_refl Let_def split: if_splits bind_splits option.splits prod.splits
      dest!: con_getch cook_char_safe [OF wr]; metis safe_trans)

lemma copy_to_cooked_safe: "writes_safely wr \<Longrightarrow> copy_to_cooked wr i s = Some s' \<Longrightarrow> safe (con s) (con s')"
  by (auto simp: copy_to_cooked_def split: bind_splits dest: cook_loop_safe)

lemma respond_safe: "writes_safely wr \<Longrightarrow> respond wr i s = Some s' \<Longrightarrow> safe (con s) (con s')"
  unfolding respond_def by (drule (1) copy_to_cooked_safe) (simp add: RESPONSE_def)

subsection \<open>\<open>con_write\<close>\<close>

lemma con_state_then: "k \<le> 3 \<Longrightarrow> safe (con_state_update (\<lambda>_. k) c) c' \<Longrightarrow> safe c c'"
  by (rule safe_trans [OF con_state_safe])

lemma con_escape_safe:
  assumes wr: "writes_safely wr" and "con_escape wr i ch s = Some s'"
  shows "safe (con s) (con s')"
proof -
  have bracket: "safe (c\<lparr>con_state := 0\<rparr>) (c\<lparr>con_state := 2\<rparr>)" for c
    using con_state_safe [of 2 "c\<lparr>con_state := 0\<rparr>"] by simp
  have "safe (con (on_con (con_state_update (\<lambda>_. 0)) s)) (con s')"
    using assms(2) unfolding con_escape_def Let_def
    by (auto simp: safe_refl con_state_safe gotoxy_safe ri_safe lf_safe save_cur_safe restore_cur_safe
        simp del: con_ports(3) split: if_splits dest!: respond_safe [OF wr]) (simp_all add: con_state_safe gotoxy_safe ri_safe save_cur_safe restore_cur_safe bracket)
  then show ?thesis using con_state_then [of 0 "con s" "con s'"] by simp
qed

lemma con_char_safe:
  assumes wr: "writes_safely wr" and "con_char wr i ch s = Some s'"
  shows "safe (con s) (con s')"
proof -
  have start: "safe c (c\<lparr>pars := replicate NPAR 0, npar := 0, con_state := 3, ques := q\<rparr>)" for c q
    by (rule safe_other) (simp_all add: parser_ok_def)
  have "safe (con s) (con (con_params ch (on_con (\<lambda>c. c\<lparr>pars := replicate NPAR 0, npar := 0, con_state := 3, ques := q\<rparr>) s)))" for q
    by (rule safe_trans [OF _ con_params_safe]) (simp add: start)
  moreover have "safe (con s) (con (con_command ch (on_con (con_state_update (\<lambda>_. 0)) s)))"
    by (rule safe_trans [OF _ con_command_safe]) (simp add: con_state_safe)
  ultimately show ?thesis
    using assms(2) start unfolding con_char_def Let_def
    by (auto simp: safe_refl con_text_safe con_params_safe split: if_splits dest!: con_escape_safe [OF wr])
qed

lemma con_chars_safe:
  assumes wr: "writes_safely wr"
  shows "con_chars wr i nr s = Some s' \<Longrightarrow> safe (con s) (con s')"
proof (induction nr arbitrary: s)
  case (Suc nr)
  obtain ch q where g: "GETCH (queue Write_q i s) = (ch, q)" by fastforce
  with Suc.prems obtain s1 where "con_char wr i (sint ch) (set_queue Write_q i q s) = Some s1" "con_chars wr i nr s1 = Some s'"
    by (auto split: bind_splits)
  with con_char_safe [OF wr this(1)] Suc.IH show ?case by (auto intro: safe_trans)
qed (simp add: safe_refl)

lemma con_write_kept:
  fixes s s' :: "'a sys_scheme"
  shows "con_write d i s = Some s' \<Longrightarrow> safe (con s) (con s')"
proof (induction d arbitrary: i s s')
  case (Suc d)
  have "writes_safely (con_write d :: nat \<Rightarrow> 'a sys_scheme \<Rightarrow> _)" unfolding writes_safely_def using Suc.IH by blast
  with Suc.prems show ?case by (auto split: bind_splits dest: con_chars_safe)
qed simp

end
