(* ===== verification/Console_Screen.thy ===== *)
theory Console_Screen
  imports Console_Run Fork_Correct
begin

text \<open>
  The properties of the console driver: it stays inside the video memory and keeps its cursor on
  the screen, whatever it is sent; and the two ways to scroll up, by copying and by moving the
  origin of the screen, do the same to the text that is seen.
\<close>

subsection \<open>The text on the screen\<close>

text \<open>The cells of the screen, line after line.\<close>

definition cells :: "(u32 \<Rightarrow> u16) \<Rightarrow> nat \<Rightarrow> nat \<Rightarrow> u16 list" where
  "cells m a n = map (\<lambda>k. m (of_nat (a + 2 * k))) [0..<n]"

definition screen :: "console \<Rightarrow> u16 list" where
  "screen c = cells (vram c) (unat (origin c)) (25 * unat (video_num_columns c))"

text \<open>What a scroll up of the lines from \<open>T\<close> to \<open>B\<close> is: the lines below the first move up, and a line of \<open>e\<close> comes in.\<close>

definition scrolled :: "nat \<Rightarrow> nat \<Rightarrow> nat \<Rightarrow> u16 \<Rightarrow> u16 list \<Rightarrow> u16 list" where
  "scrolled C T B e xs =
     take (T * C) xs @ take ((B - T - 1) * C) (drop ((T + 1) * C) xs) @ replicate C e @ drop (B * C) xs"

lemma of_nat_eq32: "a < 2 ^ 32 \<Longrightarrow> b < 2 ^ 32 \<Longrightarrow> (of_nat a :: u32) = of_nat b \<longleftrightarrow> a = b"
  by (metis unat_of_nat32)

lemma stosw_at:
  "d + 2 * n \<le> 2 ^ 32 \<Longrightarrow> a < 2 ^ 32 \<Longrightarrow>
    stosw n (of_nat d) v m (of_nat a) = (if d \<le> a \<and> a < d + 2 * n \<and> even (a - d) then v else m (of_nat a))"
proof (induction n arbitrary: d m)
  case (Suc n)
  have eq: "stosw (Suc n) (of_nat d) v m = stosw n (of_nat (d + 2)) v (m(of_nat d := v))" by (simp add: add.commute)
  have "a = d \<or> a = d + 1 \<or> a < d \<or> d + 2 \<le> a" by linarith
  moreover have "d < 2 ^ 32" using Suc.prems by simp
  ultimately show ?case
    unfolding eq using Suc.prems of_nat_eq32 [of a d] by (subst Suc.IH) (auto simp del: of_nat_add)
qed auto

lemma movsl_at:
  "4 \<le> t \<Longrightarrow> d + t + 4 * n \<le> 2 ^ 32 \<Longrightarrow> a < 2 ^ 32 \<Longrightarrow>
    movsl n (of_nat d) (of_nat (d + t)) m (of_nat a) =
      (if d \<le> a \<and> a < d + 4 * n \<and> even (a - d) then m (of_nat (a + t)) else m (of_nat a))"
proof (induction n arbitrary: d m)
  case (Suc n)
  define m1 where "m1 = m(of_nat d := m (of_nat (d + t)), of_nat (d + 2) := m (of_nat (d + 2 + t)))"
  have eq: "movsl (Suc n) (of_nat d) (of_nat (d + t)) m = movsl n (of_nat (d + 4)) (of_nat (d + 4 + t)) m1"
    by (simp add: m1_def add.commute add.left_commute)
  have IH: "movsl n (of_nat (d + 4)) (of_nat (d + 4 + t)) m1 (of_nat a) =
      (if d + 4 \<le> a \<and> a < d + 4 + 4 * n \<and> even (a - (d + 4)) then m1 (of_nat (a + t)) else m1 (of_nat a))"
    using Suc.prems by (intro Suc.IH) simp_all
  have at: "m1 (of_nat x) = (if x = d then m (of_nat (d + t)) else if x = d + 2 then m (of_nat (d + 2 + t)) else m (of_nat x))"
    if "x < 2 ^ 32" for x
    using that Suc.prems of_nat_eq32 [of x d] of_nat_eq32 [of x "d + 2"] by (simp add: m1_def del: of_nat_add)
  have "a < d \<or> a = d \<or> a = d + 1 \<or> a = d + 2 \<or> a = d + 3 \<or> d + 4 \<le> a" by linarith
  then show ?case
  proof (elim disjE)
    assume a: "d + 4 \<le> a"
    then have e: "even (a - (d + 4)) = even (a - d)" "a < d + 4 + 4 * n \<longleftrightarrow> a < d + 4 * Suc n" "d \<le> a" by auto
    have "m1 (of_nat (a + t)) = m (of_nat (a + t))" if "a < d + 4 + 4 * n"
      using that a Suc.prems by (subst at) auto
    moreover have "m1 (of_nat a) = m (of_nat a)" using a Suc.prems by (subst at) auto
    ultimately show ?thesis using a unfolding eq IH e by auto
  qed (use Suc.prems in \<open>unfold eq IH, auto simp: at simp del: of_nat_add of_nat_Suc\<close>)
qed auto

lemma length_cells [simp]: "length (cells m a n) = n"
  by (simp add: cells_def)

lemma nth_cells [simp]: "k < n \<Longrightarrow> cells m a n ! k = m (of_nat (a + 2 * k))"
  by (simp add: cells_def)

text \<open>A scroll by copying, from the address of the region's second line to that of its first.\<close>

lemma copy_scrolls:
  assumes C: "even C" "8 \<le> C" and T: "T < B" "B \<le> 25" and Q: "Q + 50 * C < 2 ^ 31"
    and r: "r = Q + 2 * C * T" and n: "4 * n = 2 * C * (B - T - 1)"
  shows "cells (stosw C (of_nat r + 4 * of_nat n) e (movsl n (of_nat r) (of_nat (r + 2 * C)) m)) Q (25 * C)
    = scrolled C T B e (cells m Q (25 * C))" (is "cells ?m Q _ = _")
proof (rule nth_equalityI)
  have le: "C * B \<le> C * 25" "C * (T + 1) \<le> C * B" using T by (intro mult_le_mono2; simp)+
  obtain k where k: "B = T + 1 + k" using T(1) less_iff_Suc_add by (metis add.assoc add.commute plus_1_eq_Suc)
  have n': "4 * n = 2 * (C * k)" using n by (simp add: k)
  have CB: "C * B = C * T + C + C * k" by (simp add: k algebra_simps)
  have CT: "C * (T + 1) = C * T + C" by simp
  have fit: "C * T + C + C * k \<le> 25 * C" using le by (simp only: CB [symmetric] mult.commute [of 25])
  have m: "min (C * 25) (C * T) = C * T" "C * T + C \<le> C * 25" using fit by linarith+
  have s: "length (scrolled C T B e (cells m Q (25 * C))) = 25 * C"
    using fit by (simp add: scrolled_def mult.commute [of _ C] CB k algebra_simps)
  then show "length (cells ?m Q (25 * C)) = length (scrolled C T B e (cells m Q (25 * C)))" by simp
  fix j assume "j < length (cells ?m Q (25 * C))"
  then have j: "j < 25 * C" by simp
  have d: "of_nat r + 4 * of_nat n = (of_nat (r + 4 * n) :: u32)" by simp
  have "cells ?m Q (25 * C) ! j = ?m (of_nat (Q + 2 * j))" using j by simp
  also have "\<dots> = (if C * T + C * k \<le> j \<and> j < C * T + C * k + C then e
      else if C * T \<le> j \<and> j < C * T + C * k then m (of_nat (Q + 2 * (j + C))) else m (of_nat (Q + 2 * j)))"
    unfolding d using j fit Q C n' r
    by (subst stosw_at, simp, simp, subst movsl_at) (auto simp: algebra_simps)
  also have "\<dots> = scrolled C T B e (cells m Q (25 * C)) ! j"
    using j fit m by (auto simp: scrolled_def mult.commute [of _ C] CB k nth_append algebra_simps)
  finally show "cells ?m Q (25 * C) ! j = scrolled C T B e (cells m Q (25 * C)) ! j" .
qed


subsection \<open>The two ways to scroll\<close>

lemma screen_of:
  assumes "screen_at C S E Q T B X Y c"
  shows "screen c = cells (vram c) Q (25 * C)" "unat (video_num_columns c) = C" "unat (scr_top c) = T" "unat (scr_bottom c) = B"
  using screen_nats [OF assms] by (simp_all add: screen_def screen_words [OF assms] unat_of_nat32)

lemma scrup_region_scrolls:
  assumes v: "screen_at C S E Q T B X Y c"
  shows "screen (scrup_region c) = scrolled C T B (video_erase_char c) (screen c)"
proof -
  note w = screen_words [OF v] and n = screen_nats [OF v]
  let ?n = "region_longs c" and ?r = "Q + 2 * C * T"
  have "origin c + video_size_row c * scr_top c = of_nat ?r"
    "origin c + video_size_row c * (scr_top c + 1) = of_nat (?r + 2 * C)"
    unfolding w by (simp_all add: algebra_simps)
  then have "screen (scrup_region c) = cells (stosw C (of_nat ?r + 4 * of_nat ?n) (video_erase_char c)
      (movsl ?n (of_nat ?r) (of_nat (?r + 2 * C)) (vram c))) Q (25 * C)"
    using screen_of(2) [OF v] n(6,7) by (simp add: scrup_region_def scroll_fill_def screen_def w(6) unat_of_nat32 add.assoc)
  also have "\<dots> = scrolled C T B (video_erase_char c) (cells (vram c) Q (25 * C))"
    using n by (intro copy_scrolls region_longs_nat(2) [OF v]) simp_all
  finally show ?thesis using screen_of(1) [OF v] by simp
qed

lemma scrup_origin_scrolls:
  assumes v: "screen_at C S E Q 0 25 X Y c"
  shows "screen (scrup_origin c) = scrolled C 0 25 (video_erase_char c) (screen c)"
proof -
  note w = screen_words [OF v] and n = screen_nats [OF v]
  let ?e = "video_erase_char c" and ?N = "Q + 50 * C + 2 * C"
  have C: "unat (video_num_columns c) = C" using screen_of(2) [OF v] .
  have cmp: "scr_end c + video_size_row c > video_mem_end c \<longleftrightarrow> E < ?N"
    using unat_of_nat32 [of ?N] unat_of_nat32 [of E] n(3,6,7) unfolding w word_less_nat_alt by simp
  have spec: "scrolled C 0 25 ?e (screen c) = map (\<lambda>k. m' (of_nat (q + 2 * k))) [0..<25 * C]"
    if "\<And>k. k < 24 * C \<Longrightarrow> m' (of_nat (q + 2 * k)) = vram c (of_nat (Q + 2 * C + 2 * k))"
      "\<And>k. 24 * C \<le> k \<Longrightarrow> k < 25 * C \<Longrightarrow> m' (of_nat (q + 2 * k)) = ?e" for m' q
    using that by (intro nth_equalityI)
      (auto simp: scrolled_def screen_of(1) [OF v] nth_append algebra_simps simp del: of_nat_add of_nat_mult)
  show ?thesis
  proof (cases "E < ?N")
    case False
    have "scr_end c + video_size_row c - video_size_row c = of_nat (Q + 50 * C)" unfolding w by simp
    then have m: "vram (scrup_origin c) = stosw C (of_nat (Q + 50 * C)) ?e (vram c)" "origin (scrup_origin c) = of_nat (Q + 2 * C)"
      "unat (video_num_columns (scrup_origin c)) = C"
      using False cmp C by (simp_all add: scrup_origin_def Let_def) (simp add: w)
    have "unat (of_nat (Q + 2 * C) :: u32) = Q + 2 * C" using n(3,6,7) by (intro unat_of_nat32) simp
    then show ?thesis
      unfolding screen_def [of "scrup_origin c"] m cells_def
      using n by (subst spec [of "stosw C (of_nat (Q + 50 * C)) ?e (vram c)" "Q + 2 * C"]) (auto simp: stosw_at simp del: of_nat_add of_nat_mult)
  next
    case True
    have "(video_num_lines c - 1) * video_num_columns c = of_nat (24 * C)" unfolding w by simp
    then have fn: "unat (drop_bit 1 ((video_num_lines c - 1) * video_num_columns c)) = 12 * C" using unat_div2 [of "24 * C"] n(3) by simp
    have o': "origin c + video_size_row c = of_nat (Q + 2 * C)" unfolding w by simp
    have t: "S + (Q - S + 2 * C) = Q + 2 * C" "4 * (12 * C) = 48 * C" "\<And>k. S + 2 * k + (Q - S + 2 * C) = Q + 2 * C + 2 * k"
      using n(5) by simp_all
    have mv: "movsl (12 * C) (of_nat S) (of_nat (Q + 2 * C)) m (of_nat (S + 2 * k)) = m (of_nat (Q + 2 * C + 2 * k))"
      if "k < 24 * C" for m k
      using that movsl_at [of "Q - S + 2 * C" S "12 * C" "S + 2 * k" m] n unfolding t by simp
    have d: "of_nat S + 4 * of_nat (12 * C) = (of_nat (S + 48 * C) :: u32)" by simp
    have m: "vram (scrup_origin c) = stosw C (of_nat (S + 48 * C)) ?e (movsl (12 * C) (of_nat S) (of_nat (Q + 2 * C)) (vram c))"
      "origin (scrup_origin c) = of_nat S" "unat (video_num_columns (scrup_origin c)) = C"
      using True cmp C
      by (simp_all add: scrup_origin_def Let_def scroll_fill_def fn [unfolded One_nat_def] o' w(4) 
          del: of_nat_add of_nat_mult of_nat_numeral unat_drop_bit_eq) (simp only: d)
    have "unat (of_nat S :: u32) = S" using n(5-7) by (intro unat_of_nat32) simp
    then show ?thesis
      unfolding screen_def [of "scrup_origin c"] m cells_def
      using n
      by (subst spec [of "stosw C (of_nat (S + 48 * C)) ?e (movsl (12 * C) (of_nat S) (of_nat (Q + 2 * C)) (vram c))" S])
        (auto simp: stosw_at mv simp del: of_nat_add of_nat_mult)
  qed
qed


lemma scrup_con_scrolls:
  assumes v: "screen_at C S E Q T B X Y c"
  shows "screen (scrup_con c) = scrolled C T B (video_erase_char c) (screen c)"
proof (cases "ega c \<and> whole_screen c")
  case True
  have "T = 0" "B = 25"
    using True screen_words(3,8,9) [OF v] screen_nats(8,9) [OF v] by (simp_all add: whole_screen_def word_unat_eq_iff unat_of_nat32)
  with True v show ?thesis by (simp add: scrup_con_def scrup_origin_scrolls)
next
  case False
  then show ?thesis unfolding scrup_con_def by (simp only: if_False scrup_region_scrolls [OF v])
qed

subsection \<open>Without a query, \<open>con_write\<close> does not call itself\<close>

lemma lf_tty: "tty_table (lf s) = tty_table s"
  by (simp add: lf_def scrup_def on_con_def set_origin_def video_reg_def outb_def)

lemma con_text_tty: "tty_table (con_text i ch s) = tty_table s"
  by (simp add: con_text_def print_char_def tab_char_def sysbeep_def Let_def lf_tty) (simp add: on_con_def outb_def lf_tty Let_def)

lemma csi_M_tty: "tty_table (csi_M n s) = tty_table s"
proof -
  have "tty_table ((delete_line ^^ k) s) = tty_table s" for k
    by (induction k) (simp_all add: delete_line_def scrup_def on_con_def set_origin_def video_reg_def outb_def)
  then show ?thesis by (simp add: csi_M_def)
qed

lemma con_command_tty: "tty_table (con_command ch s) = tty_table s"
  by (simp add: con_command_def csi_M_tty on_con_def)

lemma con_params_tty: "tty_table (con_params ch s) = tty_table s"
  by (simp add: con_params_def con_command_tty on_con_def)

lemma con_char_returns:
  assumes "ch \<noteq> 90"
  shows "\<exists>s'. con_char wr i ch s = Some s' \<and> tty_table s' = tty_table s"
  using assms
  by (simp add: con_char_def con_escape_def Let_def con_text_tty con_params_tty con_command_tty lf_tty) (simp add: on_con_def con_params_tty con_command_tty lf_tty)


lemma queue_tty: "tty_table s' = tty_table s \<Longrightarrow> queue k i s' = queue k i s"
  by (simp add: queue_def)

lemma con_chars_returns:
  assumes "q_ok (queue Write_q i s)" and "90 \<notin> set (q_contents (queue Write_q i s))"
    and "nr = length (q_contents (queue Write_q i s))"
  shows "\<exists>s'. con_chars wr i nr s = Some s' \<and> EMPTY (queue Write_q i s')"
  using assms
proof (induction nr arbitrary: s)
  case 0
  then show ?case by (simp add: EMPTY_iff)
next
  case (Suc nr)
  let ?q = "queue Write_q i s"
  obtain ch q where g: "GETCH ?q = (ch, q)" by fastforce
  have ne: "q_contents ?q \<noteq> []" using Suc.prems(3) by auto
  have q: "q_contents ?q = ch # q_contents q" "q_ok q"
    using tty_fifo.get_contents [OF Suc.prems(1) ne] tty_fifo.get_ok [OF Suc.prems(1)] g by simp_all
  then have "ch \<noteq> 90" using Suc.prems(2) by auto
  moreover have "(word_of_int (sint ch) :: u8) = ch" by simp
  ultimately have "sint ch \<noteq> 90" by (metis word_of_int_numeral)
  then obtain s1 where s1: "con_char wr i (sint ch) (set_queue Write_q i q s) = Some s1"
    "tty_table s1 = tty_table (set_queue Write_q i q s)" using con_char_returns by metis
  have q1: "queue Write_q i s1 = q" unfolding queue_tty [OF s1(2)] by (simp add: queue_set_queue)
  from Suc.IH [of s1] Suc.prems q obtain s' where "con_chars wr i nr s1 = Some s'" "EMPTY (queue Write_q i s')"
    unfolding q1 by auto
  then show ?case using s1(1) g by simp
qed


subsection \<open>\<open>con_init\<close>\<close>

text \<open>The video memory of the adapter that is found.\<close>

definition mem_of :: "u8 \<Rightarrow> u8 \<Rightarrow> nat \<times> nat" where
  "mem_of mode ega_bx =
     (if mode = 7 then (0xb0000, if ega_bx \<noteq> 0x10 then 0xb8000 else 0xb2000)
      else (0xb8000, if ega_bx \<noteq> 0x10 then 0xbc000 else 0xba000))"

lemma con_setup_at:
  assumes "parser_ok c" and cols: "even (unat cols)" "8 \<le> unat cols" "unat cols \<le> 160"
    and xy: "unat x \<le> unat cols" "unat y < 25" and mem: "mem_of mode bx = (S, E)"
  shows "con_at (unat cols) S E (gotoxy (ucast x) (ucast y) (con_setup mode cols page bx c))"
proof -
  let ?C = "unat cols"
  have w: "(ucast cols :: u32) = of_nat ?C" "(ucast x :: u32) = of_nat (unat x)" "(ucast y :: u32) = of_nat (unat y)"
    by simp_all
  have "parser_ok (gotoxy (ucast x) (ucast y) (con_setup mode cols page bx c))"
    using assms(1) by (simp add: parser_ok_def gotoxy_def con_setup_def Let_def)
  moreover have se: "S = (if mode = 7 then 0xb0000 else 0xb8000)"
    "E = (if mode = 7 then if bx \<noteq> 0x10 then 0xb8000 else 0xb2000 else if bx \<noteq> 0x10 then 0xbc000 else 0xba000)"
    using mem by (auto simp: mem_of_def split: if_splits)
  have f: "video_num_columns (con_setup mode cols page bx c) = of_nat ?C" "video_size_row (con_setup mode cols page bx c) = of_nat (2 * ?C)"
    "video_num_lines (con_setup mode cols page bx c) = of_nat 25" "video_mem_start (con_setup mode cols page bx c) = of_nat S"
    "video_mem_end (con_setup mode cols page bx c) = of_nat E" "origin (con_setup mode cols page bx c) = of_nat S"
    "scr_end (con_setup mode cols page bx c) = of_nat (S + 50 * ?C)" "scr_top (con_setup mode cols page bx c) = of_nat 0"
    "scr_bottom (con_setup mode cols page bx c) = of_nat 25"
    by (simp_all add: con_setup_def Let_def se)
  have "\<not> (ucast x > video_num_columns (con_setup mode cols page bx c) \<or> ucast y \<ge> video_num_lines (con_setup mode cols page bx c))"
    using xy unat_of_nat32 [of "unat x"] unat_of_nat32 [of ?C] unat_of_nat32 [of "unat y"] cols(3)
    unfolding f w by (simp add: word_less_nat_alt word_le_nat_alt del: of_nat_unat)
  then have "screen_at ?C S E S 0 25 (unat x) (unat y) (gotoxy (ucast x) (ucast y) (con_setup mode cols page bx c))"
    using cols xy se by (simp add: gotoxy_def screen_at_def f push_bit_eq_mult algebra_simps)
  ultimately show ?thesis by (rule con_atI)
qed

subsection \<open>The properties\<close>

text \<open>
  C11. The console driver writes only inside the video memory of its adapter, and keeps its invariant:
  the cursor on the screen, at the address its column and line give; the screen, 25 lines, inside the
  video memory however often it has scrolled; the scrolling region on the screen; the index of the
  parameters within their array. It does so for every text, escape sequences, queries and the echo of
  their answers included. It returns, with the write queue empty, for every text without a query.
\<close>

theorem con_write_safe:
  assumes at: "con_at C S E (con s)"
  shows "(\<forall>d s'. con_write d i s = Some s' \<longrightarrow> con_at C S E (con s') \<and> within S E (vram (con s)) (vram (con s')))
    \<and> (q_ok (queue Write_q i s) \<and> 90 \<notin> set (q_contents (queue Write_q i s))
         \<longrightarrow> (\<exists>s'. con_write 1 i s = Some s' \<and> EMPTY (queue Write_q i s')))"
proof (intro conjI allI impI)
  fix d s' assume "con_write d i s = Some s'"
  from con_write_kept [OF this] at show "con_at C S E (con s')" "within S E (vram (con s)) (vram (con s'))"
    unfolding safe_def by blast+
next
  assume q: "q_ok (queue Write_q i s) \<and> 90 \<notin> set (q_contents (queue Write_q i s))"
  then have "unat (CHARS (queue Write_q i s)) = length (q_contents (queue Write_q i s))"
    by (simp add: unat_CHARS q_contents_def q_ok_def)
  with q con_chars_returns [where wr = "con_write 0"] obtain s1
    where "con_chars (con_write 0) i (unat (CHARS (queue Write_q i s))) s = Some s1" "EMPTY (queue Write_q i s1)" by metis
  moreover have "queue Write_q i (set_cursor s1) = queue Write_q i s1"
    by (rule queue_tty) (simp add: set_cursor_def video_reg_def outb_def)
  ultimately show "\<exists>s'. con_write 1 i s = Some s' \<and> EMPTY (queue Write_q i s')" by simp
qed


text \<open>An EGA colour adapter with 80 columns, and a write queue with a text that clears the screen.\<close>

definition ega_con :: console where
  "ega_con = gotoxy 0 24 (con_setup 3 80 0 0
     \<lparr>video_type = 0, video_num_columns = 0, video_size_row = 0, video_num_lines = 0, video_page = 0, video_mem_start = 0,
      video_mem_end = 0, video_port_reg = 0, video_port_val = 0, video_erase_char = 0, origin = 0, scr_end = 0, cur_pos = 0,
      cur_x = 0, cur_y = 0, scr_top = 0, scr_bottom = 0, con_state = 0, npar = 0, pars = replicate NPAR 0, ques = False,
      attr = 7, saved_x = 0, saved_y = 0, vram = (\<lambda>_. 0x720)\<rparr>)"

lemma ega_con_at: "con_at 80 0xb8000 0xbc000 ega_con"
  using con_setup_at [of _ 80 "0 :: u8" "24 :: u8" 3 0] unfolding ega_con_def by (simp add: parser_ok_def mem_of_def)

definition ega_sys :: sys where
  "ega_sys = set_queue Write_q 0 (fold PUTCH [27, 91, 50, 74, 104, 105] (empty_queue 0))
     (kern.extend boot_kern \<lparr>con = ega_con\<rparr>)"


lemma ega_sys_con [simp]: "con ega_sys = ega_con"
  by (simp add: ega_sys_def kern.defs)

lemma ega_sys_queue: "queue Write_q 0 ega_sys = fold PUTCH [27, 91, 50, 74, 104, 105] (empty_queue 0)"
  by (simp add: ega_sys_def queue_set_queue)

theorem con_write_safe_witness:
  "con_at 80 0xb8000 0xbc000 (con ega_sys) \<and>
   (\<exists>s'. con_write 1 0 ega_sys = Some s' \<and> EMPTY (queue Write_q 0 s') \<and> within 0xb8000 0xbc000 (vram ega_con) (vram (con s')))"
proof -
  have e: "q_contents (empty_queue 0) = []" using empty_queue_ok EMPTY_iff by blast
  have "q_contents (fold PUTCH [27, 91, 50, 74, 104, 105] (empty_queue 0)) = [27, 91, 50, 74, 104, 105]"
    using tty_fifo.fold_put [OF empty_queue_ok(1), of "[27, 91, 50, 74, 104, 105]" 0] tty_fifo.room [OF empty_queue_ok(1), of 0]
    by (simp add: e)
  moreover have "q_ok (fold PUTCH [27, 91, 50, 74, 104, 105] (empty_queue 0))"
    by (rule tty_fifo.fold_put_ok) (rule empty_queue_ok)
  ultimately show ?thesis
    using con_write_safe [of 80 "0xb8000" "0xbc000" ega_sys 0] ega_con_at
    by (auto simp: ega_sys_queue simp del: con_write.simps fold_simps One_nat_def)
qed

text \<open>
  C20. A scroll up does the same to the text on the screen whether it copies the lines of the region
  (\<open>scrup\<close> on MDA and CGA, or with a scrolling region) or moves the origin of the screen in the video
  memory of an EGA, also when this comes to its end and the screen is copied back to the start: the
  lines of the region but the first move up, a blank line comes in at its end, the lines outside the
  region and the cursor stay.
\<close>

theorem scrup_refines:
  assumes v: "screen_at C S E Q T B X Y (con s)"
  shows "screen (con (scrup s)) = scrolled C T B (video_erase_char (con s)) (screen (con s))
    \<and> cur_x (con (scrup s)) = cur_x (con s) \<and> cur_y (con (scrup s)) = cur_y (con s)"
  using scrup_con_scrolls [OF v] by (simp add: scrup_con_def scrup_origin_def scrup_region_def scroll_fill_def Let_def)

theorem scrup_refines_witness:
  "screen (con (scrup ega_sys)) = scrolled 80 0 25 0x720 (screen (con ega_sys)) \<and> origin (con (scrup ega_sys)) = 0xb80a0"
proof -
  have c: "video_erase_char ega_con = 0x720" "video_type ega_con = VIDEO_TYPE_EGAC" "origin ega_con = 0xb8000"
    "scr_end ega_con = 0xb8fa0" "video_size_row ega_con = 160" "video_mem_end ega_con = 0xbc000"
    "scr_top ega_con = 0" "scr_bottom ega_con = 25" "video_num_lines ega_con = 25"
    by (simp_all add: ega_con_def gotoxy_def con_setup_def Let_def)
  have "screen_at 80 0xb8000 0xbc000 0xb8000 0 25 0 24 (con ega_sys)"
    by (simp add: ega_con_def gotoxy_def con_setup_def Let_def screen_at_def)
  from scrup_refines [OF this] show ?thesis
    by (simp add: c scrup_con_def scrup_origin_def ega_def whole_screen_def Let_def)
qed

end
