(* ===== verification/Hd_Correct.thy ===== *)
theory Hd_Correct
  imports Hd Console_Screen
begin

text \<open>
  Reading a block from the hard disk: the request becomes one command for the right place on the disk,
  and the two interrupts that follow deliver its two sectors into the buffer and end the request.
\<close>

subsection \<open>The ports\<close>

definition word_bytes :: "u16 \<Rightarrow> u8 list" where
  "word_bytes w = [ucast w, ucast (drop_bit 8 w)]"

lemma port_read_eq:
  assumes "\<forall>n os. port_in s n os port = w n"
  shows "port_read port n s
     = (concat (map (\<lambda>j. word_bytes (w (port_reads s + j))) [0..<n]), s\<lparr>port_reads := port_reads s + n\<rparr>)"
  using assms
proof (induction n arbitrary: s)
  case (Suc n)
  have "[0..<Suc n] = 0 # map Suc [0..<n]" by (simp add: upt_conv_Cons map_Suc_upt del: upt_Suc)
  then show ?case
    using Suc.IH [of "s\<lparr>port_reads := port_reads s + 1\<rparr>"] Suc.prems
    by (simp add: next_inw_def word_bytes_def comp_def del: upt_Suc)
qed simp

definition drive_ok :: "'a hdd_scheme \<Rightarrow> bool" where
  "drive_ok s \<longleftrightarrow> (\<forall>n os. port_in s n os HD_STATUS = 0x50)"

lemma status_ok: "drive_ok s \<Longrightarrow> next_inb HD_STATUS s = (0x50, s\<lparr>port_reads := port_reads s + 1\<rparr>)"
  by (simp add: drive_ok_def next_inb_def next_inw_def)

lemma win_result_ok: "drive_ok s \<Longrightarrow> win_result s = (False, s\<lparr>port_reads := port_reads s + 1\<rparr>)"
  by (simp add: win_result_def status_ok)

lemma controller_ready_ok:
  "drive_ok s \<Longrightarrow> controller_ready (Suc (Suc n)) s = (Suc n, s\<lparr>port_reads := port_reads s + 1\<rparr>)"
  by (simp add: status_ok)

lemma hd_out_ok:
  assumes "drive_ok s" "drive \<le> 1" "head \<le> 15"
  shows "hd_out drive nsect sect head cyl cmd intr s = Some
    (s\<lparr>port_reads := port_reads s + 1, do_hd_handler := Some intr,
       outs := outs s @ [(HD_CMD, of_int (hi_ctl (hd_info s (unat drive)))),
         (0x1f1, of_int (drop_bit 2 (hi_wpcom (hd_info s (unat drive))))), (0x1f2, ucast nsect), (0x1f3, ucast sect),
         (0x1f4, ucast cyl), (0x1f5, ucast (drop_bit 8 cyl)), (0x1f6, 0xA0 OR ucast (push_bit 4 drive) OR ucast head),
         (0x1f7, ucast cmd)]\<rparr>)"
proof -
  have "controller_ready 10000 s = (9999, s\<lparr>port_reads := port_reads s + 1\<rparr>)"
    using controller_ready_ok [OF assms(1), of 9998] by simp
  then show ?thesis using assms by (simp add: hd_out_def outb_def not_less)
qed

subsection \<open>Sector, head and cylinder\<close>

lemma chs_eq:
  assumes "0 < hi_sect h" "hi_sect h < 2 ^ 31" "0 < hi_head h" "hi_head h < 2 ^ 31"
  shows "\<exists>k hd c. chs h block = Some (k + 1, hd, c) \<and> int (unat k) < hi_sect h \<and> int (unat hd) < hi_head h
    \<and> int (unat block) = (int (unat c) * hi_head h + int (unat hd)) * hi_sect h + int (unat k)"
proof -
  let ?S = "of_int (hi_sect h) :: u32" and ?H = "of_int (hi_head h) :: u32"
  have u: "uint ?S = hi_sect h" "uint ?H = hi_head h"
    using assms by (simp_all add: unsigned_of_int take_bit_int_eq_self)
  then have nz: "?S \<noteq> 0" "?H \<noteq> 0" using assms by (metis less_irrefl unsigned_0)+
  let ?k = "block mod ?S" and ?q = "block div ?S"
  have "chs h block = Some (?k + 1, ?q mod ?H, ?q div ?H)" using nz by (simp add: chs_def Let_def)
  moreover have "int (unat ?k) < hi_sect h" "int (unat (?q mod ?H)) < hi_head h"
    using assms by (simp_all add: uint_mod u)
  moreover have "int (unat block) = (int (unat (?q div ?H)) * hi_head h + int (unat (?q mod ?H))) * hi_sect h + int (unat ?k)"
    by (simp add: uint_mod uint_div u)
  ultimately show ?thesis by blast
qed

subsection \<open>The request\<close>

text \<open>The only request of the queue: it reads the block of the locked buffer \<open>b\<close>, which is within its partition.\<close>

definition read_request :: "nat \<Rightarrow> nat \<Rightarrow> 'a hdd_scheme \<Rightarrow> bool" where
  "read_request r b s \<longleftrightarrow> current_request s 3 = Some r
     \<and> r_cmd (request s r) = READ \<and> r_nr_sectors (request s r) = 2 \<and> r_bh (request s r) = Some b
     \<and> r_buffer (request s r) = (b, 0) \<and> r_next (request s r) = None \<and> MAJOR (r_dev (request s r)) = 3
     \<and> b_lock (buffers s b) \<and> length (b_data (buffers s b)) = 1024"

text \<open>The drive of a minor device number, and whether a request for it is sane.\<close>

definition on_disk :: "nat \<Rightarrow> 'a hdd_scheme \<Rightarrow> bool" where
  "on_disk r s \<longleftrightarrow>
     (let m = nat (MINOR (r_dev (request s r))); h = hd_info s (m div 5)
      in m < 5 * NR_HD s \<and> NR_HD s \<le> 2 \<and> r_sector (request s r) + 2 \<le> of_int (nr_sects (hd_part s m))
         \<and> 0 < hi_sect h \<and> hi_sect h < 256 \<and> 0 < hi_head h \<and> hi_head h \<le> 16)"

lemma do_hd_request_read:
  assumes "read_request r b s" "on_disk r s" "drive_ok s" "\<not> hd_reset s" "\<not> recalibrate s"
    and "m = nat (MINOR (r_dev (request s r)))" "d = m div 5"
  shows "\<exists>(k :: u32) (hd :: u32) (c :: u32). int (unat (r_sector (request s r) + of_int (start_sect (hd_part s m))))
        = (int (unat c) * hi_head (hd_info s d) + int (unat hd)) * hi_sect (hd_info s d) + int (unat k)
    \<and> int (unat k) < hi_sect (hd_info s d) \<and> int (unat hd) < hi_head (hd_info s d)
    \<and> do_hd_request s = Some
       (s\<lparr>port_reads := port_reads s + 1, do_hd_handler := Some Read_intr,
          outs := outs s @ [(HD_CMD, of_int (hi_ctl (hd_info s d))), (0x1f1, of_int (drop_bit 2 (hi_wpcom (hd_info s d)))),
            (0x1f2, 2), (0x1f3, ucast (k + 1)), (0x1f4, ucast c), (0x1f5, ucast (drop_bit 8 c)),
            (0x1f6, 0xA0 OR ucast (push_bit 4 (of_nat d :: u32)) OR ucast hd), (0x1f7, 0x20)]\<rparr>)"
proof -
  have d: "m < 5 * NR_HD s" "d \<le> 1" and disk: "r_sector (request s r) + 2 \<le> of_int (nr_sects (hd_part s m))"
      "0 < hi_sect (hd_info s d)" "hi_sect (hd_info s d) < 256" "0 < hi_head (hd_info s d)" "hi_head (hd_info s d) \<le> 16"
    using assms(2) unfolding assms(6,7) on_disk_def Let_def by linarith+
  obtain k hd c where chs: "chs (hd_info s d) (r_sector (request s r) + of_int (start_sect (hd_part s m))) = Some (k + 1, hd, c)"
    "int (unat k) < hi_sect (hd_info s d)" "int (unat hd) < hi_head (hd_info s d)"
    "int (unat (r_sector (request s r) + of_int (start_sect (hd_part s m))))
        = (int (unat c) * hi_head (hd_info s d) + int (unat hd)) * hi_sect (hd_info s d) + int (unat k)"
    using chs_eq [of "hd_info s d" "r_sector (request s r) + of_int (start_sect (hd_part s m))"] disk by auto
  have "unat hd \<le> 15" using chs(3) disk by linarith
  then have hd: "hd \<le> 15" by (simp add: word_le_nat_alt)
  have d1: "(of_nat d :: u32) \<le> 1" "unat (of_nat d :: u32) = d" using d(2) by (auto simp: le_Suc_eq)
  have init: "init_request_ok 3 r s" using assms(1) by (simp add: read_request_def init_request_ok_def)
  have nxt: "\<not> (m \<ge> 5 * NR_HD s \<or> r_sector (request s r) + 2 > of_int (nr_sects (hd_part s m)))"
    using d disk by auto
  have "do_hd_request s = hd_out (of_nat d) 2 (k + 1) hd c WIN_READ Read_intr s"
    using assms(1,4-7) init nxt chs(1)
    by (subst do_hd_request.simps) (simp add: read_request_def Let_def)
  also have "\<dots> = Some
       (s\<lparr>port_reads := port_reads s + 1, do_hd_handler := Some Read_intr,
          outs := outs s @ [(HD_CMD, of_int (hi_ctl (hd_info s d))), (0x1f1, of_int (drop_bit 2 (hi_wpcom (hd_info s d)))),
            (0x1f2, 2), (0x1f3, ucast (k + 1)), (0x1f4, ucast c), (0x1f5, ucast (drop_bit 8 c)),
            (0x1f6, 0xA0 OR ucast (push_bit 4 (of_nat d :: u32)) OR ucast hd), (0x1f7, 0x20)]\<rparr>)"
    using hd_out_ok [OF assms(3) d1(1) hd, of 2 "k + 1" c WIN_READ Read_intr] d1(2) by simp
  finally show ?thesis using chs(2-4) by blast
qed

subsection \<open>The interrupts\<close>

lemma end_request_hd:
  assumes "current_request s 3 = Some r" "r_bh (request s r) = Some b" "r_next (request s r) = None"
  shows "\<exists>s'. end_request 3 u s = Some s' \<and> current_request s' 3 = None \<and> r_dev (request s' r) = -1
    \<and> buffers s' b = (buffers s b)\<lparr>b_uptodate := u, b_lock := False, b_wait := None\<rparr> \<and> do_hd_handler s' = do_hd_handler s"
proof -
  have h: "do_hd_handler (wake_up (waiting_queue r) s) = do_hd_handler s"
    "do_hd_handler (wake_up request_queue s) = do_hd_handler s"
    "do_hd_handler (wake_up (buffer_queue b) s) = do_hd_handler s" for s :: "'a hdd_scheme"
    by (auto simp: wake_up_def waiting_queue_def request_queue_def buffer_queue_def set_state_def update_task_def
        update_request_def update_bh_def split: option.split)
  show ?thesis
    using assms
    by (simp add: end_request_def DEVICE_OFF_def unlock_buffer_def set_current_def h)
      (simp add: update_request_def update_bh_def h)
qed

text \<open>The 512 bytes that 256 reads of the data port give, from read number \<open>k\<close> on.\<close>

definition sector_bytes :: "(nat \<Rightarrow> u16) \<Rightarrow> nat \<Rightarrow> u8 list" where
  "sector_bytes w k = concat (map (\<lambda>j. word_bytes (w (k + j))) [0..<256])"

lemma length_sector_bytes [simp]: "length (sector_bytes w k) = 512"
proof -
  have "length (concat (map (\<lambda>j. word_bytes (w (k + j))) xs)) = 2 * length xs" for xs
    by (induction xs) (simp_all add: word_bytes_def)
  then show ?thesis by (simp add: sector_bytes_def)
qed

lemma read_intr_ok:
  assumes "drive_ok s" "current_request s 3 = Some r" "\<forall>n os. port_in s n os HD_DATA = w n" "r_buffer (request s r) = (b, off)"
  shows "read_intr s =
    (let s' = to_buffer (b, off) (sector_bytes w (port_reads s + 1)) (s\<lparr>port_reads := port_reads s + 257\<rparr>);
         s'' = update_request r (\<lambda>q. (next_sector q)\<lparr>r_errors := 0, r_nr_sectors := r_nr_sectors q - 1\<rparr>) s'
     in if r_nr_sectors (request s r) \<noteq> 1 then Some (s''\<lparr>do_hd_handler := Some Read_intr\<rparr>)
        else do { t \<leftarrow> end_request 3 True s''; do_hd_request t })"
proof -
  have "port_read HD_DATA 256 (s\<lparr>port_reads := port_reads s + 1\<rparr>)
     = (sector_bytes w (port_reads s + 1), s\<lparr>port_reads := port_reads s + 257\<rparr>)"
    unfolding sector_bytes_def using port_read_eq [of "s\<lparr>port_reads := port_reads s + 1\<rparr>" HD_DATA w 256] assms(3) by simp
  then show ?thesis
    using assms
    by (simp add: read_intr_def win_result_ok Let_def to_buffer_def update_bh_def update_request_def)
qed

text \<open>The first interrupt, from the state that the request left, and the second one.\<close>

lemma hd_interrupt_read:
  assumes "do_hd_handler s = Some Read_intr"
  shows "hd_interrupt s = read_intr (s\<lparr>do_hd_handler := None, outs := outs s @ [(0xA0, 0x20), (0x20, 0x20)]\<rparr>)"
  using assms by (simp add: hd_interrupt_def outb_def)

lemma first_sector:
  assumes "do_hd_handler s = Some Read_intr" "drive_ok s" "\<forall>n os. port_in s n os HD_DATA = w n" "read_request r b s"
  shows "\<exists>s'. hd_interrupt s = Some s' \<and> do_hd_handler s' = Some Read_intr \<and> drive_ok s'
    \<and> port_in s' = port_in s \<and> port_reads s' = port_reads s + 257 \<and> current_request s' 3 = Some r
    \<and> request s' r = (request s r)\<lparr>r_sector := r_sector (request s r) + 1, r_buffer := (b, 512), r_nr_sectors := 1, r_errors := 0\<rparr>
    \<and> buffers s' b = (buffers s b)\<lparr>b_data := sector_bytes w (port_reads s + 1) @ drop 512 (b_data (buffers s b))\<rparr>"
proof -
  define s0 where "s0 = s\<lparr>do_hd_handler := None, outs := outs s @ [(0xA0, 0x20), (0x20, 0x20)]\<rparr>"
  have s0: "drive_ok s0" "current_request s0 3 = Some r" "\<forall>n os. port_in s0 n os HD_DATA = w n"
    "r_buffer (request s0 r) = (b, 0)" "r_nr_sectors (request s0 r) = 2"
    using assms by (simp_all add: s0_def drive_ok_def read_request_def)
  then show ?thesis
    using assms(1,2,4) read_intr_ok [OF s0(1-4)]
    by (simp add: hd_interrupt_read Let_def flip: s0_def)
      (simp add: s0_def to_buffer_def update_bh_def update_request_def next_sector_def drive_ok_def read_request_def)
qed

lemma last_sector:
  assumes "do_hd_handler s = Some Read_intr" "drive_ok s" "\<forall>n os. port_in s n os HD_DATA = w n"
    "current_request s 3 = Some r" "r_nr_sectors (request s r) = 1" "r_buffer (request s r) = (b, 512)"
    "r_bh (request s r) = Some b" "r_next (request s r) = None" "b_data (buffers s b) = xs @ ys" "length xs = 512" "length ys = 512"
  shows "\<exists>s'. hd_interrupt s = Some s' \<and> do_hd_handler s' = None \<and> current_request s' 3 = None \<and> r_dev (request s' r) = -1
    \<and> buffers s' b = (buffers s b)\<lparr>b_data := xs @ sector_bytes w (port_reads s + 1), b_uptodate := True,
         b_lock := False, b_wait := None\<rparr>"
proof -
  define s0 where "s0 = s\<lparr>do_hd_handler := None, outs := outs s @ [(0xA0, 0x20), (0x20, 0x20)]\<rparr>"
  define s1 where "s1 = update_request r (\<lambda>q. (next_sector q)\<lparr>r_errors := 0, r_nr_sectors := r_nr_sectors q - 1\<rparr>)
     (to_buffer (b, 512) (sector_bytes w (port_reads s + 1)) (s0\<lparr>port_reads := port_reads s + 257\<rparr>))"
  have "hd_interrupt s = do { t \<leftarrow> end_request 3 True s1; do_hd_request t }"
    using assms read_intr_ok [of s0 r w b 512]
    by (simp add: hd_interrupt_read Let_def s1_def flip: s0_def) (simp add: s0_def drive_ok_def)
  moreover obtain s' where s': "end_request 3 True s1 = Some s'" "current_request s' 3 = None" "r_dev (request s' r) = -1"
    "buffers s' b = (buffers s1 b)\<lparr>b_uptodate := True, b_lock := False, b_wait := None\<rparr>" "do_hd_handler s' = None"
    using end_request_hd [of s1 r b True] assms
    by (auto simp: s1_def s0_def to_buffer_def update_request_def update_bh_def next_sector_def)
  moreover have "do_hd_request s' = Some s'" using s'(2) by (subst do_hd_request.simps) simp
  moreover have "buffers s1 b = (buffers s b)\<lparr>b_data := xs @ sector_bytes w (port_reads s + 1)\<rparr>"
    using assms by (simp add: s1_def s0_def to_buffer_def update_request_def update_bh_def)
  ultimately show ?thesis by auto
qed

subsection \<open>A block is read\<close>

text \<open>
  C21. A read of a block that is the only request of the hard disk, for a drive that is ready and answers
  without an error: \<open>do_hd_request\<close> gives one \<open>WIN_READ\<close> command for two sectors, whose sector, head and
  cylinder are those of the block within its partition; the two interrupts that follow put the 512 words
  that the data port delivers into the buffer, mark it up to date and unlocked, and free the request.
\<close>

theorem hd_read_block:
  assumes "read_request r b s" "on_disk r s" "drive_ok s" "\<not> hd_reset s" "\<not> recalibrate s"
    and "\<forall>n os. port_in s n os HD_DATA = w n"
    and "m = nat (MINOR (r_dev (request s r)))" "d = m div 5"
  shows "\<exists>s1 s2 s3 (k :: u32) (h :: u32) (c :: u32).
    do_hd_request s = Some s1 \<and> hd_interrupt s1 = Some s2 \<and> hd_interrupt s2 = Some s3
    \<and> outs s1 = outs s @ [(HD_CMD, of_int (hi_ctl (hd_info s d))), (0x1f1, of_int (drop_bit 2 (hi_wpcom (hd_info s d)))),
        (0x1f2, 2), (0x1f3, ucast (k + 1)), (0x1f4, ucast c), (0x1f5, ucast (drop_bit 8 c)),
        (0x1f6, 0xA0 OR ucast (push_bit 4 (of_nat d :: u32)) OR ucast h), (0x1f7, 0x20)]
    \<and> int (unat (r_sector (request s r) + of_int (start_sect (hd_part s m))))
        = (int (unat c) * hi_head (hd_info s d) + int (unat h)) * hi_sect (hd_info s d) + int (unat k)
    \<and> int (unat k) < hi_sect (hd_info s d) \<and> int (unat h) < hi_head (hd_info s d)
    \<and> b_data (buffers s3 b) = sector_bytes w (port_reads s + 2) @ sector_bytes w (port_reads s + 259)
    \<and> b_uptodate (buffers s3 b) \<and> \<not> b_lock (buffers s3 b)
    \<and> current_request s3 3 = None \<and> r_dev (request s3 r) = -1 \<and> do_hd_handler s3 = None"
proof -
  obtain s1 and k h c :: u32 where 1: "do_hd_request s = Some s1"
    "s1 = s\<lparr>port_reads := port_reads s + 1, do_hd_handler := Some Read_intr, outs := outs s1\<rparr>"
    "outs s1 = outs s @ [(HD_CMD, of_int (hi_ctl (hd_info s d))), (0x1f1, of_int (drop_bit 2 (hi_wpcom (hd_info s d)))),
        (0x1f2, 2), (0x1f3, ucast (k + 1)), (0x1f4, ucast c), (0x1f5, ucast (drop_bit 8 c)),
        (0x1f6, 0xA0 OR ucast (push_bit 4 (of_nat d :: u32)) OR ucast h), (0x1f7, 0x20)]"
    "int (unat (r_sector (request s r) + of_int (start_sect (hd_part s m))))
        = (int (unat c) * hi_head (hd_info s d) + int (unat h)) * hi_sect (hd_info s d) + int (unat k)"
    "int (unat k) < hi_sect (hd_info s d)" "int (unat h) < hi_head (hd_info s d)"
    using do_hd_request_read [OF assms(1-5,7,8)] by auto
  have f1: "do_hd_handler s1 = Some Read_intr" "port_in s1 = port_in s" "port_reads s1 = port_reads s + 1"
    "request s1 = request s" "buffers s1 = buffers s" "current_request s1 = current_request s"
    by (subst 1(2), simp)+
  have r1: "drive_ok s1" "read_request r b s1" using assms(1,3) f1 by (simp_all add: drive_ok_def read_request_def)
  obtain s2 where 2: "hd_interrupt s1 = Some s2" "do_hd_handler s2 = Some Read_intr" "drive_ok s2"
    "port_in s2 = port_in s" "port_reads s2 = port_reads s + 258" "current_request s2 3 = Some r"
    "request s2 r = (request s r)\<lparr>r_sector := r_sector (request s r) + 1, r_buffer := (b, 512), r_nr_sectors := 1, r_errors := 0\<rparr>"
    "buffers s2 b = (buffers s b)\<lparr>b_data := sector_bytes w (port_reads s + 2) @ drop 512 (b_data (buffers s b))\<rparr>"
    using first_sector [OF f1(1) r1(1) _ r1(2), of w] assms(6) f1 by auto
  obtain s3 where 3: "hd_interrupt s2 = Some s3" "do_hd_handler s3 = None" "current_request s3 3 = None"
    "r_dev (request s3 r) = -1" "b_data (buffers s3 b) = sector_bytes w (port_reads s + 2) @ sector_bytes w (port_reads s + 259)"
    "b_uptodate (buffers s3 b)" "\<not> b_lock (buffers s3 b)"
    using last_sector [OF 2(2,3) _ 2(6), of w b "sector_bytes w (port_reads s + 2)" "drop 512 (b_data (buffers s b))"]
      assms(1,6) 2 by (auto simp: read_request_def add.commute)
  from 1 2(1) 3 show ?thesis by blast
qed

text \<open>A drive of 4 heads and 17 sectors that delivers the number of each read; block 50 of its first partition is read.\<close>

definition boot_hdd :: hdd where
  "boot_hdd = sys.extend ega_sys
     \<lparr>recalibrate = False, hd_reset = False,
      hd_info = (\<lambda>_. \<lparr>hi_head = 4, hi_sect = 17, hi_cyl = 615, hi_wpcom = 300, hi_lzone = 615, hi_ctl = 0\<rparr>),
      NR_HD = 1, hd_part = (\<lambda>_. \<lparr>start_sect = 17, nr_sects = 10000\<rparr>), do_hd_handler = None, setup_callable = False,
      port_reads = 0, port_in = (\<lambda>n _ port. if port = HD_STATUS then 0x50 else of_nat n)\<rparr>"

definition reading_hdd :: hdd where
  "reading_hdd = boot_hdd\<lparr>current_request := [3 \<mapsto> 0],
     request := (\<lambda>_. empty_request\<lparr>r_dev := 0x301, r_sector := 100, r_nr_sectors := 2, r_bh := Some 0\<rparr>),
     buffers := (\<lambda>_. (new_bh 0x301 50 False False 0)\<lparr>b_lock := True\<rparr>)\<rparr>"

lemma reading_hdd_simps:
  "read_request 0 0 reading_hdd" "on_disk 0 reading_hdd" "drive_ok reading_hdd" "\<not> hd_reset reading_hdd"
  "\<not> recalibrate reading_hdd" "\<forall>n os. port_in reading_hdd n os HD_DATA = of_nat n"
  "r_dev (request reading_hdd 0) = 0x301"
  by (simp_all add: reading_hdd_def boot_hdd_def sys.defs read_request_def on_disk_def drive_ok_def empty_request_def new_bh_def
      MAJOR_def MINOR_def)

theorem hd_read_block_witness:
  "\<exists>s1 s2 s3. do_hd_request reading_hdd = Some s1 \<and> hd_interrupt s1 = Some s2 \<and> hd_interrupt s2 = Some s3
     \<and> b_uptodate (buffers s3 0) \<and> current_request s3 3 = None"
  using hd_read_block [OF reading_hdd_simps(1-6), of 1 0] reading_hdd_simps(7) by (auto simp: MINOR_def)

end
