(* ===== verification/Boot_Correct.thy ===== *)
theory Boot_Correct
  imports Boot Cache Hd_Correct
begin

text \<open>
  What \<open>main\<close> leaves before the first process starts: the memory is divided, the interrupt table is full,
  and the tables of the components satisfy the invariants that their operations keep.
\<close>

subsection \<open>The interrupt table\<close>

definition trap_at :: "nat \<Rightarrow> trap_handler" where
  "trap_at n = (if n = 45 then Irq13 else if n = 39 then Parallel_interrupt
     else if n < 17 then [Divide_error, Debug, Nmi, Int3, Overflow, Bounds, Invalid_op, Device_not_available, Double_fault,
       Coprocessor_segment_overrun, Invalid_TSS, Segment_not_present, Stack_segment, General_protection, Page_fault,
       Reserved, Coprocessor_error] ! n
     else Reserved)"

lemma set_gates:
  "set_trap_gate n h s = s\<lparr>idt := (idt s)(n := gate 15 0 (handler_addr s h))\<rparr>"
  "set_intr_gate n h s = s\<lparr>idt := (idt s)(n := gate 14 0 (handler_addr s h))\<rparr>"
  "set_system_gate n h s = s\<lparr>idt := (idt s)(n := gate 15 3 (handler_addr s h))\<rparr>"
  by (simp_all add: set_trap_gate_def set_intr_gate_def set_system_gate_def set_gate_def)

lemma reserved_gates:
  "fold (\<lambda>i. set_trap_gate i Reserved) xs s
     = s\<lparr>idt := (\<lambda>n. if n \<in> set xs then gate 15 0 (handler_addr s Reserved) else idt s n)\<rparr>"
proof (induction xs arbitrary: s)
  case (Cons x xs)
  have "fold (\<lambda>i. set_trap_gate i Reserved) (x # xs) s = fold (\<lambda>i. set_trap_gate i Reserved) xs (set_trap_gate x Reserved s)" by simp
  also have "\<dots> = s\<lparr>idt := (\<lambda>n. if n \<in> set (x # xs) then gate 15 0 (handler_addr s Reserved) else idt s n)\<rparr>"
    unfolding Cons.IH set_gates
    by (simp cong: if_cong) (rule arg_cong [where f = "\<lambda>i. s\<lparr>idt := i\<rparr>"], auto)
  finally show ?case .
qed simp

lemma trap_init_frame:
  "\<exists>os i. trap_init s = s\<lparr>outs := os, idt := i\<rparr>
     \<and> (\<forall>n. i n = (if n < 48 then gate 15 (if n \<in> {3, 4, 5} then 3 else 0) (handler_addr s (trap_at n)) else idt s n))"
proof -
  define s0 where "s0 = (let s = set_trap_gate 0 Divide_error s; s = set_trap_gate 1 Debug s; s = set_trap_gate 2 Nmi s;
    s = set_system_gate 3 Int3 s; s = set_system_gate 4 Overflow s; s = set_system_gate 5 Bounds s;
    s = set_trap_gate 6 Invalid_op s; s = set_trap_gate 7 Device_not_available s; s = set_trap_gate 8 Double_fault s;
    s = set_trap_gate 9 Coprocessor_segment_overrun s; s = set_trap_gate 10 Invalid_TSS s; s = set_trap_gate 11 Segment_not_present s;
    s = set_trap_gate 12 Stack_segment s; s = set_trap_gate 13 General_protection s; s = set_trap_gate 14 Page_fault s;
    s = set_trap_gate 15 Reserved s in set_trap_gate 16 Coprocessor_error s)"
  have s0: "\<exists>i. s0 = s\<lparr>idt := i\<rparr>
     \<and> (\<forall>n. i n = (if n < 17 then gate 15 (if n \<in> {3, 4, 5} then 3 else 0) (handler_addr s (trap_at n)) else idt s n))"
  proof (intro exI conjI allI)
    show "s0 = s\<lparr>idt := idt s0\<rparr>"
      by (simp add: s0_def Let_def set_gates)
    fix n :: nat
    show "idt s0 n = (if n < 17 then gate 15 (if n \<in> {3, 4, 5} then 3 else 0) (handler_addr s (trap_at n)) else idt s n)"
    proof (cases "n < 17")
      case True
      then have "n \<in> {0, 1, 2, 3, 4, 5, 6, 7, 8, 9, 10, 11, 12, 13, 14, 15, 16}" by simp presburger
      then show ?thesis
        by (auto simp: s0_def Let_def set_gates trap_at_def)
    qed (simp add: s0_def Let_def set_gates)
  qed
  then obtain i where i: "s0 = s\<lparr>idt := i\<rparr>"
    "\<And>n. i n = (if n < 17 then gate 15 (if n \<in> {3, 4, 5} then 3 else 0) (handler_addr s (trap_at n)) else idt s n)" by blast
  define s1 where "s1 = fold (\<lambda>i. set_trap_gate i Reserved) [17..<48] s0"
  define j where "j = (\<lambda>n. if 17 \<le> n \<and> n < 48 then gate 15 0 (handler_addr s Reserved) else i n)"
  have s1: "s1 = s\<lparr>idt := j\<rparr>" unfolding s1_def reserved_gates i(1) j_def set_upt by (simp cong: if_cong)
  have "trap_init s = (let s = set_trap_gate 45 Irq13 s1; s = outb (inb 0x21 s AND 0xfb) 0x21 s; s = outb (inb 0xA1 s AND 0xdf) 0xA1 s
      in set_trap_gate 39 Parallel_interrupt s)"
    unfolding trap_init_def s1_def s0_def Let_def ..
  then have "\<exists>os. trap_init s = s\<lparr>outs := os, idt := j(45 := gate 15 0 (handler_addr s Irq13), 39 := gate 15 0 (handler_addr s Parallel_interrupt))\<rparr>"
    by (auto simp: s1 Let_def set_gates outb_def)
  moreover have "(j(45 := gate 15 0 (handler_addr s Irq13), 39 := gate 15 0 (handler_addr s Parallel_interrupt))) n
      = (if n < 48 then gate 15 (if n \<in> {3, 4, 5} then 3 else 0) (handler_addr s (trap_at n)) else idt s n)" for n
    by (auto simp: j_def i(2) trap_at_def)
  ultimately show ?thesis by blast
qed

subsection \<open>What each initialisation changes\<close>

lemma mem_init_frame: "\<exists>h m. mem_init a b s = s\<lparr>HIGH_MEMORY := h, mem_map := m\<rparr>"
proof -
  have "\<exists>m. fold (\<lambda>k. set_map (i + k) 0) xs t = t\<lparr>mem_map := m\<rparr>" for i xs and t :: "'a mm_scheme"
  proof (induction xs arbitrary: t)
    case Nil
    show ?case by (rule exI [of _ "mem_map t"]) simp
  next
    case (Cons x xs)
    obtain m where "fold (\<lambda>k. set_map (i + k) 0) xs (set_map (i + x) 0 t) = set_map (i + x) 0 t\<lparr>mem_map := m\<rparr>" using Cons.IH by blast
    then show ?case by (intro exI [of _ m]) (simp only: fold_simps, simp add: set_map_def [of "i + x"])
  qed
  then obtain m where "mem_init a b s = s\<lparr>HIGH_MEMORY := of_int b, mem_map := replicate PAGING_PAGES USED\<rparr>\<lparr>mem_map := m\<rparr>"
    unfolding mem_init_def Let_def by blast
  then have "mem_init a b s = s\<lparr>HIGH_MEMORY := of_int b, mem_map := m\<rparr>" by simp
  then show ?thesis by blast
qed

lemma rd_init_frame: "\<exists>f a l p. rd_init start len s = (len, s\<lparr>request_fn := f, rd_start := a, rd_length := l, phys := p\<rparr>)"
proof -
  obtain p where "write_mem (replicate (nat len) 0) start (s\<lparr>request_fn := (request_fn s)(1 := Some do_rd), rd_start := start, rd_length := len\<rparr>)
      = s\<lparr>request_fn := (request_fn s)(1 := Some do_rd), rd_start := start, rd_length := len\<rparr>\<lparr>phys := p\<rparr>"
    using write_mem_frame by blast
  then show ?thesis by (auto simp: rd_init_def)
qed

lemma blk_dev_init_frame:
  "\<exists>R. blk_dev_init s = s\<lparr>request := R\<rparr> \<and> (\<forall>i < NR_REQUEST. r_dev (R i) = -1 \<and> r_next (R i) = None)"
proof -
  let ?free = "\<lambda>r. r\<lparr>r_dev := -1, r_next := None\<rparr>"
  have "fold (\<lambda>i. update_request i ?free) xs t = t\<lparr>request := (\<lambda>i. if i \<in> set xs then ?free (request t i) else request t i)\<rparr>"
    for xs and t :: "'a blk_scheme"
  proof (induction xs arbitrary: t)
    case (Cons x xs)
    have "fold (\<lambda>i. update_request i ?free) (x # xs) t = fold (\<lambda>i. update_request i ?free) xs (update_request x ?free t)" by simp
    also have "\<dots> = t\<lparr>request := (\<lambda>i. if i \<in> set (x # xs) then ?free (request t i) else request t i)\<rparr>"
      unfolding Cons.IH update_request_def
      by (simp cong: if_cong) (rule arg_cong [where f = "\<lambda>R. t\<lparr>request := R\<rparr>"], auto)
    finally show ?case .
  qed simp
  from this [of "[0..<NR_REQUEST]" s] show ?thesis unfolding blk_dev_init_def by auto
qed

text \<open>Input and output, and the record of the console.\<close>

definition wrote :: "'a sys_scheme \<Rightarrow> 'a sys_scheme \<Rightarrow> bool" where
  "wrote s s' \<longleftrightarrow> (\<exists>os c. s' = s\<lparr>outs := os, con := c\<rparr>)"

lemma wrote_refl: "wrote s s"
  unfolding wrote_def by (intro exI [of _ "outs s"] exI [of _ "con s"]) simp

lemma wrote_outb:
  assumes "wrote s t"
  shows "wrote s (outb v p t)"
proof -
  obtain os c where "t = s\<lparr>outs := os, con := c\<rparr>" using assms unfolding wrote_def by blast
  then have "outb v p t = s\<lparr>outs := os @ [(p, v)], con := c\<rparr>" by (simp add: outb_def)
  then show ?thesis unfolding wrote_def by blast
qed

lemma wrote_on_con:
  assumes "wrote s t"
  shows "wrote s (on_con f t)"
proof -
  obtain os c where "t = s\<lparr>outs := os, con := c\<rparr>" using assms unfolding wrote_def by blast
  then have "on_con f t = s\<lparr>outs := os, con := f c\<rparr>" by (simp add: on_con_def)
  then show ?thesis unfolding wrote_def by blast
qed

lemma wrote_con_init: "wrote s (con_init s)"
  unfolding con_init_def Let_def by (intro wrote_outb wrote_on_con wrote_refl)

lemma wrote_rs_init: "wrote s (rs_init s)"
  unfolding rs_init_def rs_init_port_def Let_def fold_simps prod.case by (intro wrote_outb wrote_refl)

lemma tty_init_frame:
  "\<exists>os c. tty_init s = s\<lparr>outs := os, con := c,
     idt := (idt s)(0x24 := gate 14 0 (handler_addr s Rs1_interrupt), 0x23 := gate 14 0 (handler_addr s Rs2_interrupt),
              0x21 := gate 15 0 (handler_addr s Keyboard_interrupt))\<rparr>"
proof -
  define s1 where "s1 = set_intr_gate 0x23 Rs2_interrupt (set_intr_gate 0x24 Rs1_interrupt s)"
  obtain os c where 1: "rs_init s1 = s1\<lparr>outs := os, con := c\<rparr>" using wrote_rs_init unfolding wrote_def by blast
  define s2 where "s2 = set_trap_gate 0x21 Keyboard_interrupt (rs_init s1)"
  obtain os' c' where 2: "con_init s2 = s2\<lparr>outs := os', con := c'\<rparr>" using wrote_con_init unfolding wrote_def by blast
  have "tty_init s = con_init s2" by (simp add: tty_init_def Let_def s2_def s1_def)
  also have "\<dots> = s\<lparr>outs := os', con := c',
     idt := (idt s)(0x24 := gate 14 0 (handler_addr s Rs1_interrupt), 0x23 := gate 14 0 (handler_addr s Rs2_interrupt),
              0x21 := gate 15 0 (handler_addr s Keyboard_interrupt))\<rparr>"
    unfolding 2 by (simp add: s2_def 1) (simp add: s1_def set_gates fun_upd_twist)
  finally show ?thesis by blast
qed

text \<open>A clock whose fields stand still: register \<open>a\<close> holds \<open>cmos a\<close>.\<close>

definition clock :: "(u8 \<Rightarrow> u8) \<Rightarrow> 'a tty_scheme \<Rightarrow> bool" where
  "clock cmos s \<longleftrightarrow> (\<forall>os a. device s (os @ [(0x70, 0x80 OR a)]) 0x71 = cmos a)"

lemma CMOS_READ_clock: "clock cmos s \<Longrightarrow> CMOS_READ a s = (cmos a, s\<lparr>outs := outs s @ [(0x70, 0x80 OR a)]\<rparr>)"
  by (simp add: CMOS_READ_def clock_def inb_def outb_def)

lemma clock_outs [simp]: "clock cmos (s\<lparr>outs := os\<rparr>) = clock cmos s"
  by (simp add: clock_def)

definition decoded :: "(u8 \<Rightarrow> u8) \<Rightarrow> tm" where
  "decoded cmos = \<lparr>tm_sec = BCD_TO_BIN (uint (cmos 0)), tm_min = BCD_TO_BIN (uint (cmos 2)), tm_hour = BCD_TO_BIN (uint (cmos 4)),
     tm_mday = BCD_TO_BIN (uint (cmos 7)), tm_mon = BCD_TO_BIN (uint (cmos 8)) - 1, tm_year = BCD_TO_BIN (uint (cmos 9))\<rparr>"

lemma time_init_frame:
  assumes "clock cmos s"
  shows "\<exists>os. time_init s = Some (s\<lparr>outs := os, startup_time := kernel_mktime (decoded cmos)\<rparr>)"
proof -
  have "\<exists>os. read_clock s = Some (\<lparr>tm_sec = uint (cmos 0), tm_min = uint (cmos 2), tm_hour = uint (cmos 4), tm_mday = uint (cmos 7),
      tm_mon = uint (cmos 8), tm_year = uint (cmos 9)\<rparr>, s\<lparr>outs := os\<rparr>)"
    using assms by (subst read_clock.simps) (simp add: CMOS_READ_clock Let_def, blast)
  then show ?thesis by (auto simp: time_init_def decoded_def)
qed

lemma clear_slot_task:
  "task (clear_slot x t) ! i = (if i = x \<and> i < length (task t) then None else task t ! i)"
  "length (task (clear_slot x t)) = length (task t)"
  by (cases "x < length (task t)") (auto simp: clear_slot_def nth_list_update list_update_beyond)

lemma clear_slots:
  "\<exists>g tk. fold clear_slot xs t = t\<lparr>gdt := g, task := tk\<rparr> \<and> length tk = length (task t)
     \<and> (\<forall>i < length (task t). tk ! i = (if i \<in> set xs then None else task t ! i))"
proof (induction xs arbitrary: t)
  case Nil
  show ?case by (intro exI [of _ "gdt t"] exI [of _ "task t"]) simp
next
  case (Cons x xs)
  obtain g tk where "fold clear_slot xs (clear_slot x t) = clear_slot x t\<lparr>gdt := g, task := tk\<rparr>" "length tk = length (task t)"
    "\<forall>i < length (task t). tk ! i = (if i \<in> set xs then None else task (clear_slot x t) ! i)"
    using Cons.IH [of "clear_slot x t"] by (metis clear_slot_task(2))
  then show ?case
    by (intro exI [of _ g] exI [of _ tk], simp only: fold_simps)
      (auto simp: clear_slot_task, simp add: clear_slot_def [of x])
qed

lemma sched_init_frame:
  assumes "length (task s) = NR_TASKS"
  shows "\<exists>os g tk. sched_init s = s\<lparr>gdt := g, task := tk, outs := os,
     idt := (idt s)(0x20 := gate 14 0 (handler_addr s Timer_interrupt), 0x80 := gate 15 3 (handler_addr s System_call))\<rparr>
     \<and> length tk = NR_TASKS \<and> tk ! 0 = task s ! 0 \<and> (\<forall>i \<in> {1..<NR_TASKS}. tk ! i = None)"
proof -
  define s1 where "s1 = set_descs 0 (of_nat init_task) s"
  obtain g tk where f: "fold clear_slot [1..<NR_TASKS] s1 = s1\<lparr>gdt := g, task := tk\<rparr>" "length tk = NR_TASKS"
    "\<forall>i < NR_TASKS. tk ! i = (if i \<in> set [1..<NR_TASKS] then None else task s ! i)"
    using clear_slots [of "[1..<NR_TASKS]" s1] assms unfolding s1_def set_descs_def by auto
  have "\<exists>os. sched_init s = s\<lparr>gdt := g, task := tk, outs := os,
     idt := (idt s)(0x20 := gate 14 0 (handler_addr s Timer_interrupt), 0x80 := gate 15 3 (handler_addr s System_call))\<rparr>"
    unfolding sched_init_def Let_def s1_def [symmetric] f(1) set_gates outb_def
    by (simp add: s1_def set_descs_def) blast
  moreover have "tk ! 0 = task s ! 0" "\<forall>i \<in> {1..<NR_TASKS}. tk ! i = None" using f(3) by auto
  ultimately show ?thesis using f(2) by blast
qed

subsection \<open>After \<open>main\<close>\<close>

text \<open>The sizes: whole pages up to 16 MB, and the buffers below the main memory.\<close>

lemma memory_end_bounds:
  "0x100000 \<le> memory_end_of ext \<and> memory_end_of ext \<le> 0x1000000 \<and> memory_end_of ext mod 4096 = 0
     \<and> (memory_end_of ext < 0x1000000 \<longrightarrow> memory_end_of ext \<le> 0x100000 + 1024 * uint ext
          \<and> 0x100000 + 1024 * uint ext < memory_end_of ext + 4096)"
proof -
  define e where "e = 2 ^ 20 + uint ext * 1024"
  have e: "0x100000 \<le> e" "e < 2 ^ 32" using uint_bounded [of ext] by (simp_all add: e_def)
  have m: "(0xfffff000 :: int) = mask 32 AND NOT (mask 12)" by (simp add: mask_eq_exp_minus_1)
  have "e AND 0xfffff000 = push_bit 12 (take_bit 20 (drop_bit 12 e))"
    unfolding m slice_eq_mask by (simp add: and.assoc)
  also have "\<dots> = 4096 * (e div 4096)" using e by (simp add: push_bit_eq_mult drop_bit_eq_div take_bit_int_eq_self)
  finally have a: "e AND 0xfffff000 = 4096 * (e div 4096)" .
  have "4096 * (e div 4096) \<le> e" "e < 4096 * (e div 4096) + 4096" "0x100 \<le> e div 4096" using e by linarith+
  moreover have "memory_end_of ext = min 0x1000000 (4096 * (e div 4096))"
    unfolding memory_end_of_def Let_def e_def [symmetric] a by (simp add: min_def)
  ultimately show ?thesis by (auto simp: e_def min_def)
qed

lemma buffer_end_bounds:
  "0x100000 \<le> m \<Longrightarrow> 0x100000 \<le> buffer_memory_end_of m \<and> buffer_memory_end_of m \<le> 0x400000
     \<and> buffer_memory_end_of m \<le> m \<and> buffer_memory_end_of m mod 4096 = 0"
  by (simp add: buffer_memory_end_of_def)

text \<open>The handler of each gate, and its type: an interrupt gate or a trap gate.\<close>

definition handler_at :: "nat \<Rightarrow> trap_handler" where
  "handler_at n = (if n = 0x20 then Timer_interrupt else if n = 0x21 then Keyboard_interrupt else if n = 0x23 then Rs2_interrupt
     else if n = 0x24 then Rs1_interrupt else if n = 0x26 then Floppy_interrupt else if n = 0x2E then Hd_interrupt
     else if n = 0x80 then System_call else trap_at n)"

definition gates :: "(trap_handler \<Rightarrow> u32) \<Rightarrow> (nat \<Rightarrow> u32 \<times> u32) \<Rightarrow> nat \<Rightarrow> u32 \<times> u32" where
  "gates addr old n =
     (if n < 48 \<or> n = 0x80
      then gate (if n \<in> {0x20, 0x23, 0x24, 0x2E} then 14 else 15) (if n \<in> {3, 4, 5, 0x80} then 3 else 0) (addr (handler_at n))
      else old n)"

lemma disk_init_frame:
  "\<exists>os. hd_init s = s\<lparr>request_fn := (request_fn s)(3 := Some do_hd), outs := os\<rparr>"
  "\<exists>os. floppy_init t = t\<lparr>request_fn := (request_fn t)(2 := Some do_fd), outs := os\<rparr>"
  by (simp add: hd_init_def outb_def Let_def, blast) (simp add: floppy_init_def outb_def Let_def, blast)

text \<open>The state before \<open>trap_init\<close>: the memory is divided.\<close>

definition main_memory :: "int option \<Rightarrow> 'a machine_scheme \<Rightarrow> 'a machine_scheme" where
  "main_memory ramdisk s =
     (let s = s\<lparr>ROOT_DEV := uint (mem_short 0x901FC s)\<rparr>;
          s = s\<lparr>drive_info := read_mem 0x90080 32 s\<rparr>;
          memory_end = memory_end_of (mem_short 0x90002 s);
          buffer_memory_end = buffer_memory_end_of memory_end;
          (main_memory_start, s) =
            (case ramdisk of
               None \<Rightarrow> (buffer_memory_end, s)
             | Some kb \<Rightarrow> let (n, s) = rd_init (of_int buffer_memory_end) (kb * 1024) s in (buffer_memory_end + n, s))
      in mem_init main_memory_start memory_end s)"

definition boot_sizes :: "int option \<Rightarrow> 'a machine_scheme \<Rightarrow> int \<times> int \<times> int" where
  "boot_sizes ramdisk s =
     (let m = memory_end_of (mem_short 0x90002 s); b = buffer_memory_end_of m
      in (b, b + (case ramdisk of None \<Rightarrow> 0 | Some kb \<Rightarrow> kb * 1024), m))"

lemma main_memory_frame:
  assumes "boot_sizes ramdisk s = (b, st, m)"
  shows "\<exists>rd di f a l p h mm. main_memory ramdisk s
      = s\<lparr>ROOT_DEV := rd, drive_info := di, request_fn := f, rd_start := a, rd_length := l, phys := p, HIGH_MEMORY := h, mem_map := mm\<rparr>"
    "\<exists>t. main_memory ramdisk s = mem_init st m t"
proof -
  define s1 where "s1 = s\<lparr>ROOT_DEV := uint (mem_short 0x901FC s)\<rparr>"
  define s2 where "s2 = s1\<lparr>drive_info := read_mem 0x90080 32 s1\<rparr>"
  have ms: "mem_short 0x90002 s2 = mem_short 0x90002 s" by (simp add: s2_def s1_def mem_short_def mem_byte_def)
  obtain t f a l p where t: "(case ramdisk of None \<Rightarrow> (b, s2)
        | Some kb \<Rightarrow> let (n, s) = rd_init (of_int b) (kb * 1024) s2 in (b + n, s)) = (st, t)"
    "t = s2\<lparr>request_fn := f, rd_start := a, rd_length := l, phys := p\<rparr>"
  proof (cases ramdisk)
    case None
    have "st = b" using assms None by (auto simp: boot_sizes_def Let_def)
    then show ?thesis using None by (intro that [of s2 "phys s2" "rd_length s2" "rd_start s2" "request_fn s2"]) simp_all
  next
    case (Some kb)
    obtain f a l p where "rd_init (of_int b) (kb * 1024) s2 = (kb * 1024, s2\<lparr>request_fn := f, rd_start := a, rd_length := l, phys := p\<rparr>)"
      using rd_init_frame by blast
    moreover have "st = b + kb * 1024" using assms Some by (auto simp: boot_sizes_def Let_def)
    ultimately show ?thesis using Some by (intro that) (simp, rule refl)
  qed
  have "main_memory ramdisk s = mem_init st m t"
    using t(1) assms unfolding main_memory_def Let_def s1_def [symmetric] s2_def [symmetric] ms boot_sizes_def by auto
  moreover obtain h mm where "mem_init st m t = t\<lparr>HIGH_MEMORY := h, mem_map := mm\<rparr>" using mem_init_frame by blast
  ultimately have "main_memory ramdisk s
      = s\<lparr>ROOT_DEV := uint (mem_short 0x901FC s), drive_info := read_mem 0x90080 32 s1, request_fn := f, rd_start := a, rd_length := l,
          phys := p, HIGH_MEMORY := h, mem_map := mm\<rparr>"
    by (simp add: t(2) s2_def s1_def)
  then show "\<exists>rd di f a l p h mm. main_memory ramdisk s
      = s\<lparr>ROOT_DEV := rd, drive_info := di, request_fn := f, rd_start := a, rd_length := l, phys := p, HIGH_MEMORY := h, mem_map := mm\<rparr>"
    by blast
  show "\<exists>t. main_memory ramdisk s = mem_init st m t" using \<open>main_memory ramdisk s = mem_init st m t\<close> by blast
qed

lemma main_init_steps:
  "main_init ramdisk s = do {
     s1 \<leftarrow> time_init (tty_init (blk_dev_init (trap_init (main_memory ramdisk s))));
     s2 \<leftarrow> buffer_init (fst (boot_sizes ramdisk s)) (sched_init s1);
     Some (floppy_init (set_trap_gate 0x26 Floppy_interrupt (hd_init (set_intr_gate 0x2E Hd_interrupt s2)))) }"
proof -
  have "mem_short 0x90002 (s\<lparr>ROOT_DEV := r, drive_info := d\<rparr>) = mem_short 0x90002 s" for r d
    by (simp add: mem_short_def mem_byte_def)
  then show ?thesis
    by (simp add: main_init_def main_memory_def boot_sizes_def Let_def split_beta)
qed

text \<open>
  What the kernel's own image and the task 0 must be like before \<open>main\<close>: its end lies between 4 KB and
  448 KB, no buffer is set up yet, the first task is in its slot, and the RAM disk, if there is one, is
  made of whole pages and leaves some main memory.
\<close>

definition before_main :: "int option \<Rightarrow> 'a machine_scheme \<Rightarrow> bool" where
  "before_main ramdisk s \<longleftrightarrow> 0x1000 \<le> unat (start_buffer s) \<and> unat (start_buffer s) \<le> 0x70000 \<and> nr_buffers s = 0
     \<and> length (task s) = NR_TASKS \<and> task s ! 0 = Some init_task
     \<and> 0 \<le> t_counter (tasks s init_task) \<and> 0 < t_priority (tasks s init_task)
     \<and> (let (b, st, m) = boot_sizes ramdisk s in b \<le> st \<and> st \<le> m \<and> st mod 4096 = 0)"

text \<open>The tables of the components after \<open>main\<close>.\<close>

definition booted :: "int \<Rightarrow> int \<Rightarrow> 'a machine_scheme \<Rightarrow> bool" where
  "booted st m s \<longleftrightarrow> mm_ok s \<and> (\<forall>j < PAGING_PAGES. mem_map s ! j = 0 \<longleftrightarrow> st \<le> uint (page_addr j) \<and> uint (page_addr j) < m)
     \<and> sched_ok s \<and> (\<forall>i \<in> {1..<NR_TASKS}. task s ! i = None)
     \<and> cache_ok s \<and> 2 \<le> nr_buffers s \<and> (\<forall>k < nr_buffers s. idle (buffers s k) \<and> b_dev (buffers s k) = 0)
     \<and> (\<forall>i < NR_REQUEST. r_dev (request s i) = -1 \<and> r_next (request s i) = None)
     \<and> request_fn s 2 = Some do_fd \<and> request_fn s 3 = Some do_hd"

text \<open>
  C10. The start-up. When the clock stands still while it is read, \<open>main\<close> reaches its \<open>sti\<close> with every table
  as its component needs it: the free pages are those of the main memory, only the first task exists, every
  buffer is idle and free, every request slot is free, the disk drivers are in their slots, the time is the
  one of the CMOS clock, and the interrupt table has a gate for each of the first 48 vectors and for the
  system calls, of which only the traps 3, 4, 5 and 0x80 may be called from user mode.
\<close>

theorem main_init_correct:
  assumes "clock cmos s" and pre: "before_main ramdisk s" and sizes: "boot_sizes ramdisk s = (b, st, m)"
  shows "\<exists>s'. main_init ramdisk s = Some s' \<and> booted st m s' \<and> startup_time s' = kernel_mktime (decoded cmos)
    \<and> (\<forall>n. idt s' n = gates (handler_addr s) (idt s) n)"
proof -
  have m: "m = memory_end_of (mem_short 0x90002 s)" and b: "b = buffer_memory_end_of m"
    using sizes by (auto simp: boot_sizes_def Let_def)
  have mb: "0x100000 \<le> m" "m \<le> 0x1000000" "m mod 4096 = 0" using memory_end_bounds [of "mem_short 0x90002 s"] m by auto
  have bb: "0x100000 \<le> b" "b \<le> 0x400000" using buffer_end_bounds [OF mb(1)] b by auto
  have st: "b \<le> st" "st \<le> m" "st mod 4096 = 0" using pre sizes by (auto simp: before_main_def)
  have sb: "0x1000 \<le> unat (start_buffer s)" "unat (start_buffer s) \<le> 0x70000" "nr_buffers s = 0"
    and tk: "length (task s) = NR_TASKS" "task s ! 0 = Some init_task"
      "0 \<le> t_counter (tasks s init_task)" "0 < t_priority (tasks s init_task)"
    using pre by (simp_all add: before_main_def)
  define s0 where "s0 = main_memory ramdisk s"
  obtain rd di f a l p h mm where s0: "s0 = s\<lparr>ROOT_DEV := rd, drive_info := di, request_fn := f, rd_start := a, rd_length := l,
      phys := p, HIGH_MEMORY := h, mem_map := mm\<rparr>"
    using main_memory_frame(1) [OF sizes] unfolding s0_def by blast
  obtain t where t: "s0 = mem_init st m t" using main_memory_frame(2) [OF sizes] unfolding s0_def by blast
  have mem: "mm_ok s0" "\<And>j. j < PAGING_PAGES \<Longrightarrow> mem_map s0 ! j = 0 \<longleftrightarrow> st \<le> uint (page_addr j) \<and> uint (page_addr j) < m"
    using mem_init_correct [of st m _ t] mem_init_correct [of st m 0 t] st bb mb unfolding t by auto
  define s1 where "s1 = trap_init s0"
  obtain o1 i1 where s1: "s1 = s0\<lparr>outs := o1, idt := i1\<rparr>"
    "\<And>n. i1 n = (if n < 48 then gate 15 (if n \<in> {3, 4, 5} then 3 else 0) (handler_addr s0 (trap_at n)) else idt s0 n)"
    using trap_init_frame [of s0] unfolding s1_def by blast
  define s2 where "s2 = blk_dev_init s1"
  obtain R where s2: "s2 = s1\<lparr>request := R\<rparr>"
    "\<And>i. i < NR_REQUEST \<Longrightarrow> r_dev (R i) = -1 \<and> r_next (R i) = None"
    using blk_dev_init_frame unfolding s2_def by blast
  define s3 where "s3 = tty_init s2"
  obtain o3 c3 where s3: "s3 = s2\<lparr>outs := o3, con := c3,
     idt := (idt s2)(0x24 := gate 14 0 (handler_addr s2 Rs1_interrupt), 0x23 := gate 14 0 (handler_addr s2 Rs2_interrupt),
              0x21 := gate 15 0 (handler_addr s2 Keyboard_interrupt))\<rparr>"
    using tty_init_frame unfolding s3_def by blast
  have "clock cmos s3" using assms(1) by (simp add: clock_def s3 s2(1) s1(1) s0)
  then obtain o4 where s4: "time_init s3 = Some (s3\<lparr>outs := o4, startup_time := kernel_mktime (decoded cmos)\<rparr>)"
    using time_init_frame by blast
  define s4 where "s4 = s3\<lparr>outs := o4, startup_time := kernel_mktime (decoded cmos)\<rparr>"
  have "task s4 = task s" "tasks s4 = tasks s" by (simp_all add: s4_def s3 s2(1) s1(1) s0)
  define s5 where "s5 = sched_init s4"
  obtain o5 g5 t5 where s5: "s5 = s4\<lparr>gdt := g5, task := t5, outs := o5,
     idt := (idt s4)(0x20 := gate 14 0 (handler_addr s4 Timer_interrupt), 0x80 := gate 15 3 (handler_addr s4 System_call))\<rparr>"
    "length t5 = NR_TASKS" "t5 ! 0 = Some init_task" "\<forall>i \<in> {1..<NR_TASKS}. t5 ! i = None"
    using sched_init_frame [of s4] tk \<open>task s4 = task s\<close> unfolding s5_def by auto
  have "start_buffer s5 = start_buffer s" "nr_buffers s5 = nr_buffers s"
    by (simp_all add: s5(1) s4_def s3 s2(1) s1(1) s0)
  then obtain s6 B n fl H where s6: "buffer_init b s5 = Some s6" "cache_ok s6" "2 \<le> nr_buffers s6"
    "\<And>k. k < nr_buffers s6 \<Longrightarrow> idle (buffers s6 k) \<and> b_dev (buffers s6 k) = 0"
    "s6 = s5\<lparr>buffers := B, nr_buffers := n, free_list := fl, hash_table := H\<rparr>"
    using buffer_init_spec [of s5 b] sb bb by auto
  define s7 where "s7 = set_intr_gate 0x2E Hd_interrupt s6"
  define s8 where "s8 = hd_init s7"
  obtain o8 where s8: "s8 = s7\<lparr>request_fn := (request_fn s7)(3 := Some do_hd), outs := o8\<rparr>"
    using disk_init_frame(1) unfolding s8_def by blast
  define s9 where "s9 = set_trap_gate 0x26 Floppy_interrupt s8"
  define s' where "s' = floppy_init s9"
  obtain o10 where s10: "s' = s9\<lparr>request_fn := (request_fn s9)(2 := Some do_fd), outs := o10\<rparr>"
    using disk_init_frame(2) unfolding s'_def by blast
  have run: "main_init ramdisk s = Some s'"
    using s4 s6(1) sizes
    by (simp add: main_init_steps s0_def [symmetric] s1_def [symmetric] s2_def [symmetric] s3_def [symmetric] s4_def [symmetric] s5_def [symmetric]
        s7_def [symmetric] s8_def [symmetric] s9_def [symmetric] s'_def [symmetric])
  note late = s10 s9_def s8 s7_def set_gates
  note early = s5(1) s4_def s3 s2(1) s1(1)
  have cache: "cache_ok s'" "nr_buffers s' = nr_buffers s6" "buffers s' = buffers s6"
    using s6(2) by (subst cache_ok_cong [of _ s6]) (simp_all add: late link_defs fun_eq_iff)
  have mm: "mem_map s' = mem_map s0" by (simp add: late s6(5) early)
  have tasks: "task s' = t5" "tasks s' = tasks s" by (simp_all add: late s6(5) early s0)
  have "p = init_task" if p: "Some p \<in> set t5" for p
  proof -
    obtain i where "i < NR_TASKS" "t5 ! i = Some p" using p s5(2) by (auto simp: in_set_conv_nth)
    then show ?thesis using s5(3,4) by (cases "i = 0") auto
  qed
  then have "sched_ok s'"
    using s5(2,3) tk(3,4) by (auto simp: sched_ok_def task_ptrs_def tasks)
  moreover have "idt s' n = gates (handler_addr s) (idt s) n" for n
    by (simp add: late s6(5) early s0 gates_def handler_at_def trap_at_def s1(2))
  moreover have "startup_time s' = kernel_mktime (decoded cmos)" by (simp add: late s6(5) early)
  moreover have "request s' = R" "request_fn s' 2 = Some do_fd" "request_fn s' 3 = Some do_hd" by (simp_all add: late s6(5) early)
  ultimately show ?thesis
    using run mem s5(4) cache s6(3,4) s2(2) by (intro exI [of _ s']) (simp add: booted_def mm tasks mm_ok_def)
qed

text \<open>A machine with 16 MB, no RAM disk, and a clock that stands at the first of January 1900.\<close>

definition boot_machine :: machine where
  "boot_machine = fdd.extend (hdd.extend boot_hdd
     \<lparr>fd_recalibrate = False, fd_reset = False, fd_seek = False, reply_buffer = [], cur_spec1 = -1, cur_rate = -1, floppy = fd_kind 0 0 0 0 0 0 0 0,
      current_drive = 0, fd_sector = 0, fd_head = 0, fd_track = 0, seek_track = 0, current_track = 255, fd_command = 0,
      wait_on_floppy_select = None, do_floppy = None, tmp_floppy_area = [], data_addr = (\<lambda>_. 0)\<rparr>)
     \<lparr>idt = (\<lambda>_. (0, 0)), handler_addr = (\<lambda>_. 0), drive_info = []\<rparr>"

definition power_on :: machine where
  "power_on = boot_machine\<lparr>phys := (\<lambda>_. 0)(0x24000 := 0x3c000000), nr_buffers := 0, start_buffer := 0x20000,
     current := init_task, task := Some init_task # replicate 63 None, tasks := (\<lambda>_. INIT_TASK), device := (\<lambda>_ _. 0)\<rparr>"

lemma power_on_sizes: "boot_sizes None power_on = (0x400000, 0x400000, 0x1000000)"
proof -
  have "mem_short 0x90002 power_on = 0x3c00" by (simp add: mem_short_def mem_byte_def power_on_def)
  then show ?thesis by (simp add: boot_sizes_def memory_end_of_def buffer_memory_end_of_def)
qed

theorem main_init_correct_witness: "\<exists>s'. main_init None power_on = Some s' \<and> booted 0x400000 0x1000000 s'"
proof -
  have "before_main None power_on"
    unfolding before_main_def power_on_sizes by (simp add: power_on_def INIT_TASK_def)
  moreover have "clock (\<lambda>_. 0) power_on" by (simp add: clock_def power_on_def)
  ultimately show ?thesis using main_init_correct [OF _ _ power_on_sizes] by blast
qed

end
