(* ===== verification/Syscall_Correct.thy ===== *)
theory Syscall_Correct
  imports Syscall Exec_Args Boot_Correct
begin

text \<open>
  What a system call may do to the registers of its caller, and the frame that the handler of a signal finds.
\<close>

subsection \<open>The registers\<close>

definition user_frame :: "trap_frame \<Rightarrow> trap_frame \<Rightarrow> bool" where
  "user_frame f f' \<longleftrightarrow> f' = f\<lparr>fr_eax := fr_eax f', fr_eip := fr_eip f', fr_esp := fr_esp f'\<rparr>"

lemma user_frame_simps [simp, intro]:
  "user_frame f f" "user_frame f (f\<lparr>fr_eax := a\<rparr>)" "user_frame f (f\<lparr>fr_eip := e, fr_esp := p\<rparr>)"
  by (simp_all add: user_frame_def)

lemma user_frame_trans: "user_frame f g \<Longrightarrow> user_frame g h \<Longrightarrow> user_frame f h"
  by (cases f; cases g; cases h) (simp add: user_frame_def)

lemma user_frame_fields:
  assumes "user_frame f f'"
  shows "fr_cs f' = fr_cs f" "fr_ss f' = fr_ss f" "fr_eflags f' = fr_eflags f" "fr_ds f' = fr_ds f" "fr_es f' = fr_es f"
    "fr_fs f' = fr_fs f" "fr_ebx f' = fr_ebx f" "fr_ecx f' = fr_ecx f" "fr_edx f' = fr_edx f"
  using assms by (cases f; cases f'; simp add: user_frame_def)+

lemma bind_SomeE:
  assumes "Option.bind x f = Some y"
  obtains a where "x = Some a" "f a = Some y"
  using assms by (auto simp: bind_eq_Some_conv)

lemma exec_error_frame:
  "exec_error1 e page f s = Some (v, f', s') \<Longrightarrow> user_frame f f'"
  "exec_error2 io i e page f t = Some (v, f', t') \<Longrightarrow> user_frame f f'"
  by (auto simp: exec_error1_def exec_error2_def bind_eq_Some_conv)

lemma exec_start_frame: "exec_start io i ex u g argc envc p page img f s = Some (v, f', s') \<Longrightarrow> user_frame f f'"
  unfolding exec_start_def Let_def by (auto elim!: bind_SomeE split: prod.split_asm)

lemma exec_binary_frame:
  "exec_binary io i ex u g argc envc argv envp b p page img f s = Some (v, f', s') \<Longrightarrow> user_frame f f'"
  unfolding exec_binary_def
  by (auto elim!: bind_SomeE split: if_split_asm prod.split_asm dest!: exec_error_frame exec_start_frame)

lemma exec_interp_frame:
  "exec_interp io i argc envc argv envp p page img f s = Some (v, f', s') \<Longrightarrow> user_frame f f'"
  unfolding exec_interp_def Let_def
  by (auto elim!: bind_SomeE split: sum.split_asm prod.split_asm dest!: exec_error_frame exec_binary_frame)

lemma exec_script_frame:
  "exec_script io d n argc envc argv envp p page img f s = Some (v, f', s') \<Longrightarrow> user_frame f f'"
  unfolding exec_script_def Let_def
  by (auto elim!: bind_SomeE split: option.split_asm if_split_asm prod.split_asm dest!: exec_error_frame exec_interp_frame)

lemma do_execve_frame: "do_execve io img f n argv envp s = Some (v, f', s') \<Longrightarrow> user_frame f f'"
  unfolding do_execve_def Let_def
  by (auto elim!: bind_SomeE split: option.split_asm sum.split_asm if_split_asm prod.split_asm dest!: exec_error_frame exec_script_frame exec_binary_frame)

definition keeps_frame :: "(trap_frame \<Rightarrow> bool) \<Rightarrow> 's call_result \<Rightarrow> bool" where
  "keeps_frame P x \<longleftrightarrow> (\<forall>v f' s'. x = Some (Inl (v, f', s')) \<longrightarrow> P f')"

lemma keeps_frame_simps:
  "P f \<Longrightarrow> keeps_frame P (returns f x)" "keeps_frame P None" "keeps_frame P (map_option Inr y)"
  by (auto simp: keeps_frame_def returns_def)

lemma keeps_frame_execve: "keeps_frame (user_frame f) (sys_execve k f n argv envp s)"
  by (auto simp: keeps_frame_def sys_execve_def dest: do_execve_frame)

lemma table_length: "length (sys_call_table k r f s) = 72"
  by (simp add: sys_call_table_def Let_def)

lemma table_keeps:
  "list_all (keeps_frame (user_frame f)) (sys_call_table k r f s)"
  "list_all (keeps_frame (\<lambda>f'. f' = f)) ((sys_call_table k r f s)[11 := None])"
  by (simp_all add: sys_call_table_def Let_def keeps_frame_simps keeps_frame_execve)

lemma table_frame:
  assumes "sys_call_table k r f s ! n = Some (Inl (v, f', s'))" "n \<le> 71"
  shows "user_frame f f' \<and> (n \<noteq> 11 \<longrightarrow> f' = f)"
proof
  show "user_frame f f'"
    using table_keeps(1) [of f k r s] assms(1) le_imp_less_Suc [OF assms(2)] unfolding list_all_length keeps_frame_def table_length by auto
  have "f' = f" if "n \<noteq> 11"
  proof -
    have "(sys_call_table k r f s)[11 := None] ! n = Some (Inl (v, f', s'))" using assms that by (simp add: nth_list_update)
    moreover have "keeps_frame (\<lambda>f'. f' = f) ((sys_call_table k r f s)[11 := None] ! n)"
      using table_keeps(2) [of f k r s] assms(2) by (simp add: list_all_length table_length)
    ultimately show ?thesis by (auto simp: keeps_frame_def)
  qed
  then show "n \<noteq> 11 \<longrightarrow> f' = f" by blast
qed

text \<open>A frame in which the caller goes on, or in which the handler of a pending signal runs.\<close>

definition takes_signal :: "trap_frame \<Rightarrow> trap_frame \<Rightarrow> 'a sched_scheme \<Rightarrow> nat \<Rightarrow> bool" where
  "takes_signal f f' s n \<longleftrightarrow> Some (current s) \<noteq> task s ! 0 \<and> bit (t_signal (cur_task s)) n \<and> \<not> bit (t_blocked (cur_task s)) n
     \<and> fr_eip f' = sa_handler (sig_action (n + 1) s) \<and> (fr_esp f' = fr_esp f - 28 \<or> fr_esp f' = fr_esp f - 32)"

lemma low_bit_Some: "low_bit w = Some n \<longleftrightarrow> n < 32 \<and> bit w n \<and> (\<forall>m < n. \<not> bit w m)"
proof
  assume "low_bit w = Some n"
  then show "n < 32 \<and> bit w n \<and> (\<forall>m < n. \<not> bit w m)"
    unfolding low_bit_def find_Some_iff by auto
next
  assume "n < 32 \<and> bit w n \<and> (\<forall>m < n. \<not> bit w m)"
  then show "low_bit w = Some n"
    unfolding low_bit_def find_Some_iff by (intro exI [of _ n]) auto
qed

lemma ret_frame:
  assumes "ret_from_sys_call io f s = Some (Inl (f', s'))"
  shows "f' = f \<or> user_frame f f' \<and> fr_eax f' = fr_eax f \<and> (\<exists>n. takes_signal f f' s n)"
proof (cases "Some (current s) = task s ! 0 \<or> fr_cs f AND 0xffff \<noteq> 0xf \<or> fr_ss f AND 0xffff \<noteq> 0x17
    \<or> low_bit (t_signal (cur_task s) AND NOT (t_blocked (cur_task s))) = None")
  case True
  then show ?thesis using assms by (auto simp: ret_from_sys_call_def split: if_splits)
next
  case False
  then obtain n where n: "low_bit (t_signal (cur_task s) AND NOT (t_blocked (cur_task s))) = Some n" by auto
  define t where "t = update_task (current s) (\<lambda>t. t\<lparr>t_signal := unset_bit n (t_signal t)\<rparr>) s"
  have d: "do_signal io (n + 1) f t = Some (Inl (f', s'))"
    using assms False n by (auto simp: ret_from_sys_call_def t_def)
  have sa: "sig_action (n + 1) t = sig_action (n + 1) s" by (simp add: t_def sig_action_def)
  have "f' = f \<or> f' = f\<lparr>fr_eip := sa_handler (sig_action (n + 1) t), fr_esp := fr_esp f - 28\<rparr>
      \<or> f' = f\<lparr>fr_eip := sa_handler (sig_action (n + 1) t), fr_esp := fr_esp f - 32\<rparr>"
    using d unfolding do_signal_def Let_def by (auto simp: bind_eq_Some_conv split: if_splits)
  moreover have "bit (t_signal (cur_task s)) n" "\<not> bit (t_blocked (cur_task s)) n"
    using n by (auto simp: low_bit_Some bit_simps)
  ultimately show ?thesis using False unfolding takes_signal_def sa by auto
qed


definition boot_kernel :: "machine kernel" where
  "boot_kernel = \<lparr>k_io = machine_io 1 1 (\<lambda>_ _. None), k_tty = tty_write_fn 1, k_pad = replicate 16 0, k_img = (\<lambda>_. 0)\<rparr>"

definition call_frame :: "u32 \<Rightarrow> trap_frame" where
  "call_frame nr = \<lparr>fr_eax = nr, fr_ebx = 0, fr_ecx = 0, fr_edx = 0, fr_fs = 0x17, fr_es = 0x17, fr_ds = 0x17, fr_eip = 0x1000,
     fr_cs = 0xf, fr_eflags = 0x202, fr_esp = 0x8000, fr_ss = 0x17\<rparr>"


subsection \<open>The frame of a handler\<close>

lemma put_longs_written:
  "unat a + 4 * length vs < 2 ^ 32 \<Longrightarrow> outside (unat a) (unat a + 4 * length vs) s (put_longs vs a s)
     \<and> (\<forall>i < length vs. get_fs_long (a + 4 * of_nat i) (put_longs vs a s) = vs ! i)"
proof (induction vs arbitrary: a s)
  case (Cons v vs)
  let ?s = "put_fs_long v a s"
  have a4: "unat (a + 4) = unat a + 4" using Cons.prems unat_plus_small [of a 4] by simp
  have IH: "outside (unat a + 4) (unat a + 4 * length (v # vs)) ?s (put_longs vs (a + 4) ?s)"
    "\<And>i. i < length vs \<Longrightarrow> get_fs_long (a + 4 + 4 * of_nat i) (put_longs vs (a + 4) ?s) = vs ! i"
    using Cons.IH [of "a + 4" ?s] Cons.prems by (simp_all add: a4 add.assoc)
  have o: "outside (unat a) (unat a + 4) s ?s" using Cons.prems by (intro outside_put) simp
  have "outside (unat a) (unat a + 4 * length (v # vs)) s (put_longs vs (a + 4) ?s)"
    by (rule outside_trans [OF outside_weaken [OF o] outside_weaken [OF IH(1)]]) simp_all
  moreover have "get_fs_long (a + 4 * of_nat i) (put_longs vs (a + 4) ?s) = (v # vs) ! i" if "i < length (v # vs)" for i
  proof (cases i)
    case 0
    have "get_fs_long a (put_longs vs (a + 4) ?s) = get_fs_long a ?s"
      using Cons.prems by (intro outside_get [OF IH(1)]) simp_all
    then show ?thesis using 0 by (simp add: get_put_fs_long)
  next
    case (Suc j)
    then show ?thesis using IH(2) [of j] that by (simp add: algebra_simps)
  qed
  ultimately show ?case by simp
qed (simp add: outside_refl)

text \<open>What a handler finds on its stack, and the task when the signal has been taken.\<close>

definition handler_frame :: "nat \<Rightarrow> sigaction \<Rightarrow> u32 \<Rightarrow> trap_frame \<Rightarrow> u32 list" where
  "handler_frame n sa blocked f =
     [sa_restorer sa, of_nat (n + 1)] @ (if sa_flags sa AND SA_NOMASK \<noteq> 0 then [] else [blocked])
       @ [fr_eax f, fr_ecx f, fr_edx f, fr_eflags f, fr_eip f]"

definition taken :: "nat \<Rightarrow> 'a sched_scheme \<Rightarrow> 'a sched_scheme" where
  "taken n s = update_task (current s) (\<lambda>t. t\<lparr>t_signal := unset_bit n (t_signal t), t_sigaction := (t_sigaction t)
     [n := (let sa = t_sigaction t ! n in if sa_flags sa AND SA_ONESHOT \<noteq> 0 then sa\<lparr>sa_handler := 0\<rparr> else sa)]\<rparr>) s"

text \<open>
  C15. The delivery of a signal. When a task returns to user mode, the least signal that is pending and not
  blocked and whose handler is a function of the program is taken: the program goes on in the handler, its
  stack below the old one holds the restorer, the number of the signal, the blocked signals unless they are
  not to be masked, and the registers that the restorer pops; nothing else of the user's memory changes. The
  signal is no longer pending, the mask of its action is blocked, and a one-shot handler is reset.
\<close>

theorem signal_delivery:
  assumes user: "Some (current s) \<noteq> task s ! 0" "fr_cs f AND 0xffff = 0xf" "fr_ss f AND 0xffff = 0x17"
    and pending: "n < 32" "bit (t_signal (cur_task s)) n" "\<not> bit (t_blocked (cur_task s)) n"
      "\<And>m. m < n \<Longrightarrow> bit (t_signal (cur_task s)) m \<Longrightarrow> bit (t_blocked (cur_task s)) m"
    and sa: "sa = t_sigaction (cur_task s) ! n" "sa_handler sa \<noteq> 0" "sa_handler sa \<noteq> 1"
    and w: "w = handler_frame n sa (t_blocked (cur_task s)) f" "esp = fr_esp f - 4 * of_nat (length w)" "32 \<le> unat (fr_esp f)"
    and area: "verify_area esp (4 * int (length w)) (taken n s) = Some s1"
  shows "\<exists>s'. ret_from_sys_call io f s = Some (Inl (f\<lparr>fr_eip := sa_handler sa, fr_esp := esp\<rparr>, s'))
    \<and> (\<forall>i < length w. get_fs_long (esp + 4 * of_nat i) s' = w ! i)
    \<and> (\<forall>a. unat a < unat esp \<or> unat (fr_esp f) \<le> unat a \<longrightarrow> umem s' a = umem s a)
    \<and> cur_task s' = (cur_task (taken n s))\<lparr>t_blocked := t_blocked (cur_task s) OR sa_mask sa\<rparr>"
proof -
  let ?nomask = "sa_flags sa AND SA_NOMASK \<noteq> 0"
  define t where "t = update_task (current s) (\<lambda>t. t\<lparr>t_signal := unset_bit n (t_signal t)\<rparr>) s"
  have lb: "low_bit (t_signal (cur_task s) AND NOT (t_blocked (cur_task s))) = Some n"
    using pending by (auto simp: low_bit_Some bit_simps)
  have act: "sig_action (n + 1) t = sa" by (simp add: sig_action_def t_def sa(1))
  have tk: "(if sa_flags sa AND SA_ONESHOT \<noteq> 0 then set_sig_action (n + 1) (sa\<lparr>sa_handler := 0\<rparr>) t else t) = taken n s"
    by (simp add: taken_def set_sig_action_def t_def sa(1) update_task_def Let_def)
  have len: "length w = (if ?nomask then 7 else 8)" by (simp add: w(1) handler_frame_def)
  have u: "unat esp + 4 * length w = unat (fr_esp f)"
    using w(3) by (auto simp: w(2) len unat_sub word_le_nat_alt split: if_splits)
  obtain m p where s1: "s1 = taken n s\<lparr>mem_map := m, phys := p\<rparr>" using mem_only_verify_area [OF area] by (rule mem_onlyE)
  have cur: "current s1 = current s" "t_blocked (cur_task s1) = t_blocked (cur_task s)" "umem s1 = umem s"
    by (simp_all add: s1 taken_def)
  define s2 where "s2 = put_longs w esp s1"
  have put: "outside (unat esp) (unat (fr_esp f)) s1 s2" "\<And>i. i < length w \<Longrightarrow> get_fs_long (esp + 4 * of_nat i) s2 = w ! i"
    using put_longs_written [of esp w s1] unsigned_less [of "fr_esp f"] unfolding s2_def u by auto
  obtain mm where s2: "s2 = s1\<lparr>umem := mm\<rparr>" using put(1) by (auto simp: outside_def)
  define s' where "s' = update_task (current s2) (\<lambda>t. t\<lparr>t_blocked := t_blocked t OR sa_mask sa\<rparr>) s2"
  have esp: "fr_esp f - (if ?nomask then 28 else 32) = esp" by (simp add: w(2) len)
  have "verify_area esp (if ?nomask then 28 else 32) (taken n s) = Some s1" using area by (simp add: len split: if_splits)
  moreover have "put_longs ([sa_restorer sa, of_nat (n + 1)] @ (if ?nomask then [] else [t_blocked (cur_task s1)])
      @ [fr_eax f, fr_ecx f, fr_edx f, fr_eflags f, fr_eip f]) esp s1 = s2"
    by (simp add: s2_def w(1) handler_frame_def cur(2))
  ultimately have "do_signal io (n + 1) f t = Some (Inl (f\<lparr>fr_eip := sa_handler sa, fr_esp := esp\<rparr>, s'))"
    using sa(2,3) unfolding do_signal_def Let_def act tk esp by (simp add: s'_def)
  then have "ret_from_sys_call io f s = Some (Inl (f\<lparr>fr_eip := sa_handler sa, fr_esp := esp\<rparr>, s'))"
    using user lb by (simp add: ret_from_sys_call_def t_def)
  moreover have "get_fs_long (esp + 4 * of_nat i) s' = w ! i" if "i < length w" for i
    using put(2) [OF that] by (simp add: s'_def get_fs_long_def)
  moreover have "umem s' a = umem s a" if "unat a < unat esp \<or> unat (fr_esp f) \<le> unat a" for a
    using put(1) that by (auto simp: s'_def outside_def cur(3))
  moreover have "cur_task s' = (cur_task (taken n s))\<lparr>t_blocked := t_blocked (cur_task s) OR sa_mask sa\<rparr>"
    by (simp add: s'_def s2 s1) (simp add: taken_def)
  ultimately show ?thesis by blast
qed

text \<open>A task 1 that has a handler for the signal 2, which is pending.\<close>

definition signalled :: machine where
  "signalled = power_on\<lparr>task := Some 0 # Some 1 # replicate 62 None, current := 1, phys := (\<lambda>_. 0),
     tasks := (\<lambda>_. INIT_TASK\<lparr>t_signal := 2, t_sigaction := replicate 32
       \<lparr>sa_handler = 0x2000, sa_mask = 4, sa_flags = SA_ONESHOT, sa_restorer = 0x3000\<rparr>\<rparr>)\<rparr>"

theorem signal_delivery_witness:
  "\<exists>s'. ret_from_sys_call (machine_io 1 1 (\<lambda>_ _. None)) (call_frame 20) signalled
       = Some (Inl ((call_frame 20)\<lparr>fr_eip := 0x2000, fr_esp := 0x7fe0\<rparr>, s'))
     \<and> get_fs_long 0x7fe0 s' = 0x3000 \<and> t_blocked (cur_task s') = 4"
proof -
  have t: "current signalled = 1" "task signalled ! 0 = Some 0" "t_signal (cur_task signalled) = 2" "t_blocked (cur_task signalled) = 0"
    "t_sigaction (cur_task signalled) ! 1 = \<lparr>sa_handler = 0x2000, sa_mask = 4, sa_flags = SA_ONESHOT, sa_restorer = 0x3000\<rparr>"
    by (simp_all add: signalled_def INIT_TASK_def)
  have v: "verify_area 0x7fe0 32 (taken 1 signalled) = Some (taken 1 signalled)"
    by (simp add: verify_area_def wrap32_id Let_def write_verify_def mem_long_def taken_def signalled_def INIT_TASK_def upt_rec)
  have p: "\<not> bit (2 :: u32) 0" "bit (2 :: u32) (Suc 0)" by simp_all
  let ?f = "call_frame 20" and ?w = "[0x3000, 2, 0, 20, 0, 0, 0x202, 0x1000] :: u32 list"
  have w: "?w = handler_frame 1 (t_sigaction (cur_task signalled) ! 1) (t_blocked (cur_task signalled)) ?f"
    using t by (simp add: handler_frame_def call_frame_def)
  have v': "verify_area 0x7fe0 (4 * int (length ?w)) (taken 1 signalled) = Some (taken 1 signalled)" using v by simp
  obtain s' where s': "ret_from_sys_call (machine_io 1 1 (\<lambda>_ _. None)) ?f signalled = Some (Inl (?f\<lparr>fr_eip := 0x2000, fr_esp := 0x7fe0\<rparr>, s'))"
    "\<forall>i < length ?w. get_fs_long (0x7fe0 + 4 * of_nat i) s' = ?w ! i" "t_blocked (cur_task s') = 4"
    using signal_delivery [OF _ _ _ _ _ _ _ refl _ _ w _ _ v', of "machine_io 1 1 (\<lambda>_ _. None)"] t by (auto simp: call_frame_def)
  moreover have "get_fs_long 0x7fe0 s' = 0x3000" using s'(2) [rule_format, of 0] by simp
  ultimately show ?thesis by blast
qed

end
