(* ===== verification/Vsprintf.thy ===== *)
theory Vsprintf
  imports Prelude
begin

text \<open>
  \<open>kernel/vsprintf.c\<close>: the formatter behind \<open>printk()\<close>. Characters are HOL characters,
  a \<open>char *\<close> into the format is the rest of the string (the empty list stands at the
  terminating zero byte), the variadic arguments are the 32-bit words that \<open>va_arg\<close> takes
  off the stack one by one (running out of them is undefined behaviour in C and \<open>None\<close>
  here), and \<open>strat\<close> is the C string at an address. Each function returns the characters
  that the C code stores through \<open>str\<close>. The flags and widths are C \<open>int\<close>s.
\<close>

subsection \<open>Numbers\<close>

abbreviation (input) ZEROPAD :: int where "ZEROPAD \<equiv> 1"
abbreviation (input) SIGN :: int where "SIGN \<equiv> 2"
abbreviation (input) PLUS :: int where "PLUS \<equiv> 4"
abbreviation (input) SPACE :: int where "SPACE \<equiv> 8"
abbreviation (input) LEFT :: int where "LEFT \<equiv> 16"
abbreviation (input) SPECIAL :: int where "SPECIAL \<equiv> 32"
abbreviation (input) SMALL :: int where "SMALL \<equiv> 64"

definition is_digit :: "char \<Rightarrow> bool" where
  "is_digit c \<longleftrightarrow> 48 \<le> (of_char c :: nat) \<and> (of_char c :: nat) \<le> 57"

fun skip_atoi :: "int \<Rightarrow> string \<Rightarrow> int \<times> string" where
  "skip_atoi i [] = (i, [])"
| "skip_atoi i (c # s) =
     (if is_digit c then skip_atoi (wrap32 (i * 10 + of_char c - 48)) s else (i, c # s))"

text \<open>The \<open>divl\<close> of \<open>do_div\<close>: unsigned quotient and remainder.\<close>

definition do_div :: "u32 \<Rightarrow> u32 \<Rightarrow> u32 \<times> u32" where
  "do_div n base = (n div base, n mod base)"

text \<open>
  \<open>while (num!=0) tmp[i++] = digits[do_div(num,base)]\<close>: least significant digit first.
  The test \<open>base < 2\<close> only makes the recursion total: \<open>number\<close> has returned by then.
\<close>

function tmp_digits :: "string \<Rightarrow> u32 \<Rightarrow> u32 \<Rightarrow> string" where
  "tmp_digits digits base num =
     (if num = 0 \<or> base < 2 then []
      else let (q, r) = do_div num base in (digits ! unat r) # tmp_digits digits base q)"
  by pat_completeness auto
termination
proof (relation "measure (\<lambda>(digits, base, num). unat num)")
  fix digits :: string and base num :: u32 and p q r
  assume *: "\<not> (num = 0 \<or> base < 2)" "p = do_div num base" "(q, r) = p"
  then have "2 \<le> unat base" "0 < unat num"
    by (auto simp: word_less_nat_alt unat_gt_0 not_less)
  then have "unat num div unat base < unat num" by (intro div_less_dividend) auto
  with * show "((digits, base, q), (digits, base, num)) \<in> measure (\<lambda>(digits, base, num). unat num)"
    by (simp add: do_div_def unat_div_distrib)
qed simp

declare tmp_digits.simps [simp del]

text \<open>\<open>while(size-->0) *str++ = c\<close>: the characters stored and \<open>size\<close> after the loop.\<close>

definition pad_loop :: "char \<Rightarrow> int \<Rightarrow> string \<times> int" where
  "pad_loop c sz = (replicate (nat sz) c, min sz 0 - 1)"

definition upper_digits :: string where
  "upper_digits = ''0123456789ABCDEFGHIJKLMNOPQRSTUVWXYZ''"

definition lower_digits :: string where
  "lower_digits = ''0123456789abcdefghijklmnopqrstuvwxyz''"

definition number :: "u32 \<Rightarrow> int \<Rightarrow> int \<Rightarrow> int \<Rightarrow> int \<Rightarrow> string option" where
  "number num base sz precision type =
    (let digits = (if type AND SMALL \<noteq> 0 then lower_digits else upper_digits);
         type = (if type AND LEFT \<noteq> 0 then type AND NOT ZEROPAD else type)
     in if base < 2 \<or> base > 36 then None
     else
       let c = (if type AND ZEROPAD \<noteq> 0 then CHR ''0'' else CHR '' '');
           (sign, num) =
             (if type AND SIGN \<noteq> 0 \<and> sint num < 0 then ([CHR ''-''], - num)
              else (if type AND PLUS \<noteq> 0 then [CHR ''+'']
                    else if type AND SPACE \<noteq> 0 then [CHR '' ''] else [], num));
           sz = (if sign \<noteq> [] then sz - 1 else sz);
           sz = (if type AND SPECIAL \<noteq> 0
                   then if base = 16 then sz - 2 else if base = 8 then sz - 1 else sz
                   else sz);
           tmp = (if num = 0 then ''0'' else tmp_digits digits (of_int base) num);
           i = int (length tmp);
           precision = (if i > precision then i else precision);
           sz = sz - precision;
           (pad1, sz) = (if type AND (ZEROPAD + LEFT) = 0 then pad_loop (CHR '' '') sz
                           else ([], sz));
           special = (if type AND SPECIAL \<noteq> 0
                      then if base = 8 then ''0''
                           else if base = 16 then [CHR ''0'', digits ! 33] else []
                      else []);
           (pad2, sz) = (if type AND LEFT = 0 then pad_loop c sz else ([], sz));
           zeros = replicate (nat (precision - i)) (CHR ''0'');
           (pad3, sz) = pad_loop (CHR '' '') sz
       in Some (pad1 @ sign @ special @ pad2 @ zeros @ rev tmp @ pad3))"

subsection \<open>The format\<close>

text \<open>The \<open>switch\<close> after the label \<open>repeat\<close>, on the characters after the percent sign.\<close>

fun get_flags :: "int \<Rightarrow> string \<Rightarrow> int \<times> string" where
  "get_flags flags [] = (flags, [])"
| "get_flags flags (c # fmt) =
     (if c = CHR ''-'' then get_flags (flags OR LEFT) fmt
      else if c = CHR ''+'' then get_flags (flags OR PLUS) fmt
      else if c = CHR '' '' then get_flags (flags OR SPACE) fmt
      else if c = CHR ''#'' then get_flags (flags OR SPECIAL) fmt
      else if c = CHR ''0'' then get_flags (flags OR ZEROPAD) fmt
      else (flags, c # fmt))"

fun va_arg :: "u32 list \<Rightarrow> (u32 \<times> u32 list) option" where
  "va_arg [] = None"
| "va_arg (a # args) = Some (a, args)"

text \<open>The current character, the zero byte at the end of the format.\<close>

definition cur :: "string \<Rightarrow> char" where
  "cur fmt = (case fmt of [] \<Rightarrow> char_of (0::nat) | c # _ \<Rightarrow> c)"

text \<open>The field width. For \<open>*\<close> the code takes the argument and leaves \<open>fmt\<close> at the star.\<close>

definition get_width ::
  "int \<Rightarrow> string \<Rightarrow> u32 list \<Rightarrow> (int \<times> int \<times> string \<times> u32 list) option" where
  "get_width flags fmt args =
     (if is_digit (cur fmt)
      then let (field_width, fmt) = skip_atoi 0 fmt in Some (field_width, flags, fmt, args)
      else if cur fmt = CHR ''*''
      then do {
        (a, args) \<leftarrow> va_arg args;
        let field_width = sint a;
        if field_width < 0 then Some (wrap32 (- field_width), flags OR LEFT, fmt, args)
        else Some (field_width, flags, fmt, args)
      }
      else Some (-1, flags, fmt, args))"

definition get_precision :: "string \<Rightarrow> u32 list \<Rightarrow> (int \<times> string \<times> u32 list) option" where
  "get_precision fmt args =
     (if cur fmt = CHR ''.''
      then do {
        let fmt = tl fmt;
        (precision, fmt, args) \<leftarrow>
          (if is_digit (cur fmt)
           then let (p, fmt) = skip_atoi 0 fmt in Some (p, fmt, args)
           else if cur fmt = CHR ''*''
           then do { (a, args) \<leftarrow> va_arg args; Some (sint a, fmt, args) }
           else Some (-1, fmt, args));
        Some (if precision < 0 then 0 else precision, fmt, args)
      }
      else Some (-1, fmt, args))"

text \<open>The conversion qualifier is skipped and never looked at again.\<close>

definition skip_qualifier :: "string \<Rightarrow> string" where
  "skip_qualifier fmt =
     (if cur fmt = CHR ''h'' \<or> cur fmt = CHR ''l'' \<or> cur fmt = CHR ''L'' then tl fmt else fmt)"

definition conv_c :: "int \<Rightarrow> int \<Rightarrow> u32 \<Rightarrow> string" where
  "conv_c flags field_width a =
     (let (pad1, field_width) =
            (if flags AND LEFT = 0 then (replicate (nat (field_width - 1)) (CHR '' ''), min (field_width - 1) 0)
             else ([], field_width))
      in pad1 @ [char_of (unat a mod 256)] @ replicate (nat (field_width - 1)) (CHR '' ''))"

definition conv_s :: "int \<Rightarrow> int \<Rightarrow> int \<Rightarrow> string \<Rightarrow> string" where
  "conv_s flags field_width precision s =
     (let len = int (length s);
          len = (if precision < 0 then len else if len > precision then precision else len);
          (pad1, field_width) =
            (if flags AND LEFT = 0
             then (replicate (nat (field_width - len)) (CHR '' ''), min field_width len - 1)
             else ([], field_width))
      in pad1 @ take (nat len) s @ replicate (nat (field_width - len)) (CHR '' ''))"

text \<open>
  The \<open>switch\<close> on the conversion character: what is appended to the output, the stores of
  \<open>%n\<close>, the rest of the format and the arguments left.
\<close>

definition convert ::
  "(u32 \<Rightarrow> string) \<Rightarrow> nat \<Rightarrow> int \<Rightarrow> int \<Rightarrow> int \<Rightarrow> string \<Rightarrow> u32 list
     \<Rightarrow> (string \<times> (u32 \<times> int) list \<times> string \<times> u32 list) option" where
  "convert strat n flags field_width precision fmt args =
     (let c = cur fmt in
      if c = CHR ''c'' then
        do { (a, args) \<leftarrow> va_arg args; Some (conv_c flags field_width a, [], tl fmt, args) }
      else if c = CHR ''s'' then
        do { (a, args) \<leftarrow> va_arg args;
             Some (conv_s flags field_width precision (strat a), [], tl fmt, args) }
      else if c = CHR ''o'' then
        do { (a, args) \<leftarrow> va_arg args;
             str \<leftarrow> number a 8 field_width precision flags; Some (str, [], tl fmt, args) }
      else if c = CHR ''p'' then
        do { let (field_width, flags) =
                   (if field_width = -1 then (8, flags OR ZEROPAD) else (field_width, flags));
             (a, args) \<leftarrow> va_arg args;
             str \<leftarrow> number a 16 field_width precision flags; Some (str, [], tl fmt, args) }
      else if c = CHR ''x'' \<or> c = CHR ''X'' then
        do { let flags = (if c = CHR ''x'' then flags OR SMALL else flags);
             (a, args) \<leftarrow> va_arg args;
             str \<leftarrow> number a 16 field_width precision flags; Some (str, [], tl fmt, args) }
      else if c = CHR ''d'' \<or> c = CHR ''i'' \<or> c = CHR ''u'' then
        do { let flags = (if c = CHR ''u'' then flags else flags OR SIGN);
             (a, args) \<leftarrow> va_arg args;
             str \<leftarrow> number a 10 field_width precision flags; Some (str, [], tl fmt, args) }
      else if c = CHR ''n'' then
        do { (a, args) \<leftarrow> va_arg args; Some ([], [(a, int n)], tl fmt, args) }
      else
        Some ((if c \<noteq> CHR ''%'' then ''%'' else []) @ (if fmt = [] then [] else [c]), [], tl fmt, args))"

definition conversion ::
  "(u32 \<Rightarrow> string) \<Rightarrow> nat \<Rightarrow> string \<Rightarrow> u32 list
     \<Rightarrow> (string \<times> (u32 \<times> int) list \<times> string \<times> u32 list) option" where
  "conversion strat n fmt args =
     do { let (flags, fmt) = get_flags 0 fmt;
          (field_width, flags, fmt, args) \<leftarrow> get_width flags fmt args;
          (precision, fmt, args) \<leftarrow> get_precision fmt args;
          let fmt = skip_qualifier fmt;
          convert strat n flags field_width precision fmt args }"

lemma skip_atoi_length: "length (snd (skip_atoi i s)) \<le> length s"
  by (induction i s rule: skip_atoi.induct) auto

lemma get_flags_length: "length (snd (get_flags i s)) \<le> length s"
  by (induction i s rule: get_flags.induct) auto

lemma get_width_length: "get_width flags s args = Some (w, fl, s', args') \<Longrightarrow> length s' \<le> length s"
  using skip_atoi_length [of 0 s]
  by (auto simp: get_width_def Let_def bind_Some_iff split: if_splits prod.splits)

lemma get_precision_length: "get_precision s args = Some (p, s', args') \<Longrightarrow> length s' \<le> length s"
  using skip_atoi_length [of 0 "tl s"]
  by (fastforce simp: get_precision_def Let_def bind_Some_iff split: if_splits prod.splits)

lemma convert_length:
  "convert strat n fl w p s args = Some (out, ws, s', args') \<Longrightarrow> length s' \<le> length s"
  by (auto simp: convert_def Let_def bind_Some_iff split: if_splits prod.splits)

lemma skip_qualifier_length: "length (skip_qualifier s) \<le> length s"
  by (auto simp: skip_qualifier_def)

lemma conversion_length:
  assumes "conversion strat n s args = Some (out, ws, s', args')"
  shows "length s' \<le> length s"
proof -
  obtain fl s1 where 1: "get_flags 0 s = (fl, s1)" by fastforce
  with assms obtain w fl2 s2 a2 p s3 a3 where
    2: "get_width fl s1 args = Some (w, fl2, s2, a2)" and
    3: "get_precision s2 a2 = Some (p, s3, a3)" and
    4: "convert strat n fl2 w p (skip_qualifier s3) a3 = Some (out, ws, s', args')"
    by (auto simp: conversion_def bind_Some_iff)
  show ?thesis
    using get_flags_length [of 0 s] 1 get_width_length [OF 2] get_precision_length [OF 3]
      convert_length [OF 4] skip_qualifier_length [of s3] by simp
qed

text \<open>
  \<open>vsprintf\<close>'s outer loop, with the output so far: the result is the text without its
  terminating zero (the return value \<open>str-buf\<close> is its length) and the stores of \<open>%n\<close>.
\<close>

function vsprintf_loop ::
  "(u32 \<Rightarrow> string) \<Rightarrow> string \<Rightarrow> u32 list \<Rightarrow> string \<Rightarrow> (u32 \<times> int) list
     \<Rightarrow> (string \<times> (u32 \<times> int) list) option" where
  "vsprintf_loop strat [] args out w = Some (out, w)"
| "vsprintf_loop strat (c # fmt) args out w =
     (if c \<noteq> CHR ''%'' then vsprintf_loop strat fmt args (out @ [c]) w
      else case conversion strat (length out) fmt args of
             None \<Rightarrow> None
           | Some (str, w', fmt', args') \<Rightarrow> vsprintf_loop strat fmt' args' (out @ str) (w @ w'))"
  by pat_completeness auto
termination
  by (relation "measure (\<lambda>(strat, fmt, _). length fmt)") (auto dest: conversion_length)

definition vsprintf ::
  "(u32 \<Rightarrow> string) \<Rightarrow> string \<Rightarrow> u32 list \<Rightarrow> (string \<times> (u32 \<times> int) list) option" where
  "vsprintf strat fmt args = vsprintf_loop strat fmt args [] []"

subsection \<open>Digits\<close>

fun digits_value :: "int \<Rightarrow> (char \<Rightarrow> int) \<Rightarrow> string \<Rightarrow> int" where
  "digits_value base dig [] = 0"
| "digits_value base dig (c # cs) = dig c + base * digits_value base dig cs"

lemma tmp_digits_value:
  assumes "\<forall>k < unat base. dig (digits ! k) = int k" and "2 \<le> base"
  shows "digits_value (uint base) dig (tmp_digits digits base num) = uint num"
  using assms
proof (induction digits base num rule: tmp_digits.induct)
  case (1 digits base num)
  show ?case
  proof (cases "num = 0")
    case True
    then show ?thesis by (simp add: tmp_digits.simps)
  next
    case False
    with "1.prems" have nz: "\<not> (num = 0 \<or> base < 2)" by (simp add: not_less)
    have "unat (num mod base) < unat base"
      using "1.prems"(2) by (simp add: unat_mod_distrib word_le_nat_alt)
    moreover have "digits_value (uint base) dig (tmp_digits digits base (num div base)) = uint (num div base)"
      using "1.IH" [OF nz refl, of "num div base" "num mod base"] "1.prems" by (simp add: do_div_def)
    ultimately show ?thesis
      using nz "1.prems"(1)
      by (subst tmp_digits.simps)
        (simp add: do_div_def uint_div_distrib unat_mod_distrib zmod_int uint_mod_distrib)
  qed
qed

lemma tmp_digits_length: "2 \<le> base \<Longrightarrow> length (tmp_digits digits base num) \<le> k" if "unat num < 2 ^ k" for k
  using that
proof (induction digits base num arbitrary: k rule: tmp_digits.induct)
  case (1 digits base num)
  show ?case
  proof (cases "num = 0")
    case True
    then show ?thesis by (simp add: tmp_digits.simps)
  next
    case False
    with "1.prems" obtain j where j: "k = Suc j" by (cases k) (auto simp: word_unat_eq_iff)
    from False "1.prems" have nz: "\<not> (num = 0 \<or> base < 2)" by (simp add: not_less)
    have "unat num div unat base \<le> unat num div 2"
      using "1.prems" by (intro div_le_mono2) (auto simp: word_le_nat_alt)
    then have "unat (num div base) < 2 ^ j"
      using "1.prems"(2) j by (simp add: unat_div_distrib)
    then have "length (tmp_digits digits base (num div base)) \<le> j"
      using "1.IH" [OF nz refl, of "num div base" "num mod base" j] "1.prems" by (simp add: do_div_def)
    then show ?thesis
      using nz j by (subst tmp_digits.simps) (simp add: do_div_def)
  qed
qed

text \<open>The characters in \<open>tmp[]\<close> when \<open>number\<close> has converted its argument.\<close>

definition tmp_of :: "u32 \<Rightarrow> int \<Rightarrow> int \<Rightarrow> string" where
  "tmp_of num base type =
     (let num = (if type AND SIGN \<noteq> 0 \<and> sint num < 0 then - num else num)
      in if num = 0 then ''0''
         else tmp_digits (if type AND SMALL \<noteq> 0 then lower_digits else upper_digits) (of_int base) num)"

definition sign_width :: "u32 \<Rightarrow> int \<Rightarrow> int" where
  "sign_width num type =
     (if type AND SIGN \<noteq> 0 \<and> sint num < 0 \<or> type AND PLUS \<noteq> 0 \<or> type AND SPACE \<noteq> 0 then 1 else 0)"

definition special_width :: "int \<Rightarrow> int \<Rightarrow> int" where
  "special_width base type =
     (if type AND SPECIAL = 0 then 0 else if base = 16 then 2 else if base = 8 then 1 else 0)"

lemma and_not_1: "(type AND NOT 1) AND 2 = type AND (2::int)" "(type AND NOT 1) AND 4 = type AND (4::int)"
  "(type AND NOT 1) AND 8 = type AND (8::int)" "(type AND NOT 1) AND 16 = type AND (16::int)"
  "(type AND NOT 1) AND 32 = type AND (32::int)"  "(type AND NOT 1) AND 64 = type AND (64::int)"
  "(type AND NOT 1) AND 1 = (0::int)"
  by (simp_all add: and.assoc)

lemma and_17: "type AND (17::int) = 0 \<longleftrightarrow> type AND 1 = 0 \<and> type AND 16 = 0"
proof -
  have "type AND 17 = (type AND 1) OR (type AND 16)" by (simp add: bit.conj_disj_distrib [symmetric])
  then show ?thesis by (metis bit.disj_zero_right or_eq_0_iff)
qed

lemma pads_eq:
  "(case (if p then pad_loop c1 z else ([], z)) of (a, z1) \<Rightarrow>
     (case (if q then pad_loop c2 z1 else ([], z1)) of (b, z2) \<Rightarrow>
       (case pad_loop c3 z2 of (d, z3) \<Rightarrow> F a b d)))
   = F (if p then replicate (nat z) c1 else [])
       (if \<not> p \<and> q then replicate (nat z) c2 else [])
       (if \<not> p \<and> \<not> q then replicate (nat z) c3 else [])"
  by (simp add: pad_loop_def)

lemma number_eq:
  assumes "2 \<le> base" "base \<le> 36"
   and sign: "sign = (if type AND SIGN \<noteq> 0 \<and> sint num < 0 then ''-'' else if type AND PLUS \<noteq> 0 then ''+''
     else if type AND SPACE \<noteq> 0 then '' '' else [])"
   and special: "special = (if type AND SPECIAL \<noteq> 0 then if base = 8 then ''0'' else if base = 16 then
     [CHR ''0'', (if type AND SMALL \<noteq> 0 then lower_digits else upper_digits) ! 33] else [] else [])"
   and tmp: "tmp = tmp_of num base type"
   and z: "z = sz - int (length sign) - int (length special) - max precision (int (length tmp))"
  shows "number num base sz precision type =
    Some ((if type AND LEFT = 0 \<and> type AND ZEROPAD = 0 then replicate (nat z) (CHR '' '') else [])
      @ sign @ special
      @ (if type AND LEFT = 0 \<and> type AND ZEROPAD \<noteq> 0 then replicate (nat z) (CHR ''0'') else [])
      @ replicate (nat (precision - int (length tmp))) (CHR ''0'') @ rev tmp
      @ (if type AND LEFT \<noteq> 0 then replicate (nat z) (CHR '' '') else []))"
proof -
  have base: "\<not> (base < 2 \<or> base > 36)" using assms by simp
  let ?T = "if type AND LEFT \<noteq> 0 then type AND NOT ZEROPAD else type"
  have T: "?T AND 2 = type AND 2" "?T AND 4 = type AND 4" "?T AND 8 = type AND 8" "?T AND 16 = type AND 16"
    "?T AND 32 = type AND 32" "?T AND 64 = type AND 64" 
    "?T AND 1 = 0 \<longleftrightarrow> type AND 16 \<noteq> 0 \<or> type AND 1 = 0"
    "?T AND 17 = 0 \<longleftrightarrow> type AND 16 = 0 \<and> type AND 1 = 0"
    by (simp_all add: and_not_1 [simplified] and_17)
  let ?num = "if type AND SIGN \<noteq> 0 \<and> sint num < 0 then - num else num"
  have pair: "(if type AND SIGN \<noteq> 0 \<and> sint num < 0 then (''-'', - num)
     else (if type AND PLUS \<noteq> 0 then ''+'' else if type AND SPACE \<noteq> 0 then '' '' else [], num)) = (sign, ?num)"
    by (simp add: sign)
  have tmp': "(if ?num = 0 then ''0'' else tmp_digits (if type AND SMALL \<noteq> 0 then lower_digits else upper_digits)
     (of_int base) ?num) = tmp" by (simp add: tmp tmp_of_def Let_def)
  have size: "(if type AND SPECIAL \<noteq> 0 then if base = 16 then (if sign \<noteq> [] then sz - 1 else sz) - 2
      else if base = 8 then (if sign \<noteq> [] then sz - 1 else sz) - 1 else (if sign \<noteq> [] then sz - 1 else sz)
      else (if sign \<noteq> [] then sz - 1 else sz)) - (if precision < int (length tmp) then int (length tmp) else precision) = z"
    by (simp add: z sign special)
  have prec: "nat ((if precision < int (length tmp) then int (length tmp) else precision) - int (length tmp))
     = nat (precision - int (length tmp))" by simp
  have plus: "(1::int) + 16 = 17" by simp
  show ?thesis
    unfolding number_def Let_def if_not_P [OF base] T pair prod.case tmp' size pads_eq prec plus special
    by simp
qed


text \<open>
  The field width is honoured: the text of a number is exactly as wide as asked for, or as wide as its sign,
  prefix and digits (with the precision) need, whichever is more, whatever the flags are.
\<close>

theorem number_length:
  assumes "2 \<le> base" "base \<le> 36"
  shows "\<exists>s. number num base sz precision type = Some s \<and>
    int (length s) = max sz (sign_width num type + special_width base type
                             + max precision (int (length (tmp_of num base type))))"
proof -
  define sign where "sign = (if type AND SIGN \<noteq> 0 \<and> sint num < 0 then ''-'' else if type AND PLUS \<noteq> 0 then ''+''
     else if type AND SPACE \<noteq> 0 then '' '' else [])"
  define special where "special = (if type AND SPECIAL \<noteq> 0 then if base = 8 then ''0'' else if base = 16 then
     [CHR ''0'', (if type AND SMALL \<noteq> 0 then lower_digits else upper_digits) ! 33] else [] else [])"
  define tmp where "tmp = tmp_of num base type"
  have w: "int (length sign) = sign_width num type" "int (length special) = special_width base type"
    by (simp_all add: sign_def sign_width_def special_def special_width_def)
  show ?thesis
    unfolding number_eq [OF assms sign_def special_def tmp_def refl] tmp_def [symmetric] w [symmetric]
    by (cases "type AND LEFT = 0"; cases "type AND ZEROPAD = 0") (simp_all add: max_def)
qed

subsection \<open>Whole formats\<close>

definition plain :: "string \<Rightarrow> bool" where
  "plain s \<longleftrightarrow> CHR ''%'' \<notin> set s"

lemma vsprintf_loop_plain:
  "plain pre \<Longrightarrow> vsprintf_loop strat (pre @ fmt) args out w = vsprintf_loop strat fmt args (out @ pre) w"
  by (induction pre arbitrary: out) (auto simp: plain_def)

lemma vsprintf_plain: "plain fmt \<Longrightarrow> vsprintf strat fmt args = Some (fmt, [])"
  using vsprintf_loop_plain [of fmt strat "[]" args "[]" "[]"] by (simp add: vsprintf_def)

text \<open>Reading a decimal number back.\<close>

definition dec_digit :: "char \<Rightarrow> int" where
  "dec_digit c = of_char c - 48"

definition parse_nat :: "string \<Rightarrow> int" where
  "parse_nat s = foldl (\<lambda>a c. 10 * a + dec_digit c) 0 s"

definition parse_int :: "string \<Rightarrow> int" where
  "parse_int s = (case s of c # t \<Rightarrow> if c = CHR ''-'' then - parse_nat t else parse_nat s | [] \<Rightarrow> 0)"

lemma parse_nat_rev: "parse_nat (rev ds) = digits_value 10 dec_digit ds"
  by (induction ds) (simp_all add: parse_nat_def)

lemma less_10_cases:
  "k < (10::nat) \<Longrightarrow> k = 0 \<or> k = 1 \<or> k = 2 \<or> k = 3 \<or> k = 4 \<or> k = 5 \<or> k = 6 \<or> k = 7 \<or> k = 8 \<or> k = 9"
  by arith

lemma upper_digits_dec: "k < 10 \<Longrightarrow> dec_digit (upper_digits ! k) = int k"
  by (drule less_10_cases) (auto simp: upper_digits_def dec_digit_def)

lemma tmp_digits_dec: "c \<in> set (tmp_digits upper_digits 10 num) \<Longrightarrow> is_digit c"
proof (induction upper_digits "10::u32" num rule: tmp_digits.induct)
  case (1 num)
  show ?case
  proof (cases "num = 0")
    case True
    with "1.prems" show ?thesis by (simp add: tmp_digits.simps)
  next
    case False
    have "unat (num mod 10) < 10" by (simp add: unat_mod_distrib)
    then have "is_digit (upper_digits ! unat (num mod 10))"
      by (drule_tac less_10_cases) (auto simp: is_digit_def upper_digits_def)
    with False "1.prems" "1.hyps" [of _ "num div 10" "num mod 10"] show ?thesis
      by (subst (asm) tmp_digits.simps) (auto simp: do_div_def)
  qed
qed

lemma tmp_digits_nonempty: "num \<noteq> 0 \<Longrightarrow> 2 \<le> base \<Longrightarrow> tmp_digits ds base num \<noteq> []"
  by (subst tmp_digits.simps) (simp add: do_div_def not_less [symmetric])

lemma number_decimal:
  "\<exists>s. number w 10 (-1) (-1) SIGN = Some s \<and> parse_int s = sint w"
proof -
  let ?n = "if sint w < 0 then - w else w"
  have tmp: "tmp_of w 10 SIGN = (if ?n = 0 then ''0'' else tmp_digits upper_digits 10 ?n)"
    by (simp add: tmp_of_def)
  have val: "digits_value 10 dec_digit (tmp_of w 10 SIGN) = uint ?n"
    using tmp_digits_value [of 10 dec_digit upper_digits ?n] upper_digits_dec
    by (auto simp: tmp dec_digit_def)
  have dig: "c \<noteq> CHR ''-''" if "c \<in> set (tmp_of w 10 SIGN)" for c
    using that tmp_digits_dec [of c ?n] by (auto simp: tmp is_digit_def split: if_splits)
  have ne: "rev (tmp_of w 10 SIGN) \<noteq> []"
    by (simp add: tmp tmp_digits_nonempty)
  have pos: "parse_int (rev (tmp_of w 10 SIGN)) = uint ?n"
  proof (cases "rev (tmp_of w 10 SIGN)")
    case (Cons c t)
    then have "c \<in> set (rev (tmp_of w 10 SIGN))" by simp
    with dig have "c \<noteq> CHR ''-''" by simp
    with Cons have "parse_int (rev (tmp_of w 10 SIGN)) = parse_nat (rev (tmp_of w 10 SIGN))"
      by (simp add: parse_int_def)
    with val show ?thesis by (simp add: parse_nat_rev)
  qed (use ne in simp)
  have neg: "parse_int (CHR ''-'' # rev (tmp_of w 10 SIGN)) = - uint ?n"
    using val by (simp add: parse_int_def parse_nat_rev)
  have "uint ?n = \<bar>sint w\<bar>"
    using uint_neg_sint [of w] sint32_uint [of w] uint_lt2p [of w] by (auto split: if_splits)
  then show ?thesis
    using pos neg
    by (subst number_eq [OF _ _ refl refl refl refl]) auto
qed



text \<open>
  A field width \<open>*\<close> does not work: after taking its argument \<open>vsprintf\<close> leaves \<open>fmt\<close> at
  the star, so the conversion is read from the star itself and the text \<open>%*d\<close> comes out.
\<close>

theorem vsprintf_star_width:
  "vsprintf strat ''%*d'' (width # args) = Some (''%*d'', [])"
proof -
  have "conversion strat n ''*d'' (width # args) = Some (''%*'', [], ''d'', args)" for n
    by (cases "sint width < 0") (simp_all add: conversion_def get_width_def get_precision_def
        skip_qualifier_def convert_def cur_def is_digit_def)
  then show ?thesis by (simp add: vsprintf_def)
qed


theorem number_length_witness:
  "\<exists>s. number 255 16 10 (-1) (SPECIAL + SMALL) = Some s \<and> int (length s) = 10"
proof -
  have "tmp_of 255 16 96 = ''ff''"
    by (simp add: tmp_of_def tmp_digits.simps do_div_def lower_digits_def)
  then show ?thesis
    using number_length [of 16 255 10 "- 1" 96] by (simp add: sign_width_def special_width_def)
qed

end
