(* ===== verification/Alloc.thy ===== *)
theory Alloc
  imports Cached_Files
begin

text \<open>
  The bit maps of \<open>fs/bitmap.c\<close>: the word search of \<open>find_first_zero\<close> against a bit by bit search, and
  \<open>new_block\<close> and \<open>free_block\<close> over the set of free blocks the maps stand for.
\<close>

subsection \<open>Bits of a block\<close>

lemma bit_get_long:
  assumes "n < 32"
  shows "bit (get_long d k) n = bit (d ! (4 * k + n div 8)) (n mod 8)"
proof -
  have b: "bit (push_bit m (ucast (w :: u8)) :: u32) n \<longleftrightarrow> m \<le> n \<and> n - m < 8 \<and> bit w (n - m)" for m and w :: u8
    using assms bit_imp_le_length [of w "n - m"] by (auto simp: bit_simps)
  have b0: "bit (ucast (w :: u8) :: u32) n \<longleftrightarrow> n < 8 \<and> bit w n" for w :: u8
    using assms bit_imp_le_length [of w n] by (auto simp: bit_simps)
  consider "n < 8" | "8 \<le> n" "n < 16" | "16 \<le> n" "n < 24" | "24 \<le> n" using assms by linarith
  then show ?thesis
  proof cases
    case 1
    then show ?thesis by (simp add: get_long_def bit_or_iff b b0)
  next
    case 2
    then have "n div 8 = 1" "n mod 8 = n - 8" "n - 8 < 8" by presburger+
    then show ?thesis using 2 by (simp add: get_long_def bit_or_iff b b0)
  next
    case 3
    then have "n div 8 = 2" "n mod 8 = n - 16" "n - 16 < 8" "\<not> n - 8 < 8" by presburger+
    then show ?thesis using 3 by (simp add: get_long_def bit_or_iff b b0)
  next
    case 4
    then have "n div 8 = 3" "n mod 8 = n - 24" "n - 24 < 8" "\<not> n - 8 < 8" "\<not> n - 16 < 8" using assms by presburger+
    then show ?thesis using 4 assms by (simp add: get_long_def bit_or_iff b b0)
  qed
qed

lemma bsf_Some: "bsf w = Some n \<longleftrightarrow> n < 32 \<and> bit w n \<and> (\<forall>m < n. \<not> bit w m)"
  unfolding bsf_def find_Some_iff by auto

lemma bsf_None: "bsf w = None \<longleftrightarrow> (\<forall>n < 32. \<not> bit w n)"
  by (auto simp: bsf_def find_None_iff)

lemma test_bit_long:
  assumes "m < 32"
  shows "test_bit (32 * k + m) d = bit (get_long d k) m"
proof -
  have at: "32 * k + m = m + 4 * k * 8" by simp
  have "(32 * k + m) div 8 = 4 * k + m div 8" unfolding at by simp
  moreover have "(32 * k + m) mod 8 = m mod 8" unfolding at by (rule mod_mult_self1)
  ultimately show ?thesis using bit_get_long [OF assms] by (simp add: test_bit_def)
qed

lemma find_first_zero_from_spec:
  "(\<forall>m < 32 * k. test_bit m d) \<Longrightarrow>
   (let j = find_first_zero_from n k d in j \<le> 32 * (k + n) \<and> (\<forall>m < j. test_bit m d) \<and> (j < 32 * (k + n) \<longrightarrow> \<not> test_bit j d))"
proof (induction n k d rule: find_first_zero_from.induct)
  case (2 n k d)
  show ?case
  proof (cases "bsf (NOT (get_long d k))")
    case None
    then have "bit (get_long d k) m" if "m < 32" for m using that by (auto simp: bsf_None bit_not_iff)
    then have word: "test_bit (32 * k + m) d" if "m < 32" for m using that test_bit_long [OF that] by simp
    have "test_bit m d" if "m < 32 * (k + 1)" for m
    proof (cases "m < 32 * k")
      case False
      then show ?thesis using word [of "m - 32 * k"] that by simp
    qed (use 2(2) in blast)
    then have "let j = find_first_zero_from n (k + 1) d in j \<le> 32 * (k + 1 + n) \<and> (\<forall>m < j. test_bit m d)
        \<and> (j < 32 * (k + 1 + n) \<longrightarrow> \<not> test_bit j d)" using 2(1) [OF None] by blast
    then show ?thesis using None by (simp add: Let_def add.assoc)
  next
    case (Some b)
    then have b: "b < 32" "\<not> bit (get_long d k) b" "\<And>m. m < b \<Longrightarrow> bit (get_long d k) m"
      by (auto simp: bsf_Some bit_not_iff)
    have "test_bit m d" if "m < 32 * k + b" for m
    proof (cases "m < 32 * k")
      case False
      then show ?thesis using test_bit_long [of "m - 32 * k" k d] b that by simp
    qed (use 2(2) in blast)
    then show ?thesis using Some b test_bit_long [OF b(1), of k d] by (simp add: Let_def)
  qed
qed (simp add: Let_def)

lemma find_first_zero_spec:
  "find_first_zero d \<le> 8192" "m < find_first_zero d \<Longrightarrow> test_bit m d"
  "find_first_zero d < 8192 \<Longrightarrow> \<not> test_bit (find_first_zero d) d"
  using find_first_zero_from_spec [of 0 d 256] by (simp_all add: find_first_zero_def Let_def)

text \<open>
  The search of a bit map, a word at a time with \<open>bsf\<close>, is the search for the least clear bit:
  \<open>find_first_zero\<close> returns it, or 8192 when every bit of the block is set.
\<close>

theorem find_first_zero_least:
  "find_first_zero d = (case List.find (\<lambda>n. \<not> test_bit n d) [0..<8192] of Some n \<Rightarrow> n | None \<Rightarrow> 8192)"
proof (cases "find_first_zero d < 8192")
  case True
  then have "List.find (\<lambda>n. \<not> test_bit n d) [0..<8192] = Some (find_first_zero d)"
    using find_first_zero_spec by (auto simp: find_Some_iff intro!: exI [of _ "find_first_zero d"])
  then show ?thesis by simp
next
  case False
  then have "find_first_zero d = 8192" using find_first_zero_spec(1) [of d] by simp
  moreover have "List.find (\<lambda>n. \<not> test_bit n d) [0..<8192] = None"
    using find_first_zero_spec(2) False by (auto simp: find_None_iff)
  ultimately show ?thesis by simp
qed

lemma test_put_bit:
  "nr div 8 < length d \<Longrightarrow> m div 8 < length d \<Longrightarrow> test_bit m (put_bit nr v d) = (if m = nr then v else test_bit m d)"
proof -
  assume l: "nr div 8 < length d" "m div 8 < length d"
  show ?thesis
  proof (cases "m div 8 = nr div 8")
    case True
    then have "m = nr \<longleftrightarrow> m mod 8 = nr mod 8" by (metis div_mult_mod_eq)
    then show ?thesis using l True by (auto simp: test_bit_def put_bit_def bit_set_bit_iff bit_unset_bit_iff)
  next
    case False
    then show ?thesis using l by (auto simp: test_bit_def put_bit_def)
  qed
qed

lemma length_put_bit [simp]: "length (put_bit nr v d) = length d"
  by (simp add: put_bit_def)

lemma scan_maps_spec:
  "scan_maps i ms B = Some (k, bh, j) \<Longrightarrow>
   i \<le> k \<and> k < i + length ms \<and> ms ! (k - i) = Some bh \<and> j = find_first_zero (b_data (B bh)) \<and> j < 8192"
proof (induction i ms B rule: scan_maps.induct)
  case (2 i ms B)
  then have "i + 1 \<le> k \<and> k < i + 1 + length ms \<and> ms ! (k - (i + 1)) = Some bh \<and> j = find_first_zero (b_data (B bh)) \<and> j < 8192"
    by simp
  moreover from this have "k - i = Suc (k - (i + 1))" by auto
  ultimately show ?case by simp
next
  case (3 i b ms B)
  show ?case
  proof (cases "find_first_zero (b_data (B b)) < 8192")
    case True
    then show ?thesis using 3 by (auto simp: Let_def)
  next
    case False
    then have "i + 1 \<le> k \<and> k < i + 1 + length ms \<and> ms ! (k - (i + 1)) = Some bh \<and> j = find_first_zero (b_data (B bh)) \<and> j < 8192"
      using 3 by (auto simp: Let_def)
    moreover from this have "k - i = Suc (k - (i + 1))" by auto
    ultimately show ?thesis by simp
  qed
qed simp

lemma update_bh_super [frame_simps, simp]: "super_blocks (update_bh b g s) = super_blocks s" "buffer_wait (update_bh b g s) = buffer_wait s"
  by (simp_all add: update_bh_def)

subsection \<open>Free blocks\<close>

text \<open>Bit \<open>x\<close> of the maps in \<open>ms\<close> is clear.\<close>

definition free_at :: "nat option list \<Rightarrow> (nat \<Rightarrow> buffer_head) \<Rightarrow> nat \<Rightarrow> bool" where
  "free_at ms B x \<longleftrightarrow> x div 8192 < length ms
     \<and> (case ms ! (x div 8192) of None \<Rightarrow> False | Some bh \<Rightarrow> \<not> test_bit (x mod 8192) (b_data (B bh)))"

lemma free_at_Cons:
  "free_at (m # ms) B x = (if x < 8192 then (case m of None \<Rightarrow> False | Some bh \<Rightarrow> \<not> test_bit x (b_data (B bh)))
                           else free_at ms B (x - 8192))"
proof (cases "x < 8192")
  case False
  then have "x div 8192 = Suc ((x - 8192) div 8192)" "x mod 8192 = (x - 8192) mod 8192"
    by (simp_all add: le_div_geq le_mod_geq)
  then show ?thesis using False by (simp add: free_at_def cong: option.case_cong)
qed (simp add: free_at_def cong: option.case_cong)

lemma find_first_zero_eq: "\<not> test_bit x d \<Longrightarrow> \<forall>y < x. test_bit y d \<Longrightarrow> x < 8192 \<Longrightarrow> find_first_zero d = x"
  using find_first_zero_spec(2) [of x d] find_first_zero_spec(3) [of d] by (metis linorder_neqE_nat less_trans)

lemma find_first_zero_all: "\<forall>y < 8192. test_bit y d \<Longrightarrow> find_first_zero d = 8192"
  using find_first_zero_spec(1,3) [of d] by (metis le_neq_implies_less)

lemma scan_maps_least:
  "free_at ms B x \<Longrightarrow> \<forall>y < x. \<not> free_at ms B y \<Longrightarrow>
   \<exists>bh. scan_maps i ms B = Some (i + x div 8192, bh, x mod 8192) \<and> ms ! (x div 8192) = Some bh"
proof (induction i ms B arbitrary: x rule: scan_maps.induct)
  case (1 i B)
  then show ?case by (simp add: free_at_def)
next
  case (2 i ms B)
  have ge: "8192 \<le> x" and f: "free_at ms B (x - 8192)" using 2(2) by (simp_all add: free_at_Cons split: if_splits)
  have "\<not> free_at ms B y" if "y < x - 8192" for y
    using 2(3) [rule_format, of "y + 8192"] that by (simp add: free_at_Cons)
  then show ?case using 2(1) [OF f] ge by (auto simp: le_div_geq le_mod_geq)
next
  case (3 i b ms B)
  show ?case
  proof (cases "x < 8192")
    case True
    have "test_bit y (b_data (B b))" if "y < x" for y
      using 3(3) [rule_format, OF that] that True by (simp add: free_at_Cons)
    moreover have "\<not> test_bit x (b_data (B b))" using 3(2) True by (simp add: free_at_Cons)
    ultimately have "find_first_zero (b_data (B b)) = x" using True by (intro find_first_zero_eq) auto
    then show ?thesis using True by (simp add: Let_def)
  next
    case False
    have f: "free_at ms B (x - 8192)" using 3(2) False by (simp add: free_at_Cons)
    have "\<not> free_at ms B y" if "y < x - 8192" for y
      using 3(3) [rule_format, of "y + 8192"] that by (simp add: free_at_Cons)
    moreover have full: "find_first_zero (b_data (B b)) = 8192"
    proof (intro find_first_zero_all allI impI)
      fix y :: nat assume "y < 8192"
      then show "test_bit y (b_data (B b))" using 3(3) [rule_format, of y] False by (simp add: free_at_Cons)
    qed
    ultimately show ?thesis using 3(1) [OF refl _ f] False by (auto simp: Let_def full le_div_geq le_mod_geq)
  qed
qed

text \<open>The super block of a device, found without waiting.\<close>

definition has_super :: "int \<Rightarrow> nat \<Rightarrow> 'a fs_scheme \<Rightarrow> bool" where
  "has_super dev sb s \<longleftrightarrow> dev \<noteq> 0 \<and> sb < NR_SUPER \<and> uint (s_dev (super_blocks s sb)) = dev \<and> \<not> s_lock (super_blocks s sb)
     \<and> (\<forall>k < sb. uint (s_dev (super_blocks s k)) \<noteq> dev)"

lemma get_super_found: "has_super dev sb s \<Longrightarrow> get_super io dev s = Some (Some sb, s)"
proof -
  assume h: "has_super dev sb s"
  have "i \<le> sb \<Longrightarrow> get_super_from io dev i s = Some (Some sb, s)" for i
  proof (induction "sb - i" arbitrary: i)
    case 0
    then have "i = sb" by simp
    then show ?case using h by (subst get_super_from.simps) (simp add: has_super_def wait_on_super.simps)
  next
    case (Suc n)
    then have "i < sb" by simp
    then show ?case using h Suc by (subst get_super_from.simps) (auto simp: has_super_def)
  qed
  then show ?thesis using h by (simp add: get_super_def has_super_def)
qed

text \<open>
  The maps of the blocks of a device: eight slots, their buffers distinct, held by the super block, and of
  1024 bytes; and no buffer of a block that is free has a user.
\<close>

definition maps_ok :: "int \<Rightarrow> nat option list \<Rightarrow> int \<Rightarrow> 'a cache_scheme \<Rightarrow> bool" where
  "maps_ok dev ms first s \<longleftrightarrow> length ms = 8
     \<and> (\<forall>i < 8. \<forall>bh. ms ! i = Some bh \<longrightarrow> bh < nr_buffers s \<and> b_count (buffers s bh) \<noteq> 0 \<and> length (b_data (buffers s bh)) = BLOCK_SIZE)
     \<and> (\<forall>i < 8. \<forall>j < 8. ms ! i = ms ! j \<and> ms ! i \<noteq> None \<longrightarrow> i = j)
     \<and> (\<forall>x. free_at ms (buffers s) x \<longrightarrow>
          (\<forall>c < nr_buffers s. is_block dev (int x + first - 1) (buffers s c) \<longrightarrow> b_count (buffers s c) = 0 \<and> \<not> b_lock (buffers s c)))"

text \<open>Setting or clearing one bit of one map.\<close>

lemma free_at_put:
  assumes ms: "length ms = 8" "\<forall>i < 8. \<forall>j < 8. ms ! i = ms ! j \<and> ms ! i \<noteq> None \<longrightarrow> i = j"
    and len: "\<forall>i < 8. \<forall>bh. ms ! i = Some bh \<longrightarrow> length (b_data (B bh)) = BLOCK_SIZE"
    and x: "x div 8192 < 8" "ms ! (x div 8192) = Some m"
    and B': "b_data (B' m) = put_bit (x mod 8192) v (b_data (B m))" "\<And>i bh. i < 8 \<Longrightarrow> ms ! i = Some bh \<Longrightarrow> bh \<noteq> m \<Longrightarrow> b_data (B' bh) = b_data (B bh)"
  shows "free_at ms B' y = (if y = x then \<not> v else free_at ms B y)"
proof (cases "y div 8192 = x div 8192")
  case True
  have "y mod 8192 = x mod 8192 \<longleftrightarrow> y = x" using True by (metis div_mult_mod_eq)
  moreover have "length (b_data (B m)) = BLOCK_SIZE" using len x by blast
  moreover have "(n mod 8192) div 8 < 1024" for n :: nat
    using mod_less_divisor [of 8192 n] by (simp add: less_mult_imp_div_less)
  ultimately show ?thesis using True x ms(1) B'(1) by (simp add: free_at_def test_put_bit)
next
  case False
  then have "y \<noteq> x" by blast
  moreover have "b_data (B' bh) = b_data (B bh)" if "y div 8192 < 8" "ms ! (y div 8192) = Some bh" for bh
  proof -
    have "bh \<noteq> m" using ms(2) that x False by (metis option.distinct(1))
    then show ?thesis using B'(2) that by blast
  qed
  ultimately show ?thesis using ms(1) by (auto simp: free_at_def split: option.split)
qed

lemma cache_ok_data:
  fixes s s' :: "'a cache_scheme"
  assumes "\<And>c. \<exists>x y z w. buffers s' c = (buffers s c)\<lparr>b_data := x, b_dirt := y, b_uptodate := z, b_count := w\<rparr>"
    "hash_table s' = hash_table s" "free_list s' = free_list s" "nr_buffers s' = nr_buffers s"
  shows "cache_ok s' = cache_ok s"
proof -
  have "b_next (buffers s' c) = b_next (buffers s c) \<and> b_prev (buffers s' c) = b_prev (buffers s c)
      \<and> b_next_free (buffers s' c) = b_next_free (buffers s c) \<and> b_prev_free (buffers s' c) = b_prev_free (buffers s c)
      \<and> b_dev (buffers s' c) = b_dev (buffers s c) \<and> b_blocknr (buffers s' c) = b_blocknr (buffers s c)" for c
    using assms(1) [of c] by auto
  then show ?thesis by (intro cache_ok_cong) (simp_all add: assms(2-4) link_defs fun_eq_iff)
qed

lemma wake_up_cache [simp]:
  "buffers (wake_up free_buffer_queue s) = buffers s" "hash_table (wake_up free_buffer_queue s) = hash_table s"
  "free_list (wake_up free_buffer_queue s) = free_list s" "nr_buffers (wake_up free_buffer_queue s) = nr_buffers s"
  by (simp_all add: wake_up_def free_buffer_queue_def set_state_def update_task_def split: option.split)

lemma brelse_unlocked:
  assumes "\<not> b_lock (buffers s bh)" and "b_count (buffers s bh) \<noteq> 0"
  shows "brelse io (Some bh) s = Some (wake_up free_buffer_queue (update_bh bh (\<lambda>b. b\<lparr>b_count := b_count b - 1\<rparr>) s))"
  using assms by (simp add: brelse_def)

text \<open>Taking a free block through its buffer: \<open>getblk\<close>, clear, \<open>brelse\<close>.\<close>

lemma clear_new_block:
  fixes s :: "'a cache_scheme"
  assumes ok: "cache_ok s" and dev: "0 < dev" "dev < 2 ^ 16"
    and unused: "\<And>c. c < nr_buffers s \<Longrightarrow> is_block dev j (buffers s c) \<Longrightarrow> b_count (buffers s c) = 0 \<and> \<not> b_lock (buffers s c)"
    and free: "\<exists>c < nr_buffers s. idle (buffers s c)"
  shows "\<exists>c s1. getblk io dev j s = Some (c, s1) \<and> b_count (buffers s1 c) = 1 \<and> queues_only s s1
    \<and> (\<exists>s2. brelse io (Some c) (update_bh c (\<lambda>b. b\<lparr>b_data := d, b_uptodate := True, b_dirt := True\<rparr>) s1) = Some s2
        \<and> (\<exists>B. s2 = wake_up free_buffer_queue (s1\<lparr>buffers := B\<rparr>)) \<and> \<not> b_lock (buffers s2 c)
        \<and> cache_ok s2 \<and> c < nr_buffers s \<and> nr_buffers s2 = nr_buffers s \<and> b_count (buffers s c) = 0
        \<and> (\<forall>a < nr_buffers s2. is_block dev j (buffers s2 a) \<longleftrightarrow> a = c)
        \<and> b_data (buffers s2 c) = d \<and> b_uptodate (buffers s2 c) \<and> b_dirt (buffers s2 c) \<and> b_count (buffers s2 c) = 0
        \<and> (\<forall>a. a \<noteq> c \<longrightarrow> core (buffers s2 a) = core (buffers s a)))"
proof -
  have "\<exists>c < nr_buffers s. is_block dev j (buffers s c) \<or> idle (buffers s c)" using free by blast
  from getblk_spec [OF ok dev _ this, of io] unused obtain c s1 where
    g: "getblk io dev j s = Some (c, s1)" "cache_ok s1" "c < nr_buffers s" "queues_only s s1"
      "\<forall>a < nr_buffers s1. is_block dev j (buffers s1 a) \<longleftrightarrow> a = c" "\<forall>a. a \<noteq> c \<longrightarrow> core (buffers s1 a) = core (buffers s a)"
    and c: "if is_block dev j (buffers s c) then core (buffers s1 c) = core ((buffers s c)\<lparr>b_count := b_count (buffers s c) + 1\<rparr>)
       else idle (buffers s c) \<and> core (buffers s1 c) = core ((buffers s c)\<lparr>b_count := 1, b_dirt := False, b_uptodate := False,
                                                          b_dev := of_int dev, b_blocknr := of_int j\<rparr>)"
    by blast
  have cnt: "b_count (buffers s1 c) = 1" "b_count (buffers s c) = 0" "\<not> b_lock (buffers s1 c)"
    using c unused [OF g(3)] by (auto simp: core_fields idle_def split: if_splits)
  have nr: "nr_buffers s1 = nr_buffers s" using g(4) by simp
  define s1' where "s1' = update_bh c (\<lambda>b. b\<lparr>b_data := d, b_uptodate := True, b_dirt := True\<rparr>) s1"
  define s2 where "s2 = wake_up free_buffer_queue (update_bh c (\<lambda>b. b\<lparr>b_count := b_count b - 1\<rparr>) s1')"
  have "brelse io (Some c) s1' = Some s2"
    unfolding s2_def using cnt(1,3) by (intro brelse_unlocked) (simp_all add: s1'_def)
  moreover have "cache_ok s2 = cache_ok s1"
  proof (rule cache_ok_data)
    fix a
    show "\<exists>x y z w. buffers s2 a = (buffers s1 a)\<lparr>b_data := x, b_dirt := y, b_uptodate := z, b_count := w\<rparr>"
    proof (cases "a = c")
      case True
      then have "buffers s2 a = (buffers s1 a)\<lparr>b_data := d, b_dirt := True, b_uptodate := True, b_count := 0\<rparr>"
        using cnt(1) by (cases "buffers s1 c") (simp add: s2_def s1'_def)
      then show ?thesis by blast
    next
      case False
      then have "buffers s2 a = (buffers s1 a)\<lparr>b_data := b_data (buffers s1 a), b_dirt := b_dirt (buffers s1 a),
          b_uptodate := b_uptodate (buffers s1 a), b_count := b_count (buffers s1 a)\<rparr>" by (simp add: s2_def s1'_def)
      then show ?thesis by blast
    qed
  qed (simp_all add: s2_def s1'_def)
  moreover have "s2 = wake_up free_buffer_queue (s1\<lparr>buffers := buffers (update_bh c (\<lambda>b. b\<lparr>b_count := b_count b - 1\<rparr>) s1')\<rparr>)"
    by (simp add: s2_def s1'_def) (simp add: update_bh_def)
  then have "\<exists>B. s2 = wake_up free_buffer_queue (s1\<lparr>buffers := B\<rparr>)" by blast
  moreover have "is_block dev j (buffers s2 a) = is_block dev j (buffers s1 a)" for a
    by (simp add: s2_def s1'_def is_block_def)
  ultimately show ?thesis
    using g cnt nr by (intro exI [of _ c] exI [of _ s1] conjI exI [of _ s2]) (simp_all add: s1'_def s2_def)
qed

lemma mod_and_8191: "nat x AND 8191 = nat x mod 8192"
  using take_bit_eq_mask [of 13 "nat x"] by (simp add: take_bit_eq_mod mask_eq_exp_minus_1)

lemma queues_only_super: "queues_only s s' \<Longrightarrow> super_blocks s' = super_blocks s"
  by (auto simp: queues_only_def)

lemma wake_up_super [simp]: "super_blocks (wake_up free_buffer_queue s) = super_blocks s"
  by (simp add: wake_up_def free_buffer_queue_def set_state_def update_task_def split: option.split)

lemma new_block_spec:
  fixes s :: "'a fs_scheme"
  assumes ms_def: "ms = s_zmap (super_blocks s sb)" and first_def: "first = uint (s_firstdatazone (super_blocks s sb))"
    and sup: "has_super dev sb s" and dev: "dev < 2 ^ 16" and ok: "cache_ok s" and maps: "maps_ok dev ms first s"
    and idle: "\<exists>c < nr_buffers s. idle (buffers s c)"
    and x: "free_at ms (buffers s) x" "\<forall>y < x. \<not> free_at ms (buffers s) y"
    and block: "block = int x + first - 1" "block < uint (s_nzones (super_blocks s sb))"
  shows "\<exists>s' c. new_block io dev s = Some (block, s') \<and> cache_ok s'
    \<and> (\<forall>y. free_at ms (buffers s') y \<longleftrightarrow> y \<noteq> x \<and> free_at ms (buffers s) y)
    \<and> c < nr_buffers s' \<and> is_block dev block (buffers s' c) \<and> b_data (buffers s' c) = replicate BLOCK_SIZE 0
    \<and> b_uptodate (buffers s' c) \<and> b_dirt (buffers s' c) \<and> b_count (buffers s' c) = 0
    \<and> super_blocks s' = super_blocks s \<and> \<not> b_lock (buffers s' c) \<and> (\<forall>a < nr_buffers s'. is_block dev block (buffers s' a) \<longrightarrow> a = c)
    \<and> (\<forall>i < 8. \<forall>bh. ms ! i = Some bh \<longrightarrow> length (b_data (buffers s' bh)) = BLOCK_SIZE)"
proof -
  have dev0: "0 < dev" using sup by (simp add: has_super_def)
    (metis uint_ge_0 order_le_less)
  obtain m where scan: "scan_maps 0 ms (buffers s) = Some (x div 8192, m, x mod 8192)" and m: "ms ! (x div 8192) = Some m"
    using scan_maps_least [OF x, of 0] by auto
  have x8: "x div 8192 < 8" using x(1) maps by (simp add: free_at_def maps_ok_def)
  have mm: "m < nr_buffers s" "b_count (buffers s m) \<noteq> 0" using maps m x8 by (auto simp: maps_ok_def)
  have bit: "\<not> test_bit (x mod 8192) (b_data (buffers s m))" using x(1) m by (simp add: free_at_def)
  define s1 where "s1 = update_bh m (\<lambda>b. b\<lparr>b_data := put_bit (x mod 8192) True (b_data b), b_dirt := True\<rparr>) s"
  have ok1: "cache_ok s1"
  proof -
    have "cache_ok s1 = cache_ok s"
    proof (rule cache_ok_data)
      fix a
      let ?b = "buffers s a"
      have "buffers s1 a = (buffers s a)\<lparr>b_data := if a = m then put_bit (x mod 8192) True (b_data ?b) else b_data ?b,
          b_dirt := a = m \<or> b_dirt ?b, b_uptodate := b_uptodate ?b, b_count := b_count ?b\<rparr>"
        by (rule buffer_head.equality) (simp_all add: s1_def)
      then show "\<exists>x y z w. buffers s1 a = (buffers s a)\<lparr>b_data := x, b_dirt := y, b_uptodate := z, b_count := w\<rparr>" by blast
    qed (simp_all add: s1_def)
    then show ?thesis using ok by simp
  qed
  have unused: "b_count (buffers s1 c) = 0 \<and> \<not> b_lock (buffers s1 c)" if "c < nr_buffers s1" "is_block dev block (buffers s1 c)" for c
  proof -
    have "c < nr_buffers s" "is_block dev block (buffers s c)" using that by (simp_all add: s1_def is_block_def split: if_splits)
    then have "b_count (buffers s c) = 0 \<and> \<not> b_lock (buffers s c)" using maps x(1) block(1) by (simp add: maps_ok_def)
    then show ?thesis using mm(2) by (auto simp: s1_def)
  qed
  have "\<exists>c < nr_buffers s1. idle (buffers s1 c)"
  proof -
    obtain a where a: "a < nr_buffers s" "idle (buffers s a)" using idle by blast
    then have "a \<noteq> m" using mm(2) by (auto simp: idle_def)
    then show ?thesis using a by (intro exI [of _ a]) (simp add: s1_def)
  qed
  from clear_new_block [OF ok1 dev0 dev unused this, where io = io and d = "replicate BLOCK_SIZE 0"] obtain c s2 s' where
    g: "getblk io dev block s1 = Some (c, s2)" "b_count (buffers s2 c) = 1" "queues_only s1 s2"
    and b: "brelse io (Some c) (update_bh c (\<lambda>b. b\<lparr>b_data := replicate BLOCK_SIZE 0, b_uptodate := True, b_dirt := True\<rparr>) s2) = Some s'"
    and s': "cache_ok s'" "c < nr_buffers s1" "nr_buffers s' = nr_buffers s1" "b_count (buffers s1 c) = 0"
      "\<forall>a < nr_buffers s'. is_block dev block (buffers s' a) \<longleftrightarrow> a = c"
      "b_data (buffers s' c) = replicate BLOCK_SIZE 0" "b_uptodate (buffers s' c)" "b_dirt (buffers s' c)" "b_count (buffers s' c) = 0"
      "\<forall>a. a \<noteq> c \<longrightarrow> core (buffers s' a) = core (buffers s1 a)" "\<not> b_lock (buffers s' c)"
      "\<exists>B. s' = wake_up free_buffer_queue (s2\<lparr>buffers := B\<rparr>)" by blast
  have sb: "super_blocks s' = super_blocks s"
  proof -
    obtain B where "s' = wake_up free_buffer_queue (s2\<lparr>buffers := B\<rparr>)" using s'(12) by blast
    then have "super_blocks s' = super_blocks s2" by simp
    then show ?thesis using queues_only_super [OF g(3)] by (simp add: s1_def)
  qed
  have "new_block io dev s = Some (block, s')"
  proof -
    have "x mod 8192 + x div 8192 * 8192 = x" by simp
    then have "int (x mod 8192) + int (x div 8192) * 8192 + first - 1 = block"
      unfolding block(1) by (metis of_nat_add of_nat_mult of_nat_numeral)
    moreover have "super_blocks s1 = super_blocks s" by (simp add: s1_def)
    ultimately show ?thesis
      using get_super_found [OF sup, of io] scan bit g(1,2) b block(2)
      by (simp add: new_block_def ms_def [symmetric] first_def [symmetric] s1_def [symmetric] clear_block_def Let_def)
  qed
  moreover have data: "b_data (buffers s' bh) = b_data (buffers s1 bh)" if "i < 8" "ms ! i = Some bh" for i bh
  proof -
    have "b_count (buffers s bh) \<noteq> 0" using maps that by (auto simp: maps_ok_def)
    then have "bh \<noteq> c" using s'(4) by (auto simp: s1_def split: if_splits)
    then show ?thesis using s'(10) by (simp add: core_fields)
  qed
  have len: "length (b_data (buffers s' bh)) = BLOCK_SIZE" if "i < 8" "ms ! i = Some bh" for i bh
    using data [OF that] maps that by (auto simp: maps_ok_def s1_def)
  have "free_at ms (buffers s') y = (if y = x then \<not> True else free_at ms (buffers s) y)" for y
  proof (rule free_at_put [OF _ _ _ x8 m])
    show "b_data (buffers s' m) = put_bit (x mod 8192) True (b_data (buffers s m))" using data [OF x8 m] by (simp add: s1_def)
    show "i < 8 \<Longrightarrow> ms ! i = Some bh \<Longrightarrow> bh \<noteq> m \<Longrightarrow> b_data (buffers s' bh) = b_data (buffers s bh)" for i bh
      using data [of i bh] by (simp add: s1_def)
    show "length ms = 8" "\<forall>i < 8. \<forall>j < 8. ms ! i = ms ! j \<and> ms ! i \<noteq> None \<longrightarrow> i = j"
      "\<forall>i < 8. \<forall>bh. ms ! i = Some bh \<longrightarrow> length (b_data (buffers s bh)) = BLOCK_SIZE"
      using maps unfolding maps_ok_def by blast+
  qed
  ultimately show ?thesis using s' sb len by (intro exI [of _ s'] exI [of _ c]) auto
qed

text \<open>
  C4. \<open>new_block\<close> hands out the least free block: it returns the number of the first clear bit of the maps,
  sets that bit and no other, and leaves the block in the cache, cleared, valid, dirty and unused;
  so no block is handed out twice while its bit is set.
\<close>

theorem new_block_least_free:
  fixes s :: "'a fs_scheme"
  assumes "ms = s_zmap (super_blocks s sb)" and "first = uint (s_firstdatazone (super_blocks s sb))"
    and "has_super dev sb s" and "dev < 2 ^ 16" and "cache_ok s" and "maps_ok dev ms first s"
    and "\<exists>c < nr_buffers s. idle (buffers s c)"
    and "free_at ms (buffers s) x" "\<forall>y < x. \<not> free_at ms (buffers s) y"
    and "block = int x + first - 1" "block < uint (s_nzones (super_blocks s sb))"
  shows "\<exists>s' c. new_block io dev s = Some (block, s') \<and> cache_ok s'
    \<and> (\<forall>y. free_at ms (buffers s') y \<longleftrightarrow> y \<noteq> x \<and> free_at ms (buffers s) y)
    \<and> c < nr_buffers s' \<and> is_block dev block (buffers s' c) \<and> b_data (buffers s' c) = replicate BLOCK_SIZE 0
    \<and> b_uptodate (buffers s' c) \<and> b_dirt (buffers s' c) \<and> b_count (buffers s' c) = 0"
  using new_block_spec [OF assms, of io] by blast


subsection \<open>Freeing\<close>

text \<open>The first half of \<open>free_block\<close>: the buffer of the block, if any, is invalidated and released.\<close>

lemma forget_block:
  fixes s :: "'a fs_scheme"
  assumes ok: "cache_ok s" and dev: "dev \<noteq> 0"
    and unused: "\<And>c. c < nr_buffers s \<Longrightarrow> is_block dev block (buffers s c) \<Longrightarrow> b_count (buffers s c) = 0 \<and> \<not> b_lock (buffers s c)"
  shows "\<exists>s1. (\<forall>K. (do { (bh, s) \<leftarrow> get_hash_table io dev block s;
            case bh of
              Some bh \<Rightarrow>
                if b_count (buffers s bh) \<noteq> 1 then Some s
                else do {
                  let s = update_bh bh (\<lambda>b. b\<lparr>b_dirt := False, b_uptodate := False\<rparr>) s;
                  s \<leftarrow> brelse io (Some bh) s;
                  K s }
            | None \<Rightarrow> K s }) = K s1)
    \<and> cache_ok s1 \<and> nr_buffers s1 = nr_buffers s \<and> super_blocks s1 = super_blocks s
    \<and> (\<forall>a. b_data (buffers s1 a) = b_data (buffers s a) \<and> b_count (buffers s1 a) = b_count (buffers s a)
           \<and> b_dev (buffers s1 a) = b_dev (buffers s a) \<and> b_blocknr (buffers s1 a) = b_blocknr (buffers s a))
    \<and> (\<forall>c < nr_buffers s. is_block dev block (buffers s c) \<longrightarrow> \<not> b_dirt (buffers s1 c) \<and> \<not> b_uptodate (buffers s1 c))"
proof (cases "\<exists>c < nr_buffers s. is_block dev block (buffers s c)")
  case True
  then obtain c where c: "c < nr_buffers s" "is_block dev block (buffers s c)" by blast
  then have u: "b_count (buffers s c) = 0" "\<not> b_lock (buffers s c)" using unused by blast+
  define s1 where "s1 = wake_up free_buffer_queue (update_bh c (\<lambda>b. b\<lparr>b_count := b_count b - 1\<rparr>)
     (update_bh c (\<lambda>b. b\<lparr>b_dirt := False, b_uptodate := False\<rparr>) (hold c s)))"
  have only: "a = c" if "a < nr_buffers s" "is_block dev block (buffers s a)" for a
    using find_buffer_hit [OF ok that dev] find_buffer_hit [OF ok c dev] by simp
  have "brelse io (Some c) (update_bh c (\<lambda>b. b\<lparr>b_dirt := False, b_uptodate := False\<rparr>) (hold c s)) = Some s1"
    unfolding s1_def using u by (intro brelse_unlocked) simp_all
  moreover have "cache_ok s1 = cache_ok s"
  proof (rule cache_ok_data)
    fix a
    let ?b = "buffers s a"
    have "buffers s1 a = ?b\<lparr>b_data := b_data ?b, b_dirt := a \<noteq> c \<and> b_dirt ?b, b_uptodate := a \<noteq> c \<and> b_uptodate ?b,
        b_count := b_count ?b\<rparr>"
      by (rule buffer_head.equality) (simp_all add: s1_def)
    then show "\<exists>x y z w. buffers s1 a = (buffers s a)\<lparr>b_data := x, b_dirt := y, b_uptodate := z, b_count := w\<rparr>" by blast
  qed (simp_all add: s1_def)
  ultimately show ?thesis
    using getblk_hit(1) [OF ok c dev u(2), of io] u ok only
    by (intro exI [of _ s1]) (auto simp: s1_def)
next
  case False
  then have "find_buffer dev block s = Some None" using find_buffer_miss [OF ok] by blast
  then have "get_hash_table io dev block s = Some (None, s)" by (subst get_hash_table.simps) simp
  then show ?thesis using ok False by (intro exI [of _ s]) auto
qed

lemma free_block_spec:
  fixes s :: "'a fs_scheme"
  assumes ms_def: "ms = s_zmap (super_blocks s sb)" and first_def: "first = uint (s_firstdatazone (super_blocks s sb))"
    and sup: "has_super dev sb s" and ok: "cache_ok s"
    and len: "length ms = 8" "\<forall>i < 8. \<forall>j < 8. ms ! i = ms ! j \<and> ms ! i \<noteq> None \<longrightarrow> i = j"
      "\<forall>i < 8. \<forall>bh. ms ! i = Some bh \<longrightarrow> length (b_data (buffers s bh)) = BLOCK_SIZE"
    and x: "x div 8192 < 8" "ms ! (x div 8192) \<noteq> None" "\<not> free_at ms (buffers s) x"
    and block: "block = int x + first - 1" "first \<le> block" "block < uint (s_nzones (super_blocks s sb))"
    and unused: "\<And>c. c < nr_buffers s \<Longrightarrow> is_block dev block (buffers s c) \<Longrightarrow> b_count (buffers s c) = 0 \<and> \<not> b_lock (buffers s c)"
  shows "\<exists>s'. free_block io dev block s = Some s' \<and> cache_ok s'
    \<and> (\<forall>y. free_at ms (buffers s') y \<longleftrightarrow> y = x \<or> free_at ms (buffers s) y)"
proof -
  have dev0: "dev \<noteq> 0" using sup by (simp add: has_super_def)
  obtain m where m: "ms ! (x div 8192) = Some m" using x(2) by blast
  have bit: "test_bit (x mod 8192) (b_data (buffers s m))" using x m len(1) by (simp add: free_at_def)
  from forget_block [of s dev block, OF ok dev0 unused, of io] obtain s1 where
    s1: "\<And>K. (do { (bh, s) \<leftarrow> get_hash_table io dev block s;
            case bh of
              Some bh \<Rightarrow>
                if b_count (buffers s bh) \<noteq> 1 then Some s
                else do {
                  let s = update_bh bh (\<lambda>b. b\<lparr>b_dirt := False, b_uptodate := False\<rparr>) s;
                  s \<leftarrow> brelse io (Some bh) s;
                  K s }
            | None \<Rightarrow> K s }) = K s1"
    "cache_ok s1" "super_blocks s1 = super_blocks s" "\<And>a. b_data (buffers s1 a) = b_data (buffers s a)" by blast
  define s' where "s' = update_bh m (b_dirt_update (\<lambda>_. True))
     (update_bh m (\<lambda>b. b\<lparr>b_data := put_bit (x mod 8192) False (b_data b)\<rparr>) s1)"
  have idx: "nat (block - (first - 1)) = x" using block(1) by simp
  have "(x AND 8191) = x mod 8192" using mod_and_8191 [of "int x"] by simp
  then have "clear_zone_bit sb block s1 = Some s'"
    using m bit by (simp add: clear_zone_bit_def s1(3,4) ms_def [symmetric] first_def [symmetric] idx s'_def Let_def del: diff_diff_eq2 diff_diff_eq)
  then have "free_block io dev block s = Some s'"
    using get_super_found [OF sup, of io] block(2,3) s1(1) [of "clear_zone_bit sb block"]
    by (simp add: free_block_def first_def [symmetric])
  moreover have "cache_ok s' = cache_ok s1"
  proof (rule cache_ok_data)
    fix a
    let ?b = "buffers s1 a"
    have "buffers s' a = ?b\<lparr>b_data := if a = m then put_bit (x mod 8192) False (b_data ?b) else b_data ?b,
        b_dirt := a = m \<or> b_dirt ?b, b_uptodate := b_uptodate ?b, b_count := b_count ?b\<rparr>"
      by (rule buffer_head.equality) (simp_all add: s'_def)
    then show "\<exists>x y z w. buffers s' a = (buffers s1 a)\<lparr>b_data := x, b_dirt := y, b_uptodate := z, b_count := w\<rparr>" by blast
  qed (simp_all add: s'_def)
  moreover have "free_at ms (buffers s') y = (if y = x then \<not> False else free_at ms (buffers s) y)" for y
    by (rule free_at_put [OF len x(1) m]) (simp_all add: s'_def s1(4))
  ultimately show ?thesis using s1(2) by auto
qed

text \<open>
  Freeing undoes allocation: after \<open>new_block\<close>, \<open>free_block\<close> of the block it returned returns too, and
  exactly the blocks that were free before are free again.
\<close>

theorem new_block_free_block:
  fixes s :: "'a fs_scheme"
  assumes "ms = s_zmap (super_blocks s sb)" and "first = uint (s_firstdatazone (super_blocks s sb))"
    and "has_super dev sb s" and "dev < 2 ^ 16" and "cache_ok s" and "maps_ok dev ms first s"
    and "\<exists>c < nr_buffers s. idle (buffers s c)"
    and "free_at ms (buffers s) x" "\<forall>y < x. \<not> free_at ms (buffers s) y" "0 < x"
    and "block = int x + first - 1" "block < uint (s_nzones (super_blocks s sb))"
  shows "\<exists>s1 s2. new_block io dev s = Some (block, s1) \<and> free_block io dev block s1 = Some s2
    \<and> (\<forall>y. free_at ms (buffers s2) y = free_at ms (buffers s) y)"
proof -
  from new_block_spec [OF assms(1-9) assms(11,12), of io] obtain s1 c where
    s1: "new_block io dev s = Some (block, s1)" "cache_ok s1" "\<forall>y. free_at ms (buffers s1) y \<longleftrightarrow> y \<noteq> x \<and> free_at ms (buffers s) y"
    "b_count (buffers s1 c) = 0" "super_blocks s1 = super_blocks s" "\<not> b_lock (buffers s1 c)"
    "\<forall>a < nr_buffers s1. is_block dev block (buffers s1 a) \<longrightarrow> a = c"
    "\<forall>i < 8. \<forall>bh. ms ! i = Some bh \<longrightarrow> length (b_data (buffers s1 bh)) = BLOCK_SIZE" by blast
  have x8: "x div 8192 < 8" "ms ! (x div 8192) \<noteq> None"
    using assms(6,8) by (auto simp: free_at_def maps_ok_def split: option.splits)
  have "\<exists>s2. free_block io dev block s1 = Some s2 \<and> cache_ok s2 \<and> (\<forall>y. free_at ms (buffers s2) y \<longleftrightarrow> y = x \<or> free_at ms (buffers s1) y)"
  proof (rule free_block_spec [of ms s1 sb first])
    show "has_super dev sb s1" using assms(3) s1(5) by (simp add: has_super_def)
    show "b_count (buffers s1 a) = 0 \<and> \<not> b_lock (buffers s1 a)" if "a < nr_buffers s1" "is_block dev block (buffers s1 a)" for a
      using s1(4,6,7) that by blast
    show "ms = s_zmap (super_blocks s1 sb)" "first = uint (s_firstdatazone (super_blocks s1 sb))"
      "block < uint (s_nzones (super_blocks s1 sb))" unfolding s1(5) using assms(1,2,12) by blast+
    show "length ms = 8" "\<forall>i < 8. \<forall>j < 8. ms ! i = ms ! j \<and> ms ! i \<noteq> None \<longrightarrow> i = j"
      using assms(6) unfolding maps_ok_def by blast+
    show "\<not> free_at ms (buffers s1) x" using s1(3) by blast
    show "first \<le> block" using assms(10,11) by simp
  qed (rule s1 x8 assms)+
  then obtain s2 where s2: "free_block io dev block s1 = Some s2" "\<And>y. free_at ms (buffers s2) y \<longleftrightarrow> y = x \<or> free_at ms (buffers s1) y"
    by blast
  have "free_at ms (buffers s2) y = free_at ms (buffers s) y" for y
    unfolding s2(2) using s1(3) assms(8) by (cases "y = x") simp_all
  then show ?thesis using s1(1) s2(1) by (intro exI [of _ s1] exI [of _ s2]) simp
qed

subsection \<open>A file system with one map\<close>

text \<open>Block 3 of the RAM disk, in the cache, is the map; its bytes are 7, so zones 0 to 2 of every eight are in use.\<close>

definition alloc_fs :: fs where
  "alloc_fs = boot_fs\<lparr>super_blocks := (\<lambda>_. \<lparr>s_ninodes = 64, s_nzones = 1000, s_imap_blocks = 1, s_zmap_blocks = 1,
     s_firstdatazone = 10, s_log_zone_size = 0, s_max_size = 0x10081c00, s_magic = 0x137f, s_imap = replicate 8 None,
     s_zmap = Some 0 # replicate 7 None, s_dev = 0x101, s_isup = None, s_imount = None, s_time = 0, s_wait = None,
     s_lock = False, s_rd_only = False, s_dirt = False\<rparr>)\<rparr>"

lemma alloc_fs_buffers: "buffers alloc_fs = buffers boot_cache" "nr_buffers alloc_fs = 2"
  by (simp_all add: alloc_fs_def boot_fs_fields) (simp add: boot_fs_def cache.defs boot_cache_def blk.defs)

lemma alloc_fs_free: "free_at (Some 0 # replicate 7 None) (buffers alloc_fs) x \<longleftrightarrow> x < 8192 \<and> 3 \<le> x mod 8"
proof (cases "x < 8192")
  case True
  have "(7 :: int) = mask 3" by (simp add: mask_eq_exp_minus_1)
  then have seven: "bit (7 :: int) n \<longleftrightarrow> n < 3" for n by (simp only: bit_mask_iff) auto
  have "x div 8 < 1024" "x mod 8 < 8" using True by (simp_all add: less_mult_imp_div_less)
  then have "test_bit x (b_data (buffers alloc_fs 0)) \<longleftrightarrow> x mod 8 < 3"
    by (simp add: test_bit_def alloc_fs_buffers boot_cache_fields new_bh_def) (rule seven)
  then show ?thesis using True by (simp add: free_at_Cons not_less)
next
  case False
  then have "x div 8192 \<noteq> 0" by (simp add: div_eq_0_iff)
  then show ?thesis using False by (auto simp: free_at_def nth_Cons' split: option.splits)
qed

lemma alloc_fs_ok:
  "has_super 0x101 0 alloc_fs" "cache_ok alloc_fs" "\<exists>c < nr_buffers alloc_fs. idle (buffers alloc_fs c)"
  "maps_ok 0x101 (Some 0 # replicate 7 None) 10 alloc_fs"
proof -
  show "has_super 0x101 0 alloc_fs" by (simp add: has_super_def alloc_fs_def)
  have "cache_ok alloc_fs = cache_ok boot_cache"
    by (rule cache_ok_cong) (simp_all add: link_defs fun_eq_iff alloc_fs_buffers boot_cache_fields(4),
        simp_all add: alloc_fs_def boot_fs_def cache.defs boot_cache_def blk.defs)
  then show "cache_ok alloc_fs" using boot_cache_ok by simp
  show "\<exists>c < nr_buffers alloc_fs. idle (buffers alloc_fs c)"
    by (intro exI [of _ 1]) (simp add: alloc_fs_buffers boot_cache_fields idle_def new_bh_def)
  have "\<not> is_block 0x101 (int x + 10 - 1) (buffers alloc_fs c)" if "x < 8192" for x c
  proof
    assume "is_block 0x101 (int x + 10 - 1) (buffers alloc_fs c)"
    then have "(3 :: u32) = of_int (int x + 9)"
      by (simp add: is_block_def alloc_fs_buffers boot_cache_fields new_bh_def split: if_splits)
    then have "uint (3 :: u32) = uint (of_int (int x + 9) :: u32)" by (rule arg_cong)
    then show False using that by (simp only: uint_word_of_int) simp
  qed
  then show "maps_ok 0x101 (Some 0 # replicate 7 None) 10 alloc_fs"
    unfolding maps_ok_def alloc_fs_free
    by (auto simp: alloc_fs_buffers boot_cache_fields new_bh_def nth_Cons' split: if_splits)
qed

text \<open>The first free zone is 3, block 12.\<close>

theorem new_block_least_free_witness:
  "\<exists>s' c. new_block fs_io 0x101 alloc_fs = Some (12, s') \<and> b_data (buffers s' c) = replicate 1024 0
     \<and> is_block 0x101 12 (buffers s' c)"
proof -
  have "free_at (Some 0 # replicate 7 None) (buffers alloc_fs) 3" "\<forall>y < 3. \<not> free_at (Some 0 # replicate 7 None) (buffers alloc_fs) y"
    unfolding alloc_fs_free by simp_all
  with new_block_least_free [where io = fs_io and x = 3 and block = 12, OF refl refl alloc_fs_ok(1) _ alloc_fs_ok(2)] alloc_fs_ok(3,4)
  show ?thesis by (auto simp: alloc_fs_def)
qed

theorem new_block_free_block_witness:
  "\<exists>s1 s2. new_block fs_io 0x101 alloc_fs = Some (12, s1) \<and> free_block fs_io 0x101 12 s1 = Some s2
     \<and> free_at (s_zmap (super_blocks alloc_fs 0)) (buffers s2) 3"
proof -
  have z: "s_zmap (super_blocks alloc_fs 0) = Some 0 # replicate 7 None" by (simp add: alloc_fs_def)
  have "free_at (s_zmap (super_blocks alloc_fs 0)) (buffers alloc_fs) 3"
      "\<forall>y < 3. \<not> free_at (s_zmap (super_blocks alloc_fs 0)) (buffers alloc_fs) y"
    unfolding z alloc_fs_free by simp_all
  with new_block_free_block [where io = fs_io and x = 3 and block = 12, OF refl refl alloc_fs_ok(1) _ alloc_fs_ok(2)] alloc_fs_ok(3,4)
  show ?thesis unfolding z by (auto simp: alloc_fs_def)
qed

end
