(* ===== verification/Inode_Disk.thy ===== *)
theory Inode_Disk
  imports Alloc
begin

text \<open>
  Inodes on disk: the 32 bytes of a \<open>struct d_inode\<close> as \<open>read_inode\<close> and \<open>write_inode\<close> of \<open>fs/inode.c\<close>
  take them apart and put them together, and the two as inverse operations through the buffer cache.
\<close>

subsection \<open>Inodes on disk\<close>

lemma length_short_bytes [simp]: "length (short_bytes v) = 2" by (simp add: short_bytes_def)
lemma length_long_bytes [simp]: "length (long_bytes v) = 4" by (simp add: long_bytes_def)

lemma short_of_bytes: "ucast (ucast v :: u8) OR push_bit 8 (ucast (ucast (drop_bit 8 v) :: u8)) = (v :: u16)"
proof (rule bit_eqI)
  fix n assume "possible_bit TYPE(u16) n"
  then have "n < 16" by simp
  then show "bit (ucast (ucast v :: u8) OR push_bit 8 (ucast (ucast (drop_bit 8 v) :: u8)) :: u16) n = bit v n"
    by (cases "n < 8") (auto simp: bit_simps dest: bit_imp_le_length)
qed

lemma long_of_bytes:
  "ucast (ucast v :: u8) OR push_bit 8 (ucast (ucast (drop_bit 8 v) :: u8)) OR push_bit 16 (ucast (ucast (drop_bit 16 v) :: u8))
     OR push_bit 24 (ucast (ucast (drop_bit 24 v) :: u8)) = (v :: u32)"
proof (rule bit_eqI)
  fix n assume "possible_bit TYPE(u32) n"
  then have "n < 32" by simp
  then consider "n < 8" | "8 \<le> n" "n < 16" | "16 \<le> n" "n < 24" | "24 \<le> n" "n < 32" by linarith
  then show "bit (ucast (ucast v :: u8) OR push_bit 8 (ucast (ucast (drop_bit 8 v) :: u8)) OR push_bit 16 (ucast (ucast (drop_bit 16 v) :: u8))
     OR push_bit 24 (ucast (ucast (drop_bit 24 v) :: u8)) :: u32) n = bit v n"
    by cases (auto simp: bit_simps dest: bit_imp_le_length)
qed

text \<open>The \<open>k\<close>th short after \<open>2 * k\<close> bytes, the \<open>k\<close>th long after \<open>4 * k\<close>.\<close>

lemma get_short_at: "length xs = 2 * k \<Longrightarrow> get_short (xs @ short_bytes v @ ys) k = v"
  by (simp add: get_short_def nth_append short_bytes_def short_of_bytes)

lemma get_long_at: "length xs = 4 * k \<Longrightarrow> get_long (xs @ long_bytes v @ ys) k = v"
  by (simp add: get_long_def nth_append long_bytes_def long_of_bytes)

lemma length_concat_shorts: "length (concat (map short_bytes zs)) = 2 * length zs"
  by (induction zs) simp_all

lemma get_short_zones:
  "k < length zs \<Longrightarrow> length xs = 2 * j \<Longrightarrow> get_short (xs @ concat (map short_bytes zs) @ ys) (j + k) = zs ! k"
proof -
  assume k: "k < length zs" and xs: "length xs = 2 * j"
  have "zs = take k zs @ zs ! k # drop (Suc k) zs" by (rule id_take_nth_drop [OF k])
  then have "concat (map short_bytes zs) = concat (map short_bytes (take k zs)) @ short_bytes (zs ! k) @ concat (map short_bytes (drop (Suc k) zs))"
    by (metis concat.simps(2) concat_append list.simps(9) map_append)
  then show ?thesis
    using get_short_at [of "xs @ concat (map short_bytes (take k zs))" "j + k" "zs ! k" "concat (map short_bytes (drop (Suc k) zs)) @ ys"]
      k xs by (simp add: length_concat_shorts)
qed

lemma length_encode_inode: "length (i_zone i) = 9 \<Longrightarrow> length (encode_inode i) = 32"
  by (simp add: encode_inode_def length_concat_shorts)

text \<open>The fields of an inode that are on disk.\<close>

definition same_disk :: "m_inode \<Rightarrow> m_inode \<Rightarrow> bool" where
  "same_disk i j \<longleftrightarrow> i_mode i = i_mode j \<and> i_uid i = i_uid j \<and> i_size i = i_size j \<and> i_mtime i = i_mtime j
     \<and> i_gid i = i_gid j \<and> i_nlinks i = i_nlinks j \<and> i_zone i = i_zone j"

lemma decode_encode:
  assumes z: "length (i_zone i) = 9"
  shows "same_disk (decode_inode (encode_inode i @ ys) j) i"
proof -
  let ?z = "concat (map short_bytes (i_zone i))"
  have e: "encode_inode i @ ys = short_bytes (i_mode i) @ short_bytes (i_uid i) @ long_bytes (i_size i) @ long_bytes (i_mtime i)
     @ [i_gid i, i_nlinks i] @ ?z @ ys" by (simp add: encode_inode_def)
  have "get_short (encode_inode i @ ys) 0 = i_mode i" "get_short (encode_inode i @ ys) 1 = i_uid i"
    "get_long (encode_inode i @ ys) 1 = i_size i" "get_long (encode_inode i @ ys) 2 = i_mtime i"
    using get_short_at [of "[]" 0] get_short_at [of "short_bytes (i_mode i)" 1]
      get_long_at [of "short_bytes (i_mode i) @ short_bytes (i_uid i)" 1]
      get_long_at [of "short_bytes (i_mode i) @ short_bytes (i_uid i) @ long_bytes (i_size i)" 2] unfolding e by simp_all
  moreover have "(encode_inode i @ ys) ! 12 = i_gid i" "(encode_inode i @ ys) ! 13 = i_nlinks i"
    unfolding e by (simp_all add: nth_append)
  moreover have "map (\<lambda>k. get_short (encode_inode i @ ys) (7 + k)) [0..<9] = i_zone i"
  proof (rule nth_equalityI)
    fix k assume "k < length (map (\<lambda>k. get_short (encode_inode i @ ys) (7 + k)) [0..<9])"
    then have k: "k < 9" by simp
    have "get_short (encode_inode i @ ys) (7 + k) = i_zone i ! k"
      using get_short_zones [of k "i_zone i" "short_bytes (i_mode i) @ short_bytes (i_uid i) @ long_bytes (i_size i)
        @ long_bytes (i_mtime i) @ [i_gid i, i_nlinks i]" 7 ys] k z unfolding e by simp
    then show "map (\<lambda>k. get_short (encode_inode i @ ys) (7 + k)) [0..<9] ! k = i_zone i ! k" using k by simp
  qed (use z in simp)
  ultimately show ?thesis by (simp add: same_disk_def decode_inode_def)
qed

text \<open>An inode that can be locked without waiting.\<close>

definition idle_inode :: "nat \<Rightarrow> 'a fs_scheme \<Rightarrow> bool" where
  "idle_inode i s \<longleftrightarrow> \<not> i_lock (inode_table s i) \<and> i_wait (inode_table s i) = None"

lemma unlock_lock:
  "idle_inode i s \<Longrightarrow> lock_inode io i s = Some (update_inode i (i_lock_update (\<lambda>_. True)) s)"
  by (simp add: lock_inode_def wait_on_inode.simps idle_inode_def)

lemma update_inode_fields [frame_simps, simp]:
  "buffers (update_inode i g s) = buffers s" "hash_table (update_inode i g s) = hash_table s"
  "buffer_wait (update_inode i g s) = buffer_wait s" "super_blocks (update_inode i g s) = super_blocks s"
  "inode_table (update_inode i g s) = (inode_table s)(i := g (inode_table s i))"
  by (simp_all add: update_inode_def)

lemma has_super_cong: "super_blocks s' = super_blocks s \<Longrightarrow> has_super dev sb s' = has_super dev sb s"
  by (simp add: has_super_def)

lemma unlock_idle: "i_wait (inode_table s i) = None \<Longrightarrow> unlock_inode i s = update_inode i (i_lock_update (\<lambda>_. False)) s"
  by (simp add: unlock_inode_def wake_up_def inode_queue_def)

lemma inode_offset_less: "inode_offset n + 32 \<le> 1024"
proof -
  have "unat ((ucast n - 1) mod (32 :: u32)) < 32" by (simp add: unat_mod)
  then show ?thesis by (simp add: inode_offset_def)
qed

text \<open>The block and the buffer of an inode on disk, valid in the cache.\<close>

definition inode_cached :: "nat \<Rightarrow> nat \<Rightarrow> nat \<Rightarrow> u8 list \<Rightarrow> 'a fs_scheme \<Rightarrow> bool" where
  "inode_cached i sb b d s \<longleftrightarrow>
     (let dev = uint (i_dev (inode_table s i)); blk = inode_block (super_blocks s sb) (i_num (inode_table s i))
      in has_super dev sb s \<and> cached dev blk s = Some d \<and> find_buffer dev blk s = Some (Some b) \<and> length d = BLOCK_SIZE)
     \<and> buffer_wait s = None"

lemma inode_bread:
  assumes "inode_cached i sb b d s"
  shows "get_super io (uint (i_dev (inode_table s i))) s = Some (Some sb, s)"
    and "bread io (uint (i_dev (inode_table s i))) (inode_block (super_blocks s sb) (i_num (inode_table s i))) s = Some (Some b, hold b s)"
    and "b_data (buffers s b) = d" "\<not> b_lock (buffers s b)" "b_count (buffers s b) \<noteq> 255"
  using assms bread_cached [of "uint (i_dev (inode_table s i))" "inode_block (super_blocks s sb) (i_num (inode_table s i))" s d io]
    get_super_found [of "uint (i_dev (inode_table s i))" sb s io]
  by (auto simp: inode_cached_def Let_def)

lemma inode_cached_cong:
  fixes s s' :: "'a fs_scheme"
  assumes "buffers s' = buffers s" "hash_table s' = hash_table s" "buffer_wait s' = buffer_wait s" "super_blocks s' = super_blocks s"
    "i_dev (inode_table s' i) = i_dev (inode_table s i)" "i_num (inode_table s' i) = i_num (inode_table s i)"
  shows "inode_cached i sb b d s' = inode_cached i sb b d s"
proof -
  have "find_buffer dev blk s' = find_buffer dev blk s" for dev blk
    using assms by (intro find_buffer_same) (simp_all add: same_keys_def)
  then show ?thesis
    unfolding inode_cached_def assms Let_def has_super_cong [OF assms(4)] cached_cong [OF assms(1,2)] by simp
qed

lemma write_inode_spec:
  fixes s :: "'a fs_scheme"
  assumes ic: "inode_cached i sb b d s" and idle: "idle_inode i s" and dirt: "i_dirt (inode_table s i)" "i_dev (inode_table s i) \<noteq> 0"
    and z: "length (i_zone (inode_table s i)) = 9"
  shows "write_inode io i s = Some (s\<lparr>
    buffers := (buffers s)(b := (buffers s b)\<lparr>b_data := store (inode_offset (i_num (inode_table s i))) (encode_inode (inode_table s i)) d,
                                             b_dirt := True\<rparr>),
    inode_table := (inode_table s)(i := (inode_table s i)\<lparr>i_dirt := False\<rparr>)\<rparr>)"
proof -
  let ?n = "inode_table s i"
  define off e where "off = inode_offset (i_num ?n)" and "e = encode_inode ?n"
  define s0 where "s0 = update_inode i (i_lock_update (\<lambda>_. True)) s"
  have ic0: "inode_cached i sb b d s0"
    using ic inode_cached_cong [of s0 s i] by (simp add: s0_def)
  note r = inode_bread(1,2) [OF ic0, of io] inode_bread(3-5) [OF ic0]
  have le: "length e = 32" using z by (simp add: e_def length_encode_inode)
  have enc: "encode_inode (inode_table s0 i) = e" by (simp add: s0_def e_def encode_inode_def)
  define s1 where "s1 = s0\<lparr>buffers := (buffers s0)(b := (buffers s0 b)\<lparr>b_data := store off e d, b_dirt := True\<rparr>),
    inode_table := (inode_table s0)(i := (inode_table s0 i)\<lparr>i_dirt := False\<rparr>)\<rparr>"
  have rel: "brelse io (Some b) (hold b s1) = Some s1"
    using r(4,5) ic by (intro release_hold) (simp_all add: s1_def s0_def inode_cached_def)
  have swap: "x\<lparr>b_data := D, b_dirt := True, b_count := k\<rparr> = x\<lparr>b_count := k, b_data := D, b_dirt := True\<rparr>" for x D k
    by (cases x) simp
  have mid: "update_inode i (i_dirt_update (\<lambda>_. False)) (update_bh b (\<lambda>x. x\<lparr>b_data := take off (b_data x) @ e
      @ drop (off + 32) (b_data x), b_dirt := True\<rparr>) (hold b s0)) = hold b s1"
    using r(3) le by (simp add: s1_def update_inode_def update_bh_def store_def swap)
  have fin: "unlock_inode i s1 = s\<lparr>buffers := (buffers s)(b := (buffers s b)\<lparr>b_data := store off e d, b_dirt := True\<rparr>),
    inode_table := (inode_table s)(i := ?n\<lparr>i_dirt := False\<rparr>)\<rparr>"
  proof -
    have "x\<lparr>i_lock := True, i_dirt := False, i_lock := False\<rparr> = x\<lparr>i_dirt := False\<rparr>" if "\<not> i_lock x" for x :: m_inode
      using that by (cases x) simp
    from this [of ?n] have same: "?n\<lparr>i_lock := True, i_dirt := False, i_lock := False\<rparr> = ?n\<lparr>i_dirt := False\<rparr>"
      using idle unfolding idle_inode_def by blast
    have "unlock_inode i s1 = update_inode i (i_lock_update (\<lambda>_. False)) s1"
      using idle by (intro unlock_idle) (simp add: s1_def s0_def idle_inode_def)
    also have "\<dots> = s\<lparr>buffers := (buffers s)(b := (buffers s b)\<lparr>b_data := store off e d, b_dirt := True\<rparr>),
        inode_table := (inode_table s)(i := ?n\<lparr>i_lock := True, i_dirt := False, i_lock := False\<rparr>)\<rparr>"
      by (simp add: s1_def s0_def update_inode_def)
    finally show ?thesis unfolding same .
  qed
  have n0: "i_dirt (inode_table s0 i) = i_dirt ?n" "i_dev (inode_table s0 i) = i_dev ?n" "i_num (inode_table s0 i) = i_num ?n"
    by (simp_all add: s0_def)
  show ?thesis
    using dirt r(1,2) [unfolded n0] enc mid rel fin n0
    by (simp add: write_inode_def unlock_lock [OF idle] s0_def [symmetric] off_def e_def Let_def)
qed

lemma read_inode_spec:
  fixes s :: "'a fs_scheme"
  assumes ic: "inode_cached i sb b d s" and idle: "idle_inode i s"
  shows "read_inode io i s = Some (update_inode i (decode_inode (drop (inode_offset (i_num (inode_table s i))) d)) s)"
proof -
  define s0 where "s0 = update_inode i (i_lock_update (\<lambda>_. True)) s"
  let ?d = "drop (inode_offset (i_num (inode_table s i))) d"
  have ic0: "inode_cached i sb b d s0"
    using ic inode_cached_cong [of s0 s i] by (simp add: s0_def)
  note r = inode_bread(1,2) [OF ic0, of io] inode_bread(3-5) [OF ic0]
  define s1 where "s1 = update_inode i (decode_inode ?d) s0"
  have "update_inode i (decode_inode ?d) (hold b s0) = hold b s1"
    by (simp add: s1_def update_inode_def update_bh_def)
  moreover have "brelse io (Some b) (hold b s1) = Some s1"
    using r(4,5) ic by (intro release_hold) (simp_all add: s1_def s0_def inode_cached_def)
  moreover have "unlock_inode i s1 = update_inode i (decode_inode ?d) s"
  proof -
    have "(decode_inode ?d (x\<lparr>i_lock := True\<rparr>))\<lparr>i_lock := False\<rparr> = decode_inode ?d x" if "\<not> i_lock x" for x
      using that by (cases x) (simp add: decode_inode_def)
    moreover have "i_wait (decode_inode ?d x) = i_wait x" for x by (simp add: decode_inode_def)
    ultimately show ?thesis
      using idle by (simp add: unlock_idle idle_inode_def s1_def s0_def) (simp add: update_inode_def)
  qed
  ultimately show ?thesis
    using r(1-3) by (simp add: read_inode_def unlock_lock [OF idle] s0_def [symmetric])
       (simp add: s0_def)
qed

text \<open>
  C31. An inode survives the disk: after \<open>write_inode\<close> of a dirty inode, \<open>read_inode\<close> into any other entry
  of the table with the same device and number returns, with the mode, owner, group, size, time, link
  count and all nine zones of the first, which is clean; no other entry of the table changes.
\<close>

theorem write_read_inode:
  fixes s :: "'a fs_scheme"
  assumes "inode_cached i sb b d s" and "idle_inode i s" and "i_dirt (inode_table s i)" "i_dev (inode_table s i) \<noteq> 0"
    and "length (i_zone (inode_table s i)) = 9" and "j \<noteq> i" and "idle_inode j s"
    and "i_dev (inode_table s j) = i_dev (inode_table s i)" "i_num (inode_table s j) = i_num (inode_table s i)"
  shows "\<exists>s1 s2. write_inode io i s = Some s1 \<and> read_inode io j s1 = Some s2
    \<and> same_disk (inode_table s2 j) (inode_table s i) \<and> \<not> i_dirt (inode_table s2 i)
    \<and> (\<forall>k. k \<noteq> i \<and> k \<noteq> j \<longrightarrow> inode_table s2 k = inode_table s k)"
proof -
  define off e where "off = inode_offset (i_num (inode_table s i))" and "e = encode_inode (inode_table s i)"
  define s1 where "s1 = s\<lparr>buffers := (buffers s)(b := (buffers s b)\<lparr>b_data := store off e d, b_dirt := True\<rparr>),
    inode_table := (inode_table s)(i := (inode_table s i)\<lparr>i_dirt := False\<rparr>)\<rparr>"
  have w: "write_inode io i s = Some s1"
    unfolding s1_def off_def e_def by (rule write_inode_spec [OF assms(1-5)])
  have le: "length e = 32" "off + 32 \<le> 1024" using assms(5) by (simp_all add: e_def length_encode_inode off_def inode_offset_less)
  have ld: "length d = 1024" using assms(1) by (simp add: inode_cached_def Let_def)
  have keys: "find_buffer dev blk s1 = find_buffer dev blk s" for dev blk
    by (rule find_buffer_same) (simp_all add: s1_def same_keys_def)
  have "inode_cached j sb b (store off e d) s1"
    using assms(1,6,8,9) keys le ld by (auto simp: inode_cached_def Let_def cached_def s1_def has_super_def split: if_splits)
  then have "read_inode io j s1 = Some (update_inode j (decode_inode (drop off (store off e d))) s1)"
    using read_inode_spec [where i = j and s = s1 and io = io and d = "store off e d"] assms(6,7,9) by (simp add: idle_inode_def s1_def off_def)
  moreover have "drop off (store off e d) = e @ drop (off + 32) d" using le ld by (simp add: store_def)
  then have "same_disk (decode_inode (drop off (store off e d)) n) (inode_table s i)" for n
    using decode_encode [OF assms(5)] by (simp add: e_def)
  ultimately show ?thesis using w assms(6) by (simp add: s1_def)
qed

text \<open>Inode 5 is in block 3 of the disk; entry 2 holds it, changed, and entry 3 is about to.\<close>

definition inode_fs :: fs where
  "inode_fs = alloc_fs\<lparr>super_blocks := (\<lambda>_. (super_blocks alloc_fs 0)\<lparr>s_imap_blocks := 0\<rparr>),
     inode_table := (inode_table alloc_fs)(2 := (inode_table boot_fs 2)\<lparr>i_dirt := True\<rparr>, 3 := zero_inode\<lparr>i_dev := 0x101, i_num := 5\<rparr>)\<rparr>"

theorem write_read_inode_witness:
  "\<exists>s1 s2. write_inode fs_io 2 inode_fs = Some s1 \<and> read_inode fs_io 3 s1 = Some s2 \<and> i_size (inode_table s2 3) = 1500
     \<and> i_mode (inode_table s2 3) = 0x81a4"
proof -
  have c: "cached 257 3 inode_fs = Some (replicate 1024 7)" and f: "find_buffer 257 3 inode_fs = Some (Some 0)"
  proof -
    have "find_buffer 257 3 inode_fs = find_buffer 257 3 boot_fs"
      by (rule find_buffer_same) (simp_all add: inode_fs_def alloc_fs_def same_keys_def)
    moreover have h: "hash_table boot_fs (hashfn 257 3) = Some 0" by (simp add: boot_fs_fields boot_cache_fields hashfn_def)
    moreover have "find_buffer 257 3 boot_fs = Some (Some 0)"
      using h unfolding find_buffer_def
      by (subst find_in_chain.simps) (simp add: is_block_def boot_fs_fields boot_cache_fields new_bh_def)
    ultimately show "find_buffer 257 3 inode_fs = Some (Some 0)" by simp
    have "cached 257 3 inode_fs = cached 257 3 boot_fs" by (rule cached_cong) (simp_all add: inode_fs_def alloc_fs_def)
    then show "cached 257 3 inode_fs = Some (replicate 1024 7)" using boot_fs_cached by simp
  qed
  have n: "inode_table inode_fs 2 = zero_inode\<lparr>i_mode := 0x81a4, i_dev := 0x101, i_num := 5, i_nlinks := 1, i_count := 1,
        i_size := 1500, i_zone := 3 # replicate 8 0, i_dirt := True\<rparr>" "inode_table inode_fs 3 = zero_inode\<lparr>i_dev := 0x101, i_num := 5\<rparr>"
    by (simp_all add: inode_fs_def boot_fs_fields)
  have b: "inode_block (super_blocks inode_fs 0) 5 = 3" by (simp add: inode_block_def inode_fs_def alloc_fs_def)
  have "buffer_wait inode_fs = None" "has_super 257 0 inode_fs"
    by (simp_all add: inode_fs_def alloc_fs_def boot_fs_fields has_super_def)
  then have "inode_cached 2 0 0 (replicate 1024 7) inode_fs"
    using c f b by (simp add: inode_cached_def n)
  from write_read_inode [OF this, of 3 fs_io] show ?thesis
    by (auto simp: n idle_inode_def zero_inode_def same_disk_def)
qed

end
