(* ===== verification/Directory.thy ===== *)
theory Directory
  imports Cached_Files
begin

text \<open>
  Directories whose blocks are in the buffer cache: \<open>find_entry\<close> of \<open>fs/namei.c\<close> as a search through the list
  of the directory's entries.
\<close>

subsection \<open>Searching a directory\<close>

definition dir_in_core :: "nat \<Rightarrow> nat \<Rightarrow> 'a fs_scheme \<Rightarrow> bool" where
  "dir_in_core dir N s \<longleftrightarrow> buffer_wait s = None
     \<and> (\<forall>k < N. \<exists>n. file_zone dir (k div 64) s = Some n \<and> n \<noteq> 0 \<and> cached (uint (i_dev (inode_table s dir))) n s \<noteq> None)"

text \<open>The buffer of entry \<open>k\<close>, and whether the entry has the name.\<close>

definition entry_buffer :: "nat \<Rightarrow> nat \<Rightarrow> 'a fs_scheme \<Rightarrow> nat" where
  "entry_buffer dir k s = the (the (find_buffer (uint (i_dev (inode_table s dir))) (the (file_zone dir (k div 64) s)) s))"

definition entry_matches :: "nat \<Rightarrow> u32 \<Rightarrow> nat \<Rightarrow> 'a fs_scheme \<Rightarrow> nat \<Rightarrow> bool" where
  "entry_matches dir name len s k \<longleftrightarrow> match len name (the (file_block dir (k div 64) s)) (k mod 64) s"

lemma entry_bread:
  assumes "dir_in_core dir N s" and "k < N"
  shows "\<exists>n. bmap io dir (int (k div 64)) s = Some (n, s) \<and> n \<noteq> 0 \<and> file_zone dir (k div 64) s = Some n
    \<and> bread io (uint (i_dev (inode_table s dir))) n s = Some (Some (entry_buffer dir k s), hold (entry_buffer dir k s) s)
    \<and> brelse io (Some (entry_buffer dir k s)) (hold (entry_buffer dir k s) s) = Some s
    \<and> b_data (buffers s (entry_buffer dir k s)) = the (file_block dir (k div 64) s)"
proof -
  have w: "buffer_wait s = None" using assms by (simp add: dir_in_core_def)
  obtain n d where n: "file_zone dir (k div 64) s = Some n" "n \<noteq> 0" "cached (uint (i_dev (inode_table s dir))) n s = Some d"
    using assms by (auto simp: dir_in_core_def)
  from bread_cached [OF n(3) w, of io] obtain b where "bread io (uint (i_dev (inode_table s dir))) n s = Some (Some b, hold b s)"
    "find_buffer (uint (i_dev (inode_table s dir))) n s = Some (Some b)" "b_data (buffers s b) = d"
    "brelse io (Some b) (hold b s) = Some s" by blast
  then show ?thesis using n bmap_cached [OF n(1) w, of io] by (simp add: entry_buffer_def file_block_def)
qed

lemma match_hold: "match len name d k (hold b s) = match len name d k s"
  by (simp add: match_def)

lemma entry_buffer_block: "k div 64 = l div 64 \<Longrightarrow> entry_buffer dir k s = entry_buffer dir l s"
  by (simp add: entry_buffer_def)

lemma find_from: "i < N \<Longrightarrow> List.find P [i..<N] = (if P i then Some i else List.find P [Suc i..<N])"
  by (simp add: upt_conv_Cons)

text \<open>The loop from entry \<open>i\<close> on, with the buffer of block \<open>j\<close> of the directory in hand.\<close>

lemma find_entry_loop_spec:
  assumes "dir_in_core dir N s" and "k < N" "64 * (k div 64) \<le> i" "i \<le> 64 * (k div 64) + 64"
  shows "find_entry_loop io dir name len N (Some (entry_buffer dir k s)) (i - 64 * (k div 64)) i (hold (entry_buffer dir k s) s)
    = Some (case List.find (entry_matches dir name len s) [i..<N] of
              None \<Rightarrow> (None, s)
            | Some e \<Rightarrow> (Some (entry_buffer dir e s, e mod 64), hold (entry_buffer dir e s) s))"
  using assms(2-)
proof (induction "N - i" arbitrary: i k)
  case 0
  then show ?case using entry_bread [OF assms(1) 0(2), of io]
    by (subst find_entry_loop.simps) (auto simp: upt_rec)
next
  case (Suc m)
  then have i: "i < N" by simp
  let ?bi = "entry_buffer dir i s"
  from entry_bread [OF assms(1) i, of io] obtain n where n:
    "bmap io dir (int (i div 64)) s = Some (n, s)" "n \<noteq> 0"
    "bread io (uint (i_dev (inode_table s dir))) n s = Some (Some ?bi, hold ?bi s)"
    "b_data (buffers s ?bi) = the (file_block dir (i div 64) s)" by blast
  have de: "i - 64 * (i div 64) = i mod 64" by (simp add: minus_mult_div_eq_mod)
  have test: "match len name (b_data (buffers (hold ?bi s) ?bi)) (i mod 64) (hold ?bi s) = entry_matches dir name len s i"
    using n(4) by (simp add: match_hold entry_matches_def)
  have step: "find_entry_loop io dir name len N (Some (entry_buffer dir k s)) (i - 64 * (k div 64)) i (hold (entry_buffer dir k s) s)
    = (if entry_matches dir name len s i then Some (Some (?bi, i mod 64), hold ?bi s)
       else find_entry_loop io dir name len N (Some ?bi) (i mod 64 + 1) (i + 1) (hold ?bi s))"
  proof (cases "i < 64 * (k div 64) + 64")
    case True
    then have same: "i div 64 = k div 64" using Suc(4) by (intro div_nat_eqI) simp_all
    have "i mod 64 < 64" by simp
    then show ?thesis
      using i True test entry_buffer_block [OF same, of dir s] de by (subst find_entry_loop.simps) (simp add: same [symmetric] not_le [symmetric])
  next
    case False
    then have at: "i = 64 * (k div 64) + 64" using Suc(5) by simp
    then have "i mod 64 = 0" by simp
    then show ?thesis
      using i at test n(1-3) entry_bread [OF assms(1) Suc(3), of io] by (subst find_entry_loop.simps) auto
  qed
  show ?case
  proof (cases "entry_matches dir name len s i")
    case True
    then show ?thesis using step i by (simp add: find_from)
  next
    case False
    have "find_entry_loop io dir name len N (Some ?bi) (i + 1 - 64 * (i div 64)) (i + 1) (hold ?bi s)
      = Some (case List.find (entry_matches dir name len s) [i + 1..<N] of
              None \<Rightarrow> (None, s)
            | Some e \<Rightarrow> (Some (entry_buffer dir e s, e mod 64), hold (entry_buffer dir e s) s))"
      using Suc(1) [of "i + 1" i] Suc(2) i by auto
    moreover have "i + 1 - 64 * (i div 64) = i mod 64 + 1" using de by (simp add: Suc_diff_le)
    ultimately show ?thesis using step False i by (simp add: find_from)
  qed
qed

lemma find_entry_spec:
  assumes core: "dir_in_core dir N s" and N: "N = unat (i_size (inode_table s dir)) div 16" "0 < N"
    and len: "l = min len NAME_LEN" "0 < l"
    and dots: "\<not> (l = 2 \<and> get_fs_byte name s = DOT \<and> get_fs_byte (name + 1) s = DOT)"
  shows "find_entry io dir name len s = Some (case List.find (entry_matches dir name l s) [0..<N] of
              None \<Rightarrow> (dir, None, s)
            | Some e \<Rightarrow> (dir, Some (entry_buffer dir e s, e mod 64), hold (entry_buffer dir e s) s))"
proof -
  from entry_bread [OF core N(2), of io] obtain n where n: "n \<noteq> 0" "file_zone dir 0 s = Some n"
    "bread io (uint (i_dev (inode_table s dir))) n s = Some (Some (entry_buffer dir 0 s), hold (entry_buffer dir 0 s) s)" by auto
  have z: "n = uint (i_zone (inode_table s dir) ! 0)" using n(2) by (simp add: file_zone_def zone_of_def)
  from find_entry_loop_spec [OF core N(2), of 0 io name l] have
    "find_entry_loop io dir name l N (Some (entry_buffer dir 0 s)) 0 0 (hold (entry_buffer dir 0 s) s)
    = Some (case List.find (entry_matches dir name l s) [0..<N] of
              None \<Rightarrow> (None, s)
            | Some e \<Rightarrow> (Some (entry_buffer dir e s, e mod 64), hold (entry_buffer dir e s) s))" by simp
  moreover have no_dots: "(l = 2 \<and> get_fs_byte name s = DOT \<and> get_fs_byte (name + 1) s = DOT) = False" using dots by blast
  moreover have "(l = 0) = False" "(n = 0) = False" using n(1) len(2) by simp_all
  ultimately show ?thesis
    unfolding find_entry_def Let_def len(1) [symmetric] N(1) [symmetric]
    by (simp only: if_False no_dots Option.bind.bind_lunit prod.case z [symmetric] n(3) option.distinct)
      (simp split: option.split)
qed


text \<open>A directory of four entries, all named by fourteen bytes of value 7.\<close>

definition dir_fs :: fs where
  "dir_fs = boot_fs\<lparr>umem := (\<lambda>_. 7), inode_table := (inode_table boot_fs)(2 := (inode_table boot_fs 2)\<lparr>i_mode := 0x41ed, i_size := 64\<rparr>)\<rparr>"


end
