(* ===== verification/Cstring.thy ===== *)
theory Cstring
  imports Prelude
begin

text \<open>
  \<open>include/string.h\<close>: the string functions, written in the source as inline assembly. A function
  works on the data segment, a byte for each address; the loops follow the instructions, with the
  registers as arguments. A loop that only ends at a NUL byte is a partial function: \<open>None\<close> when
  it runs for ever.
\<close>

type_synonym bytes = "u32 \<Rightarrow> u8"

subsection \<open>String instructions\<close>

text \<open>\<open>repne; scasb\<close>: the last address plus one, the count left and the zero flag.\<close>

function repne_scasb :: "u8 \<Rightarrow> u32 \<Rightarrow> u32 \<Rightarrow> bool \<Rightarrow> bytes \<Rightarrow> u32 \<times> u32 \<times> bool" where
  "repne_scasb al di cx z m =
     (if cx = 0 then (di, cx, z)
      else if m di = al then (di + 1, cx - 1, True)
      else repne_scasb al (di + 1) (cx - 1) False m)"
  by pat_completeness auto
termination
  by (relation "measure (\<lambda>(al, di, cx, z, m). unat cx)") (auto simp: unat_gt_0 measure_unat)

text \<open>\<open>repe; cmpsb\<close>: the addresses, the zero flag and whether the last byte at \<open>si\<close> is less, as signed bytes.\<close>

function repe_cmpsb :: "u32 \<Rightarrow> u32 \<Rightarrow> u32 \<Rightarrow> bool \<Rightarrow> bool \<Rightarrow> bytes \<Rightarrow> u32 \<times> u32 \<times> bool \<times> bool" where
  "repe_cmpsb si di cx z l m =
     (if cx = 0 then (si, di, z, l)
      else if m si \<noteq> m di then (si + 1, di + 1, False, m si <s m di)
      else repe_cmpsb (si + 1) (di + 1) (cx - 1) True False m)"
  by pat_completeness auto
termination
  by (relation "measure (\<lambda>(si, di, cx, z, l, m). unat cx)") (auto simp: measure_unat)

fun movsb :: "nat \<Rightarrow> u32 \<Rightarrow> u32 \<Rightarrow> bytes \<Rightarrow> bytes" where
  "movsb 0 si di m = m"
| "movsb (Suc n) si di m = movsb n (si + 1) (di + 1) (m(di := m si))"

fun movsb_down :: "nat \<Rightarrow> u32 \<Rightarrow> u32 \<Rightarrow> bytes \<Rightarrow> bytes" where
  "movsb_down 0 si di m = m"
| "movsb_down (Suc n) si di m = movsb_down n (si - 1) (di - 1) (m(di := m si))"

fun stosb :: "nat \<Rightarrow> u8 \<Rightarrow> u32 \<Rightarrow> bytes \<Rightarrow> bytes" where
  "stosb 0 al di m = m"
| "stosb (Suc n) al di m = stosb n al (di + 1) (m(di := al))"

declare repne_scasb.simps [simp del] repe_cmpsb.simps [simp del]

subsection \<open>Length\<close>

text \<open>The scan for the NUL byte that \<open>strlen\<close>, \<open>strcat\<close>, \<open>strspn\<close> and others start with.\<close>

definition scan_nul :: "u32 \<Rightarrow> bytes \<Rightarrow> u32 \<times> u32" where
  "scan_nul a m = (let (di, cx, z) = repne_scasb 0 a 0xffffffff False m in (di - 1, NOT cx - 1))"

definition strlen :: "u32 \<Rightarrow> bytes \<Rightarrow> u32" where
  "strlen s m = snd (scan_nul s m)"

subsection \<open>Copying\<close>

partial_function (option) copy_nul :: "u32 \<Rightarrow> u32 \<Rightarrow> bytes \<Rightarrow> bytes option" where
  "copy_nul si di m =
     (let al = m si; m = m(di := al) in if al = 0 then Some m else copy_nul (si + 1) (di + 1) m)"

definition strcpy :: "u32 \<Rightarrow> u32 \<Rightarrow> bytes \<Rightarrow> (u32 \<times> bytes) option" where
  "strcpy dest src m = do { m \<leftarrow> copy_nul src dest m; Some (dest, m) }"

text \<open>With a count, which \<open>decl\<close> and \<open>js\<close> treat as signed; how the loop ended is the third result.\<close>

function copy_count :: "u32 \<Rightarrow> u32 \<Rightarrow> u32 \<Rightarrow> bytes \<Rightarrow> u32 \<times> u32 \<times> bool \<times> bytes" where
  "copy_count cx si di m =
     (if cx - 1 <s 0 then (cx - 1, di, False, m)
      else
        let al = m si; m = m(di := al)
        in if al = 0 then (cx - 1, di + 1, True, m) else copy_count (cx - 1) (si + 1) (di + 1) m)"
  by pat_completeness auto
termination
proof (relation "measure (\<lambda>(cx, si, di, m). unat cx)")
  fix cx si di :: u32 and m :: bytes and al and m'
  assume "\<not> cx - 1 <s 0"
  then have "cx \<noteq> 0" by auto
  then show "((cx - 1, si + 1, di + 1, m'), cx, si, di, m) \<in> measure (\<lambda>(cx, si, di, m). unat cx)"
    by (simp add: measure_unat)
qed simp

declare copy_count.simps [simp del]

definition strncpy :: "u32 \<Rightarrow> u32 \<Rightarrow> u32 \<Rightarrow> bytes \<Rightarrow> u32 \<times> bytes" where
  "strncpy dest src count m =
     (let (cx, di, nul, m) = copy_count count src dest m
      in (dest, if nul then stosb (unat cx) 0 di m else m))"

definition strcat :: "u32 \<Rightarrow> u32 \<Rightarrow> bytes \<Rightarrow> (u32 \<times> bytes) option" where
  "strcat dest src m = do { m \<leftarrow> copy_nul src (fst (scan_nul dest m)) m; Some (dest, m) }"

definition strncat :: "u32 \<Rightarrow> u32 \<Rightarrow> u32 \<Rightarrow> bytes \<Rightarrow> u32 \<times> bytes" where
  "strncat dest src count m =
     (let (cx, di, nul, m) = copy_count count src (fst (scan_nul dest m)) m in (dest, m(di := 0)))"

definition memcpy :: "u32 \<Rightarrow> u32 \<Rightarrow> u32 \<Rightarrow> bytes \<Rightarrow> u32 \<times> bytes" where
  "memcpy dest src n m = (dest, movsb (unat n) src dest m)"

definition memmove :: "u32 \<Rightarrow> u32 \<Rightarrow> u32 \<Rightarrow> bytes \<Rightarrow> u32 \<times> bytes" where
  "memmove dest src n m =
     (dest, if dest < src then movsb (unat n) src dest m
            else movsb_down (unat n) (src + n - 1) (dest + n - 1) m)"

definition memset :: "u32 \<Rightarrow> u8 \<Rightarrow> u32 \<Rightarrow> bytes \<Rightarrow> u32 \<times> bytes" where
  "memset s c count m = (s, stosb (unat count) c s m)"

subsection \<open>Comparing\<close>

text \<open>The sign of a comparison: the flags after \<open>scasb\<close> or \<open>cmpsb\<close>, as signed bytes.\<close>

definition cmp_result :: "u8 \<Rightarrow> u8 \<Rightarrow> int" where
  "cmp_result al b = (if al <s b then 1 else -1)"

partial_function (option) strcmp_loop :: "u32 \<Rightarrow> u32 \<Rightarrow> bytes \<Rightarrow> int option" where
  "strcmp_loop si di m =
     (let al = m si
      in if al \<noteq> m di then Some (cmp_result al (m di))
         else if al = 0 then Some 0 else strcmp_loop (si + 1) (di + 1) m)"

definition strcmp :: "u32 \<Rightarrow> u32 \<Rightarrow> bytes \<Rightarrow> int option" where
  "strcmp cs ct m = strcmp_loop ct cs m"

function strncmp_loop :: "u32 \<Rightarrow> u32 \<Rightarrow> u32 \<Rightarrow> bytes \<Rightarrow> int" where
  "strncmp_loop cx si di m =
     (if cx - 1 <s 0 then 0
      else
        let al = m si
        in if al \<noteq> m di then cmp_result al (m di)
           else if al = 0 then 0 else strncmp_loop (cx - 1) (si + 1) (di + 1) m)"
  by pat_completeness auto
termination
proof (relation "measure (\<lambda>(cx, si, di, m). unat cx)")
  fix cx si di :: u32 and m :: bytes
  assume "\<not> cx - 1 <s 0"
  then have "cx \<noteq> 0" by auto
  then show "((cx - 1, si + 1, di + 1, m), cx, si, di, m) \<in> measure (\<lambda>(cx, si, di, m). unat cx)"
    by (simp add: measure_unat)
qed simp

declare strncmp_loop.simps [simp del]

definition strncmp :: "u32 \<Rightarrow> u32 \<Rightarrow> u32 \<Rightarrow> bytes \<Rightarrow> int" where
  "strncmp cs ct count m = strncmp_loop count ct cs m"

text \<open>
  \<open>memcmp\<close> takes the zero and the less flag as they are at its entry: with a count of 0 no
  instruction sets them, and they decide the result.
\<close>

definition memcmp :: "bool \<Rightarrow> bool \<Rightarrow> u32 \<Rightarrow> u32 \<Rightarrow> u32 \<Rightarrow> bytes \<Rightarrow> int" where
  "memcmp z l cs ct count m =
     (let (si, di, z, l) = repe_cmpsb ct cs count z l m in if z then 0 else if l then 1 else -1)"

subsection \<open>Searching\<close>

partial_function (option) strchr_loop :: "u8 \<Rightarrow> u32 \<Rightarrow> bytes \<Rightarrow> u32 option" where
  "strchr_loop c si m =
     (let al = m si; si = si + 1
      in if al = c then Some si else if al = 0 then Some 1 else strchr_loop c si m)"

definition strchr :: "u32 \<Rightarrow> u8 \<Rightarrow> bytes \<Rightarrow> u32 option" where
  "strchr s c m = do { si \<leftarrow> strchr_loop c s m; Some (si - 1) }"

partial_function (option) strrchr_loop :: "u8 \<Rightarrow> u32 \<Rightarrow> u32 \<Rightarrow> bytes \<Rightarrow> u32 option" where
  "strrchr_loop c res si m =
     (let al = m si; si = si + 1; res = (if al = c then si - 1 else res)
      in if al = 0 then Some res else strrchr_loop c res si m)"

definition strrchr :: "u32 \<Rightarrow> u8 \<Rightarrow> bytes \<Rightarrow> u32 option" where
  "strrchr s c m = strrchr_loop c 0 s m"

definition memchr :: "u32 \<Rightarrow> u8 \<Rightarrow> u32 \<Rightarrow> bytes \<Rightarrow> u32" where
  "memchr cs c count m =
     (if count = 0 then 0
      else let (di, cx, z) = repne_scasb c cs count False m in (if z then di else 1) - 1)"

text \<open>Whether a byte is one of the \<open>n\<close> bytes at \<open>ct\<close>; \<open>n = 0\<close> leaves the flags of \<open>testb\<close>.\<close>

definition in_set :: "u8 \<Rightarrow> u32 \<Rightarrow> u32 \<Rightarrow> bytes \<Rightarrow> bool" where
  "in_set al ct n m = (let (di, cx, z) = repne_scasb al ct n False m in z)"

text \<open>
  The loop of \<open>strspn\<close> (\<open>want\<close>) and of \<open>strcspn\<close> and \<open>strpbrk\<close>: where \<open>si\<close> points, one past the
  byte that ended it, and whether that was the end of the string.
\<close>

partial_function (option) span_loop :: "bool \<Rightarrow> u32 \<Rightarrow> u32 \<Rightarrow> u32 \<Rightarrow> bytes \<Rightarrow> (u32 \<times> bool) option" where
  "span_loop want ct n si m =
     (let al = m si; si = si + 1
      in if al = 0 then Some (si, True)
         else if in_set al ct n m = want then span_loop want ct n si m else Some (si, False))"

definition strspn :: "u32 \<Rightarrow> u32 \<Rightarrow> bytes \<Rightarrow> u32 option" where
  "strspn cs ct m = do { (si, e) \<leftarrow> span_loop True ct (strlen ct m) cs m; Some (si - 1 - cs) }"

definition strcspn :: "u32 \<Rightarrow> u32 \<Rightarrow> bytes \<Rightarrow> u32 option" where
  "strcspn cs ct m = do { (si, e) \<leftarrow> span_loop False ct (strlen ct m) cs m; Some (si - 1 - cs) }"

definition strpbrk :: "u32 \<Rightarrow> u32 \<Rightarrow> bytes \<Rightarrow> u32 option" where
  "strpbrk cs ct m = do { (si, e) \<leftarrow> span_loop False ct (strlen ct m) cs m; Some (if e then 0 else si - 1) }"

text \<open>
  \<open>strstr\<close>: after \<open>xchgl\<close> the register \<open>eax\<close> holds the address after the byte that differed, and
  a NUL byte there ends the search. \<open>z\<close> is the flag of \<open>decl\<close>, set for an empty \<open>ct\<close>.
\<close>

partial_function (option) strstr_loop :: "u32 \<Rightarrow> u32 \<Rightarrow> u32 \<Rightarrow> bytes \<Rightarrow> u32 option" where
  "strstr_loop ct n si m =
     (let (si', di, z, l) = repe_cmpsb si ct n (n = 0) False m
      in if z then Some si
         else if m (si' - 1) = 0 then Some 0 else strstr_loop ct n (si + 1) m)"

definition strstr :: "u32 \<Rightarrow> u32 \<Rightarrow> bytes \<Rightarrow> u32 option" where
  "strstr cs ct m = strstr_loop ct (strlen ct m) cs m"

subsection \<open>\<open>strtok\<close>\<close>

text \<open>
  \<open>tok\<close> is the variable \<open>___strtok\<close>. The result is the token, the new \<open>___strtok\<close> and the memory,
  in which the delimiter after the token is a NUL byte. At the labels 6 and 7 of the source: a token
  that would be empty is none, and without a token \<open>___strtok\<close> is 0.
\<close>

definition strtok :: "u32 \<Rightarrow> u32 \<Rightarrow> u32 \<Rightarrow> bytes \<Rightarrow> (u32 \<times> u32 \<times> bytes) option" where
  "strtok tok s ct m =
     (if s = 0 \<and> tok = 0 then Some (0, 0, m)
      else
        let si = (if s = 0 then tok else s); n = strlen ct m
        in if n = 0 then Some (0, 0, m)
      else do {
        (si, e) \<leftarrow> span_loop True ct n si m;
        if e \<or> m (si - 1) = 0 then Some (0, 0, m)
        else do {
          let bx = si - 1;
          (si, e) \<leftarrow> span_loop False ct n bx m;
          let (si, m) = (if e \<or> m (si - 1) = 0 then (0, m) else (si, m(si - 1 := 0)));
          let bx = (if m bx = 0 then 0 else bx);
          Some (bx, if bx = 0 then 0 else si, m) } })"

subsection \<open>Strings in memory\<close>

fun string_at :: "u32 \<Rightarrow> u8 list \<Rightarrow> bytes \<Rightarrow> bool" where
  "string_at a [] m \<longleftrightarrow> m a = 0"
| "string_at a (x # xs) m \<longleftrightarrow> x \<noteq> 0 \<and> m a = x \<and> string_at (a + 1) xs m"

fun bytes_at :: "u32 \<Rightarrow> u8 list \<Rightarrow> bytes \<Rightarrow> bool" where
  "bytes_at a [] m \<longleftrightarrow> True"
| "bytes_at a (x # xs) m \<longleftrightarrow> m a = x \<and> bytes_at (a + 1) xs m"

lemma string_bytes: "string_at a xs m \<Longrightarrow> bytes_at a xs m \<and> m (a + of_nat (length xs)) = 0 \<and> 0 \<notin> set xs"
proof (induction xs arbitrary: a)
  case (Cons x xs)
  with Cons.IH [of "a + 1"] show ?case by (auto simp: add.assoc)
qed simp

lemma string_append: "string_at a (xs @ ys) m \<longleftrightarrow> bytes_at a xs m \<and> 0 \<notin> set xs \<and> string_at (a + of_nat (length xs)) ys m"
  by (induction xs arbitrary: a) (auto simp: add.assoc add.commute)

lemma bytes_nth: "bytes_at a xs m \<Longrightarrow> j < length xs \<Longrightarrow> m (a + of_nat j) = xs ! j"
proof (induction xs arbitrary: a j)
  case (Cons x xs)
  with Cons.IH [of "a + 1" "j - 1"] show ?case by (cases j) (auto simp: add.assoc)
qed simp

lemma of_nat_Suc_ne_0: "Suc n < 2 ^ 32 \<Longrightarrow> (of_nat (Suc n) :: u32) \<noteq> 0"
  by (simp only: word_of_nat_eq_0_iff) (auto dest!: dvd_imp_le)

lemma of_nat_pred: "(of_nat (Suc n) :: u32) - 1 = of_nat n"
  by simp

lemma scasb_bytes:
  "length ys < 2 ^ 32 \<Longrightarrow> bytes_at a ys m \<Longrightarrow>
    snd (snd (repne_scasb al a (of_nat (length ys)) False m)) \<longleftrightarrow> al \<in> set ys"
proof (induction ys arbitrary: a)
  case Nil
  then show ?case by (simp add: repne_scasb.simps)
next
  case (Cons y ys)
  have nz: "(of_nat (length (y # ys)) :: u32) \<noteq> 0" using Cons.prems(1) of_nat_Suc_ne_0 [of "length ys"] by simp
  show ?case
    using Cons nz by (subst repne_scasb.simps) (auto simp del: of_nat_Suc simp add: of_nat_pred)
qed

lemma in_set_bytes: "length ys < 2 ^ 32 \<Longrightarrow> bytes_at ct ys m \<Longrightarrow> in_set al ct (of_nat (length ys)) m \<longleftrightarrow> al \<in> set ys"
  using scasb_bytes [of ys ct m al] by (simp add: in_set_def split_beta)

lemma scasb_string:
  "string_at a xs m \<Longrightarrow> length xs < unat cx \<Longrightarrow>
    fst (repne_scasb 0 a cx z m) = a + of_nat (length xs) + 1
    \<and> fst (snd (repne_scasb 0 a cx z m)) = cx - of_nat (length xs) - 1"
proof (induction xs arbitrary: a cx z)
  case Nil
  then have "cx \<noteq> 0" by auto
  with Nil show ?case by (simp add: repne_scasb.simps)
next
  case (Cons x xs)
  then have cx: "cx \<noteq> 0" by auto
  then have "length xs < unat (cx - 1)" using Cons.prems(2) by (simp add: measure_unat unat_minus_one)
  from Cons.IH [OF _ this, of "a + 1" False] Cons.prems cx show ?case
    by (subst (1 2) repne_scasb.simps) (auto simp: algebra_simps)
qed

lemma scan_nul_string:
  assumes "string_at a xs m" and "length xs < 2 ^ 32 - 1"
  shows "scan_nul a m = (a + of_nat (length xs), of_nat (length xs))"
proof -
  have "length xs < unat (0xffffffff :: u32)" using assms(2) by simp
  from scasb_string [OF assms(1) this, of False]
  have "fst (repne_scasb 0 a 0xffffffff False m) = a + of_nat (length xs) + 1"
    "fst (snd (repne_scasb 0 a 0xffffffff False m)) = 0xffffffff - of_nat (length xs) - 1" by simp_all
  moreover have "NOT (0xffffffff - x - 1) - 1 = x" for x :: u32
    by (simp add: not_eq_complement)
  ultimately show ?thesis by (simp add: scan_nul_def split_beta)
qed

lemma strlen_string: "string_at a xs m \<Longrightarrow> length xs < 2 ^ 32 - 1 \<Longrightarrow> strlen a m = of_nat (length xs)"
  by (simp add: strlen_def scan_nul_string)

end
