(* ===== verification/Cstring_Correct.thy ===== *)
theory Cstring_Correct
  imports Cstring Sched "HOL-Library.Sublist"
begin

text \<open>
  The assembly of \<open>include/string.h\<close> against the usual meaning of the string functions, on lists of
  bytes.
\<close>

subsection \<open>Moving memory\<close>

lemma word_eq_of_nat: "a < 2 ^ 32 \<Longrightarrow> b < 2 ^ 32 \<Longrightarrow> (of_nat a :: u32) = of_nat b \<longleftrightarrow> a = b"
  by (simp add: word_of_nat_eq_iff take_bit_nat_eq_self)

lemma movsb_up:
  "di \<le> si \<Longrightarrow> si + n \<le> 2 ^ 32 \<Longrightarrow> a < 2 ^ 32 \<Longrightarrow>
    movsb n (of_nat si) (of_nat di) m (of_nat a) =
      (if di \<le> a \<and> a < di + n then m (of_nat (a + (si - di))) else m (of_nat a))"
proof (induction n arbitrary: si di m)
  case (Suc n)
  define m1 where "m1 = m(of_nat di := m (of_nat si))"
  have eq: "movsb (Suc n) (of_nat si) (of_nat di) m = movsb n (of_nat (si + 1)) (of_nat (di + 1)) m1"
    by (simp add: m1_def add.commute)
  have IH: "movsb n (of_nat (si + 1)) (of_nat (di + 1)) m1 (of_nat a) =
      (if di + 1 \<le> a \<and> a < di + 1 + n then m1 (of_nat (a + (si + 1 - (di + 1)))) else m1 (of_nat a))"
    using Suc.prems by (intro Suc.IH) simp_all
  have at: "m1 (of_nat x) = (if x = di then m (of_nat si) else m (of_nat x))" if "x < 2 ^ 32" for x
    using that Suc.prems word_eq_of_nat [of x di] by (simp add: m1_def)
  consider "a < di" | "a = di" | "di + 1 \<le> a" by linarith
  then show ?case
  proof cases
    case 3
    have "m1 (of_nat (a + (si - di))) = m (of_nat (a + (si - di)))" if "a < di + 1 + n"
      using that 3 Suc.prems by (subst at) auto
    moreover have "m1 (of_nat a) = m (of_nat a)" using 3 Suc.prems by (subst at) auto
    ultimately show ?thesis using 3 unfolding eq IH by auto
  qed (use Suc.prems in \<open>unfold eq IH, auto simp: at\<close>)
qed simp

lemma movsb_down_at:
  "si \<le> di \<Longrightarrow> n \<le> si + 1 \<Longrightarrow> di < 2 ^ 32 \<Longrightarrow> a < 2 ^ 32 \<Longrightarrow>
    movsb_down n (of_nat si) (of_nat di) m (of_nat a) =
      (if di + 1 \<le> a + n \<and> a \<le> di then m (of_nat (a - (di - si))) else m (of_nat a))"
proof (induction n arbitrary: si di m)
  case (Suc n)
  define m1 where "m1 = m(of_nat di := m (of_nat si))"
  have at: "m1 (of_nat x) = (if x = di then m (of_nat si) else m (of_nat x))" if "x < 2 ^ 32" for x
    using that Suc.prems word_eq_of_nat [of x di] by (simp add: m1_def)
  show ?case
  proof (cases n)
    case 0
    then have "movsb_down (Suc n) (of_nat si) (of_nat di) m = m1" by (simp add: m1_def)
    then show ?thesis using Suc.prems 0 by (auto simp: at)
  next
    case (Suc k)
    then have ge: "1 \<le> si" "1 \<le> di" using Suc.prems by simp_all
    then have eq: "movsb_down (Suc n) (of_nat si) (of_nat di) m = movsb_down n (of_nat (si - 1)) (of_nat (di - 1)) m1"
      by (simp add: m1_def of_nat_diff)
    have IH: "movsb_down n (of_nat (si - 1)) (of_nat (di - 1)) m1 (of_nat a) =
        (if di - 1 + 1 \<le> a + n \<and> a \<le> di - 1 then m1 (of_nat (a - (di - 1 - (si - 1)))) else m1 (of_nat a))"
      using Suc.prems ge by (intro Suc.IH) simp_all
    consider "di < a" | "a = di" | "a \<le> di - 1" by linarith
    then show ?thesis
    proof cases
      case 3
      have "m1 (of_nat (a - (di - si))) = m (of_nat (a - (di - si)))" if "di \<le> a + n"
        using that 3 ge Suc.prems by (subst at) auto
      moreover have "m1 (of_nat a) = m (of_nat a)" using 3 ge Suc.prems by (subst at) auto
      ultimately show ?thesis using 3 ge unfolding eq IH by auto
    qed (use Suc.prems ge in \<open>unfold eq IH, auto simp: at\<close>)
  qed
qed simp

lemma unat_less_32: "unat (a :: u32) < 2 ^ 32"
  by (rule less_le_trans [OF unsigned_less]) simp

text \<open>
  \<open>memmove\<close> copies the bytes as they were before, also when the two ranges overlap.
\<close>

lemma memmove_spec:
  assumes "unat src + unat n \<le> 2 ^ 32" and "unat dest + unat n \<le> 2 ^ 32"
  shows "fst (memmove dest src n m) = dest
    \<and> (\<forall>a. snd (memmove dest src n m) a =
         (if unat dest \<le> unat a \<and> unat a < unat dest + unat n then m (a - dest + src) else m a))"
proof (intro conjI allI)
  fix a :: u32
  have a: "of_nat (unat a) = a" "unat a < 2 ^ 32" using unat_less_32 by simp_all
  show "snd (memmove dest src n m) a =
      (if unat dest \<le> unat a \<and> unat a < unat dest + unat n then m (a - dest + src) else m a)"
  proof (cases "dest < src")
    case True
    then have "unat dest \<le> unat src" by (simp add: word_less_nat_alt)
    then show ?thesis
      using movsb_up [of "unat dest" "unat src" "unat n" "unat a" m] assms a True
      by (auto simp: memmove_def of_nat_diff algebra_simps)
  next
    case False
    then have le: "unat src \<le> unat dest" by (simp add: word_less_nat_alt)
    show ?thesis
    proof (cases "unat n = 0")
      case True
      then have "\<not> (unat dest \<le> unat a \<and> unat a < unat dest + unat n)" "movsb_down (unat n) x y m = m" for x y by simp_all
      then show ?thesis using False by (simp only: memmove_def if_False snd_conv)
    next
      case n: False
      have w: "src + n - 1 = of_nat (unat src + unat n - 1)" "dest + n - 1 = of_nat (unat dest + unat n - 1)"
        using n by (simp_all add: of_nat_diff)
      have "movsb_down (unat n) (src + n - 1) (dest + n - 1) m a =
          (if unat dest + unat n - 1 + 1 \<le> unat a + unat n \<and> unat a \<le> unat dest + unat n - 1
           then m (of_nat (unat a - (unat dest + unat n - 1 - (unat src + unat n - 1)))) else m a)"
        unfolding w using movsb_down_at [of "unat src + unat n - 1" "unat dest + unat n - 1" "unat n" "unat a" m] le assms n a
        by simp
      moreover have "unat a - (unat dest + unat n - 1 - (unat src + unat n - 1)) = unat a - (unat dest - unat src)" using n le by simp
      moreover have "of_nat (unat a - (unat dest - unat src)) = a - dest + src" if "unat dest \<le> unat a"
        using that le by (simp add: of_nat_diff)
      moreover have "unat dest + unat n - 1 + 1 \<le> unat a + unat n \<longleftrightarrow> unat dest \<le> unat a"
        "unat a \<le> unat dest + unat n - 1 \<longleftrightarrow> unat a < unat dest + unat n" using n by linarith+
      ultimately show ?thesis by (simp only: memmove_def False if_False snd_conv cong: conj_cong if_cong)
    qed
  qed
qed (simp add: memmove_def)


subsection \<open>Comparing and copying strings\<close>

text \<open>The order of two strings with their final NUL bytes, byte by byte as signed \<open>char\<close>s.\<close>

definition order_of :: "u8 list \<Rightarrow> u8 list \<Rightarrow> int" where
  "order_of xs ys =
     (if xs = ys then 0 else if (ys @ [0], xs @ [0]) \<in> lexord {(x, y). x <s y} then 1 else -1)"

lemma order_of_simps [simp]:
  "order_of [] [] = 0" "y \<noteq> 0 \<Longrightarrow> order_of [] (y # ys) = cmp_result y 0" "x \<noteq> 0 \<Longrightarrow> order_of (x # xs) [] = cmp_result 0 x"
  "order_of (x # xs) (y # ys) = (if x = y then order_of xs ys else cmp_result y x)"
  by (auto simp: order_of_def cmp_result_def)

lemma strcmp_loop_strings:
  "string_at si ys m \<Longrightarrow> string_at di xs m \<Longrightarrow> strcmp_loop si di m = Some (order_of xs ys)"
proof (induction xs arbitrary: ys si di)
  case Nil
  then show ?case by (cases ys) (auto simp: strcmp_loop.simps)
next
  case (Cons x xs)
  then show ?case by (cases ys) (auto simp: strcmp_loop.simps [of si])
qed

lemma strcmp_strings: "string_at cs xs m \<Longrightarrow> string_at ct ys m \<Longrightarrow> strcmp cs ct m = Some (order_of xs ys)"
  by (simp add: strcmp_def strcmp_loop_strings)

lemma string_upd:
  "string_at a xs m \<Longrightarrow> (\<And>j. j \<le> length xs \<Longrightarrow> b \<noteq> a + of_nat j) \<Longrightarrow> string_at a xs (m(b := v))"
proof (induction xs arbitrary: a)
  case Nil
  from Nil.prems(2) [of 0] Nil.prems(1) show ?case by simp
next
  case (Cons x xs)
  have "string_at (a + 1) xs (m(b := v))"
    using Cons.prems(1) Cons.prems(2) [of "Suc _"] by (intro Cons.IH) (simp_all add: add.assoc)
  then show ?case using Cons.prems(1) Cons.prems(2) [of 0] by (simp add: fun_upd_def)
qed

lemma copy_nul_string:
  "string_at si xs m \<Longrightarrow> (\<And>i j. i \<le> length xs \<Longrightarrow> j \<le> length xs \<Longrightarrow> di + of_nat i \<noteq> si + of_nat j) \<Longrightarrow>
    copy_nul si di m = Some (write_bytes (xs @ [0]) di m)"
proof (induction xs arbitrary: si di m)
  case Nil
  then show ?case by (simp add: copy_nul.simps [of si] fun_upd_def)
next
  case (Cons x xs)
  have "string_at (si + 1) xs (m(di := x))"
    using Cons.prems(1) Cons.prems(2) [of 0 "Suc _"] by (intro string_upd) (simp_all add: add.assoc)
  then have "copy_nul (si + 1) (di + 1) (m(di := x)) = Some (write_bytes (xs @ [0]) (di + 1) (m(di := x)))"
    using Cons.prems(2) [of "Suc _" "Suc _"] by (intro Cons.IH) (simp_all add: add.assoc fun_upd_def)
  then show ?case using Cons.prems(1) by (simp add: copy_nul.simps [of si])
qed

lemma strcpy_string:
  "string_at src xs m \<Longrightarrow> (\<And>i j. i \<le> length xs \<Longrightarrow> j \<le> length xs \<Longrightarrow> dest + of_nat i \<noteq> src + of_nat j) \<Longrightarrow>
    strcpy dest src m = Some (dest, write_bytes (xs @ [0]) dest m)"
  by (simp add: strcpy_def copy_nul_string)

subsection \<open>Searching\<close>

lemma strchr_loop_string:
  "string_at a xs m \<Longrightarrow> c \<noteq> 0 \<Longrightarrow>
    strchr_loop c a m = Some (if c \<in> set xs then a + of_nat (length (takeWhile (\<lambda>x. x \<noteq> c) xs)) + 1 else 1)"
proof (induction xs arbitrary: a)
  case (Cons x xs)
  with Cons.IH [of "a + 1"] show ?case by (auto simp: strchr_loop.simps [of c a] Let_def algebra_simps)
qed (simp add: strchr_loop.simps)

text \<open>\<open>strchr\<close> finds the first occurrence of a character, or returns \<open>NULL\<close>.\<close>

lemma strchr_string:
  "string_at a xs m \<Longrightarrow> c \<noteq> 0 \<Longrightarrow>
    strchr a c m = Some (if c \<in> set xs then a + of_nat (length (takeWhile (\<lambda>x. x \<noteq> c) xs)) else 0)"
  by (simp add: strchr_def strchr_loop_string)

lemma span_loop_string:
  assumes ys: "bytes_at ct ys m" "length ys < 2 ^ 32"
  shows "string_at a xs m \<Longrightarrow> span_loop want ct (of_nat (length ys)) a m =
    Some (a + of_nat (length (takeWhile (\<lambda>x. (x \<in> set ys) = want) xs)) + 1, length (takeWhile (\<lambda>x. (x \<in> set ys) = want) xs) = length xs)"
proof (induction xs arbitrary: a)
  case (Cons x xs)
  with Cons.IH [of "a + 1"] in_set_bytes [OF ys(2,1), of x] show ?case
    by (auto simp: span_loop.simps [of want ct _ a] Let_def algebra_simps)
qed (simp add: span_loop.simps)

lemma strspn_string:
  assumes "string_at cs xs m" and "string_at ct ys m" and "length ys < 2 ^ 32 - 1"
  shows "strspn cs ct m = Some (of_nat (length (takeWhile (\<lambda>x. x \<in> set ys) xs)))"
    and "strcspn cs ct m = Some (of_nat (length (takeWhile (\<lambda>x. x \<notin> set ys) xs)))"
  using span_loop_string [OF _ _ assms(1), of ct ys] string_bytes [OF assms(2)] strlen_string [OF assms(2,3)] assms(3)
  by (simp_all add: strspn_def strcspn_def)


subsection \<open>\<open>strstr\<close>\<close>

lemma cmpsb_string:
  "bytes_at di ys m \<Longrightarrow> 0 \<notin> set ys \<Longrightarrow> length ys < 2 ^ 32 \<Longrightarrow> string_at si xs m \<Longrightarrow> (ys = [] \<longrightarrow> z) \<Longrightarrow>
    (case repe_cmpsb si di (of_nat (length ys)) z l m of (si', di', z', l') \<Rightarrow>
       z' = prefix ys xs \<and> (\<not> z' \<longrightarrow> (m (si' - 1) = 0) = prefix xs ys))"
proof (induction ys arbitrary: si di xs z l)
  case Nil
  then show ?case by (simp add: repe_cmpsb.simps)
next
  case (Cons y ys)
  have nz: "(of_nat (length (y # ys)) :: u32) \<noteq> 0" using Cons.prems(3) of_nat_Suc_ne_0 [of "length ys"] by simp
  show ?case
  proof (cases xs)
    case Nil
    then show ?thesis using Cons.prems nz by (subst repe_cmpsb.simps) (auto simp del: of_nat_Suc)
  next
    case (Cons x xs')
    have "case repe_cmpsb (si + 1) (di + 1) (of_nat (length ys)) True False m of (si', di', z', l') \<Rightarrow>
       z' = prefix ys xs' \<and> (\<not> z' \<longrightarrow> (m (si' - 1) = 0) = prefix xs' ys)"
      using Cons.prems \<open>xs = x # xs'\<close> by (intro Cons.IH) auto
    then show ?thesis
      using Cons.prems nz \<open>xs = x # xs'\<close> by (subst repe_cmpsb.simps) (auto simp del: of_nat_Suc simp add: of_nat_pred)
  qed
qed

text \<open>The position of the first occurrence of \<open>ys\<close> in \<open>xs\<close>.\<close>

fun find_sub :: "u8 list \<Rightarrow> u8 list \<Rightarrow> nat option" where
  "find_sub ys [] = (if ys = [] then Some 0 else None)"
| "find_sub ys (x # xs) = (if prefix ys (x # xs) then Some 0 else map_option Suc (find_sub ys xs))"

lemma find_sub_Some: "find_sub ys xs = Some k \<longleftrightarrow>
    prefix ys (drop k xs) \<and> k \<le> length xs \<and> (\<forall>j < k. \<not> prefix ys (drop j xs))"
proof (induction xs arbitrary: k)
  case (Cons x xs)
  show ?case
  proof (cases k)
    case (Suc k')
    then show ?thesis using Cons.IH [of k'] by (auto simp: less_Suc_eq_0_disj)
  qed auto
qed auto

lemma find_sub_None: "find_sub ys xs = None \<longleftrightarrow> \<not> sublist ys xs"
  by (induction xs) (auto simp: sublist_Cons_right)

lemma strstr_loop_string:
  assumes ys: "bytes_at ct ys m" "0 \<notin> set ys" "length ys < 2 ^ 32"
  shows "string_at a xs m \<Longrightarrow> strstr_loop ct (of_nat (length ys)) a m =
    Some (case find_sub ys xs of None \<Rightarrow> 0 | Some k \<Rightarrow> a + of_nat k)"
proof (induction xs arbitrary: a)
  case Nil
  have n: "(of_nat (length ys) = (0 :: u32)) = (ys = [])" using ys(3) word_eq_of_nat [of "length ys" 0] by simp
  show ?case
    using cmpsb_string [OF ys Nil, of "of_nat (length ys) = (0 :: u32)" False] n
    by (subst strstr_loop.simps) (auto split: prod.splits)
next
  case (Cons x xs)
  have n: "(of_nat (length ys) = (0 :: u32)) = (ys = [])" using ys(3) word_eq_of_nat [of "length ys" 0] by simp
  have "find_sub ys xs = None" if "prefix (x # xs) ys" "\<not> prefix ys (x # xs)"
  proof -
    have "length (x # xs) < length ys" using that by (metis prefix_length_less prefix_order.le_less)
    then have "\<not> sublist ys xs" by (auto dest: sublist_length_le)
    then show ?thesis by (simp add: find_sub_None)
  qed
  then show ?case
    using cmpsb_string [OF ys Cons.prems, of "of_nat (length ys) = (0 :: u32)" False] n Cons.IH [of "a + 1"] Cons.prems
    by (subst strstr_loop.simps) (auto split: prod.splits option.splits simp: add.assoc)
qed

lemma strstr_string:
  assumes "string_at cs xs m" and "string_at ct ys m" and "length ys < 2 ^ 32 - 1"
  shows "strstr cs ct m = Some (case find_sub ys xs of None \<Rightarrow> 0 | Some k \<Rightarrow> cs + of_nat k)"
  using strstr_loop_string [OF _ _ _ assms(1), of ct ys] string_bytes [OF assms(2)] strlen_string [OF assms(2,3)] assms(3)
  by (simp add: strstr_def)


subsection \<open>\<open>strtok\<close>\<close>

text \<open>What is left of the text after the leading delimiters, and the token there.\<close>

definition tok_rest :: "u8 list \<Rightarrow> u8 list \<Rightarrow> u8 list" where
  "tok_rest ys xs = dropWhile (\<lambda>x. x \<in> set ys) xs"

definition tok_text :: "u8 list \<Rightarrow> u8 list \<Rightarrow> u8 list" where
  "tok_text ys xs = takeWhile (\<lambda>x. x \<notin> set ys) (tok_rest ys xs)"

lemma tok_skip: "length (takeWhile (\<lambda>x. x \<in> set ys) xs) = length xs - length (tok_rest ys xs)"
  by (metis add_diff_cancel_right' length_append takeWhile_dropWhile_id tok_rest_def)

lemma tok_rest_at:
  assumes "string_at si xs m"
  shows "string_at (si + of_nat (length xs - length (tok_rest ys xs))) (tok_rest ys xs) m"
proof -
  have "string_at si (takeWhile (\<lambda>x. x \<in> set ys) xs @ tok_rest ys xs) m" using assms by (simp add: tok_rest_def)
  then show ?thesis by (simp only: string_append tok_skip)
qed

lemma strtok_string:
  assumes xs: "string_at (if s = 0 then tok else s) xs m" "\<not> (s = 0 \<and> tok = 0)" and len: "length xs < 2 ^ 32"
    and ys: "string_at ct ys m" "ys \<noteq> []" "length ys < 2 ^ 32 - 1"
    and a: "a = (if s = 0 then tok else s) + of_nat (length xs - length (tok_rest ys xs))" "a \<noteq> 0"
  shows "strtok tok s ct m = Some
    (if tok_rest ys xs = [] then (0, 0, m)
     else if tok_text ys xs = tok_rest ys xs then (a, 0, m)
     else (a, a + of_nat (length (tok_text ys xs)) + 1, m(a + of_nat (length (tok_text ys xs)) := 0)))"
proof -
  let ?si = "if s = 0 then tok else s" and ?r = "tok_rest ys xs" and ?t = "tok_text ys xs"
  have n: "strlen ct m = of_nat (length ys)" "(of_nat (length ys) :: u32) \<noteq> 0"
    using strlen_string [OF ys(1,3)] ys(2,3) word_eq_of_nat [of "length ys" 0] by auto
  have ys': "bytes_at ct ys m" "length ys < 2 ^ 32" using string_bytes [OF ys(1)] ys(3) by simp_all
  have r: "string_at a ?r m" using tok_rest_at [OF xs(1)] a(1) by simp
  have skip: "span_loop True ct (of_nat (length ys)) ?si m = Some (a + 1, ?r = [])"
  proof -
    have "length ?r \<le> length xs" unfolding tok_rest_def by (rule length_dropWhile_le)
    then have "length xs - length ?r = length xs \<longleftrightarrow> length ?r = 0" by arith
    then show ?thesis using span_loop_string [OF ys' xs(1), of True] a(1) by (simp add: tok_skip algebra_simps)
  qed
  have t: "prefix ?t ?r" by (simp add: tok_text_def takeWhile_is_prefix)
  then have tlen: "length ?t = length ?r \<longleftrightarrow> ?t = ?r" by (auto simp: prefix_def)
  have word: "span_loop False ct (of_nat (length ys)) a m = Some (a + of_nat (length ?t) + 1, ?t = ?r)"
    using span_loop_string [OF ys' r, of False] tlen by (simp add: tok_text_def)
  have ma: "m a \<noteq> 0" if "?r \<noteq> []" using r that by (cases ?r) auto
  have mt: "m (a + of_nat (length ?t)) \<noteq> 0" if "?t \<noteq> ?r"
  proof -
    have "length ?t < length ?r" using t that by (metis prefix_length_less prefix_order.le_less)
    then show ?thesis using bytes_nth [of a ?r m "length ?t"] string_bytes [OF r] by (metis nth_mem)
  qed
  have keep: "a \<noteq> a + of_nat (length ?t)" if "?t \<noteq> ?r" "?r \<noteq> []"
  proof -
    have "?t \<noteq> []"
      using that(2) hd_dropWhile [of "\<lambda>x. x \<in> set ys" xs] unfolding tok_text_def tok_rest_def
      by (cases "dropWhile (\<lambda>x. x \<in> set ys) xs") auto
    moreover have "length ?t \<le> length xs" unfolding tok_text_def tok_rest_def
      by (meson length_dropWhile_le length_takeWhile_le order_trans)
    ultimately have "(of_nat (length ?t) :: u32) \<noteq> 0" using len word_eq_of_nat [of "length ?t" 0] by simp
    then show ?thesis by simp
  qed
  show ?thesis
  proof (cases "?r = []")
    case True
    then show ?thesis using n xs(2) skip by (simp add: strtok_def Let_def)
  next
    case False
    then show ?thesis
      using n xs(2) a(2) skip word ma mt keep by (cases "?t = ?r") (simp_all add: strtok_def Let_def)
  qed
qed


subsection \<open>The properties\<close>

text \<open>
  \<open>memmove\<close> returns its destination, leaves there the bytes that were at the source before the
  call, and changes no other byte, for every count and also when the two areas overlap, either way.
\<close>

theorem memmove_correct:
  assumes "unat src + unat n \<le> 2 ^ 32" and "unat dest + unat n \<le> 2 ^ 32"
  shows "fst (memmove dest src n m) = dest
    \<and> (\<forall>a. snd (memmove dest src n m) a =
         (if unat dest \<le> unat a \<and> unat a < unat dest + unat n then m (a - dest + src) else m a))"
  using assms by (rule memmove_spec)

definition text_mem :: bytes where
  "text_mem = write_bytes [44, 97, 98, 44, 97, 98, 99, 0] 100 (write_bytes [97, 98, 99, 0, 44, 0] 200 (\<lambda>_. 0))"

theorem memmove_correct_witness:
  "snd (memmove 102 100 5 text_mem) 104 = 98 \<and> snd (memmove 102 100 5 text_mem) 106 = 97"
  using memmove_correct [of 100 5 102 text_mem] by (simp add: text_mem_def)

text \<open>
  C27. \<open>strstr\<close> always returns for two strings in memory: the address of the first occurrence of the
  second string in the first, and \<open>NULL\<close> exactly when it does not occur; an empty string is found
  at the start.
\<close>

theorem strstr_correct:
  assumes "string_at cs xs m" and "string_at ct ys m" and "length ys < 2 ^ 32 - 1"
  shows "strstr cs ct m = Some (case find_sub ys xs of None \<Rightarrow> 0 | Some k \<Rightarrow> cs + of_nat k)
    \<and> (find_sub ys xs = None \<longleftrightarrow> \<not> sublist ys xs)
    \<and> (\<forall>k. find_sub ys xs = Some k \<longleftrightarrow> prefix ys (drop k xs) \<and> k \<le> length xs \<and> (\<forall>j < k. \<not> prefix ys (drop j xs)))"
  using strstr_string [OF assms] find_sub_None find_sub_Some by blast

theorem strstr_correct_witness: "strstr 100 200 text_mem = Some 104"
proof -
  have "string_at 100 [44, 97, 98, 44, 97, 98, 99] text_mem" "string_at 200 [97, 98, 99] text_mem"
    by (simp_all add: text_mem_def)
  from strstr_correct [OF this] show ?thesis by simp
qed

text \<open>
  \<open>strtok\<close> skips the delimiters at the start of the text, which is the string passed or, for
  \<open>NULL\<close>, the one kept from the last call. With nothing left it returns \<open>NULL\<close>. Otherwise it returns
  the address of the longest text without a delimiter there, ends it with a NUL byte in place of its
  delimiter, and keeps what follows that for the next call, or \<open>NULL\<close> when the text ended.
\<close>

theorem strtok_correct:
  assumes "string_at (if s = 0 then tok else s) xs m" and "\<not> (s = 0 \<and> tok = 0)" and "length xs < 2 ^ 32"
    and "string_at ct ys m" and "ys \<noteq> []" and "length ys < 2 ^ 32 - 1"
    and "a = (if s = 0 then tok else s) + of_nat (length xs - length (tok_rest ys xs))" and "a \<noteq> 0"
  shows "strtok tok s ct m = Some
    (if tok_rest ys xs = [] then (0, 0, m)
     else if tok_text ys xs = tok_rest ys xs then (a, 0, m)
     else (a, a + of_nat (length (tok_text ys xs)) + 1, m(a + of_nat (length (tok_text ys xs)) := 0)))"
  using assms by (rule strtok_string)

theorem strtok_correct_witness:
  "strtok 0 100 204 text_mem = Some (101, 104, text_mem(103 := 0))"
proof -
  have "string_at (if (100 :: u32) = 0 then 0 else 100) [44, 97, 98, 44, 97, 98, 99] text_mem" "string_at 204 [44] text_mem"
    by (simp_all add: text_mem_def)
  from strtok_correct [OF this(1) _ _ this(2), of 101] show ?thesis by (simp add: tok_rest_def tok_text_def)
qed

end
