(* ===== verification/Malloc.thy ===== *)
theory Malloc
  imports Memory
begin

text \<open>
  \<open>lib/malloc.c\<close>: the kernel's \<open>malloc\<close> and \<open>free_s\<close>. A page is cut into objects of one size, a power of
  two from 16 to 4096; a bucket descriptor of 16 bytes holds the page, the chain of its free objects and
  a reference count. Descriptors and chains live in physical memory, as in the source, so that they are
  read and written with \<open>mem_long\<close> and \<open>set_long\<close>.
\<close>

subsection \<open>Descriptors\<close>

text \<open>The directory: the head of the chain of descriptors for each size, without the end marker.\<close>

record kmalloc = mm +
  bucket_chain :: "u32 list"
  free_bucket_desc :: u32

definition bucket_sizes :: "nat list" where
  "bucket_sizes = [16, 32, 64, 128, 256, 512, 1024, 2048, 4096]"

definition bd_page :: "u32 \<Rightarrow> 'a mm_scheme \<Rightarrow> u32" where "bd_page d s = mem_long d s"
definition bd_next :: "u32 \<Rightarrow> 'a mm_scheme \<Rightarrow> u32" where "bd_next d s = mem_long (d + 4) s"
definition bd_freeptr :: "u32 \<Rightarrow> 'a mm_scheme \<Rightarrow> u32" where "bd_freeptr d s = mem_long (d + 8) s"
definition bd_refcnt :: "u32 \<Rightarrow> 'a mm_scheme \<Rightarrow> u16" where "bd_refcnt d s = ucast (mem_long (d + 12) s)"

definition set_bd_refcnt :: "u32 \<Rightarrow> u16 \<Rightarrow> 'a mm_scheme \<Rightarrow> 'a mm_scheme" where
  "set_bd_refcnt d v s = set_long (d + 12) ((mem_long (d + 12) s AND 0xffff0000) OR ucast v) s"

definition set_bd_size :: "u32 \<Rightarrow> u16 \<Rightarrow> 'a mm_scheme \<Rightarrow> 'a mm_scheme" where
  "set_bd_size d v s = set_long (d + 12) ((mem_long (d + 12) s AND 0xffff) OR push_bit 16 (ucast v)) s"

definition set_chain :: "nat \<Rightarrow> u32 \<Rightarrow> 'a kmalloc_scheme \<Rightarrow> 'a kmalloc_scheme" where
  "set_chain i v s = s\<lparr>bucket_chain := (bucket_chain s)[i := v]\<rparr>"

text \<open>A chain of \<open>n\<close> links over cells of \<open>sz\<close> bytes, written at offset \<open>off\<close>: the last cell and the memory.\<close>

fun link_cells :: "nat \<Rightarrow> u32 \<Rightarrow> u32 \<Rightarrow> u32 \<Rightarrow> 'a mm_scheme \<Rightarrow> u32 \<times> 'a mm_scheme" where
  "link_cells 0 off sz p s = (p, s)"
| "link_cells (Suc n) off sz p s = link_cells n off sz (p + sz) (set_long (p + off) (p + sz) s)"

definition init_bucket_desc :: "'a kmalloc_scheme \<Rightarrow> 'a kmalloc_scheme option" where
  "init_bucket_desc s =
     (let (first, s) = get_free_page s
      in if first = 0 then None
      else
        let (bdesc, s) = link_cells (4096 div 16 - 1) 4 16 first s
        in Some ((set_long (bdesc + 4) (free_bucket_desc s) s)\<lparr>free_bucket_desc := first\<rparr>))"

subsection \<open>\<open>malloc\<close>\<close>

text \<open>The first descriptor of a chain with a free object, or 0.\<close>

partial_function (option) find_free :: "u32 \<Rightarrow> 'a mm_scheme \<Rightarrow> u32 option" where
  "find_free d s =
     (if d = 0 then Some 0 else if bd_freeptr d s \<noteq> 0 then Some d else find_free (bd_next d s) s)"

definition new_bucket :: "nat \<Rightarrow> 'a kmalloc_scheme \<Rightarrow> (u32 \<times> 'a kmalloc_scheme) option" where
  "new_bucket i s = do {
     let sz = bucket_sizes ! i;
     s \<leftarrow> (if free_bucket_desc s = 0 then init_bucket_desc s else Some s);
     let bdesc = free_bucket_desc s;
     let s = s\<lparr>free_bucket_desc := bd_next bdesc s\<rparr>;
     let s = set_bd_size bdesc (of_nat sz) (set_bd_refcnt bdesc 0 s);
     let (cp, s) = get_free_page s;
     let s = set_long bdesc cp (set_long (bdesc + 8) cp s);
     if cp = 0 then None
     else do {
       let (cp, s) = link_cells (4096 div sz - 1) 0 (of_nat sz) cp s;
       let s = set_long cp 0 s;
       let s = set_long (bdesc + 4) (bucket_chain s ! i) s;
       Some (bdesc, set_chain i bdesc s) } }"

definition malloc :: "u32 \<Rightarrow> 'a kmalloc_scheme \<Rightarrow> (u32 \<times> 'a kmalloc_scheme) option" where
  "malloc len s =
     (case List.find (\<lambda>i. of_nat (bucket_sizes ! i) \<ge> len) [0..<length bucket_sizes] of
        None \<Rightarrow> None
      | Some i \<Rightarrow> do {
          bdesc \<leftarrow> find_free (bucket_chain s ! i) s;
          (bdesc, s) \<leftarrow> (if bdesc = 0 then new_bucket i s else Some (bdesc, s));
          let retval = bd_freeptr bdesc s;
          let s = set_long (bdesc + 8) (mem_long retval s) s;
          Some (retval, set_bd_refcnt bdesc (bd_refcnt bdesc s + 1) s) })"

subsection \<open>\<open>free_s\<close>\<close>

text \<open>The search of one chain for the descriptor of a page, with the descriptor before it.\<close>

partial_function (option) find_page :: "u32 \<Rightarrow> u32 \<Rightarrow> u32 \<Rightarrow> 'a mm_scheme \<Rightarrow> (u32 \<times> u32) option option" where
  "find_page page prev d s =
     (if d = 0 then Some None
      else if bd_page d s = page then Some (Some (prev, d))
      else find_page page d (bd_next d s) s)"

fun search_buckets :: "u32 \<Rightarrow> int \<Rightarrow> nat list \<Rightarrow> 'a kmalloc_scheme \<Rightarrow> (nat \<times> u32 \<times> u32) option" where
  "search_buckets page sz [] s = None"
| "search_buckets page sz (i # is) s =
     (if int (bucket_sizes ! i) < sz then search_buckets page sz is s
      else do {
        r \<leftarrow> find_page page 0 (bucket_chain s ! i) s;
        case r of None \<Rightarrow> search_buckets page sz is s | Some (prev, d) \<Rightarrow> Some (i, prev, d) })"

text \<open>The search for the descriptor before \<open>d\<close>, again, when the chain has changed meanwhile.\<close>

partial_function (option) find_prev :: "u32 \<Rightarrow> u32 \<Rightarrow> 'a mm_scheme \<Rightarrow> u32 option" where
  "find_prev d p s = (if p = 0 \<or> bd_next p s = d then Some p else find_prev d (bd_next p s) s)"

definition unlink_desc :: "nat \<Rightarrow> u32 \<Rightarrow> u32 \<Rightarrow> 'a kmalloc_scheme \<Rightarrow> 'a kmalloc_scheme option" where
  "unlink_desc i prev d s = do {
     prev \<leftarrow> (if prev \<noteq> 0 \<and> bd_next prev s \<noteq> d \<or> prev = 0 \<and> bucket_chain s ! i \<noteq> d
             then find_prev d (bucket_chain s ! i) s else Some prev);
     if prev \<noteq> 0 then Some (set_long (prev + 4) (bd_next d s) s)
     else if bucket_chain s ! i \<noteq> d then None
     else Some (set_chain i (bd_next d s) s) }"

definition free_s :: "u32 \<Rightarrow> int \<Rightarrow> 'a kmalloc_scheme \<Rightarrow> 'a kmalloc_scheme option" where
  "free_s obj sz s = do {
     (i, prev, d) \<leftarrow> search_buckets (obj AND 0xfffff000) sz [0..<length bucket_sizes] s;
     let s = set_long obj (bd_freeptr d s) s;
     let s = set_long (d + 8) obj s;
     let s = set_bd_refcnt d (bd_refcnt d s - 1) s;
     if bd_refcnt d s \<noteq> 0 then Some s
     else do {
       s \<leftarrow> unlink_desc i prev d s;
       s \<leftarrow> free_page (bd_page d s) s;
       Some ((set_long (d + 4) (free_bucket_desc s) s)\<lparr>free_bucket_desc := d\<rparr>) } }"

end
