(* ===== verification/Demand_Paging.thy ===== *)
theory Demand_Paging
  imports Exit
begin

text \<open>
  The part of \<open>mm/memory.c\<close> that loads a program on demand: \<open>share_page\<close> and \<open>do_no_page\<close>, the handler
  of a fault on a page that is not present. \<open>oom()\<close> ends the process and does not return.
\<close>

fun share_with :: "u32 \<Rightarrow> nat list \<Rightarrow> 'a fs_scheme \<Rightarrow> (bool \<times> 'a fs_scheme) option" where
  "share_with address [] s = Some (False, s)"
| "share_with address (i # is) s =
     (case task s ! i of
        None \<Rightarrow> share_with address is s
      | Some p \<Rightarrow>
          if p = current s \<or> t_executable (tasks s p) \<noteq> t_executable (cur_task s) then share_with address is s
          else do {
            (shared, s) \<leftarrow> try_to_share address p s;
            if shared then Some (True, s) else share_with address is s })"

definition share_page :: "u32 \<Rightarrow> 'a fs_scheme \<Rightarrow> (bool \<times> 'a fs_scheme) option" where
  "share_page address s =
     (case t_executable (cur_task s) of
        None \<Rightarrow> Some (False, s)
      | Some e \<Rightarrow> if i_count (inode_table s e) < 2 then Some (False, s) else share_with address task_slots s)"

text \<open>The loop that asks for the four blocks, and the zeros after the end of the data.\<close>

fun exec_blocks :: "'a fs_scheme io \<Rightarrow> nat \<Rightarrow> nat \<Rightarrow> int \<Rightarrow> 'a fs_scheme \<Rightarrow> (int list \<times> 'a fs_scheme) option" where
  "exec_blocks io e 0 block s = Some ([], s)"
| "exec_blocks io e (Suc n) block s =
     do { (nr, s) \<leftarrow> bmap io e block s; (nrs, s) \<leftarrow> exec_blocks io e n (block + 1) s; Some (nr # nrs, s) }"

fun zero_down :: "nat \<Rightarrow> u32 \<Rightarrow> 'a mm_scheme \<Rightarrow> 'a mm_scheme" where
  "zero_down 0 tmp s = s"
| "zero_down (Suc n) tmp s = zero_down n (tmp - 1) (set_byte (tmp - 1) 0 s)"

definition do_no_page :: "'a fs_scheme io \<Rightarrow> u32 \<Rightarrow> u32 \<Rightarrow> 'a fs_scheme \<Rightarrow> 'a fs_scheme option" where
  "do_no_page io error_code address s =
     (let address = address AND PAGE_MASK;
          tmp = address - t_start_code (cur_task s)
      in case t_executable (cur_task s) of
           None \<Rightarrow> get_empty_page address s
         | Some e \<Rightarrow>
             if tmp \<ge> t_end_data (cur_task s) then get_empty_page address s
             else do {
               (shared, s) \<leftarrow> share_page tmp s;
               if shared then Some s
               else
                 let (page, s) = get_free_page s
                 in if page = 0 then None
                 else do {
                   (nrs, s) \<leftarrow> exec_blocks io e 4 (uint (1 + tmp div 1024)) s;
                   s \<leftarrow> bread_page io page (uint (i_dev (inode_table s e))) nrs s;
                   let i = sint (tmp + 4096 - t_end_data (cur_task s));
                   let s = zero_down (nat i) (page + 4096) s;
                   let (r, s) = put_page page address s;
                   if r \<noteq> 0 then Some s else None } })"

end
