(* ===== verification/Page_In.thy ===== *)
theory Page_In
  imports Demand_Paging Exec_Args Cached_Files
begin

text \<open>
  A page of a program is loaded when it is first used: \<open>do_no_page\<close> of \<open>mm/memory.c\<close>, \<open>bread_page\<close> of
  \<open>fs/buffer.c\<close> and the block map of the file together fill a fresh frame with the bytes of the file.
\<close>

subsection \<open>Four blocks at once\<close>

text \<open>A buffer that can be taken and read without waiting, and the references that a list of buffers gets.\<close>

definition usable :: "int \<Rightarrow> int \<Rightarrow> nat \<Rightarrow> 'a cache_scheme \<Rightarrow> bool" where
  "usable dev n bh s \<longleftrightarrow> find_buffer dev n s = Some (Some bh) \<and> b_uptodate (buffers s bh) \<and> \<not> b_lock (buffers s bh)"

primrec held :: "nat option list \<Rightarrow> 'a blk_scheme \<Rightarrow> 'a blk_scheme" where
  "held [] s = s"
| "held (b # bs) s = held bs (case b of None \<Rightarrow> s | Some bh \<Rightarrow> hold bh s)"

lemma hold_fields [simp]:
  "b_uptodate (buffers (hold bh s) c) = b_uptodate (buffers s c)" "b_lock (buffers (hold bh s) c) = b_lock (buffers s c)"
  "b_data (buffers (hold bh s) c) = b_data (buffers s c)" "buffer_wait (hold bh t) = buffer_wait t"
  by (simp_all add: update_bh_def)

lemma hold_count:
  "unat (b_count (buffers s c)) + 1 < 256 \<Longrightarrow> unat (b_count (buffers (hold bh s) c)) \<le> unat (b_count (buffers s c)) + 1"
  by (simp add: update_bh_def unat_word_ariths)

lemma held_fields [simp]:
  "b_uptodate (buffers (held bs s) c) = b_uptodate (buffers s c)" "b_lock (buffers (held bs s) c) = b_lock (buffers s c)"
  "b_data (buffers (held bs s) c) = b_data (buffers s c)" "buffer_wait (held bs t) = buffer_wait t"
  by (induction bs arbitrary: s t) (simp_all split: option.split)

lemma held_count:
  "unat (b_count (buffers s c)) + length bs < 256 \<Longrightarrow> unat (b_count (buffers (held bs s) c)) \<le> unat (b_count (buffers s c)) + length bs"
proof (induction bs arbitrary: s)
  case (Cons b bs)
  let ?s = "case b of None \<Rightarrow> s | Some bh \<Rightarrow> hold bh s"
  have "unat (b_count (buffers ?s c)) \<le> unat (b_count (buffers s c)) + 1"
    using hold_count [of s c] Cons.prems by (simp split: option.split)
  then show ?case using Cons.IH [of ?s] Cons.prems by simp
qed simp

lemma hold_commute: "hold b (hold c s) = hold c (hold b s)"
  by (cases "b = c") (auto simp: update_bh_def fun_upd_twist)

lemma held_hold: "held bs (hold b s) = hold b (held bs s)"
  by (induction bs arbitrary: s) (simp_all add: hold_commute [of _ b] split: option.split)

lemma find_buffer_hold [simp]: "find_buffer dev n (hold bh s) = find_buffer dev n s"
  by (rule find_buffer_same) (simp_all add: same_keys_def update_bh_def)

lemma usable_hold [simp]: "usable dev n b (hold bh s) = usable dev n b s"
  unfolding usable_def find_buffer_hold hold_fields by (rule refl)

lemma getblk_usable:
  assumes "usable dev n bh s"
  shows "getblk io dev n s = Some (bh, hold bh s)"
proof -
  have "find_buffer dev n s = Some (Some bh)" "\<not> b_lock (buffers s bh)" using assms by (simp_all add: usable_def)
  moreover from find_buffer_block [OF this(1)] have "is_block dev n ((buffers s bh)\<lparr>b_count := m\<rparr>)" for m by (simp add: is_block_def)
  ultimately have "get_hash_table io dev n s = Some (Some bh, hold bh s)"
    by (subst get_hash_table.simps) simp
  then show ?thesis by (subst getblk.simps) simp
qed

text \<open>The buffers of a list of block numbers, none for 0.\<close>

definition usables :: "int \<Rightarrow> int list \<Rightarrow> nat option list \<Rightarrow> 'a cache_scheme \<Rightarrow> bool" where
  "usables dev ns bs s \<longleftrightarrow> list_all2 (\<lambda>n b. case b of None \<Rightarrow> n = 0 | Some bh \<Rightarrow> n \<noteq> 0 \<and> usable dev n bh s) ns bs"

lemma get_page_blocks_usable:
  "usables dev ns bs s \<Longrightarrow> get_page_blocks io dev ns s = Some (bs, held bs s)"
proof (induction ns arbitrary: bs s)
  case (Cons n ns)
  then obtain b bs' where b: "bs = b # bs'" "case b of None \<Rightarrow> n = 0 | Some bh \<Rightarrow> n \<noteq> 0 \<and> usable dev n bh s" "usables dev ns bs' s"
    by (auto simp: usables_def list_all2_Cons1)
  show ?case
  proof (cases b)
    case None
    then show ?thesis using b Cons.IH [OF b(3)] by simp
  next
    case (Some bh)
    have "usables dev ns bs' (hold bh s)" using b(3) by (simp add: usables_def cong: option.case_cong)
    from Cons.IH [OF this] show ?thesis
      using b Some getblk_usable [of dev n bh s io] by (simp add: usable_def)
  qed
qed (simp add: usables_def)

text \<open>What the copying loop writes.\<close>

fun fill :: "nat option list \<Rightarrow> u32 \<Rightarrow> 'a blk_scheme \<Rightarrow> 'a blk_scheme" where
  "fill [] a s = s"
| "fill (None # bs) a s = fill bs (a + 1024) s"
| "fill (Some bh # bs) a s = fill bs (a + 1024) (write_mem (b_data (buffers s bh)) a s)"

lemma set_byte_hold: "set_byte a c (hold b s) = hold b (set_byte a c s)"
  by (simp add: update_bh_def set_byte_def Let_def)

lemma write_mem_hold: "write_mem d a (hold b s) = hold b (write_mem d a s)"
proof (induction d arbitrary: a s)
  case (Cons c d)
  show ?case unfolding write_mem.simps set_byte_hold by (rule Cons.IH)
qed simp

lemma write_mem_held: "write_mem d a (held bs s) = held bs (write_mem d a s)"
  by (induction bs arbitrary: s) (simp_all add: write_mem_hold split: option.split)

lemma write_mem_buffers [simp]:
  "buffers (write_mem d a s) = buffers s" "buffer_wait (write_mem d a t) = buffer_wait t"
  using write_mem_frame [of d a s] write_mem_frame [of d a t] by auto

lemma copy_page_blocks_held:
  assumes "buffer_wait s = None" "\<And>c. unat (b_count (buffers s c)) + length bs < 256"
    and "\<And>bh. Some bh \<in> set bs \<Longrightarrow> b_uptodate (buffers s bh) \<and> \<not> b_lock (buffers s bh)"
  shows "copy_page_blocks io a bs (held bs s) = Some (fill bs a s)"
  using assms
proof (induction bs a s rule: fill.induct)
  case (2 bs a s)
  have "unat (b_count (buffers s c)) + length bs < 256" for c using "2.prems"(2) [of c] by simp
  then show ?case using "2.IH" "2.prems"(1,3) by simp
next
  case (3 bh bs a s)
  define t where "t = write_mem (b_data (buffers s bh)) a s"
  have bh: "b_uptodate (buffers s bh)" "\<not> b_lock (buffers s bh)" using "3.prems"(3) [of bh] by simp_all
  have "unat (b_count (buffers s bh)) + length bs < 255" using "3.prems"(2) [of bh] by simp
  then have "unat (b_count (buffers (held bs t) bh)) < 255" using held_count [of t bh bs] by (simp add: t_def)
  then have "b_count (buffers (held bs t) bh) \<noteq> 255" by auto
  then have rel: "brelse io (Some bh) (hold bh (held bs t)) = Some (held bs t)"
    using "3.prems"(1) bh by (intro release_hold) (simp_all add: t_def)
  have cnt: "unat (b_count (buffers t c)) + length bs < 256" for c using "3.prems"(2) [of c] by (simp add: t_def)
  have "copy_page_blocks io (a + 1024) bs (held bs t) = Some (fill bs (a + 1024) t)"
    unfolding t_def by (rule "3.IH") (use "3.prems" cnt in \<open>simp_all add: t_def\<close>)
  then show ?case using bh rel by (simp add: held_hold write_mem_hold write_mem_held t_def)
qed simp

lemma bread_page_usable:
  assumes "usables dev ns bs s" "buffer_wait s = None" "\<And>c. unat (b_count (buffers s c)) + length ns < 256"
  shows "bread_page io a dev ns s = Some (fill bs a s)"
proof -
  have "b_uptodate (buffers s bh) \<and> \<not> b_lock (buffers s bh)" if "Some bh \<in> set bs" for bh
  proof -
    obtain k where "k < length bs" "bs ! k = Some bh" using \<open>Some bh \<in> set bs\<close> by (auto simp: in_set_conv_nth)
    then show ?thesis using assms(1) by (auto simp: usables_def list_all2_conv_all_nth usable_def)
  qed
  moreover have "length bs = length ns" using assms(1) by (auto simp: usables_def dest: list_all2_lengthD)
  ultimately show ?thesis
    using assms(2,3) by (simp add: bread_page_def get_page_blocks_usable [OF assms(1)] copy_page_blocks_held)
qed

subsection \<open>What is written\<close>

text \<open>Only words of one frame change.\<close>

definition confined :: "u32 \<Rightarrow> 'a mm_scheme \<Rightarrow> 'a mm_scheme \<Rightarrow> bool" where
  "confined page s s' \<longleftrightarrow> (\<exists>p. s' = s\<lparr>phys := p\<rparr>) \<and> (\<forall>a. \<not> in_page page a \<longrightarrow> phys s' a = phys s a)"

lemma confined_refl: "confined page s s"
  by (auto simp: confined_def intro: exI [of _ "phys s"])

lemma confined_trans: "confined page s s' \<Longrightarrow> confined page s' s'' \<Longrightarrow> confined page s s''"
  unfolding confined_def by auto

lemma confined_byte: "i < PAGING_PAGES \<Longrightarrow> m < 4096 \<Longrightarrow> confined (page_addr i) s (set_byte (page_addr i + of_nat m) c s)"
  unfolding confined_def
  by (intro conjI allI impI set_byte_frame) (auto simp: set_byte_def Let_def unat_in_page in_page_page_addr)

lemma confined_mem:
  "i < PAGING_PAGES \<Longrightarrow> m + length d \<le> 4096 \<Longrightarrow> confined (page_addr i) s (write_mem d (page_addr i + of_nat m) s)"
proof (induction d arbitrary: m s)
  case (Cons c d)
  have "confined (page_addr i) (set_byte (page_addr i + of_nat m) c s)
      (write_mem d (page_addr i + of_nat (Suc m)) (set_byte (page_addr i + of_nat m) c s))"
    using Cons.prems by (intro Cons.IH) simp_all
  moreover have "confined (page_addr i) s (set_byte (page_addr i + of_nat m) c s)" using Cons.prems by (intro confined_byte) simp_all
  ultimately show ?case using confined_trans by (simp add: add.assoc) (simp add: add.commute)
qed (simp add: confined_refl)

text \<open>The buffers hold these blocks; where there is no buffer the block is zeros.\<close>

definition contents :: "u8 list list \<Rightarrow> nat option list \<Rightarrow> 'a blk_scheme \<Rightarrow> bool" where
  "contents ds bs s \<longleftrightarrow> list_all2 (\<lambda>d b. length d = 1024 \<and> d = (case b of None \<Rightarrow> replicate 1024 0 | Some bh \<Rightarrow> b_data (buffers s bh))) ds bs"

lemma write_zeros:
  "(\<And>k. k < n \<Longrightarrow> M (a + of_nat k) = 0) \<Longrightarrow> write_bytes (replicate n 0) a M = M"
proof (induction n arbitrary: a)
  case (Suc n)
  have "M(a := 0) = M" using Suc.prems [of 0] by auto
  moreover have "write_bytes (replicate n 0) (a + 1) M = M"
    using Suc.prems [of "Suc _"] by (intro Suc.IH) (simp add: add.assoc)
  ultimately show ?case by simp
qed simp

lemma in_page_other:
  assumes "i < PAGING_PAGES" "m < 4096" "n < 4096" "m \<noteq> n"
  shows "page_addr i + of_nat m \<noteq> page_addr i + of_nat n"
  using page_addr_inject [of i m i n] assms by blast

lemma fill_bytes:
  assumes i: "i < PAGING_PAGES" and c: "contents ds bs s" and m: "m + 1024 * length bs \<le> 4096"
    and z: "\<And>k. m \<le> k \<Longrightarrow> k < 4096 \<Longrightarrow> mem_byte (page_addr i + of_nat k) s = 0"
  shows "confined (page_addr i) s (fill bs (page_addr i + of_nat m) s)
    \<and> (\<lambda>q. mem_byte q (fill bs (page_addr i + of_nat m) s)) = write_bytes (concat ds) (page_addr i + of_nat m) (\<lambda>q. mem_byte q s)"
  using c m z
proof (induction bs arbitrary: ds m s)
  case Nil
  then show ?case by (simp add: contents_def confined_refl)
next
  case (Cons b bs)
  let ?a = "page_addr i + of_nat m"
  have next': "?a + 1024 = page_addr i + of_nat (m + 1024)" by (simp add: add.assoc)
  obtain d ds' where d: "ds = d # ds'" "length d = 1024"
    "d = (case b of None \<Rightarrow> replicate 1024 0 | Some bh \<Rightarrow> b_data (buffers s bh))" "contents ds' bs s"
    using Cons.prems(1) by (auto simp: contents_def list_all2_Cons2)
  define t where "t = (case b of None \<Rightarrow> s | Some bh \<Rightarrow> write_mem d ?a s)"
  have fl: "fill (b # bs) ?a s = fill bs (page_addr i + of_nat (m + 1024)) t"
    using d(3) unfolding next' [symmetric] by (cases b) (simp_all add: t_def)
  have wt: "confined (page_addr i) s t"
    using confined_mem [OF i, of m d s] Cons.prems(2) d(2) by (auto simp: t_def confined_refl split: option.split)
  have bt: "(\<lambda>q. mem_byte q t) = write_bytes d ?a (\<lambda>q. mem_byte q s)"
  proof (cases b)
    case None
    have "write_bytes (replicate 1024 0) ?a (\<lambda>q. mem_byte q s) = (\<lambda>q. mem_byte q s)"
      using Cons.prems(2) Cons.prems(3) [of "m + _"] by (intro write_zeros) (simp add: add.assoc)
    then show ?thesis using None d(3) by (simp add: t_def)
  next
    case (Some bh)
    then show ?thesis by (simp add: t_def write_mem_phys)
  qed
  have "mem_byte (page_addr i + of_nat k) t = 0" if "m + 1024 \<le> k" "k < 4096" for k
  proof -
    have "mem_byte (page_addr i + of_nat k) t = write_bytes d ?a (\<lambda>q. mem_byte q s) (page_addr i + of_nat k)"
      using bt by (rule fun_cong)
    also have "\<dots> = mem_byte (page_addr i + of_nat k) s"
    proof (rule write_bytes_other)
      fix j assume "j < length d"
      then show "page_addr i + of_nat k \<noteq> ?a + of_nat j"
        using in_page_other [OF i, of k "m + j"] that d(2) by (simp add: add.assoc)
    qed
    finally show ?thesis using Cons.prems(3) [of k] that by simp
  qed
  moreover have "contents ds' bs t" using d(4) by (simp add: contents_def t_def cong: option.case_cong split: option.split)
  ultimately have "confined (page_addr i) t (fill bs (page_addr i + of_nat (m + 1024)) t)
    \<and> (\<lambda>q. mem_byte q (fill bs (page_addr i + of_nat (m + 1024)) t))
      = write_bytes (concat ds') (page_addr i + of_nat (m + 1024)) (\<lambda>q. mem_byte q t)"
    using Cons.prems(2) by (intro Cons.IH) simp_all
  then show ?case
    unfolding fl d(1) concat.simps write_bytes_append bt d(2)
    using confined_trans [OF wt] by (simp add: add.assoc)
qed

text \<open>The loop that clears the bytes after the end of the data.\<close>

lemma zero_down_bytes:
  assumes i: "i < PAGING_PAGES"
  shows "n \<le> m \<Longrightarrow> m \<le> 4096 \<Longrightarrow> confined (page_addr i) s (zero_down n (page_addr i + of_nat m) s)
    \<and> (\<forall>k < 4096. mem_byte (page_addr i + of_nat k) (zero_down n (page_addr i + of_nat m) s)
        = (if m - n \<le> k \<and> k < m then 0 else mem_byte (page_addr i + of_nat k) s))"
proof (induction n arbitrary: m s)
  case (Suc n)
  then obtain p where p: "m = Suc p" by (cases m) auto
  let ?t = "set_byte (page_addr i + of_nat p) 0 s"
  have "page_addr i + of_nat m - 1 = page_addr i + of_nat p" by (simp add: p)
  then have z: "zero_down (Suc n) (page_addr i + of_nat m) s = zero_down n (page_addr i + of_nat p) ?t"
    by (simp only: zero_down.simps)
  have ih: "confined (page_addr i) ?t (zero_down n (page_addr i + of_nat p) ?t)
    \<and> (\<forall>k < 4096. mem_byte (page_addr i + of_nat k) (zero_down n (page_addr i + of_nat p) ?t)
        = (if p - n \<le> k \<and> k < p then 0 else mem_byte (page_addr i + of_nat k) ?t))"
    using Suc.prems p by (intro Suc.IH) simp_all
  have "mem_byte (page_addr i + of_nat k) ?t = (if k = p then 0 else mem_byte (page_addr i + of_nat k) s)" if "k < 4096" for k
    using in_page_other [OF i, of k p] that Suc.prems p by auto
  with ih show ?case
    using confined_trans [OF confined_byte [OF i, of p s 0]] Suc.prems p unfolding z by auto
qed (auto simp: confined_refl)

subsection \<open>Four blocks of a file\<close>

lemma exec_blocks_cached:
  assumes "buffer_wait s = None"
  shows "(\<And>j. k \<le> j \<Longrightarrow> j < k + n \<Longrightarrow> file_zone e j s \<noteq> None) \<Longrightarrow>
    exec_blocks io e n (int k) s = Some (map (\<lambda>j. the (file_zone e j s)) [k..<k + n], s)"
proof (induction n arbitrary: k)
  case (Suc n)
  obtain z where z: "file_zone e k s = Some z" using Suc.prems [of k] by auto
  have "int k + 1 = int (Suc k)" by simp
  moreover have "exec_blocks io e n (int (Suc k)) s = Some (map (\<lambda>j. the (file_zone e j s)) [Suc k..<Suc k + n], s)"
    using Suc.prems by (intro Suc.IH) simp_all
  moreover have "[k..<k + Suc n] = k # [Suc k..<Suc k + n]" by (simp add: upt_conv_Cons del: upt_Suc)
  ultimately show ?case using bmap_cached [OF z assms, of io] z
    by (simp add: add.commute [of "int k"] del: upt_Suc)
qed simp

lemma file_blocks_bytes:
  assumes "\<And>j. k \<le> j \<Longrightarrow> j < k + n \<Longrightarrow> \<exists>d. file_block e j s = Some d \<and> length d = BLOCK_SIZE"
  shows "file_bytes e (1024 * k) (1024 * n) s = concat (map (\<lambda>j. the (file_block e j s)) [k..<k + n])"
  using assms
proof (induction n)
  case (Suc n)
  obtain d where d: "file_block e (k + n) s = Some d" "length d = BLOCK_SIZE" using Suc.prems [of "k + n"] by auto
  have "file_bytes e (1024 * (k + n)) 1024 s = d" using file_bytes_block [of e "1024 * (k + n)" s d 1024] d by simp
  then show ?case using Suc.IH Suc.prems file_bytes_add [of e "1024 * k" "1024 * n" 1024 s] d by (simp add: algebra_simps)
qed (simp add: file_bytes_def)

lemma file_block_usable:
  assumes "file_block e j s = Some d" "length d = BLOCK_SIZE" and n: "file_zone e j s = Some n" and dev: "dev = uint (i_dev (inode_table s e))"
  shows "\<exists>b. (case b of None \<Rightarrow> n = 0 | Some bh \<Rightarrow> n \<noteq> 0 \<and> usable dev n bh s)
    \<and> d = (case b of None \<Rightarrow> replicate 1024 0 | Some bh \<Rightarrow> b_data (buffers s bh))"
proof (cases "n = 0")
  case True
  then show ?thesis using assms by (intro exI [of _ None]) (simp add: file_block_def)
next
  case False
  then have "cached dev n s = Some d" using assms by (simp add: file_block_def)
  then obtain bh where "usable dev n bh s" "b_data (buffers s bh) = d"
    by (auto simp: cached_def usable_def Let_def split: option.splits if_splits)
  then show ?thesis using False by (intro exI [of _ "Some bh"]) auto
qed

lemma file_blocks_usable:
  assumes "\<And>j. j \<in> set js \<Longrightarrow> \<exists>d. file_block e j s = Some d \<and> length d = BLOCK_SIZE"
    and dev: "dev = uint (i_dev (inode_table s e))"
  shows "\<exists>bs. usables dev (map (\<lambda>j. the (file_zone e j s)) js) bs s \<and> contents (map (\<lambda>j. the (file_block e j s)) js) bs s"
  using assms(1)
proof (induction js)
  case Nil
  show ?case by (intro exI [of _ "[]"]) (simp add: usables_def contents_def)
next
  case (Cons j js)
  then obtain bs where bs: "usables dev (map (\<lambda>j. the (file_zone e j s)) js) bs s" "contents (map (\<lambda>j. the (file_block e j s)) js) bs s"
    by auto
  obtain d n where d: "file_block e j s = Some d" "length d = BLOCK_SIZE" "file_zone e j s = Some n"
    using Cons.prems [of j] by (auto simp: file_block_def bind_Some_iff)
  from file_block_usable [OF d dev] obtain b where
    "case b of None \<Rightarrow> n = 0 | Some bh \<Rightarrow> n \<noteq> 0 \<and> usable dev n bh s"
    "d = (case b of None \<Rightarrow> replicate 1024 0 | Some bh \<Rightarrow> b_data (buffers s bh))" by blast
  with bs d show ?case by (intro exI [of _ "b # bs"]) (simp add: usables_def contents_def)
qed

lemma load_file_page:
  assumes ic: "in_core e (1024 * k) 4096 s" and i: "i < PAGING_PAGES" and cnt: "\<And>c. unat (b_count (buffers s c)) < 252"
    and z: "\<And>m. m < 4096 \<Longrightarrow> mem_byte (page_addr i + of_nat m) s = 0"
  shows "\<exists>nrs u. exec_blocks io e 4 (int k) s = Some (nrs, s)
    \<and> bread_page io (page_addr i) (uint (i_dev (inode_table s e))) nrs s = Some u \<and> confined (page_addr i) s u
    \<and> (\<forall>m < 4096. mem_byte (page_addr i + of_nat m) u = file_byte e (1024 * k + m) s)"
proof -
  let ?dev = "uint (i_dev (inode_table s e))" and ?nrs = "map (\<lambda>j. the (file_zone e j s)) [k..<k + 4]"
  have w: "buffer_wait s = None" using ic by (simp add: in_core_def)
  have blocks: "\<exists>d. file_block e j s = Some d \<and> length d = BLOCK_SIZE" if "k \<le> j" "j < k + 4" for j
    using ic that unfolding in_core_def by (auto dest: bspec [of _ _ "1024 * j"])
  then have "file_zone e j s \<noteq> None" if "k \<le> j" "j < k + 4" for j
    using blocks [OF that] by (cases "file_zone e j s") (auto simp: file_block_def)
  then have ex: "exec_blocks io e 4 (int k) s = Some (?nrs, s)" by (intro exec_blocks_cached w)
  obtain bs where bs: "usables ?dev ?nrs bs s" "contents (map (\<lambda>j. the (file_block e j s)) [k..<k + 4]) bs s"
    using file_blocks_usable [of "[k..<k + 4]" e s ?dev] blocks by auto
  have len: "length bs = 4" using bs(2) by (auto simp: contents_def dest: list_all2_lengthD)
  have br: "bread_page io (page_addr i) ?dev ?nrs s = Some (fill bs (page_addr i) s)"
    using cnt by (intro bread_page_usable [OF bs(1) w]) (simp add: less_diff_conv)
  have "confined (page_addr i) s (fill bs (page_addr i) s)
    \<and> (\<lambda>q. mem_byte q (fill bs (page_addr i) s)) = write_bytes (file_bytes e (1024 * k) 4096 s) (page_addr i) (\<lambda>q. mem_byte q s)"
    using fill_bytes [OF i bs(2), of 0] z file_blocks_bytes [of k 4 e s] blocks len by simp
  then have wi: "confined (page_addr i) s (fill bs (page_addr i) s)"
    and bytes: "mem_byte q (fill bs (page_addr i) s) = write_bytes (file_bytes e (1024 * k) 4096 s) (page_addr i) (\<lambda>q. mem_byte q s) q" for q
    by (auto dest: fun_cong)
  have "mem_byte (page_addr i + of_nat m) (fill bs (page_addr i) s) = file_byte e (1024 * k + m) s" if "m < 4096" for m
    using write_bytes_nth [of "file_bytes e (1024 * k) 4096 s" m "page_addr i" "\<lambda>q. mem_byte q s"] that
    by (simp add: bytes) (simp add: file_bytes_byte)
  with ex br wi show ?thesis by blast
qed

subsection \<open>The fault\<close>

lemma confined_keeps:
  "confined page s s' \<Longrightarrow> \<exists>p. s' = s\<lparr>phys := p\<rparr>" "confined page s s' \<Longrightarrow> \<not> in_page page a \<Longrightarrow> phys s' a = phys s a"
  by (simp_all add: confined_def)

lemma page_offset:
  assumes "b AND 0xfff = 0"
  shows "unat ((a AND PAGE_MASK) - b :: u32) mod 4096 = 0"
proof -
  have dvd: "4096 dvd uint x" if "x AND 0xfff = 0" for x :: u32
  proof -
    have "take_bit 12 x = 0" using that by (simp add: take_bit_eq_mask mask_eq_exp_minus_1)
    then have "uint (take_bit 12 x) = 0" by simp
    then have "take_bit 12 (uint x) = 0" by (simp only: unsigned_take_bit_eq)
    then show ?thesis by (simp add: take_bit_eq_mod dvd_eq_mod_eq_0)
  qed
  have "(a AND PAGE_MASK) AND 0xfff = 0" by (simp add: and.assoc)
  then have "4096 dvd uint (a AND PAGE_MASK) - uint b" using dvd assms by (intro dvd_diff)
  then have "4096 dvd uint ((a AND PAGE_MASK) - b)" by (simp add: uint_word_ariths dvd_mod_iff)
  then have "int 4096 dvd int (unat ((a AND PAGE_MASK) - b))" by simp
  then show ?thesis by (simp only: int_dvd_int_iff mod_eq_0_iff_dvd)
qed

lemma masked_address:
  "pg_dir_entry (a AND PAGE_MASK) = pg_dir_entry a" "4 * (drop_bit 12 (a AND PAGE_MASK) AND 0x3ff) = drop_bit 10 a AND (0xffc :: u32)"
proof -
  have pm: "PAGE_MASK = NOT (mask 12)" and c: "(0x3ff :: u32) = mask 10" "(0xffc :: u32) = push_bit 2 (mask 10)"
    by (simp_all add: mask_eq_exp_minus_1)
  have "drop_bit 20 (a AND PAGE_MASK) = drop_bit 20 a" unfolding pm by (rule bit_word_eqI) (auto simp: bit_simps dest: bit_imp_le_length)
  then show "pg_dir_entry (a AND PAGE_MASK) = pg_dir_entry a" by (simp add: pg_dir_entry_def)
  have four: "4 * x = push_bit 2 x" for x :: u32 by (simp add: push_bit_eq_mult mult.commute)
  show "4 * (drop_bit 12 (a AND PAGE_MASK) AND 0x3ff) = drop_bit 10 a AND (0xffc :: u32)"
    unfolding four pm c by (rule bit_word_eqI) (auto simp: bit_simps dest: bit_imp_le_length)
qed

lemma put_page_present:
  assumes "mem_long (pg_dir_entry address) s AND 1 \<noteq> 0"
  shows "put_page page (address AND PAGE_MASK) s = (page, set_long (table_entry_of address s) (page OR 7) s)"
  using assms unfolding put_page_def masked_address table_entry_of_def Let_def by (simp add: add.commute)

lemma get_free_page_highest:
  assumes "mm_ok s" "i < PAGING_PAGES" "mem_map s ! i = 0" "\<forall>j. i < j \<and> j < PAGING_PAGES \<longrightarrow> mem_map s ! j \<noteq> 0"
  shows "get_free_page s = (page_addr i, clear_page (page_addr i) (set_map i 1 s))"
  using assms(1)
proof (cases rule: get_free_page_cases)
  case none
  with assms show ?thesis by blast
next
  case (some k)
  then have "\<not> i < k" "\<not> k < i" using assms by blast+
  then have "k = i" by simp
  with some show ?thesis by simp
qed

lemma dir_not_in_frame: "i < PAGING_PAGES \<Longrightarrow> \<not> in_page (page_addr i) (unat (pg_dir_entry a) div 4)"
  using pg_dir_entry_less [of a] by (simp add: in_page_page_addr)

lemma in_frame: "i < PAGING_PAGES \<Longrightarrow> m < 4096 \<Longrightarrow> in_page (page_addr i) (unat (page_addr i + of_nat m) div 4)"
  by (auto simp: unat_in_page in_page_page_addr)

lemma sint_past_end:
  assumes "unat (tmp :: u32) < unat (e :: u32)" "unat e < 2 ^ 31"
  shows "nat (sint (tmp + 4096 - e)) = unat tmp + 4096 - unat e"
proof -
  define x where "x = uint tmp + 4096 - uint e"
  have "int (unat tmp) < int (unat e)" "int (unat e) < int (2 ^ 31)" using assms by (simp_all only: of_nat_less_iff)
  then have "uint tmp < uint e" "uint e < 2 ^ 31" by simp_all
  then have x: "0 \<le> x + 2 ^ 31" "x + 2 ^ 31 < 2 ^ 32" using uint_ge_0 [of tmp] unfolding x_def by (linarith, simp)
  have "tmp + 4096 - e = word_of_int x" by (simp add: x_def)
  then have "sint (tmp + 4096 - e) = (x + 2 ^ 31) mod 2 ^ 32 - 2 ^ 31" by (simp only: int_word_sint) simp
  then have "sint (tmp + 4096 - e) = x" using mod_pos_pos_trivial [OF x] by simp
  then show ?thesis by (simp only: x_def uint_nat)
qed

lemma block_of_offset:
  assumes "unat (tmp :: u32) mod 4096 = 0"
  shows "1024 * (1 + unat tmp div 1024) = 1024 + unat tmp" "uint (1 + tmp div 1024) = int (1 + unat tmp div 1024)"
proof -
  have "unat tmp mod 1024 = 0" using assms mod_mod_cancel [of 1024 4096 "unat tmp"] by simp
  then show "1024 * (1 + unat tmp div 1024) = 1024 + unat tmp" by (simp add: mod_eq_0_iff_dvd)
  have "unat (tmp div 1024) = unat tmp div 1024" by (simp add: unat_div)
  moreover have "unat tmp < 2 ^ 32" using unsigned_less [of tmp] by simp
  ultimately have "unat (1 + tmp div 1024) = 1 + unat tmp div 1024" by (simp add: unat_word_ariths)
  then show "uint (1 + tmp div 1024) = int (1 + unat tmp div 1024)" by (metis uint_nat)
qed

lemma load_program_page:
  assumes "in_core e (1024 * k) 4096 s" and i: "i < PAGING_PAGES" and "\<And>c. unat (b_count (buffers s c)) < 252"
    and "\<And>m. m < 4096 \<Longrightarrow> mem_byte (page_addr i + of_nat m) s = 0" and n: "n \<le> 4096"
  shows "\<exists>nrs u. exec_blocks io e 4 (int k) s = Some (nrs, s)
    \<and> bread_page io (page_addr i) (uint (i_dev (inode_table s e))) nrs s = Some u \<and> confined (page_addr i) s u
    \<and> confined (page_addr i) s (zero_down n (page_addr i + 4096) u)
    \<and> (\<forall>m < 4096. mem_byte (page_addr i + of_nat m) (zero_down n (page_addr i + 4096) u)
         = (if m < 4096 - n then file_byte e (1024 * k + m) s else 0))"
proof -
  from load_file_page [OF assms(1-4)] obtain nrs u where u: "exec_blocks io e 4 (int k) s = Some (nrs, s)"
    "bread_page io (page_addr i) (uint (i_dev (inode_table s e))) nrs s = Some u" "confined (page_addr i) s u"
    "\<forall>m < 4096. mem_byte (page_addr i + of_nat m) u = file_byte e (1024 * k + m) s" by blast
  then show ?thesis
    using zero_down_bytes [OF i n, of u] confined_trans [OF u(3)] by (intro exI [of _ nrs] exI [of _ u]) auto
qed

text \<open>
  C9. A fault on a page of the program text or data that is not there: when nobody else runs the
  file, its four blocks are in the cache or are holes, the page table is there and a frame is free, \<open>do_no_page\<close>
  takes the highest free frame, fills it with the bytes of the file from 1024 after the offset in the
  program on (the first block is the header), with zeros from the end of the data on, and enters it in
  the page table, present, writable and for the user. It changes nothing else: the buffers it held are
  released, no other frame is marked, no other word of memory differs.
\<close>

theorem do_no_page_loads:
  fixes s :: "'a fs_scheme"
  assumes frame: "mm_ok s" "i < PAGING_PAGES" "mem_map s ! i = 0" "\<forall>j. i < j \<and> j < PAGING_PAGES \<longrightarrow> mem_map s ! j \<noteq> 0"
    and table: "mem_long (pg_dir_entry address) s AND 1 \<noteq> 0"
      "\<not> in_page (page_addr i) (unat (table_entry_of address s) div 4)"
    and exe: "t_executable (cur_task s) = Some e" "i_count (inode_table s e) < 2"
    and layout: "t_start_code (cur_task s) AND 0xfff = 0" "unat (t_end_data (cur_task s)) < 2 ^ 31"
    and off: "off = unat ((address AND PAGE_MASK) - t_start_code (cur_task s))" "off < unat (t_end_data (cur_task s))"
    and cache: "in_core e (1024 + off) 4096 s" "\<forall>c. b_count (buffers s c) < 252"
  shows "\<exists>s'. do_no_page io error_code address s = Some s' \<and> (\<exists>p. s' = s\<lparr>mem_map := (mem_map s)[i := 1], phys := p\<rparr>)
    \<and> mem_long (table_entry_of address s) s' = page_addr i OR 7
    \<and> (\<forall>m < 4096. mem_byte (page_addr i + of_nat m) s'
         = (if off + m < unat (t_end_data (cur_task s)) then file_byte e (1024 + off + m) s else 0))
    \<and> (\<forall>a. \<not> in_page (page_addr i) a \<and> a \<noteq> unat (table_entry_of address s) div 4 \<longrightarrow> phys s' a = phys s a)"
proof -
  let ?tmp = "(address AND PAGE_MASK) - t_start_code (cur_task s)" and ?lim = "t_end_data (cur_task s)"
    and ?page = "page_addr i" and ?entry = "table_entry_of address s"
  define t where "t = clear_page ?page (set_map i 1 s)"
  define n where "n = off + 4096 - unat ?lim"
  have al: "unat ?tmp mod 4096 = 0" by (rule page_offset [OF layout(1)])
  note blk = block_of_offset [OF al, folded off(1)]
  have t_eq: "\<exists>p. t = s\<lparr>mem_map := (mem_map s)[i := 1], phys := p\<rparr>"
    by (auto simp: t_def clear_page_def set_map_def)
  have same: "buffers t = buffers s" "hash_table t = hash_table s" "buffer_wait t = buffer_wait s"
    "inode_table t = inode_table s" "tasks t = tasks s" "current t = current s" using t_eq by auto
  have n: "n \<le> 4096" "nat (sint (?tmp + 4096 - ?lim)) = n"
    using sint_past_end [of ?tmp ?lim] off layout(2) by (simp_all add: n_def)
  have "in_core e (1024 * (1 + off div 1024)) 4096 t"
    using cache(1) in_core_cong(1) [of t s e] same blk(1) by simp
  moreover have "unat (b_count (buffers t c)) < 252" for c
    using cache(2) [rule_format, of c] same(1) by (simp add: word_less_nat_alt)
  moreover have "mem_byte (?page + of_nat m) t = 0" if "m < 4096" for m
    using mem_byte_clear [OF frame(2,2) that] by (simp add: t_def)
  ultimately obtain nrs u where u: "exec_blocks io e 4 (int (1 + off div 1024)) t = Some (nrs, t)"
    "bread_page io ?page (uint (i_dev (inode_table t e))) nrs t = Some u" "confined ?page t u"
    "confined ?page t (zero_down n (?page + 4096) u)"
    "\<forall>m < 4096. mem_byte (?page + of_nat m) (zero_down n (?page + 4096) u)
      = (if m < 4096 - n then file_byte e (1024 * (1 + off div 1024) + m) t else 0)"
    using load_program_page [OF _ frame(2) _ _ n(1), where e = e and k = "1 + off div 1024" and s = t and io = io] by blast
  define v where "v = zero_down n (?page + 4096) u"
  have "file_byte e p t = file_byte e p s" for p
    unfolding file_byte_def using file_block_cong [of t s e] same by simp
  then have v: "confined ?page t v" "\<forall>m < 4096. mem_byte (?page + of_nat m) v
      = (if off + m < unat ?lim then file_byte e (1024 + off + m) s else 0)"
    using u(4,5) blk(1) off(2) by (auto simp: v_def n_def)
  obtain p where p: "v = t\<lparr>phys := p\<rparr>" using confined_keeps(1) [OF v(1)] by blast
  obtain q where q: "v = s\<lparr>mem_map := (mem_map s)[i := 1], phys := q\<rparr>" using p t_eq by auto
  have dir: "mem_long (pg_dir_entry address) v = mem_long (pg_dir_entry address) s"
    using confined_keeps(2) [OF v(1) dir_not_in_frame [OF frame(2)]] dir_not_in_frame [OF frame(2)]
    by (simp add: mem_long_def t_def clear_page_def)
  then have entry: "table_entry_of address v = ?entry" by (simp add: table_entry_of_def)
  have put: "put_page ?page (address AND PAGE_MASK) v = (?page, set_long ?entry (?page OR 7) v)"
    using put_page_present [of address v ?page] table(1) dir entry by simp
  have sh: "share_page ?tmp s = Some (False, s)" using exe by (simp add: share_page_def)
  have gf: "get_free_page s = (?page, t)" unfolding t_def by (rule get_free_page_highest [OF frame])
  have "do_no_page io error_code address s = Some (set_long ?entry (?page OR 7) v)"
  proof -
    have le: "\<not> ?lim \<le> ?tmp" using off by (simp add: word_le_nat_alt)
    have "tasks u = tasks s" "current u = current s" using confined_keeps(1) [OF u(3)] same by auto
    then show ?thesis using frame(2) u(1,2) blk(2) n(2) put
      unfolding do_no_page_def Let_def exe(1) off(1)
      by (simp add: le sh gf same v_def)
  qed
  moreover have "mem_byte (?page + of_nat m) (set_long ?entry (?page OR 7) v) = mem_byte (?page + of_nat m) v" if "m < 4096" for m
    using table(2) in_frame [OF frame(2) that] by (auto simp: mem_byte_def set_long_def)
  moreover have "phys v a = phys s a" if "\<not> in_page ?page a" for a
    using confined_keeps(2) [OF v(1) that] that by (simp add: t_def clear_page_def)
  ultimately show ?thesis using v(2) q
    by (intro exI [of _ "set_long ?entry (?page OR 7) v"]) (auto simp: mem_long_def set_long_def)
qed

text \<open>
  The program is inode 2 of the small file system: its first block is not at hand, but blocks 1 to 4 are
  (block 1 is block 3 of the disk, the others are holes). It has 512 bytes, so that
  only half of block 1 survives.
\<close>

definition exec_fs :: fs where
  "exec_fs = boot_fs\<lparr>
     tasks := (\<lambda>_. INIT_TASK\<lparr>t_executable := Some 2, t_start_code := 0x4000000, t_end_data := 0x200\<rparr>),
     inode_table := (inode_table boot_fs)(2 := (inode_table boot_fs 2)\<lparr>i_zone := 0 # 3 # replicate 7 0\<rparr>),
     phys := (phys boot_fs)(16 := 0x1007)\<rparr>"

lemma exec_fs_fields:
  "buffers exec_fs = buffers boot_fs" "hash_table exec_fs = hash_table boot_fs" "buffer_wait exec_fs = None"
  "cur_task exec_fs = INIT_TASK\<lparr>t_executable := Some 2, t_start_code := 0x4000000, t_end_data := 0x200\<rparr>"
  "mem_map exec_fs = mem_map boot_mm" "phys exec_fs = (\<lambda>_. 0)(16 := 0x1007)"
  "i_dev (inode_table exec_fs 2) = 0x101" "i_zone (inode_table exec_fs 2) = 0 # 3 # replicate 7 0" "i_count (inode_table exec_fs 2) = 1"
  by (simp_all add: exec_fs_def boot_fs_fields boot_mm_phys fun_eq_iff)
    (simp add: boot_fs_def cache.defs boot_cache_def blk.defs boot_blk_def mm.defs)

lemma exec_fs_blocks:
  "file_block 2 1 exec_fs = Some (replicate 1024 7)" "2 \<le> k \<Longrightarrow> k < 5 \<Longrightarrow> file_block 2 k exec_fs = Some (replicate 1024 0)"
proof -
  have "cached 0x101 3 exec_fs = Some (replicate 1024 7)"
    using cached_cong [OF exec_fs_fields(1,2), of 257 3] boot_fs_cached by simp
  then show "file_block 2 1 exec_fs = Some (replicate 1024 7)" by (simp add: file_block_def file_zone_def zone_of_def exec_fs_fields)
  assume "2 \<le> k" "k < 5"
  then have "k = 2 \<or> k = 3 \<or> k = 4" by auto
  then show "file_block 2 k exec_fs = Some (replicate 1024 0)"
    by (auto simp: file_block_def file_zone_def zone_of_def exec_fs_fields nth_Cons')
qed

lemma exec_fs_in_core: "in_core 2 1024 4096 exec_fs"
  unfolding in_core_def
proof (intro conjI ballI)
  fix p :: nat assume "p \<in> {1024..<1024 + 4096}"
  then have "p div 1024 = 1 \<or> 2 \<le> p div 1024 \<and> p div 1024 < 5" by auto
  then show "\<exists>d. file_block 2 (p div 1024) exec_fs = Some d \<and> length d = BLOCK_SIZE" using exec_fs_blocks by auto
qed (simp add: exec_fs_fields)

theorem do_no_page_loads_witness:
  "\<exists>s'. do_no_page fs_io 4 0x4000123 exec_fs = Some s' \<and> mem_byte 0xfff1ff s' = 7 \<and> mem_byte 0xfff200 s' = 0
     \<and> phys s' 0x400 = 0xfff007"
proof -
  have te: "table_entry_of 0x4000123 exec_fs = 0x1000" "mem_long (pg_dir_entry 0x4000123) exec_fs = 0x1007"
    by (simp_all add: table_entry_of_def mem_long_def pg_dir_entry_def exec_fs_fields)
  have pa: "page_addr 3839 = 0xfff000" by (simp add: page_addr_def push_bit_eq_mult)
  have frame: "mm_ok exec_fs" "mem_map exec_fs ! 3839 = 0" "\<forall>j. 3839 < j \<and> j < PAGING_PAGES \<longrightarrow> mem_map exec_fs ! j \<noteq> 0"
    using boot_mm_ok boot_mm_map [of 3839] by (auto simp: mm_ok_def exec_fs_fields)
  have cnt: "\<forall>c. b_count (buffers exec_fs c) < 252"
    by (simp add: exec_fs_fields boot_fs_fields boot_cache_fields new_bh_def)
  have byte: "file_byte 2 1535 exec_fs = 7" using exec_fs_blocks(1) by (simp add: file_byte_def)
  obtain s' where s': "do_no_page fs_io 4 0x4000123 exec_fs = Some s'"
    "mem_long (table_entry_of 0x4000123 exec_fs) s' = page_addr 3839 OR 7"
    "\<forall>m < 4096. mem_byte (page_addr 3839 + of_nat m) s'
       = (if 0 + m < unat (t_end_data (cur_task exec_fs)) then file_byte 2 (1024 + 0 + m) exec_fs else 0)"
    using do_no_page_loads [OF frame(1) _ frame(2,3), of "0x4000123" 2 0 fs_io 4] te pa cnt exec_fs_in_core
    by (simp add: exec_fs_fields(4,9) in_page_def) blast
  have "mem_byte 0xfff1ff s' = 7" using s'(3) [rule_format, of "0x1ff"] byte by (simp add: pa exec_fs_fields(4))
  moreover have "mem_byte 0xfff200 s' = 0" using s'(3) [rule_format, of "0x200"] by (simp add: pa exec_fs_fields(4))
  moreover have "phys s' 0x400 = 0xfff007" using s'(2) by (simp add: te pa mem_long_def)
  ultimately show ?thesis using s'(1) by blast
qed

end
