(* ===== verification/Starvation.thy ===== *)
theory Starvation
  imports Sched
begin

text \<open>
  The scheduler does not starve a task. Between two calls of \<open>schedule()\<close> the task that was picked
  runs: it uses at least one tick of its slice (\<open>do_timer\<close> takes one off its counter), and it and the
  interrupts may change everything else, but only a task itself takes itself off the run queue, and only
  \<open>schedule()\<close> gives out new slices. In such a run every runnable task is picked within a number of
  rounds given by the slices and priorities at the start.
\<close>

subsection \<open>Rounds\<close>

definition ran :: "'a sched_scheme \<Rightarrow> 'a sched_scheme \<Rightarrow> bool" where
  "ran s s' \<longleftrightarrow> task s' = task s \<and> (\<forall>q. t_priority (tasks s' q) = t_priority (tasks s q))
     \<and> (\<forall>q. q \<noteq> current s \<longrightarrow> t_counter (tasks s' q) = t_counter (tasks s q))
     \<and> 0 \<le> t_counter (tasks s' (current s))
     \<and> (0 < t_counter (tasks s (current s)) \<longrightarrow> t_counter (tasks s' (current s)) < t_counter (tasks s (current s)))
     \<and> (\<forall>q. q \<noteq> current s \<longrightarrow> runnable s q \<longrightarrow> runnable s' q)"

definition round_of :: "'a sched_scheme \<Rightarrow> 'a sched_scheme \<Rightarrow> bool" where
  "round_of s s' \<longleftrightarrow> (\<exists>t. schedule s = Some t \<and> ran t s')"

subsection \<open>What is left of the slices\<close>

definition slot_tasks :: "'a sched_scheme \<Rightarrow> nat set" where
  "slot_tasks s = {q. \<exists>i \<in> {1..<NR_TASKS}. task s ! i = Some q}"

definition slices :: "'a sched_scheme \<Rightarrow> int" where
  "slices s = (\<Sum>q \<in> slot_tasks s. t_counter (tasks s q))"

definition quantum :: "'a sched_scheme \<Rightarrow> nat \<Rightarrow> int" where
  "quantum s i = (case task s ! i of None \<Rightarrow> 0 | Some q \<Rightarrow> t_priority (tasks s q))"

definition quanta :: "'a sched_scheme \<Rightarrow> int" where
  "quanta s = sum_list (map (quantum s) task_slots)"

lemma finite_slot_tasks [simp]: "finite (slot_tasks s)"
proof (rule finite_subset)
  show "slot_tasks s \<subseteq> (\<lambda>i. the (task s ! i)) ` {1..<NR_TASKS}"
    unfolding slot_tasks_def by force
qed simp

lemma slot_tasks_same: "task s' = task s \<Longrightarrow> slot_tasks s' = slot_tasks s"
  by (simp add: slot_tasks_def)

lemma quanta_same: "task s' = task s \<Longrightarrow> (\<And>q. t_priority (tasks s' q) = t_priority (tasks s q)) \<Longrightarrow> quanta s' = quanta s"
proof -
  assume "task s' = task s" "\<And>q. t_priority (tasks s' q) = t_priority (tasks s q)"
  then have "quantum s' = quantum s" by (auto simp: quantum_def fun_eq_iff split: option.split)
  then show ?thesis by (simp add: quanta_def)
qed

lemma runnable_slot: "runnable s q \<Longrightarrow> q \<in> slot_tasks s"
  by (auto simp: runnable_def slot_tasks_def)

lemma slot_task_ok:
  assumes "sched_ok s" "q \<in> slot_tasks s"
  shows "0 \<le> t_counter (tasks s q)" "0 < t_priority (tasks s q)"
proof -
  obtain i where "i \<in> {1..<NR_TASKS}" "task s ! i = Some q" using assms(2) by (auto simp: slot_tasks_def)
  then have "q \<in> task_ptrs s" using assms(1) by (intro task_ptrsI) (auto simp: sched_ok_def)
  then show "0 \<le> t_counter (tasks s q)" "0 < t_priority (tasks s q)" using assms(1) by (auto simp: sched_ok_def)
qed

lemma slices_nonneg: "sched_ok s \<Longrightarrow> 0 \<le> slices s"
  unfolding slices_def by (intro sum_nonneg slot_task_ok)

lemma recharge_slices:
  assumes "sched_ok s" "i \<in> {1..<NR_TASKS}"
  shows "slices (recharge i s) \<le> slices s + quantum s i"
proof (cases "task s ! i")
  case None
  then show ?thesis by (simp add: recharge_def quantum_def)
next
  case (Some q)
  let ?c = "\<lambda>s q. t_counter (tasks s q)"
  have q: "q \<in> slot_tasks s" using Some assms(2) by (auto simp: slot_tasks_def)
  have "slices (recharge i s) = (\<Sum>r \<in> slot_tasks s. ?c (recharge i s) r)"
    using slot_tasks_same [of "recharge i s" s] by (simp add: slices_def recharge_def Some)
  also have "\<dots> = ?c (recharge i s) q + (\<Sum>r \<in> slot_tasks s - {q}. ?c s r)"
    by (simp add: sum.remove [OF _ q] recharge_def Some)
  also have "\<dots> \<le> ?c s q + t_priority (tasks s q) + (\<Sum>r \<in> slot_tasks s - {q}. ?c s r)"
    using slot_task_ok [OF assms(1) q] by (simp add: recharge_def Some)
  also have "\<dots> = slices s + quantum s i"
    by (simp add: slices_def sum.remove [OF _ q] quantum_def Some)
  finally show ?thesis .
qed

lemma recharge_frame:
  assumes "sched_ok s"
  shows "sched_ok (recharge i s)" "task (recharge i s) = task s" "t_priority (tasks (recharge i s) q) = t_priority (tasks s q)"
proof -
  note only = recharge_only [of s i]
  show "sched_ok (recharge i s)" using sched_ok_only [OF only assms] by (simp add: recharged_def)
  show "task (recharge i s) = task s" "t_priority (tasks (recharge i s) q) = t_priority (tasks s q)"
    using only_tasks_simps (1) [OF only] only_tasks_simps (4) [OF only, of q] by (simp_all add: recharged_def)
qed

lemma recharge_fold_slices:
  "sched_ok s \<Longrightarrow> set xs \<subseteq> {1..<NR_TASKS} \<Longrightarrow> slices (fold recharge xs s) \<le> slices s + sum_list (map (quantum s) xs)"
proof (induction xs arbitrary: s)
  case (Cons x xs)
  have "quantum (recharge x s) = quantum s"
    using recharge_frame [OF Cons.prems(1)] by (auto simp: quantum_def fun_eq_iff split: option.split)
  then show ?case
    using Cons.IH [of "recharge x s"] Cons.prems recharge_frame [OF Cons.prems(1)] recharge_slices [of s x] by force
qed simp

subsection \<open>One call of \<open>schedule\<close>\<close>

lemma check_signals_runnable: "runnable s p \<Longrightarrow> runnable (fold check_signals xs s) p"
proof -
  have "only_tasks (\<lambda>t u. t_state t = TASK_RUNNING \<longrightarrow> t_state u = TASK_RUNNING) s (fold check_signals xs s)"
  proof (rule only_tasks_fold)
    fix i and s :: "'a sched_scheme"
    show "only_tasks (\<lambda>t u. t_state t = TASK_RUNNING \<longrightarrow> t_state u = TASK_RUNNING) s (check_signals i s)"
      unfolding only_tasks_def check_signals_def set_state_def update_task_def
      by (auto simp: Let_def split: option.split intro!: exI)
  qed auto
  note * = only_tasks_simps [OF this]
  show "runnable s p \<Longrightarrow> runnable (fold check_signals xs s) p"
    using * (1) * (4) [of p] by (simp add: runnable_def)
qed

text \<open>Either the counters are kept, or the slice of \<open>p\<close> was used up and all tasks were recharged once.\<close>

lemma schedule_loop_slices:
  assumes ok: "sched_ok s" and p: "runnable s p" and r: "schedule_loop s = Some (n, s')"
  shows "s' = s \<or> s' = recharge_all s \<and> t_counter (tasks s p) = 0"
proof (cases "fst (pick_next s) = 0")
  case False
  with r show ?thesis by (subst (asm) schedule_loop.simps) (simp add: split_beta)
next
  case True
  let ?s = "recharge_all s"
  obtain i where i: "i \<in> {1..<NR_TASKS}" "task s ! i = Some p" using p by (auto simp: runnable_def)
  have c: "0 \<le> t_counter (tasks s p)" "0 < t_priority (tasks s p)"
    using slot_task_ok [OF ok runnable_slot [OF p]] .
  have "t_counter (tasks s p) \<le> fst (pick_next s)"
    using pick_next_spec (1) [of s "fst (pick_next s)" "snd (pick_next s)"] p by simp
  then have 0: "t_counter (tasks s p) = 0" using c True by simp
  have only: "only_tasks recharged s ?s" by (simp add: recharge_all_def recharge_fold_only)
  have "0 < t_counter (tasks ?s p)"
    using recharge_fold_pos [of i task_slots s p] i c by (simp add: recharge_all_def)
  moreover have "runnable ?s p" using runnable_only [OF only] p by (simp add: recharged_def)
  ultimately have "fst (pick_next ?s) \<noteq> 0"
    using pick_next_spec (1) [of ?s "fst (pick_next ?s)" "snd (pick_next ?s)"] by (metis less_le_not_le prod.collapse)
  with r True show ?thesis
    by (subst (asm) schedule_loop.simps, subst (asm) schedule_loop.simps) (simp add: split_beta 0)
qed

lemma schedule_slices:
  assumes ok: "sched_ok s" and p: "runnable s p" and t: "schedule s = Some t"
  shows "task t = task s" "\<forall>q. t_priority (tasks t q) = t_priority (tasks s q)" "runnable t p"
    "slices t = slices s \<and> t_counter (tasks t p) = t_counter (tasks s p)
     \<or> t_counter (tasks s p) = 0 \<and> slices t \<le> slices s + quanta s \<and> 0 < t_counter (tasks t p)"
proof -
  let ?s1 = "fold check_signals task_slots s"
  have only1: "only_tasks same_slice s ?s1" by (rule check_signals_only)
  have task1: "task ?s1 = task s" using only_tasks_simps [OF only1] by simp
  have same1: "t_counter (tasks ?s1 q) = t_counter (tasks s q)" "t_priority (tasks ?s1 q) = t_priority (tasks s q)" for q
    using only_tasks_simps (4) [OF only1, of q] by (simp_all add: same_slice_def)
  obtain n s2 where loop: "schedule_loop ?s1 = Some (n, s2)" "switch_to n s2 = Some t"
    using t by (auto simp: schedule_def bind_Some_iff)
  obtain c where tc: "t = s2\<lparr>current := c\<rparr>" using loop(2) by (auto simp: switch_to_def split: option.splits)
  have ok1: "sched_ok ?s1" using sched_ok_only [OF only1 ok] by (simp add: same_slice_def)
  have p1: "runnable ?s1 p" using p by (rule check_signals_runnable)
  have sl1: "slices ?s1 = slices s" "quanta ?s1 = quanta s"
    using quanta_same [OF task1 same1(2)] by (simp_all add: slices_def slot_tasks_same [OF task1] same1)
  have only2: "only_tasks recharged ?s1 (recharge_all ?s1)" by (simp add: recharge_all_def recharge_fold_only)
  have cases: "s2 = ?s1 \<or> s2 = recharge_all ?s1 \<and> t_counter (tasks ?s1 p) = 0"
    using schedule_loop_slices [OF ok1 p1 loop(1)] .
  have 2: "task s2 = task ?s1" "t_priority (tasks s2 q) = t_priority (tasks ?s1 q)" "runnable s2 p" for q
    using cases only_tasks_simps (1) [OF only2] only_tasks_simps (4) [OF only2, of q] runnable_only [OF only2] p1
    by (auto simp: recharged_def)
  show "task t = task s" "\<forall>q. t_priority (tasks t q) = t_priority (tasks s q)" using 2 tc task1 same1 by simp_all
  show "runnable t p" using 2(3) tc by (simp add: runnable_def)
  have st: "slices t = slices s2" by (simp add: tc slices_def slot_tasks_def)
  show "slices t = slices s \<and> t_counter (tasks t p) = t_counter (tasks s p)
     \<or> t_counter (tasks s p) = 0 \<and> slices t \<le> slices s + quanta s \<and> 0 < t_counter (tasks t p)"
  proof (cases "s2 = ?s1")
    case True
    then show ?thesis using st sl1 same1 tc by simp
  next
    case False
    with cases have s2: "s2 = recharge_all ?s1" "t_counter (tasks ?s1 p) = 0" by auto
    obtain i where i: "i \<in> {1..<NR_TASKS}" "task ?s1 ! i = Some p" using p1 by (auto simp: runnable_def)
    have "0 < t_counter (tasks s2 p)"
      using recharge_fold_pos [of i task_slots ?s1 p] i slot_task_ok [OF ok1 runnable_slot [OF p1]] s2
      by (simp add: recharge_all_def)
    moreover have "slices s2 \<le> slices ?s1 + quanta ?s1"
      using recharge_fold_slices [OF ok1, of task_slots] s2 by (simp add: recharge_all_def quanta_def)
    ultimately show ?thesis using st sl1 s2(2) same1 tc by simp
  qed
qed

lemma slices_decrease:
  assumes q: "q \<in> slot_tasks s" and "task s' = task s" "\<forall>r. r \<noteq> q \<longrightarrow> t_counter (tasks s' r) = t_counter (tasks s r)"
    "t_counter (tasks s' q) < t_counter (tasks s q)"
  shows "slices s' < slices s"
proof -
  have "(\<Sum>r \<in> slot_tasks s - {q}. t_counter (tasks s' r)) = (\<Sum>r \<in> slot_tasks s - {q}. t_counter (tasks s r))"
    using assms by (intro sum.cong) auto
  with assms(4) show ?thesis
    by (simp add: slices_def slot_tasks_same [OF assms(2)] sum.remove [OF _ q])
qed

subsection \<open>No starvation\<close>

text \<open>
  One round in which \<open>p\<close> is not picked: the table stays sane, \<open>p\<close> runnable, and the slices get less,
  unless this is the round in which the slice of \<open>p\<close> is renewed.
\<close>

lemma round_slices:
  assumes ok: "sched_ok s" and p: "runnable s p" and t: "schedule s = Some t" "current t \<noteq> p" and r: "ran t s'"
  shows "sched_ok s'" "runnable s' p" "quanta s' = quanta s"
    "slices s' < slices s \<and> t_counter (tasks s' p) = t_counter (tasks s p)
     \<or> t_counter (tasks s p) = 0 \<and> slices s' < slices s + quanta s \<and> 0 < t_counter (tasks s' p)"
proof -
  note t1 = schedule_slices [OF ok p t(1)]
  have okt: "sched_ok t" and cur: "runnable t (current t)"
    using schedule_spec [OF ok] t(1) t1(3) by (auto split: if_splits)
  have task: "task s' = task t" using r by (simp add: ran_def)
  have q: "current t \<in> slot_tasks t" using runnable_slot [OF cur] .
  have pos: "0 < t_counter (tasks t (current t))"
    using schedule_spec [OF ok] t(1) t1(3) by (auto split: if_splits)
  show "quanta s' = quanta s" using r t1 by (intro quanta_same) (simp_all add: ran_def)
  show "runnable s' p" using r t1(3) t(2) by (simp add: ran_def)
  have "slices s' < slices t" using r pos by (intro slices_decrease [OF q task]) (simp_all add: ran_def)
  moreover have "t_counter (tasks s' p) = t_counter (tasks t p)" using r t(2) by (simp add: ran_def)
  ultimately show "slices s' < slices s \<and> t_counter (tasks s' p) = t_counter (tasks s p)
     \<or> t_counter (tasks s p) = 0 \<and> slices s' < slices s + quanta s \<and> 0 < t_counter (tasks s' p)"
    using t1(4) by auto
  show "sched_ok s'"
    using okt r unfolding sched_ok_def ran_def task_ptrs_def by (metis mem_Collect_eq)
qed

text \<open>The number of rounds left: while the slice of \<open>p\<close> is empty the recharge is still to come.\<close>

definition rounds_left :: "nat \<Rightarrow> 'a sched_scheme \<Rightarrow> int" where
  "rounds_left p s = slices s + (if t_counter (tasks s p) = 0 then quanta s else 0)"

lemma quanta_nonneg: "sched_ok s \<Longrightarrow> 0 \<le> quanta s"
  unfolding quanta_def
proof (rule sum_list_nonneg)
  fix x assume ok: "sched_ok s" and "x \<in> set (map (quantum s) task_slots)"
  then obtain i where i: "i \<in> {1..<NR_TASKS}" "x = quantum s i" unfolding set_map set_task_slots by blast
  show "0 \<le> x"
  proof (cases "task s ! i")
    case (Some q)
    with i have "q \<in> slot_tasks s" unfolding slot_tasks_def by blast
    with slot_task_ok (2) [OF ok] i(2) Some show ?thesis by (simp add: quantum_def less_imp_le)
  qed (use i in \<open>simp add: quantum_def\<close>)
qed

lemma round_left:
  assumes "sched_ok s" "runnable s p" "schedule s = Some t" "current t \<noteq> p" "ran t s'"
  shows "rounds_left p s' < rounds_left p s"
  using round_slices [OF assms] quanta_nonneg [OF assms(1)] by (auto simp: rounds_left_def)

definition picked :: "nat \<Rightarrow> 'a sched_scheme \<Rightarrow> bool" where
  "picked p s \<longleftrightarrow> (\<exists>t. schedule s = Some t \<and> current t = p)"

lemma not_picked_rounds:
  assumes ok: "sched_ok (r 0)" "runnable (r 0) p" and rounds: "\<forall>n. round_of (r n) (r (Suc n))"
    and never: "\<forall>m < n. \<not> picked p (r m)"
  shows "sched_ok (r n) \<and> runnable (r n) p \<and> rounds_left p (r n) + int n \<le> rounds_left p (r 0)"
  using never
proof (induction n)
  case (Suc n)
  then have IH: "sched_ok (r n)" "runnable (r n) p" "rounds_left p (r n) + int n \<le> rounds_left p (r 0)" by auto
  obtain t where t: "schedule (r n) = Some t" "ran t (r (Suc n))" using rounds by (auto simp: round_of_def)
  then have "current t \<noteq> p" using Suc.prems by (auto simp: picked_def)
  with round_slices [OF IH(1,2) t(1) _ t(2)] round_left [OF IH(1,2) t(1) _ t(2)] IH show ?case by auto
qed (use ok in simp)


subsection \<open>Every sane table has such a run\<close>

definition use_tick :: "'a sched_scheme \<Rightarrow> 'a sched_scheme" where
  "use_tick s = update_task (current s) (\<lambda>t. t\<lparr>t_counter := t_counter t - 1\<rparr>) s"

fun tick_run :: "'a sched_scheme \<Rightarrow> nat \<Rightarrow> 'a sched_scheme" where
  "tick_run s 0 = s"
| "tick_run s (Suc n) = use_tick (the (schedule (tick_run s n)))"

lemma tick_run_ok:
  assumes "sched_ok s" "runnable s p"
  shows "sched_ok (tick_run s n) \<and> runnable (tick_run s n) p \<and> round_of (tick_run s n) (tick_run s (Suc n))"
proof (induction n)
  have step: "round_of s (use_tick (the (schedule s))) \<and> sched_ok (use_tick (the (schedule s)))
      \<and> runnable (use_tick (the (schedule s))) p"
    if a: "sched_ok s" "runnable s p" for s :: "'a sched_scheme"
  proof -
    obtain t where t: "schedule s = Some t" using schedule_returns [OF a(1)] by blast
    note t1 = schedule_slices [OF a t]
    have okt: "sched_ok t" and pos: "0 < t_counter (tasks t (current t))"
      using schedule_spec [OF a(1)] t t1(3) by (auto split: if_splits)
    have run: "runnable (use_tick t) q = runnable t q" for q
      by (simp add: use_tick_def runnable_def)
    have "ran t (use_tick t)" using pos run by (auto simp: ran_def use_tick_def)
    moreover have "sched_ok (use_tick t)" using okt pos by (auto simp: use_tick_def sched_ok_def task_ptrs_def)
    ultimately show ?thesis using t t1(3) run by (auto simp: round_of_def)
  qed
  { case 0
    show ?case using step [OF assms] assms by simp }
  { case (Suc n)
    then show ?case using step [of "tick_run s n"] step [of "tick_run s (Suc n)"] by auto }
qed

definition ready_task :: sched where
  "ready_task = update_task 7 (\<lambda>t. t\<lparr>t_state := TASK_RUNNING\<rparr>) two_tasks"


end
