(* ===== verification/Spec2Isabelle.thy ===== *)
theory Spec2Isabelle
  imports Build Syscall_Correct Mktime Vsprintf Dir_Calls Files Inode_Disk Directory Pipe Signal Kill Wait Console_Screen
    Cstring_Correct Malloc Exec_Args Page_In Starvation Hd_Correct Boot Boot_Correct
begin

text \<open>
  The kernel of Linux 0.11 (\<open>src/linux-0.11\<close>): its scheduler, memory manager, terminals, block devices, buffer
  cache, file system and process calls, from the start of \<open>main\<close> to the entry of a system call, and the tool
  that builds its disk image.


  \<^bold>\<open>The state.\<close> The globals of the C files are the fields of records that extend each other in the order in
  which the files depend on each other: \<open>sched\<close> (the tasks, \<open>current\<close>, \<open>jiffies\<close>, and \<open>umem\<close>, the memory that
  \<open>fs\<close> selects), \<open>timers\<close>, \<open>tty\<close> (the terminals and the ports), \<open>mm\<close> (\<open>mem_map\<close> and physical memory \<open>phys\<close>),
  \<open>blk\<close> (buffer heads and requests), \<open>cache\<close> (hash table and free list), \<open>fs\<close> (inodes, files, super blocks),
  \<open>kern\<close> (\<open>gdt\<close>), \<open>sys\<close> (the console), \<open>hdd\<close>, \<open>fdd\<close>, \<open>machine\<close> (\<open>idt\<close>); \<open>kmalloc\<close> extends \<open>mm\<close>. An operation is a
  function on every state that has its fields, so that a theorem about a part applies to the whole machine.
  A task is named by the address of its page, a buffer, inode, file or request by its index in its table.

  \<^bold>\<open>Results.\<close> An operation that may stop the machine (\<open>panic\<close>), or sleep and never be woken, has an option as
  its result, and \<open>None\<close> says that it does not return. An error is a negative number, as in the source. What ends
  the current task, or takes a program elsewhere, is a sum (\<open>do_signal\<close>, \<open>system_call\<close>).

  \<^bold>\<open>Parameters.\<close> What is not C code under \<open>src/\<close> is an argument. \<open>environment\<close> says what other tasks and
  interrupts did while the current task slept; the record \<open>io\<close> holds the calls behind function pointers
  (\<open>request_fn\<close>, \<open>floppy_change\<close>) and \<open>write_inodes\<close>, through which the buffer cache calls the file system;
  \<open>machine_io\<close> of \<open>Syscall\<close> fills them with the drivers of the model. The hardware is \<open>device\<close> and \<open>port_in\<close>, what
  reading a port gives after the writes and reads so far. The theorems that need something of it say so: \<open>clock\<close>
  (the registers of the clock stand still), \<open>drive_ok\<close> (the disk reports no error), \<open>tty_driver\<close> (a driver leaves
  the input queues alone).


  \<^bold>\<open>The theories.\<close>

  \<^item> \<open>Prelude\<close>, \<open>Chain\<close>, \<open>Fifo\<close>: machine types, wrap-around, error numbers, lists linked in memory, byte queues.
    The locale \<open>fifo\<close> is the contract of a byte queue, interpreted for the rings of the terminals.
  \<^item> \<open>Sched\<close>, \<open>Starvation\<close> (\<open>kernel/sched.c\<close>, \<open>include/linux/sched.h\<close>): \<open>schedule\<close>, sleeping and waking. The locale
    \<open>wait_queue\<close> is the contract of \<open>sleep_on\<close> and \<open>wake_up\<close> on a queue; each component interprets it for its
    own queues. Shown: \<open>schedule\<close> returns and picks the runnable task with the largest slice, wakes the tasks
    whose signals or alarms came, and starves no task.
  \<^item> \<open>Timers\<close> (\<open>kernel/sched.c\<close>): the timer queue, the motors of the floppies, \<open>do_timer\<close>. Shown: \<open>add_timer\<close> against
    a list of delays, with the delay it gets wrong.
  \<^item> \<open>Ctype\<close>, \<open>Cstring\<close>, \<open>Cstring_Correct\<close>, \<open>Vsprintf\<close>, \<open>Mktime\<close> (\<open>lib/ctype.c\<close>, \<open>include/string.h\<close>, \<open>kernel/vsprintf.c\<close>,
    \<open>kernel/mktime.c\<close>): the string instructions with their flags and counters against operations on lists, the
    digits of \<open>number\<close>, the calendar.
  \<^item> \<open>Tty\<close>, \<open>Char_Dev\<close> (\<open>kernel/chr_drv/tty_io.c\<close>, \<open>serial.c\<close>, \<open>tty_ioctl.c\<close>, \<open>fs/char_dev.c\<close>, \<open>fs/ioctl.c\<close>): queues, the
    line editor, reads and writes. Shown: \<open>copy_to_cooked\<close> refines an editor of lines for every driver of the
    locale \<open>tty_driver\<close>, interpreted for \<open>rs_write\<close>; what a canonical \<open>tty_read\<close> returns.
  \<^item> \<open>Console\<close>, \<open>Console_Safe\<close>, \<open>Console_Run\<close>, \<open>Console_Screen\<close> (\<open>kernel/chr_drv/console.c\<close>): the escape sequences and
    the screen. Shown: nothing is written outside the video memory; the two ways to scroll agree.
  \<^item> \<open>Memory\<close>, \<open>Mem_Frame\<close>, \<open>Demand_Paging\<close>, \<open>Page_In\<close>, \<open>Malloc\<close> (\<open>mm/memory.c\<close>, \<open>lib/malloc.c\<close>): frames, page
    tables, copy on write, the allocator of the kernel, and loading on demand. Shown: a fault on a page of a
    program fills a free frame with the bytes of its file, read through the block map and the buffer cache.
  \<^item> \<open>Blk\<close>, \<open>Rd_Load\<close>, \<open>Hd\<close>, \<open>Hd_Correct\<close>, \<open>Floppy\<close> (\<open>kernel/blk_drv/\<close>): requests and the elevator, the RAM disk, the two
    disk drivers as state machines driven by their interrupts. Shown: the elevator keeps its order and loses no
    request; what is written to the RAM disk is read back; the commands and the data of a read from the hard disk.
  \<^item> \<open>Buffer\<close>, \<open>Cache\<close> (\<open>fs/buffer.c\<close>): \<open>cache_ok\<close> is the invariant of the hash chains and the free list, which
    \<open>getblk\<close> keeps and \<open>buffer_init\<close> establishes.
  \<^item> \<open>Fs\<close>, \<open>Bitmap\<close>, \<open>Inode\<close>, \<open>Namei\<close>, \<open>Dir_Calls\<close>, \<open>Mount\<close>, \<open>File_IO\<close>, \<open>Files\<close> (\<open>fs/\<close>): the file system; \<open>Cached_Files\<close>,
    \<open>Alloc\<close>, \<open>Inode_Disk\<close>, \<open>Directory\<close>, \<open>Pipe\<close> hold its properties: reads and writes against the bytes of a file,
    the block map, the bit maps, the format of an inode, the search of a directory, pipes as queues.
  \<^item> \<open>Sys\<close>, \<open>Exit\<close>, \<open>Kill\<close>, \<open>Wait\<close>, \<open>Signal\<close>, \<open>Fork\<close>, \<open>Fork_Correct\<close>, \<open>Exec\<close>, \<open>Exec_Args\<close> (\<open>kernel/sys.c\<close>, \<open>exit.c\<close>,
    \<open>signal.c\<close>, \<open>fork.c\<close>, \<open>fs/exec.c\<close>): processes. Shown: \<open>fork\<close> when it succeeds and when it fails, the counts of
    the open files, \<open>waitpid\<close>, \<open>kill\<close>, and the stack on which a new program finds its arguments.
  \<^item> \<open>Boot\<close>, \<open>Boot_Correct\<close> (\<open>kernel/traps.c\<close>, \<open>init/main.c\<close>, \<open>kernel/math/\<close>): the gates, the handlers, the coprocessor,
    and \<open>main\<close> up to the move to user mode, with the state it leaves.
  \<^item> \<open>Syscall\<close>, \<open>Syscall_Correct\<close> (\<open>kernel/system_call.s\<close>, \<open>include/linux/sys.h\<close>, \<open>include/unistd.h\<close>, \<open>lib/\<close>): the table
    of the system calls over all of the above, their way in and out, and the delivery of signals.
  \<^item> \<open>Build\<close> (\<open>tools/build.c\<close>): the image of the kernel on the boot disk.


  \<^bold>\<open>Bounds.\<close> Loops that may not end are partial functions into options. Three functions count how deep they may
  call themselves, where the source would run out of its stack: \<open>con_write d\<close> (a report of the console can be
  echoed, and the echo written again; \<open>con_write_safe\<close> holds for every \<open>d\<close>), \<open>do_fd_request d\<close> (a request that
  fails starts the next one), and \<open>kernel_io n\<close> (\<open>getblk\<close> writes inodes back, which calls \<open>getblk\<close>). At 0 they give
  \<open>None\<close>, which is never a result of the modelled code. The theorems on reads and writes of files hold for every
  \<open>io\<close>, since the blocks they use are in the cache.


  \<^bold>\<open>Not modelled.\<close> The assembler of \<open>boot/\<close>, \<open>keyboard.S\<close>, \<open>rs_io.s\<close>, \<open>asm.s\<close> and \<open>page.s\<close>, apart from what its C
  callers see; \<open>init\<close> of \<open>init/main.c\<close>, a user program; the messages of \<open>printk\<close>, and \<open>show_task\<close>, \<open>show_stat\<close> and
  \<open>calc_mem\<close>, which only print; the registers of the coprocessor; interrupts in the middle of an operation, apart
  from the places where the source sleeps: the code runs with interrupts off, or its queues have one reader and
  one writer. The memory of a program is \<open>umem\<close>, not read through its page tables: the pages behind it are kept
  in \<open>phys\<close> only as far as the memory manager counts, shares and copies them.
\<close>

end
